(* ===== verification/Prelude.thy ===== *)
theory Prelude
  imports Main "HOL-Library.Sublist"
begin

text \<open>
  Shared material of the development: the theorem collections the component proofs use, the
  result type of the code's fallible operations, decimal printing, and generic lemmas on lists.

  A Go function that returns \<open>(T, error)\<close> is modelled by a value of \<open>err + T\<close>: \<open>Inl e\<close> is the
  error branch. Errors the code compares by identity (\<open>ErrJobNotFound\<close>, \<open>ErrQueueEmpty\<close>) are
  constructors; errors that are only printed carry their text.
\<close>

named_theorems go_simps
  \<open>unfolding equations of the string and path functions\<close>
named_theorems store_simps
  \<open>unfolding equations of the database primitives\<close>
named_theorems store_ops
  \<open>definitions of the operations of the job store\<close>
named_theorems queue_ops
  \<open>definitions of the operations of the queue\<close>

datatype err =
    ErrJobNotFound
  | ErrQueueEmpty
  | ErrDb string        \<comment> \<open>an error of the database driver, passed through\<close>
  | ErrMsg string       \<comment> \<open>an error built with \<open>fmt.Errorf\<close> or \<open>errors.New\<close>\<close>

type_synonym 'a result = "err + 'a"

fun is_ok :: "'a result \<Rightarrow> bool" where
  "is_ok (Inr _) = True"
| "is_ok (Inl _) = False"

lemma is_ok_iff: "is_ok r \<longleftrightarrow> (\<exists>a. r = Inr a)"
  by (cases r) auto

subsection \<open>Decimal printing (the verb \<open>%d\<close>)\<close>

definition digit_char :: "nat \<Rightarrow> char" where
  "digit_char d = (char_of (48 + d) :: char)"

fun nat_digits :: "nat \<Rightarrow> string" where
  "nat_digits n = (if n < 10 then [digit_char n] else nat_digits (n div 10) @ [digit_char (n mod 10)])"

declare nat_digits.simps [simp del]

definition itoa :: "int \<Rightarrow> string" where
  "itoa i = (if i < 0 then CHR ''-'' # nat_digits (nat (- i)) else nat_digits (nat i))"

definition is_digit :: "char \<Rightarrow> bool" where
  "is_digit c = (48 \<le> (of_char c :: nat) \<and> (of_char c :: nat) \<le> 57)"

definition digit_val :: "char \<Rightarrow> nat" where
  "digit_val c = (of_char c :: nat) - 48"

text \<open>The value of a digit string, the inverse of printing.\<close>

definition digits_val :: "string \<Rightarrow> nat" where
  "digits_val s = foldl (\<lambda>a c. 10 * a + digit_val c) 0 s"

lemma digit_char_digit [simp]: "d < 10 \<Longrightarrow> is_digit (digit_char d)"
  by (simp add: digit_char_def is_digit_def)

lemma digit_val_char [simp]: "d < 10 \<Longrightarrow> digit_val (digit_char d) = d"
  by (simp add: digit_char_def digit_val_def)

lemma nat_digits_nonempty [simp]: "nat_digits n \<noteq> []"
  by (subst nat_digits.simps) simp

lemma nat_digits_all: "list_all is_digit (nat_digits n)"
proof (induction n rule: nat_digits.induct)
  case (1 n)
  then show ?case by (subst nat_digits.simps) auto
qed

lemma digits_val_nat_digits [simp]: "digits_val (nat_digits n) = n"
proof (induction n rule: nat_digits.induct)
  case (1 n)
  show ?case
  proof (cases "n < 10")
    case True
    then show ?thesis by (subst nat_digits.simps) (simp add: digits_val_def)
  next
    case False
    then have "digits_val (nat_digits n) = 10 * digits_val (nat_digits (n div 10)) + n mod 10"
      by (subst nat_digits.simps) (simp add: digits_val_def)
    with 1 False show ?thesis by simp
  qed
qed

lemma nat_digits_inj: "nat_digits m = nat_digits n \<longleftrightarrow> m = n"
  by (metis digits_val_nat_digits)

subsection \<open>Lists\<close>

text \<open>Keeping the last \<open>n\<close> elements, as a bounded history does.\<close>

definition take_last :: "nat \<Rightarrow> 'a list \<Rightarrow> 'a list" where
  "take_last n xs = drop (length xs - n) xs"

lemma length_take_last [simp]: "length (take_last n xs) = min n (length xs)"
  by (auto simp: take_last_def)

lemma take_last_snoc_short: "length xs < n \<Longrightarrow> take_last n (xs @ [x]) = take_last n xs @ [x]"
  by (simp add: take_last_def)

lemma take_last_snoc_full:
  "0 < n \<Longrightarrow> n \<le> length xs \<Longrightarrow> take_last n (xs @ [x]) = tl (take_last n xs) @ [x]"
  by (simp add: take_last_def Suc_diff_le drop_Suc tl_drop)

lemma suffix_take_last: "suffix (take_last n xs) xs"
  by (simp add: take_last_def suffix_drop)

text \<open>Insertion sort on a non-strict order given as a function: SQL's \<open>ORDER BY\<close>. It is stable:
  rows the order does not separate keep their relative position.\<close>

fun insort_by :: "('a \<Rightarrow> 'a \<Rightarrow> bool) \<Rightarrow> 'a \<Rightarrow> 'a list \<Rightarrow> 'a list" where
  "insort_by le x [] = [x]"
| "insort_by le x (y # ys) = (if le x y then x # y # ys else y # insort_by le x ys)"

fun sort_by :: "('a \<Rightarrow> 'a \<Rightarrow> bool) \<Rightarrow> 'a list \<Rightarrow> 'a list" where
  "sort_by le [] = []"
| "sort_by le (x # xs) = insort_by le x (sort_by le xs)"

lemma set_insort_by [simp]: "set (insort_by le x xs) = insert x (set xs)"
  by (induction xs) auto

lemma set_sort_by [simp]: "set (sort_by le xs) = set xs"
  by (induction xs) auto

lemma length_insort_by [simp]: "length (insort_by le x xs) = Suc (length xs)"
  by (induction xs) auto

lemma length_sort_by [simp]: "length (sort_by le xs) = length xs"
  by (induction xs) auto

lemma sort_by_Nil_iff [simp]: "sort_by le xs = [] \<longleftrightarrow> xs = []"
  by (metis length_0_conv length_sort_by)

lemma distinct_insort_by [simp]: "distinct (insort_by le x xs) \<longleftrightarrow> x \<notin> set xs \<and> distinct xs"
  by (induction xs) auto

lemma distinct_sort_by [simp]: "distinct (sort_by le xs) \<longleftrightarrow> distinct xs"
  by (induction xs) auto

definition total_preorder :: "('a \<Rightarrow> 'a \<Rightarrow> bool) \<Rightarrow> bool" where
  "total_preorder le \<longleftrightarrow> (\<forall>x y. le x y \<or> le y x) \<and> (\<forall>x y z. le x y \<longrightarrow> le y z \<longrightarrow> le x z)"

lemma sorted_wrt_insort_by:
  assumes "total_preorder le" and "sorted_wrt le xs"
  shows "sorted_wrt le (insort_by le x xs)"
  using assms(2)
proof (induction xs)
  case Nil
  then show ?case by simp
next
  case (Cons y ys)
  then show ?case using assms(1)
    by (cases "le x y") (auto simp: total_preorder_def)
qed

lemma sorted_wrt_sort_by: "total_preorder le \<Longrightarrow> sorted_wrt le (sort_by le xs)"
  by (induction xs) (auto intro: sorted_wrt_insort_by)

lemma sort_by_hd_least:
  assumes "total_preorder le" and "sort_by le xs = y # ys" and "x \<in> set xs"
  shows "le y x"
proof -
  have "sorted_wrt le (y # ys)" using sorted_wrt_sort_by [OF assms(1), of xs] assms(2) by simp
  moreover have "x = y \<or> x \<in> set ys" using assms(2,3) set_sort_by [of le xs] by auto
  moreover have "le y y" using assms(1) by (auto simp: total_preorder_def)
  ultimately show ?thesis by auto
qed

text \<open>Updating the rows of a table that satisfy a condition.\<close>

definition map_where :: "('a \<Rightarrow> bool) \<Rightarrow> ('a \<Rightarrow> 'a) \<Rightarrow> 'a list \<Rightarrow> 'a list" where
  "map_where P f xs = map (\<lambda>x. if P x then f x else x) xs"

lemma set_map_where: "set (map_where P f xs) = f ` {x \<in> set xs. P x} \<union> {x \<in> set xs. \<not> P x}"
  by (auto simp: map_where_def)

lemma map_map_where [simp]:
  "(\<And>x. k (f x) = k x) \<Longrightarrow> map k (map_where P f xs) = map k xs"
  by (simp add: map_where_def)

lemma length_map_where [simp]: "length (map_where P f xs) = length xs"
  by (simp add: map_where_def)

lemma map_where_id: "(\<And>x. x \<in> set xs \<Longrightarrow> \<not> P x) \<Longrightarrow> map_where P f xs = xs"
  by (induction xs) (auto simp: map_where_def)

lemma find_map_where:
  assumes "\<And>x. k (f x) = k x"
  shows "find (\<lambda>x. k x = i) (map_where P f xs)
       = map_option (\<lambda>x. if P x then f x else x) (find (\<lambda>x. k x = i) xs)"
  using assms by (induction xs) (auto simp: map_where_def)

text \<open>The lexicographic order of byte strings, which SQL's \<open>BINARY\<close> collation and
  \<open>sort.Strings\<close> use.\<close>

fun str_le :: "string \<Rightarrow> string \<Rightarrow> bool" where
  "str_le [] _ = True"
| "str_le (x # xs) [] = False"
| "str_le (x # xs) (y # ys) =
     ((of_char x :: nat) < of_char y \<or> (x = y \<and> str_le xs ys))"

definition str_lt :: "string \<Rightarrow> string \<Rightarrow> bool" where
  "str_lt a b \<longleftrightarrow> str_le a b \<and> a \<noteq> b"

lemma str_le_refl [simp]: "str_le s s"
  by (induction s) auto

lemma str_le_total: "str_le a b \<or> str_le b a"
proof (induction a b rule: str_le.induct)
  case (3 x xs y ys)
  then show ?case
    by (metis of_char_eq_iff linorder_neqE_nat str_le.simps(3))
qed auto

lemma str_le_antisym: "str_le a b \<Longrightarrow> str_le b a \<Longrightarrow> a = b"
proof (induction a b rule: str_le.induct)
  case (1 b)
  then show ?case by (cases b) auto
qed auto

lemma str_le_trans: "str_le a b \<Longrightarrow> str_le b c \<Longrightarrow> str_le a c"
proof (induction a c arbitrary: b rule: str_le.induct)
  case (2 x xs)
  then show ?case by (cases b) auto
next
  case (3 x xs z zs)
  then obtain y ys where b: "b = y # ys" by (cases b) auto
  show ?case using 3 b by auto
qed auto

end
