(* ===== verification/GoStrings.thy ===== *)
theory GoStrings
  imports Prelude
begin

text \<open>
  The functions of Go's package \<open>strings\<close> that the program uses, on byte strings: a HOL \<open>char\<close>
  is one byte, as an element of a Go string is. Case mapping and white space are those of ASCII:
  bytes from 128 on are left alone, where Go would also map and trim non-ASCII runes.
\<close>

subsection \<open>Prefixes, suffixes, substrings\<close>

definition HasPrefix :: "string \<Rightarrow> string \<Rightarrow> bool" where
  "HasPrefix s p \<longleftrightarrow> take (length p) s = p"

definition HasSuffix :: "string \<Rightarrow> string \<Rightarrow> bool" where
  "HasSuffix s p \<longleftrightarrow> length p \<le> length s \<and> drop (length s - length p) s = p"

definition TrimPrefix :: "string \<Rightarrow> string \<Rightarrow> string" where
  "TrimPrefix s p = (if HasPrefix s p then drop (length p) s else s)"

definition TrimSuffix :: "string \<Rightarrow> string \<Rightarrow> string" where
  "TrimSuffix s p = (if HasSuffix s p then take (length s - length p) s else s)"

fun Index :: "string \<Rightarrow> string \<Rightarrow> nat option" where
  "Index [] sub = (if sub = [] then Some 0 else None)"
| "Index (c # cs) sub = (if HasPrefix (c # cs) sub then Some 0 else map_option Suc (Index cs sub))"

definition Contains :: "string \<Rightarrow> string \<Rightarrow> bool" where
  "Contains s sub \<longleftrightarrow> Index s sub \<noteq> None"

fun IndexByte :: "string \<Rightarrow> char \<Rightarrow> nat option" where
  "IndexByte [] c = None"
| "IndexByte (x # xs) c = (if x = c then Some 0 else map_option Suc (IndexByte xs c))"

fun LastIndexByte :: "string \<Rightarrow> char \<Rightarrow> nat option" where
  "LastIndexByte [] c = None"
| "LastIndexByte (x # xs) c =
     (case LastIndexByte xs c of Some i \<Rightarrow> Some (Suc i) | None \<Rightarrow> if x = c then Some 0 else None)"

definition ContainsAny :: "string \<Rightarrow> string \<Rightarrow> bool" where
  "ContainsAny s chars \<longleftrightarrow> list_ex (\<lambda>c. c \<in> set chars) s"

text \<open>\<open>strings.Cut\<close>: the text before and after the first separator, and whether there is one.\<close>

definition Cut :: "string \<Rightarrow> string \<Rightarrow> string \<times> string \<times> bool" where
  "Cut s sep = (case Index s sep of
       None \<Rightarrow> (s, [], False)
     | Some i \<Rightarrow> (take i s, drop (i + length sep) s, True))"

subsection \<open>Case, white space, trimming\<close>

definition lower_char :: "char \<Rightarrow> char" where
  "lower_char c = (if 65 \<le> (of_char c :: nat) \<and> (of_char c :: nat) \<le> 90
                   then char_of ((of_char c :: nat) + 32) else c)"

definition upper_char :: "char \<Rightarrow> char" where
  "upper_char c = (if 97 \<le> (of_char c :: nat) \<and> (of_char c :: nat) \<le> 122
                   then char_of ((of_char c :: nat) - 32) else c)"

definition ToLower :: "string \<Rightarrow> string" where
  "ToLower s = map lower_char s"

definition ToUpper :: "string \<Rightarrow> string" where
  "ToUpper s = map upper_char s"

definition EqualFold :: "string \<Rightarrow> string \<Rightarrow> bool" where
  "EqualFold a b \<longleftrightarrow> ToLower a = ToLower b"

definition is_space :: "char \<Rightarrow> bool" where
  "is_space c \<longleftrightarrow> (of_char c :: nat) \<in> {9, 10, 11, 12, 13, 32}"

definition trim_left_by :: "(char \<Rightarrow> bool) \<Rightarrow> string \<Rightarrow> string" where
  "trim_left_by P s = dropWhile P s"

definition trim_right_by :: "(char \<Rightarrow> bool) \<Rightarrow> string \<Rightarrow> string" where
  "trim_right_by P s = rev (dropWhile P (rev s))"

definition TrimSpace :: "string \<Rightarrow> string" where
  "TrimSpace s = trim_right_by is_space (trim_left_by is_space s)"

definition Trim :: "string \<Rightarrow> string \<Rightarrow> string" where
  "Trim s cutset = trim_right_by (\<lambda>c. c \<in> set cutset) (trim_left_by (\<lambda>c. c \<in> set cutset) s)"

definition TrimLeft :: "string \<Rightarrow> string \<Rightarrow> string" where
  "TrimLeft s cutset = trim_left_by (\<lambda>c. c \<in> set cutset) s"

definition TrimRight :: "string \<Rightarrow> string \<Rightarrow> string" where
  "TrimRight s cutset = trim_right_by (\<lambda>c. c \<in> set cutset) s"

subsection \<open>Splitting and joining\<close>

text \<open>\<open>strings.Split\<close> with a one-byte separator: always at least one piece.\<close>

fun Split :: "string \<Rightarrow> char \<Rightarrow> string list" where
  "Split [] sep = [[]]"
| "Split (c # cs) sep =
     (if c = sep then [] # Split cs sep
      else (case Split cs sep of [] \<Rightarrow> [[c]] | p # ps \<Rightarrow> (c # p) # ps))"

text \<open>\<open>strings.SplitN(s, sep, 2)\<close> with a one-byte separator.\<close>

definition SplitN2 :: "string \<Rightarrow> char \<Rightarrow> string list" where
  "SplitN2 s sep = (case IndexByte s sep of
       None \<Rightarrow> [s] | Some i \<Rightarrow> [take i s, drop (Suc i) s])"

fun Join :: "string list \<Rightarrow> string \<Rightarrow> string" where
  "Join [] sep = []"
| "Join [p] sep = p"
| "Join (p # q # ps) sep = p @ sep @ Join (q # ps) sep"

text \<open>\<open>strings.Fields\<close>: the maximal runs of non-space bytes.\<close>

function Fields :: "string \<Rightarrow> string list" where
  "Fields s = (case dropWhile is_space s of
       [] \<Rightarrow> []
     | c # cs \<Rightarrow> (c # takeWhile (\<lambda>x. \<not> is_space x) cs) # Fields (dropWhile (\<lambda>x. \<not> is_space x) cs))"
  by pat_completeness auto
termination
proof (relation "measure length", simp_all)
  fix s c cs assume "dropWhile is_space s = c # cs"
  then have "length (c # cs) \<le> length s" by (metis length_dropWhile_le)
  moreover have "length (dropWhile (\<lambda>x. \<not> is_space x) cs) \<le> length cs"
    by (rule length_dropWhile_le)
  ultimately show "length (dropWhile (\<lambda>x. \<not> is_space x) cs) < length s" by simp
qed

declare Fields.simps [simp del]

text \<open>\<open>strings.ReplaceAll\<close> of one byte by a string.\<close>

definition ReplaceByte :: "string \<Rightarrow> char \<Rightarrow> string \<Rightarrow> string" where
  "ReplaceByte s c r = concat (map (\<lambda>x. if x = c then r else [x]) s)"

text \<open>\<open>strconv.Quote\<close>, the verb \<open>%q\<close>, on ASCII text.\<close>

definition hex_digit :: "nat \<Rightarrow> char" where
  "hex_digit d = (char_of (if d < 10 then 48 + d else 87 + d) :: char)"

definition quote_char :: "char \<Rightarrow> string" where
  "quote_char c = (let n = (of_char c :: nat) in
     if n = 34 then [CHR 0x5C, CHR 0x22]
     else if n = 92 then [CHR 0x5C, CHR 0x5C]
     else if n = 7 then CHR 0x5C # ''a'' else if n = 8 then CHR 0x5C # ''b''
     else if n = 9 then CHR 0x5C # ''t'' else if n = 10 then CHR 0x5C # ''n''
     else if n = 11 then CHR 0x5C # ''v'' else if n = 12 then CHR 0x5C # ''f''
     else if n = 13 then CHR 0x5C # ''r''
     else if n < 32 \<or> n = 127 then [CHR 0x5C, CHR ''x'', hex_digit (n div 16), hex_digit (n mod 16)]
     else [c])"

definition Quote :: "string \<Rightarrow> string" where
  "Quote s = CHR 0x22 # concat (map quote_char s) @ [CHR 0x22]"

subsection \<open>Numbers in text\<close>

definition signed_digits :: "string \<Rightarrow> bool \<times> string" where
  "signed_digits s = (case s of
       c # cs \<Rightarrow> if c = CHR ''-'' then (True, cs) else if c = CHR ''+'' then (False, cs) else (False, s)
     | [] \<Rightarrow> (False, s))"

text \<open>\<open>strconv.ParseInt(s, 10, 64)\<close> and, on a 64-bit machine, \<open>strconv.Atoi\<close>: the value and whether there
  was no error. Out of range, the value is the nearest one that fits.\<close>

definition Atoi :: "string \<Rightarrow> int \<times> bool" where
  "Atoi s = (let (neg, ds) = signed_digits s;
                 n = (if neg then - int (digits_val ds) else int (digits_val ds))
     in if ds = [] \<or> \<not> list_all is_digit ds then (0, False)
        else if n < - (2 ^ 63) then (- (2 ^ 63), False)
        else if 2 ^ 63 \<le> n then (2 ^ 63 - 1, False)
        else (n, True))"

text \<open>\<open>fmt.Sscanf(v, "%d", &n)\<close>: \<open>None\<close> leaves the variable as it was.\<close>

definition sscanf_d :: "string \<Rightarrow> int option" where
  "sscanf_d v =
    (let (neg, t) = signed_digits (dropWhile (\<lambda>c. c = CHR '' '' \<or> c = CHR 0x09) v);
         ds = takeWhile is_digit t;
         n = (if neg then - int (digits_val ds) else int (digits_val ds))
     in if ds = [] \<or> n < - (2 ^ 63) \<or> 2 ^ 63 \<le> n then None else Some n)"

text \<open>\<open>strings.NewReplacer\<close> of single bytes.\<close>

definition ReplaceBytes :: "(char \<times> string) list \<Rightarrow> string \<Rightarrow> string" where
  "ReplaceBytes tab s = concat (map (\<lambda>x. case map_of tab x of Some r \<Rightarrow> r | None \<Rightarrow> [x]) s)"

subsection \<open>Laws\<close>

lemma HasPrefix_iff: "HasPrefix s p \<longleftrightarrow> (\<exists>t. s = p @ t)"
  unfolding HasPrefix_def by (metis append_eq_conv_conj append_take_drop_id)

lemma HasPrefix_prefix: "HasPrefix s p \<longleftrightarrow> prefix p s"
  by (simp add: HasPrefix_iff prefix_def)

lemma HasSuffix_iff: "HasSuffix s p \<longleftrightarrow> (\<exists>t. s = t @ p)"
proof
  assume "HasSuffix s p"
  then show "\<exists>t. s = t @ p"
    by (metis HasSuffix_def append_take_drop_id)
next
  assume "\<exists>t. s = t @ p"
  then show "HasSuffix s p" by (auto simp: HasSuffix_def)
qed

lemma HasPrefix_refl [simp]: "HasPrefix s s"
  by (simp add: HasPrefix_def)

lemma HasPrefix_Nil [simp]: "HasPrefix s []"
  by (simp add: HasPrefix_def)

lemma HasPrefix_append [simp]: "HasPrefix (p @ s) p"
  by (simp add: HasPrefix_def)

lemma HasPrefix_Cons: "HasPrefix (a # s) (b # p) \<longleftrightarrow> a = b \<and> HasPrefix s p"
  by (auto simp: HasPrefix_def)

lemma HasPrefix_of_Nil [simp]: "HasPrefix [] p \<longleftrightarrow> p = []"
  by (auto simp: HasPrefix_def)

lemma TrimPrefix_append [simp]: "TrimPrefix (p @ s) p = s"
  by (simp add: TrimPrefix_def)

lemma TrimSuffix_append [simp]: "TrimSuffix (s @ p) p = s"
  by (auto simp: TrimSuffix_def HasSuffix_iff)

lemma TrimSuffix_no: "\<not> HasSuffix s p \<Longrightarrow> TrimSuffix s p = s"
  by (simp add: TrimSuffix_def)

lemma lower_char_idem [simp]: "lower_char (lower_char c) = lower_char c"
  by (simp add: lower_char_def)

lemma ToLower_idem [simp]: "ToLower (ToLower s) = ToLower s"
  by (simp add: ToLower_def comp_def)

lemma ToLower_append [simp]: "ToLower (s @ t) = ToLower s @ ToLower t"
  by (simp add: ToLower_def)

lemma length_ToLower [simp]: "length (ToLower s) = length s"
  by (simp add: ToLower_def)

lemma ToLower_Nil [simp]: "ToLower [] = []"
  by (simp add: ToLower_def)

lemma ToLower_Nil_iff [simp]: "ToLower s = [] \<longleftrightarrow> s = []"
  by (simp add: ToLower_def)

lemma EqualFold_refl [simp]: "EqualFold s s"
  by (simp add: EqualFold_def)

lemma Split_nonempty [simp]: "Split s sep \<noteq> []"
  by (cases s) (auto split: list.splits)

lemma Join_Cons: "ps \<noteq> [] \<Longrightarrow> Join (p # ps) sep = p @ sep @ Join ps sep"
  by (cases ps) auto

lemma Join_Split: "Join (Split s sep) [sep] = s"
proof (induction s)
  case Nil
  then show ?case by simp
next
  case (Cons c cs)
  obtain p ps where "Split cs sep = p # ps" by (meson Split_nonempty neq_Nil_conv)
  with Cons show ?case by (cases ps) auto
qed

lemma Split_no_sep: "p \<in> set (Split s sep) \<Longrightarrow> sep \<notin> set p"
proof (induction s arbitrary: p)
  case Nil
  then show ?case by simp
next
  case (Cons c cs)
  obtain q qs where qs: "Split cs sep = q # qs" by (meson Split_nonempty neq_Nil_conv)
  with Cons show ?case by (auto split: if_splits)
qed

lemma Split_id: "sep \<notin> set p \<Longrightarrow> Split p sep = [p]"
  by (induction p) auto

lemma Split_append: "sep \<notin> set p \<Longrightarrow> Split (p @ sep # s) sep = p # Split s sep"
  by (induction p) auto

lemma Split_Join:
  "ps \<noteq> [] \<Longrightarrow> (\<And>p. p \<in> set ps \<Longrightarrow> sep \<notin> set p) \<Longrightarrow> Split (Join ps [sep]) sep = ps"
  by (induction ps rule: induct_list012) (auto simp: Split_id Split_append)

lemma IndexByte_Some: "IndexByte s c = Some i \<Longrightarrow> i < length s \<and> s ! i = c \<and> c \<notin> set (take i s)"
  by (induction s arbitrary: i) (auto split: if_splits)

lemma IndexByte_None: "IndexByte s c = None \<longleftrightarrow> c \<notin> set s"
  by (induction s) auto

lemma LastIndexByte_Some:
  "LastIndexByte s c = Some i \<Longrightarrow> i < length s \<and> s ! i = c \<and> c \<notin> set (drop (Suc i) s)"
proof (induction s arbitrary: i)
  case Nil
  then show ?case by simp
next
  case (Cons x xs)
  have none: "LastIndexByte xs c = None \<Longrightarrow> c \<notin> set xs"
    by (induction xs) (auto split: option.splits if_splits)
  from Cons none show ?case by (auto split: option.splits if_splits)
qed

lemma LastIndexByte_None: "LastIndexByte s c = None \<longleftrightarrow> c \<notin> set s"
  by (induction s) (auto split: option.splits)

lemma Index_Some: "Index s sub = Some i \<Longrightarrow> s = take i s @ sub @ drop (i + length sub) s"
proof (induction s arbitrary: i)
  case Nil
  then show ?case by (auto split: if_splits)
next
  case (Cons c cs)
  then show ?case
    by (auto split: if_splits simp: HasPrefix_iff)
qed

lemma Contains_iff: "Contains s sub \<longleftrightarrow> (\<exists>a b. s = a @ sub @ b)"
proof
  assume "Contains s sub"
  then show "\<exists>a b. s = a @ sub @ b"
    unfolding Contains_def by (metis Index_Some not_None_eq)
next
  assume "\<exists>a b. s = a @ sub @ b"
  then obtain a b where s: "s = a @ sub @ b" by blast
  have "Index (a @ sub @ b) sub \<noteq> None"
  proof (induction a)
    case Nil
    have "HasPrefix (sub @ b) sub" by simp
    then show ?case by (cases "sub @ b") auto
  qed auto
  with s show "Contains s sub" by (simp add: Contains_def)
qed

lemma Cut_found: "Cut s sep = (a, b, True) \<Longrightarrow> s = a @ sep @ b"
  by (auto simp: Cut_def split: option.splits dest: Index_Some)

lemma Cut_absent: "Cut s sep = (a, b, False) \<Longrightarrow> a = s \<and> b = [] \<and> \<not> Contains s sep"
  by (auto simp: Cut_def Contains_def split: option.splits)

lemma trim_right_by_no: "s = [] \<or> \<not> P (last s) \<Longrightarrow> trim_right_by P s = s"
proof -
  assume "s = [] \<or> \<not> P (last s)"
  then have "dropWhile P (rev s) = rev s" by (cases s rule: rev_cases) auto
  then show ?thesis by (simp add: trim_right_by_def)
qed

lemma trim_left_by_Cons: "trim_left_by P s = c # cs \<Longrightarrow> \<not> P c"
  unfolding trim_left_by_def by (metis hd_dropWhile list.distinct(1) list.sel(1))

lemma trim_right_by_last: "trim_right_by P s \<noteq> [] \<Longrightarrow> \<not> P (last (trim_right_by P s))"
  unfolding trim_right_by_def by (metis hd_dropWhile hd_rev rev.simps(1) rev_rev_ident)

lemma TrimSpace_idem [simp]: "TrimSpace (TrimSpace s) = TrimSpace s"
proof -
  define l where "l = trim_left_by is_space s"
  have r: "TrimSpace s = trim_right_by is_space l" by (simp add: TrimSpace_def l_def)
  have pre: "prefix (trim_right_by is_space l) l"
    by (metis prefixI rev_append rev_rev_ident suffixE suffix_dropWhile trim_right_by_def)
  have "trim_left_by is_space (TrimSpace s) = TrimSpace s"
  proof (cases "TrimSpace s")
    case Nil
    then show ?thesis by (simp add: trim_left_by_def)
  next
    case (Cons c cs)
    with r pre obtain cs' where "l = c # cs'" by (metis append_Cons prefix_def)
    then have "\<not> is_space c" using l_def trim_left_by_Cons by metis
    with Cons show ?thesis by (simp add: trim_left_by_def)
  qed
  then show ?thesis
    by (metis TrimSpace_def r trim_right_by_last trim_right_by_no)
qed

lemma set_TrimSpace: "set (TrimSpace s) \<subseteq> set s"
  unfolding TrimSpace_def trim_right_by_def trim_left_by_def
  by (metis set_rev set_dropWhileD subsetI)

lemma signed_digits_itoa:
  "signed_digits (itoa n) = (n < 0, nat_digits (nat \<bar>n\<bar>))"
proof (cases "n < 0")
  case False
  obtain c cs where c: "nat_digits (nat n) = c # cs" by (meson nat_digits_nonempty neq_Nil_conv)
  then have "is_digit c" using nat_digits_all [of "nat n"] by simp
  then have "c \<noteq> CHR ''-''" "c \<noteq> CHR ''+''" by (auto simp: is_digit_def)
  then show ?thesis using False c by (simp add: signed_digits_def itoa_def)
qed (simp add: signed_digits_def itoa_def)

lemma Atoi_itoa: "- (2 ^ 63) \<le> n \<Longrightarrow> n < 2 ^ 63 \<Longrightarrow> Atoi (itoa n) = (n, True)"
  using nat_digits_all by (simp add: Atoi_def signed_digits_itoa Let_def)

lemma dropWhile_blank_itoa [simp]: "dropWhile (\<lambda>c. c = CHR '' '' \<or> c = CHR 0x09) (itoa n) = itoa n"
proof -
  obtain c cs where c: "nat_digits (nat n) = c # cs" by (meson nat_digits_nonempty neq_Nil_conv)
  then have "is_digit c" using nat_digits_all [of "nat n"] by simp
  then show ?thesis using c by (auto simp: itoa_def is_digit_def)
qed

lemma sscanf_d_itoa: "- (2 ^ 63) \<le> n \<Longrightarrow> n < 2 ^ 63 \<Longrightarrow> sscanf_d (itoa n) = Some n"
proof -
  have "takeWhile is_digit (nat_digits k) = nat_digits k" for k
    using nat_digits_all [of k] by (simp add: takeWhile_eq_all_conv list_all_iff)
  then show "- (2 ^ 63) \<le> n \<Longrightarrow> n < 2 ^ 63 \<Longrightarrow> sscanf_d (itoa n) = Some n"
    by (simp add: sscanf_d_def signed_digits_itoa Let_def del: takeWhile_eq_all_conv)
qed

declare HasPrefix_def [go_simps] HasSuffix_def [go_simps] TrimPrefix_def [go_simps]
  TrimSuffix_def [go_simps] Contains_def [go_simps] Cut_def [go_simps] ToLower_def [go_simps]
  lower_char_def [go_simps] ToUpper_def [go_simps] upper_char_def [go_simps]
  EqualFold_def [go_simps] TrimSpace_def [go_simps]
  trim_left_by_def [go_simps] trim_right_by_def [go_simps] is_space_def [go_simps]
  Trim_def [go_simps] TrimLeft_def [go_simps] TrimRight_def [go_simps] SplitN2_def [go_simps]
  ContainsAny_def [go_simps] ReplaceByte_def [go_simps]

end
