(* ===== verification/GoPath.thy ===== *)
theory GoPath
  imports GoStrings
begin

text \<open>
  The functions of Go's packages \<open>path\<close> and \<open>path/filepath\<close> (on Unix, where the two agree) that
  the program uses. \<open>Clean\<close> is the documented lexical rule set, as a left-to-right pass over the
  elements with a stack of the elements kept; the lemmas at the end are what the path-confinement
  properties of the backends rest on.
\<close>

type_synonym path = string

definition slash :: char where
  "slash = CHR ''/''"

definition rooted :: "path \<Rightarrow> bool" where
  "rooted p \<longleftrightarrow> HasPrefix p ''/''"

text \<open>One element of a path; the stack holds the kept elements, the last one first. In a rooted
  path a \<open>..\<close> at the root is dropped, otherwise it is kept.\<close>

fun clean_step :: "bool \<Rightarrow> string list \<Rightarrow> string \<Rightarrow> string list" where
  "clean_step r st e =
     (if e = [] \<or> e = ''.'' then st
      else if e = ''..'' then
        (case st of
           [] \<Rightarrow> if r then [] else [''..'']
         | x # xs \<Rightarrow> if x = ''..'' then ''..'' # x # xs else xs)
      else e # st)"

definition clean_elems :: "path \<Rightarrow> string list" where
  "clean_elems p = rev (foldl (clean_step (rooted p)) [] (Split p slash))"

definition unclean :: "bool \<Rightarrow> string list \<Rightarrow> path" where
  "unclean r es = (if r then slash # Join es [slash]
                   else if es = [] then ''.'' else Join es [slash])"

definition Clean :: "path \<Rightarrow> path" where
  "Clean p = unclean (rooted p) (clean_elems p)"

text \<open>\<open>filepath.Join\<close> and \<open>path.Join\<close>.\<close>

definition JoinPath :: "path list \<Rightarrow> path" where
  "JoinPath es = (case dropWhile (\<lambda>e. e = []) es of
       [] \<Rightarrow> []
     | fs \<Rightarrow> Clean (Join (filter (\<lambda>e. e \<noteq> []) fs) [slash]))"

definition DirPath :: "path \<Rightarrow> path" where
  "DirPath p = (case LastIndexByte p slash of
       None \<Rightarrow> ''.''
     | Some i \<Rightarrow> Clean (take (Suc i) p))"

fun strip_common :: "string list \<Rightarrow> string list \<Rightarrow> string list \<times> string list" where
  "strip_common (x # xs) (y # ys) = (if x = y then strip_common xs ys else (x # xs, y # ys))"
| "strip_common xs ys = (xs, ys)"

text \<open>\<open>filepath.Rel\<close>: \<open>None\<close> is its error.\<close>

definition Rel :: "path \<Rightarrow> path \<Rightarrow> path option" where
  "Rel base targ =
     (if rooted base \<noteq> rooted targ then None
      else (case strip_common (clean_elems base) (clean_elems targ) of
          (bs, ts) \<Rightarrow>
            if bs = [] \<and> ts = [] then Some ''.''
            else if bs \<noteq> [] \<and> hd bs = ''..'' then None
            else Some (Join (map (\<lambda>_. ''..'') bs @ ts) [slash])))"

text \<open>\<open>filepath.IsLocal\<close> on Unix: not empty, not rooted, and the cleaned path does not climb.\<close>

definition IsLocal :: "path \<Rightarrow> bool" where
  "IsLocal p \<longleftrightarrow> p \<noteq> [] \<and> \<not> rooted p \<and>
     (let q = (if list_ex (\<lambda>e. e = ''.'' \<or> e = ''..'') (Split p slash) then Clean p else p)
      in q \<noteq> ''..'' \<and> \<not> HasPrefix q ''../'')"

subsection \<open>The elements of a clean path\<close>

definition plain_elem :: "string \<Rightarrow> bool" where
  "plain_elem e \<longleftrightarrow> e \<noteq> [] \<and> e \<noteq> ''.'' \<and> e \<noteq> ''..'' \<and> slash \<notin> set e"

lemma clean_step_rooted_plain:
  "list_all plain_elem st \<Longrightarrow> slash \<notin> set e \<Longrightarrow> list_all plain_elem (clean_step True st e)"
  by (cases st) (auto simp: plain_elem_def)

lemma foldl_clean_rooted_plain:
  "list_all plain_elem st \<Longrightarrow> (\<And>e. e \<in> set es \<Longrightarrow> slash \<notin> set e) \<Longrightarrow>
   list_all plain_elem (foldl (clean_step True) st es)"
  by (induction es arbitrary: st) (auto simp del: clean_step.simps intro: clean_step_rooted_plain)

lemma clean_elems_rooted_plain: "rooted p \<Longrightarrow> list_all plain_elem (clean_elems p)"
  by (simp add: clean_elems_def foldl_clean_rooted_plain Split_no_sep list_all_rev)

lemma foldl_clean_plain:
  "list_all plain_elem es \<Longrightarrow> foldl (clean_step r) st es = rev es @ st"
  by (induction es arbitrary: st) (auto simp: plain_elem_def)

lemma rooted_Cons [simp]: "rooted (slash # p)"
  by (simp add: rooted_def HasPrefix_def slash_def)

lemma rooted_iff: "rooted p \<longleftrightarrow> (\<exists>q. p = slash # q)"
  by (auto simp: rooted_def HasPrefix_iff slash_def)

lemma clean_elems_slash: "clean_elems (slash # p) = rev (foldl (clean_step True) [] (Split p slash))"
  by (simp add: clean_elems_def)

lemma Split_Join_plain:
  "list_all plain_elem es \<Longrightarrow> es \<noteq> [] \<Longrightarrow> Split (Join es [slash]) slash = es"
  by (rule Split_Join) (auto simp: plain_elem_def list_all_iff)

lemma clean_elems_unclean_rooted:
  "list_all plain_elem es \<Longrightarrow> clean_elems (slash # Join es [slash]) = es"
proof (cases "es = []")
  case True
  then show ?thesis by (simp add: clean_elems_slash)
next
  case False
  assume "list_all plain_elem es"
  then show ?thesis using False
    by (simp add: clean_elems_slash Split_Join_plain foldl_clean_plain)
qed

text \<open>Cleaning a rooted path twice changes nothing.\<close>

lemma Clean_rooted_idem: "rooted p \<Longrightarrow> Clean (Clean p) = Clean p"
  using clean_elems_unclean_rooted [OF clean_elems_rooted_plain, of p]
  by (simp add: Clean_def unclean_def)

lemma clean_elems_Clean_rooted: "rooted p \<Longrightarrow> clean_elems (Clean p) = clean_elems p"
  using clean_elems_unclean_rooted [OF clean_elems_rooted_plain, of p]
  by (simp add: Clean_def unclean_def)

lemma rooted_Clean: "rooted p \<Longrightarrow> rooted (Clean p)"
  by (simp add: Clean_def unclean_def)

subsection \<open>Confinement\<close>

text \<open>\<open>path_under d p\<close>: the file path \<open>p\<close>, read element by element, is \<open>d\<close> or lies below it.\<close>

definition path_under :: "path \<Rightarrow> path \<Rightarrow> bool" where
  "path_under d p \<longleftrightarrow> rooted d = rooted p \<and> prefix (clean_elems d) (clean_elems p)"

lemma under_refl [simp]: "path_under d d"
  by (simp add: path_under_def)

lemma under_trans: "path_under a b \<Longrightarrow> path_under b c \<Longrightarrow> path_under a c"
  by (auto simp: path_under_def)

lemma Split_app_slash: "Split (p @ slash # q) slash = Split p slash @ Split q slash"
proof (induction p)
  case (Cons c cs)
  obtain x xs where "Split cs slash = x # xs" by (meson Split_nonempty neq_Nil_conv)
  with Cons show ?case by auto
qed simp

lemma rooted_append: "p \<noteq> [] \<Longrightarrow> rooted (p @ q) = rooted p"
  by (cases p) (auto simp: rooted_iff)

lemma clean_elems_append_plain:
  assumes "p \<noteq> []" and "list_all plain_elem es" and "es \<noteq> []"
  shows "clean_elems (p @ slash # Join es [slash]) = clean_elems p @ es"
  using assms
  by (simp add: clean_elems_def Split_app_slash rooted_append Split_Join_plain foldl_clean_plain)

lemma clean_elems_append_plain_nil:
  "p \<noteq> [] \<Longrightarrow> clean_elems (p @ [slash]) = clean_elems p"
  using Split_app_slash [of p "[]"] by (simp add: clean_elems_def rooted_append)

text \<open>A path made of plain elements, appended to a directory, stays below the directory: the
  form every \<open>localPath\<close> of the program relies on after \<open>path.Clean("/" + p)\<close>.\<close>

lemma clean_elems_append_rooted:
  assumes "p \<noteq> []" and "rooted q"
  shows "clean_elems (p @ slash # Clean q) = clean_elems p @ clean_elems q"
proof -
  have C: "Clean q = slash # Join (clean_elems q) [slash]"
    using assms(2) by (simp add: Clean_def unclean_def)
  have S: "Split (p @ slash # slash # Join (clean_elems q) [slash]) slash
         = Split p slash @ [] # Split (Join (clean_elems q) [slash]) slash"
    by (simp add: Split_app_slash)
  have P: "list_all plain_elem (clean_elems q)"
    by (rule clean_elems_rooted_plain [OF assms(2)])
  show ?thesis
  proof (cases "clean_elems q = []")
    case True
    then show ?thesis using C S assms(1) by (simp add: clean_elems_def rooted_append)
  next
    case False
    then show ?thesis using C S P assms(1)
      by (simp add: clean_elems_def [of "p @ _"] clean_elems_def [of p] rooted_append
          Split_Join_plain foldl_clean_plain)
  qed
qed

text \<open>The elements of a path that is not rooted: some \<open>..\<close>, then plain elements.\<close>

definition dots_then_plain :: "string list \<Rightarrow> bool" where
  "dots_then_plain es \<longleftrightarrow> (\<exists>n fs. es = replicate n ''..'' @ fs \<and> list_all plain_elem fs)"

lemma dots_then_plain_Nil: "dots_then_plain []"
proof -
  have "[] = replicate 0 ''..'' @ []" by simp
  moreover have "list_all plain_elem []" by simp
  ultimately show ?thesis unfolding dots_then_plain_def by blast
qed

lemma clean_step_dots:
  assumes "slash \<notin> set e" and "dots_then_plain (rev st)"
  shows "dots_then_plain (rev (clean_step False st e))"
proof -
  obtain n fs where st: "rev st = replicate n ''..'' @ fs" and fs: "list_all plain_elem fs"
    using assms(2) by (auto simp: dots_then_plain_def)
  then have st': "st = rev fs @ replicate n ''..''" by (metis rev_append rev_replicate rev_rev_ident)
  consider "e = [] \<or> e = ''.''" | "e = ''..''" | "plain_elem e"
    using assms(1) by (auto simp: plain_elem_def)
  then show ?thesis
  proof cases
    case 1
    then show ?thesis using assms(2) by auto
  next
    case 2
    show ?thesis
    proof (cases fs rule: rev_cases)
      case Nil
      have "rev (clean_step False st e) = replicate (Suc n) ''..''"
        using 2 st' Nil by (cases n) (auto simp: replicate_append_same)
      then show ?thesis unfolding dots_then_plain_def
        by (intro exI [of _ "Suc n"] exI [of _ "[]"]) simp
    next
      case (snoc gs g)
      then have "g \<noteq> ''..''" using fs by (auto simp: plain_elem_def)
      then have "rev (clean_step False st e) = replicate n ''..'' @ gs"
        using 2 st' snoc by auto
      moreover have "list_all plain_elem gs" using fs snoc by simp
      ultimately show ?thesis by (auto simp: dots_then_plain_def)
    qed
  next
    case 3
    then have "rev (clean_step False st e) = replicate n ''..'' @ (fs @ [e])"
      using st' by (auto simp: plain_elem_def)
    moreover have "list_all plain_elem (fs @ [e])" using 3 fs by simp
    ultimately show ?thesis unfolding dots_then_plain_def by blast
  qed
qed

lemma foldl_clean_dots:
  "(\<And>e. e \<in> set es \<Longrightarrow> slash \<notin> set e) \<Longrightarrow> dots_then_plain (rev st) \<Longrightarrow>
   dots_then_plain (rev (foldl (clean_step False) st es))"
  by (induction es arbitrary: st) (auto simp del: clean_step.simps intro: clean_step_dots)

lemma clean_elems_shape: "dots_then_plain (clean_elems p)"
proof (cases "rooted p")
  case True
  then have "list_all plain_elem (clean_elems p)" by (rule clean_elems_rooted_plain)
  then show ?thesis unfolding dots_then_plain_def by (metis append_Nil replicate_0)
next
  case False
  then have e: "clean_elems p = rev (foldl (clean_step False) [] (Split p slash))"
    by (simp add: clean_elems_def)
  have "dots_then_plain (rev (foldl (clean_step False) [] (Split p slash)))"
  proof (rule foldl_clean_dots)
    show "slash \<notin> set x" if "x \<in> set (Split p slash)" for x
      using that by (rule Split_no_sep)
    show "dots_then_plain (rev [])" by (simp add: dots_then_plain_Nil)
  qed
  then show ?thesis by (simp only: e)
qed

lemma dots_no_slash:
  assumes "dots_then_plain es" and "e \<in> set es"
  shows "slash \<notin> set e \<and> e \<noteq> [] \<and> e \<noteq> ''.''"
proof -
  obtain n fs where es: "es = replicate n ''..'' @ fs" and fs: "list_all plain_elem fs"
    using assms(1) unfolding dots_then_plain_def by blast
  have "e = ''..'' \<or> e \<in> set fs" using assms(2) es by (auto split: if_splits)
  moreover have "slash \<notin> set ''..''" by (simp add: slash_def)
  ultimately show ?thesis using fs unfolding list_all_iff plain_elem_def by fastforce
qed

lemma foldl_clean_dots_id:
  "dots_then_plain es \<Longrightarrow> foldl (clean_step False) [] es = rev es"
proof -
  assume "dots_then_plain es"
  then obtain n fs where es: "es = replicate n ''..'' @ fs" and fs: "list_all plain_elem fs"
    by (auto simp: dots_then_plain_def)
  have "foldl (clean_step False) (replicate m ''..'') (replicate n ''..'') = replicate (m + n) ''..''"
    for m
  proof (induction n arbitrary: m)
    case (Suc n)
    have "clean_step False (replicate m ''..'') ''..'' = replicate (Suc m) ''..''"
      by (cases m) auto
    with Suc [of "Suc m"] show ?case by simp
  qed simp
  from this [of 0] have "foldl (clean_step False) [] (replicate n ''..'') = replicate n ''..''"
    by simp
  with es fs show ?thesis by (simp add: foldl_clean_plain del: clean_step.simps)
qed

lemma unrooted_Join:
  "dots_then_plain es \<Longrightarrow> es \<noteq> [] \<Longrightarrow> \<not> rooted (Join es [slash])"
proof -
  assume d: "dots_then_plain es" and ne: "es \<noteq> []"
  obtain x xs where es: "es = x # xs" using ne by (cases es) auto
  have "slash \<notin> set x \<and> x \<noteq> []" using dots_no_slash [OF d, of x] es by simp
  then show ?thesis using es by (cases xs; cases x) (auto simp: rooted_iff)
qed

lemma clean_elems_Clean [simp]: "clean_elems (Clean p) = clean_elems p"
proof (cases "rooted p")
  case True
  then show ?thesis by (rule clean_elems_Clean_rooted)
next
  case False
  let ?es = "clean_elems p"
  have d: "dots_then_plain ?es" by (rule clean_elems_shape)
  show ?thesis
  proof (cases "?es = []")
    case True
    then show ?thesis using False
      by (simp add: Clean_def unclean_def clean_elems_def [of "''.''"] slash_def rooted_def HasPrefix_def)
  next
    case ne: False
    have "Split (Join ?es [slash]) slash = ?es"
      by (rule Split_Join) (use ne dots_no_slash [OF d] in auto)
    then show ?thesis using False ne unrooted_Join [OF d ne]
      by (simp add: Clean_def unclean_def clean_elems_def [of "Join _ _"] foldl_clean_dots_id [OF d])
  qed
qed

lemma rooted_Clean_iff [simp]: "rooted (Clean p) = rooted p"
proof (cases "rooted p")
  case False
  then show ?thesis using unrooted_Join [OF clean_elems_shape, of p]
    by (cases "clean_elems p = []")
       (auto simp: Clean_def unclean_def rooted_def HasPrefix_def)
qed (simp add: rooted_Clean)

lemma Clean_idem [simp]: "Clean (Clean p) = Clean p"
  by (simp add: Clean_def [of "Clean p"]) (simp add: Clean_def)

lemma under_Clean [simp]: "path_under d (Clean p) = path_under d p" "path_under (Clean d) p = path_under d p"
  by (simp_all add: path_under_def)

text \<open>\<open>filepath.Join(dir, x, path.Clean("/" + q))\<close> stays below \<open>filepath.Join(dir, x)\<close>, and so
  below \<open>dir\<close> when \<open>x\<close> is a plain element (a checked host name).\<close>

lemma JoinPath_two: "a \<noteq> [] \<Longrightarrow> b \<noteq> [] \<Longrightarrow> JoinPath [a, b] = Clean (a @ slash # b)"
  by (simp add: JoinPath_def)

lemma JoinPath_three:
  "a \<noteq> [] \<Longrightarrow> b \<noteq> [] \<Longrightarrow> c \<noteq> [] \<Longrightarrow> JoinPath [a, b, c] = Clean (a @ slash # b @ slash # c)"
  by (simp add: JoinPath_def)

lemma Clean_nonempty [simp]: "Clean p \<noteq> []"
proof (cases "rooted p \<or> clean_elems p = []")
  case True
  then show ?thesis by (auto simp: Clean_def unclean_def)
next
  case False
  then obtain x xs where es: "clean_elems p = x # xs" by (cases "clean_elems p") auto
  then have "x \<noteq> []" using dots_no_slash [OF clean_elems_shape, of x p] by simp
  then show ?thesis using False es by (cases xs) (auto simp: Clean_def unclean_def)
qed

lemma under_JoinPath_clean:
  assumes "d \<noteq> []" and "rooted q"
  shows "path_under d (JoinPath [d, Clean q])"
    and "clean_elems (JoinPath [d, Clean q]) = clean_elems d @ clean_elems q"
proof -
  have J: "JoinPath [d, Clean q] = Clean (d @ slash # Clean q)"
    using assms(1) by (simp add: JoinPath_two)
  show "clean_elems (JoinPath [d, Clean q]) = clean_elems d @ clean_elems q"
    by (simp add: J clean_elems_append_rooted assms)
  then show "path_under d (JoinPath [d, Clean q])"
    by (simp add: path_under_def J rooted_append assms(1))
qed

lemma under_JoinPath_host:
  assumes "d \<noteq> []" and "plain_elem h" and "rooted q"
  shows "clean_elems (JoinPath [d, h, Clean q]) = clean_elems d @ h # clean_elems q"
    and "path_under d (JoinPath [d, h, Clean q])"
proof -
  have ne: "h \<noteq> []" using assms(2) by (simp add: plain_elem_def)
  have J: "JoinPath [d, h, Clean q] = Clean ((d @ slash # h) @ slash # Clean q)"
    using assms(1) ne by (simp add: JoinPath_three)
  have H: "clean_elems (d @ slash # h) = clean_elems d @ [h]"
    using clean_elems_append_plain [of d "[h]"] assms by simp
  show *: "clean_elems (JoinPath [d, h, Clean q]) = clean_elems d @ h # clean_elems q"
    using clean_elems_append_rooted [of "d @ slash # h" q] assms(1,3) H by (simp add: J)
  have "rooted ((d @ slash # h) @ slash # Clean q) = rooted d"
    using assms(1) by (simp add: rooted_append)
  then show "path_under d (JoinPath [d, h, Clean q])"
    using * by (simp add: path_under_def J)
qed

text \<open>When the cleaned relative path does not start with \<open>..\<close>, the target is below the base.\<close>

lemma strip_common_eq:
  "strip_common xs ys = (bs, ts) \<Longrightarrow> \<exists>cs. xs = cs @ bs \<and> ys = cs @ ts"
proof (induction xs ys rule: strip_common.induct)
  case (1 x xs y ys)
  show ?case
  proof (cases "x = y")
    case True
    then obtain cs where "xs = cs @ bs" and "ys = cs @ ts" using 1 by auto
    with True show ?thesis by (intro exI [of _ "x # cs"]) simp
  qed (use 1 in auto)
qed auto

lemma Rel_no_dots_under:
  assumes "Rel base targ = Some r" and "r \<noteq> ''..''" and "\<not> HasPrefix r ''../''"
  shows "path_under base targ"
proof -
  obtain bs ts where st: "strip_common (clean_elems base) (clean_elems targ) = (bs, ts)"
    by (cases "strip_common (clean_elems base) (clean_elems targ)")
  have rt: "rooted base = rooted targ" using assms(1) by (auto simp: Rel_def split: if_splits)
  have "bs = []"
  proof (rule ccontr)
    assume "bs \<noteq> []"
    then obtain b bs' where bs: "bs = b # bs'" by (cases bs) auto
    have r: "r = Join (''..'' # map (\<lambda>_. ''..'') bs' @ ts) [slash]"
      using assms(1) rt st bs by (auto simp: Rel_def split: if_splits)
    show False
    proof (cases "map (\<lambda>_. ''..'') bs' @ ts = []")
      case True
      then show False using r assms(2) by simp
    next
      case False
      then have "r = ''..'' @ [slash] @ Join (map (\<lambda>_. ''..'') bs' @ ts) [slash]"
        using r Join_Cons by metis
      then have "r = ''../'' @ Join (map (\<lambda>_. ''..'') bs' @ ts) [slash]"
        by (simp add: slash_def)
      then show False using assms(3) HasPrefix_append by metis
    qed
  qed
  then show ?thesis using strip_common_eq [OF st] rt by (auto simp: path_under_def prefix_def)
qed

text \<open>A local path appended to a directory stays below it: the walk over its elements never pops an
  element of the directory, because a \<open>..\<close> kept at the bottom of the stack would stay there.\<close>

lemma clean_keeps_dots: "\<exists>zs. foldl (clean_step False) (xs @ [''..'']) es = zs @ [''..'']"
proof (induction es arbitrary: xs)
  case (Cons e es)
  obtain vs where v: "clean_step False (xs @ [''..'']) e = vs @ [''..'']"
  proof (cases "e = [] \<or> e = ''.''")
    case True
    then show ?thesis using that [of xs] by simp
  next
    case skip: False
    show ?thesis
    proof (cases "e = ''..''")
      case False
      then show ?thesis using that [of "e # xs"] skip by simp
    next
      case True
      show ?thesis
      proof (cases xs)
        case Nil
        then show ?thesis using that [of "[''..'']"] True by simp
      next
        case (Cons x xs')
        then show ?thesis using that [of "if x = ''..'' then ''..'' # xs else xs'"] True by simp
      qed
    qed
  qed
  show ?case using Cons [of vs] v by (simp del: clean_step.simps)
qed simp

lemma foldl_clean_above:
  assumes "list_all plain_elem xs" and "\<And>e. e \<in> set es \<Longrightarrow> slash \<notin> set e"
    and "''..'' \<notin> set (foldl (clean_step False) xs es)"
  shows "foldl (clean_step r) (xs @ st) es = foldl (clean_step False) xs es @ st
    \<and> list_all plain_elem (foldl (clean_step False) xs es)"
  using assms
proof (induction es arbitrary: xs)
  case (Cons e es)
  have up: "\<not> (e = ''..'' \<and> xs = [])"
  proof
    assume "e = ''..'' \<and> xs = []"
    then have "foldl (clean_step False) xs (e # es) = foldl (clean_step False) ([] @ [''..'']) es" by simp
    then obtain zs where "foldl (clean_step False) xs (e # es) = zs @ [''..'']"
      using clean_keeps_dots by metis
    then show False using Cons.prems(3) by (metis in_set_conv_decomp)
  qed
  have h: "xs \<noteq> [] \<Longrightarrow> hd xs \<noteq> ''..''"
    using Cons.prems(1) by (cases xs) (simp_all add: plain_elem_def)
  have p: "list_all plain_elem (clean_step False xs e)"
    using Cons.prems(1) Cons.prems(2) [of e] up h
    by (cases "e = [] \<or> e = ''.''"; cases "e = ''..''"; cases xs) (simp_all add: plain_elem_def [of e])
  have s: "clean_step r (xs @ st) e = clean_step False xs e @ st"
  proof (cases xs)
    case (Cons x xs')
    then have "x \<noteq> ''..''" using \<open>list_all plain_elem xs\<close> by (simp add: plain_elem_def [of x])
    with Cons show ?thesis by simp
  qed (use up in simp)
  show ?case using Cons.IH [OF p] Cons.prems(2,3) s by (simp del: clean_step.simps)
qed simp

lemma dots_first: "dots_then_plain (x # xs) \<Longrightarrow> x \<noteq> ''..'' \<Longrightarrow> list_all plain_elem (x # xs)"
  unfolding dots_then_plain_def by (metis append_Cons append_Nil list.inject replicate_0 replicate_Suc not0_implies_Suc)

lemma foldl_clean_filter:
  "foldl (clean_step r) st es = foldl (clean_step r) st (filter (\<lambda>e. e \<noteq> []) es)"
proof (induction es arbitrary: st)
  case (Cons e es)
  have "clean_step r st [] = st" by simp
  then show ?case using Cons by (cases "e = []") (simp_all del: clean_step.simps)
qed simp

lemma Clean_no_climb:
  assumes nr: "\<not> rooted p" and q: "Clean p \<noteq> ''..''" "\<not> HasPrefix (Clean p) ''../''"
  shows "list_all plain_elem (clean_elems p)"
proof (cases "clean_elems p")
  case (Cons x xs)
  then have C: "Clean p = Join (x # xs) [slash]" using nr by (simp add: Clean_def unclean_def)
  have "x \<noteq> ''..''"
  proof
    assume x: "x = ''..''"
    show False
    proof (cases xs)
      case Nil
      then show False using q(1) C x by simp
    next
      case (Cons y ys)
      then have "Clean p = ''../'' @ Join (y # ys) [slash]" using C x by (simp add: slash_def)
      then show False using q(2) HasPrefix_append by metis
    qed
  qed
  then show ?thesis using clean_elems_shape [of p] Cons dots_first by simp
qed simp

lemma IsLocal_elems:
  assumes "IsLocal p"
  shows "\<not> rooted p \<and> p \<noteq> [] \<and> list_all plain_elem (clean_elems p)"
proof -
  have nr: "\<not> rooted p" and ne: "p \<noteq> []" using assms by (simp_all add: IsLocal_def)
  have "list_all plain_elem (clean_elems p)"
  proof (cases "list_ex (\<lambda>e. e = ''.'' \<or> e = ''..'') (Split p slash)")
    case True
    then have q: "Clean p \<noteq> ''..''" "\<not> HasPrefix (Clean p) ''../''"
      using assms unfolding IsLocal_def Let_def by auto
    show ?thesis by (rule Clean_no_climb [OF nr q])
  next
    case False
    have *: "list_all plain_elem (filter (\<lambda>e. e \<noteq> []) (Split p slash))"
      using False Split_no_sep [of _ p slash] by (auto simp: list_all_iff list_ex_iff plain_elem_def)
    have "foldl (clean_step False) [] (Split p slash) = rev (filter (\<lambda>e. e \<noteq> []) (Split p slash))"
      using foldl_clean_plain [OF *, of False "[]"] foldl_clean_filter [of False "[]" "Split p slash"] by (simp only: append_Nil2)
    with * show ?thesis using nr by (simp add: clean_elems_def del: clean_step.simps)
  qed
  then show ?thesis using nr ne by simp
qed

lemma under_JoinPath_plain:
  assumes "d \<noteq> []" and p: "\<not> rooted p" "p \<noteq> []" "list_all plain_elem (clean_elems p)"
  shows "path_under d (JoinPath [d, p])" and "clean_elems (JoinPath [d, p]) = clean_elems d @ clean_elems p"
proof -
  have J: "JoinPath [d, p] = Clean (d @ slash # p)" using assms(1) p(2) by (simp add: JoinPath_two)
  let ?w = "foldl (clean_step False) [] (Split p slash)"
  have w: "''..'' \<notin> set ?w" using p(1,3)
    by (auto simp: clean_elems_def list_all_iff plain_elem_def simp del: clean_step.simps)
  have "foldl (clean_step r) st (Split p slash) = ?w @ st" for r st
    using foldl_clean_above [of "[]" "Split p slash" r st] w Split_no_sep by (simp del: clean_step.simps)
  note w' = this
  have "clean_elems (JoinPath [d, p]) = clean_elems (d @ slash # p)" by (simp add: J)
  also have "\<dots> = rev (foldl (clean_step (rooted d)) [] (Split d slash @ Split p slash))"
    by (simp only: clean_elems_def Split_app_slash rooted_append [OF assms(1)])
  also have "\<dots> = rev (?w @ foldl (clean_step (rooted d)) [] (Split d slash))"
    by (simp only: foldl_append w' [of "rooted d" "foldl (clean_step (rooted d)) [] (Split d slash)"])
  also have "\<dots> = clean_elems d @ clean_elems p"
    using p(1) by (simp only: rev_append clean_elems_def)
  finally show "clean_elems (JoinPath [d, p]) = clean_elems d @ clean_elems p" .
  then show "path_under d (JoinPath [d, p])"
    using assms(1) by (simp add: path_under_def J rooted_append)
qed

lemma under_JoinPath_local:
  assumes "d \<noteq> []" and "IsLocal p"
  shows "path_under d (JoinPath [d, p])" and "clean_elems (JoinPath [d, p]) = clean_elems d @ clean_elems p"
  using under_JoinPath_plain [OF assms(1)] IsLocal_elems [OF assms(2)] by simp_all

end
