(* ===== verification/GoFlag.thy ===== *)
theory GoFlag
  imports GoStrings
begin

text \<open>
  Go's package \<open>flag\<close>: a flag set, \<open>Lookup\<close>, \<open>Set\<close>, \<open>Visit\<close> and \<open>Parse\<close> with \<open>ContinueOnError\<close>. A flag
  is its name, whether it is a boolean flag (which takes no separate value argument), its \<open>Set\<close>
  function, which yields the new \<open>Value.String()\<close> or an error, and its current value. The usage
  text \<open>Parse\<close> prints on an error is not modelled.
\<close>

record flag =
  flName :: string
  flBool :: bool
  flSet :: "string \<Rightarrow> string + string"
  flValue :: string

record flagset =
  fsName :: string
  fsFormal :: "flag list"
  fsActual :: "string list"    \<comment> \<open>the names set so far\<close>

definition NewFlagSet :: "string \<Rightarrow> flag list \<Rightarrow> flagset" where
  "NewFlagSet name fls = \<lparr>fsName = name, fsFormal = fls, fsActual = []\<rparr>"

definition Lookup :: "flagset \<Rightarrow> string \<Rightarrow> flag option" where
  "Lookup fs name = find (\<lambda>f. flName f = name) (fsFormal fs)"

fun store_flag :: "string \<Rightarrow> string \<Rightarrow> flag list \<Rightarrow> flag list" where
  "store_flag name v [] = []"
| "store_flag name v (f # fs) =
     (if flName f = name then f\<lparr>flValue := v\<rparr> # fs else f # store_flag name v fs)"

text \<open>\<open>Value.Set\<close> of a known flag, marking it as set.\<close>

definition set_value :: "flag \<Rightarrow> string \<Rightarrow> flagset \<Rightarrow> string + flagset" where
  "set_value f v fs =
    (case flSet f v of
       Inl e \<Rightarrow> Inl e
     | Inr s \<Rightarrow> Inr (fs\<lparr>fsFormal := store_flag (flName f) s (fsFormal fs),
                    fsActual := List.insert (flName f) (fsActual fs)\<rparr>))"

definition SetFlag :: "string \<Rightarrow> string \<Rightarrow> flagset \<Rightarrow> string + flagset" where
  "SetFlag name v fs =
    (case Lookup fs name of
       None \<Rightarrow> Inl (''no such flag -'' @ name)
     | Some f \<Rightarrow> set_value f v fs)"

text \<open>\<open>Visit\<close>: the flags that were set, in lexical order.\<close>

definition VisitFlags :: "flagset \<Rightarrow> (string \<times> string) list" where
  "VisitFlags fs = List.map_filter (\<lambda>n. map_option (\<lambda>f. (n, flValue f)) (Lookup fs n))
     (sort_by str_le (fsActual fs))"

datatype parse_error = PErrHelp | PErrMsg string

text \<open>The name and the optional \<open>=value\<close> of an argument that looks like a flag.\<close>

definition split_flag :: "string \<Rightarrow> string \<times> string option" where
  "split_flag name = (case IndexByte (tl name) (CHR ''='') of
       None \<Rightarrow> (name, None)
     | Some i \<Rightarrow> (take (Suc i) name, Some (drop (i + 2) name)))"

text \<open>\<open>parseOne\<close> until it stops: the remaining arguments and the flag set, or the error.\<close>

fun ParseFlags :: "string list \<Rightarrow> flagset \<Rightarrow> parse_error + (string list \<times> flagset)" where
  "ParseFlags [] fs = Inr ([], fs)"
| "ParseFlags (s # args) fs =
    (if length s < 2 \<or> hd s \<noteq> CHR ''-'' then Inr (s # args, fs)
     else if s = ''--'' then Inr (args, fs)
     else
      (let body = (if s ! 1 = CHR ''-'' then drop 2 s else drop 1 s)
       in if body = [] \<or> hd body = CHR ''-'' \<or> hd body = CHR ''=''
          then Inl (PErrMsg (''bad flag syntax: '' @ s))
          else (case split_flag body of (name, val) \<Rightarrow>
            (case Lookup fs name of
               None \<Rightarrow> if name = ''help'' \<or> name = ''h'' then Inl PErrHelp
                       else Inl (PErrMsg (''flag provided but not defined: -'' @ name))
             | Some f \<Rightarrow>
                if flBool f then
                  (case set_value f (case val of None \<Rightarrow> ''true'' | Some v \<Rightarrow> v) fs of
                     Inl e \<Rightarrow> Inl (PErrMsg (''invalid boolean value '' @ Quote (case val of None \<Rightarrow> ''true'' | Some v \<Rightarrow> v)
                                @ '' for -'' @ name @ '': '' @ e))
                   | Inr fs' \<Rightarrow> ParseFlags args fs')
                else (case val of
                  Some v \<Rightarrow>
                    (case set_value f v fs of
                       Inl e \<Rightarrow> Inl (PErrMsg (''invalid value '' @ Quote v @ '' for flag -'' @ name @ '': '' @ e))
                     | Inr fs' \<Rightarrow> ParseFlags args fs')
                | None \<Rightarrow>
                    (case args of
                       [] \<Rightarrow> Inl (PErrMsg (''flag needs an argument: -'' @ name))
                     | v # args' \<Rightarrow>
                        (case set_value f v fs of
                           Inl e \<Rightarrow> Inl (PErrMsg (''invalid value '' @ Quote v @ '' for flag -'' @ name @ '': '' @ e))
                         | Inr fs' \<Rightarrow> ParseFlags args' fs')))))))"

subsection \<open>The kinds of flags the backends register\<close>

text \<open>\<open>strconv.ParseBool\<close> and the printed form of the value.\<close>

definition set_bool :: "string \<Rightarrow> string + string" where
  "set_bool v =
    (if v \<in> {''1'', ''t'', ''T'', ''true'', ''TRUE'', ''True''} then Inr ''true''
     else if v \<in> {''0'', ''f'', ''F'', ''false'', ''FALSE'', ''False''} then Inr ''false''
     else Inl ''parse error'')"

definition bool_flag :: "string \<Rightarrow> bool \<Rightarrow> flag" where
  "bool_flag name v = \<lparr>flName = name, flBool = True, flSet = set_bool,
     flValue = (if v then ''true'' else ''false'')\<rparr>"

definition string_flag :: "string \<Rightarrow> string \<Rightarrow> flag" where
  "string_flag name v = \<lparr>flName = name, flBool = False, flSet = Inr, flValue = v\<rparr>"

subsection \<open>Facts\<close>

lemma Lookup_Some: "Lookup fs name = Some f \<Longrightarrow> flName f = name \<and> f \<in> set (fsFormal fs)"
  by (auto simp: Lookup_def find_Some_iff)

lemma names_store_flag [simp]: "map flName (store_flag n v fls) = map flName fls"
  by (induction fls) auto

lemma find_store_flag:
  "find (\<lambda>f. flName f = n) (store_flag m v fls) =
     map_option (\<lambda>f. if n = m then f\<lparr>flValue := v\<rparr> else f) (find (\<lambda>f. flName f = n) fls)"
  by (induction fls) (auto simp: option.map_ident)

lemma set_value_Lookup:
  assumes "set_value f v fs = Inr fs'"
  shows "Lookup fs' n = (if n = flName f then map_option (\<lambda>g. g\<lparr>flValue := projr (flSet f v)\<rparr>) (Lookup fs n) else Lookup fs n)"
  using assms by (auto simp: set_value_def Lookup_def find_store_flag option.map_ident split: sum.splits)

text \<open>What can be set does not change: the same names, kinds and setters.\<close>

definition same_flags :: "flagset \<Rightarrow> flagset \<Rightarrow> bool" where
  "same_flags fs fs' \<longleftrightarrow> (\<forall>n. map_option (\<lambda>f. (flBool f, flSet f)) (Lookup fs' n)
                            = map_option (\<lambda>f. (flBool f, flSet f)) (Lookup fs n))"

lemma same_flags_refl [simp]: "same_flags fs fs"
  by (simp add: same_flags_def)

lemma same_flags_trans: "same_flags a b \<Longrightarrow> same_flags b c \<Longrightarrow> same_flags a c"
  by (simp add: same_flags_def)

lemma same_flags_set_value: "set_value f v fs = Inr fs' \<Longrightarrow> same_flags fs fs'"
  by (auto simp: same_flags_def set_value_Lookup option.map_comp comp_def)

lemma same_flags_SetFlag: "SetFlag n v fs = Inr fs' \<Longrightarrow> same_flags fs fs'"
  by (auto simp: SetFlag_def same_flags_set_value split: option.splits)

lemma ParseFlags_positional:
  "length s < 2 \<or> hd s \<noteq> CHR ''-'' \<Longrightarrow> ParseFlags (s # args) fs = Inr (s # args, fs)"
  by simp

end
