(* ===== verification/Registry.thy ===== *)
theory Registry
  imports GoPath GoFlag
begin

text \<open>
  \<open>mirror/mirror.go\<close>: the registry of mirroring backends. A backend is a record of functions; the
  backends themselves are arbitrary here, so what holds of the registry holds for any set of them.
  The flags \<open>SetupFlags\<close> registers are the list \<open>mFlags\<close>; the function it returns is \<open>mRun\<close>, which
  reads the parsed flag values. The registry is a list of named methods; \<open>Register\<close> panics (\<open>None\<close>)
  on an empty or duplicate name.
\<close>

text \<open>What a run of a backend returns: \<open>context.Canceled\<close> is told apart from other errors.\<close>

datatype run_result = RunOk | RunCanceled string | RunFailed string

record mirror_method =
  mName :: string
  mSource :: string
  mDescribe :: string
  mFlags :: "flag list"
  mRun :: "(string \<Rightarrow> string option) \<Rightarrow> string \<Rightarrow> string \<Rightarrow> run_result"
  mMatch :: "(string \<Rightarrow> bool) option"
  mFallback :: bool
  mSubdir :: "(string \<Rightarrow> string) option"

type_synonym registry = "(string \<times> mirror_method) list"

definition Register :: "mirror_method \<Rightarrow> registry \<Rightarrow> registry option" where
  "Register m r = (if mName m = [] then None
     else if map_of r (mName m) \<noteq> None then None
     else Some ((mName m, m) # r))"

definition GetMethod :: "registry \<Rightarrow> string \<Rightarrow> mirror_method option" where
  "GetMethod r name = map_of r name"

definition Names :: "registry \<Rightarrow> string list" where
  "Names r = sort_by str_le (map fst r)"

text \<open>The loop of \<open>Detect\<close>; \<open>fb\<close> is the fallback found so far.\<close>

definition accepts :: "mirror_method \<Rightarrow> string \<Rightarrow> bool" where
  "accepts m source = (case mMatch m of None \<Rightarrow> False | Some f \<Rightarrow> f source)"

fun detect_loop :: "registry \<Rightarrow> string \<Rightarrow> mirror_method option \<Rightarrow> string list \<Rightarrow> mirror_method option" where
  "detect_loop r source fb [] = fb"
| "detect_loop r source fb (n # ns) =
    (case map_of r n of
       None \<Rightarrow> detect_loop r source fb ns
     | Some m \<Rightarrow>
        (if \<not> accepts m source then detect_loop r source fb ns
         else if \<not> mFallback m then Some m
         else detect_loop r source (if fb = None then Some m else fb) ns))"

definition Detect :: "registry \<Rightarrow> string \<Rightarrow> mirror_method option" where
  "Detect r source = detect_loop r source None (Names r)"

definition safe_elem :: "string \<Rightarrow> string" where
  "safe_elem i =
    (let e = ReplaceBytes [(CHR ''/'', ''_''), (CHR 0x5C, ''_'')] i
     in if e = [] \<or> e = ''.'' \<or> e = ''..'' then ''_'' else e)"

definition SafeName :: "string \<Rightarrow> string \<Rightarrow> string" where
  "SafeName meth i = JoinPath [meth, safe_elem i]"

text \<open>The registrations of a program's \<open>init\<close> functions, in the order Go runs them.\<close>

fun register_all :: "mirror_method list \<Rightarrow> registry \<Rightarrow> registry option" where
  "register_all [] r = Some r"
| "register_all (m # ms) r = Option.bind (Register m r) (register_all ms)"

subsection \<open>Facts\<close>

definition registry_wf :: "registry \<Rightarrow> bool" where
  "registry_wf r \<longleftrightarrow> distinct (map fst r) \<and> (\<forall>(n, m) \<in> set r. n = mName m \<and> n \<noteq> [])"

lemma register_all_spec:
  "register_all ms r = Some r' \<longleftrightarrow>
     (\<forall>m \<in> set ms. mName m \<noteq> [] \<and> mName m \<notin> fst ` set r) \<and> distinct (map mName ms)
     \<and> r' = rev (map (\<lambda>m. (mName m, m)) ms) @ r"
proof (induction ms arbitrary: r)
  case (Cons m ms)
  show ?case
  proof (cases "mName m = [] \<or> mName m \<in> fst ` set r")
    case True
    then show ?thesis by (auto simp: Register_def map_of_eq_None_iff)
  next
    case False
    then have "register_all (m # ms) r = register_all ms ((mName m, m) # r)"
      by (auto simp: Register_def map_of_eq_None_iff)
    with Cons [of "(mName m, m) # r"] False show ?thesis by (auto simp: image_iff)
  qed
qed auto

lemma register_all_wf: "register_all ms [] = Some r \<Longrightarrow> registry_wf r \<and> snd ` set r = set ms"
  by (auto simp: register_all_spec registry_wf_def rev_map [symmetric] comp_def image_image)

lemma GetMethod_Some: "registry_wf r \<Longrightarrow> GetMethod r n = Some m \<Longrightarrow> mName m = n \<and> n \<noteq> [] \<and> (n, m) \<in> set r"
  by (auto simp: GetMethod_def registry_wf_def dest: map_of_SomeD)

lemma str_le_preorder: "total_preorder str_le"
  unfolding total_preorder_def using str_le_total str_le_trans by blast

lemma Names_sorted: "sorted_wrt str_le (Names r)" and Names_set [simp]: "set (Names r) = fst ` set r"
  by (simp_all add: Names_def sorted_wrt_sort_by str_le_preorder)

text \<open>\<open>SafeName\<close> is a path of two plain elements, whatever the identifier.\<close>

lemma safe_elem_plain: "plain_elem (safe_elem i)"
proof -
  have "slash \<notin> set (ReplaceBytes [(CHR ''/'', ''_''), (CHR 0x5C, ''_'')] i)"
    unfolding ReplaceBytes_def slash_def by (induction i) auto
  then show ?thesis by (auto simp: safe_elem_def plain_elem_def slash_def Let_def)
qed

lemma plain_pair_local:
  assumes "plain_elem m" and "plain_elem e"
  shows "JoinPath [m, e] = m @ slash # e" and "clean_elems (m @ slash # e) = [m, e]"
    and "IsLocal (m @ slash # e)"
proof -
  have ne: "m \<noteq> []" "e \<noteq> []" and nr: "\<not> rooted m"
    using assms by (auto simp: plain_elem_def rooted_iff)
  have S: "Split (m @ slash # e) slash = [m, e]"
    using assms by (simp add: Split_append Split_id plain_elem_def)
  have nr': "\<not> rooted (m @ slash # e)" using nr ne by (simp add: rooted_append)
  show C: "clean_elems (m @ slash # e) = [m, e]"
    using nr' foldl_clean_plain [of "[m, e]" False "[]"] assms by (simp add: clean_elems_def S del: clean_step.simps)
  then have Cl: "Clean (m @ slash # e) = m @ slash # e" using nr' by (simp add: Clean_def unclean_def)
  then show "JoinPath [m, e] = m @ slash # e" using ne by (simp add: JoinPath_two)
  have "m @ slash # e \<noteq> ''..''"
  proof
    assume "m @ slash # e = ''..''"
    then have "slash \<in> set ''..''" by (metis in_set_conv_decomp)
    then show False by (simp add: slash_def)
  qed
  moreover have "\<not> HasPrefix (m @ slash # e) ''../''"
  proof
    assume "HasPrefix (m @ slash # e) ''../''"
    then obtain t where t: "m @ slash # e = ''..'' @ slash # t" by (auto simp: HasPrefix_iff slash_def)
    have "Split (m @ slash # e) slash = ''..'' # Split t slash"
      unfolding t by (rule Split_append) (simp add: slash_def)
    then show False using S assms(1) by (simp add: plain_elem_def)
  qed
  ultimately show "IsLocal (m @ slash # e)" using nr' ne by (simp add: IsLocal_def Cl Let_def)
qed

lemma SafeName_local:
  assumes "plain_elem meth"
  shows "SafeName meth i = meth @ slash # safe_elem i" and "IsLocal (SafeName meth i)"
    and "clean_elems (SafeName meth i) = [meth, safe_elem i]"
  using plain_pair_local [OF assms safe_elem_plain, of i] by (simp_all add: SafeName_def)

text \<open>The loop picks the first specific method among the accepting ones, else the first of them.\<close>

definition accepting :: "registry \<Rightarrow> string \<Rightarrow> string list \<Rightarrow> mirror_method list" where
  "accepting r source ns = filter (\<lambda>m. accepts m source) (List.map_filter (map_of r) ns)"

lemma detect_loop_eq:
  "detect_loop r s fb ns = (case find (\<lambda>m. \<not> mFallback m) (accepting r s ns) of
       Some m \<Rightarrow> Some m
     | None \<Rightarrow> (case fb of Some f \<Rightarrow> Some f
                | None \<Rightarrow> (case accepting r s ns of [] \<Rightarrow> None | m # _ \<Rightarrow> Some m)))"
  by (induction r s fb ns rule: detect_loop.induct)
     (auto simp: accepting_def map_filter_simps split: option.splits list.splits)

lemma sorted_accepting:
  assumes "registry_wf r"
  shows "sorted_wrt (\<lambda>a b. str_le (mName a) (mName b)) (accepting r s (Names r))"
proof -
  have "sorted_wrt str_le (map mName (List.map_filter (map_of r) ns))" if "sorted_wrt str_le ns" for ns
    using that
  proof (induction ns)
    case (Cons n ns)
    have "\<exists>k \<in> set ns. mName m = k" if "m \<in> set (List.map_filter (map_of r) ns)" for m
      using that assms by (induction ns) (auto simp: map_filter_simps registry_wf_def dest!: map_of_SomeD split: option.splits)
    then show ?case using Cons assms
      by (auto simp: map_filter_simps registry_wf_def dest!: map_of_SomeD split: option.splits)
  qed (simp add: map_filter_simps)
  from this [OF Names_sorted] have "sorted_wrt (\<lambda>a b. str_le (mName a) (mName b)) (List.map_filter (map_of r) (Names r))"
    by (simp add: sorted_wrt_map)
  then show ?thesis unfolding accepting_def by (rule sorted_wrt_filter)
qed

lemma set_accepting:
  assumes "registry_wf r"
  shows "set (accepting r s (Names r)) = {m \<in> snd ` set r. accepts m s}"
proof -
  have "map_of r n = Some m \<longleftrightarrow> (n, m) \<in> set r" for n m
    using assms by (simp add: registry_wf_def map_of_eq_Some_iff)
  then show ?thesis by (force simp: accepting_def List.map_filter_def)
qed

lemma find_least:
  assumes "sorted_wrt le xs" and "find P xs = Some x" and "y \<in> set xs" and "P y" and "\<And>a. le a a"
  shows "x \<in> set xs \<and> P x \<and> le x y"
  using assms by (induction xs) (auto split: if_splits)

text \<open>Choosing a method: with any set of backends registered, \<open>Detect\<close> finds one exactly when some
  backend accepts the source; what it picks accepts the source, is a specific one whenever a specific
  one accepts it, and is the first by name among those of its kind.\<close>

theorem Detect_correct:
  assumes "register_all ms [] = Some r"
  shows "(Detect r source = None \<longleftrightarrow> (\<forall>m \<in> set ms. \<not> accepts m source))
    \<and> (\<forall>m. Detect r source = Some m \<longrightarrow> m \<in> set ms \<and> accepts m source
         \<and> (\<forall>m' \<in> set ms. accepts m' source \<longrightarrow> (mFallback m \<longrightarrow> mFallback m')
              \<and> (mFallback m' = mFallback m \<longrightarrow> str_le (mName m) (mName m'))))"
proof -
  have wf: "registry_wf r" and ms: "snd ` set r = set ms" using register_all_wf [OF assms] by auto
  let ?A = "accepting r source (Names r)"
  have A: "set ?A = {m \<in> set ms. accepts m source}" using set_accepting [OF wf] ms by simp
  have srt: "sorted_wrt (\<lambda>a b. str_le (mName a) (mName b)) ?A" by (rule sorted_accepting [OF wf])
  have refl: "str_le n n" for n using str_le_total [of n n] by simp
  consider m where "find (\<lambda>m. \<not> mFallback m) ?A = Some m" "Detect r source = Some m"
    | "find (\<lambda>m. \<not> mFallback m) ?A = None" "?A = []" "Detect r source = None"
    | m A' where "find (\<lambda>m. \<not> mFallback m) ?A = None" "?A = m # A'" "Detect r source = Some m"
    by (cases "find (\<lambda>m. \<not> mFallback m) ?A"; cases ?A) (auto simp: Detect_def detect_loop_eq)
  then show ?thesis
  proof cases
    case (1 m)
    then have "m \<in> set ?A" "\<not> mFallback m" by (auto simp: find_Some_iff)
    moreover have "str_le (mName m) (mName m')" if "m' \<in> set ?A" "\<not> mFallback m'" for m'
      using find_least [OF srt 1(1) that] refl by simp
    ultimately show ?thesis using 1(2) A by auto
  next
    case 2
    then show ?thesis using A by auto
  next
    case (3 m A')
    have "mFallback m'" if "m' \<in> set ?A" for m' using 3(1) that unfolding find_None_iff by blast
    moreover have "str_le (mName m) (mName m')" if "m' \<in> set ?A" for m'
      using srt 3(2) that refl by auto
    moreover have "m \<in> set ?A" using 3(2) by simp
    ultimately show ?thesis using 3(3) A by auto
  qed
qed

definition demo_method :: "string \<Rightarrow> (string \<Rightarrow> bool) option \<Rightarrow> bool \<Rightarrow> flag list \<Rightarrow> mirror_method" where
  "demo_method n match fb fls = \<lparr>mName = n, mSource = ''a source'', mDescribe = n, mFlags = fls,
     mRun = (\<lambda>_ _ _. RunOk), mMatch = match, mFallback = fb, mSubdir = None\<rparr>"

definition demo_methods :: "mirror_method list" where
  "demo_methods = [demo_method ''http'' (Some (\<lambda>s. HasPrefix s ''http'')) True [bool_flag ''update'' False],
     demo_method ''gopher'' (Some (\<lambda>s. HasPrefix s ''gopher://'')) False [],
     demo_method ''gphotos'' None False [string_flag ''cookies'' ''cookies.txt'', bool_flag ''companions'' True],
     demo_method ''archiveorg'' (Some (\<lambda>s. Contains s ''archive.org'')) False []]"

abbreviation demo_registry :: registry where
  "demo_registry \<equiv> rev (map (\<lambda>m. (mName m, m)) demo_methods)"

lemma demo_registered: "register_all demo_methods [] = Some demo_registry"
  unfolding register_all_spec by (simp add: demo_methods_def demo_method_def)

theorem Detect_correct_witness:
  "map_option mName (Detect demo_registry ''https://archive.org/details/x'') = Some ''archiveorg''
   \<and> map_option mName (Detect demo_registry ''https://example.org/'') = Some ''http''
   \<and> Detect demo_registry ''me@example.org'' = None"
proof (intro conjI)
  show "Detect demo_registry ''me@example.org'' = None"
    using Detect_correct [OF demo_registered, of "''me@example.org''"]
    by (simp add: demo_methods_def demo_method_def accepts_def Contains_def HasPrefix_def)
  show "map_option mName (Detect demo_registry ''https://archive.org/details/x'') = Some ''archiveorg''"
    by code_simp
  show "map_option mName (Detect demo_registry ''https://example.org/'') = Some ''http''"
    by code_simp
qed

end
