(* ===== verification/GoUrl.thy ===== *)
theory GoUrl
  imports GoPath
begin

text \<open>
  The part of Go's package \<open>net/url\<close> (Go 1.26, the version \<open>go.mod\<close> names) that the program uses:
  \<open>url.Parse\<close>, \<open>Hostname\<close>, \<open>Port\<close>, \<open>EscapedPath\<close> and \<open>String\<close>. \<open>Inl\<close> carries the text of the
  parse error.
\<close>

record url =
  Scheme :: string
  Opaque :: string
  User :: "(string \<times> string option) option"   \<comment> \<open>user name, password\<close>
  Host :: string
  Path :: string
  RawPath :: string
  OmitHost :: bool
  ForceQuery :: bool
  RawQuery :: string
  Fragment :: string
  RawFragment :: string

definition empty_url :: url where
  "empty_url = \<lparr>Scheme = [], Opaque = [], User = None, Host = [], Path = [], RawPath = [],
     OmitHost = False, ForceQuery = False, RawQuery = [], Fragment = [], RawFragment = []\<rparr>"

subsection \<open>Escaping\<close>

datatype enc = encodePath | encodeUserPassword | encodeQueryComponent | encodeHost | encodeZone
  | encodeFragment

definition is_alpha :: "char \<Rightarrow> bool" where
  "is_alpha c = (let n = (of_char c :: nat) in 65 \<le> n \<and> n \<le> 90 \<or> 97 \<le> n \<and> n \<le> 122)"

definition is_alnum :: "char \<Rightarrow> bool" where
  "is_alnum c \<longleftrightarrow> is_alpha c \<or> is_digit c"

definition shouldEscape :: "char \<Rightarrow> enc \<Rightarrow> bool" where
  "shouldEscape c m =
    (if is_alnum c then False
     else if m \<in> {encodeHost, encodeZone} \<and> c \<in> set ''!$&()*+,;=:[]<>'' \<union> {CHR 0x22, CHR 0x27} then False
     else if c \<in> set ''-_.~'' then False
     else if c \<in> set ''$&+,/:;=?@'' then
       (case m of
          encodePath \<Rightarrow> c = CHR ''?''
        | encodeUserPassword \<Rightarrow> c \<in> set ''@/?:''
        | encodeQueryComponent \<Rightarrow> True
        | encodeFragment \<Rightarrow> False
        | _ \<Rightarrow> True)
     else if m = encodeFragment \<and> c \<in> set ''!()*'' then False
     else True)"

definition hex_val :: "char \<Rightarrow> nat option" where
  "hex_val c = (let n = (of_char c :: nat) in
     if 48 \<le> n \<and> n \<le> 57 then Some (n - 48)
     else if 97 \<le> n \<and> n \<le> 102 then Some (n - 87)
     else if 65 \<le> n \<and> n \<le> 70 then Some (n - 55)
     else None)"

definition upper_hex :: "nat \<Rightarrow> char" where
  "upper_hex d = (char_of (if d < 10 then 48 + d else 55 + d) :: char)"

definition escape :: "string \<Rightarrow> enc \<Rightarrow> string" where
  "escape s m = concat (map (\<lambda>c.
      if c = CHR '' '' \<and> m = encodeQueryComponent then ''+''
      else if shouldEscape c m
      then (let n = (of_char c :: nat) in [CHR ''%'', upper_hex (n div 16), upper_hex (n mod 16)])
      else [c]) s)"

definition escape_error :: "string \<Rightarrow> string" where
  "escape_error s = ''invalid URL escape '' @ Quote s"

fun unescape :: "string \<Rightarrow> enc \<Rightarrow> string + string" where
  "unescape [] m = Inr []"
| "unescape (c # cs) m =
    (if c = CHR ''%'' then
       (case cs of
          h # l # rest \<Rightarrow>
            (case (hex_val h, hex_val l) of
               (Some hv, Some lv) \<Rightarrow>
                 let v = char_of (16 * hv + lv) in
                 if m = encodeHost \<and> hv < 8 \<and> [h, l] \<noteq> ''25'' then Inl (escape_error [c, h, l])
                 else if m = encodeZone \<and> [h, l] \<noteq> ''25'' \<and> v \<noteq> CHR '' '' \<and> shouldEscape v encodeHost
                 then Inl (escape_error [c, h, l])
                 else map_sum id ((#) v) (unescape rest m)
             | _ \<Rightarrow> Inl (escape_error [c, h, l]))
        | _ \<Rightarrow> Inl (escape_error (c # cs)))
     else if m \<in> {encodeHost, encodeZone} \<and> (of_char c :: nat) < 128 \<and> shouldEscape c m
     then Inl (''invalid character '' @ Quote [c] @ '' in host name'')
     else map_sum id ((#) (if c = CHR ''+'' \<and> m = encodeQueryComponent then CHR '' '' else c))
            (unescape cs m))"

definition validEncoded :: "string \<Rightarrow> enc \<Rightarrow> bool" where
  "validEncoded s m = list_all (\<lambda>c. c \<in> set ''!$&()*+,;=:@[]%'' \<union> {CHR 0x27} \<or> \<not> shouldEscape c m) s"

subsection \<open>The host\<close>

definition validOptionalPort :: "string \<Rightarrow> bool" where
  "validOptionalPort p = (case p of [] \<Rightarrow> True | c # cs \<Rightarrow> c = CHR '':'' \<and> list_all is_digit cs)"

text \<open>\<open>netip.ParseAddr\<close> on an IPv6 literal: up to eight 16-bit groups, at most one \<open>::\<close>, an IPv4
  tail worth two groups, an optional non-empty zone.\<close>

definition valid_ipv4 :: "string \<Rightarrow> bool" where
  "valid_ipv4 s = (let ps = Split s (CHR ''.'') in
     length ps = 4 \<and>
     list_all (\<lambda>p. p \<noteq> [] \<and> length p \<le> 3 \<and> list_all is_digit p \<and> digits_val p \<le> 255
                 \<and> (hd p = CHR ''0'' \<longrightarrow> length p = 1)) ps)"

definition valid_group :: "string \<Rightarrow> bool" where
  "valid_group g \<longleftrightarrow> g \<noteq> [] \<and> length g \<le> 4 \<and> list_all (\<lambda>c. hex_val c \<noteq> None) g"

text \<open>The number of 16-bit units of a colon-separated run, \<open>None\<close> if it is malformed; an IPv4 tail
  is allowed where the flag says so.\<close>

definition ipv6_units :: "bool \<Rightarrow> string \<Rightarrow> nat option" where
  "ipv6_units v4 s =
     (if s = [] then Some 0
      else (let gs = Split s (CHR '':'') in
        if list_all valid_group gs then Some (length gs)
        else if v4 \<and> list_all valid_group (butlast gs) \<and> valid_ipv4 (last gs)
        then Some (length gs + 1) else None))"

definition valid_ipv6 :: "string \<Rightarrow> bool" where
  "valid_ipv6 h =
     (let (a, z, hasz) = Cut h ''%'' in
      (hasz \<longrightarrow> z \<noteq> []) \<and> CHR '':'' \<in> set a \<and>
      (let (l, r, ell) = Cut a ''::'' in
       if ell then (case (ipv6_units False l, ipv6_units True r) of
                      (Some m, Some n) \<Rightarrow> m + n \<le> 7 | _ \<Rightarrow> False)
       else ipv6_units True a = Some 8))"

definition bind_sum :: "'e + 'a \<Rightarrow> ('a \<Rightarrow> 'e + 'b) \<Rightarrow> 'e + 'b" where
  "bind_sum r f = (case r of Inl e \<Rightarrow> Inl e | Inr a \<Rightarrow> f a)"

definition parseHost :: "string \<Rightarrow> string \<Rightarrow> string + string" where
  "parseHost scheme host =
    (case LastIndexByte host (CHR ''['') of
       Some (Suc _) \<Rightarrow> Inl ''invalid IP-literal''
     | Some 0 \<Rightarrow>
        (case LastIndexByte host (CHR '']'') of
           None \<Rightarrow> Inl (''missing '' @ [CHR 0x27, CHR '']'', CHR 0x27] @ '' in host'')
         | Some i \<Rightarrow>
             let colonPort = drop (Suc i) host; hostname = take (i - 1) (drop 1 host) in
             if \<not> validOptionalPort colonPort
             then Inl (''invalid port '' @ Quote colonPort @ '' after host'')
             else
               bind_sum
                 (case Index hostname ''%25'' of
                    None \<Rightarrow> unescape hostname encodeHost
                  | Some z \<Rightarrow> bind_sum (unescape (take z hostname) encodeHost) (\<lambda>a.
                        bind_sum (unescape (drop z hostname) encodeZone) (\<lambda>b. Inr (a @ b))))
                 (\<lambda>h. if valid_ipv6 h then Inr (''['' @ h @ '']'' @ colonPort)
                      else Inl (''invalid host: '' @ Quote h)))
     | None \<Rightarrow>
        (case IndexByte host (CHR '':'') of
           Some i \<Rightarrow>
             if \<not> validOptionalPort (drop (if scheme \<in> {''postgres'', ''postgresql''}
                  then the (LastIndexByte host (CHR '':'')) else i) host)
             then Inl (''invalid port '' @ Quote (drop i host) @ '' after host'')
             else unescape host encodeHost
         | None \<Rightarrow> unescape host encodeHost))"

definition validUserinfo :: "string \<Rightarrow> bool" where
  "validUserinfo s = list_all (\<lambda>c. is_alnum c \<or> c \<in> set ''-._:~!$&()*+,;=%@'' \<union> {CHR 0x27}) s"

definition parseAuthority ::
  "string \<Rightarrow> string \<Rightarrow> string + ((string \<times> string option) option \<times> string)" where
  "parseAuthority scheme authority =
    (case LastIndexByte authority (CHR ''@'') of
       None \<Rightarrow> bind_sum (parseHost scheme authority) (\<lambda>h. Inr (None, h))
     | Some i \<Rightarrow>
         bind_sum (parseHost scheme (drop (Suc i) authority)) (\<lambda>h.
           let ui = take i authority in
           if \<not> validUserinfo ui then Inl ''net/url: invalid userinfo''
           else if CHR '':'' \<notin> set ui then
             bind_sum (unescape ui encodeUserPassword) (\<lambda>u. Inr (Some (u, None), h))
           else (case Cut ui '':'' of (us, ps, _) \<Rightarrow>
             bind_sum (unescape us encodeUserPassword) (\<lambda>u.
             bind_sum (unescape ps encodeUserPassword) (\<lambda>p. Inr (Some (u, Some p), h))))))"

subsection \<open>Parse\<close>

text \<open>The scheme and the rest after its colon.\<close>

fun getScheme_from :: "nat \<Rightarrow> string \<Rightarrow> string \<Rightarrow> string + (string \<times> string)" where
  "getScheme_from i [] raw = Inr ([], raw)"
| "getScheme_from i (c # cs) raw =
    (if is_alpha c then getScheme_from (Suc i) cs raw
     else if is_digit c \<or> c \<in> set ''+-.'' then
       (if i = 0 then Inr ([], raw) else getScheme_from (Suc i) cs raw)
     else if c = CHR '':'' then
       (if i = 0 then Inl ''missing protocol scheme'' else Inr (take i raw, drop (Suc i) raw))
     else Inr ([], raw))"

definition getScheme :: "string \<Rightarrow> string + (string \<times> string)" where
  "getScheme raw = getScheme_from 0 raw raw"

definition has_ctl :: "string \<Rightarrow> bool" where
  "has_ctl s = list_ex (\<lambda>c. (of_char c :: nat) < 32 \<or> (of_char c :: nat) = 127) s"

definition setPath :: "url \<Rightarrow> string \<Rightarrow> string + url" where
  "setPath u p = bind_sum (unescape p encodePath) (\<lambda>q.
     Inr (u\<lparr>Path := q, RawPath := (if p = escape q encodePath then [] else p)\<rparr>))"

definition setFragment :: "url \<Rightarrow> string \<Rightarrow> string + url" where
  "setFragment u f = bind_sum (unescape f encodeFragment) (\<lambda>g.
     Inr (u\<lparr>Fragment := g, RawFragment := (if f = escape g encodeFragment then [] else f)\<rparr>))"

definition parse_query :: "url \<Rightarrow> string \<Rightarrow> url \<times> string" where
  "parse_query u rest =
     (if HasSuffix rest ''?'' \<and> count_list rest (CHR ''?'') = 1
      then (u\<lparr>ForceQuery := True\<rparr>, butlast rest)
      else (case Cut rest ''?'' of (r, q, _) \<Rightarrow> (u\<lparr>RawQuery := q\<rparr>, r)))"

definition parse_nofrag :: "string \<Rightarrow> string + url" where
  "parse_nofrag raw =
    (if has_ctl raw then Inl ''net/url: invalid control character in URL''
     else if raw = ''*'' then Inr (empty_url\<lparr>Path := ''*''\<rparr>)
     else bind_sum (getScheme raw) (\<lambda>(sch, rest0).
       let scheme = ToLower sch;
           (u, rest) = parse_query (empty_url\<lparr>Scheme := scheme\<rparr>) rest0
       in if \<not> HasPrefix rest ''/'' \<and> scheme \<noteq> [] then Inr (u\<lparr>Opaque := rest\<rparr>)
          else if \<not> HasPrefix rest ''/'' \<and> CHR '':'' \<in> set (fst (Cut rest ''/''))
          then Inl ''first path segment in URL cannot contain colon''
          else if (scheme \<noteq> [] \<or> \<not> HasPrefix rest ''///'') \<and> HasPrefix rest ''//'' then
            (let auth = drop 2 rest;
                 i = (case IndexByte auth (CHR ''/'') of None \<Rightarrow> length auth | Some i \<Rightarrow> i)
             in bind_sum (parseAuthority scheme (take i auth)) (\<lambda>(usr, h).
                  setPath (u\<lparr>User := usr, Host := h\<rparr>) (drop i auth)))
          else if scheme \<noteq> [] \<and> HasPrefix rest ''/'' then setPath (u\<lparr>OmitHost := True\<rparr>) rest
          else setPath u rest))"

definition parse_error :: "string \<Rightarrow> string \<Rightarrow> string" where
  "parse_error raw e = ''parse '' @ Quote raw @ '': '' @ e"

definition Parse :: "string \<Rightarrow> string + url" where
  "Parse raw =
    (case Cut raw ''#'' of (base, frag, _) \<Rightarrow>
      (case parse_nofrag base of
         Inl e \<Rightarrow> Inl (parse_error base e)
       | Inr u \<Rightarrow>
           if frag = [] then Inr u
           else (case setFragment u frag of
                   Inl e \<Rightarrow> Inl (parse_error raw e) | Inr u' \<Rightarrow> Inr u')))"

subsection \<open>Reading a URL\<close>

definition splitHostPort :: "string \<Rightarrow> string \<times> string" where
  "splitHostPort hp =
    (let (h, p) = (case LastIndexByte hp (CHR '':'') of
           Some i \<Rightarrow> if validOptionalPort (drop i hp) then (take i hp, drop (Suc i) hp) else (hp, [])
         | None \<Rightarrow> (hp, []))
     in (if HasPrefix h ''['' \<and> HasSuffix h '']'' then butlast (tl h) else h, p))"

definition Hostname :: "url \<Rightarrow> string" where
  "Hostname u = fst (splitHostPort (Host u))"

definition Port :: "url \<Rightarrow> string" where
  "Port u = snd (splitHostPort (Host u))"

definition EscapedPath :: "url \<Rightarrow> string" where
  "EscapedPath u =
     (if RawPath u \<noteq> [] \<and> validEncoded (RawPath u) encodePath
         \<and> unescape (RawPath u) encodePath = Inr (Path u) then RawPath u
      else if Path u = ''*'' then ''*'' else escape (Path u) encodePath)"

definition EscapedFragment :: "url \<Rightarrow> string" where
  "EscapedFragment u =
     (if RawFragment u \<noteq> [] \<and> validEncoded (RawFragment u) encodeFragment
         \<and> unescape (RawFragment u) encodeFragment = Inr (Fragment u) then RawFragment u
      else escape (Fragment u) encodeFragment)"

definition userinfo_string :: "string \<times> string option \<Rightarrow> string" where
  "userinfo_string ui = (case ui of (n, p) \<Rightarrow>
     if n = [] \<and> p = None then []
     else escape n encodeUserPassword
        @ (case p of None \<Rightarrow> [] | Some q \<Rightarrow> '':'' @ escape q encodeUserPassword))"

definition url_String :: "url \<Rightarrow> string" where
  "url_String u =
    (let s1 = (if Scheme u \<noteq> [] then Scheme u @ '':'' else []);
         body = (if Opaque u \<noteq> [] then s1 @ Opaque u
           else
             (let a = (if (Scheme u \<noteq> [] \<or> Host u \<noteq> [] \<or> User u \<noteq> None)
                          \<and> \<not> (OmitHost u \<and> Host u = [] \<and> User u = None)
                       then (if Host u \<noteq> [] \<or> Path u \<noteq> [] \<or> User u \<noteq> None then ''//'' else [])
                          @ (case User u of None \<Rightarrow> [] | Some ui \<Rightarrow> userinfo_string ui @ ''@'')
                          @ escape (Host u) encodeHost
                       else []);
                  p = EscapedPath u;
                  s2 = s1 @ a @ (if p \<noteq> [] \<and> \<not> HasPrefix p ''/'' \<and> Host u \<noteq> [] then ''/'' else [])
              in s2 @ (if s2 = [] \<and> CHR '':'' \<in> set (fst (Cut p ''/'')) then ''./'' else []) @ p))
     in body
        @ (if ForceQuery u \<or> RawQuery u \<noteq> [] then ''?'' @ RawQuery u else [])
        @ (if Fragment u \<noteq> [] then ''#'' @ EscapedFragment u else []))"

subsection \<open>Facts\<close>

text \<open>Escaping is undone by unescaping, in the modes that write paths and user names.\<close>

lemma hex_val_upper_hex: "d < 16 \<Longrightarrow> hex_val (upper_hex d) = Some d"
  by (auto simp: hex_val_def upper_hex_def Let_def)

lemma unescape_escape:
  assumes "m \<in> {encodePath, encodeUserPassword, encodeFragment}"
  shows "unescape (escape s m) m = Inr s"
proof (induction s)
  case Nil
  then show ?case by (simp add: escape_def)
next
  case (Cons c s)
  have m: "m \<noteq> encodeHost" "m \<noteq> encodeZone" "m \<noteq> encodeQueryComponent" using assms by auto
  show ?case
  proof (cases "shouldEscape c m")
    case True
    let ?n = "of_char c :: nat"
    have n: "?n < 256" by (metis of_char_of nat_of_char_less_256)
    have d: "?n div 16 < 16" "?n mod 16 < 16" using n less_mult_imp_div_less [of ?n 16 16] by auto
    have e: "escape (c # s) m = CHR ''%'' # upper_hex (?n div 16) # upper_hex (?n mod 16) # escape s m"
      using True m by (simp add: escape_def Let_def)
    have "unescape (escape (c # s) m) m
        = map_sum id ((#) (char_of (16 * (?n div 16) + ?n mod 16))) (unescape (escape s m) m)"
      using m by (simp add: e hex_val_upper_hex [OF d(1)] hex_val_upper_hex [OF d(2)] Let_def)
    then show ?thesis using Cons by simp
  next
    case False
    then have "c \<noteq> CHR ''%''" using assms
      by (auto simp: shouldEscape_def is_alnum_def is_alpha_def is_digit_def)
    moreover have "escape (c # s) m = c # escape s m" using False m by (simp add: escape_def)
    ultimately show ?thesis using Cons m by simp
  qed
qed

end
