(* ===== verification/Git.thy ===== *)
theory Git
  imports Registry GoUrl
begin

text \<open>
  \<open>git/git.go\<close>, the part that decides what a source is and where it goes: \<open>Match\<close>,
  \<open>isKnownForgeRepo\<close>, \<open>parseSource\<close>, \<open>cleanHostAndPath\<close> and \<open>localPath\<close>. The probe of a web server
  (\<open>ProbeHTTP\<close>) is an input of the theories that use it, and the commands \<open>Mirror\<close> runs are those of
  the external \<open>git\<close> program.
\<close>

definition git_tmpSuffix :: string where
  "git_tmpSuffix = ''.gitmirror-tmp''"

definition reservedForgeRoots :: "string list" where
  "reservedForgeRoots = [''-'', ''about'', ''abuse_reports'', ''account'', ''admin'', ''apps'', ''blog'', ''codespaces'',
     ''collections'', ''contact'', ''copilot'', ''customer-stories'', ''dashboard'', ''docs'', ''enterprise'', ''events'',
     ''explore'', ''features'', '' groups'', ''groups'', ''help'', ''issues'', ''join'', ''login'', ''marketplace'', ''new'',
     ''notifications'', ''orgs'', ''organizations'', ''pricing'', ''pulls'', ''readme'', ''search'', ''security'',
     ''session'', ''settings'', ''signin'', ''signup'', ''site'', ''snippets'', ''sponsors'', ''status'', ''support'',
     ''team'', ''terms'', ''topics'', ''trending'', ''user'', ''users'']"

definition cleanHostAndPath :: "string \<Rightarrow> string \<Rightarrow> string \<Rightarrow> string + (string \<times> string)" where
  "cleanHostAndPath source host rawPath =
    (if host = [] \<or> host = ''.'' \<or> host = ''..'' \<or> ContainsAny host [CHR ''/'', CHR 0x5C]
     then Inl (''unusable host '' @ Quote host @ '' in '' @ Quote source)
     else
      (let p = TrimSuffix (Clean (''/'' @ TrimPrefix (TrimPrefix (TrimPrefix rawPath ''/'') ''~/'') ''~'')) ''.git''
       in if p = [] \<or> p = ''/'' \<or> p = ''.'' then Inl (''no repository path in '' @ Quote source)
          else if HasSuffix p git_tmpSuffix then Inl (''path '' @ Quote rawPath @ '' collides with temp directory naming'')
          else Inr (host, TrimPrefix p ''/'')))"

definition default_ports :: "(string \<times> string) list" where
  "default_ports = [(''http'', '':80''), (''https'', '':443''), (''git'', '':9418''), (''ssh'', '':22''), (''git+ssh'', '':22'')]"

definition strip_default_port :: "string \<Rightarrow> string \<Rightarrow> string" where
  "strip_default_port scheme host =
     foldl (\<lambda>h (sch, suf). if scheme = sch \<and> HasSuffix h suf then take (length h - length suf) h else h) host default_ports"

definition git_parseSource :: "string \<Rightarrow> string + (string \<times> string)" where
  "git_parseSource source =
    (if Contains source ''://'' then
       (case Parse source of
          Inl e \<Rightarrow> Inl (''parsing '' @ Quote source @ '': '' @ e)
        | Inr u \<Rightarrow>
           (let scheme = ToLower (Scheme u) in
            if scheme \<notin> set [''http'', ''https'', ''git'', ''ssh'', ''git+ssh'']
            then Inl (''unsupported git URL scheme '' @ Quote (Scheme u) @ '' in '' @ Quote source)
            else cleanHostAndPath source (strip_default_port scheme (ToLower (Host u))) (Path u)))
     else if Contains source ''::'' then Inl (''not a git source: '' @ Quote source)
     else (case IndexByte source (CHR '':'') of
        None \<Rightarrow> Inl (''not a git source (want a URL or [user@]host:path): '' @ Quote source)
      | Some 0 \<Rightarrow> Inl (''not a git source (want a URL or [user@]host:path): '' @ Quote source)
      | Some colon \<Rightarrow>
         (let hostPart = take colon source;
              host = (case LastIndexByte hostPart (CHR ''@'') of None \<Rightarrow> hostPart | Some i \<Rightarrow> drop (Suc i) hostPart)
          in cleanHostAndPath source (ToLower host) (drop (Suc colon) source))))"

definition git_localPath :: "string \<Rightarrow> string \<Rightarrow> string + string" where
  "git_localPath destDir source =
    (case git_parseSource source of
       Inl e \<Rightarrow> Inl e
     | Inr (host, repoPath) \<Rightarrow> Inr (JoinPath [destDir, host, repoPath]))"

definition isKnownForgeRepo :: "string \<Rightarrow> string \<Rightarrow> bool" where
  "isKnownForgeRepo host0 p =
    (let host = TrimPrefix host0 ''www.'';
         segs = Split (Trim p ''/'') slash
     in if segs = [] \<or> hd segs = [] then False
        else if host \<in> set [''github.com'', ''codeberg.org'', ''bitbucket.org'', ''gitea.com'']
        then length segs = 2 \<and> ToLower (hd segs) \<notin> set reservedForgeRoots
        else if host = ''git.sr.ht'' then length segs = 2 \<and> HasPrefix (hd segs) ''~'' \<and> 1 < length (hd segs)
        else if host = ''gitlab.com''
        then 2 \<le> length segs \<and> ToLower (hd segs) \<notin> set reservedForgeRoots \<and> list_all (\<lambda>s. s \<noteq> ''-'') segs
        else if HasSuffix host ''.googlesource.com'' then list_all (\<lambda>s. \<not> HasPrefix s ''+'') segs
        else False)"

definition git_Match :: "string \<Rightarrow> bool" where
  "git_Match source =
    (if HasPrefix source ''git://'' \<or> HasPrefix source ''ssh://'' \<or> HasPrefix source ''git+ssh://''
     then \<not> isl (git_parseSource source)
     else if HasPrefix source ''http://'' \<or> HasPrefix source ''https://'' then
       (case Parse source of
          Inl _ \<Rightarrow> False
        | Inr u \<Rightarrow>
           (if Host u = [] \<or> RawQuery u \<noteq> [] \<or> Fragment u \<noteq> [] then False
            else if isl (git_parseSource source) then False
            else (let p = TrimSuffix (Path u) ''/'' in
              if HasSuffix p ''.git'' \<and> p \<noteq> ''/.git'' \<and> p \<noteq> ''.git'' then True
              else isKnownForgeRepo (ToLower (Hostname u)) p)))
     else if \<not> Contains source ''://'' \<and> \<not> Contains source ''::'' then
       (let p = TrimSuffix source ''/'' in
        if HasPrefix p ''git@'' \<or> HasSuffix p ''.git'' then \<not> isl (git_parseSource source) else False)
     else False)"

subsection \<open>Where a repository goes\<close>

lemma cleanHostAndPath_host:
  assumes "cleanHostAndPath source host raw = Inr (h, p)"
  shows "h = host \<and> plain_elem host"
proof -
  have "h = host" and c: "host \<noteq> []" "host \<noteq> ''.''" "host \<noteq> ''..''" "\<not> ContainsAny host [CHR ''/'', CHR 0x5C]"
    using assms by (auto simp: cleanHostAndPath_def Let_def split: if_splits)
  moreover have "slash \<notin> set host" using c(4) by (auto simp: ContainsAny_def list_ex_iff slash_def)
  ultimately show ?thesis by (simp add: plain_elem_def)
qed

lemma suffix_last_elem:
  assumes "suffix x (a @ slash # n)" and "slash \<notin> set x"
  shows "suffix x n"
proof -
  have "suffix x n \<or> (\<exists>y. x = y @ n \<and> suffix y (a @ [slash]))"
    using assms(1) suffix_append [of x "a @ [slash]" n] by auto
  then show ?thesis
  proof
    assume "\<exists>y. x = y @ n \<and> suffix y (a @ [slash])"
    then obtain y where y: "x = y @ n" "suffix y (a @ [slash])" by blast
    have "y = []"
    proof (rule ccontr)
      assume "y \<noteq> []"
      then have "last y = slash" using y(2) by (metis last_appendR last_snoc suffixE)
      then show False using assms(2) y(1) \<open>y \<noteq> []\<close> by (metis Un_iff last_in_set set_append)
    qed
    with y show ?thesis by simp
  qed
qed

text \<open>The repository path without its suffix: the elements of a cleaned rooted path, of which only
  the last is changed, by dropping \<open>.git\<close> from its end.\<close>

lemma cleanHostAndPath_path:
  assumes "cleanHostAndPath source host raw = Inr (h, p)"
  obtains es e where "list_all plain_elem es" "slash \<notin> set e" "p = Join (es @ [e]) [slash]" "p \<noteq> []"
    "plain_elem e \<or> plain_elem (e @ ''.git'')"
proof -
  let ?q = "''/'' @ TrimPrefix (TrimPrefix (TrimPrefix raw ''/'') ''~/'') ''~''"
  let ?c = "clean_elems ?q"
  have r: "rooted ?q" by (simp add: rooted_def HasPrefix_def)
  have C: "Clean ?q = slash # Join ?c [slash]" using r by (simp add: Clean_def unclean_def)
  have pl: "list_all plain_elem ?c" by (rule clean_elems_rooted_plain [OF r])
  define t where "t = TrimSuffix (Clean ?q) ''.git''"
  have p: "p = TrimPrefix t ''/''" and t: "t \<noteq> []" "t \<noteq> ''/''"
    using assms by (auto simp: cleanHostAndPath_def t_def Let_def split: if_splits)
  have ne: "?c \<noteq> []"
  proof
    assume "?c = []"
    then have "Clean ?q = ''/''" using C by (simp add: slash_def)
    then have "t = ''/''" by (simp add: t_def TrimSuffix_def HasSuffix_def)
    then show False using t(2) by simp
  qed
  then obtain es e0 where es: "?c = es @ [e0]" by (metis rev_exhaust)
  have J: "Join (es @ [x]) [slash] = (if es = [] then [] else Join es [slash] @ [slash]) @ x" for x
    by (induction es rule: induct_list012) auto
  have e0: "plain_elem e0" and pes: "list_all plain_elem es" using pl es by simp_all
  show ?thesis
  proof (cases "HasSuffix (Clean ?q) ''.git''")
    case False
    then have te: "t = slash # Join (es @ [e0]) [slash]" using C es by (simp add: t_def TrimSuffix_def)
    then have "p = Join (es @ [e0]) [slash]" using p te by (simp add: TrimPrefix_def HasPrefix_def slash_def)
    moreover have "p \<noteq> []" using te p t(2) by (auto simp: TrimPrefix_def HasPrefix_def slash_def split: if_splits)
    ultimately show ?thesis using that [OF pes, of e0] e0 by (simp add: plain_elem_def)
  next
    case True
    then obtain x where x: "Clean ?q = x @ ''.git''" by (auto simp: HasSuffix_iff)
    have tx: "t = x" unfolding t_def x by simp
    have "slash # (if es = [] then [] else Join es [slash] @ [slash]) @ e0 = x @ ''.git''"
      using x C es J [of e0] by simp
    then have "suffix ''.git'' (slash # (if es = [] then [] else Join es [slash] @ [slash]) @ e0)"
      unfolding suffix_def by blast
    then have "suffix ''.git'' (([] @ (if es = [] then [] else slash # Join es [slash])) @ slash # e0)"
      by (cases "es = []") simp_all
    then have "suffix ''.git'' e0" by (rule suffix_last_elem) (simp add: slash_def)
    then obtain e where e: "e0 = e @ ''.git''" by (auto simp: suffix_def)
    have "x @ ''.git'' = (slash # Join (es @ [e]) [slash]) @ ''.git''"
      using x C es J [of e0] J [of e] e by simp
    then have xe: "x = slash # Join (es @ [e]) [slash]" by simp
    then have "p = Join (es @ [e]) [slash]" using p tx by (simp add: TrimPrefix_def HasPrefix_def slash_def)
    moreover have "p \<noteq> []" using xe tx p t(2) by (auto simp: TrimPrefix_def HasPrefix_def slash_def split: if_splits)
    ultimately show ?thesis using that [OF pes, of e] e0 e by (simp add: plain_elem_def)
  qed
qed


lemma git_parseSource_parts:
  assumes "git_parseSource source = Inr (host, repo)"
  obtains raw where "cleanHostAndPath source host raw = Inr (host, repo)"
proof -
  have "\<exists>h raw. cleanHostAndPath source h raw = Inr (host, repo)"
    using assms by (auto simp: git_parseSource_def Let_def split: if_splits sum.splits option.splits nat.splits)
  then show ?thesis using cleanHostAndPath_host that by metis
qed

text \<open>C13: Confinement of repositories: whatever the source, the directory \<open>localPath\<close> chooses lies in
  the destination directory, and below the directory of a host with a plain name, except when the
  path of the source is \<open>...git\<close>.\<close>

theorem git_confined:
  assumes "destDir \<noteq> []" and "git_localPath destDir source = Inr q"
  shows "path_under destDir q \<and> (\<exists>host repo. git_parseSource source = Inr (host, repo) \<and> plain_elem host
     \<and> (repo \<noteq> ''..'' \<longrightarrow> path_under (JoinPath [destDir, host]) q))"
proof -
  obtain host repo where ps: "git_parseSource source = Inr (host, repo)"
      and q: "q = JoinPath [destDir, host, repo]"
    using assms(2) by (auto simp: git_localPath_def split: sum.splits)
  obtain raw where c: "cleanHostAndPath source host raw = Inr (host, repo)"
    by (rule git_parseSource_parts [OF ps])
  have host: "plain_elem host" using cleanHostAndPath_host [OF c] by simp
  obtain es e where es: "list_all plain_elem es" "slash \<notin> set e" "repo = Join (es @ [e]) [slash]" "repo \<noteq> []"
      and e: "plain_elem e \<or> plain_elem (e @ ''.git'')"
    by (rule cleanHostAndPath_path [OF c])
  have hn: "host \<noteq> []" using host by (simp add: plain_elem_def)
  have S: "Split (destDir @ slash # host @ slash # repo) slash = Split destDir slash @ host # es @ [e]"
  proof -
    have "Split (host @ slash # repo) slash = host # Split repo slash"
      using host by (simp add: Split_append plain_elem_def)
    moreover have "Split repo slash = es @ [e]"
      unfolding es(3) by (rule Split_Join) (use es(1,2) in \<open>auto simp: list_all_iff plain_elem_def\<close>)
    ultimately show ?thesis by (simp add: Split_app_slash)
  qed
  let ?r = "rooted destDir"
  let ?st = "rev es @ host # foldl (clean_step ?r) [] (Split destDir slash)"
  have J: "clean_elems q = rev (clean_step ?r ?st e)"
  proof -
    have "clean_elems q = clean_elems (destDir @ slash # host @ slash # repo)"
      using assms(1) hn es(4) by (simp add: q JoinPath_three)
    also have "\<dots> = rev (foldl (clean_step ?r) [] (Split destDir slash @ (host # es) @ [e]))"
      using S by (simp only: clean_elems_def rooted_append [OF assms(1)] append_Cons)
    also have "foldl (clean_step ?r) (foldl (clean_step ?r) [] (Split destDir slash)) (host # es) = ?st"
      using foldl_clean_plain [of "host # es"] host es(1) by simp
    then have "rev (foldl (clean_step ?r) [] (Split destDir slash @ (host # es) @ [e])) = rev (clean_step ?r ?st e)"
      by (simp only: foldl_append foldl.simps)
    finally show ?thesis .
  qed
  have rt: "rooted q = ?r"
    using assms(1) hn es(4) by (simp add: q JoinPath_three rooted_append)
  have D: "rev (foldl (clean_step ?r) [] (Split destDir slash)) = clean_elems destDir"
    by (simp only: clean_elems_def)
  have dh: "clean_elems (JoinPath [destDir, host]) = clean_elems destDir @ [host]"
       "rooted (JoinPath [destDir, host]) = ?r"
    using clean_elems_append_plain [of destDir "[host]"] host hn assms(1)
    by (simp_all add: JoinPath_two rooted_append)
  have sp: "e = [] \<or> e = ''.'' \<or> e = ''..'' \<or> plain_elem e" using es(2) by (auto simp: plain_elem_def)
  have E: "clean_elems q = clean_elems destDir @ host # es @ (if plain_elem e then [e] else [])
      \<or> (e = ''..'' \<and> clean_elems q = clean_elems destDir @ butlast (host # es))"
  proof (cases "e = ''..''")
    case False
    then have "clean_step ?r ?st e = (if plain_elem e then e # ?st else ?st)"
      using sp by (auto simp: plain_elem_def)
    then show ?thesis using J D by (simp del: clean_step.simps)
  next
    case True
    have "hd ?st \<noteq> ''..''" using host es(1) by (cases es rule: rev_cases) (auto simp: plain_elem_def)
    then have "clean_step ?r ?st e = tl ?st" using True by (cases ?st) auto
    then have "clean_elems q = clean_elems destDir @ butlast (host # es)"
      using J D by (cases es rule: rev_cases) (simp_all del: clean_step.simps add: butlast_append)
    then show ?thesis using True by simp
  qed
  have "path_under destDir q" using E rt by (auto simp: path_under_def prefix_def)
  moreover have "path_under (JoinPath [destDir, host]) q" if "repo \<noteq> ''..''"
  proof -
    have "e = ''..'' \<longrightarrow> es \<noteq> []" using that es(3) by auto
    then show ?thesis using E rt dh by (cases es rule: rev_cases) (auto simp: path_under_def prefix_def)
  qed
  ultimately show ?thesis using ps host by blast
qed

theorem git_confined_witness:
  "path_under ''/srv'' ''/srv/example.org/a/b''"
proof -
  have "git_localPath ''/srv'' ''git@example.org:a/b.git'' = Inr ''/srv/example.org/a/b''" by code_simp
  from git_confined [OF _ this] show ?thesis by simp
qed

text \<open>A source that leaves the host's directory: the suffix \<open>.git\<close> is dropped after the path was
  cleaned, so \<open>https://host/...git\<close> is mapped to the destination directory itself, and its temporary
  clone to a sibling of it.\<close>

theorem git_dots_escape:
  "git_Match ''https://example.org/...git'' \<and> git_localPath ''/srv/mirror'' ''https://example.org/...git'' = Inr ''/srv/mirror''
   \<and> \<not> path_under ''/srv/mirror'' (''/srv/mirror'' @ git_tmpSuffix)"
  by code_simp

text \<open>Spellings of one repository: with or without a leading slash or \<open>~/\<close>, a \<open>.git\<close> suffix or a
  trailing slash, the path of a source names the same local repository.\<close>

theorem git_spellings:
  assumes "plain_elem h" and "CHR 0x5C \<notin> set h" and "plain_elem u" and "\<not> HasPrefix u ''~''" and "plain_elem n"
    and "\<not> HasSuffix n ''.git''" and "\<not> HasSuffix n git_tmpSuffix"
    and "pre \<in> {[], ''/'', ''~/'', ''/~/''}" and "suf \<in> {[], ''.git'', ''/'', ''.git/''}"
  shows "cleanHostAndPath s h (pre @ u @ ''/'' @ n @ suf) = Inr (h, u @ ''/'' @ n)"
proof -
  let ?r = "u @ ''/'' @ n @ suf"
  obtain c cs where u: "u = c # cs" and c: "c \<noteq> slash" "c \<noteq> CHR ''~''"
    using assms(3,4) by (cases u) (auto simp add: plain_elem_def HasPrefix_Cons)
  have pfx: "\<not> HasPrefix ?r ''/''" "\<not> HasPrefix ?r ''~/''" "\<not> HasPrefix ?r ''~''"
    using c by (simp_all add: u HasPrefix_Cons slash_def)
  have t: "TrimPrefix (TrimPrefix (TrimPrefix (pre @ ?r) ''/'') ''~/'') ''~'' = ?r"
    using assms(8)
  proof (elim insertE emptyE)
    assume p: "pre = ''/''"
    then have "TrimPrefix (pre @ ?r) ''/'' = ?r" by (simp only: TrimPrefix_append)
    then show ?thesis using pfx by (simp only: TrimPrefix_def if_False)
  next
    assume p: "pre = ''~/''"
    have "\<not> HasPrefix (''~/'' @ ?r) ''/''" by (simp add: HasPrefix_Cons)
    then have "TrimPrefix (pre @ ?r) ''/'' = ''~/'' @ ?r" by (simp only: p TrimPrefix_def if_False)
    moreover have "TrimPrefix (''~/'' @ ?r) ''~/'' = ?r" by (simp only: TrimPrefix_append)
    ultimately show ?thesis using pfx by (simp only: TrimPrefix_def if_False)
  next
    assume p: "pre = ''/~/''"
    have "TrimPrefix (pre @ ?r) ''/'' = ''~/'' @ ?r" using TrimPrefix_append [of "''/''" "''~/'' @ ?r"] p by simp
    moreover have "TrimPrefix (''~/'' @ ?r) ''~/'' = ?r" by (simp only: TrimPrefix_append)
    ultimately show ?thesis using pfx by (simp only: TrimPrefix_def if_False)
  qed (use pfx in \<open>simp only: TrimPrefix_def if_False append_Nil\<close>)
  define m where "m = (if suf \<in> {''.git'', ''.git/''} then n @ ''.git'' else n)"
  have C: "Clean (''/'' @ ?r) = slash # u @ slash # m"
  proof -
    have mp: "plain_elem m"
      using assms(5) by (auto simp: m_def plain_elem_def slash_def)
    have "\<exists>t. (t = [] \<or> t = [[]]) \<and> Split (''/'' @ ?r) slash = [] # u # m # t"
    proof (cases "suf \<in> {[], ''.git''}")
      case True
      then have "?r = u @ slash # m" by (auto simp: m_def slash_def)
      then have "Split (''/'' @ ?r) slash = [[], u, m]"
        using assms(3) mp by (simp add: slash_def [symmetric] Split_append Split_id plain_elem_def)
      then show ?thesis by blast
    next
      case False
      then have "?r = u @ slash # m @ slash # []" using assms(9) by (auto simp: m_def slash_def)
      then have "Split (''/'' @ ?r) slash = [[], u, m, []]"
        using assms(3) mp by (simp add: slash_def [symmetric] Split_append Split_id plain_elem_def)
      then show ?thesis by blast
    qed
    then obtain t where t: "t = [] \<or> t = [[]]" "Split (''/'' @ ?r) slash = [] # u # m # t" by blast
    have st: "clean_step True [] [] = []" "clean_step True [] u = [u]" "clean_step True [u] m = [m, u]"
        "clean_step True [m, u] [] = [m, u]"
      using mp assms(3) by (simp_all add: plain_elem_def)
    have "foldl (clean_step True) [] ([] # u # m # t) = [m, u]"
      using t(1) by (auto simp only: foldl.simps st)
    moreover have r: "rooted (''/'' @ ?r)" by (simp add: rooted_def HasPrefix_def)
    ultimately have "clean_elems (''/'' @ ?r) = [u, m]"
      unfolding clean_elems_def t(2) by simp
    then have "Clean (''/'' @ ?r) = unclean True [u, m]" using r by (simp only: Clean_def)
    then show ?thesis by (simp add: unclean_def)
  qed
  have T: "TrimSuffix (slash # u @ slash # m) ''.git'' = slash # u @ slash # n"
  proof (cases "suf \<in> {''.git'', ''.git/''}")
    case True
    then have "slash # u @ slash # m = (slash # u @ slash # n) @ ''.git''" by (simp add: m_def)
    then show ?thesis by (simp only: TrimSuffix_append)
  next
    case False
    have "\<not> HasSuffix (slash # u @ slash # n) ''.git''"
    proof
      assume "HasSuffix (slash # u @ slash # n) ''.git''"
      then have "suffix ''.git'' ((slash # u) @ slash # n)" by (auto simp: HasSuffix_iff suffix_def)
      then have "suffix ''.git'' n" by (rule suffix_last_elem) (simp add: slash_def)
      then show False using assms(6) by (auto simp: HasSuffix_iff suffix_def)
    qed
    then show ?thesis using False by (simp add: m_def TrimSuffix_no)
  qed
  have N: "\<not> HasSuffix (slash # u @ slash # n) git_tmpSuffix"
  proof
    assume "HasSuffix (slash # u @ slash # n) git_tmpSuffix"
    then have "suffix git_tmpSuffix ((slash # u) @ slash # n)" by (auto simp: HasSuffix_iff suffix_def)
    then have "suffix git_tmpSuffix n" by (rule suffix_last_elem) (simp add: slash_def git_tmpSuffix_def)
    then show False using assms(7) by (auto simp: HasSuffix_iff suffix_def)
  qed
  have H: "\<not> (h = [] \<or> h = ''.'' \<or> h = ''..'' \<or> ContainsAny h [CHR ''/'', CHR 0x5C])"
    using assms(1,2) by (auto simp: plain_elem_def ContainsAny_def list_ex_iff slash_def)
  have E: "\<not> (slash # u @ slash # n = [] \<or> slash # u @ slash # n = ''/'' \<or> slash # u @ slash # n = ''.'')"
    by (simp add: u)
  have P: "TrimPrefix (slash # u @ slash # n) ''/'' = u @ ''/'' @ n"
    by (simp add: TrimPrefix_def HasPrefix_def slash_def)
  show ?thesis
    unfolding cleanHostAndPath_def Let_def t C T using H N E P by (simp only: if_False)
qed

theorem git_spellings_witness:
  "cleanHostAndPath ''x'' ''h'' ''/a/b.git'' = Inr (''h'', ''a/b'')"
  using git_spellings [of "''h''" "''a''" "''b''" "''/''" "''.git''" "''x''"]
  by (simp add: plain_elem_def slash_def HasPrefix_def HasSuffix_def git_tmpSuffix_def)

end
