(* ===== verification/Rsync.thy ===== *)
theory Rsync
  imports Registry
begin

text \<open>
  \<open>rsync/rsync.go\<close>: the three forms of a source, the subdirectory a source is mirrored into, and the
  command line of the remote shell. The transfer itself is the library \<open>gokrazy/rsync\<close>; the options
  it asks to send to the remote side are an input.
\<close>

record rsync_source =
  rsDaemon :: bool
  rsUser :: string
  rsHost :: string
  rsPort :: string
  rsPath :: string

definition defaultDaemonPort :: string where
  "defaultDaemonPort = ''873''"

definition rsync_Match :: "string \<Rightarrow> bool" where
  "rsync_Match source =
    (if HasPrefix source ''rsync://'' then True
     else (case Index source ''::'' of
        None \<Rightarrow> False
      | Some i \<Rightarrow> 0 < i \<and> \<not> Contains (take i source) ''/''))"

definition splitUser :: "string \<Rightarrow> string \<times> string" where
  "splitUser s = (case LastIndexByte s (CHR ''@'') of
     Some i \<Rightarrow> (take i s, drop (Suc i) s) | None \<Rightarrow> ([], s))"

definition rsync_splitHostPort :: "string \<Rightarrow> string \<times> string" where
  "rsync_splitHostPort s = (case Cut s '':'' of (h, p, ok) \<Rightarrow> if ok then (h, p) else (s, []))"

definition rsync_parseSource :: "string \<Rightarrow> string + rsync_source" where
  "rsync_parseSource src =
    (if HasPrefix src ''rsync://'' then
       (case Cut (drop 8 src) ''/'' of (hostport0, pth, _) \<Rightarrow>
        (case splitUser hostport0 of (user, hostport) \<Rightarrow>
         (case rsync_splitHostPort hostport of (host, port) \<Rightarrow>
           Inr \<lparr>rsDaemon = True, rsUser = user, rsHost = host,
                rsPort = (if port = [] then defaultDaemonPort else port), rsPath = pth\<rparr>)))
     else (case IndexByte src (CHR '':'') of
        None \<Rightarrow> Inl (''not an rsync source (want rsync://host/module/path, host::module/path, or [user@]host:path): '' @ Quote src)
      | Some idx \<Rightarrow>
         (case splitUser (take idx src) of (user, host) \<Rightarrow>
           (let rest = drop (Suc idx) src in
            if HasPrefix rest '':''
            then Inr \<lparr>rsDaemon = True, rsUser = user, rsHost = host, rsPort = defaultDaemonPort, rsPath = drop 1 rest\<rparr>
            else Inr \<lparr>rsDaemon = False, rsUser = user, rsHost = host, rsPort = [], rsPath = rest\<rparr>))))"

definition rsync_subdir :: "string \<Rightarrow> string" where
  "rsync_subdir source =
    (case rsync_parseSource source of
       Inl _ \<Rightarrow> []
     | Inr src \<Rightarrow>
        (let p = (if HasSuffix (rsPath src) ''/'' then rsPath src else DirPath (rsPath src));
             q = TrimLeft (Clean (''/'' @ TrimPrefix p ''~'')) ''/''
         in JoinPath [rsHost src, q]))"

definition rshCommand :: "(string \<Rightarrow> string) \<Rightarrow> string" where
  "rshCommand getenv = (if getenv ''RSYNC_RSH'' \<noteq> [] then getenv ''RSYNC_RSH'' else ''ssh'')"

text \<open>The program \<open>dialShell\<close> starts and its arguments.\<close>

definition dialShell :: "(string \<Rightarrow> string) \<Rightarrow> rsync_source \<Rightarrow> string list \<Rightarrow> string + (string \<times> string list)" where
  "dialShell getenv src serverArgs =
    (case Fields (rshCommand getenv) of
       [] \<Rightarrow> Inl ''rsync: empty $RSYNC_RSH''
     | sh # shArgs \<Rightarrow>
        Inr (sh, shArgs @ (if rsUser src \<noteq> [] then [''-l'', rsUser src] else [])
               @ [rsHost src, ''rsync''] @ serverArgs))"

subsection \<open>The subdirectory\<close>

lemma Join_snoc: "Join (es @ [x]) [c] = (if es = [] then x else Join es [c] @ c # x)"
  by (induction es rule: induct_list012) auto

lemma LastIndexByte_append: "c \<notin> set x \<Longrightarrow> LastIndexByte (a @ c # x) c = Some (length a)"
proof (induction a)
  case Nil
  then show ?case by (simp add: LastIndexByte_None [THEN iffD2])
next
  case (Cons b a)
  then show ?case by simp
qed

text \<open>\<open>path.Dir\<close> of a path of plain elements drops the last one.\<close>

lemma DirPath_plain:
  assumes "list_all plain_elem es" and "plain_elem x"
  shows "DirPath (Join (es @ [x]) [slash]) = (if es = [] then ''.'' else Join es [slash])"
proof (cases "es = []")
  case True
  then have "LastIndexByte (Join (es @ [x]) [slash]) slash = None"
    using assms(2) by (simp add: LastIndexByte_None plain_elem_def)
  with True show ?thesis by (simp add: DirPath_def)
next
  case False
  have "LastIndexByte (Join (es @ [x]) [slash]) slash = Some (length (Join es [slash]))"
    using False assms(2) by (simp add: Join_snoc LastIndexByte_append plain_elem_def)
  then have D: "DirPath (Join (es @ [x]) [slash]) = Clean (Join es [slash] @ [slash])"
    using False by (simp add: DirPath_def Join_snoc)
  have nr: "\<not> rooted (Join es [slash])"
    using assms(1) False by (cases es rule: list.exhaust; cases "tl es") (auto simp: plain_elem_def rooted_iff append_eq_Cons_conv)
  have "Join es [slash] \<noteq> []" using assms(1) False by (cases es; cases "tl es") (auto simp: plain_elem_def)
  moreover have "clean_elems (Join es [slash]) = es"
    using nr foldl_clean_plain [OF assms(1), of False "[]"]
    by (simp add: clean_elems_def Split_Join_plain [OF assms(1) False] del: clean_step.simps)
  ultimately show ?thesis using D nr False
    by (simp add: Clean_def unclean_def clean_elems_append_plain_nil rooted_append)
qed

lemma Join_plain_head:
  assumes "list_all plain_elem es" and "es \<noteq> []"
  obtains c cs where "Join es [slash] = c # cs" "c \<noteq> slash" "c = hd (hd es)"
proof -
  obtain x xs where es: "es = x # xs" using assms(2) by (cases es) auto
  then have "x \<noteq> []" "slash \<notin> set x" using assms(1) by (simp_all add: plain_elem_def)
  then obtain c cs where "x = c # cs" "c \<noteq> slash" by (cases x) auto
  then show ?thesis using that es by (cases xs) auto
qed

lemma Clean_slash_plain:
  assumes "list_all plain_elem es" and "x = Join es [slash] \<or> x = Join es [slash] @ [slash] \<or> (es = [] \<and> x = ''.'')"
  shows "TrimLeft (Clean (''/'' @ x)) ''/'' = Join es [slash]"
proof -
  have st: "clean_step True st [] = st" "clean_step True st ''.'' = st" for st by simp_all
  have J: "foldl (clean_step True) [] (Split (Join es [slash]) slash) = rev es"
    using Split_Join_plain [OF assms(1)] foldl_clean_plain [OF assms(1), of True "[]"]
    by (cases "es = []") simp_all
  have "foldl (clean_step True) [] (Split x slash) = rev es"
  proof -
    consider "x = Join es [slash]" | "x = Join es [slash] @ slash # []" | "es = []" "x = ''.''"
      using assms(2) by auto
    then show ?thesis
    proof cases
      case 2
      have "Split x slash = Split (Join es [slash]) slash @ [[]]"
        unfolding 2 Split_app_slash by simp
      then show ?thesis by (simp only: foldl_append foldl.simps J st)
    next
      case 3
      then show ?thesis by (simp add: slash_def)
    qed (simp only: J)
  qed
  then have "clean_elems (slash # x) = es" by (simp add: clean_elems_slash del: clean_step.simps)
  then have C: "Clean (''/'' @ x) = slash # Join es [slash]"
    by (simp add: Clean_def unclean_def slash_def [symmetric])
  show ?thesis
  proof (cases "es = []")
    case True
    then show ?thesis unfolding C by (simp add: TrimLeft_def trim_left_by_def slash_def)
  next
    case False
    then obtain c cs where "Join es [slash] = c # cs" "c \<noteq> slash" by (rule Join_plain_head [OF assms(1)])
    then show ?thesis unfolding C by (simp add: TrimLeft_def trim_left_by_def slash_def)
  qed
qed

lemma JoinPath_plain:
  assumes "plain_elem h" and "list_all plain_elem es"
  shows "JoinPath [h, Join es [slash]] = Join (h # es) [slash]"
proof -
  have hn: "h \<noteq> []" "\<not> rooted h" using assms(1) by (auto simp: plain_elem_def rooted_iff)
  show ?thesis
  proof (cases "es = []")
    case True
    have "clean_elems h = [h]" using assms(1) hn(2) foldl_clean_plain [of "[h]" False "[]"]
      by (simp add: clean_elems_def Split_id plain_elem_def)
    then show ?thesis using True hn by (simp add: JoinPath_def Clean_def unclean_def)
  next
    case False
    then have ne: "Join es [slash] \<noteq> []" using Join_plain_head [OF assms(2)] by (metis list.distinct(1))
    have "clean_elems (h @ slash # Join es [slash]) = h # es"
      using clean_elems_append_plain [OF hn(1) assms(2) False] assms(1) hn(2) foldl_clean_plain [of "[h]" False "[]"]
      by (simp add: clean_elems_def Split_id plain_elem_def)
    then show ?thesis using ne hn False by (simp add: JoinPath_two Clean_def unclean_def rooted_append Join_Cons)
  qed
qed

lemma IndexByte_append: "c \<notin> set a \<Longrightarrow> IndexByte (a @ c # b) c = Some (length a)"
  by (induction a) auto

text \<open>Where the files of a module go: without a directory given, a source \<open>host::path\<close> is mirrored
  under \<open>host/path\<close>: with a trailing slash into that directory, and without one into its parent, where
  the transfer itself creates the last component.\<close>

theorem rsync_subdir_lands:
  assumes "plain_elem h" and "CHR '':'' \<notin> set h" and "CHR ''@'' \<notin> set h"
    and "list_all plain_elem es" and "es \<noteq> []" and "hd (hd es) \<noteq> CHR ''~''"
  shows "rsync_subdir (h @ ''::'' @ Join es [slash] @ ''/'') = Join (h # es) [slash]
    \<and> rsync_subdir (h @ ''::'' @ Join es [slash]) = Join (h # butlast es) [slash]"
proof -
  have parse: "rsync_parseSource (h @ ''::'' @ x) =
      Inr \<lparr>rsDaemon = True, rsUser = [], rsHost = h, rsPort = defaultDaemonPort, rsPath = x\<rparr>" for x
  proof -
    have "\<not> HasPrefix (h @ ''::'' @ x) ''rsync://''"
    proof
      assume "HasPrefix (h @ ''::'' @ x) ''rsync://''"
      then obtain t where t: "h @ CHR '':'' # CHR '':'' # x = ''rsync'' @ CHR '':'' # CHR ''/'' # t"
        by (auto simp: HasPrefix_iff)
      have "IndexByte (h @ CHR '':'' # CHR '':'' # x) (CHR '':'') = Some (length h)"
        using assms(2) by (rule IndexByte_append)
      moreover have "IndexByte (''rsync'' @ CHR '':'' # CHR ''/'' # t) (CHR '':'') = Some (length ''rsync'')"
        by (rule IndexByte_append) simp
      ultimately have "length h = length ''rsync''" using t by simp
      then have "CHR '':'' # CHR '':'' # x = CHR '':'' # CHR ''/'' # t"
        using t append_eq_append_conv [of h "''rsync''"] by blast
      then show False by simp
    qed
    moreover have "IndexByte (h @ CHR '':'' # CHR '':'' # x) (CHR '':'') = Some (length h)"
      using assms(2) by (rule IndexByte_append)
    moreover have "splitUser h = ([], h)"
      using assms(3) by (simp add: splitUser_def LastIndexByte_None [THEN iffD2])
    ultimately show ?thesis by (simp add: rsync_parseSource_def HasPrefix_Cons)
  qed
  obtain c cs where hd: "Join es [slash] = c # cs" "c \<noteq> slash" "c = hd (hd es)"
    by (rule Join_plain_head [OF assms(4,5)])
  have 1: "rsync_subdir (h @ ''::'' @ Join es [slash] @ ''/'') = Join (h # es) [slash]"
  proof -
    have "TrimPrefix (Join es [slash] @ ''/'') ''~'' = Join es [slash] @ [slash]"
      using hd assms(6) by (simp add: TrimPrefix_def HasPrefix_Cons slash_def)
    moreover have "HasSuffix (Join es [slash] @ ''/'') ''/''" by (auto simp: HasSuffix_iff)
    moreover have "TrimLeft (Clean (''/'' @ Join es [slash] @ [slash])) ''/'' = Join es [slash]"
      by (rule Clean_slash_plain [OF assms(4)]) simp
    ultimately show ?thesis unfolding rsync_subdir_def parse
      by (simp add: Let_def JoinPath_plain [OF assms(1,4)])
  qed
  obtain xs x where es: "es = xs @ [x]" using assms(5) by (metis rev_exhaust)
  have px: "plain_elem x" "list_all plain_elem xs" using assms(4) es by simp_all
  have 2: "rsync_subdir (h @ ''::'' @ Join es [slash]) = Join (h # butlast es) [slash]"
  proof -
    have "\<not> HasSuffix (Join es [slash]) ''/''"
    proof
      assume "HasSuffix (Join es [slash]) ''/''"
      then have "last (Join es [slash]) = slash" by (auto simp: HasSuffix_iff slash_def)
      moreover have "last (Join es [slash]) = last x" "x \<noteq> []"
        using px(1) by (simp_all add: es Join_snoc plain_elem_def)
      ultimately show False using px(1) by (metis last_in_set plain_elem_def)
    qed
    moreover have D: "DirPath (Join es [slash]) = (if xs = [] then ''.'' else Join xs [slash])"
      unfolding es by (rule DirPath_plain [OF px(2,1)])
    moreover have "TrimPrefix (if xs = [] then ''.'' else Join xs [slash]) ''~'' = (if xs = [] then ''.'' else Join xs [slash])"
    proof (cases "xs = []")
      case False
      then obtain d ds where "Join xs [slash] = d # ds" "d = hd (hd xs)" using Join_plain_head [OF px(2)] by metis
      moreover have "hd xs = hd es" using False es by simp
      ultimately show ?thesis using assms(6) False by (simp add: TrimPrefix_def HasPrefix_Cons)
    qed (simp add: TrimPrefix_def HasPrefix_Cons)
    moreover have "TrimLeft (Clean (''/'' @ (if xs = [] then ''.'' else Join xs [slash]))) ''/'' = Join xs [slash]"
      by (rule Clean_slash_plain [OF px(2)]) simp
    ultimately show ?thesis unfolding rsync_subdir_def parse
      by (simp add: Let_def JoinPath_plain [OF assms(1) px(2)] es)
  qed
  show ?thesis using 1 2 by blast
qed

theorem rsync_subdir_lands_witness:
  "rsync_subdir ''h::a/b/'' = ''h/a/b'' \<and> rsync_subdir ''h::a/b'' = ''h/a''"
  using rsync_subdir_lands [of "''h''" "[''a'', ''b'']"] by (simp add: plain_elem_def slash_def)

text \<open>Options smuggled into the remote shell: a host of a remote-shell source is not checked and
  comes before any \<open>--\<close>, so a source with the host \<open>-oProxyCommand=cmd\<close> makes \<open>ssh\<close> take it as an
  option and run \<open>cmd\<close>.\<close>

theorem rsync_shell_option:
  assumes "CHR '':'' \<notin> set cmd" and "CHR ''@'' \<notin> set cmd" and "HasPrefix pth '':'' = False"
  shows "\<exists>src. rsync_parseSource (''x@-oProxyCommand='' @ cmd @ '':'' @ pth) = Inr src
    \<and> dialShell (\<lambda>_. []) src sargs = Inr (''ssh'', [''-l'', ''x'', ''-oProxyCommand='' @ cmd, ''rsync''] @ sargs)"
proof -
  let ?h = "''x@-oProxyCommand='' @ cmd"
  have "IndexByte (?h @ CHR '':'' # pth) (CHR '':'') = Some (length ?h)"
    using assms(1) by (intro IndexByte_append) simp
  moreover have "splitUser ?h = (''x'', ''-oProxyCommand='' @ cmd)"
    using LastIndexByte_append [of "CHR ''@''" "''-oProxyCommand='' @ cmd" "''x''"] assms(2) by (simp add: splitUser_def)
  moreover have "\<not> HasPrefix (?h @ CHR '':'' # pth) ''rsync://''" by (simp add: HasPrefix_Cons)
  moreover have "Fields ''ssh'' = [''ssh'']" by code_simp
  ultimately show ?thesis using assms(3) by (simp add: rsync_parseSource_def dialShell_def rshCommand_def)
qed

theorem rsync_shell_option_witness:
  "\<exists>src. rsync_parseSource ''x@-oProxyCommand=id:/'' = Inr src
    \<and> dialShell (\<lambda>_. []) src [] = Inr (''ssh'', [''-l'', ''x'', ''-oProxyCommand=id'', ''rsync''])"
  using rsync_shell_option [of "''id''" "''/''" "[]"] by (simp add: HasPrefix_def)

end
