(* ===== verification/GoJson.thy ===== *)
theory GoJson
  imports GoUrl
begin

text \<open>
  The part of Go's package \<open>encoding/json\<close> the job store uses: \<open>json.Marshal\<close> and \<open>json.Unmarshal\<close> of
  a \<open>map[string]string\<close>. The parser reads any JSON text; the conversion of the parsed value follows
  the rules for a map of strings. A Go map is an association list with strictly increasing keys, the
  order in which \<open>json.Marshal\<close> writes them. Strings are exact for ASCII text.
\<close>

datatype json =
    JNull | JBool bool | JNum string | JStr string | JArr "json list" | JObj "(string \<times> json) list"

subsection \<open>Maps with sorted keys\<close>

type_synonym smap = "(string \<times> string) list"

fun smap_put :: "string \<Rightarrow> string \<Rightarrow> smap \<Rightarrow> smap" where
  "smap_put k v [] = [(k, v)]"
| "smap_put k v ((k', v') # m) =
     (if k = k' then (k, v) # m
      else if str_le k k' then (k, v) # (k', v') # m
      else (k', v') # smap_put k v m)"

definition smap_wf :: "smap \<Rightarrow> bool" where
  "smap_wf m \<longleftrightarrow> sorted_wrt str_lt (map fst m)"

lemma str_lt_irrefl [simp]: "\<not> str_lt a a"
  by (simp add: str_lt_def)

lemma str_lt_trans: "str_lt a b \<Longrightarrow> str_lt b c \<Longrightarrow> str_lt a c"
  unfolding str_lt_def by (metis str_le_antisym str_le_trans)

lemma map_of_smap_put [simp]: "map_of (smap_put k v m) = (map_of m)(k \<mapsto> v)"
  by (induction m) (auto simp: fun_eq_iff)

lemma fst_smap_put: "fst ` set (smap_put k v m) = insert k (fst ` set m)"
proof -
  have "dom (map_of (smap_put k v m)) = insert k (dom (map_of m))" by simp
  then show ?thesis by (simp only: dom_map_of_conv_image_fst)
qed

lemma smap_wf_put: "smap_wf m \<Longrightarrow> smap_wf (smap_put k v m)"
proof (induction m)
  case Nil
  then show ?case by (simp add: smap_wf_def)
next
  case (Cons p m)
  obtain k' v' where p: "p = (k', v')" by (cases p)
  have above: "\<forall>x \<in> fst ` set m. str_lt k' x" and wf: "smap_wf m"
    using Cons.prems p by (auto simp: smap_wf_def)
  consider "k = k'" | "k \<noteq> k'" "str_le k k'" | "k \<noteq> k'" "\<not> str_le k k'" by blast
  then show ?case
  proof cases
    case 1
    then show ?thesis using Cons.prems p by (simp add: smap_wf_def)
  next
    case 2
    then have "str_lt k k'" by (simp add: str_lt_def)
    then show ?thesis using Cons.prems p 2 above
      by (auto simp: smap_wf_def intro: str_lt_trans)
  next
    case 3
    then have "str_lt k' k" using str_le_total by (auto simp: str_lt_def)
    then have "\<forall>x \<in> fst ` set (smap_put k v m). str_lt k' x" using above by (simp add: fst_smap_put)
    then show ?thesis using Cons.IH [OF wf] p 3 by (auto simp: smap_wf_def)
  qed
qed

lemma smap_put_above:
  "(\<forall>x \<in> fst ` set m. str_lt x k) \<Longrightarrow> smap_put k v m = m @ [(k, v)]"
proof (induction m)
  case (Cons p m)
  obtain k' v' where p: "p = (k', v')" by (cases p)
  then have "str_lt k' k" using Cons.prems by auto
  then have "k \<noteq> k'" and "\<not> str_le k k'" by (auto simp: str_lt_def dest: str_le_antisym)
  then show ?case using Cons p by simp
qed simp

subsection \<open>Marshal\<close>

definition json_char :: "char \<Rightarrow> string" where
  "json_char c = (let n = (of_char c :: nat) in
     if n = 34 \<or> n = 92 then [CHR 0x5C, c]
     else if n = 8 then CHR 0x5C # ''b'' else if n = 12 then CHR 0x5C # ''f''
     else if n = 10 then CHR 0x5C # ''n'' else if n = 13 then CHR 0x5C # ''r''
     else if n = 9 then CHR 0x5C # ''t''
     else if n < 32 \<or> n = 60 \<or> n = 62 \<or> n = 38
     then CHR 0x5C # ''u00'' @ [hex_digit (n div 16), hex_digit (n mod 16)]
     else [c])"

definition json_string :: "string \<Rightarrow> string" where
  "json_string s = CHR 0x22 # concat (map json_char s) @ [CHR 0x22]"

fun json_members :: "smap \<Rightarrow> string" where
  "json_members [] = []"
| "json_members [(k, v)] = json_string k @ '':'' @ json_string v"
| "json_members ((k, v) # m) = json_string k @ '':'' @ json_string v @ '','' @ json_members m"

definition Marshal_smap :: "smap \<Rightarrow> string" where
  "Marshal_smap m = ''{'' @ json_members m @ ''}''"

subsection \<open>Parsing\<close>

definition json_space :: "char \<Rightarrow> bool" where
  "json_space c \<longleftrightarrow> (of_char c :: nat) \<in> {9, 10, 13, 32}"

definition skip_ws :: "string \<Rightarrow> string" where
  "skip_ws s = dropWhile json_space s"

definition hex4 :: "string \<Rightarrow> nat option" where
  "hex4 s = (case map hex_val (take 4 s) of
       [Some a, Some b, Some c, Some d] \<Rightarrow> Some (((a * 16 + b) * 16 + c) * 16 + d)
     | _ \<Rightarrow> None)"

definition utf8 :: "nat \<Rightarrow> string" where
  "utf8 n = map char_of
     (if n < 128 then [n]
      else if n < 2048 then [192 + n div 64, 128 + n mod 64]
      else if n < 65536 then [224 + n div 4096, 128 + (n div 64) mod 64, 128 + n mod 64]
      else [240 + n div 262144, 128 + (n div 4096) mod 64, 128 + (n div 64) mod 64, 128 + n mod 64])"

definition simple_escape :: "char \<Rightarrow> char option" where
  "simple_escape c = (let n = (of_char c :: nat) in
     if n = 34 \<or> n = 92 \<or> n = 47 then Some c
     else if n = 98 then Some CHR 0x08 else if n = 102 then Some CHR 0x0C
     else if n = 110 then Some CHR 0x0A else if n = 114 then Some CHR 0x0D
     else if n = 116 then Some CHR 0x09
     else None)"

text \<open>The rest of a string after its opening quote: the text, and the input after the closing one.\<close>

function parse_chars :: "string \<Rightarrow> (string \<times> string) option" where
  "parse_chars [] = None"
| "parse_chars (c # cs) =
    (if (of_char c :: nat) = 34 then Some ([], cs)
     else if (of_char c :: nat) < 32 then None
     else if (of_char c :: nat) \<noteq> 92 then map_option (map_prod ((#) c) id) (parse_chars cs)
     else (case cs of
         [] \<Rightarrow> None
       | e # es \<Rightarrow>
          (if (of_char e :: nat) = 117 then
             (case hex4 es of
                None \<Rightarrow> None
              | Some n \<Rightarrow>
                  if 0xD800 \<le> n \<and> n < 0xDC00 \<and> take 2 (drop 4 es) = [CHR 0x5C, CHR ''u''] \<and>
                     (case hex4 (drop 6 es) of Some m \<Rightarrow> 0xDC00 \<le> m \<and> m < 0xE000 | None \<Rightarrow> False)
                  then map_option (map_prod ((@) (utf8 (0x10000 + (n - 0xD800) * 1024
                         + (the (hex4 (drop 6 es)) - 0xDC00)))) id) (parse_chars (drop 10 es))
                  else map_option (map_prod ((@) (utf8 (if 0xD800 \<le> n \<and> n < 0xE000 then 0xFFFD else n))) id)
                         (parse_chars (drop 4 es)))
           else (case simple_escape e of
                   None \<Rightarrow> None
                 | Some x \<Rightarrow> map_option (map_prod ((#) x) id) (parse_chars es)))))"
  by pat_completeness auto
termination
  by (relation "measure length") auto

text \<open>The longest number at the start of the input.\<close>

definition parse_number :: "string \<Rightarrow> (string \<times> string) option" where
  "parse_number s =
    (let (sg, r0) = (case s of c # cs \<Rightarrow> if c = CHR ''-'' then ([c], cs) else ([], s) | [] \<Rightarrow> ([], s));
         ip = (if HasPrefix r0 ''0'' then ''0'' else takeWhile is_digit r0);
         r1 = drop (length ip) r0;
         fr = (case r1 of c # cs \<Rightarrow> if c = CHR ''.'' then c # takeWhile is_digit cs else [] | [] \<Rightarrow> []);
         r2 = drop (length fr) r1;
         ex = (case r2 of
             c # cs \<Rightarrow> if c = CHR ''e'' \<or> c = CHR ''E'' then
                 c # (case cs of d # ds \<Rightarrow> if d = CHR ''+'' \<or> d = CHR ''-''
                                       then d # takeWhile is_digit ds else takeWhile is_digit cs
                      | [] \<Rightarrow> [])
               else []
           | [] \<Rightarrow> []);
         r3 = drop (length ex) r2
     in if ip = [] \<or> length fr = 1 \<or> (ex \<noteq> [] \<and> \<not> is_digit (last ex)) then None
        else Some (sg @ ip @ fr @ ex, r3))"

text \<open>A value, with a bound on the nesting that the length of the input always satisfies.\<close>

fun parse_value :: "nat \<Rightarrow> string \<Rightarrow> (json \<times> string) option"
  and parse_elems :: "nat \<Rightarrow> string \<Rightarrow> (json list \<times> string) option"
  and parse_mems :: "nat \<Rightarrow> string \<Rightarrow> ((string \<times> json) list \<times> string) option" where
  "parse_value 0 s = None"
| "parse_value (Suc n) s =
    (case skip_ws s of
       [] \<Rightarrow> None
     | c # cs \<Rightarrow>
        (if c = CHR 0x22 then map_option (map_prod JStr id) (parse_chars cs)
         else if c = CHR ''{'' then
           (case skip_ws cs of
              d # ds \<Rightarrow> if d = CHR ''}'' then Some (JObj [], ds)
                        else map_option (map_prod JObj id) (parse_mems n (d # ds))
            | [] \<Rightarrow> None)
         else if c = CHR ''['' then
           (case skip_ws cs of
              d # ds \<Rightarrow> if d = CHR '']'' then Some (JArr [], ds)
                        else map_option (map_prod JArr id) (parse_elems n (d # ds))
            | [] \<Rightarrow> None)
         else if HasPrefix (c # cs) ''true'' then Some (JBool True, drop 3 cs)
         else if HasPrefix (c # cs) ''false'' then Some (JBool False, drop 4 cs)
         else if HasPrefix (c # cs) ''null'' then Some (JNull, drop 3 cs)
         else map_option (map_prod JNum id) (parse_number (c # cs))))"
| "parse_elems 0 s = None"
| "parse_elems (Suc n) s =
    (case parse_value n s of
       None \<Rightarrow> None
     | Some (v, r) \<Rightarrow>
        (case skip_ws r of
           c # cs \<Rightarrow> if c = CHR '','' then map_option (map_prod ((#) v) id) (parse_elems n cs)
                     else if c = CHR '']'' then Some ([v], cs) else None
         | [] \<Rightarrow> None))"
| "parse_mems 0 s = None"
| "parse_mems (Suc n) s =
    (case skip_ws s of
       q # ks \<Rightarrow>
        (if q \<noteq> CHR 0x22 then None
         else (case parse_chars ks of
            None \<Rightarrow> None
          | Some (k, r) \<Rightarrow>
             (case skip_ws r of
                col # vs \<Rightarrow>
                 (if col \<noteq> CHR '':'' then None
                  else (case parse_value n vs of
                     None \<Rightarrow> None
                   | Some (v, r') \<Rightarrow>
                      (case skip_ws r' of
                         c # cs \<Rightarrow> if c = CHR '','' then map_option (map_prod ((#) (k, v)) id) (parse_mems n cs)
                                   else if c = CHR ''}'' then Some ([(k, v)], cs) else None
                       | [] \<Rightarrow> None)))
              | [] \<Rightarrow> None)))
     | [] \<Rightarrow> None)"

definition json_parse :: "string \<Rightarrow> json option" where
  "json_parse s = (case parse_value (2 * length s + 2) s of
       Some (v, r) \<Rightarrow> if skip_ws r = [] then Some v else None
     | None \<Rightarrow> None)"

subsection \<open>Unmarshal\<close>

text \<open>Decoding into a \<open>map[string]string\<close> that holds \<open>m\<close>: the new map, and whether there was an
  error. A member that is not a string leaves the empty string under its key.\<close>

definition member_text :: "json \<Rightarrow> string" where
  "member_text v = (case v of JStr s \<Rightarrow> s | _ \<Rightarrow> [])"

definition member_ok :: "json \<Rightarrow> bool" where
  "member_ok v \<longleftrightarrow> (case v of JStr _ \<Rightarrow> True | JNull \<Rightarrow> True | _ \<Rightarrow> False)"

definition Unmarshal_smap :: "string \<Rightarrow> smap \<Rightarrow> smap \<times> bool" where
  "Unmarshal_smap raw m =
    (case json_parse raw of
       Some (JObj ms) \<Rightarrow> (foldl (\<lambda>a (k, v). smap_put k (member_text v) a) m ms,
                          list_all (\<lambda>(k, v). member_ok v) ms)
     | Some JNull \<Rightarrow> ([], True)
     | _ \<Rightarrow> (m, False))"

subsection \<open>Round trip\<close>

definition ascii :: "string \<Rightarrow> bool" where
  "ascii s = list_all (\<lambda>c. (of_char c :: nat) < 128) s"

lemma hex_val_hex_digit: "d < 16 \<Longrightarrow> hex_val (hex_digit d) = Some d"
  by (auto simp: hex_val_def hex_digit_def Let_def)

lemma char_of_of_char_eq: "(of_char c :: nat) = n \<Longrightarrow> c = char_of n"
  by auto

lemma parse_chars_plain:
  "(of_char c :: nat) \<noteq> 34 \<Longrightarrow> 32 \<le> (of_char c :: nat) \<Longrightarrow> (of_char c :: nat) \<noteq> 92 \<Longrightarrow>
   parse_chars (c # cs) = map_option (map_prod ((#) c) id) (parse_chars cs)"
  by simp

lemma parse_chars_simple:
  "simple_escape e = Some x \<Longrightarrow> (of_char e :: nat) \<noteq> 117 \<Longrightarrow>
   parse_chars (CHR 0x5C # e # es) = map_option (map_prod ((#) x) id) (parse_chars es)"
  by simp

lemma parse_chars_u:
  assumes "hex4 es = Some n" and "n < 128"
  shows "parse_chars (CHR 0x5C # CHR ''u'' # es)
       = map_option (map_prod ((#) (char_of n)) id) (parse_chars (drop 4 es))"
proof -
  have "(@) [char_of n :: char] = (#) (char_of n)" by (simp add: fun_eq_iff)
  then show ?thesis using assms by (simp add: utf8_def)
qed

declare parse_chars.simps [simp del]

lemma parse_json_char:
  "parse_chars (json_char c @ r) = map_option (map_prod ((#) c) id) (parse_chars r)"
proof -
  let ?n = "of_char c :: nat"
  have c: "c = char_of ?n" by simp
  have lt: "?n < 256" by (metis of_char_of nat_of_char_less_256)
  consider (q) "?n = 34 \<or> ?n = 92" | (esc) "?n = 8 \<or> ?n = 12 \<or> ?n = 10 \<or> ?n = 13 \<or> ?n = 9"
    | (u) "\<not> (?n = 34 \<or> ?n = 92)" "\<not> (?n = 8 \<or> ?n = 12 \<or> ?n = 10 \<or> ?n = 13 \<or> ?n = 9)"
          "?n < 32 \<or> ?n = 60 \<or> ?n = 62 \<or> ?n = 38"
    | (p) "\<not> (?n = 34 \<or> ?n = 92)" "\<not> (?n < 32 \<or> ?n = 60 \<or> ?n = 62 \<or> ?n = 38)"
    by linarith
  then show ?thesis
  proof cases
    case q
    then have "json_char c = [CHR 0x5C, c]" by (simp add: json_char_def Let_def)
    moreover have "simple_escape c = Some c" "?n \<noteq> 117"
      using q by (auto simp: simple_escape_def Let_def)
    ultimately show ?thesis by (simp add: parse_chars_simple)
  next
    case esc
    then have "c \<in> {CHR 0x08, CHR 0x0C, CHR 0x0A, CHR 0x0D, CHR 0x09}"
      by (auto simp flip: of_char_eq_iff [where 'a = nat])
    then show ?thesis
      by (auto simp: json_char_def simple_escape_def Let_def parse_chars_simple)
  next
    case u
    then have j: "json_char c = CHR 0x5C # CHR ''u''
        # [CHR ''0'', CHR ''0'', hex_digit (?n div 16), hex_digit (?n mod 16)]"
      by (auto simp: json_char_def Let_def)
    have d: "?n div 16 < 16" "?n mod 16 < 16" using lt less_mult_imp_div_less [of ?n 16 16] by auto
    have h: "hex4 ([CHR ''0'', CHR ''0'', hex_digit (?n div 16), hex_digit (?n mod 16)] @ r) = Some ?n"
      by (simp add: hex4_def hex_val_hex_digit [OF d(1)] hex_val_hex_digit [OF d(2)])
         (simp add: hex_val_def)
    have "?n < 128" using u(3) by auto
    from parse_chars_u [OF h this] show ?thesis using j by simp
  next
    case p
    then have "json_char c = [c]" by (auto simp: json_char_def Let_def)
    then show ?thesis using p by (simp add: parse_chars_plain)
  qed
qed

lemma parse_json_string:
  "parse_chars (concat (map json_char s) @ CHR 0x22 # r) = Some (s, r)"
proof (induction s)
  case Nil
  then show ?case by (simp add: parse_chars.simps)
next
  case (Cons c s)
  then show ?case by (simp add: parse_json_char)
qed

lemma skip_ws_plain: "\<not> json_space c \<Longrightarrow> skip_ws (c # cs) = c # cs"
  by (simp add: skip_ws_def)

lemma parse_value_string:
  "parse_value (Suc n) (json_string s @ r) = Some (JStr s, r)"
  by (simp add: json_string_def skip_ws_plain json_space_def parse_json_string)

lemma json_space_concrete [simp]:
  "\<not> json_space CHR 0x22" "\<not> json_space CHR '':''" "\<not> json_space CHR '',''" "\<not> json_space CHR ''}''"
  "\<not> json_space CHR ''{''"
  by (simp_all add: json_space_def)

declare parse_value.simps [simp del] parse_mems.simps [simp del] parse_elems.simps [simp del]

lemma parse_mems_step:
  assumes "\<not> json_space c"
  shows "parse_mems (Suc (Suc n)) (json_string k @ CHR '':'' # json_string v @ c # cs) =
     (if c = CHR '','' then map_option (map_prod ((#) (k, JStr v)) id) (parse_mems (Suc n) cs)
      else if c = CHR ''}'' then Some ([(k, JStr v)], cs) else None)"
proof -
  have q: "json_string k @ x = CHR 0x22 # concat (map json_char k) @ CHR 0x22 # x" for x
    by (simp add: json_string_def)
  show ?thesis using assms
    by (subst parse_mems.simps) (simp add: q skip_ws_plain parse_json_string parse_value_string
        del: append.simps(2))
qed

lemma two_below: "Suc 0 < n \<Longrightarrow> \<exists>n'. n = Suc (Suc n')"
  by (cases n; cases "n - 1") auto

lemma parse_members:
  assumes "m \<noteq> []" and "length m < n"
  shows "parse_mems n (json_members m @ CHR ''}'' # r) = Some (map (\<lambda>(k, v). (k, JStr v)) m, r)"
  using assms
proof (induction m arbitrary: n rule: json_members.induct)
  case (2 k v)
  then obtain n' where n: "n = Suc (Suc n')" using two_below [of n] by auto
  have e: "json_members [(k, v)] @ CHR ''}'' # r = json_string k @ CHR '':'' # json_string v @ CHR ''}'' # r"
    by simp
  show ?case unfolding e n by (subst parse_mems_step) simp_all
next
  case (3 k v p m)
  then obtain n' where n: "n = Suc (Suc n')" using two_below [of n] by auto
  have IH: "parse_mems (Suc n') (json_members (p # m) @ CHR ''}'' # r)
      = Some (map (\<lambda>(k, v). (k, JStr v)) (p # m), r)"
    using "3.IH" [of "Suc n'"] "3.prems" n by simp
  have e: "json_members ((k, v) # p # m) @ CHR ''}'' # r
      = json_string k @ CHR '':'' # json_string v @ CHR '','' # json_members (p # m) @ CHR ''}'' # r"
    by simp
  show ?case unfolding e n by (subst parse_mems_step) (simp_all add: IH)
qed simp

lemma length_json_members: "length m \<le> length (json_members m)"
  by (induction m rule: json_members.induct) (auto simp: json_string_def)

lemma parse_Marshal: "json_parse (Marshal_smap m) = Some (JObj (map (\<lambda>(k, v). (k, JStr v)) m))"
proof (cases "m = []")
  case True
  then show ?thesis
    by (simp add: json_parse_def Marshal_smap_def parse_value.simps skip_ws_plain eval_nat_numeral)
       (simp add: skip_ws_def)
next
  case False
  let ?b = "json_members m @ [CHR ''}'']"
  define N where "N = 2 * length ?b + 2"
  have "length m < Suc N" using length_json_members [of m] by (simp add: N_def)
  then have P: "parse_mems (Suc N) ?b = Some (map (\<lambda>(k, v). (k, JStr v)) m, [])"
    by (rule parse_members [OF False])
  obtain k v m' where m: "m = (k, v) # m'" using False by (cases m) auto
  obtain b' where b: "?b = CHR 0x22 # b'" using m by (cases m') (auto simp: json_string_def)
  have f: "2 * length (Marshal_smap m) + 2 = Suc (Suc N)" by (simp add: Marshal_smap_def N_def)
  have i: "Marshal_smap m = CHR ''{'' # ?b" by (simp add: Marshal_smap_def)
  have "parse_value (Suc (Suc N)) (CHR ''{'' # ?b) = Some (JObj (map (\<lambda>(k, v). (k, JStr v)) m), [])"
    by (subst parse_value.simps(2)) (simp add: skip_ws_plain b P [unfolded b])
  then show ?thesis unfolding json_parse_def f unfolding i by (simp add: skip_ws_def)
qed

lemma foldl_smap_put:
  "smap_wf (m0 @ m) \<Longrightarrow>
   foldl (\<lambda>a (k, v). smap_put k (member_text v) a) m0 (map (\<lambda>(k, v). (k, JStr v)) m) = m0 @ m"
proof (induction m arbitrary: m0)
  case (Cons p m)
  obtain k v where p: "p = (k, v)" by (cases p)
  have "\<forall>x \<in> fst ` set m0. str_lt x k"
    using Cons.prems p by (auto simp: smap_wf_def sorted_wrt_append)
  then have "smap_put k v m0 = m0 @ [(k, v)]" by (rule smap_put_above)
  then show ?case using Cons.IH [of "m0 @ [(k, v)]"] Cons.prems p by (simp add: member_text_def)
qed simp

text \<open>Decoding what was encoded gives the map back.\<close>

lemma Unmarshal_Marshal: "smap_wf m \<Longrightarrow> Unmarshal_smap (Marshal_smap m) [] = (m, True)"
  using foldl_smap_put [of "[]" m]
  by (simp add: Unmarshal_smap_def parse_Marshal list_all_iff member_ok_def split_beta comp_def)

end
