(* ===== verification/Config.thy ===== *)
theory Config
  imports Registry GoJson "HOL-Library.AList"
begin

text \<open>
  \<open>internal/config/config.go\<close>: the configuration file. The TOML parser is a library: what it makes of
  a file is the input \<open>toml_result\<close>, a table of values as \<open>toml.DecodeFile\<close> delivers them. A Go
  map is an association list with increasing keys, so the loops over \<open>sortedKeys\<close> are recursions over
  the list. The process environment is a function (the empty string for an unset variable), and a
  file is what \<open>os.ReadFile\<close> returns for its name: the text, or an error.
\<close>

subsection \<open>TOML values\<close>

datatype tval =
    TString string
  | TBool bool
  | TInt int
  | TFloat string                  \<comment> \<open>as \<open>fmt.Sprint\<close> prints it\<close>
  | TTable "(string \<times> tval) list"
  | TArray "tval list"
  | TOther string string           \<comment> \<open>its Go type and its printed form\<close>

datatype toml_result =
    TomlMissing
  | TomlError string
  | TomlOk "(string \<times> tval) list"

type_synonym reader = "string \<Rightarrow> string + string"

definition bool_text :: "bool \<Rightarrow> string" where
  "bool_text b = (if b then ''true'' else ''false'')"

fun Sprint :: "tval \<Rightarrow> string" where
  "Sprint (TString s) = s"
| "Sprint (TBool b) = bool_text b"
| "Sprint (TInt i) = itoa i"
| "Sprint (TFloat s) = s"
| "Sprint (TTable ms) = ''map['' @ Join (map (\<lambda>(k, v). k @ '':'' @ Sprint v) ms) '' '' @ '']''"
| "Sprint (TArray vs) = ''['' @ Join (map Sprint vs) '' '' @ '']''"
| "Sprint (TOther t s) = s"

definition go_type :: "tval \<Rightarrow> string" where
  "go_type v = (case v of
       TString _ \<Rightarrow> ''string'' | TBool _ \<Rightarrow> ''bool'' | TInt _ \<Rightarrow> ''int64'' | TFloat _ \<Rightarrow> ''float64''
     | TTable _ \<Rightarrow> ''map[string]interface {}'' | TArray _ \<Rightarrow> ''[]interface {}'' | TOther t _ \<Rightarrow> t)"

definition scalar :: "tval \<Rightarrow> string + string" where
  "scalar v = (case v of
       TString s \<Rightarrow> Inr s
     | TBool b \<Rightarrow> Inr (bool_text b)
     | TInt i \<Rightarrow> Inr (itoa i)
     | TFloat s \<Rightarrow> Inr s
     | _ \<Rightarrow> Inl (''want a string, boolean or number, not '' @ go_type v))"

definition stringList :: "tval \<Rightarrow> string list" where
  "stringList v = (case v of
       TArray vs \<Rightarrow> map Sprint vs
     | TString s \<Rightarrow> filter (\<lambda>e. e \<noteq> []) (map TrimSpace (Split s (CHR '','')))
     | _ \<Rightarrow> [])"

subsection \<open>The configuration\<close>

record oauth_config =
  oaProvider :: string
  oaIssuer :: string
  oaClientID :: string
  oaClientSecret :: string
  oaClientSecretFile :: string
  oaAuthURL :: string
  oaTokenURL :: string
  oaUserInfoURL :: string
  oaRedirectURL :: string
  oaScopes :: "string list"
  oaAllowedUsers :: "string list"

record auth_config =
  acPassword :: string
  acPasswordFile :: string
  acOAuth :: oauth_config

record daemon_config =
  dcSocket :: string
  dcHTTP :: string
  dcConcurrency :: int
  dcDB :: string
  dcMaxRetries :: int
  dcAuth :: auth_config

record method_config =
  mcDestDir :: string
  mcFlags :: smap

record config =
  cfgDestDir :: string
  cfgDaemon :: daemon_config
  cfgMethods :: "(string \<times> method_config) list"

definition no_oauth :: oauth_config where
  "no_oauth = \<lparr>oaProvider = [], oaIssuer = [], oaClientID = [], oaClientSecret = [], oaClientSecretFile = [],
     oaAuthURL = [], oaTokenURL = [], oaUserInfoURL = [], oaRedirectURL = [], oaScopes = [], oaAllowedUsers = []\<rparr>"

definition no_auth :: auth_config where
  "no_auth = \<lparr>acPassword = [], acPasswordFile = [], acOAuth = no_oauth\<rparr>"

definition OAuth_Enabled :: "oauth_config \<Rightarrow> bool" where
  "OAuth_Enabled oc \<longleftrightarrow> oaClientID oc \<noteq> [] \<and> (oaClientSecret oc \<noteq> [] \<or> oaClientSecretFile oc \<noteq> [])"

definition Auth_Enabled :: "auth_config \<Rightarrow> bool" where
  "Auth_Enabled a \<longleftrightarrow> acPassword a \<noteq> [] \<or> acPasswordFile a \<noteq> [] \<or> OAuth_Enabled (acOAuth a)"

definition PasswordValue :: "reader \<Rightarrow> auth_config \<Rightarrow> string + string" where
  "PasswordValue rd a =
    (if acPassword a \<noteq> [] then Inr (acPassword a)
     else if acPasswordFile a \<noteq> [] then
       (case rd (acPasswordFile a) of
          Inl e \<Rightarrow> Inl (''reading password file '' @ acPasswordFile a @ '': '' @ e)
        | Inr b \<Rightarrow> Inr (TrimSpace b))
     else Inr [])"

definition ClientSecretValue :: "reader \<Rightarrow> oauth_config \<Rightarrow> string + string" where
  "ClientSecretValue rd oc =
    (if oaClientSecret oc \<noteq> [] then Inr (oaClientSecret oc)
     else if oaClientSecretFile oc \<noteq> [] then
       (case rd (oaClientSecretFile oc) of
          Inl e \<Rightarrow> Inl (''reading client secret file '' @ oaClientSecretFile oc @ '': '' @ e)
        | Inr b \<Rightarrow> Inr (TrimSpace b))
     else Inr [])"

subsection \<open>Default paths\<close>

type_synonym env = "string \<Rightarrow> string"

definition UserHomeDir :: "env \<Rightarrow> string option" where
  "UserHomeDir e = (if e ''HOME'' = [] then None else Some (e ''HOME''))"

definition TempDir :: "env \<Rightarrow> string" where
  "TempDir e = (if e ''TMPDIR'' = [] then ''/tmp'' else e ''TMPDIR'')"

definition state_dir :: "env \<Rightarrow> string" where
  "state_dir e = (if e ''XDG_STATE_HOME'' \<noteq> [] then e ''XDG_STATE_HOME''
     else (case UserHomeDir e of None \<Rightarrow> [] | Some home \<Rightarrow> JoinPath [home, ''.local'', ''state'']))"

definition DefaultSocketPath :: "env \<Rightarrow> string" where
  "DefaultSocketPath e =
    (if e ''XDG_RUNTIME_DIR'' \<noteq> [] then JoinPath [e ''XDG_RUNTIME_DIR'', ''mirrortools'', ''mirrord.sock'']
     else if state_dir e \<noteq> [] then JoinPath [state_dir e, ''mirrortools'', ''mirrord.sock'']
     else JoinPath [TempDir e, ''mirrord.sock''])"

definition DefaultDBPath :: "env \<Rightarrow> string" where
  "DefaultDBPath e =
    (if state_dir e \<noteq> [] then JoinPath [state_dir e, ''mirrortools'', ''mirrord.db'']
     else JoinPath [TempDir e, ''mirrord.db''])"

definition ConfigPath :: "env \<Rightarrow> string" where
  "ConfigPath e =
    (if e ''MIRROR_CONFIG'' \<noteq> [] then e ''MIRROR_CONFIG''
     else if e ''XDG_CONFIG_HOME'' \<noteq> [] then JoinPath [e ''XDG_CONFIG_HOME'', ''mirrortools'', ''config.toml'']
     else (case UserHomeDir e of
        None \<Rightarrow> []
      | Some home \<Rightarrow> JoinPath [JoinPath [home, ''.config''], ''mirrortools'', ''config.toml'']))"

definition ExpandHome :: "env \<Rightarrow> string \<Rightarrow> string" where
  "ExpandHome e s =
    (if s \<noteq> ''~'' \<and> \<not> HasPrefix s ''~/'' then s
     else (case UserHomeDir e of None \<Rightarrow> s | Some home \<Rightarrow> JoinPath [home, drop 1 s]))"

subsection \<open>Reading the file\<close>

definition oauth_key :: "env \<Rightarrow> string \<Rightarrow> string \<Rightarrow> oauth_config \<Rightarrow> oauth_config option" where
  "oauth_key e k v oc =
    (if k = ''provider'' then Some (oc\<lparr>oaProvider := v\<rparr>)
     else if k = ''issuer'' then Some (oc\<lparr>oaIssuer := v\<rparr>)
     else if k = ''client-id'' \<or> k = ''client_id'' then Some (oc\<lparr>oaClientID := v\<rparr>)
     else if k = ''client-secret'' \<or> k = ''client_secret'' then Some (oc\<lparr>oaClientSecret := v\<rparr>)
     else if k = ''client-secret-file'' \<or> k = ''client_secret_file'' then Some (oc\<lparr>oaClientSecretFile := ExpandHome e v\<rparr>)
     else if k = ''auth-url'' \<or> k = ''auth_url'' then Some (oc\<lparr>oaAuthURL := v\<rparr>)
     else if k = ''token-url'' \<or> k = ''token_url'' then Some (oc\<lparr>oaTokenURL := v\<rparr>)
     else if k = ''userinfo-url'' \<or> k = ''userinfo_url'' then Some (oc\<lparr>oaUserInfoURL := v\<rparr>)
     else if k = ''redirect-url'' \<or> k = ''redirect_url'' then Some (oc\<lparr>oaRedirectURL := v\<rparr>)
     else None)"

fun parseOAuthConfig :: "env \<Rightarrow> string \<Rightarrow> (string \<times> tval) list \<Rightarrow> oauth_config \<Rightarrow> string + oauth_config" where
  "parseOAuthConfig e path [] oc = Inr oc"
| "parseOAuthConfig e path ((k, v) # m) oc =
    (if k = ''scopes'' then parseOAuthConfig e path m (oc\<lparr>oaScopes := stringList v\<rparr>)
     else if k = ''allowed-users'' \<or> k = ''allowed_users''
     then parseOAuthConfig e path m (oc\<lparr>oaAllowedUsers := stringList v\<rparr>)
     else (case scalar v of
        Inl err \<Rightarrow> Inl (path @ '': [daemon.auth.oauth] '' @ k @ '': '' @ err)
      | Inr val \<Rightarrow>
         (case oauth_key e k val oc of
            None \<Rightarrow> Inl (path @ '': [daemon.auth.oauth]: unknown setting '' @ Quote k)
          | Some oc' \<Rightarrow> parseOAuthConfig e path m oc')))"

fun parseAuthConfig :: "env \<Rightarrow> string \<Rightarrow> (string \<times> tval) list \<Rightarrow> auth_config \<Rightarrow> string + auth_config" where
  "parseAuthConfig e path [] a = Inr a"
| "parseAuthConfig e path ((k, v) # m) a =
    (if k = ''oauth'' then
       (case v of
          TTable sub \<Rightarrow>
            (case parseOAuthConfig e path sub (acOAuth a) of
               Inl err \<Rightarrow> Inl err
             | Inr oc \<Rightarrow> parseAuthConfig e path m (a\<lparr>acOAuth := oc\<rparr>))
        | _ \<Rightarrow> Inl (path @ '': [daemon.auth.oauth]: expected a table''))
     else (case scalar v of
        Inl err \<Rightarrow> Inl (path @ '': [daemon.auth] '' @ k @ '': '' @ err)
      | Inr val \<Rightarrow>
         (if k = ''password'' then parseAuthConfig e path m (a\<lparr>acPassword := val\<rparr>)
          else if k = ''password-file'' \<or> k = ''password_file''
          then parseAuthConfig e path m (a\<lparr>acPasswordFile := ExpandHome e val\<rparr>)
          else Inl (path @ '': [daemon.auth]: unknown setting '' @ Quote k))))"

fun parseDaemonConfig :: "env \<Rightarrow> string \<Rightarrow> (string \<times> tval) list \<Rightarrow> daemon_config \<Rightarrow> string + daemon_config" where
  "parseDaemonConfig e path [] d = Inr d"
| "parseDaemonConfig e path ((k, v) # m) d =
    (if k = ''auth'' then
       (case v of
          TTable sub \<Rightarrow>
            (case parseAuthConfig e path sub (dcAuth d) of
               Inl err \<Rightarrow> Inl err
             | Inr a \<Rightarrow> parseDaemonConfig e path m (d\<lparr>dcAuth := a\<rparr>))
        | _ \<Rightarrow> Inl (path @ '': [daemon.auth]: expected a table''))
     else (case scalar v of
        Inl err \<Rightarrow> Inl (path @ '': [daemon] '' @ k @ '': '' @ err)
      | Inr val \<Rightarrow>
         (if k = ''socket'' then parseDaemonConfig e path m (d\<lparr>dcSocket := ExpandHome e val\<rparr>)
          else if k = ''http'' then parseDaemonConfig e path m (d\<lparr>dcHTTP := val\<rparr>)
          else if k = ''concurrency'' then
            (case sscanf_d val of
               Some c \<Rightarrow> if c < 1 then Inl (path @ '': [daemon] concurrency: want a positive number'')
                         else parseDaemonConfig e path m (d\<lparr>dcConcurrency := c\<rparr>)
             | None \<Rightarrow> Inl (path @ '': [daemon] concurrency: want a positive number''))
          else if k = ''db'' then parseDaemonConfig e path m (d\<lparr>dcDB := ExpandHome e val\<rparr>)
          else if k = ''max_retries'' then
            (case sscanf_d val of
               Some c \<Rightarrow> if c < 1 then Inl (path @ '': [daemon] max_retries: want a positive number'')
                         else parseDaemonConfig e path m (d\<lparr>dcMaxRetries := c\<rparr>)
             | None \<Rightarrow> Inl (path @ '': [daemon] max_retries: want a positive number''))
          else Inl (path @ '': [daemon]: unknown setting '' @ Quote k))))"

text \<open>A \<open>[method]\<close> section.\<close>

fun method_section :: "env \<Rightarrow> string \<Rightarrow> string \<Rightarrow> (string \<times> tval) list \<Rightarrow> method_config \<Rightarrow> string + method_config" where
  "method_section e path key [] mc = Inr mc"
| "method_section e path key ((k, v) # m) mc =
    (case scalar v of
       Inl err \<Rightarrow> Inl (path @ '': ['' @ key @ ''] '' @ k @ '': '' @ err)
     | Inr val \<Rightarrow>
        method_section e path key m
          (if k = ''destdir'' then mc\<lparr>mcDestDir := ExpandHome e val\<rparr>
           else mc\<lparr>mcFlags := smap_put k (ExpandHome e val) (mcFlags mc)\<rparr>))"

fun load_keys :: "env \<Rightarrow> registry \<Rightarrow> string \<Rightarrow> (string \<times> tval) list \<Rightarrow> config \<Rightarrow> string + config" where
  "load_keys e reg path [] cfg = Inr cfg"
| "load_keys e reg path ((key, v) # raw) cfg =
    (case v of
       TTable sub \<Rightarrow>
         (if key = ''daemon'' then
            (case parseDaemonConfig e path sub (cfgDaemon cfg) of
               Inl err \<Rightarrow> Inl err
             | Inr d \<Rightarrow> load_keys e reg path raw (cfg\<lparr>cfgDaemon := d\<rparr>))
          else if GetMethod reg key = None then Inl (path @ '': ['' @ key @ '']: no such method'')
          else (case method_section e path key sub \<lparr>mcDestDir = [], mcFlags = []\<rparr> of
               Inl err \<Rightarrow> Inl err
             | Inr mc \<Rightarrow> load_keys e reg path raw (cfg\<lparr>cfgMethods := AList.update key mc (cfgMethods cfg)\<rparr>)))
     | _ \<Rightarrow>
         (if key \<noteq> ''destdir''
          then Inl (path @ '': unknown setting '' @ Quote key @ '' (method settings go in a [method] section)'')
          else (case v of
             TString s \<Rightarrow> load_keys e reg path raw (cfg\<lparr>cfgDestDir := ExpandHome e s\<rparr>)
           | _ \<Rightarrow> Inl (path @ '': destdir: want a string''))))"

definition default_config :: "env \<Rightarrow> config" where
  "default_config e = \<lparr>cfgDestDir = [],
     cfgDaemon = \<lparr>dcSocket = DefaultSocketPath e, dcHTTP = [], dcConcurrency = 2, dcDB = DefaultDBPath e,
       dcMaxRetries = 3, dcAuth = no_auth\<rparr>,
     cfgMethods = []\<rparr>"

definition Load :: "env \<Rightarrow> registry \<Rightarrow> string \<Rightarrow> toml_result \<Rightarrow> string + config" where
  "Load e reg path file =
    (if path = [] then Inr (default_config e)
     else (case file of
        TomlMissing \<Rightarrow> Inr (default_config e)
      | TomlError err \<Rightarrow> Inl (path @ '': '' @ err)
      | TomlOk raw \<Rightarrow> load_keys e reg path raw (default_config e)))"

subsection \<open>What a loaded configuration satisfies\<close>

definition config_ok :: "registry \<Rightarrow> config \<Rightarrow> bool" where
  "config_ok reg cfg \<longleftrightarrow> 1 \<le> dcConcurrency (cfgDaemon cfg) \<and> 1 \<le> dcMaxRetries (cfgDaemon cfg)
     \<and> distinct (map fst (cfgMethods cfg))
     \<and> (\<forall>(n, mc) \<in> set (cfgMethods cfg). GetMethod reg n \<noteq> None \<and> smap_wf (mcFlags mc)
            \<and> ''destdir'' \<notin> fst ` set (mcFlags mc))"

lemma parseDaemonConfig_ok:
  "parseDaemonConfig e path m d = Inr d' \<Longrightarrow> 1 \<le> dcConcurrency d \<Longrightarrow> 1 \<le> dcMaxRetries d \<Longrightarrow>
     1 \<le> dcConcurrency d' \<and> 1 \<le> dcMaxRetries d'"
  by (induction e path m d rule: parseDaemonConfig.induct)
     (auto split: if_splits tval.splits sum.splits option.splits)

lemma method_section_wf:
  "method_section e path key m mc = Inr mc' \<Longrightarrow> smap_wf (mcFlags mc) \<Longrightarrow> ''destdir'' \<notin> fst ` set (mcFlags mc) \<Longrightarrow>
     smap_wf (mcFlags mc') \<and> ''destdir'' \<notin> fst ` set (mcFlags mc')"
proof (induction m arbitrary: mc)
  case (Cons kv m)
  obtain k v where kv: "kv = (k, v)" by (cases kv)
  then obtain val where v: "scalar v = Inr val" using Cons.prems(1) by (cases "scalar v") auto
  show ?case
    using Cons.prems Cons.IH [of "if k = ''destdir'' then mc\<lparr>mcDestDir := ExpandHome e val\<rparr>
        else mc\<lparr>mcFlags := smap_put k (ExpandHome e val) (mcFlags mc)\<rparr>"]
    by (auto simp: kv v smap_wf_put fst_smap_put split: if_splits)
qed simp

text \<open>The flags of a section are its keys other than \<open>destdir\<close>, with their values as text.\<close>

definition section_flag :: "env \<Rightarrow> (string \<times> tval) list \<Rightarrow> string \<Rightarrow> string option" where
  "section_flag e sub k = (if k = ''destdir'' then None
     else (case map_of sub k of None \<Rightarrow> None | Some v \<Rightarrow> (case scalar v of Inl _ \<Rightarrow> None | Inr s \<Rightarrow> Some (ExpandHome e s))))"

lemma method_section_flags:
  "method_section e path key m mc = Inr mc' \<Longrightarrow> distinct (map fst m) \<Longrightarrow>
     map_of (mcFlags mc') k = (if k \<in> fst ` set m \<and> k \<noteq> ''destdir'' then section_flag e m k else map_of (mcFlags mc) k)"
proof (induction m arbitrary: mc)
  case (Cons kv m)
  obtain k1 v where kv: "kv = (k1, v)" by (cases kv)
  then obtain val where v: "scalar v = Inr val" using Cons.prems(1) by (cases "scalar v") auto
  have nk: "map_of m k1 = None" using Cons.prems(2) kv by (simp add: map_of_eq_None_iff)
  show ?case
    using Cons.prems Cons.IH [of "if k1 = ''destdir'' then mc\<lparr>mcDestDir := ExpandHome e val\<rparr>
        else mc\<lparr>mcFlags := smap_put k1 (ExpandHome e val) (mcFlags mc)\<rparr>"]
    by (cases "k = k1") (auto simp: kv v section_flag_def split: if_splits)
qed simp

lemma set_update_mem: "x \<in> set (AList.update k v ms) \<Longrightarrow> x = (k, v) \<or> x \<in> set ms"
  by (induction ms) (auto split: if_splits)

lemma load_keys_ok:
  "load_keys e reg path raw cfg = Inr cfg' \<Longrightarrow> config_ok reg cfg \<Longrightarrow> config_ok reg cfg'"
proof (induction raw arbitrary: cfg)
  case (Cons kv raw)
  obtain key v where kv: "kv = (key, v)" by (cases kv)
  show ?case
  proof (cases "\<exists>sub. v = TTable sub")
    case False
    then obtain s where s: "v = TString s" "key = ''destdir''"
        "load_keys e reg path raw (cfg\<lparr>cfgDestDir := ExpandHome e s\<rparr>) = Inr cfg'"
      using Cons.prems(1) kv by (cases v) (auto split: if_splits)
    show ?thesis by (rule Cons.IH [OF s(3)]) (use Cons.prems(2) in \<open>simp add: config_ok_def\<close>)
  next
    case True
    then obtain sub where v: "v = TTable sub" by blast
    show ?thesis
    proof (cases "key = ''daemon''")
      case True
      then obtain d where d: "parseDaemonConfig e path sub (cfgDaemon cfg) = Inr d"
          "load_keys e reg path raw (cfg\<lparr>cfgDaemon := d\<rparr>) = Inr cfg'"
        using Cons.prems(1) kv v by (auto split: sum.splits)
      show ?thesis
        by (rule Cons.IH [OF d(2)])
           (use Cons.prems(2) parseDaemonConfig_ok [OF d(1)] in \<open>simp add: config_ok_def\<close>)
    next
      case False
      then obtain mc where g: "GetMethod reg key \<noteq> None"
          and m: "method_section e path key sub \<lparr>mcDestDir = [], mcFlags = []\<rparr> = Inr mc"
          and l: "load_keys e reg path raw (cfg\<lparr>cfgMethods := AList.update key mc (cfgMethods cfg)\<rparr>) = Inr cfg'"
        using Cons.prems(1) kv v by (auto split: sum.splits if_splits)
      have w: "smap_wf (mcFlags mc)" "''destdir'' \<notin> fst ` set (mcFlags mc)"
        using method_section_wf [OF m] by (simp_all add: smap_wf_def)
      note upd = set_update_mem [of _ key mc "cfgMethods cfg"]
      have "config_ok reg (cfg\<lparr>cfgMethods := AList.update key mc (cfgMethods cfg)\<rparr>)"
        using Cons.prems(2) g w unfolding config_ok_def by (auto simp: distinct_update dest!: upd)
      with Cons.IH [OF l] show ?thesis .
    qed
  qed
qed simp

text \<open>What is accepted: only known settings, of the right types.\<close>

definition daemon_keys :: "string set" where
  "daemon_keys = {''auth'', ''socket'', ''http'', ''concurrency'', ''db'', ''max_retries''}"

lemma parseDaemonConfig_keys:
  "parseDaemonConfig e path m d = Inr d' \<Longrightarrow> fst ` set m \<subseteq> daemon_keys"
  unfolding daemon_keys_def
  by (induction e path m d rule: parseDaemonConfig.induct)
     (auto split: if_splits tval.splits sum.splits option.splits)

definition setting_ok :: "registry \<Rightarrow> string \<times> tval \<Rightarrow> bool" where
  "setting_ok reg kv \<longleftrightarrow> (case kv of
       (k, TTable sub) \<Rightarrow> if k = ''daemon'' then fst ` set sub \<subseteq> daemon_keys else GetMethod reg k \<noteq> None
     | (k, TString _) \<Rightarrow> k = ''destdir''
     | _ \<Rightarrow> False)"

lemma load_keys_strict:
  "load_keys e reg path raw cfg = Inr cfg' \<Longrightarrow> (\<forall>kv \<in> set raw. setting_ok reg kv)"
proof (induction raw arbitrary: cfg)
  case (Cons kv raw)
  obtain key v where kv: "kv = (key, v)" by (cases kv)
  have "setting_ok reg kv \<and> (\<exists>c. load_keys e reg path raw c = Inr cfg')"
    using Cons.prems kv
    by (cases v) (auto simp: setting_ok_def dest: parseDaemonConfig_keys split: if_splits sum.splits)
  then show ?case using Cons.IH by auto
qed simp

lemma load_keys_methods:
  assumes "load_keys e reg path raw cfg = Inr cfg'" and "distinct (map fst raw)"
  shows "map_of (cfgMethods cfg') n =
     (if n \<noteq> ''daemon'' \<and> (\<exists>sub. map_of raw n = Some (TTable sub))
      then (case the (map_of raw n) of TTable sub \<Rightarrow> Some (projr (method_section e path n sub \<lparr>mcDestDir = [], mcFlags = []\<rparr>)))
      else map_of (cfgMethods cfg) n)
    \<and> (\<forall>sub. n \<noteq> ''daemon'' \<longrightarrow> map_of raw n = Some (TTable sub) \<longrightarrow>
         (\<exists>mc. method_section e path n sub \<lparr>mcDestDir = [], mcFlags = []\<rparr> = Inr mc))"
  using assms
proof (induction raw arbitrary: cfg)
  case (Cons kv raw)
  obtain key v where kv: "kv = (key, v)" by (cases kv)
  have nk: "map_of raw key = None" and dr: "distinct (map fst raw)"
    using Cons.prems(2) kv by (simp_all add: map_of_eq_None_iff)
  show ?case
  proof (cases v)
    case (TTable sub)
    show ?thesis
    proof (cases "key = ''daemon''")
      case True
      then obtain d where "load_keys e reg path raw (cfg\<lparr>cfgDaemon := d\<rparr>) = Inr cfg'"
        using Cons.prems(1) kv TTable by (auto split: sum.splits)
      from Cons.IH [OF this dr] show ?thesis using kv TTable True by auto
    next
      case False
      then obtain mc where m: "method_section e path key sub \<lparr>mcDestDir = [], mcFlags = []\<rparr> = Inr mc"
          and l: "load_keys e reg path raw (cfg\<lparr>cfgMethods := AList.update key mc (cfgMethods cfg)\<rparr>) = Inr cfg'"
        using Cons.prems(1) kv TTable by (auto split: sum.splits if_splits)
      show ?thesis
      proof (cases "n = key")
        case True
        then show ?thesis using Cons.IH [OF l dr] m nk kv TTable False by (simp add: update_conv')
      next
        case n: False
        then show ?thesis using Cons.IH [OF l dr] kv by (simp add: update_conv')
      qed
    qed
  qed (use Cons.prems(1) Cons.IH [OF _ dr] kv nk in \<open>auto split: if_splits\<close>)
qed simp

text \<open>Loading the configuration: what \<open>Load\<close> accepts has positive concurrency and retry settings and
  sections for registered methods only; an unknown setting or a value of the wrong type anywhere at
  the top level or in \<open>[daemon]\<close> makes it fail; and the flags of a method are exactly the entries of
  its section except \<open>destdir\<close>, with their scalar values as text and a leading \<open>~\<close> expanded.\<close>

theorem Load_correct:
  assumes "Load e reg path (TomlOk raw) = Inr cfg" and "path \<noteq> []" and "distinct (map fst raw)"
    and "\<And>k sub. (k, TTable sub) \<in> set raw \<Longrightarrow> distinct (map fst sub)"
  shows "config_ok reg cfg \<and> (\<forall>kv \<in> set raw. setting_ok reg kv)
    \<and> (\<forall>n. n \<noteq> ''daemon'' \<longrightarrow> map_option (\<lambda>mc. map_of (mcFlags mc)) (map_of (cfgMethods cfg) n)
          = (case map_of raw n of Some (TTable sub) \<Rightarrow> Some (section_flag e sub) | _ \<Rightarrow> None))"
proof (intro conjI allI impI)
  have l: "load_keys e reg path raw (default_config e) = Inr cfg" using assms(1,2) by (simp add: Load_def)
  show "config_ok reg cfg" by (rule load_keys_ok [OF l]) (simp add: config_ok_def default_config_def)
  show "\<forall>kv \<in> set raw. setting_ok reg kv" by (rule load_keys_strict [OF l])
  fix n :: string assume n: "n \<noteq> ''daemon''"
  show "map_option (\<lambda>mc. map_of (mcFlags mc)) (map_of (cfgMethods cfg) n)
          = (case map_of raw n of Some (TTable sub) \<Rightarrow> Some (section_flag e sub) | _ \<Rightarrow> None)"
  proof (cases "\<exists>sub. map_of raw n = Some (TTable sub)")
    case False
    then have "map_of (cfgMethods cfg) n = None"
      using load_keys_methods [OF l assms(3), of n] by (simp add: default_config_def)
    with False show ?thesis by (auto split: option.split tval.split)
  next
    case True
    then obtain sub where sub: "map_of raw n = Some (TTable sub)" by blast
    then obtain mc where mc: "method_section e path n sub \<lparr>mcDestDir = [], mcFlags = []\<rparr> = Inr mc"
        "map_of (cfgMethods cfg) n = Some mc"
      using load_keys_methods [OF l assms(3), of n] n by auto
    have d: "distinct (map fst sub)" using assms(4) map_of_SomeD [OF sub] by blast
    have "map_of (mcFlags mc) = section_flag e sub"
      using method_section_flags [OF mc(1) d]
      by (auto simp: fun_eq_iff section_flag_def map_of_eq_None_iff image_iff split: option.split dest!: map_of_SomeD)
    with mc(2) sub show ?thesis by simp
  qed
qed

definition demo_toml :: "(string \<times> tval) list" where
  "demo_toml = [(''daemon'', TTable [(''concurrency'', TInt 4), (''max_retries'', TString ''5'')]),
     (''destdir'', TString ''~/mirror''), (''gphotos'', TTable [(''companions'', TBool False), (''destdir'', TString ''/p'')])]"

definition demo_env :: env where
  "demo_env v = (if v = ''HOME'' then ''/home/u'' else [])"

theorem Load_correct_witness:
  "map_option (\<lambda>mc. map_of (mcFlags mc) ''companions'')
     (map_of (cfgMethods (projr (Load demo_env demo_registry ''c.toml'' (TomlOk demo_toml)))) ''gphotos'') = Some (Some ''false'')"
proof -
  have "\<not> isl (Load demo_env demo_registry ''c.toml'' (TomlOk demo_toml))" by code_simp
  then obtain cfg where c: "Load demo_env demo_registry ''c.toml'' (TomlOk demo_toml) = Inr cfg"
    by (cases "Load demo_env demo_registry ''c.toml'' (TomlOk demo_toml)") (simp_all only: sum.disc simp_thms)
  have "map_option (\<lambda>mc. map_of (mcFlags mc)) (map_of (cfgMethods cfg) ''gphotos'')
      = (case map_of demo_toml ''gphotos'' of Some (TTable sub) \<Rightarrow> Some (section_flag demo_env sub) | _ \<Rightarrow> None)"
  proof (rule Load_correct [OF c, THEN conjunct2, THEN conjunct2, rule_format])
    show "distinct (map fst demo_toml)" by (simp add: demo_toml_def)
    show "distinct (map fst sub)" if "(k, TTable sub) \<in> set demo_toml" for k sub
      using that by (auto simp: demo_toml_def)
  qed simp_all
  also have "\<dots> = Some (section_flag demo_env [(''companions'', TBool False), (''destdir'', TString ''/p'')])"
    by (simp add: demo_toml_def)
  finally have "map_option (\<lambda>mc. map_of (mcFlags mc) ''companions'') (map_of (cfgMethods cfg) ''gphotos'')
      = Some (section_flag demo_env [(''companions'', TBool False), (''destdir'', TString ''/p'')] ''companions'')"
    by (auto simp: map_option_case split: option.splits)
  then show ?thesis by (simp add: c section_flag_def scalar_def bool_text_def ExpandHome_def HasPrefix_def)
qed

end
