(* ===== verification/Job.thy ===== *)
theory Job
  imports GoJson
begin

text \<open>
  \<open>internal/daemon/job.go\<close>: the states of a job, the job itself, the grouping of sources by site and
  path, the JSON form of the flags, and the requests the API carries. Job states are Go strings
  (\<open>type State string\<close>), so any text can occur; \<open>Valid\<close> names the seven the program uses. Times are
  integers (nanoseconds since the Unix epoch, UTC); \<open>zero_time\<close> is Go's zero \<open>time.Time\<close>.
\<close>

type_synonym time = int

definition zero_time :: time where
  "zero_time = -62135596800000000000"

subsection \<open>States\<close>

type_synonym state = string

abbreviation StateQueued :: state where "StateQueued \<equiv> ''queued''"
abbreviation StateRunning :: state where "StateRunning \<equiv> ''running''"
abbreviation StatePaused :: state where "StatePaused \<equiv> ''paused''"
abbreviation StateCompleted :: state where "StateCompleted \<equiv> ''completed''"
abbreviation StateFailed :: state where "StateFailed \<equiv> ''failed''"
abbreviation StateQuarantined :: state where "StateQuarantined \<equiv> ''quarantined''"
abbreviation StateCancelled :: state where "StateCancelled \<equiv> ''cancelled''"

definition Valid :: "state \<Rightarrow> bool" where
  "Valid s \<longleftrightarrow> s \<in> {StateQueued, StateRunning, StatePaused, StateCompleted, StateFailed,
     StateQuarantined, StateCancelled}"

definition IsTerminal :: "state \<Rightarrow> bool" where
  "IsTerminal s \<longleftrightarrow> s = StateCompleted \<or> s = StateCancelled"

subsection \<open>Jobs\<close>

record job =
  jID :: int
  jMethod :: string
  jSource :: string
  jDestDir :: string
  jFlags :: smap
  jState :: state
  jPriority :: int
  jCreatedAt :: time
  jStartedAt :: "time option"
  jFinishedAt :: "time option"
  jRetryCount :: int
  jMaxRetries :: int
  jLastError :: string
  jQuarantineReason :: string
  jSite :: string
  jPath :: string

text \<open>The zero value of the struct, from which \<open>&Job{...}\<close> literals start.\<close>

definition new_job :: job where
  "new_job = \<lparr>jID = 0, jMethod = [], jSource = [], jDestDir = [], jFlags = [], jState = [],
     jPriority = 0, jCreatedAt = zero_time, jStartedAt = None, jFinishedAt = None,
     jRetryCount = 0, jMaxRetries = 0, jLastError = [], jQuarantineReason = [],
     jSite = [], jPath = []\<rparr>"

subsection \<open>Site and path of a source\<close>

definition ExtractRoot :: "string \<Rightarrow> string \<Rightarrow> string" where
  "ExtractRoot source meth =
    (let s = TrimSpace source;
         other = (if meth \<noteq> [] then meth else ''generic'')
     in case Parse s of
          Inl _ \<Rightarrow> other
        | Inr u \<Rightarrow>
            if Host u = [] then other
            else
              (let host = ToLower (Host u);
                   scheme = (if ToLower (Scheme u) = [] then ''http'' else ToLower (Scheme u));
                   parts = Split (Trim (Path u) ''/'') slash
               in if Contains host ''sourceforge.net'' \<and> 2 \<le> length parts \<and> parts ! 0 = ''projects''
                  then scheme @ ''://'' @ host @ ''/projects/'' @ parts ! 1
                  else scheme @ ''://'' @ host))"

definition ExtractPath :: "string \<Rightarrow> string" where
  "ExtractPath source =
    (let s = TrimSpace source in
     case Parse s of
       Inl _ \<Rightarrow> s
     | Inr u \<Rightarrow>
         if Host u = [] then s
         else (let p = (if Path u = [] then ''/'' else Path u)
               in if RawQuery u \<noteq> [] then p @ ''?'' @ RawQuery u else p))"

subsection \<open>Flags in the database\<close>

definition FlagsJSON :: "job \<Rightarrow> string" where
  "FlagsJSON j = (if jFlags j = [] then ''{}'' else Marshal_smap (jFlags j))"

text \<open>\<open>SetFlagsJSON\<close> ignores the error of \<open>json.Unmarshal\<close> and keeps what it decoded.\<close>

definition SetFlagsJSON :: "string \<Rightarrow> job \<Rightarrow> job" where
  "SetFlagsJSON raw j =
     (if TrimSpace raw = [] \<or> raw = ''{}'' then j\<lparr>jFlags := []\<rparr>
      else j\<lparr>jFlags := fst (Unmarshal_smap raw (jFlags j))\<rparr>)"

subsection \<open>Requests\<close>

record submit_request =
  sMethod :: string
  sSource :: string
  sDestDir :: string
  sFlags :: smap
  sPriority :: int

definition Validate :: "submit_request \<Rightarrow> unit result" where
  "Validate r = (if TrimSpace (sSource r) = [] then Inl (ErrMsg ''source cannot be empty'') else Inr ())"

abbreviation BatchPause :: string where "BatchPause \<equiv> ''pause''"
abbreviation BatchResume :: string where "BatchResume \<equiv> ''resume''"
abbreviation BatchQuarantine :: string where "BatchQuarantine \<equiv> ''quarantine''"
abbreviation BatchUnquarantine :: string where "BatchUnquarantine \<equiv> ''unquarantine''"
abbreviation BatchCancel :: string where "BatchCancel \<equiv> ''cancel''"
abbreviation BatchRetry :: string where "BatchRetry \<equiv> ''retry''"
abbreviation BatchDelete :: string where "BatchDelete \<equiv> ''delete''"

record batch_request =
  bAction :: string
  bPrefix :: string
  bIDs :: "int list"
  bReason :: string

record batch_result =
  brAction :: string
  brTarget :: string
  brMatched :: nat
  brAffected :: nat
  brJobIDs :: "int list"

record job_log =
  lID :: int
  lJobID :: int
  lTimestamp :: time
  lStream :: string
  lMessage :: string

record job_filter =
  fStates :: "state list"
  fMethod :: string
  fSite :: string
  fPrefix :: string
  fOrderBy :: string
  fLimit :: int
  fOffset :: int

record queue_status =
  qsPaused :: bool
  qsConcurrency :: int
  qsMaxRetries :: int
  qsCounts :: "state \<Rightarrow> nat option"
  qsActiveJobs :: "job list"
  qsUptimeSec :: int

subsection \<open>Facts\<close>

lemma Valid_states [simp]:
  "Valid StateQueued" "Valid StateRunning" "Valid StatePaused" "Valid StateCompleted"
  "Valid StateFailed" "Valid StateQuarantined" "Valid StateCancelled"
  by (simp_all add: Valid_def)

lemma Marshal_not_blank: "TrimSpace (Marshal_smap m) \<noteq> []"
proof -
  have "\<not> is_space CHR ''{''" by (simp add: is_space_def)
  then have l: "trim_left_by is_space (Marshal_smap m) = Marshal_smap m"
    by (simp add: Marshal_smap_def trim_left_by_def)
  have "\<not> is_space CHR ''}''" by (simp add: is_space_def)
  then have "trim_right_by is_space (Marshal_smap m) = Marshal_smap m"
    by (intro trim_right_by_no) (simp add: Marshal_smap_def)
  then show ?thesis using l by (simp add: TrimSpace_def Marshal_smap_def)
qed

lemma Marshal_not_empty_object: "m \<noteq> [] \<Longrightarrow> Marshal_smap m \<noteq> ''{}''"
  by (cases m rule: json_members.cases) (auto simp: Marshal_smap_def json_string_def)

text \<open>Storing the flags and loading them back gives the same flags.\<close>

lemma SetFlags_FlagsJSON:
  assumes "smap_wf (jFlags j)" and "jFlags k = []"
  shows "SetFlagsJSON (FlagsJSON j) k = k\<lparr>jFlags := jFlags j\<rparr>"
proof (cases "jFlags j = []")
  case True
  then show ?thesis by (simp add: SetFlagsJSON_def FlagsJSON_def)
next
  case False
  then show ?thesis
    using Marshal_not_blank Marshal_not_empty_object Unmarshal_Marshal [OF assms(1)] assms(2)
    by (simp add: SetFlagsJSON_def FlagsJSON_def)
qed

text \<open>The root of a source never names a path: two sources on the same host and scheme share it
  unless they are SourceForge projects.\<close>

lemma ExtractRoot_blank_method:
  "Parse (TrimSpace source) = Inl e \<Longrightarrow> ExtractRoot source meth = (if meth \<noteq> [] then meth else ''generic'')"
  by (simp add: ExtractRoot_def Let_def)

lemma ExtractRoot_host:
  assumes "Parse (TrimSpace source) = Inr u" and "Host u \<noteq> []"
    and "\<not> Contains (ToLower (Host u)) ''sourceforge.net''" and "Scheme u \<noteq> []"
  shows "ExtractRoot source meth = ToLower (Scheme u) @ ''://'' @ ToLower (Host u)"
  using assms by (simp add: ExtractRoot_def Let_def)

lemma ExtractRoot_nonempty: "ExtractRoot source meth \<noteq> []"
  by (auto simp: ExtractRoot_def Let_def split: sum.splits)

end
