(* ===== verification/Cli.thy ===== *)
theory Cli
  imports Config Git Job
begin

text \<open>
  The command line of \<open>mirror\<close> (\<open>cmd/mirror/main.go\<close>: \<open>resolve\<close>; \<open>cmd/mirror/queue.go\<close>: \<open>submitMain\<close>) and the
  two executors of the daemon (\<open>internal/daemon/executor.go\<close>), one of which runs that command line. The
  network probe for Git repositories is an input. What is printed on standard error is left out.
\<close>

subsection \<open>Resolving a command line\<close>

datatype cli_error = CliHelp | CliUsage | CliErr string

record invocation =
  invMethod :: mirror_method
  invFlags :: flagset
  invSource :: string
  invDest :: string
  invDetected :: bool
  invDefaultDest :: bool

text \<open>The flags of a method's section in the configuration, set before the command line is parsed.\<close>

fun config_flags :: "string \<Rightarrow> (string \<times> string) list \<Rightarrow> flagset \<Rightarrow> string + flagset" where
  "config_flags meth [] fs = Inr fs"
| "config_flags meth ((n, v) # fls) fs =
    (case Lookup fs n of
       None \<Rightarrow> Inl (''config file: ['' @ meth @ ''] '' @ n @ '': '' @ meth @ '' has no flag -'' @ n)
     | Some _ \<Rightarrow>
        (case SetFlag n v fs of
           Inl e \<Rightarrow> Inl (''config file: ['' @ meth @ ''] '' @ n @ '': '' @ e)
         | Inr fs' \<Rightarrow> config_flags meth fls fs'))"

definition setup_flags :: "config \<Rightarrow> mirror_method \<Rightarrow> string + flagset" where
  "setup_flags cfg m =
    (let fs = NewFlagSet (mName m) (mFlags m) in
     case map_of (cfgMethods cfg) (mName m) of
       None \<Rightarrow> Inr fs
     | Some mc \<Rightarrow> config_flags (mName m) (mcFlags mc) fs)"

text \<open>The source is the last argument or the one before it.\<close>

definition detect_at :: "registry \<Rightarrow> string list \<Rightarrow> nat \<Rightarrow> (mirror_method \<times> string) option" where
  "detect_at reg args k =
    (if length args < k then None
     else (let a = args ! (length args - k) in
       if HasPrefix a ''-'' then None else map_option (\<lambda>m. (m, a)) (Detect reg a)))"

definition detect_source :: "registry \<Rightarrow> string list \<Rightarrow> (mirror_method \<times> string) option" where
  "detect_source reg args =
    (case detect_at reg args 1 of Some r \<Rightarrow> Some r | None \<Rightarrow> detect_at reg args 2)"

definition choose_dest :: "config \<Rightarrow> mirror_method \<Rightarrow> string \<Rightarrow> string list \<Rightarrow> method_config option \<Rightarrow> cli_error + (string \<times> bool)" where
  "choose_dest cfg m source rest mc =
    (if length rest = 2 then Inr (rest ! 1, False)
     else if mc \<noteq> None \<and> mcDestDir (the mc) \<noteq> [] then Inr (mcDestDir (the mc), True)
     else if cfgDestDir cfg \<noteq> [] then
       (case mSubdir m of
          None \<Rightarrow> Inr (cfgDestDir cfg, True)
        | Some f \<Rightarrow>
           (let sub = f source in
            if sub = [] \<or> \<not> IsLocal sub
            then Inl (CliErr (mName m @ '': cannot tell where to mirror '' @ source @ '' under '' @ cfgDestDir cfg @ ''; give a destdir''))
            else Inr (JoinPath [cfgDestDir cfg, sub], True)))
     else Inl CliUsage)"

text \<open>From the method on: flags from the configuration, the command line, a change from \<open>http\<close> to
  \<open>git\<close>, and the destination. \<open>detected\<close> is the source if the method was chosen by it.\<close>

definition switch_to_git :: "registry \<Rightarrow> (string \<Rightarrow> bool) \<Rightarrow> mirror_method \<Rightarrow> string \<Rightarrow> mirror_method option" where
  "switch_to_git reg probe m source =
    (if mName m = ''http'' \<and> (git_Match source \<or> probe source) then GetMethod reg ''git'' else None)"

definition resolve_method ::
  "registry \<Rightarrow> (string \<Rightarrow> bool) \<Rightarrow> config \<Rightarrow> mirror_method \<Rightarrow> string option \<Rightarrow> string list \<Rightarrow> cli_error + invocation" where
  "resolve_method reg probe cfg m detected args =
    (case setup_flags cfg m of
       Inl e \<Rightarrow> Inl (CliErr e)
     | Inr fs0 \<Rightarrow>
        (case ParseFlags args fs0 of
           Inl PErrHelp \<Rightarrow> Inl CliHelp
         | Inl (PErrMsg _) \<Rightarrow> Inl CliUsage
         | Inr (rest, fs) \<Rightarrow>
            (if length rest < 1 \<or> 2 < length rest \<or> (detected \<noteq> None \<and> rest ! 0 \<noteq> the detected) then Inl CliUsage
             else
              (let source = rest ! 0 in
               case switch_to_git reg probe m source of
                 Some gm \<Rightarrow>
                   (case setup_flags cfg gm of
                      Inl e \<Rightarrow> Inl (CliErr e)
                    | Inr gfs \<Rightarrow>
                       (case choose_dest cfg gm source rest (map_of (cfgMethods cfg) (mName gm)) of
                          Inl e \<Rightarrow> Inl e
                        | Inr (dest, def) \<Rightarrow>
                            Inr \<lparr>invMethod = gm, invFlags = gfs, invSource = source, invDest = dest,
                                 invDetected = True, invDefaultDest = def\<rparr>))
               | None \<Rightarrow>
                   (case choose_dest cfg m source rest (map_of (cfgMethods cfg) (mName m)) of
                      Inl e \<Rightarrow> Inl e
                    | Inr (dest, def) \<Rightarrow>
                        Inr \<lparr>invMethod = m, invFlags = fs, invSource = source, invDest = dest,
                             invDetected = (detected \<noteq> None), invDefaultDest = def\<rparr>)))))"

definition resolve :: "registry \<Rightarrow> (string \<Rightarrow> bool) \<Rightarrow> config \<Rightarrow> string list \<Rightarrow> cli_error + invocation" where
  "resolve reg probe cfg args =
    (case GetMethod reg (hd args) of
       Some m \<Rightarrow> resolve_method reg probe cfg m None (tl args)
     | None \<Rightarrow>
        (case detect_source reg args of
           None \<Rightarrow> Inl CliUsage
         | Some (m, src) \<Rightarrow> resolve_method reg probe cfg m (Some src) args))"

text \<open>The request \<open>mirror submit\<close> sends to the daemon.\<close>

definition submit_of :: "invocation \<Rightarrow> submit_request" where
  "submit_of iv = \<lparr>sMethod = mName (invMethod iv), sSource = invSource iv, sDestDir = invDest iv,
     sFlags = foldl (\<lambda>m (k, v). smap_put k v m) [] (VisitFlags (invFlags iv)), sPriority = 0\<rparr>"

subsection \<open>Executors\<close>

text \<open>The arguments of the child process. Go walks the map of flags in any order: \<open>order\<close> is one.\<close>

definition flag_args :: "string \<times> string \<Rightarrow> string list" where
  "flag_args kv = (let flagName = ''-'' @ TrimPrefix (fst kv) ''-'' in
     if snd kv = ''true'' then [flagName] else [flagName, snd kv])"

definition command_args :: "(string \<times> string) list \<Rightarrow> job \<Rightarrow> string list" where
  "command_args order job = (if jMethod job \<noteq> [] then [jMethod job] else [])
     @ concat (map flag_args order) @ [jSource job, jDestDir job]"

text \<open>What became of the child process: an error before it started, or the lines it wrote on its
  two streams in the order they were read, and the error of \<open>Wait\<close>.\<close>

datatype proc_result =
    PipeFailed string string
  | StartFailed string
  | Exited "(string \<times> string) list" "string option"

definition run_command :: "string \<Rightarrow> string option \<Rightarrow> proc_result \<Rightarrow> (string \<times> string) list \<times> string option" where
  "run_command binaryPath ctxErr p =
    (let bin = (if binaryPath = [] then ''mirror'' else binaryPath) in
     case p of
       PipeFailed stream e \<Rightarrow> ([], Some (''creating '' @ stream @ '' pipe: '' @ e))
     | StartFailed e \<Rightarrow> ([], Some (''starting '' @ bin @ '': '' @ e))
     | Exited logs None \<Rightarrow> (logs, None)
     | Exited logs (Some e) \<Rightarrow> (logs, Some (case ctxErr of Some c \<Rightarrow> c | None \<Rightarrow> e)))"

fun job_flags :: "mirror_method \<Rightarrow> (string \<times> string) list \<Rightarrow> flagset \<Rightarrow> string + flagset" where
  "job_flags m [] fs = Inr fs"
| "job_flags m ((k, v) # fls) fs =
    (let flagName = TrimPrefix k ''-'' in
     case Lookup fs flagName of
       None \<Rightarrow> Inl (''method '' @ mName m @ '' has no flag -'' @ flagName)
     | Some _ \<Rightarrow>
        (case SetFlag flagName v fs of
           Inl e \<Rightarrow> Inl (''setting flag -'' @ flagName @ '': '' @ e)
         | Inr fs' \<Rightarrow> job_flags m fls fs'))"

definition flag_value :: "flagset \<Rightarrow> string \<Rightarrow> string option" where
  "flag_value fs n = map_option flValue (Lookup fs n)"

text \<open>The in-process executor, without the runners tests inject: the lines it logs, and the error.\<close>

definition run_in_process :: "registry \<Rightarrow> (string \<times> string) list \<Rightarrow> job \<Rightarrow> (string \<times> string) list \<times> run_result" where
  "run_in_process reg order job =
    (case GetMethod reg (jMethod job) of
       None \<Rightarrow> ([], RunFailed (''unknown mirror method '' @ Quote (jMethod job)))
     | Some m \<Rightarrow>
        (case job_flags m order (NewFlagSet (mName m) (mFlags m)) of
           Inl e \<Rightarrow> ([], RunFailed e)
         | Inr fs \<Rightarrow>
            (let start = (''info'', ''in-process start: '' @ jMethod job @ '' '' @ jSource job @ '' -> '' @ jDestDir job)
             in case mRun m (flag_value fs) (jSource job) (jDestDir job) of
                  RunCanceled e \<Rightarrow> ([start, (''info'', ''job cancelled by context'')], RunCanceled e)
                | RunFailed e \<Rightarrow> ([start, (''stderr'', ''failed: '' @ e)], RunFailed e)
                | RunOk \<Rightarrow> ([start, (''info'', ''completed successfully'')], RunOk))))"

subsection \<open>Parsing what the executor wrote\<close>

definition plain_name :: "string \<Rightarrow> bool" where
  "plain_name n \<longleftrightarrow> n \<noteq> [] \<and> hd n \<noteq> CHR ''-'' \<and> CHR ''='' \<notin> set n"

text \<open>A flag of a job the backend knows and accepts the value of; \<open>passes\<close> says that the executor's
  form of it survives the parser: a boolean flag is only ever true, and no other flag has the text
  \<open>true\<close>.\<close>

definition known_flag :: "flagset \<Rightarrow> string \<times> string \<Rightarrow> bool" where
  "known_flag fs kv \<longleftrightarrow> plain_name (TrimPrefix (fst kv) ''-'') \<and>
     (\<exists>f. Lookup fs (TrimPrefix (fst kv) ''-'') = Some f \<and> \<not> isl (flSet f (snd kv)))"

definition is_bool_flag :: "flagset \<Rightarrow> string \<Rightarrow> bool" where
  "is_bool_flag fs n \<longleftrightarrow> (\<exists>f. Lookup fs n = Some f \<and> flBool f)"

definition passes :: "flagset \<Rightarrow> string \<times> string \<Rightarrow> bool" where
  "passes fs kv \<longleftrightarrow> (is_bool_flag fs (TrimPrefix (fst kv) ''-'') \<longleftrightarrow> snd kv = ''true'')"

definition positional :: "string \<Rightarrow> bool" where
  "positional s \<longleftrightarrow> length s < 2 \<or> hd s \<noteq> CHR ''-''"

lemma split_flag_plain: "CHR ''='' \<notin> set n \<Longrightarrow> split_flag n = (n, None)"
proof -
  assume "CHR ''='' \<notin> set n"
  then have "CHR ''='' \<notin> set (tl n)" by (cases n) auto
  then show ?thesis by (simp add: split_flag_def IndexByte_None [THEN iffD2])
qed

lemma set_value_of_Lookup:
  "Lookup fs n = Some f \<Longrightarrow> SetFlag n v fs = set_value f v fs"
  by (simp add: SetFlag_def)

lemma Parse_flag:
  assumes "plain_name n" and "Lookup fs n = Some f"
  shows "flBool f \<Longrightarrow> SetFlag n ''true'' fs = Inr fs' \<Longrightarrow> ParseFlags ((''-'' @ n) # args) fs = ParseFlags args fs'"
    and "\<not> flBool f \<Longrightarrow> SetFlag n v fs = Inr fs' \<Longrightarrow> ParseFlags ((''-'' @ n) # v # args) fs = ParseFlags args fs'"
proof -
  obtain c cs where n: "n = c # cs" "c \<noteq> CHR ''-''" "c \<noteq> CHR ''=''"
    using assms(1) by (cases n) (auto simp: plain_name_def)
  have sp: "split_flag (c # cs) = (c # cs, None)"
    using split_flag_plain [of n] assms(1) n(1) by (simp add: plain_name_def)
  note s = set_value_of_Lookup [OF assms(2)]
  have L: "Lookup fs (c # cs) = Some f" using assms(2) n(1) by simp
  show "ParseFlags ((''-'' @ n) # args) fs = ParseFlags args fs'" if b: "flBool f" and e: "SetFlag n ''true'' fs = Inr fs'"
  proof -
    have "set_value f ''true'' fs = Inr fs'" using e s by simp
    then show ?thesis using n sp L b by simp
  qed
  show "ParseFlags ((''-'' @ n) # v # args) fs = ParseFlags args fs'" if b: "\<not> flBool f" and e: "SetFlag n v fs = Inr fs'"
  proof -
    have "set_value f v fs = Inr fs'" using e s by simp
    then show ?thesis using n sp L b by simp
  qed
qed

lemma same_flags_cases:
  assumes "same_flags fs fs'"
  obtains "Lookup fs n = None" "Lookup fs' n = None"
        | f f' where "Lookup fs n = Some f" "Lookup fs' n = Some f'" "flBool f' = flBool f" "flSet f' = flSet f"
proof -
  have "map_option (\<lambda>f. (flBool f, flSet f)) (Lookup fs' n) = map_option (\<lambda>f. (flBool f, flSet f)) (Lookup fs n)"
    using assms by (simp add: same_flags_def)
  then show ?thesis using that by (cases "Lookup fs n"; cases "Lookup fs' n") simp_all
qed

lemma same_flags_known: "same_flags fs fs' \<Longrightarrow> known_flag fs' kv = known_flag fs kv"
  by (erule same_flags_cases [where n = "TrimPrefix (fst kv) ''-''"]) (simp_all add: known_flag_def)

lemma same_flags_passes: "same_flags fs fs' \<Longrightarrow> passes fs' kv = passes fs kv"
  by (erule same_flags_cases [where n = "TrimPrefix (fst kv) ''-''"]) (simp_all add: passes_def is_bool_flag_def)

lemma known_set:
  assumes "known_flag fs (k, v)"
  obtains fs' where "SetFlag (TrimPrefix k ''-'') v fs = Inr fs'" "same_flags fs fs'"
proof -
  obtain f where f: "Lookup fs (TrimPrefix k ''-'') = Some f" "\<not> isl (flSet f v)"
    using assms by (auto simp: known_flag_def)
  then have "\<exists>fs'. SetFlag (TrimPrefix k ''-'') v fs = Inr fs'"
    by (cases "flSet f v") (simp_all add: SetFlag_def set_value_def)
  then show ?thesis using that same_flags_SetFlag by blast
qed

text \<open>The parser, fed the executor's arguments, sets the same flags as the in-process executor.\<close>

lemma Parse_flag_args:
  assumes "\<And>kv. kv \<in> set order \<Longrightarrow> known_flag fs kv \<and> passes fs kv" and "positional s"
  shows "\<exists>fs'. job_flags m order fs = Inr fs' \<and> ParseFlags (concat (map flag_args order) @ s # rest) fs = Inr (s # rest, fs')"
  using assms(1)
proof (induction order arbitrary: fs)
  case Nil
  then show ?case using ParseFlags_positional [of s rest fs] assms(2) by (simp add: positional_def)
next
  case (Cons kv order)
  obtain k v where kv: "kv = (k, v)" by (cases kv)
  let ?n = "TrimPrefix k ''-''"
  have kf: "known_flag fs (k, v)" "passes fs (k, v)" using Cons.prems [of kv] kv by auto
  obtain fs1 where fs1: "SetFlag ?n v fs = Inr fs1" "same_flags fs fs1" by (rule known_set [OF kf(1)])
  obtain f where f: "Lookup fs ?n = Some f" and pn: "plain_name ?n" using kf(1) by (auto simp: known_flag_def)
  have "\<exists>fs'. job_flags m order fs1 = Inr fs' \<and> ParseFlags (concat (map flag_args order) @ s # rest) fs1 = Inr (s # rest, fs')"
    by (rule Cons.IH) (use Cons.prems same_flags_known [OF fs1(2)] same_flags_passes [OF fs1(2)] in auto)
  moreover have "ParseFlags (flag_args (k, v) @ args) fs = ParseFlags args fs1" for args
  proof (cases "flBool f")
    case True
    then have "v = ''true''" using kf(2) f by (auto simp: passes_def is_bool_flag_def)
    then show ?thesis using Parse_flag(1) [OF pn f True, of fs1 args] fs1(1) by (simp add: flag_args_def Let_def)
  next
    case False
    then have "v \<noteq> ''true''" using kf(2) f by (auto simp: passes_def is_bool_flag_def)
    then show ?thesis using Parse_flag(2) [OF pn f False, of v fs1 args] fs1(1) by (simp add: flag_args_def Let_def)
  qed
  moreover have "job_flags m (kv # order) fs = job_flags m order fs1"
    using f fs1(1) by (simp add: kv Let_def)
  ultimately show ?case by (simp add: kv)
qed

text \<open>The values the flags end up with do not depend on the order.\<close>

definition named :: "(string \<times> string) list \<Rightarrow> (string \<times> string) list" where
  "named fls = map (\<lambda>kv. (TrimPrefix (fst kv) ''-'', snd kv)) fls"

definition set_to :: "flagset \<Rightarrow> string \<Rightarrow> string \<Rightarrow> string option" where
  "set_to fs n v = map_option (\<lambda>f. projr (flSet f v)) (Lookup fs n)"

lemma SetFlag_value:
  assumes "SetFlag k v fs = Inr fs'"
  shows "flag_value fs' n = (if n = k then set_to fs k v else flag_value fs n)"
proof -
  obtain f where f: "Lookup fs k = Some f" "set_value f v fs = Inr fs'"
    using assms by (auto simp: SetFlag_def split: option.splits)
  have "flName f = k" using Lookup_Some [OF f(1)] by simp
  then show ?thesis using set_value_Lookup [OF f(2), of n] f(1) by (simp add: flag_value_def set_to_def)
qed

lemma set_to_same: "same_flags fs fs' \<Longrightarrow> set_to fs' n v = set_to fs n v"
  by (erule same_flags_cases [where n = n]) (simp_all add: set_to_def)

lemma job_flags_value:
  assumes "job_flags m order fs = Inr fs'" and "distinct (map fst (named order))"
  shows "flag_value fs' n = (case map_of (named order) n of Some v \<Rightarrow> set_to fs n v | None \<Rightarrow> flag_value fs n)"
  using assms
proof (induction order arbitrary: fs)
  case (Cons kv order)
  obtain k v where kv: "kv = (k, v)" by (cases kv)
  let ?k = "TrimPrefix k ''-''"
  obtain fs1 where fs1: "SetFlag ?k v fs = Inr fs1" "job_flags m order fs1 = Inr fs'"
    using Cons.prems(1) by (auto simp: kv Let_def split: option.splits sum.splits)
  have d: "distinct (map fst (named order))" and nk: "map_of (named order) ?k = None"
    using Cons.prems(2) by (simp_all add: kv named_def map_of_eq_None_iff image_image comp_def)
  have "set_to fs1 n w = set_to fs n w" for w by (rule set_to_same [OF same_flags_SetFlag [OF fs1(1)]])
  then have "flag_value fs' n = (case map_of (named order) n of Some v \<Rightarrow> set_to fs n v | None \<Rightarrow> flag_value fs1 n)"
    using Cons.IH [OF fs1(2) d] by (simp cong: option.case_cong)
  then show ?case using SetFlag_value [OF fs1(1), of n] nk by (auto simp: kv named_def split: option.split)
qed (simp add: named_def)

lemma map_of_named_cong:
  assumes "set order = set fls" and "distinct (map fst (named order))" and "distinct (map fst (named fls))"
  shows "map_of (named order) = map_of (named fls)"
proof -
  have "set (named order) = set (named fls)" using assms(1) by (simp add: named_def)
  then show ?thesis using map_of_inject_set [OF assms(2,3)] by simp
qed

text \<open>C10: Running a job in a child process: for a job with flags its backend knows, boolean ones only
  true and others not the text \<open>true\<close>, and a source that is not an option, the command line the
  daemon builds, in any order of the flags, is read back as the same method, source, destination
  and flag values; without a section for the method in the configuration, the child runs the same
  backend call as the in-process executor.\<close>

theorem executor_roundtrip:
  assumes "registry_wf reg" and "GetMethod reg (jMethod job) = Some m" and "setup_flags cfg m = Inr fs0"
    and "set order = set (jFlags job)" and "distinct (map fst (named order))" and "distinct (map fst (named (jFlags job)))"
    and "\<And>kv. kv \<in> set (jFlags job) \<Longrightarrow> known_flag fs0 kv \<and> passes fs0 kv"
    and "positional (jSource job)" and "switch_to_git reg probe m (jSource job) = None"
  shows "\<exists>fs. resolve reg probe cfg (command_args order job) = Inr \<lparr>invMethod = m, invFlags = fs, invSource = jSource job,
        invDest = jDestDir job, invDetected = False, invDefaultDest = False\<rparr>
     \<and> (\<forall>n. flag_value fs n = (case map_of (named (jFlags job)) n of Some v \<Rightarrow> set_to fs0 n v | None \<Rightarrow> flag_value fs0 n))
     \<and> (map_of (cfgMethods cfg) (mName m) = None \<longrightarrow>
          snd (run_in_process reg order job) = mRun m (flag_value fs) (jSource job) (jDestDir job))"
proof -
  have mn: "mName m = jMethod job" "jMethod job \<noteq> []" using GetMethod_Some [OF assms(1,2)] by auto
  have kf: "known_flag fs0 kv \<and> passes fs0 kv" if "kv \<in> set order" for kv using that assms(4,7) by blast
  obtain fs where fs: "job_flags m order fs0 = Inr fs"
      "ParseFlags (concat (map flag_args order) @ jSource job # [jDestDir job]) fs0 = Inr ([jSource job, jDestDir job], fs)"
    using Parse_flag_args [OF kf assms(8), where rest = "[jDestDir job]" and m = m] by auto
  have "resolve reg probe cfg (command_args order job)
      = resolve_method reg probe cfg m None (concat (map flag_args order) @ jSource job # [jDestDir job])"
    using mn assms(2) by (simp add: resolve_def command_args_def)
  also have "\<dots> = Inr \<lparr>invMethod = m, invFlags = fs, invSource = jSource job,
        invDest = jDestDir job, invDetected = False, invDefaultDest = False\<rparr>"
    using assms(3,9) fs(2) by (simp add: resolve_method_def choose_dest_def Let_def)
  finally have r: "resolve reg probe cfg (command_args order job) = \<dots>" .
  have v: "flag_value fs n = (case map_of (named (jFlags job)) n of Some v \<Rightarrow> set_to fs0 n v | None \<Rightarrow> flag_value fs0 n)" for n
    using job_flags_value [OF fs(1) assms(5)] map_of_named_cong [OF assms(4-6)] by simp
  have "snd (run_in_process reg order job) = mRun m (flag_value fs) (jSource job) (jDestDir job)"
    if "map_of (cfgMethods cfg) (mName m) = None"
  proof -
    have "fs0 = NewFlagSet (mName m) (mFlags m)" using assms(3) that by (simp add: setup_flags_def Let_def)
    then show ?thesis using fs(1) assms(2)
      by (simp add: run_in_process_def Let_def split: run_result.split)
  qed
  then show ?thesis using r v by (intro exI [of _ fs] conjI allI impI) simp_all
qed

definition off_flag :: "flagset \<Rightarrow> string \<times> string \<Rightarrow> bool" where
  "off_flag fs kv \<longleftrightarrow> snd kv = ''false'' \<and> (\<exists>f. Lookup fs (TrimPrefix (fst kv) ''-'') = Some f \<and> flBool f
     \<and> \<not> isl (flSet f ''true''))"

lemma same_flags_off: "same_flags fs fs' \<Longrightarrow> off_flag fs' kv = off_flag fs kv"
  by (erule same_flags_cases [where n = "TrimPrefix (fst kv) ''-''"]) (simp_all add: off_flag_def)

lemma Parse_off_flag:
  assumes "\<And>kv. kv \<in> set order \<Longrightarrow> known_flag fs kv \<and> (passes fs kv \<or> off_flag fs kv)"
    and "\<exists>kv \<in> set order. off_flag fs kv"
  shows "\<exists>rest fs'. ParseFlags (concat (map flag_args order) @ [s, t]) fs = Inr (rest, fs') \<and> 2 < length rest"
  using assms
proof (induction order arbitrary: fs)
  case (Cons kv order)
  obtain k v where kv: "kv = (k, v)" by (cases kv)
  let ?n = "TrimPrefix k ''-''"
  have kf: "known_flag fs (k, v)" using Cons.prems(1) [of kv] kv by auto
  obtain f where f: "Lookup fs ?n = Some f" and pn: "plain_name ?n" using kf by (auto simp: known_flag_def)
  obtain fs1 where fs1: "SetFlag ?n v fs = Inr fs1" "same_flags fs fs1" by (rule known_set [OF kf])
  show ?case
  proof (cases "off_flag fs (k, v)")
    case True
    then have v: "v = ''false''" "flBool f" "\<not> isl (flSet f ''true'')" using f by (auto simp: off_flag_def)
    then obtain fs2 where fs2: "SetFlag ?n ''true'' fs = Inr fs2"
      using f by (cases "flSet f ''true''") (simp_all add: SetFlag_def set_value_def)
    have "ParseFlags (flag_args (k, v) @ args) fs = Inr (''false'' # args, fs2)" for args
      using Parse_flag(1) [OF pn f v(2) fs2, of "''false'' # args"] v(1) by (simp add: flag_args_def Let_def)
    then show ?thesis by (simp add: kv)
  next
    case False
    then have ps: "passes fs (k, v)" using Cons.prems(1) [of kv] kv by auto
    have "ParseFlags (flag_args (k, v) @ args) fs = ParseFlags args fs1" for args
    proof (cases "flBool f")
      case True
      then have "v = ''true''" using ps f by (auto simp: passes_def is_bool_flag_def)
      then show ?thesis using Parse_flag(1) [OF pn f True, of fs1 args] fs1(1) by (simp add: flag_args_def Let_def)
    next
      case False
      then have "v \<noteq> ''true''" using ps f by (auto simp: passes_def is_bool_flag_def)
      then show ?thesis using Parse_flag(2) [OF pn f False, of v fs1 args] fs1(1) by (simp add: flag_args_def Let_def)
    qed
    moreover have "\<exists>rest fs'. ParseFlags (concat (map flag_args order) @ [s, t]) fs1 = Inr (rest, fs') \<and> 2 < length rest"
    proof (rule Cons.IH)
      show "known_flag fs1 kv' \<and> (passes fs1 kv' \<or> off_flag fs1 kv')" if "kv' \<in> set order" for kv'
        using Cons.prems(1) [of kv'] that
        by (simp add: same_flags_known [OF fs1(2)] same_flags_passes [OF fs1(2)] same_flags_off [OF fs1(2)])
      show "\<exists>kv \<in> set order. off_flag fs1 kv"
        using Cons.prems(2) False kv by (simp add: same_flags_off [OF fs1(2)])
    qed
    ultimately show ?thesis by (simp add: kv)
  qed
qed simp

lemma setup_flags_same: "setup_flags cfg m = Inr fs \<Longrightarrow> same_flags (NewFlagSet (mName m) (mFlags m)) fs"
proof -
  have "config_flags meth fls fs1 = Inr fs2 \<Longrightarrow> same_flags fs1 fs2" for meth fls fs1 fs2
    by (induction meth fls fs1 rule: config_flags.induct)
       (auto split: option.splits sum.splits intro: same_flags_trans [OF same_flags_SetFlag])
  then show "setup_flags cfg m = Inr fs \<Longrightarrow> same_flags (NewFlagSet (mName m) (mFlags m)) fs"
    by (auto simp: setup_flags_def Let_def split: option.splits)
qed

lemma job_flags_known:
  "(\<And>kv. kv \<in> set order \<Longrightarrow> known_flag fs kv) \<Longrightarrow> \<exists>fs'. job_flags m order fs = Inr fs'"
proof (induction order arbitrary: fs)
  case (Cons kv order)
  obtain k v where kv: "kv = (k, v)" by (cases kv)
  have kf: "known_flag fs (k, v)" using Cons.prems [of kv] kv by simp
  obtain fs1 where fs1: "SetFlag (TrimPrefix k ''-'') v fs = Inr fs1" "same_flags fs fs1" by (rule known_set [OF kf])
  have "\<exists>fs'. job_flags m order fs1 = Inr fs'"
    by (rule Cons.IH) (use Cons.prems same_flags_known [OF fs1(2)] in auto)
  then show ?case using fs1(1) kf by (auto simp: kv Let_def known_flag_def)
qed simp

text \<open>A boolean flag turned off: the executor writes it as two arguments, the parser reads the first
  as turning the flag on and the second as the source, and the child stops with a usage error; so a job
  with such a flag always fails in a child process, while the in-process executor runs it.\<close>

theorem executor_off_flag:
  assumes "registry_wf reg" and "GetMethod reg (jMethod job) = Some m" and "setup_flags cfg m = Inr fs0"
    and "set order = set (jFlags job)"
    and "\<And>kv. kv \<in> set (jFlags job) \<Longrightarrow> known_flag fs0 kv \<and> (passes fs0 kv \<or> off_flag fs0 kv)"
    and "\<exists>kv \<in> set (jFlags job). off_flag fs0 kv"
  shows "resolve reg probe cfg (command_args order job) = Inl CliUsage
    \<and> (\<exists>fs. snd (run_in_process reg order job) = mRun m (flag_value fs) (jSource job) (jDestDir job))"
proof
  have mn: "mName m = jMethod job" "jMethod job \<noteq> []" using GetMethod_Some [OF assms(1,2)] by auto
  have kf: "known_flag fs0 kv \<and> (passes fs0 kv \<or> off_flag fs0 kv)" if "kv \<in> set order" for kv
    using that assms(4,5) by blast
  have ex: "\<exists>kv \<in> set order. off_flag fs0 kv" using assms(4,6) by blast
  obtain rest fs where p: "ParseFlags (concat (map flag_args order) @ [jSource job, jDestDir job]) fs0 = Inr (rest, fs)" "2 < length rest"
    using Parse_off_flag [OF kf ex, of "jSource job" "jDestDir job"] by blast
  have "resolve reg probe cfg (command_args order job)
      = resolve_method reg probe cfg m None (concat (map flag_args order) @ [jSource job, jDestDir job])"
    using mn assms(2) by (simp add: resolve_def command_args_def)
  then show "resolve reg probe cfg (command_args order job) = Inl CliUsage"
    using assms(3) p by (simp add: resolve_method_def)
  have "known_flag (NewFlagSet (mName m) (mFlags m)) kv" if "kv \<in> set order" for kv
    using kf [OF that] same_flags_known [OF setup_flags_same [OF assms(3)], of kv] by simp
  then obtain fs' where "job_flags m order (NewFlagSet (mName m) (mFlags m)) = Inr fs'"
    using job_flags_known by blast
  then show "\<exists>fs. snd (run_in_process reg order job) = mRun m (flag_value fs) (jSource job) (jDestDir job)"
    using assms(2) by (intro exI [of _ fs']) (simp add: run_in_process_def Let_def split: run_result.split)
qed

text \<open>A source that looks like an option: it is accepted by the daemon, and the child process takes
  \<open>-name=value\<close> as the flag \<open>name\<close> and the destination directory as the source.\<close>

theorem executor_source_option:
  assumes "registry_wf reg" and "GetMethod reg (jMethod job) = Some m" and "setup_flags cfg m = Inr fs0"
    and "jFlags job = []" and "jSource job = ''-'' @ n @ ''='' @ v" and "known_flag fs0 (n, v)" and "\<not> HasPrefix n ''-''"
    and "positional (jDestDir job)" and "switch_to_git reg probe m (jDestDir job) = None"
  shows "\<exists>fs. flag_value fs n = set_to fs0 n v \<and> resolve reg probe cfg (command_args [] job) =
      (case choose_dest cfg m (jDestDir job) [jDestDir job] (map_of (cfgMethods cfg) (mName m)) of
         Inl e \<Rightarrow> Inl e
       | Inr (dest, def) \<Rightarrow> Inr \<lparr>invMethod = m, invFlags = fs, invSource = jDestDir job,
           invDest = dest, invDetected = False, invDefaultDest = def\<rparr>)"
proof -
  have mn: "mName m = jMethod job" "jMethod job \<noteq> []" using GetMethod_Some [OF assms(1,2)] by auto
  have tn: "TrimPrefix n ''-'' = n" using assms(7) by (simp add: TrimPrefix_def)
  then obtain f where f: "Lookup fs0 n = Some f" and pn: "plain_name n" using assms(6) by (auto simp: known_flag_def)
  obtain fs where fs: "SetFlag n v fs0 = Inr fs" using known_set [OF assms(6)] tn by metis
  then have sv: "set_value f v fs0 = Inr fs" using f by (simp add: SetFlag_def)
  obtain c cs where n: "n = c # cs" "c \<noteq> CHR ''-''" "c \<noteq> CHR ''=''" "CHR ''='' \<notin> set cs"
    using pn by (cases n) (auto simp: plain_name_def)
  have "IndexByte (cs @ CHR ''='' # v) (CHR ''='') = Some (length cs)"
    using n(4) by (induction cs) auto
  then have "split_flag (c # cs @ CHR ''='' # v) = (n, Some v)"
    by (simp add: split_flag_def n(1))
  then have "ParseFlags (jSource job # [jDestDir job]) fs0 = ParseFlags [jDestDir job] fs"
    using n(1-3) f sv assms(5) by simp
  also have "\<dots> = Inr ([jDestDir job], fs)"
    using ParseFlags_positional assms(8) by (simp add: positional_def)
  finally have p: "ParseFlags [jSource job, jDestDir job] fs0 = Inr ([jDestDir job], fs)" .
  have "resolve reg probe cfg (command_args [] job) = resolve_method reg probe cfg m None [jSource job, jDestDir job]"
    using mn assms(2) by (simp add: resolve_def command_args_def)
  then have "resolve reg probe cfg (command_args [] job) =
      (case choose_dest cfg m (jDestDir job) [jDestDir job] (map_of (cfgMethods cfg) (mName m)) of
         Inl e \<Rightarrow> Inl e
       | Inr (dest, def) \<Rightarrow> Inr \<lparr>invMethod = m, invFlags = fs, invSource = jDestDir job,
           invDest = dest, invDetected = False, invDefaultDest = def\<rparr>)"
    using assms(3,9) p by (simp add: resolve_method_def Let_def del: ParseFlags.simps cong: sum.case_cong prod.case_cong)
  then show ?thesis using SetFlag_value [OF fs, of n] by auto
qed

lemma choose_dest_cases:
  assumes "choose_dest cfg m source rest mc = Inr (dest, def)"
  shows "(length rest = 2 \<and> dest = rest ! 1 \<and> \<not> def)
    \<or> (length rest \<noteq> 2 \<and> def \<and> (\<exists>x. mc = Some x \<and> mcDestDir x \<noteq> [] \<and> dest = mcDestDir x))
    \<or> (length rest \<noteq> 2 \<and> def \<and> cfgDestDir cfg \<noteq> [] \<and> path_under (cfgDestDir cfg) dest)"
  using assms
  by (auto simp: choose_dest_def Let_def under_JoinPath_local split: if_splits option.splits)

lemma resolve_method_dest:
  assumes "resolve_method reg probe cfg m detected args = Inr iv" and "invDefaultDest iv"
  shows "(\<exists>mc. map_of (cfgMethods cfg) (mName (invMethod iv)) = Some mc \<and> mcDestDir mc \<noteq> [] \<and> invDest iv = mcDestDir mc)
    \<or> (cfgDestDir cfg \<noteq> [] \<and> path_under (cfgDestDir cfg) (invDest iv))"
  using assms
  by (auto simp: resolve_method_def Let_def split: sum.splits parse_error.splits prod.splits if_splits option.splits
      dest!: choose_dest_cases)

text \<open>The default destination: when the command line names none, the files go to the directory of
  the method's section, or to a directory below the configured default.\<close>

theorem resolve_dest_confined:
  assumes "resolve reg probe cfg args = Inr iv" and "invDefaultDest iv"
  shows "(\<exists>mc. map_of (cfgMethods cfg) (mName (invMethod iv)) = Some mc \<and> mcDestDir mc \<noteq> [] \<and> invDest iv = mcDestDir mc)
    \<or> (cfgDestDir cfg \<noteq> [] \<and> path_under (cfgDestDir cfg) (invDest iv))"
  using assms
  by (auto simp: resolve_def split: option.splits dest!: resolve_method_dest)

subsection \<open>Witnesses\<close>

definition demo_config :: config where
  "demo_config = (default_config demo_env)\<lparr>cfgDestDir := ''/srv/mirror''\<rparr>"

definition demo_job :: "string \<Rightarrow> smap \<Rightarrow> job" where
  "demo_job source fls = new_job\<lparr>jMethod := ''gphotos'', jSource := source, jDestDir := ''/photos'', jFlags := fls\<rparr>"

definition gphotos_flags :: flagset where
  "gphotos_flags = NewFlagSet ''gphotos'' [string_flag ''cookies'' ''cookies.txt'', bool_flag ''companions'' True]"

definition gphotos_method :: mirror_method where
  "gphotos_method = demo_method ''gphotos'' None False [string_flag ''cookies'' ''cookies.txt'', bool_flag ''companions'' True]"

lemma demo_wf: "registry_wf demo_registry"
  using register_all_wf [OF demo_registered] by simp

lemma demo_gphotos: "GetMethod demo_registry ''gphotos'' = Some gphotos_method"
  by (simp add: GetMethod_def demo_methods_def demo_method_def gphotos_method_def)

lemma demo_setup: "setup_flags demo_config gphotos_method = Inr gphotos_flags"
  by (simp add: setup_flags_def demo_config_def default_config_def gphotos_flags_def gphotos_method_def demo_method_def)

lemma gphotos_known:
  "known_flag gphotos_flags (''companions'', ''true'')" "known_flag gphotos_flags (''companions'', ''false'')"
  "known_flag gphotos_flags (''cookies'', v)" "off_flag gphotos_flags (''companions'', ''false'')"
  "passes gphotos_flags (''companions'', ''true'')" "v \<noteq> ''true'' \<Longrightarrow> passes gphotos_flags (''cookies'', v)"
  by (simp_all add: known_flag_def off_flag_def passes_def is_bool_flag_def plain_name_def gphotos_flags_def NewFlagSet_def
      Lookup_def string_flag_def bool_flag_def set_bool_def TrimPrefix_def HasPrefix_def)

theorem executor_roundtrip_witness:
  "\<exists>fs. resolve demo_registry (\<lambda>_. False) demo_config (command_args [(''cookies'', ''c.txt''), (''companions'', ''true'')]
       (demo_job ''me@x'' [(''companions'', ''true''), (''cookies'', ''c.txt'')])) = Inr \<lparr>invMethod = gphotos_method, invFlags = fs,
       invSource = ''me@x'', invDest = ''/photos'', invDetected = False, invDefaultDest = False\<rparr>"
proof -
  let ?j = "demo_job ''me@x'' [(''companions'', ''true''), (''cookies'', ''c.txt'')]"
  have j: "jMethod ?j = ''gphotos''" "jSource ?j = ''me@x''" "jDestDir ?j = ''/photos''"
      "jFlags ?j = [(''companions'', ''true''), (''cookies'', ''c.txt'')]" by (simp_all add: demo_job_def)
  have "\<exists>fs. resolve demo_registry (\<lambda>_. False) demo_config (command_args [(''cookies'', ''c.txt''), (''companions'', ''true'')] ?j)
       = Inr \<lparr>invMethod = gphotos_method, invFlags = fs, invSource = jSource ?j, invDest = jDestDir ?j,
          invDetected = False, invDefaultDest = False\<rparr>
     \<and> (\<forall>n. flag_value fs n = (case map_of (named (jFlags ?j)) n of Some v \<Rightarrow> set_to gphotos_flags n v | None \<Rightarrow> flag_value gphotos_flags n))
     \<and> (map_of (cfgMethods demo_config) (mName gphotos_method) = None \<longrightarrow>
          snd (run_in_process demo_registry [(''cookies'', ''c.txt''), (''companions'', ''true'')] ?j)
            = mRun gphotos_method (flag_value fs) (jSource ?j) (jDestDir ?j))"
  proof (rule executor_roundtrip [OF demo_wf])
    show "GetMethod demo_registry (jMethod ?j) = Some gphotos_method" by (simp add: j demo_gphotos)
    show "setup_flags demo_config gphotos_method = Inr gphotos_flags" by (rule demo_setup)
    show "known_flag gphotos_flags kv \<and> passes gphotos_flags kv" if "kv \<in> set (jFlags ?j)" for kv
      using that gphotos_known by (auto simp: j)
    show "switch_to_git demo_registry (\<lambda>_. False) gphotos_method (jSource ?j) = None"
      by (simp add: switch_to_git_def gphotos_method_def demo_method_def)
  qed (auto simp: j named_def TrimPrefix_def HasPrefix_def positional_def)
  then show ?thesis unfolding j by blast
qed

text \<open>The job \<open>mirror submit gphotos -companions=false me@x /photos\<close> sends to the daemon.\<close>

theorem executor_off_flag_witness:
  "sFlags (submit_of (projr (resolve demo_registry (\<lambda>_. False) demo_config
      [''gphotos'', ''-companions=false'', ''me@x'', ''/photos'']))) = [(''companions'', ''false'')]
   \<and> resolve demo_registry (\<lambda>_. False) demo_config
       (command_args [(''companions'', ''false'')] (demo_job ''me@x'' [(''companions'', ''false'')])) = Inl CliUsage"
proof
  show "sFlags (submit_of (projr (resolve demo_registry (\<lambda>_. False) demo_config
      [''gphotos'', ''-companions=false'', ''me@x'', ''/photos'']))) = [(''companions'', ''false'')]"
    by code_simp
  let ?j = "demo_job ''me@x'' [(''companions'', ''false'')]"
  have j: "jMethod ?j = ''gphotos''" "jFlags ?j = [(''companions'', ''false'')]" by (simp_all add: demo_job_def)
  show "resolve demo_registry (\<lambda>_. False) demo_config (command_args [(''companions'', ''false'')] ?j) = Inl CliUsage"
  proof (rule executor_off_flag [THEN conjunct1, OF demo_wf _ demo_setup])
    show "GetMethod demo_registry (jMethod ?j) = Some gphotos_method" by (simp add: j demo_gphotos)
  qed (use gphotos_known j in auto)
qed

theorem executor_source_option_witness:
  "\<exists>fs. resolve demo_registry (\<lambda>_. False) demo_config (command_args [] (demo_job ''-cookies=/etc/x'' []))
     = Inr \<lparr>invMethod = gphotos_method, invFlags = fs, invSource = ''/photos'',
           invDest = ''/srv/mirror'', invDetected = False, invDefaultDest = True\<rparr>"
proof -
  let ?j = "demo_job ''-cookies=/etc/x'' []"
  have j: "jMethod ?j = ''gphotos''" "jDestDir ?j = ''/photos''" "jFlags ?j = []" "jSource ?j = ''-'' @ ''cookies'' @ ''='' @ ''/etc/x''"
    by (simp_all add: demo_job_def)
  have c: "choose_dest demo_config gphotos_method ''/photos'' [''/photos''] (map_of (cfgMethods demo_config) (mName gphotos_method))
      = Inr (''/srv/mirror'', True)"
    by (simp add: choose_dest_def demo_config_def default_config_def gphotos_method_def demo_method_def)
  show ?thesis
    using executor_source_option [OF demo_wf _ demo_setup j(3) j(4), of "\<lambda>_. False"] gphotos_known(3) demo_gphotos c j
    by (auto simp: HasPrefix_def positional_def switch_to_git_def gphotos_method_def demo_method_def)
qed

theorem resolve_dest_confined_witness:
  "path_under ''/srv/mirror'' (invDest (projr (resolve demo_registry (\<lambda>_. False) demo_config [''gphotos'', ''me@x''])))"
proof -
  have "\<not> isl (resolve demo_registry (\<lambda>_. False) demo_config [''gphotos'', ''me@x''])"
    "invDefaultDest (projr (resolve demo_registry (\<lambda>_. False) demo_config [''gphotos'', ''me@x'']))" by code_simp+
  then show ?thesis
    using resolve_dest_confined [of demo_registry "\<lambda>_. False" demo_config "[''gphotos'', ''me@x'']"]
    by (cases "resolve demo_registry (\<lambda>_. False) demo_config [''gphotos'', ''me@x'']")
       (auto simp: demo_config_def default_config_def)
qed

end
