(* ===== verification/Store.thy ===== *)
theory Store
  imports Job
begin

text \<open>
  \<open>internal/daemon/store.go\<close>: the SQLite job store. A database is the content of its three tables,
  the \<open>AUTOINCREMENT\<close> counters and a schedule of driver failures: every call of the driver
  (\<open>Exec\<close>, \<open>Query\<close> with its \<open>Scan\<close>, \<open>BeginTx\<close>, \<open>Commit\<close>) takes the next entry of \<open>faults\<close>, and
  \<open>Some e\<close> makes that call fail with \<open>e\<close> and no effect. An exhausted schedule means no more
  failures, so a statement over all databases covers every failure pattern. Each SQL statement of
  the source is its effect on the rows; a transaction writes at its \<open>Commit\<close>.
\<close>

subsection \<open>Tables\<close>

record row =
  rID :: int
  rMethod :: string
  rSource :: string
  rDestDir :: string
  rFlagsJSON :: string
  rState :: state
  rPriority :: int
  rCreatedAt :: time
  rStartedAt :: "time option"
  rFinishedAt :: "time option"
  rRetryCount :: int
  rMaxRetries :: int
  rLastError :: "string option"
  rQuarantineReason :: "string option"
  rSite :: string
  rPath :: string

record db =
  jobs :: "row list"               \<comment> \<open>table \<open>jobs\<close>, in row id order\<close>
  job_logs :: "job_log list"       \<comment> \<open>table \<open>job_logs\<close>\<close>
  queue_state :: "(string \<times> string) list"   \<comment> \<open>table \<open>queue_state\<close>, one value per key\<close>
  jobs_seq :: int                  \<comment> \<open>largest job id ever given\<close>
  logs_seq :: int
  faults :: "string option list"   \<comment> \<open>what the next driver calls do\<close>

definition empty_db :: db where
  "empty_db = \<lparr>jobs = [], job_logs = [], queue_state = [], jobs_seq = 0, logs_seq = 0, faults = []\<rparr>"

type_synonym 'a op = "db \<Rightarrow> 'a result \<times> db"

subsection \<open>Driver calls\<close>

definition tick :: "db \<Rightarrow> string option \<times> db" where
  "tick d = (case faults d of [] \<Rightarrow> (None, d) | f # fs \<Rightarrow> (f, d\<lparr>faults := fs\<rparr>))"

definition driver :: "'a op \<Rightarrow> 'a op" where
  "driver k d = (case tick d of (Some e, d') \<Rightarrow> (Inl (ErrDb e), d') | (None, d') \<Rightarrow> k d')"

text \<open>\<open>UPDATE jobs SET ... WHERE ...\<close> with the number of affected rows, and \<open>DELETE\<close>, which
  removes the logs of the deleted jobs (\<open>ON DELETE CASCADE\<close>).\<close>

definition exec_update :: "(row \<Rightarrow> bool) \<Rightarrow> (row \<Rightarrow> row) \<Rightarrow> nat op" where
  "exec_update P f = driver (\<lambda>d.
     (Inr (length (filter P (jobs d))), d\<lparr>jobs := map_where P f (jobs d)\<rparr>))"

definition exec_delete :: "(row \<Rightarrow> bool) \<Rightarrow> nat op" where
  "exec_delete P = driver (\<lambda>d.
     (Inr (length (filter P (jobs d))),
      d\<lparr>jobs := filter (\<lambda>r. \<not> P r) (jobs d),
        job_logs := filter (\<lambda>l. \<not> (\<exists>r \<in> set (jobs d). P r \<and> rID r = lJobID l)) (job_logs d)\<rparr>))"

definition find_row :: "int \<Rightarrow> db \<Rightarrow> row option" where
  "find_row i d = find (\<lambda>r. rID r = i) (jobs d)"

definition on_id :: "int \<Rightarrow> row \<Rightarrow> bool" where
  "on_id i r \<longleftrightarrow> rID r = i"

text \<open>The text of an error, for the messages that wrap it.\<close>

fun err_text :: "err \<Rightarrow> string" where
  "err_text ErrJobNotFound = ''job not found''"
| "err_text ErrQueueEmpty = ''no jobs available in queue''"
| "err_text (ErrDb e) = e"
| "err_text (ErrMsg e) = e"

definition wrap_err :: "string \<Rightarrow> 'a result \<Rightarrow> 'a result" where
  "wrap_err msg r = (case r of Inl e \<Rightarrow> Inl (ErrMsg (msg @ err_text e)) | Inr a \<Rightarrow> Inr a)"

subsection \<open>Reading a row\<close>

text \<open>\<open>scanJob\<close> and \<open>scanJobRow\<close>: \<open>COALESCE\<close> turns a null error or reason into the empty text.\<close>

definition coalesce :: "string option \<Rightarrow> string" where
  "coalesce t = (case t of None \<Rightarrow> [] | Some s \<Rightarrow> s)"

definition scanJob :: "row \<Rightarrow> job" where
  "scanJob r = SetFlagsJSON (rFlagsJSON r)
     \<lparr>jID = rID r, jMethod = rMethod r, jSource = rSource r, jDestDir = rDestDir r, jFlags = [],
      jState = rState r, jPriority = rPriority r, jCreatedAt = rCreatedAt r,
      jStartedAt = rStartedAt r, jFinishedAt = rFinishedAt r, jRetryCount = rRetryCount r,
      jMaxRetries = rMaxRetries r, jLastError = coalesce (rLastError r),
      jQuarantineReason = coalesce (rQuarantineReason r), jSite = rSite r, jPath = rPath r\<rparr>"

subsection \<open>Operations\<close>

text \<open>The backfill of \<open>OpenStore\<close>: rows without a site or a path get both from their source.
  A row whose \<open>UPDATE\<close> fails is left as it is, and a failing \<open>SELECT\<close> skips the whole step.\<close>

fun backfill_items :: "row list \<Rightarrow> db \<Rightarrow> db" where
  "backfill_items [] d = d"
| "backfill_items (it # its) d =
     backfill_items its (snd (exec_update (on_id (rID it))
       (\<lambda>r. r\<lparr>rSite := ExtractRoot (rSource it) (rMethod it), rPath := ExtractPath (rSource it)\<rparr>) d))"

definition OpenStore_backfill :: "db \<Rightarrow> db" where
  "OpenStore_backfill d = (case tick d of
       (Some e, d') \<Rightarrow> d'
     | (None, d') \<Rightarrow> backfill_items (filter (\<lambda>r. rSite r = [] \<or> rPath r = []) (jobs d')) d')"

definition RecoverOrphanedJobs :: "time \<Rightarrow> db \<Rightarrow> (nat \<times> err option) \<times> db" where
  "RecoverOrphanedJobs now d =
    (case exec_update (\<lambda>r. rState r = StateRunning \<and> rRetryCount r < rMaxRetries r)
            (\<lambda>r. r\<lparr>rState := StateQueued, rRetryCount := rRetryCount r + 1,
                   rLastError := Some ''daemon restarted while job was running'',
                   rFinishedAt := Some now\<rparr>) d of
       (Inl e, d1) \<Rightarrow> ((0, Some e), d1)
     | (Inr recovered, d1) \<Rightarrow>
        (case exec_update (\<lambda>r. rState r = StateRunning)
                (\<lambda>r. r\<lparr>rState := StateQuarantined,
                       rQuarantineReason := Some ''daemon restarted and max retries exceeded'',
                       rFinishedAt := Some now\<rparr>) d1 of
           (Inl e, d2) \<Rightarrow> ((recovered, Some e), d2)
         | (Inr _, d2) \<Rightarrow> ((recovered, None), d2)))"

definition enqueue_defaults :: "time \<Rightarrow> job \<Rightarrow> job" where
  "enqueue_defaults now j0 =
    (let j1 = (if jCreatedAt j0 = zero_time then j0\<lparr>jCreatedAt := now\<rparr> else j0);
         j2 = (if jState j1 = [] then j1\<lparr>jState := StateQueued\<rparr> else j1);
         j3 = (if jMaxRetries j2 \<le> 0 then j2\<lparr>jMaxRetries := 3\<rparr> else j2);
         j4 = (if jSite j3 = [] then j3\<lparr>jSite := ExtractRoot (jSource j3) (jMethod j3)\<rparr> else j3)
     in if jPath j4 = [] then j4\<lparr>jPath := ExtractPath (jSource j4)\<rparr> else j4)"

definition insert_row :: "job \<Rightarrow> int \<Rightarrow> row" where
  "insert_row j i = \<lparr>rID = i, rMethod = jMethod j, rSource = jSource j, rDestDir = jDestDir j,
     rFlagsJSON = FlagsJSON j, rState = jState j, rPriority = jPriority j, rCreatedAt = jCreatedAt j,
     rStartedAt = None, rFinishedAt = None, rRetryCount = jRetryCount j,
     rMaxRetries = jMaxRetries j, rLastError = None, rQuarantineReason = None,
     rSite = jSite j, rPath = jPath j\<rparr>"

definition EnqueueJob :: "time \<Rightarrow> job \<Rightarrow> job op" where
  "EnqueueJob now job d =
    (let j = enqueue_defaults now job in
     case driver (\<lambda>d. (Inr (), d\<lparr>jobs := jobs d @ [insert_row j (jobs_seq d + 1)],
                                 jobs_seq := jobs_seq d + 1\<rparr>)) d of
       (Inl e, d1) \<Rightarrow> (Inl (ErrMsg (''inserting job: '' @ err_text e)), d1)
     | (Inr _, d1) \<Rightarrow> driver (\<lambda>d. (Inr (j\<lparr>jID := jobs_seq d\<rparr>), d)) d1)"

definition GetJob :: "int \<Rightarrow> job op" where
  "GetJob i = driver (\<lambda>d. ((case find_row i d of
       None \<Rightarrow> Inl ErrJobNotFound | Some r \<Rightarrow> Inr (scanJob r)), d))"

text \<open>The \<open>ORDER BY\<close> of \<open>ClaimNextJob\<close>, one comparison per column.\<close>

definition then_by :: "('a \<Rightarrow> 'a \<Rightarrow> bool) \<Rightarrow> ('a \<Rightarrow> 'a \<Rightarrow> bool) \<Rightarrow> 'a \<Rightarrow> 'a \<Rightarrow> bool" where
  "then_by le1 le2 a b \<longleftrightarrow> le1 a b \<and> (le1 b a \<longrightarrow> le2 a b)"

definition busy_site :: "row list \<Rightarrow> string \<Rightarrow> bool" where
  "busy_site js s = list_ex (\<lambda>r. rState r = StateRunning \<and> rSite r = s) js"

definition by_priority :: "row \<Rightarrow> row \<Rightarrow> bool" where
  "by_priority a b \<longleftrightarrow> rPriority b \<le> rPriority a"

definition by_busy :: "row list \<Rightarrow> row \<Rightarrow> row \<Rightarrow> bool" where
  "by_busy js a b \<longleftrightarrow> (busy_site js (rSite a) \<longrightarrow> busy_site js (rSite b))"

definition by_site :: "row \<Rightarrow> row \<Rightarrow> bool" where
  "by_site a b \<longleftrightarrow> str_le (rSite a) (rSite b)"

definition by_path :: "row \<Rightarrow> row \<Rightarrow> bool" where
  "by_path a b \<longleftrightarrow> str_le (rPath a) (rPath b)"

definition by_created :: "row \<Rightarrow> row \<Rightarrow> bool" where
  "by_created a b \<longleftrightarrow> rCreatedAt a \<le> rCreatedAt b"

definition claim_le :: "row list \<Rightarrow> row \<Rightarrow> row \<Rightarrow> bool" where
  "claim_le js = then_by by_priority (then_by (by_busy js) (then_by by_site (then_by by_path by_created)))"

definition next_row :: "db \<Rightarrow> row option" where
  "next_row d = (case sort_by (claim_le (jobs d)) (filter (\<lambda>r. rState r = StateQueued) (jobs d)) of
       [] \<Rightarrow> None | r # _ \<Rightarrow> Some r)"

definition ClaimNextJob :: "time \<Rightarrow> job op" where
  "ClaimNextJob now = driver (\<lambda>d. driver (\<lambda>d.
     (case next_row d of
        None \<Rightarrow> (Inl ErrQueueEmpty, d)
      | Some r \<Rightarrow>
         let job = (scanJob r)\<lparr>jState := StateRunning, jStartedAt := Some now\<rparr> in
         (case driver (\<lambda>d. (Inr (), d)) d of
            (Inl e, d) \<Rightarrow> (Inl (ErrMsg (''claiming job: '' @ err_text e)), d)
          | (Inr _, d) \<Rightarrow> driver (\<lambda>d. (Inr job,
              d\<lparr>jobs := map_where (on_id (jID job))
                  (\<lambda>r. r\<lparr>rState := StateRunning, rStartedAt := Some now\<rparr>) (jobs d)\<rparr>)) d))) d)"

definition FinishJob :: "time \<Rightarrow> int \<Rightarrow> state \<Rightarrow> string \<Rightarrow> unit op" where
  "FinishJob now i st msg d =
    (case exec_update (on_id i)
            (\<lambda>r. r\<lparr>rState := st, rFinishedAt := Some now, rLastError := Some msg\<rparr>) d of
       (Inl e, d1) \<Rightarrow> (Inl e, d1) | (Inr _, d1) \<Rightarrow> (Inr (), d1))"

definition exceeded_msg :: "int \<Rightarrow> string \<Rightarrow> string" where
  "exceeded_msg mx msg = ''exceeded maximum retries ('' @ itoa mx @ ''): '' @ msg"

definition FailAndRetryJob :: "time \<Rightarrow> int \<Rightarrow> string \<Rightarrow> state op" where
  "FailAndRetryJob now i msg = driver (\<lambda>d. driver (\<lambda>d.
     (case find_row i d of
        None \<Rightarrow> (Inl (ErrDb ''sql: no rows in result set''), d)
      | Some r \<Rightarrow>
         let retries = rRetryCount r + 1; mx = rMaxRetries r in
         driver (\<lambda>d. driver (\<lambda>d.
           if mx \<le> retries
           then (Inr StateQuarantined, d\<lparr>jobs := map_where (on_id i)
                   (\<lambda>r. r\<lparr>rState := StateQuarantined, rRetryCount := retries, rLastError := Some msg,
                          rQuarantineReason := Some (exceeded_msg mx msg), rFinishedAt := Some now\<rparr>)
                   (jobs d)\<rparr>)
           else (Inr StateQueued, d\<lparr>jobs := map_where (on_id i)
                   (\<lambda>r. r\<lparr>rState := StateQueued, rRetryCount := retries, rLastError := Some msg\<rparr>)
                   (jobs d)\<rparr>)) d) d)) d)"

definition QuarantineJob :: "time \<Rightarrow> int \<Rightarrow> string \<Rightarrow> unit op" where
  "QuarantineJob now i reason d =
    (case exec_update (on_id i)
            (\<lambda>r. r\<lparr>rState := StateQuarantined, rQuarantineReason := Some reason, rFinishedAt := Some now\<rparr>) d of
       (Inl e, d1) \<Rightarrow> (Inl e, d1)
     | (Inr n, d1) \<Rightarrow> if n = 0 then (Inl ErrJobNotFound, d1) else (Inr (), d1))"

definition UnquarantineJob :: "int \<Rightarrow> unit op" where
  "UnquarantineJob i d =
    (case exec_update (\<lambda>r. rID r = i \<and> rState r = StateQuarantined)
            (\<lambda>r. r\<lparr>rState := StateQueued, rQuarantineReason := Some [], rLastError := Some [],
                   rRetryCount := 0\<rparr>) d of
       (Inl e, d1) \<Rightarrow> (Inl e, d1)
     | (Inr n, d1) \<Rightarrow>
         if n = 0 then (Inl (ErrMsg (''job '' @ itoa i @ '' is not quarantined'')), d1) else (Inr (), d1))"

definition RetryJob :: "int \<Rightarrow> job op" where
  "RetryJob i d =
    (case exec_update (on_id i)
            (\<lambda>r. r\<lparr>rState := StateQueued, rLastError := Some [], rQuarantineReason := Some [],
                   rRetryCount := 0, rStartedAt := None, rFinishedAt := None\<rparr>) d of
       (Inl e, d1) \<Rightarrow> (Inl e, d1)
     | (Inr n, d1) \<Rightarrow> if n = 0 then (Inl ErrJobNotFound, d1) else GetJob i d1)"

definition PauseJob :: "int \<Rightarrow> unit op" where
  "PauseJob i d =
    (case exec_update (\<lambda>r. rID r = i \<and> rState r = StateQueued) (\<lambda>r. r\<lparr>rState := StatePaused\<rparr>) d of
       (Inl e, d1) \<Rightarrow> (Inl e, d1)
     | (Inr n, d1) \<Rightarrow>
         if n = 0
         then (Inl (ErrMsg (''job '' @ itoa i @ '' cannot be paused (only queued jobs can be paused)'')), d1)
         else (Inr (), d1))"

definition ResumeJob :: "int \<Rightarrow> unit op" where
  "ResumeJob i d =
    (case exec_update (\<lambda>r. rID r = i \<and> rState r = StatePaused) (\<lambda>r. r\<lparr>rState := StateQueued\<rparr>) d of
       (Inl e, d1) \<Rightarrow> (Inl e, d1)
     | (Inr n, d1) \<Rightarrow>
         if n = 0 then (Inl (ErrMsg (''job '' @ itoa i @ '' is not paused'')), d1) else (Inr (), d1))"

definition CancelJob :: "time \<Rightarrow> int \<Rightarrow> unit op" where
  "CancelJob now i d =
    (case exec_update (\<lambda>r. rID r = i \<and> rState r \<in> {StateQueued, StateRunning, StatePaused})
            (\<lambda>r. r\<lparr>rState := StateCancelled, rFinishedAt := Some now\<rparr>) d of
       (Inl e, d1) \<Rightarrow> (Inl e, d1)
     | (Inr n, d1) \<Rightarrow>
         if n = 0 then (Inl (ErrMsg (''job '' @ itoa i @ '' cannot be cancelled'')), d1) else (Inr (), d1))"

definition deletable :: "state \<Rightarrow> bool" where
  "deletable s \<longleftrightarrow> s \<in> {StateCompleted, StateFailed, StateCancelled, StateQuarantined}"

definition DeleteJob :: "int \<Rightarrow> unit op" where
  "DeleteJob i d =
    (case exec_delete (\<lambda>r. rID r = i \<and> deletable (rState r)) d of
       (Inl e, d1) \<Rightarrow> (Inl e, d1)
     | (Inr n, d1) \<Rightarrow>
         if n = 0
         then (Inl (ErrMsg (''job '' @ itoa i
                 @ '' cannot be deleted (must be completed, failed, cancelled, or quarantined)'')), d1)
         else (Inr (), d1))"

subsection \<open>Listing\<close>

text \<open>SQLite's \<open>LIKE\<close>: \<open>%\<close> any text, \<open>_\<close> any byte, ASCII letters without case.\<close>

fun like :: "string \<Rightarrow> string \<Rightarrow> bool" where
  "like [] s \<longleftrightarrow> s = []"
| "like (p # ps) s \<longleftrightarrow>
     (if p = CHR ''%'' then list_ex (like ps) (suffixes s)
      else (case s of [] \<Rightarrow> False
            | c # cs \<Rightarrow> (p = CHR ''_'' \<or> lower_char p = lower_char c) \<and> like ps cs))"

definition site_clause :: "string \<Rightarrow> row \<Rightarrow> bool" where
  "site_clause site r =
    (let s = TrimRight site ''/'' in
     if Contains s ''://'' then rSite r = s
     else rSite r = s \<or> rSite r = ''https://'' @ s \<or> rSite r = ''http://'' @ s
          \<or> like (''%://'' @ s) (rSite r))"

definition where_clause :: "job_filter \<Rightarrow> row \<Rightarrow> bool" where
  "where_clause f r \<longleftrightarrow>
     (fStates f \<noteq> [] \<longrightarrow> rState r \<in> set (fStates f)) \<and>
     (fMethod f \<noteq> [] \<longrightarrow> rMethod r = fMethod f) \<and>
     (fSite f \<noteq> [] \<longrightarrow> site_clause (fSite f) r)"

definition by_id :: "row \<Rightarrow> row \<Rightarrow> bool" where
  "by_id a b \<longleftrightarrow> rID a \<le> rID b"

definition by_id_desc :: "row \<Rightarrow> row \<Rightarrow> bool" where
  "by_id_desc a b \<longleftrightarrow> rID b \<le> rID a"

definition order_clause :: "job_filter \<Rightarrow> row \<Rightarrow> row \<Rightarrow> bool" where
  "order_clause f = (if fOrderBy f = ''tree'' then then_by by_site (then_by by_path by_id) else by_id_desc)"

definition limit_clause :: "int \<Rightarrow> int \<Rightarrow> 'a list \<Rightarrow> 'a list" where
  "limit_clause lim off xs =
     (if 0 < lim then take (nat lim) (if 0 < off then drop (nat off) xs else xs) else xs)"

definition matchPrefix :: "string \<Rightarrow> string \<Rightarrow> string \<Rightarrow> string \<Rightarrow> bool" where
  "matchPrefix source site pfx noSlash =
    (if pfx = [] \<or> pfx = ''*'' \<or> pfx = ''all'' then True
     else if source = pfx \<or> source = noSlash then True
     else if site = pfx \<or> site = noSlash then True
     else if HasPrefix source (noSlash @ ''/'') then True
     else (case Parse source of
         Inl _ \<Rightarrow> False
       | Inr u \<Rightarrow>
          if Host u = [] then False
          else if EqualFold (Host u) noSlash \<or> EqualFold (Hostname u) noSlash then True
          else (let siteRoot = Scheme u @ ''://'' @ Host u; hostAndPath = Host u @ Path u in
                EqualFold siteRoot noSlash \<or> HasPrefix source (noSlash @ ''/'')
                \<or> EqualFold hostAndPath noSlash
                \<or> HasPrefix (ToLower hostAndPath) (ToLower noSlash @ ''/''))))"

definition ListJobs :: "job_filter \<Rightarrow> job list op" where
  "ListJobs f = driver (driver (\<lambda>d.
     (Inr (filter (\<lambda>j. fPrefix f = [] \<or> matchPrefix (jSource j) (jSite j) (fPrefix f) (TrimSuffix (fPrefix f) ''/''))
            (map scanJob (limit_clause (fLimit f) (fOffset f)
              (sort_by (order_clause f) (filter (where_clause f) (jobs d)))))), d)))"

definition known_states :: "state list" where
  "known_states = [StateQueued, StateRunning, StatePaused, StateCompleted, StateFailed,
     StateQuarantined, StateCancelled]"

definition count_state :: "row list \<Rightarrow> state \<Rightarrow> nat" where
  "count_state js s = length (filter (\<lambda>r. rState r = s) js)"

definition GetCounts :: "(state \<Rightarrow> nat option) op" where
  "GetCounts = driver (driver (\<lambda>d.
     (Inr (\<lambda>s. if s \<in> set known_states \<or> 0 < count_state (jobs d) s
               then Some (count_state (jobs d) s) else None), d)))"

subsection \<open>Logs\<close>

text \<open>The foreign key makes an insert for an unknown job fail.\<close>

definition AppendLog :: "time \<Rightarrow> int \<Rightarrow> string \<Rightarrow> string \<Rightarrow> unit op" where
  "AppendLog now i stream msg = driver (\<lambda>d.
     if find_row i d = None then (Inl (ErrDb ''FOREIGN KEY constraint failed''), d)
     else (Inr (), d\<lparr>job_logs := job_logs d @
             [\<lparr>lID = logs_seq d + 1, lJobID = i, lTimestamp = now, lStream = stream, lMessage = msg\<rparr>],
             logs_seq := logs_seq d + 1\<rparr>))"

definition GetLogs :: "int \<Rightarrow> int \<Rightarrow> int \<Rightarrow> job_log list op" where
  "GetLogs i lim off = driver (driver (\<lambda>d.
     (Inr (limit_clause lim off (sort_by (\<lambda>a b. lID a \<le> lID b) (filter (\<lambda>l. lJobID l = i) (job_logs d)))), d)))"

subsection \<open>Queue settings\<close>

definition config_row :: "bool \<times> int \<Rightarrow> string \<times> string \<Rightarrow> bool \<times> int" where
  "config_row pc kv = (case (pc, kv) of ((paused, conc), (k, v)) \<Rightarrow>
     if k = ''paused'' then (v = ''1'' \<or> v = ''true'', conc)
     else if k = ''concurrency'' then (paused, case sscanf_d v of None \<Rightarrow> conc | Some n \<Rightarrow> n)
     else (paused, conc))"

definition GetQueueConfig :: "db \<Rightarrow> (bool \<times> int \<times> err option) \<times> db" where
  "GetQueueConfig d = (case tick d of
       (Some e, d') \<Rightarrow> ((False, 2, Some (ErrDb e)), d')
     | (None, d') \<Rightarrow>
        (case foldl config_row (False, 2) (queue_state d') of
           (paused, conc) \<Rightarrow> ((paused, if conc < 1 then 1 else conc, None), d')))"

fun upsert_kv :: "string \<Rightarrow> string \<Rightarrow> (string \<times> string) list \<Rightarrow> (string \<times> string) list" where
  "upsert_kv k v [] = [(k, v)]"
| "upsert_kv k v ((k', v') # m) = (if k' = k then (k, v) # m else (k', v') # upsert_kv k v m)"

definition SetQueuePaused :: "bool \<Rightarrow> unit op" where
  "SetQueuePaused paused = driver (\<lambda>d.
     (Inr (), d\<lparr>queue_state := upsert_kv ''paused'' (if paused then ''1'' else ''0'') (queue_state d)\<rparr>))"

definition SetQueueConcurrency :: "int \<Rightarrow> unit op" where
  "SetQueueConcurrency n = driver (\<lambda>d.
     (Inr (), d\<lparr>queue_state := upsert_kv ''concurrency'' (itoa (if n < 1 then 1 else n)) (queue_state d)\<rparr>))"

subsection \<open>Batch actions\<close>

definition matchingJobIDs :: "string \<Rightarrow> state list \<Rightarrow> int list op" where
  "matchingJobIDs pfx inStates = driver (driver (\<lambda>d.
     let cleanPrefix = TrimSpace pfx; cleanNoSlash = TrimSuffix cleanPrefix ''/'' in
     (Inr (map rID (filter (\<lambda>r. (inStates \<noteq> [] \<longrightarrow> rState r \<in> set inStates)
                                \<and> matchPrefix (rSource r) (rSite r) cleanPrefix cleanNoSlash) (jobs d))), d)))"

definition batch_states :: "string \<Rightarrow> state list" where
  "batch_states act =
    (if act = BatchPause then [StateQueued]
     else if act = BatchResume then [StatePaused]
     else if act = BatchQuarantine then [StateQueued, StatePaused, StateFailed, StateRunning]
     else if act = BatchUnquarantine then [StateQuarantined]
     else if act = BatchCancel then [StateQueued, StatePaused, StateRunning]
     else if act = BatchRetry then [StateFailed, StateCompleted, StateCancelled]
     else if act = BatchDelete then [StateCompleted, StateFailed, StateCancelled, StateQuarantined]
     else [])"

text \<open>The statement of a batch action on the jobs \<open>ids\<close>; \<open>None\<close> for an unknown action.\<close>

definition batch_exec :: "time \<Rightarrow> batch_request \<Rightarrow> int list \<Rightarrow> nat op option" where
  "batch_exec now req ids =
    (let act = bAction req; inClause = (\<lambda>r. rID r \<in> set ids) in
     if act = BatchPause then
       Some (exec_update (\<lambda>r. inClause r \<and> rState r = StateQueued) (\<lambda>r. r\<lparr>rState := StatePaused\<rparr>))
     else if act = BatchResume then
       Some (exec_update (\<lambda>r. inClause r \<and> rState r = StatePaused) (\<lambda>r. r\<lparr>rState := StateQueued\<rparr>))
     else if act = BatchQuarantine then
       (let reason = (if bReason req \<noteq> [] then bReason req else ''quarantined via batch action'')
        in Some (exec_update inClause
             (\<lambda>r. r\<lparr>rState := StateQuarantined, rQuarantineReason := Some reason, rFinishedAt := Some now\<rparr>)))
     else if act = BatchUnquarantine then
       Some (exec_update (\<lambda>r. inClause r \<and> rState r = StateQuarantined)
             (\<lambda>r. r\<lparr>rState := StateQueued, rQuarantineReason := Some [], rRetryCount := 0\<rparr>))
     else if act = BatchCancel then
       Some (exec_update (\<lambda>r. inClause r \<and> rState r \<in> {StateQueued, StatePaused, StateRunning})
             (\<lambda>r. r\<lparr>rState := StateCancelled, rFinishedAt := Some now\<rparr>))
     else if act = BatchRetry then
       Some (exec_update inClause
             (\<lambda>r. r\<lparr>rState := StateQueued, rLastError := Some [], rQuarantineReason := Some [],
                    rRetryCount := 0, rStartedAt := None, rFinishedAt := None\<rparr>))
     else if act = BatchDelete then
       Some (exec_delete (\<lambda>r. inClause r \<and> deletable (rState r)))
     else None)"

definition batch_targets :: "batch_request \<Rightarrow> int list op" where
  "batch_targets req d =
    (if bIDs req \<noteq> [] then (Inr (bIDs req), d)
     else if bPrefix req \<noteq> [] then matchingJobIDs (bPrefix req) (batch_states (bAction req)) d
     else (Inr [], d))"

definition BatchAction :: "time \<Rightarrow> batch_request \<Rightarrow> batch_result op" where
  "BatchAction now req d =
    (case batch_targets req d of
       (Inl e, d1) \<Rightarrow> (Inl e, d1)
     | (Inr ids, d1) \<Rightarrow>
         let res = \<lparr>brAction = bAction req, brTarget = bPrefix req, brMatched = length ids,
                    brAffected = 0, brJobIDs = ids\<rparr> in
         if ids = [] then (Inr res, d1)
         else (case batch_exec now req ids of
             None \<Rightarrow> (Inl (ErrMsg (''unknown batch action '' @ Quote (bAction req))), d1)
           | Some stmt \<Rightarrow>
              (case stmt d1 of
                 (Inl e, d2) \<Rightarrow> (Inl e, d2)
               | (Inr n, d2) \<Rightarrow> (Inr (res\<lparr>brAffected := n\<rparr>), d2))))"

end
