(* ===== verification/StoreInv.thy ===== *)
theory StoreInv
  imports Store
begin

text \<open>
  Facts about the job store that hold under every failure schedule: how a driver call behaves, the
  invariant of the tables and that every operation keeps it, and the runs of store operations.
\<close>

subsection \<open>Driver calls\<close>

lemma tick_cases:
  obtains e fs where "tick d = (Some e, d\<lparr>faults := fs\<rparr>)"
        | fs where "tick d = (None, d\<lparr>faults := fs\<rparr>)"
proof (cases "faults d")
  case Nil
  then have "tick d = (None, d\<lparr>faults := []\<rparr>)" by (simp add: tick_def)
  then show ?thesis by (rule that(2))
next
  case (Cons f fs)
  then have "tick d = (f, d\<lparr>faults := fs\<rparr>)" by (simp add: tick_def)
  then show ?thesis using that by (cases f) auto
qed

lemma driver_intro:
  assumes "\<And>e fs. Q (Inl (ErrDb e), d\<lparr>faults := fs\<rparr>)"
    and "\<And>fs. Q (k (d\<lparr>faults := fs\<rparr>))"
  shows "Q (driver k d)"
  by (rule tick_cases [of d]) (auto simp: driver_def assms)

lemma tick_none [simp]: "faults d = [] \<Longrightarrow> tick d = (None, d)"
  by (simp add: tick_def)

lemma driver_none [simp]: "faults d = [] \<Longrightarrow> driver k d = k d"
  by (simp add: driver_def)

lemma exec_update_none [simp]:
  "faults d = [] \<Longrightarrow> exec_update P f d =
     (Inr (length (filter P (jobs d))), d\<lparr>jobs := map_where P f (jobs d)\<rparr>)"
  by (simp add: exec_update_def)

lemma exec_delete_none [simp]:
  "faults d = [] \<Longrightarrow> exec_delete P d =
     (Inr (length (filter P (jobs d))),
      d\<lparr>jobs := filter (\<lambda>r. \<not> P r) (jobs d),
        job_logs := filter (\<lambda>l. \<not> (\<exists>r \<in> set (jobs d). P r \<and> rID r = lJobID l)) (job_logs d)\<rparr>)"
  by (simp add: exec_delete_def)

lemma find_row_faults [simp]: "find_row i (d\<lparr>faults := fs\<rparr>) = find_row i d"
  by (simp add: find_row_def)

text \<open>The rest of the schedule commutes with what is written to the tables.\<close>

lemma faults_last [simp]:
  "d\<lparr>faults := fs, jobs := js\<rparr> = d\<lparr>jobs := js, faults := fs\<rparr>"
  "d\<lparr>faults := fs, job_logs := ls\<rparr> = d\<lparr>job_logs := ls, faults := fs\<rparr>"
  "d\<lparr>faults := fs, queue_state := qs\<rparr> = d\<lparr>queue_state := qs, faults := fs\<rparr>"
  "d\<lparr>faults := fs, jobs_seq := a\<rparr> = d\<lparr>jobs_seq := a, faults := fs\<rparr>"
  "d\<lparr>faults := fs, logs_seq := b\<rparr> = d\<lparr>logs_seq := b, faults := fs\<rparr>"
  by simp_all

lemma find_row_Some: "find_row i d = Some r \<Longrightarrow> r \<in> set (jobs d) \<and> rID r = i"
  unfolding find_row_def by (auto simp: find_Some_iff)

lemma find_row_None: "find_row i d = None \<longleftrightarrow> i \<notin> rID ` set (jobs d)"
  unfolding find_row_def by (auto simp: find_None_iff)

text \<open>What a guarded update leaves in the database, as a case split of its own.\<close>

lemma exec_update_cases:
  obtains e fs where "exec_update P f d = (Inl (ErrDb e), d\<lparr>faults := fs\<rparr>)"
    | fs where "exec_update P f d =
        (Inr (length (filter P (jobs d))), d\<lparr>faults := fs, jobs := map_where P f (jobs d)\<rparr>)"
  by (rule tick_cases [of d]) (auto simp: exec_update_def driver_def)

lemma exec_delete_cases:
  obtains e fs where "exec_delete P d = (Inl (ErrDb e), d\<lparr>faults := fs\<rparr>)"
    | fs where "exec_delete P d =
        (Inr (length (filter P (jobs d))),
         d\<lparr>faults := fs, jobs := filter (\<lambda>r. \<not> P r) (jobs d),
           job_logs := filter (\<lambda>l. \<not> (\<exists>r \<in> set (jobs d). P r \<and> rID r = lJobID l)) (job_logs d)\<rparr>)"
  by (rule tick_cases [of d]) (auto simp: exec_delete_def driver_def)

subsection \<open>Atomic operations\<close>

text \<open>An operation is atomic when a driver failure leaves the tables as they were, and without one
  it does what it does on a database that never fails. Every operation of the store that is one
  statement or one transaction is; the rest of the development then reasons about it on databases
  that do not fail.\<close>

definition quiet :: "db \<Rightarrow> db" where
  "quiet d = d\<lparr>faults := []\<rparr>"

definition atomic :: "'a op \<Rightarrow> bool" where
  "atomic op \<longleftrightarrow> (\<forall>d. \<exists>fs. (\<exists>e. op d = (Inl e, d\<lparr>faults := fs\<rparr>))
      \<or> op d = (fst (op (quiet d)), (snd (op (quiet d)))\<lparr>faults := fs\<rparr>))"

lemma quiet_faults [simp]: "quiet (d\<lparr>faults := fs\<rparr>) = quiet d" "faults (quiet d) = []"
  "quiet (quiet d) = quiet d" "jobs (quiet d) = jobs d" "job_logs (quiet d) = job_logs d"
  "queue_state (quiet d) = queue_state d" "jobs_seq (quiet d) = jobs_seq d"
  "logs_seq (quiet d) = logs_seq d" "find_row i (quiet d) = find_row i d"
  by (simp_all add: quiet_def find_row_def)

lemma atomicI:
  assumes "\<And>d. \<exists>fs. (\<exists>e. op d = (Inl e, d\<lparr>faults := fs\<rparr>))
      \<or> op d = (fst (op (quiet d)), (snd (op (quiet d)))\<lparr>faults := fs\<rparr>)"
  shows "atomic op"
  unfolding atomic_def using assms by blast

lemma atomicE:
  assumes "atomic op"
  obtains e fs where "op d = (Inl e, d\<lparr>faults := fs\<rparr>)"
    | fs where "op d = (fst (op (quiet d)), (snd (op (quiet d)))\<lparr>faults := fs\<rparr>)"
  using assms unfolding atomic_def by blast

lemma atomic_pure:
  "(\<And>d fs. k (d\<lparr>faults := fs\<rparr>) = (fst (k d), (snd (k d))\<lparr>faults := fs\<rparr>)) \<Longrightarrow> atomic k"
proof (rule atomicI)
  fix d assume k: "\<And>d fs. k (d\<lparr>faults := fs\<rparr>) = (fst (k d), (snd (k d))\<lparr>faults := fs\<rparr>)"
  have "k d = (fst (k (quiet d)), (snd (k (quiet d)))\<lparr>faults := faults d\<rparr>)"
    using k [where d = "quiet d" and fs = "faults d"] by (simp add: quiet_def)
  then show "\<exists>fs. (\<exists>e. k d = (Inl e, d\<lparr>faults := fs\<rparr>))
      \<or> k d = (fst (k (quiet d)), (snd (k (quiet d)))\<lparr>faults := fs\<rparr>)" by blast
qed

lemma atomic_driver:
  assumes "atomic k"
  shows "atomic (driver k)"
proof (rule atomicI)
  fix d
  have q: "driver k (quiet d) = k (quiet d)" by simp
  show "\<exists>fs. (\<exists>e. driver k d = (Inl e, d\<lparr>faults := fs\<rparr>))
      \<or> driver k d = (fst (driver k (quiet d)), (snd (driver k (quiet d)))\<lparr>faults := fs\<rparr>)"
    unfolding q
  proof (rule driver_intro)
    fix fs
    show "\<exists>fs'. (\<exists>e. k (d\<lparr>faults := fs\<rparr>) = (Inl e, d\<lparr>faults := fs'\<rparr>))
       \<or> k (d\<lparr>faults := fs\<rparr>) = (fst (k (quiet d)), (snd (k (quiet d)))\<lparr>faults := fs'\<rparr>)"
      by (rule atomicE [OF assms, of "d\<lparr>faults := fs\<rparr>"]) auto
  qed auto
qed

lemma atomic_then:
  assumes "atomic op"
  shows "atomic (\<lambda>d. case op d of (Inl e, d1) \<Rightarrow> (Inl (h e), d1) | (Inr n, d1) \<Rightarrow> (g n, d1))"
    (is "atomic ?op")
proof -
  have post: "?op = (\<lambda>d. (case fst (op d) of Inl e \<Rightarrow> Inl (h e) | Inr n \<Rightarrow> g n, snd (op d)))"
    by (rule ext) (auto split: sum.split prod.split)
  show ?thesis unfolding post
  proof (rule atomicI)
    fix d
    show "\<exists>fs. (\<exists>e. (case fst (op d) of Inl e \<Rightarrow> Inl (h e) | Inr n \<Rightarrow> g n, snd (op d)) = (Inl e, d\<lparr>faults := fs\<rparr>))
      \<or> (case fst (op d) of Inl e \<Rightarrow> Inl (h e) | Inr n \<Rightarrow> g n, snd (op d)) =
        (fst (case fst (op (quiet d)) of Inl e \<Rightarrow> Inl (h e) | Inr n \<Rightarrow> g n, snd (op (quiet d))),
         (snd (case fst (op (quiet d)) of Inl e \<Rightarrow> Inl (h e) | Inr n \<Rightarrow> g n, snd (op (quiet d))))\<lparr>faults := fs\<rparr>)"
      by (rule atomicE [OF assms, of d]) auto
  qed
qed

lemma atomic_select:
  assumes "\<And>d fs. sel (d\<lparr>faults := fs\<rparr>) = sel d" and "\<And>x. atomic (k x)"
  shows "atomic (\<lambda>d. k (sel d) d)"
proof (rule atomicI)
  fix d
  have "sel (quiet d) = sel d" by (simp add: quiet_def assms(1))
  then show "\<exists>fs. (\<exists>e. k (sel d) d = (Inl e, d\<lparr>faults := fs\<rparr>))
      \<or> k (sel d) d = (fst (k (sel (quiet d)) (quiet d)), (snd (k (sel (quiet d)) (quiet d)))\<lparr>faults := fs\<rparr>)"
    using assms(2) [of "sel d"] unfolding atomic_def by metis
qed

lemma atomic_option:
  assumes "\<And>d fs. sel (d\<lparr>faults := fs\<rparr>) = sel d" and "atomic n" and "\<And>x. atomic (s x)"
  shows "atomic (\<lambda>d. case sel d of None \<Rightarrow> n d | Some x \<Rightarrow> s x d)"
proof -
  have "atomic (case x of None \<Rightarrow> n | Some y \<Rightarrow> s y)" for x
    using assms(2,3) by (cases x) auto
  from atomic_select [of sel "\<lambda>x. case x of None \<Rightarrow> n | Some y \<Rightarrow> s y", OF assms(1) this]
  have "atomic (\<lambda>d. (case sel d of None \<Rightarrow> n | Some y \<Rightarrow> s y) d)" .
  moreover have "(\<lambda>d. (case sel d of None \<Rightarrow> n | Some y \<Rightarrow> s y) d)
      = (\<lambda>d. case sel d of None \<Rightarrow> n d | Some x \<Rightarrow> s x d)"
    by (rule ext) (simp split: option.split)
  ultimately show ?thesis by simp
qed

lemma atomic_if: "atomic a \<Longrightarrow> atomic b \<Longrightarrow> atomic (\<lambda>d. if c then a d else b d)"
  by (cases c) auto

lemma atomic_error [simp]: "atomic (\<lambda>d. (Inl e, d))"
  by (rule atomic_pure) simp

lemma atomic_exec_update [simp]: "atomic (exec_update P f)"
  unfolding exec_update_def by (intro atomic_driver atomic_pure) simp

lemma atomic_exec_delete [simp]: "atomic (exec_delete P)"
  unfolding exec_delete_def by (intro atomic_driver atomic_pure) simp

lemma next_row_faults [simp]: "next_row (d\<lparr>faults := fs\<rparr>) = next_row d"
  by (simp add: next_row_def)

text \<open>The operations that are one guarded update, reduced to it.\<close>

lemma snd_op_update [store_ops]:
  "snd (FinishJob now i st msg d) = snd (exec_update (on_id i)
     (\<lambda>r. r\<lparr>rState := st, rFinishedAt := Some now, rLastError := Some msg\<rparr>) d)"
  "snd (QuarantineJob now i reason d) = snd (exec_update (on_id i)
     (\<lambda>r. r\<lparr>rState := StateQuarantined, rQuarantineReason := Some reason, rFinishedAt := Some now\<rparr>) d)"
  "snd (UnquarantineJob i d) = snd (exec_update (\<lambda>r. rID r = i \<and> rState r = StateQuarantined)
     (\<lambda>r. r\<lparr>rState := StateQueued, rQuarantineReason := Some [], rLastError := Some [], rRetryCount := 0\<rparr>) d)"
  "snd (PauseJob i d) = snd (exec_update (\<lambda>r. rID r = i \<and> rState r = StateQueued)
     (\<lambda>r. r\<lparr>rState := StatePaused\<rparr>) d)"
  "snd (ResumeJob i d) = snd (exec_update (\<lambda>r. rID r = i \<and> rState r = StatePaused)
     (\<lambda>r. r\<lparr>rState := StateQueued\<rparr>) d)"
  "snd (CancelJob now i d) = snd (exec_update
     (\<lambda>r. rID r = i \<and> rState r \<in> {StateQueued, StateRunning, StatePaused})
     (\<lambda>r. r\<lparr>rState := StateCancelled, rFinishedAt := Some now\<rparr>) d)"
  "snd (DeleteJob i d) = snd (exec_delete (\<lambda>r. rID r = i \<and> deletable (rState r)) d)"
  by (simp_all add: FinishJob_def QuarantineJob_def UnquarantineJob_def PauseJob_def ResumeJob_def
      CancelJob_def DeleteJob_def split: prod.split sum.split)

subsection \<open>The invariant of the tables\<close>

definition finished_state :: "state \<Rightarrow> bool" where
  "finished_state s \<longleftrightarrow> s \<in> {StateCompleted, StateFailed, StateQuarantined, StateCancelled}"

text \<open>A row is well formed when its state is one of the seven, its counters make sense, a finished
  job has a finish time and a running one a start time.\<close>

definition row_ok :: "row \<Rightarrow> bool" where
  "row_ok r \<longleftrightarrow> Valid (rState r) \<and> 0 \<le> rRetryCount r \<and> 0 < rMaxRetries r
     \<and> (finished_state (rState r) \<longrightarrow> rFinishedAt r \<noteq> None)
     \<and> (rState r = StateRunning \<longrightarrow> rStartedAt r \<noteq> None)"

definition jobs_ok :: "row list \<Rightarrow> int \<Rightarrow> bool" where
  "jobs_ok js sq \<longleftrightarrow> sorted_wrt (<) (map rID js) \<and> 0 \<le> sq
     \<and> (\<forall>r \<in> set js. 0 < rID r \<and> rID r \<le> sq \<and> row_ok r)"

definition logs_ok :: "db \<Rightarrow> bool" where
  "logs_ok d \<longleftrightarrow> sorted_wrt (<) (map lID (job_logs d))
     \<and> (\<forall>l \<in> set (job_logs d). lID l \<le> logs_seq d \<and> lJobID l \<in> rID ` set (jobs d))"

definition db_inv :: "db \<Rightarrow> bool" where
  "db_inv d \<longleftrightarrow> jobs_ok (jobs d) (jobs_seq d) \<and> logs_ok d \<and> distinct (map fst (queue_state d))"

lemma db_inv_faults [simp]: "db_inv (d\<lparr>faults := fs\<rparr>) = db_inv d"
  by (simp add: db_inv_def logs_ok_def)

lemma db_inv_empty [simp]: "db_inv empty_db"
  by (simp add: db_inv_def jobs_ok_def logs_ok_def empty_db_def)

lemma finished_states [simp]:
  "\<not> finished_state StateQueued" "\<not> finished_state StateRunning" "\<not> finished_state StatePaused"
  "finished_state StateCompleted" "finished_state StateCancelled" "finished_state StateQuarantined"
  "finished_state StateFailed"
  by (simp_all add: finished_state_def)

lemma distinct_ids: "jobs_ok js sq \<Longrightarrow> distinct (map rID js)"
  unfolding jobs_ok_def by (metis strict_sorted_iff)

lemma map_where_jobs_ok:
  assumes "jobs_ok js sq" and "\<And>r. rID (f r) = rID r"
    and "\<And>r. r \<in> set js \<Longrightarrow> P r \<Longrightarrow> row_ok r \<Longrightarrow> row_ok (f r)"
  shows "jobs_ok (map_where P f js) sq"
  using assms by (auto simp: jobs_ok_def set_map_where)

lemma ids_map_where: "(\<And>r. rID (f r) = rID r) \<Longrightarrow> rID ` set (map_where P f js) = rID ` set js"
  by (metis list.set_map map_map_where)

lemma db_inv_map_where:
  assumes "db_inv d" and "\<And>r. rID (f r) = rID r"
    and "\<And>r. r \<in> set (jobs d) \<Longrightarrow> P r \<Longrightarrow> row_ok r \<Longrightarrow> row_ok (f r)"
  shows "db_inv (d\<lparr>jobs := map_where P f (jobs d)\<rparr>)"
  using assms map_where_jobs_ok [of "jobs d" "jobs_seq d" f P] ids_map_where [of f P "jobs d"]
  by (simp add: db_inv_def logs_ok_def)

lemma exec_update_inv:
  assumes "db_inv d" and "\<And>r. rID (f r) = rID r"
    and "\<And>r. r \<in> set (jobs d) \<Longrightarrow> P r \<Longrightarrow> row_ok r \<Longrightarrow> row_ok (f r)"
  shows "db_inv (snd (exec_update P f d))"
  by (rule exec_update_cases [of P f d])
     (use assms db_inv_map_where [of d f P] in \<open>auto simp: db_inv_def logs_ok_def\<close>)

lemma filter_jobs_ok: "jobs_ok js sq \<Longrightarrow> jobs_ok (filter P js) sq"
  by (auto simp: jobs_ok_def sorted_wrt_map sorted_wrt_filter)

lemma exec_delete_inv: "db_inv d \<Longrightarrow> db_inv (snd (exec_delete P d))"
proof (rule exec_delete_cases [of P d])
  fix fs assume inv: "db_inv d" and e: "exec_delete P d =
        (Inr (length (filter P (jobs d))),
         d\<lparr>faults := fs, jobs := filter (\<lambda>r. \<not> P r) (jobs d),
           job_logs := filter (\<lambda>l. \<not> (\<exists>r \<in> set (jobs d). P r \<and> rID r = lJobID l)) (job_logs d)\<rparr>)"
  have "lJobID l \<in> rID ` {r \<in> set (jobs d). \<not> P r}"
    if "l \<in> set (job_logs d)" "\<forall>r \<in> set (jobs d). P r \<longrightarrow> rID r \<noteq> lJobID l" for l
  proof -
    have "lJobID l \<in> rID ` set (jobs d)" using inv that(1) by (simp add: db_inv_def logs_ok_def)
    then obtain r where "r \<in> set (jobs d)" "rID r = lJobID l" by (metis imageE)
    with that(2) show ?thesis by (metis (mono_tags, lifting) image_eqI mem_Collect_eq)
  qed
  then show ?thesis using inv e
    by (auto simp: db_inv_def logs_ok_def filter_jobs_ok sorted_wrt_map sorted_wrt_filter)
qed auto

lemma jobs_ok_snoc:
  "jobs_ok js sq \<Longrightarrow> row_ok r \<Longrightarrow> rID r = sq + 1 \<Longrightarrow> jobs_ok (js @ [r]) (sq + 1)"
  by (fastforce simp: jobs_ok_def sorted_wrt_append)

subsection \<open>Every operation keeps the invariant\<close>

lemma FinishJob_inv:
  "db_inv d \<Longrightarrow> Valid st \<Longrightarrow> st \<noteq> StateRunning \<Longrightarrow> db_inv (snd (FinishJob now i st msg d))"
  unfolding store_ops by (rule exec_update_inv) (auto simp: row_ok_def)

lemma QuarantineJob_inv: "db_inv d \<Longrightarrow> db_inv (snd (QuarantineJob now i reason d))"
  unfolding store_ops by (rule exec_update_inv) (auto simp: row_ok_def)

lemma UnquarantineJob_inv: "db_inv d \<Longrightarrow> db_inv (snd (UnquarantineJob i d))"
  unfolding store_ops by (rule exec_update_inv) (auto simp: row_ok_def)

lemma PauseJob_inv: "db_inv d \<Longrightarrow> db_inv (snd (PauseJob i d))"
  unfolding store_ops by (rule exec_update_inv) (auto simp: row_ok_def)

lemma ResumeJob_inv: "db_inv d \<Longrightarrow> db_inv (snd (ResumeJob i d))"
  unfolding store_ops by (rule exec_update_inv) (auto simp: row_ok_def)

lemma CancelJob_inv: "db_inv d \<Longrightarrow> db_inv (snd (CancelJob now i d))"
  unfolding store_ops by (rule exec_update_inv) (auto simp: row_ok_def)

lemma DeleteJob_inv: "db_inv d \<Longrightarrow> db_inv (snd (DeleteJob i d))"
  unfolding store_ops by (rule exec_delete_inv)

lemma GetJob_db: "\<exists>fs. snd (GetJob i d) = d\<lparr>faults := fs\<rparr>"
  unfolding GetJob_def by (rule driver_intro) auto

lemma RetryJob_inv:
  assumes "db_inv d"
  shows "db_inv (snd (RetryJob i d))"
proof -
  let ?f = "\<lambda>r. r\<lparr>rState := StateQueued, rLastError := Some [], rQuarantineReason := Some [],
                   rRetryCount := 0, rStartedAt := None, rFinishedAt := None\<rparr>"
  have inv: "db_inv (snd (exec_update (on_id i) ?f d))"
    by (rule exec_update_inv [OF assms]) (auto simp: row_ok_def)
  obtain x d1 where x: "exec_update (on_id i) ?f d = (x, d1)" by (cases "exec_update (on_id i) ?f d")
  with inv have "db_inv d1" by simp
  then show ?thesis
    using GetJob_db [of i d1] by (auto simp: RetryJob_def x split: sum.split)
qed

lemma RecoverOrphanedJobs_inv:
  assumes "db_inv d"
  shows "db_inv (snd (RecoverOrphanedJobs now d))"
proof -
  let ?P1 = "\<lambda>r. rState r = StateRunning \<and> rRetryCount r < rMaxRetries r"
  let ?f1 = "\<lambda>r. r\<lparr>rState := StateQueued, rRetryCount := rRetryCount r + 1,
                   rLastError := Some ''daemon restarted while job was running'',
                   rFinishedAt := Some now\<rparr>"
  let ?f2 = "\<lambda>r. r\<lparr>rState := StateQuarantined,
                       rQuarantineReason := Some ''daemon restarted and max retries exceeded'',
                       rFinishedAt := Some now\<rparr>"
  have 1: "db_inv (snd (exec_update ?P1 ?f1 d))"
    by (rule exec_update_inv [OF assms]) (auto simp: row_ok_def)
  obtain x d1 where x: "exec_update ?P1 ?f1 d = (x, d1)" by (cases "exec_update ?P1 ?f1 d")
  with 1 have i1: "db_inv d1" by simp
  have 2: "db_inv (snd (exec_update (\<lambda>r. rState r = StateRunning) ?f2 d1))"
    by (rule exec_update_inv [OF i1]) (auto simp: row_ok_def)
  then show ?thesis using i1
    by (auto simp: RecoverOrphanedJobs_def x split: sum.split prod.split)
qed

text \<open>What a caller of \<open>EnqueueJob\<close> may preset: an unfinished state that is not running, and
  non-negative counters. \<open>Queue.Enqueue\<close> leaves both at zero.\<close>

definition enqueueable :: "job \<Rightarrow> bool" where
  "enqueueable j \<longleftrightarrow> (jState j = [] \<or> jState j = StateQueued \<or> jState j = StatePaused) \<and> 0 \<le> jRetryCount j"

lemma enqueue_defaults_ok:
  "enqueueable j \<Longrightarrow> row_ok (insert_row (enqueue_defaults now j) i)"
  by (auto simp: enqueueable_def row_ok_def insert_row_def enqueue_defaults_def Let_def)

lemma EnqueueJob_inv:
  assumes "db_inv d" and "enqueueable j"
  shows "db_inv (snd (EnqueueJob now j d))"
proof -
  let ?j = "enqueue_defaults now j"
  let ?d = "d\<lparr>jobs := jobs d @ [insert_row ?j (jobs_seq d + 1)], jobs_seq := jobs_seq d + 1\<rparr>"
  have "jobs_ok (jobs d @ [insert_row ?j (jobs_seq d + 1)]) (jobs_seq d + 1)"
    using assms enqueue_defaults_ok
    by (intro jobs_ok_snoc) (auto simp: db_inv_def insert_row_def)
  then have inv: "db_inv ?d" using assms(1) by (auto simp: db_inv_def logs_ok_def)
  show ?thesis
  proof (rule tick_cases [of d])
    fix e fs assume "tick d = (Some e, d\<lparr>faults := fs\<rparr>)"
    then show ?thesis using assms(1) by (simp add: EnqueueJob_def driver_def)
  next
    fix fs assume t: "tick d = (None, d\<lparr>faults := fs\<rparr>)"
    from inv have "db_inv (d\<lparr>faults := fs, jobs := jobs d @ [insert_row ?j (jobs_seq d + 1)],
        jobs_seq := jobs_seq d + 1\<rparr>)" by (simp add: db_inv_def logs_ok_def)
    then show ?thesis using t
      by (simp add: EnqueueJob_def Let_def driver_def [of _ d])
         (rule driver_intro [where Q = "\<lambda>x. db_inv (snd x)"], auto simp: db_inv_def logs_ok_def)
  qed
qed

lemma jID_scanJob [simp]: "jID (scanJob r) = rID r"
  by (simp add: scanJob_def SetFlagsJSON_def)

text \<open>The claim transaction: two statements and the commit, which writes.\<close>

lemma claim_commit_atomic:
  "atomic (\<lambda>d. case driver (\<lambda>d. (Inr (), d)) d of
          (Inl e, d) \<Rightarrow> (Inl (h e), d)
        | (Inr _, d) \<Rightarrow> driver (\<lambda>d. (Inr job, d\<lparr>jobs := map_where P f (jobs d)\<rparr>)) d)"
  (is "atomic ?op")
proof (rule atomicI)
  fix d
  have q: "?op (quiet d) = (Inr job, (quiet d)\<lparr>jobs := map_where P f (jobs d)\<rparr>)" by simp
  have "\<exists>fs. (\<exists>e. ?op d = (Inl e, d\<lparr>faults := fs\<rparr>))
      \<or> ?op d = (Inr job, d\<lparr>jobs := map_where P f (jobs d), faults := fs\<rparr>)"
  proof (rule tick_cases [of d])
    fix fs assume t: "tick d = (None, d\<lparr>faults := fs\<rparr>)"
    show ?thesis
      by (rule tick_cases [of "d\<lparr>faults := fs\<rparr>"]) (auto simp: driver_def t)
  qed (auto simp: driver_def)
  then show "\<exists>fs. (\<exists>e. ?op d = (Inl e, d\<lparr>faults := fs\<rparr>))
      \<or> ?op d = (fst (?op (quiet d)), (snd (?op (quiet d)))\<lparr>faults := fs\<rparr>)"
    unfolding q by (simp add: quiet_def)
qed

lemma ClaimNextJob_atomic: "atomic (ClaimNextJob now)"
  unfolding ClaimNextJob_def Let_def
  by (intro atomic_driver atomic_option claim_commit_atomic) simp_all

lemma FailAndRetryJob_atomic: "atomic (FailAndRetryJob now i msg)"
  unfolding FailAndRetryJob_def Let_def
  by (intro atomic_driver atomic_option atomic_if atomic_pure) simp_all

lemma FinishJob_atomic: "atomic (FinishJob now i st msg)"
  unfolding FinishJob_def by (rule atomic_then) simp

lemma atomic_ops [simp]:
  "atomic (QuarantineJob now i reason)" "atomic (UnquarantineJob i)" "atomic (PauseJob i)"
  "atomic (ResumeJob i)" "atomic (CancelJob now i)" "atomic (DeleteJob i)"
proof -
  have g: "atomic (\<lambda>d. case op d of (Inl e, d1) \<Rightarrow> (Inl e, d1)
     | (Inr n, d1) \<Rightarrow> if n = 0 then (Inl err, d1) else (Inr (), d1))" if "atomic op"
    for op :: "nat op" and err
  proof -
    have "(\<lambda>d. case op d of (Inl e, d1) \<Rightarrow> (Inl e, d1)
       | (Inr n, d1) \<Rightarrow> if n = 0 then (Inl err, d1) else (Inr (), d1))
     = (\<lambda>d. case op d of (Inl e, d1) \<Rightarrow> (Inl e, d1)
       | (Inr n, d1) \<Rightarrow> (if n = 0 then Inl err else Inr (), d1))"
      by (rule ext) (simp split: prod.split sum.split)
    then show ?thesis using atomic_then [OF that, where h = "\<lambda>e. e"] by simp
  qed
  show "atomic (QuarantineJob now i reason)" "atomic (UnquarantineJob i)" "atomic (PauseJob i)"
    "atomic (ResumeJob i)" "atomic (CancelJob now i)" "atomic (DeleteJob i)"
    unfolding QuarantineJob_def UnquarantineJob_def PauseJob_def ResumeJob_def CancelJob_def DeleteJob_def
    by (rule g, simp)+
qed

lemma atomic_log_settings [simp]:
  "atomic (AppendLog now i stream msg)" "atomic (SetQueuePaused b)" "atomic (SetQueueConcurrency n)"
  unfolding AppendLog_def SetQueuePaused_def SetQueueConcurrency_def
  by ((rule atomic_driver)+, rule atomic_pure, simp)+

lemma atomic_reads [simp]:
  "atomic (GetJob i)" "atomic (ListJobs f)" "atomic (GetCounts)" "atomic (GetLogs i lim off)"
  "atomic (matchingJobIDs pfx sts)"
  unfolding GetJob_def ListJobs_def GetCounts_def GetLogs_def matchingJobIDs_def Let_def
  by ((rule atomic_driver)+, rule atomic_pure, simp add: fun_eq_iff)+

text \<open>An atomic operation keeps the invariant if it does so without failures.\<close>

lemma atomic_inv:
  assumes "atomic op" and "db_inv d" and "db_inv (snd (op (quiet d)))"
  shows "db_inv (snd (op d))"
  by (rule atomicE [OF assms(1), of d]) (use assms(2,3) in auto)

lemma db_inv_quiet [simp]: "db_inv (quiet d) = db_inv d"
  by (simp add: quiet_def)

lemma next_row_queued:
  assumes "next_row d = Some r"
  shows "r \<in> set (jobs d)" and "rState r = StateQueued"
proof -
  have "r \<in> set (sort_by (claim_le (jobs d)) (filter (\<lambda>r. rState r = StateQueued) (jobs d)))"
    using assms unfolding next_row_def
    by (cases "sort_by (claim_le (jobs d)) (filter (\<lambda>r. rState r = StateQueued) (jobs d))") auto
  then show "r \<in> set (jobs d)" "rState r = StateQueued" by simp_all
qed

lemma next_row_None: "next_row d = None \<longleftrightarrow> (\<forall>r \<in> set (jobs d). rState r \<noteq> StateQueued)"
proof -
  have "next_row d = None \<longleftrightarrow> filter (\<lambda>r. rState r = StateQueued) (jobs d) = []"
    by (metis (no_types, lifting) list.case_eq_if next_row_def option.distinct(1) sort_by_Nil_iff)
  then show ?thesis by (simp add: filter_empty_conv)
qed

text \<open>\<open>ClaimNextJob\<close> and \<open>FailAndRetryJob\<close> on a database that does not fail.\<close>

lemma ClaimNextJob_quiet:
  assumes "faults d = []"
  shows "ClaimNextJob now d = (case next_row d of None \<Rightarrow> (Inl ErrQueueEmpty, d)
    | Some r \<Rightarrow> (Inr ((scanJob r)\<lparr>jState := StateRunning, jStartedAt := Some now\<rparr>),
        d\<lparr>jobs := map_where (on_id (rID r))
              (\<lambda>r. r\<lparr>rState := StateRunning, rStartedAt := Some now\<rparr>) (jobs d)\<rparr>))"
  using assms by (simp add: ClaimNextJob_def Let_def split: option.split)

lemma FailAndRetryJob_quiet:
  assumes "faults d = []"
  shows "FailAndRetryJob now i msg d = (case find_row i d of
      None \<Rightarrow> (Inl (ErrDb ''sql: no rows in result set''), d)
    | Some r \<Rightarrow>
        if rMaxRetries r \<le> rRetryCount r + 1
        then (Inr StateQuarantined, d\<lparr>jobs := map_where (on_id i)
               (\<lambda>q. q\<lparr>rState := StateQuarantined, rRetryCount := rRetryCount r + 1, rLastError := Some msg,
                      rQuarantineReason := Some (exceeded_msg (rMaxRetries r) msg), rFinishedAt := Some now\<rparr>)
               (jobs d)\<rparr>)
        else (Inr StateQueued, d\<lparr>jobs := map_where (on_id i)
               (\<lambda>q. q\<lparr>rState := StateQueued, rRetryCount := rRetryCount r + 1, rLastError := Some msg\<rparr>)
               (jobs d)\<rparr>))"
  using assms by (simp add: FailAndRetryJob_def Let_def split: option.split)

lemma ClaimNextJob_inv: "db_inv d \<Longrightarrow> db_inv (snd (ClaimNextJob now d))"
proof (rule atomic_inv [OF ClaimNextJob_atomic])
  assume "db_inv d"
  moreover have "db_inv ((quiet d)\<lparr>jobs := map_where (on_id i)
        (\<lambda>r. r\<lparr>rState := StateRunning, rStartedAt := Some now\<rparr>) (jobs (quiet d))\<rparr>)" for i
    by (rule db_inv_map_where) (use \<open>db_inv d\<close> in \<open>auto simp: row_ok_def\<close>)
  ultimately show "db_inv (snd (ClaimNextJob now (quiet d)))"
    by (auto simp: ClaimNextJob_quiet split: option.split)
qed

lemma find_row_ok: "db_inv d \<Longrightarrow> find_row i d = Some r \<Longrightarrow> row_ok r"
  using find_row_Some by (auto simp: db_inv_def jobs_ok_def)

lemma FailAndRetryJob_inv:
  assumes "db_inv d"
  shows "db_inv (snd (FailAndRetryJob now i msg d))"
proof (rule atomic_inv [OF FailAndRetryJob_atomic assms])
  show "db_inv (snd (FailAndRetryJob now i msg (quiet d)))"
  proof (cases "find_row i d")
    case None
    then show ?thesis using assms by (simp add: FailAndRetryJob_quiet)
  next
    case (Some r)
    then have ok: "0 \<le> rRetryCount r" using find_row_ok [OF assms] by (simp add: row_ok_def)
    let ?q = "\<lambda>q. q\<lparr>rState := StateQuarantined, rRetryCount := rRetryCount r + 1, rLastError := Some msg,
                   rQuarantineReason := Some (exceeded_msg (rMaxRetries r) msg), rFinishedAt := Some now\<rparr>"
    let ?r = "\<lambda>q. q\<lparr>rState := StateQueued, rRetryCount := rRetryCount r + 1, rLastError := Some msg\<rparr>"
    have "db_inv ((quiet d)\<lparr>jobs := map_where (on_id i) ?q (jobs (quiet d))\<rparr>)"
         "db_inv ((quiet d)\<lparr>jobs := map_where (on_id i) ?r (jobs (quiet d))\<rparr>)"
      using assms ok by (intro db_inv_map_where; simp add: row_ok_def)+
    then show ?thesis using Some by (simp add: FailAndRetryJob_quiet)
  qed
qed

lemma if_Some_elim:
  "(if c then Some s else r) = Some t \<Longrightarrow> (c \<Longrightarrow> Q s) \<Longrightarrow> (\<not> c \<Longrightarrow> r = Some t \<Longrightarrow> Q t) \<Longrightarrow> Q t"
  by (cases c) auto

text \<open>Every batch statement is one guarded update or one delete.\<close>

lemma batch_exec_elim:
  assumes "batch_exec now req ids = Some stmt"
    and "\<And>P f. (\<And>r. rID (f r) = rID r) \<Longrightarrow> (\<And>r. row_ok r \<Longrightarrow> row_ok (f r)) \<Longrightarrow> Q (exec_update P f)"
    and "\<And>P. Q (exec_delete P)"
  shows "Q stmt"
proof -
  note u = assms(2)
  show ?thesis using assms(1) unfolding batch_exec_def Let_def
    by (elim if_Some_elim) (simp_all only: refl option.distinct, (rule u assms(3); simp add: row_ok_def)+)
qed

lemma exec_batch_inv:
  assumes "db_inv d" and "batch_exec now req ids = Some stmt"
  shows "db_inv (snd (stmt d))"
  by (rule batch_exec_elim [OF assms(2)])
     (use exec_update_inv [OF assms(1)] exec_delete_inv [OF assms(1)] in auto)

lemma atomic_batch_stmt: "batch_exec now req ids = Some stmt \<Longrightarrow> atomic stmt"
  by (erule batch_exec_elim) simp_all

text \<open>\<open>BatchAction\<close> in terms of its two statements.\<close>

lemma BatchAction_snd:
  "snd (BatchAction now req d) =
    (case batch_targets req d of
       (Inl e, d1) \<Rightarrow> d1
     | (Inr ids, d1) \<Rightarrow>
         if ids = [] then d1
         else (case batch_exec now req ids of None \<Rightarrow> d1 | Some stmt \<Rightarrow> snd (stmt d1)))"
  by (simp add: BatchAction_def Let_def split: prod.split sum.split option.split)

lemma atomic_batch_targets: "atomic (batch_targets req)"
proof -
  have "atomic (\<lambda>d. (Inr ids, d))" for ids :: "int list" by (rule atomic_pure) simp
  then show ?thesis unfolding batch_targets_def
    by (intro atomic_if) simp_all
qed

lemma matchingJobIDs_db: "\<exists>fs. snd (matchingJobIDs pfx sts d) = d\<lparr>faults := fs\<rparr>"
  unfolding matchingJobIDs_def
  by (rule driver_intro, force, rule driver_intro) (force simp: Let_def)+

lemma batch_targets_db: "\<exists>fs. snd (batch_targets req d) = d\<lparr>faults := fs\<rparr>"
proof -
  have "\<exists>fs. d = d\<lparr>faults := fs\<rparr>" by (rule exI [of _ "faults d"]) simp
  then show ?thesis using matchingJobIDs_db by (simp add: batch_targets_def)
qed

lemma BatchAction_inv: "db_inv d \<Longrightarrow> db_inv (snd (BatchAction now req d))"
proof -
  assume inv: "db_inv d"
  obtain x d1 where t: "batch_targets req d = (x, d1)" by (cases "batch_targets req d")
  with batch_targets_db [of req d] inv have "db_inv d1" by auto
  then show ?thesis
    using exec_batch_inv by (auto simp: BatchAction_snd t split: sum.split option.split)
qed

lemma logs_ok_snoc:
  assumes "logs_ok d" and "lID l = logs_seq d + 1" and "lJobID l \<in> rID ` set (jobs d)"
  shows "logs_ok (d\<lparr>job_logs := job_logs d @ [l], logs_seq := logs_seq d + 1\<rparr>)"
proof -
  have le: "lID k \<le> logs_seq d" if "k \<in> set (job_logs d)" for k
    using assms(1) that by (simp add: logs_ok_def)
  then have "sorted_wrt (<) (map lID (job_logs d @ [l]))"
    using assms(1,2) by (simp add: logs_ok_def sorted_wrt_append zless_add1_eq order_le_less)
  moreover have "lID k \<le> logs_seq d + 1" if "k \<in> set (job_logs d)" for k
    using le [OF that] by simp
  ultimately show ?thesis using assms by (simp add: logs_ok_def)
qed

lemma AppendLog_inv: "db_inv d \<Longrightarrow> db_inv (snd (AppendLog now i stream msg d))"
proof (rule atomic_inv)
  assume inv: "db_inv d"
  let ?l = "\<lparr>lID = logs_seq d + 1, lJobID = i, lTimestamp = now, lStream = stream, lMessage = msg\<rparr>"
  show "db_inv (snd (AppendLog now i stream msg (quiet d)))"
  proof (cases "find_row i d = None")
    case True
    then show ?thesis using inv by (simp add: AppendLog_def)
  next
    case False
    then have "i \<in> rID ` set (jobs d)" by (simp add: find_row_None)
    then have "logs_ok ((quiet d)\<lparr>job_logs := job_logs d @ [?l], logs_seq := logs_seq d + 1\<rparr>)"
      using inv logs_ok_snoc [of "quiet d" ?l] by (simp add: db_inv_def logs_ok_def)
    then show ?thesis using False inv by (auto simp: AppendLog_def db_inv_def)
  qed
qed simp_all

lemma fst_upsert_kv: "set (map fst (upsert_kv k v m)) = insert k (set (map fst m))"
  by (induction k v m rule: upsert_kv.induct) auto

lemma distinct_upsert_kv: "distinct (map fst m) \<Longrightarrow> distinct (map fst (upsert_kv k v m))"
  by (induction k v m rule: upsert_kv.induct) (use fst_upsert_kv in force)+

lemma Settings_inv:
  assumes "db_inv d"
  shows "db_inv (snd (SetQueuePaused b d))" and "db_inv (snd (SetQueueConcurrency n d))"
proof -
  have p: "atomic (SetQueuePaused b)" "atomic (SetQueueConcurrency n)" by simp_all
  have "db_inv ((quiet d)\<lparr>queue_state := upsert_kv k v (queue_state d)\<rparr>)" for k v
    using assms by (simp add: db_inv_def logs_ok_def distinct_upsert_kv)
  then have "db_inv (snd (SetQueuePaused b (quiet d)))" "db_inv (snd (SetQueueConcurrency n (quiet d)))"
    by (simp_all only: SetQueuePaused_def SetQueueConcurrency_def driver_none quiet_faults snd_conv)
  with p assms show "db_inv (snd (SetQueuePaused b d))" "db_inv (snd (SetQueueConcurrency n d))"
    by (metis atomic_inv)+
qed

lemma backfill_inv: "db_inv d \<Longrightarrow> db_inv (backfill_items its d)"
proof (induction its d rule: backfill_items.induct)
  case (2 it its d)
  show ?case by (simp, rule "2.IH", rule exec_update_inv [OF "2.prems"]) (auto simp: row_ok_def)
qed simp

lemma OpenStore_backfill_inv: "db_inv d \<Longrightarrow> db_inv (OpenStore_backfill d)"
  unfolding OpenStore_backfill_def
  by (rule tick_cases [of d]) (auto intro: backfill_inv)

end
