(* ===== verification/StoreSpec.thy ===== *)
theory StoreSpec
  imports StoreInv
begin

text \<open>
  What the job store promises, as an abstract board: for every job id its state, the number of
  failed attempts and the attempts allowed. \<open>spec\<close> says which change of the board each operation
  may make, and the simulation shows that every operation of the store, under every schedule of
  driver failures, makes one of them. Runs of operations, and what no run can do, come from it.
\<close>

subsection \<open>Operations as events\<close>

datatype store_op =
    OpEnqueue time job
  | OpClaim time
  | OpFinish time int state string
  | OpFail time int string
  | OpQuarantine time int string
  | OpUnquarantine int
  | OpRetry int
  | OpPause int
  | OpResume int
  | OpCancel time int
  | OpDelete int
  | OpBatch time batch_request
  | OpLog time int string string
  | OpSetPaused bool
  | OpSetConcurrency int
  | OpRecover time
  | OpBackfill

fun exec_op :: "store_op \<Rightarrow> db \<Rightarrow> db" where
  "exec_op (OpEnqueue now j) d = snd (EnqueueJob now j d)"
| "exec_op (OpClaim now) d = snd (ClaimNextJob now d)"
| "exec_op (OpFinish now i st msg) d = snd (FinishJob now i st msg d)"
| "exec_op (OpFail now i msg) d = snd (FailAndRetryJob now i msg d)"
| "exec_op (OpQuarantine now i reason) d = snd (QuarantineJob now i reason d)"
| "exec_op (OpUnquarantine i) d = snd (UnquarantineJob i d)"
| "exec_op (OpRetry i) d = snd (RetryJob i d)"
| "exec_op (OpPause i) d = snd (PauseJob i d)"
| "exec_op (OpResume i) d = snd (ResumeJob i d)"
| "exec_op (OpCancel now i) d = snd (CancelJob now i d)"
| "exec_op (OpDelete i) d = snd (DeleteJob i d)"
| "exec_op (OpBatch now req) d = snd (BatchAction now req d)"
| "exec_op (OpLog now i stream msg) d = snd (AppendLog now i stream msg d)"
| "exec_op (OpSetPaused b) d = snd (SetQueuePaused b d)"
| "exec_op (OpSetConcurrency n) d = snd (SetQueueConcurrency n d)"
| "exec_op (OpRecover now) d = snd (RecoverOrphanedJobs now d)"
| "exec_op OpBackfill d = OpenStore_backfill d"

text \<open>What the callers respect: \<open>Queue.Enqueue\<close> submits fresh jobs, and a worker finishes a job
  with a final state.\<close>

fun allowed :: "store_op \<Rightarrow> bool" where
  "allowed (OpEnqueue now j) = enqueueable j"
| "allowed (OpFinish now i st msg) = finished_state st"
| "allowed _ = True"

lemma finished_Valid: "finished_state s \<Longrightarrow> Valid s" "finished_state s \<Longrightarrow> s \<noteq> StateRunning"
  by (auto simp: finished_state_def)

lemma exec_op_inv: "db_inv d \<Longrightarrow> allowed op \<Longrightarrow> db_inv (exec_op op d)"
  by (cases op)
     (simp_all add: finished_Valid EnqueueJob_inv ClaimNextJob_inv FinishJob_inv FailAndRetryJob_inv
        QuarantineJob_inv UnquarantineJob_inv RetryJob_inv PauseJob_inv ResumeJob_inv CancelJob_inv
        DeleteJob_inv BatchAction_inv AppendLog_inv Settings_inv RecoverOrphanedJobs_inv
        OpenStore_backfill_inv)

subsection \<open>The board\<close>

type_synonym card = "state \<times> int \<times> int"     \<comment> \<open>state, failed attempts, attempts allowed\<close>
type_synonym board = "int \<Rightarrow> card option"

definition card_of :: "row \<Rightarrow> card" where
  "card_of r = (rState r, rRetryCount r, rMaxRetries r)"

definition board_of :: "db \<Rightarrow> board" where
  "board_of d i = map_option card_of (find_row i d)"

definition change :: "int list \<Rightarrow> (card \<Rightarrow> card option) \<Rightarrow> board \<Rightarrow> board" where
  "change ids f b = (\<lambda>i. if i \<in> set ids then Option.bind (b i) f else b i)"

text \<open>What a batch action does to the card of a job it selects.\<close>

fun batch_card :: "string \<Rightarrow> card \<Rightarrow> card option" where
  "batch_card act (s, k, m) =
    (if act = BatchPause then Some (if s = StateQueued then StatePaused else s, k, m)
     else if act = BatchResume then Some (if s = StatePaused then StateQueued else s, k, m)
     else if act = BatchQuarantine then Some (StateQuarantined, k, m)
     else if act = BatchUnquarantine then
       Some (if s = StateQuarantined then (StateQueued, 0, m) else (s, k, m))
     else if act = BatchCancel then
       Some (if s \<in> {StateQueued, StatePaused, StateRunning} then StateCancelled else s, k, m)
     else if act = BatchRetry then Some (StateQueued, 0, m)
     else if act = BatchDelete then (if deletable s then None else Some (s, k, m))
     else Some (s, k, m))"

fun recover_card :: "card \<Rightarrow> card" where
  "recover_card (s, k, m) =
    (if s = StateRunning then if k < m then (StateQueued, k + 1, m) else (StateQuarantined, k, m)
     else (s, k, m))"

fun recover_half :: "card \<Rightarrow> card" where
  "recover_half (s, k, m) = (if s = StateRunning \<and> k < m then (StateQueued, k + 1, m) else (s, k, m))"

inductive spec :: "store_op \<Rightarrow> board \<Rightarrow> board \<Rightarrow> bool" where
  stays: "spec op b b"
| enqueue: "b i = None \<Longrightarrow> 0 < m \<Longrightarrow> s = StateQueued \<or> s = StatePaused
    \<Longrightarrow> spec (OpEnqueue now j) b (b(i \<mapsto> (s, jRetryCount j, m)))"
| claim: "b i = Some (StateQueued, k, m) \<Longrightarrow> spec (OpClaim now) b (b(i \<mapsto> (StateRunning, k, m)))"
| finish: "b i = Some (s, k, m) \<Longrightarrow> spec (OpFinish now i st msg) b (b(i \<mapsto> (st, k, m)))"
| again: "b i = Some (s, k, m) \<Longrightarrow> k + 1 < m
    \<Longrightarrow> spec (OpFail now i msg) b (b(i \<mapsto> (StateQueued, k + 1, m)))"
| give_up: "b i = Some (s, k, m) \<Longrightarrow> m \<le> k + 1
    \<Longrightarrow> spec (OpFail now i msg) b (b(i \<mapsto> (StateQuarantined, k + 1, m)))"
| quarantine: "b i = Some (s, k, m)
    \<Longrightarrow> spec (OpQuarantine now i reason) b (b(i \<mapsto> (StateQuarantined, k, m)))"
| unquarantine: "b i = Some (StateQuarantined, k, m)
    \<Longrightarrow> spec (OpUnquarantine i) b (b(i \<mapsto> (StateQueued, 0, m)))"
| retry: "b i = Some (s, k, m) \<Longrightarrow> spec (OpRetry i) b (b(i \<mapsto> (StateQueued, 0, m)))"
| pause: "b i = Some (StateQueued, k, m) \<Longrightarrow> spec (OpPause i) b (b(i \<mapsto> (StatePaused, k, m)))"
| resume: "b i = Some (StatePaused, k, m) \<Longrightarrow> spec (OpResume i) b (b(i \<mapsto> (StateQueued, k, m)))"
| cancel: "b i = Some (s, k, m) \<Longrightarrow> s \<in> {StateQueued, StateRunning, StatePaused}
    \<Longrightarrow> spec (OpCancel now i) b (b(i \<mapsto> (StateCancelled, k, m)))"
| delete: "b i = Some (s, k, m) \<Longrightarrow> deletable s \<Longrightarrow> spec (OpDelete i) b (b(i := None))"
| batch: "spec (OpBatch now req) b (change ids (batch_card (bAction req)) b)"
| recover: "spec (OpRecover now) b (\<lambda>i. map_option recover_card (b i))"
| recover_cut: "spec (OpRecover now) b (\<lambda>i. map_option recover_half (b i))"

subsection \<open>Rows and cards\<close>

lemma board_faults [simp]: "board_of (d\<lparr>faults := fs\<rparr>) = board_of d"
  by (simp add: board_of_def fun_eq_iff)

lemma board_quiet [simp]: "board_of (quiet d) = board_of d"
  by (simp add: board_of_def fun_eq_iff)

lemma board_tables [simp]:
  "board_of (d\<lparr>job_logs := ls\<rparr>) = board_of d" "board_of (d\<lparr>queue_state := qs\<rparr>) = board_of d"
  "board_of (d\<lparr>logs_seq := n\<rparr>) = board_of d" "board_of (d\<lparr>jobs_seq := n\<rparr>) = board_of d"
  by (simp_all add: board_of_def find_row_def fun_eq_iff)

lemma find_row_update:
  assumes "\<And>r. rID (f r) = rID r"
  shows "find_row i (e\<lparr>jobs := map_where P f (jobs d)\<rparr>)
       = map_option (\<lambda>r. if P r then f r else r) (find_row i d)"
  by (simp add: find_row_def find_map_where assms)

lemma board_update:
  assumes "\<And>r. rID (f r) = rID r" and "\<And>r. P r \<Longrightarrow> card_of (f r) = g (card_of r)"
    and "\<And>r. P r = C (rID r) (card_of r)"
  shows "board_of (d\<lparr>jobs := map_where P f (jobs d)\<rparr>)
       = (\<lambda>i. map_option (\<lambda>c. if C i c then g c else c) (board_of d i))"
proof (rule ext)
  fix i
  show "board_of (d\<lparr>jobs := map_where P f (jobs d)\<rparr>) i
       = map_option (\<lambda>c. if C i c then g c else c) (board_of d i)"
  proof (cases "find_row i d")
    case (Some r)
    then show ?thesis using find_row_Some [OF Some] assms(2,3) [of r]
      by (auto simp: board_of_def find_row_update [OF assms(1)])
  qed (simp add: board_of_def find_row_update [OF assms(1)])
qed

lemma find_filter_distinct:
  "distinct (map k xs) \<Longrightarrow> find (\<lambda>x. k x = i) (filter (\<lambda>x. \<not> P x) xs)
     = (case find (\<lambda>x. k x = i) xs of None \<Rightarrow> None | Some x \<Rightarrow> if P x then None else Some x)"
proof (induction xs)
  case (Cons x xs)
  then show ?case
  proof (cases "k x = i")
    case True
    then have "find (\<lambda>y. k y = i) xs = None" using Cons.prems by (simp add: find_None_iff) (metis image_eqI)
    with Cons True show ?thesis by (simp split: if_splits)
  qed auto
qed simp

lemma board_delete:
  assumes "db_inv d" and "\<And>r. P r = C (rID r) (card_of r)"
  shows "board_of (d\<lparr>jobs := filter (\<lambda>r. \<not> P r) (jobs d)\<rparr>)
       = (\<lambda>i. Option.bind (board_of d i) (\<lambda>c. if C i c then None else Some c))"
proof (rule ext)
  fix i
  have "distinct (map rID (jobs d))" using assms(1) distinct_ids by (auto simp: db_inv_def)
  then have f: "find_row i (d\<lparr>jobs := filter (\<lambda>r. \<not> P r) (jobs d)\<rparr>)
      = (case find_row i d of None \<Rightarrow> None | Some x \<Rightarrow> if P x then None else Some x)"
    by (simp add: find_row_def find_filter_distinct)
  show "board_of (d\<lparr>jobs := filter (\<lambda>r. \<not> P r) (jobs d)\<rparr>) i
       = Option.bind (board_of d i) (\<lambda>c. if C i c then None else Some c)"
  proof (cases "find_row i d")
    case (Some r)
    then show ?thesis using find_row_Some [OF Some] assms(2) [of r]
      by (auto simp: board_of_def f)
  qed (simp add: board_of_def f)
qed

text \<open>One guarded statement, on the board.\<close>

lemma board_exec_update:
  assumes "\<And>r. rID (f r) = rID r" and "\<And>r. P r \<Longrightarrow> card_of (f r) = g (card_of r)"
    and "\<And>r. P r = C (rID r) (card_of r)"
  shows "board_of (snd (exec_update P f d)) \<in>
     {board_of d, \<lambda>i. map_option (\<lambda>c. if C i c then g c else c) (board_of d i)}"
  by (rule exec_update_cases [of P f d]) (simp_all add: board_update [where g = g and C = C, OF assms])

lemma board_exec_delete:
  assumes "db_inv d" and "\<And>r. P r = C (rID r) (card_of r)"
  shows "board_of (snd (exec_delete P d)) \<in>
     {board_of d, \<lambda>i. Option.bind (board_of d i) (\<lambda>c. if C i c then None else Some c)}"
  by (rule exec_delete_cases [of P d]) (simp_all add: board_delete [where C = C, OF assms])

lemma update_one:
  "(\<lambda>i'. map_option (\<lambda>c. if i' = i \<and> G c then g c else c) (b i'))
   = (case b i of None \<Rightarrow> b | Some c \<Rightarrow> if G c then b(i \<mapsto> g c) else b)"
proof (rule ext)
  fix i'
  show "map_option (\<lambda>c. if i' = i \<and> G c then g c else c) (b i')
     = (case b i of None \<Rightarrow> b | Some c \<Rightarrow> if G c then b(i \<mapsto> g c) else b) i'"
    by (cases "b i'"; cases "b i"; auto)
qed

lemma board_update_one:
  assumes "\<And>r. rID (f r) = rID r" and "\<And>r. P r \<Longrightarrow> card_of (f r) = g (card_of r)"
    and "\<And>r. P r \<longleftrightarrow> rID r = i \<and> G (card_of r)"
  shows "board_of (d\<lparr>jobs := map_where P f (jobs d)\<rparr>) = (case board_of d i of None \<Rightarrow> board_of d
     | Some c \<Rightarrow> if G c then (board_of d)(i \<mapsto> g c) else board_of d)"
  using board_update [of f P g "\<lambda>j c. j = i \<and> G c" d, OF assms(1,2)] assms(3)
  by (simp add: update_one)

lemma find_row_mem: "db_inv d \<Longrightarrow> r \<in> set (jobs d) \<Longrightarrow> find_row (rID r) d = Some r"
proof -
  assume a: "db_inv d" "r \<in> set (jobs d)"
  have "distinct (map rID (jobs d))" using a(1) distinct_ids by (auto simp: db_inv_def)
  then have i: "inj_on rID (set (jobs d))" by (simp add: distinct_map)
  obtain q where q: "find_row (rID r) d = Some q" using a(2) find_row_None [of "rID r" d]
    by (cases "find_row (rID r) d") auto
  with find_row_Some [OF q] i a(2) show ?thesis by (auto dest: inj_onD)
qed

text \<open>A statement guarded by one id changes at most that card.\<close>

lemma exec_update_one:
  assumes "\<And>r. rID (f r) = rID r" and "\<And>r. P r \<Longrightarrow> card_of (f r) = g (card_of r)"
    and "\<And>r. P r \<longleftrightarrow> rID r = i \<and> G (card_of r)"
  obtains "board_of (snd (exec_update P f d)) = board_of d"
    | c where "board_of d i = Some c" "G c"
        "board_of (snd (exec_update P f d)) = (board_of d)(i \<mapsto> g c)"
  using board_exec_update [of f P g "\<lambda>j c. j = i \<and> G c" d, OF assms(1,2)] assms(3)
  by (auto simp: update_one split: option.splits if_splits)

lemma spec_update_one:
  assumes "\<And>r. rID (f r) = rID r" and "\<And>r. P r \<Longrightarrow> card_of (f r) = g (card_of r)"
    and "\<And>r. P r \<longleftrightarrow> rID r = i \<and> G (card_of r)"
    and "\<And>s k m. board_of d i = Some (s, k, m) \<Longrightarrow> G (s, k, m)
           \<Longrightarrow> spec op (board_of d) ((board_of d)(i \<mapsto> g (s, k, m)))"
  shows "spec op (board_of d) (board_of (snd (exec_update P f d)))"
  by (rule exec_update_one [of f P g i G d, OF assms(1-3)]) (auto intro: stays assms(4))

subsection \<open>The simulation, operation by operation\<close>

lemma FinishJob_spec:
  "spec (OpFinish now i st msg) (board_of d) (board_of (snd (FinishJob now i st msg d)))"
  unfolding store_ops
  by (rule spec_update_one [where g = "\<lambda>(s, k, m). (st, k, m)" and i = i and G = "\<lambda>_. True"])
     (auto simp: on_id_def card_of_def intro: spec.finish)

lemma QuarantineJob_spec:
  "spec (OpQuarantine now i reason) (board_of d) (board_of (snd (QuarantineJob now i reason d)))"
  unfolding store_ops
  by (rule spec_update_one [where g = "\<lambda>(s, k, m). (StateQuarantined, k, m)" and i = i and G = "\<lambda>_. True"])
     (auto simp: on_id_def card_of_def intro: spec.quarantine)

lemma UnquarantineJob_spec:
  "spec (OpUnquarantine i) (board_of d) (board_of (snd (UnquarantineJob i d)))"
  unfolding store_ops
  by (rule spec_update_one [where g = "\<lambda>(s, k, m). (StateQueued, 0, m)" and i = i
        and G = "\<lambda>(s, k, m). s = StateQuarantined"])
     (simp_all add: card_of_def spec.unquarantine)

lemma PauseJob_spec: "spec (OpPause i) (board_of d) (board_of (snd (PauseJob i d)))"
  unfolding store_ops
  by (rule spec_update_one [where g = "\<lambda>(s, k, m). (StatePaused, k, m)" and i = i
        and G = "\<lambda>(s, k, m). s = StateQueued"])
     (simp_all add: card_of_def spec.pause)

lemma ResumeJob_spec: "spec (OpResume i) (board_of d) (board_of (snd (ResumeJob i d)))"
  unfolding store_ops
  by (rule spec_update_one [where g = "\<lambda>(s, k, m). (StateQueued, k, m)" and i = i
        and G = "\<lambda>(s, k, m). s = StatePaused"])
     (simp_all add: card_of_def spec.resume)

lemma CancelJob_spec: "spec (OpCancel now i) (board_of d) (board_of (snd (CancelJob now i d)))"
  unfolding store_ops
  by (rule spec_update_one [where g = "\<lambda>(s, k, m). (StateCancelled, k, m)" and i = i
        and G = "\<lambda>(s, k, m). s \<in> {StateQueued, StateRunning, StatePaused}"])
     (simp_all add: card_of_def spec.cancel)

lemma RetryJob_spec: "spec (OpRetry i) (board_of d) (board_of (snd (RetryJob i d)))"
proof -
  let ?f = "\<lambda>r. r\<lparr>rState := StateQueued, rLastError := Some [], rQuarantineReason := Some [],
                   rRetryCount := 0, rStartedAt := None, rFinishedAt := None\<rparr>"
  have s: "spec (OpRetry i) (board_of d) (board_of (snd (exec_update (on_id i) ?f d)))"
    by (rule spec_update_one [where g = "\<lambda>(s, k, m). (StateQueued, 0, m)" and i = i and G = "\<lambda>_. True"])
       (auto simp: on_id_def card_of_def intro: spec.retry)
  obtain x d1 where x: "exec_update (on_id i) ?f d = (x, d1)" by (cases "exec_update (on_id i) ?f d")
  obtain fs where "snd (GetJob i d1) = d1\<lparr>faults := fs\<rparr>" using GetJob_db by blast
  then have "board_of (snd (RetryJob i d)) = board_of d1"
    by (auto simp: RetryJob_def x split: sum.split)
  then show ?thesis using s by (simp add: x)
qed

lemma DeleteJob_spec:
  assumes "db_inv d"
  shows "spec (OpDelete i) (board_of d) (board_of (snd (DeleteJob i d)))"
proof -
  let ?P = "\<lambda>r. rID r = i \<and> deletable (rState r)"
  let ?b = "\<lambda>j. Option.bind (board_of d j) (\<lambda>c. if j = i \<and> deletable (fst c) then None else Some c)"
  have "board_of (snd (DeleteJob i d)) \<in> {board_of d, ?b}"
    unfolding store_ops
    by (rule board_exec_delete [OF assms, where C = "\<lambda>j c. j = i \<and> deletable (fst c)"])
       (simp add: card_of_def)
  moreover have "?b = (case board_of d i of None \<Rightarrow> board_of d
       | Some c \<Rightarrow> if deletable (fst c) then (board_of d)(i := None) else board_of d)"
    by (rule ext) (auto split: option.split simp: bind_eq_None_conv)
  ultimately show ?thesis
    by (auto split: option.splits if_splits intro: spec.delete stays)
qed

lemma atomic_spec:
  assumes "atomic op" and "spec ev (board_of d) (board_of (snd (op (quiet d))))"
  shows "spec ev (board_of d) (board_of (snd (op d)))"
  by (rule atomicE [OF assms(1), of d]) (use assms(2) stays in auto)

lemma ClaimNextJob_spec:
  assumes "db_inv d"
  shows "spec (OpClaim now) (board_of d) (board_of (snd (ClaimNextJob now d)))"
proof (rule atomic_spec [OF ClaimNextJob_atomic])
  show "spec (OpClaim now) (board_of d) (board_of (snd (ClaimNextJob now (quiet d))))"
  proof (cases "next_row (quiet d)")
    case None
    then show ?thesis by (simp add: ClaimNextJob_quiet stays)
  next
    case (Some r)
    let ?g = "\<lambda>(s, k, m). (StateRunning, k, m)"
    have "rState r = StateQueued" "find_row (rID r) d = Some r"
      using next_row_queued [OF Some] find_row_mem [OF assms] by simp_all
    then have b: "board_of d (rID r) = Some (StateQueued, rRetryCount r, rMaxRetries r)"
      by (simp add: board_of_def card_of_def)
    have "board_of (snd (ClaimNextJob now (quiet d)))
        = (board_of d)(rID r \<mapsto> (StateRunning, rRetryCount r, rMaxRetries r))"
      unfolding ClaimNextJob_quiet [OF quiet_faults(2)] Some option.case snd_conv
      by (subst board_update_one [where g = ?g and i = "rID r" and G = "\<lambda>_. True"])
         (simp_all add: on_id_def card_of_def b)
    then show ?thesis using spec.claim [of "board_of d" "rID r", OF b] by simp
  qed
qed

lemma FailAndRetryJob_spec:
  "spec (OpFail now i msg) (board_of d) (board_of (snd (FailAndRetryJob now i msg d)))"
proof (rule atomic_spec [OF FailAndRetryJob_atomic])
  show "spec (OpFail now i msg) (board_of d) (board_of (snd (FailAndRetryJob now i msg (quiet d))))"
  proof (cases "find_row i d")
    case None
    then show ?thesis by (simp add: FailAndRetryJob_quiet stays)
  next
    case (Some r)
    let ?k = "rRetryCount r" and ?m = "rMaxRetries r"
    have b: "board_of d i = Some (rState r, ?k, ?m)"
      by (simp add: board_of_def card_of_def Some)
    have upd: "board_of ((quiet d)\<lparr>jobs := map_where (on_id i) f (jobs (quiet d))\<rparr>) = (board_of d)(i \<mapsto> c)"
      if "\<And>q. rID (f q) = rID q" and "card_of (f r) = c" for f c
    proof (rule ext)
      fix j
      show "board_of ((quiet d)\<lparr>jobs := map_where (on_id i) f (jobs (quiet d))\<rparr>) j = ((board_of d)(i \<mapsto> c)) j"
      proof (cases "find_row j d")
        case (Some q)
        then show ?thesis using that find_row_Some [OF Some] \<open>find_row i d = Some r\<close>
          by (cases "j = i") (simp_all add: board_of_def find_row_update on_id_def)
      qed (use \<open>find_row i d = Some r\<close> in \<open>auto simp: board_of_def find_row_update that(1)\<close>)
    qed
    show ?thesis
    proof (cases "?m \<le> ?k + 1")
      case True
      have "board_of (snd (FailAndRetryJob now i msg (quiet d)))
          = (board_of d)(i \<mapsto> (StateQuarantined, ?k + 1, ?m))"
        unfolding FailAndRetryJob_quiet [OF quiet_faults(2)] quiet_faults(9) Some option.case if_P [OF True] snd_conv
        by (rule upd) (simp_all add: card_of_def)
      then show ?thesis using spec.give_up [where b = "board_of d", OF b True] by simp
    next
      case False
      have "board_of (snd (FailAndRetryJob now i msg (quiet d)))
          = (board_of d)(i \<mapsto> (StateQueued, ?k + 1, ?m))"
        unfolding FailAndRetryJob_quiet [OF quiet_faults(2)] quiet_faults(9) Some option.case if_not_P [OF False] snd_conv
        by (rule upd) (simp_all add: card_of_def)
      then show ?thesis using spec.again [where b = "board_of d", OF b] False by simp
    qed
  qed
qed

lemma find_snoc: "find P (xs @ [x]) = (case find P xs of None \<Rightarrow> if P x then Some x else None | Some y \<Rightarrow> Some y)"
  by (induction xs) auto

lemma EnqueueJob_spec:
  assumes "db_inv d" and "enqueueable j"
  shows "spec (OpEnqueue now j) (board_of d) (board_of (snd (EnqueueJob now j d)))"
proof -
  let ?i = "jobs_seq d + 1"
  let ?r = "insert_row (enqueue_defaults now j) ?i"
  have none: "find_row ?i d = None"
    using assms(1) by (force simp: find_row_None db_inv_def jobs_ok_def)
  have b: "board_of (d\<lparr>jobs := jobs d @ [?r], jobs_seq := ?i\<rparr>) = (board_of d)(?i \<mapsto> card_of ?r)"
  proof (rule ext)
    fix k
    have "find_row k (d\<lparr>jobs := jobs d @ [?r]\<rparr>)
        = (case find_row k d of None \<Rightarrow> if k = ?i then Some ?r else None | Some q \<Rightarrow> Some q)"
      by (simp add: find_row_def insert_row_def find_snoc split: option.split)
    then show "board_of (d\<lparr>jobs := jobs d @ [?r], jobs_seq := ?i\<rparr>) k = ((board_of d)(?i \<mapsto> card_of ?r)) k"
      using none by (simp add: board_of_def split: option.split)
  qed
  have c: "card_of ?r = (rState ?r, jRetryCount j, rMaxRetries ?r)"
    by (simp add: card_of_def insert_row_def enqueue_defaults_def Let_def)
  have s: "rState ?r = StateQueued \<or> rState ?r = StatePaused" "0 < rMaxRetries ?r"
    using assms(2) by (auto simp: enqueueable_def insert_row_def enqueue_defaults_def Let_def)
  have sp: "spec (OpEnqueue now j) (board_of d) (board_of (d\<lparr>jobs := jobs d @ [?r], jobs_seq := ?i\<rparr>))"
    unfolding b c by (rule spec.enqueue) (use none s in \<open>simp_all add: board_of_def\<close>)
  have "board_of (snd (EnqueueJob now j d)) \<in> {board_of d, board_of (d\<lparr>jobs := jobs d @ [?r], jobs_seq := ?i\<rparr>)}"
  proof (rule tick_cases [of d])
    fix fs assume t: "tick d = (None, d\<lparr>faults := fs\<rparr>)"
    show ?thesis
      by (rule tick_cases [of "d\<lparr>jobs := jobs d @ [?r], jobs_seq := ?i, faults := fs\<rparr>"])
         (simp_all add: EnqueueJob_def Let_def driver_def t)
  qed (simp_all add: EnqueueJob_def Let_def driver_def)
  then show ?thesis using sp stays by auto
qed

text \<open>A statement on a set of ids changes the cards of those jobs.\<close>

lemma board_update_in:
  assumes "\<And>r. rID (f r) = rID r"
    and "\<And>r. rID r \<in> set ids \<Longrightarrow> P r \<Longrightarrow> G (card_of r) = Some (card_of (f r))"
    and "\<And>r. rID r \<in> set ids \<Longrightarrow> \<not> P r \<Longrightarrow> G (card_of r) = Some (card_of r)"
    and "\<And>r. P r \<Longrightarrow> rID r \<in> set ids"
  shows "board_of (e\<lparr>jobs := map_where P f (jobs d)\<rparr>) = change ids G (board_of d)"
proof (rule ext)
  fix i
  show "board_of (e\<lparr>jobs := map_where P f (jobs d)\<rparr>) i = change ids G (board_of d) i"
  proof (cases "find_row i d")
    case (Some r)
    then show ?thesis using find_row_Some [OF Some] assms(2-4) [of r]
      by (auto simp: board_of_def find_row_update [OF assms(1)] change_def)
  qed (simp add: board_of_def find_row_update [OF assms(1)] change_def)
qed

lemma board_exec_update_in:
  assumes "\<And>r. rID (f r) = rID r"
    and "\<And>r. rID r \<in> set ids \<Longrightarrow> P r \<Longrightarrow> G (card_of r) = Some (card_of (f r))"
    and "\<And>r. rID r \<in> set ids \<Longrightarrow> \<not> P r \<Longrightarrow> G (card_of r) = Some (card_of r)"
    and "\<And>r. P r \<Longrightarrow> rID r \<in> set ids"
  shows "board_of (snd (exec_update P f d)) \<in> {board_of d, change ids G (board_of d)}"
  by (rule exec_update_cases [of P f d])
     (simp_all add: board_update_in [where e = d and G = G and ids = ids, OF assms])

lemma batch_delete_board:
  assumes "db_inv d"
  shows "board_of (snd (exec_delete (\<lambda>r. rID r \<in> set ids \<and> deletable (rState r)) d))
     \<in> {board_of d, change ids (\<lambda>c. if deletable (fst c) then None else Some c) (board_of d)}"
proof -
  have "(\<lambda>i. Option.bind (board_of d i) (\<lambda>c. if i \<in> set ids \<and> deletable (fst c) then None else Some c))
      = change ids (\<lambda>c. if deletable (fst c) then None else Some c) (board_of d)"
    by (rule ext) (auto simp: change_def)
  then show ?thesis
    using board_exec_delete [OF assms, where C = "\<lambda>i c. i \<in> set ids \<and> deletable (fst c)"
        and P = "\<lambda>r. rID r \<in> set ids \<and> deletable (rState r)"]
    by (simp add: card_of_def)
qed

lemma batch_stmt_board:
  assumes "db_inv d" and "batch_exec now req ids = Some stmt"
  shows "board_of (snd (stmt d)) \<in> {board_of d, change ids (batch_card (bAction req)) (board_of d)}"
proof -
  define act where "act = bAction req"
  have del: "(\<lambda>c. if deletable (fst c) then None else Some c) = batch_card BatchDelete"
    by (rule ext) (auto simp: batch_card.simps)
  show ?thesis using assms(2) unfolding batch_exec_def Let_def act_def [symmetric]
    apply (elim if_Some_elim)
    subgoal by (rule board_exec_update_in) (simp_all add: card_of_def)
    subgoal by (rule board_exec_update_in) (simp_all add: card_of_def)
    subgoal by (rule board_exec_update_in) (simp_all add: card_of_def)
    subgoal by (rule board_exec_update_in) (simp_all add: card_of_def)
    subgoal by (rule board_exec_update_in) (simp_all add: card_of_def)
    subgoal by (rule board_exec_update_in) (simp_all add: card_of_def)
    subgoal using batch_delete_board [OF assms(1)] by (simp only: del)
    by simp
qed

lemma BatchAction_spec:
  assumes "db_inv d"
  shows "spec (OpBatch now req) (board_of d) (board_of (snd (BatchAction now req d)))"
proof -
  obtain x d1 where t: "batch_targets req d = (x, d1)" by (cases "batch_targets req d")
  obtain fs where d1: "d1 = d\<lparr>faults := fs\<rparr>" using batch_targets_db [of req d] t by auto
  have inv: "db_inv d1" and b: "board_of d1 = board_of d" using assms by (simp_all add: d1)
  show ?thesis
  proof (cases x)
    case (Inl e)
    then show ?thesis by (simp add: BatchAction_snd t b stays)
  next
    case (Inr ids)
    show ?thesis
    proof (cases "ids = [] \<or> batch_exec now req ids = None")
      case True
      then show ?thesis by (auto simp: BatchAction_snd t b Inr stays)
    next
      case False
      then obtain stmt where s: "batch_exec now req ids = Some stmt" "ids \<noteq> []" by auto
      show ?thesis
        using batch_stmt_board [OF inv s(1)] spec.batch [of now req "board_of d" ids] stays
        by (auto simp: BatchAction_snd t b Inr s)
    qed
  qed
qed

text \<open>Recovery is two statements: a failure of the second leaves the first one's effect.\<close>

fun sweep_card :: "card \<Rightarrow> card" where
  "sweep_card (s, k, m) = (if s = StateRunning then StateQuarantined else s, k, m)"

lemma recover_first:
  "board_of (e\<lparr>jobs := map_where (\<lambda>r. rState r = StateRunning \<and> rRetryCount r < rMaxRetries r)
       (\<lambda>r. r\<lparr>rState := StateQueued, rRetryCount := rRetryCount r + 1, rLastError := Some t, rFinishedAt := Some now\<rparr>)
       (jobs d)\<rparr>) = (\<lambda>i. map_option recover_half (board_of d i))"
  by (rule ext) (auto simp: board_of_def find_row_update card_of_def option.map_comp comp_def
       intro!: option.map_cong)

lemma recover_second:
  "board_of (e\<lparr>jobs := map_where (\<lambda>r. rState r = StateRunning)
       (\<lambda>r. r\<lparr>rState := StateQuarantined, rQuarantineReason := Some t, rFinishedAt := Some now\<rparr>)
       (jobs d)\<rparr>)
   = (\<lambda>i. map_option sweep_card (board_of d i))"
  by (rule ext) (auto simp: board_of_def find_row_update card_of_def option.map_comp comp_def
       intro!: option.map_cong)

lemma recover_twice:
  "sweep_card (recover_half c) = recover_card c"
  by (cases c) simp

lemma RecoverOrphanedJobs_spec:
  "spec (OpRecover now) (board_of d) (board_of (snd (RecoverOrphanedJobs now d)))"
proof -
  let ?P1 = "\<lambda>r. rState r = StateRunning \<and> rRetryCount r < rMaxRetries r"
  let ?f1 = "\<lambda>r. r\<lparr>rState := StateQueued, rRetryCount := rRetryCount r + 1,
                   rLastError := Some ''daemon restarted while job was running'',
                   rFinishedAt := Some now\<rparr>"
  let ?f2 = "\<lambda>r. r\<lparr>rState := StateQuarantined,
                       rQuarantineReason := Some ''daemon restarted and max retries exceeded'',
                       rFinishedAt := Some now\<rparr>"
  let ?half = "\<lambda>i. map_option recover_half (board_of d i)"
  let ?full = "\<lambda>i. map_option recover_card (board_of d i)"
  have two: "(\<lambda>i. map_option sweep_card (?half i)) = ?full"
    by (simp add: option.map_comp comp_def recover_twice)
  have "board_of (snd (RecoverOrphanedJobs now d)) \<in> {board_of d, ?half, ?full}"
  proof (rule exec_update_cases [of ?P1 ?f1 d])
    fix fs assume e: "exec_update ?P1 ?f1 d =
        (Inr (length (filter ?P1 (jobs d))), d\<lparr>faults := fs, jobs := map_where ?P1 ?f1 (jobs d)\<rparr>)"
    define d1 where "d1 = d\<lparr>faults := fs, jobs := map_where ?P1 ?f1 (jobs d)\<rparr>"
    have b1: "board_of d1 = ?half" unfolding d1_def by (rule recover_first)
    have "snd (RecoverOrphanedJobs now d) = snd (exec_update (\<lambda>r. rState r = StateRunning) ?f2 d1)"
      by (simp add: RecoverOrphanedJobs_def e d1_def split: prod.split sum.split)
    moreover have "board_of (snd (exec_update (\<lambda>r. rState r = StateRunning) ?f2 d1)) \<in> {?half, ?full}"
      by (rule exec_update_cases [of "\<lambda>r. rState r = StateRunning" ?f2 d1])
         (simp_all add: b1 recover_second two del: faults_last)
    ultimately show ?thesis by auto
  qed (simp add: RecoverOrphanedJobs_def)
  then show ?thesis using stays spec.recover [of now "board_of d"] spec.recover_cut [of now "board_of d"] by auto
qed

text \<open>Logs, settings and the backfill do not touch the board.\<close>

lemma atomic_board:
  assumes "atomic op" and "board_of (snd (op (quiet d))) = board_of d"
  shows "board_of (snd (op d)) = board_of d"
  by (rule atomicE [OF assms(1), of d]) (use assms(2) in auto)

lemma logs_settings_board:
  "board_of (snd (AppendLog now i stream msg d)) = board_of d"
  "board_of (snd (SetQueuePaused p d)) = board_of d"
  "board_of (snd (SetQueueConcurrency n d)) = board_of d"
  by (rule atomic_board, simp, simp add: AppendLog_def SetQueuePaused_def SetQueueConcurrency_def)+

lemma backfill_items_board: "board_of (backfill_items its d) = board_of d"
proof (induction its d rule: backfill_items.induct)
  case (2 it its d)
  let ?f = "\<lambda>r. r\<lparr>rSite := ExtractRoot (rSource it) (rMethod it), rPath := ExtractPath (rSource it)\<rparr>"
  have "board_of (snd (exec_update (on_id (rID it)) ?f d))
      \<in> {board_of d, \<lambda>i. map_option (\<lambda>c. if i = rID it then c else c) (board_of d i)}"
    by (rule board_exec_update) (simp_all add: card_of_def on_id_def)
  with 2 show ?case by (simp add: option.map_ident)
qed simp

lemma OpenStore_backfill_board: "board_of (OpenStore_backfill d) = board_of d"
  unfolding OpenStore_backfill_def
  by (rule tick_cases [of d]) (auto simp: backfill_items_board)

lemma exec_op_spec:
  assumes "db_inv d" and "allowed op"
  shows "spec op (board_of d) (board_of (exec_op op d))"
  using assms(2)
  by (cases op)
     (simp_all add: FinishJob_spec QuarantineJob_spec UnquarantineJob_spec PauseJob_spec ResumeJob_spec
       CancelJob_spec RetryJob_spec DeleteJob_spec [OF assms(1)] ClaimNextJob_spec [OF assms(1)]
       FailAndRetryJob_spec EnqueueJob_spec [OF assms(1)] BatchAction_spec [OF assms(1)]
       RecoverOrphanedJobs_spec logs_settings_board OpenStore_backfill_board stays)

subsection \<open>What the board rules out\<close>

lemma batch_card_running:
  "batch_card act (s, k, m) = Some (StateRunning, k', m') \<Longrightarrow> s = StateRunning \<and> k' = k \<and> m' = m"
  by (simp split: if_split_asm)

lemma spec_running:
  assumes "spec op b b'" and "allowed op" and "b' i = Some (StateRunning, k, m)"
  shows "b i = Some (StateRunning, k, m) \<or> (b i = Some (StateQueued, k, m) \<and> (\<exists>now. op = OpClaim now))"
  using assms(1)
proof (cases rule: spec.cases)
  case (batch now req ids)
  show ?thesis
  proof (cases "i \<in> set ids")
    case True
    then obtain s k' m' where b: "b i = Some (s, k', m')"
      "batch_card (bAction req) (s, k', m') = Some (StateRunning, k, m)"
      using assms(3) by (auto simp: batch change_def bind_eq_Some_conv)
    show ?thesis using b(1) batch_card_running [OF b(2)] by simp
  qed (use assms(3) in \<open>simp add: batch change_def\<close>)
next
  case (recover now)
  then show ?thesis using assms(3) by (cases "b i") (auto split: if_split_asm)
next
  case (recover_cut now)
  then show ?thesis using assms(3) by (cases "b i") (auto split: if_split_asm)
next
  case (finish i' s' k' m' now st msg)
  then show ?thesis using assms(2,3) by (auto split: if_split_asm)
qed (use assms(2,3) in \<open>simp_all split: if_split_asm\<close>)

lemma spec_running_again:
  assumes "spec op b b'" and "allowed op" and "b' i = Some (StateRunning, k, m)" and "b i \<noteq> b' i"
  shows "b i = Some (StateQueued, k, m) \<and> (\<exists>now. op = OpClaim now)"
  using spec_running [OF assms(1-3)] assms(3,4) by auto

text \<open>A claim starts one job at most.\<close>

lemma spec_claim_one:
  assumes "spec (OpClaim now) b b'" and "b' i \<noteq> b i" and "b' j \<noteq> b j"
  shows "i = j"
  using assms(1) by (cases rule: spec.cases) (use assms(2,3) in \<open>auto split: if_split_asm\<close>)

text \<open>A job that disappears was deleted, in a state that allows it.\<close>

lemma batch_card_none: "batch_card act (s, k, m) = None \<Longrightarrow> act = BatchDelete \<and> deletable s"
  by (simp split: if_split_asm)

lemma spec_gone:
  assumes "spec op b b'" and "b i = Some (s, k, m)" and "b' i = None"
  shows "deletable s"
  using assms(1)
proof (cases rule: spec.cases)
  case (batch now req ids)
  then have "batch_card (bAction req) (s, k, m) = None"
    using assms(2,3) by (auto simp: change_def split: if_split_asm)
  then show ?thesis using batch_card_none by blast
qed (use assms(2,3) in \<open>simp_all split: if_split_asm\<close>)

subsection \<open>The interface of the store\<close>

text \<open>Whatever keeps an invariant and follows \<open>spec\<close> on a board of cards is a job store. What the
  queue needs of a run of operations is proved once, for any of them.\<close>

locale job_board =
  fixes inv :: "'s \<Rightarrow> bool" and board :: "'s \<Rightarrow> board" and exec :: "store_op \<Rightarrow> 's \<Rightarrow> 's"
  assumes keeps: "inv s \<Longrightarrow> allowed op \<Longrightarrow> inv (exec op s)"
    and follows: "inv s \<Longrightarrow> allowed op \<Longrightarrow> spec op (board s) (board (exec op s))"
begin

lemma run_inv: "inv s \<Longrightarrow> list_all allowed ops \<Longrightarrow> inv (fold exec ops s)"
  by (induction ops arbitrary: s) (auto intro: keeps)

lemma run_split:
  "inv s \<Longrightarrow> list_all allowed (ops @ op # ops')
    \<Longrightarrow> inv (fold exec ops s) \<and> spec op (board (fold exec ops s)) (board (fold exec (ops @ [op]) s))"
  using run_inv follows by auto

text \<open>A running job was running from the start or was claimed by an operation of the run.\<close>

lemma run_running:
  assumes "inv s" and "list_all allowed ops" and "board (fold exec ops s) i = Some (StateRunning, k, m)"
  shows "(\<exists>k m. board s i = Some (StateRunning, k, m)) \<or> (\<exists>now. OpClaim now \<in> set ops)"
  using assms
proof (induction ops arbitrary: k m rule: rev_induct)
  case (snoc op ops)
  then have a: "list_all allowed ops" "allowed op" by auto
  from run_inv [OF snoc.prems(1) a(1)] follows [OF _ a(2)]
  have "spec op (board (fold exec ops s)) (board (fold exec (ops @ [op]) s))" by simp
  from spec_running [OF this a(2) snoc.prems(3)] snoc.IH [OF snoc.prems(1) a(1)] show ?case by auto
qed auto

text \<open>Two jobs that both went from not running to running took two claims.\<close>

lemma run_two_claims:
  assumes "inv s" and "allowed op" and "board s i \<noteq> board (exec op s) i" and "board s j \<noteq> board (exec op s) j"
    and "board (exec op s) i = Some (StateRunning, k, m)"
  shows "i = j"
proof -
  from spec_running_again [OF follows [OF assms(1,2)] assms(2,5)] assms(3)
  obtain now where "op = OpClaim now" by auto
  then show ?thesis using spec_claim_one follows [OF assms(1,2)] assms(3,4) by metis
qed

text \<open>An unfinished job never disappears in one step.\<close>

lemma step_keeps_unfinished:
  assumes "inv s" and "allowed op" and "board s i = Some (st, k, m)" and "\<not> deletable st"
  shows "board (exec op s) i \<noteq> None"
  using spec_gone [OF follows [OF assms(1,2)] assms(3)] assms(4) by blast

end

interpretation store: job_board db_inv board_of exec_op
  by unfold_locales (simp_all add: exec_op_inv exec_op_spec)

end
