(* ===== verification/StoreLaws.thy ===== *)
theory StoreLaws
  imports StoreSpec
begin

text \<open>
  What each operation of the job store does on a database that does not fail, and the contract the
  guarded changes of state share; the properties of the store are at the end of each section.
\<close>

subsection \<open>Rows\<close>

lemma map_where_cong:
  "(\<And>x. x \<in> set xs \<Longrightarrow> P x = Q x) \<Longrightarrow> (\<And>x. x \<in> set xs \<Longrightarrow> Q x \<Longrightarrow> f x = g x)
   \<Longrightarrow> map_where P f xs = map_where Q g xs"
  by (induction xs) (auto simp: map_where_def)

lemma find_row_upd:
  "find_row i d = Some r \<Longrightarrow> (\<And>q. rID (f q) = rID q)
   \<Longrightarrow> find_row i (e\<lparr>jobs := map_where P f (jobs d)\<rparr>) = Some (if P r then f r else r)"
  by (simp add: find_row_update)

lemma find_row_other:
  "(\<And>q. rID (f q) = rID q) \<Longrightarrow> (\<And>q. P q \<Longrightarrow> rID q \<noteq> j)
   \<Longrightarrow> find_row j (e\<lparr>jobs := map_where P f (jobs d)\<rparr>) = find_row j d"
  using find_row_Some [of j d]
  by (cases "find_row j d") (auto simp: find_row_update)

lemma find_row_on_id_other:
  "(\<And>q. rID (f q) = rID q) \<Longrightarrow> j \<noteq> i
   \<Longrightarrow> find_row j (e\<lparr>jobs := map_where (on_id i) f (jobs d)\<rparr>) = find_row j d"
  by (rule find_row_other) (auto simp: on_id_def)

lemma no_row_guard:
  assumes "db_inv d"
  shows "length (filter (\<lambda>r. rID r = i \<and> G r) (jobs d)) = 0 \<longleftrightarrow>
     (case find_row i d of None \<Rightarrow> True | Some r \<Rightarrow> \<not> G r)"
proof (cases "find_row i d")
  case None
  then have "\<forall>r \<in> set (jobs d). rID r \<noteq> i" by (auto simp: find_row_None)
  then show ?thesis using None by (auto simp: filter_empty_conv)
next
  case (Some r)
  have "q = r" if "q \<in> set (jobs d)" "rID q = i" for q
    using find_row_mem [OF assms that(1)] that(2) Some by simp
  then show ?thesis using Some find_row_Some [OF Some] by (auto simp: filter_empty_conv)
qed

subsection \<open>Guarded changes of state\<close>

text \<open>\<open>PauseJob\<close>, \<open>ResumeJob\<close>, \<open>UnquarantineJob\<close> and \<open>CancelJob\<close> share one contract: the change
  happens when the job is in a state the guard admits, and otherwise the call says so and does
  nothing.\<close>

locale guarded_change =
  fixes op :: "int \<Rightarrow> unit op" and guard :: "state \<Rightarrow> bool" and eff :: "row \<Rightarrow> row" and msg :: "int \<Rightarrow> string"
  assumes op_def: "op i d = (case exec_update (\<lambda>r. rID r = i \<and> guard (rState r)) eff d of
       (Inl e, d1) \<Rightarrow> (Inl e, d1)
     | (Inr n, d1) \<Rightarrow> if n = 0 then (Inl (ErrMsg (msg i)), d1) else (Inr (), d1))"
    and same_id: "rID (eff r) = rID r"
    and leaves: "guard (rState r) \<Longrightarrow> \<not> guard (rState (eff r))"
begin

lemma quiet_cases:
  assumes "db_inv d" and "faults d = []"
  shows "op i d = (case find_row i d of
      Some r \<Rightarrow> if guard (rState r)
        then (Inr (), d\<lparr>jobs := map_where (on_id i) eff (jobs d)\<rparr>) else (Inl (ErrMsg (msg i)), d)
    | None \<Rightarrow> (Inl (ErrMsg (msg i)), d))"
proof -
  let ?P = "\<lambda>r. rID r = i \<and> guard (rState r)"
  have none: "map_where ?P eff (jobs d) = jobs d" if "length (filter ?P (jobs d)) = 0"
    by (rule map_where_id) (use that in \<open>auto simp: filter_empty_conv\<close>)
  have some: "map_where ?P eff (jobs d) = map_where (on_id i) eff (jobs d)"
    if "find_row i d = Some r" "guard (rState r)" for r
    by (rule map_where_cong) (use find_row_mem [OF assms(1)] that in \<open>auto simp: on_id_def\<close>)
  show ?thesis
    using no_row_guard [OF assms(1), of i "\<lambda>r. guard (rState r)"] none some
    by (cases "find_row i d") (auto simp: op_def assms(2))
qed

lemma ok_iff:
  assumes "db_inv d" and "faults d = []"
  shows "fst (op i d) = Inr () \<longleftrightarrow> (\<exists>r. find_row i d = Some r \<and> guard (rState r))"
  by (auto simp: quiet_cases [OF assms] split: option.split)

lemma refused:
  assumes "db_inv d" and "faults d = []" and "fst (op i d) \<noteq> Inr ()"
  shows "op i d = (Inl (ErrMsg (msg i)), d)"
  using assms(3) by (auto simp: quiet_cases [OF assms(1,2)] split: option.splits if_splits)

lemma changes:
  assumes "db_inv d" and "faults d = []" and "find_row i d = Some r" and "guard (rState r)"
  shows "find_row i (snd (op i d)) = Some (eff r)"
    and "j \<noteq> i \<Longrightarrow> find_row j (snd (op i d)) = find_row j d"
proof -
  have s: "snd (op i d) = d\<lparr>jobs := map_where (on_id i) eff (jobs d)\<rparr>"
    using assms by (simp add: quiet_cases)
  show "find_row i (snd (op i d)) = Some (eff r)"
    unfolding s find_row_upd [OF assms(3) same_id] using find_row_Some [OF assms(3)]
    by (simp add: on_id_def)
  show "find_row j (snd (op i d)) = find_row j d" if "j \<noteq> i"
    unfolding s by (rule find_row_other) (use that same_id in \<open>auto simp: on_id_def\<close>)
qed

text \<open>The change cannot be made twice in a row.\<close>

lemma not_twice:
  assumes "db_inv d" "db_inv (snd (op i d))" and "faults d = []" and "fst (op i d) = Inr ()"
  shows "fst (op i (snd (op i d))) = Inl (ErrMsg (msg i))"
proof -
  obtain r where r: "find_row i d = Some r" "guard (rState r)" using assms ok_iff by blast
  have "faults (snd (op i d)) = []" using assms(3) r by (simp add: quiet_cases [OF assms(1,3)])
  then show ?thesis
    using changes(1) [OF assms(1,3) r] leaves [OF r(2)] by (simp add: quiet_cases [OF assms(2)])
qed

end

interpretation pause: guarded_change PauseJob "\<lambda>s. s = StateQueued" "\<lambda>r. r\<lparr>rState := StatePaused\<rparr>"
    "\<lambda>i. ''job '' @ itoa i @ '' cannot be paused (only queued jobs can be paused)''"
  by unfold_locales (simp_all add: PauseJob_def)

interpretation resume: guarded_change ResumeJob "\<lambda>s. s = StatePaused" "\<lambda>r. r\<lparr>rState := StateQueued\<rparr>"
    "\<lambda>i. ''job '' @ itoa i @ '' is not paused''"
  by unfold_locales (simp_all add: ResumeJob_def)

interpretation unquarantine: guarded_change UnquarantineJob "\<lambda>s. s = StateQuarantined"
    "\<lambda>r. r\<lparr>rState := StateQueued, rQuarantineReason := Some [], rLastError := Some [], rRetryCount := 0\<rparr>"
    "\<lambda>i. ''job '' @ itoa i @ '' is not quarantined''"
  by unfold_locales (simp_all add: UnquarantineJob_def)

interpretation cancel: guarded_change "CancelJob now" "\<lambda>s. s \<in> {StateQueued, StateRunning, StatePaused}"
    "\<lambda>r. r\<lparr>rState := StateCancelled, rFinishedAt := Some now\<rparr>"
    "\<lambda>i. ''job '' @ itoa i @ '' cannot be cancelled''" for now
  by unfold_locales (simp_all add: CancelJob_def)

end
