(* ===== verification/StoreProps.thy ===== *)
theory StoreProps
  imports StoreLaws
begin

text \<open>
  The properties of the job store: its invariant and its simulation of the board along runs with
  failures, exclusive claims, and the functional behaviour of its operations.
\<close>

subsection \<open>The order of claims\<close>

lemma total_preorder_then_by:
  assumes "total_preorder le1" and "total_preorder le2"
  shows "total_preorder (then_by le1 le2)"
  using assms unfolding total_preorder_def then_by_def by meson

lemma total_preorder_key: "(\<And>x y. key_le x y = str_le (f x) (f y)) \<Longrightarrow> total_preorder key_le"
  unfolding total_preorder_def using str_le_total str_le_trans by metis

lemma claim_le_preorder: "total_preorder (claim_le js)"
proof -
  have "total_preorder by_priority" "total_preorder (by_busy js)" "total_preorder by_created"
    by (auto simp: total_preorder_def by_priority_def by_busy_def by_created_def)
  moreover have "total_preorder by_site" "total_preorder by_path"
    by (rule total_preorder_key, rule by_site_def) (rule total_preorder_key, rule by_path_def)
  ultimately show ?thesis unfolding claim_le_def by (intro total_preorder_then_by)
qed

lemma next_row_least:
  assumes "next_row d = Some r" and "q \<in> set (jobs d)" and "rState q = StateQueued"
  shows "claim_le (jobs d) r q"
proof -
  obtain rs where "sort_by (claim_le (jobs d)) (filter (\<lambda>r. rState r = StateQueued) (jobs d)) = r # rs"
    using assms(1) unfolding next_row_def by (auto split: list.splits)
  from sort_by_hd_least [OF claim_le_preorder this] assms(2,3) show ?thesis by simp
qed

text \<open>The claimed job has the highest priority, and among those jobs one of an idle site if there
  is any.\<close>

lemma claim_le_priority: "claim_le js r q \<Longrightarrow> rPriority q \<le> rPriority r"
  by (simp add: claim_le_def then_by_def by_priority_def)

lemma claim_le_idle:
  "claim_le js r q \<Longrightarrow> rPriority q = rPriority r \<Longrightarrow> busy_site js (rSite r) \<Longrightarrow> busy_site js (rSite q)"
  by (simp add: claim_le_def then_by_def by_priority_def by_busy_def)

lemma ClaimNextJob_effect:
  assumes "db_inv d" and "faults d = []" and "ClaimNextJob now d = (Inr j, d')"
  obtains r where "next_row d = Some r" "jID j = rID r" "find_row (rID r) d = Some r"
    "rState r = StateQueued" "jState j = StateRunning" "jStartedAt j = Some now"
    "find_row (rID r) d' = Some (r\<lparr>rState := StateRunning, rStartedAt := Some now\<rparr>)"
    "\<And>i. i \<noteq> rID r \<Longrightarrow> find_row i d' = find_row i d"
proof -
  obtain r where n: "next_row d = Some r" and j: "j = (scanJob r)\<lparr>jState := StateRunning, jStartedAt := Some now\<rparr>"
    and d': "d' = d\<lparr>jobs := map_where (on_id (rID r)) (\<lambda>r. r\<lparr>rState := StateRunning, rStartedAt := Some now\<rparr>) (jobs d)\<rparr>"
    using assms(2,3) by (auto simp: ClaimNextJob_quiet split: option.splits)
  have r: "rState r = StateQueued" "find_row (rID r) d = Some r"
    using next_row_queued [OF n] find_row_mem [OF assms(1)] by simp_all
  have "find_row (rID r) d' = Some (r\<lparr>rState := StateRunning, rStartedAt := Some now\<rparr>)"
    unfolding d' by (subst find_row_upd [OF r(2)]) (simp_all add: on_id_def)
  moreover have "find_row i d' = find_row i d" if "i \<noteq> rID r" for i
    unfolding d' by (rule find_row_other) (use that in \<open>auto simp: on_id_def\<close>)
  ultimately show ?thesis using that [OF n _ r(2,1)] by (simp add: j)
qed

text \<open>C6: Started on an empty database, whatever operations the daemon issues in whatever order and
  whichever driver calls fail, the tables stay well formed: unique ids below the counter, known
  states, sensible counters and times, every log line belongs to a job.\<close>

theorem store_invariant:
  "list_all allowed ops \<Longrightarrow> db_inv (fold exec_op ops (empty_db\<lparr>faults := fs\<rparr>))"
  by (rule store.run_inv) simp_all

definition demo_job :: "string \<Rightarrow> int \<Rightarrow> job" where
  "demo_job src prio = new_job\<lparr>jMethod := ''http'', jSource := src, jPriority := prio\<rparr>"

theorem store_invariant_witness:
  "db_inv (fold exec_op [OpEnqueue 5 (demo_job ''http://a/x'' 1), OpClaim 7, OpFail 8 1 ''boom'']
     (empty_db\<lparr>faults := [None, None, Some ''locked'']\<rparr>))"
  by (rule store_invariant) (simp add: enqueueable_def demo_job_def new_job_def)

text \<open>C3: Every operation, after any run with any failures, makes a step the abstract board allows:
  the concrete store refines the board of job cards.\<close>

theorem store_simulation:
  assumes "list_all allowed ops" and "allowed op" and "d = fold exec_op ops (empty_db\<lparr>faults := fs\<rparr>)"
  shows "spec op (board_of d) (board_of (exec_op op d))"
  by (rule store.follows) (use assms store.run_inv in auto)

theorem store_simulation_witness:
  "spec (OpClaim 7) (board_of (fold exec_op [OpEnqueue 5 (demo_job ''http://a/x'' 1)] (empty_db\<lparr>faults := [None]\<rparr>)))
     (board_of (exec_op (OpClaim 7) (fold exec_op [OpEnqueue 5 (demo_job ''http://a/x'' 1)] (empty_db\<lparr>faults := [None]\<rparr>))))"
  by (rule store_simulation [OF _ _ refl]) (simp_all add: enqueueable_def demo_job_def new_job_def)


definition demo_row :: "int \<Rightarrow> state \<Rightarrow> int \<Rightarrow> string \<Rightarrow> row" where
  "demo_row i s prio site = \<lparr>rID = i, rMethod = ''http'', rSource = site @ ''/'', rDestDir = ''d'',
     rFlagsJSON = ''{}'', rState = s, rPriority = prio, rCreatedAt = 10, rStartedAt = Some 10,
     rFinishedAt = Some 10, rRetryCount = 0, rMaxRetries = 3, rLastError = None,
     rQuarantineReason = None, rSite = site, rPath = ''/''\<rparr>"

definition demo_db :: "row list \<Rightarrow> db" where
  "demo_db rs = \<lparr>jobs = rs, job_logs = [], queue_state = [], jobs_seq = int (length rs), logs_seq = 0, faults = []\<rparr>"

lemma demo_db_inv: "db_inv (demo_db [demo_row 1 StateRunning 0 ''http://a'', demo_row 2 StateQueued 0 ''http://a'', demo_row 3 StateQueued 0 ''http://b''])"
  by (simp add: db_inv_def jobs_ok_def logs_ok_def demo_db_def demo_row_def row_ok_def)


subsection \<open>Exclusive claims\<close>

text \<open>The operations that may end a running job's claim.\<close>

fun releases :: "int \<Rightarrow> store_op \<Rightarrow> bool" where
  "releases i (OpFinish now j st msg) = (i = j)"
| "releases i (OpFail now j msg) = (i = j)"
| "releases i (OpQuarantine now j reason) = (i = j)"
| "releases i (OpRetry j) = (i = j)"
| "releases i (OpCancel now j) = (i = j)"
| "releases i (OpBatch now req) = True"
| "releases i (OpRecover now) = True"
| "releases i _ = False"

lemma spec_keeps_claim:
  assumes "spec op b b'" and "\<not> releases i op" and "b i = Some (StateRunning, k, m)"
  shows "b' i = Some (StateRunning, k, m)"
  using assms(1)
  by (cases rule: spec.cases) (use assms(2,3) in \<open>auto simp: deletable_def split: if_split_asm\<close>)

context job_board
begin

text \<open>A claimed job stays claimed through any operations that do not release it.\<close>

lemma run_keeps_claim:
  assumes "inv s" and "list_all allowed ops" and "list_all (\<lambda>op. \<not> releases i op) ops"
    and "board s i = Some (StateRunning, k, m)"
  shows "board (fold exec ops s) i = Some (StateRunning, k, m)"
  using assms
proof (induction ops arbitrary: s)
  case (Cons op ops)
  then have "spec op (board s) (board (exec op s))" using follows by simp
  from spec_keeps_claim [OF this] Cons show ?case by (simp add: keeps)
qed simp

end

text \<open>A successful claim, on any database: the row was queued and is now running.\<close>

lemma ClaimNextJob_board:
  assumes "db_inv d" and "ClaimNextJob now d = (Inr j, d')"
  shows "\<exists>k m. board_of d (jID j) = Some (StateQueued, k, m) \<and> board_of d' (jID j) = Some (StateRunning, k, m)"
proof (rule atomicE [OF ClaimNextJob_atomic, of now d])
  fix fs assume e: "ClaimNextJob now d = (fst (ClaimNextJob now (quiet d)), (snd (ClaimNextJob now (quiet d)))\<lparr>faults := fs\<rparr>)"
  define q where "q = snd (ClaimNextJob now (quiet d))"
  have c: "ClaimNextJob now (quiet d) = (Inr j, q)" and d': "board_of d' = board_of q"
    using e assms(2) by (auto simp: q_def prod_eq_iff)
  from ClaimNextJob_effect [OF _ _ c] assms(1) obtain r where
    "jID j = rID r" "find_row (rID r) (quiet d) = Some r" "rState r = StateQueued"
    "find_row (rID r) q = Some (r\<lparr>rState := StateRunning, rStartedAt := Some now\<rparr>)" by auto
  then show ?thesis by (simp add: d') (simp add: board_of_def card_of_def)
qed (use assms(2) in auto)

text \<open>While a job is claimed no other claim gets it: after a successful \<open>ClaimNextJob\<close>, through any
  operations (other claims included, and any driver failures) that do not finish, fail, quarantine,
  retry or cancel that job, act on a batch or recover after a restart, the next successful claim
  returns a different job.\<close>

theorem claims_exclusive:
  assumes "db_inv d" and "ClaimNextJob now d = (Inr j, d1)"
    and "list_all allowed ops" and "list_all (\<lambda>op. \<not> releases (jID j) op) ops"
    and "ClaimNextJob now' (fold exec_op ops d1) = (Inr j', d2)"
  shows "jID j' \<noteq> jID j"
proof -
  have inv1: "db_inv d1" using ClaimNextJob_inv [OF assms(1), of now] assms(2) by simp
  obtain k m where "board_of d1 (jID j) = Some (StateRunning, k, m)"
    using ClaimNextJob_board [OF assms(1,2)] by blast
  then have "board_of (fold exec_op ops d1) (jID j) = Some (StateRunning, k, m)"
    by (rule store.run_keeps_claim [OF inv1 assms(3,4)])
  moreover obtain k' m' where "board_of (fold exec_op ops d1) (jID j') = Some (StateQueued, k', m')"
    using ClaimNextJob_board [OF store.run_inv [OF inv1 assms(3)] assms(5)] by blast
  ultimately show ?thesis by auto
qed

theorem claims_exclusive_witness:
  "let d = demo_db [demo_row 1 StateQueued 0 ''http://a'', demo_row 2 StateQueued 0 ''http://a'']
   in jID (projr (fst (ClaimNextJob 9 (fold exec_op [OpLog 8 1 ''out'' ''hi'', OpPause 2, OpResume 2]
            (snd (ClaimNextJob 7 d))))))
      \<noteq> jID (projr (fst (ClaimNextJob 7 d)))"
proof -
  let ?d = "demo_db [demo_row 1 StateQueued 0 ''http://a'', demo_row 2 StateQueued 0 ''http://a'']"
  let ?ops = "[OpLog 8 1 ''out'' ''hi'', OpPause 2, OpResume 2]"
  note calc = ClaimNextJob_def Let_def next_row_def demo_db_def demo_row_def claim_le_def then_by_def
    by_priority_def by_busy_def busy_site_def by_site_def by_path_def by_created_def driver_def tick_def
    AppendLog_def PauseJob_def ResumeJob_def exec_update_def find_row_def map_where_def on_id_def
    scanJob_def SetFlagsJSON_def
  have inv: "db_inv ?d"
    by (simp add: db_inv_def jobs_ok_def logs_ok_def demo_db_def demo_row_def row_ok_def)
  have "is_ok (fst (ClaimNextJob 7 ?d))" by (simp add: calc)
  then obtain j where "fst (ClaimNextJob 7 ?d) = Inr j" by (auto simp: is_ok_iff)
  then have c: "ClaimNextJob 7 ?d = (Inr j, snd (ClaimNextJob 7 ?d))" by (simp add: prod_eq_iff)
  have "is_ok (fst (ClaimNextJob 9 (fold exec_op ?ops (snd (ClaimNextJob 7 ?d)))))" by (simp add: calc)
  then obtain j' where "fst (ClaimNextJob 9 (fold exec_op ?ops (snd (ClaimNextJob 7 ?d)))) = Inr j'"
    by (auto simp: is_ok_iff)
  then have c': "ClaimNextJob 9 (fold exec_op ?ops (snd (ClaimNextJob 7 ?d)))
      = (Inr j', snd (ClaimNextJob 9 (fold exec_op ?ops (snd (ClaimNextJob 7 ?d)))))"
    by (simp add: prod_eq_iff)
  have "jID j' \<noteq> jID j" by (rule claims_exclusive [OF inv c _ _ c']) simp_all
  then show ?thesis using c c' by (metis fst_conv sum.sel(2))
qed

subsection \<open>Retries\<close>

definition fail_times :: "(time \<times> string) list \<Rightarrow> int \<Rightarrow> db \<Rightarrow> db" where
  "fail_times fails i d = fold (\<lambda>(now, msg) d. snd (FailAndRetryJob now i msg d)) fails d"

lemma FailAndRetryJob_board:
  assumes "faults d = []" and "board_of d i = Some (s, k, m)"
  shows "faults (snd (FailAndRetryJob now i msg d)) = []"
    and "board_of (snd (FailAndRetryJob now i msg d)) i
       = Some (if m \<le> k + 1 then StateQuarantined else StateQueued, k + 1, m)"
    and "j \<noteq> i \<Longrightarrow> board_of (snd (FailAndRetryJob now i msg d)) j = board_of d j"
proof -
  obtain r where r: "find_row i d = Some r" "rState r = s" "rRetryCount r = k" "rMaxRetries r = m"
    using assms(2) by (auto simp: board_of_def card_of_def)
  have i: "rID r = i" using find_row_Some [OF r(1)] by simp
  show "faults (snd (FailAndRetryJob now i msg d)) = []"
    using assms(1) r(1) by (simp add: FailAndRetryJob_quiet)
  show "board_of (snd (FailAndRetryJob now i msg d)) i
       = Some (if m \<le> k + 1 then StateQuarantined else StateQueued, k + 1, m)"
    using r i by (simp add: FailAndRetryJob_quiet [OF assms(1)] board_of_def find_row_update on_id_def card_of_def)
  show "board_of (snd (FailAndRetryJob now i msg d)) j = board_of d j" if "j \<noteq> i"
    using r that by (simp add: FailAndRetryJob_quiet [OF assms(1)] board_of_def find_row_on_id_other)
qed

lemma fail_times_board:
  assumes "faults d = []" and "board_of d i = Some (s, k, m)" and "fails \<noteq> []"
  shows "board_of (fail_times fails i d) i
     = Some (if m \<le> k + int (length fails) then StateQuarantined else StateQueued, k + int (length fails), m)"
  using assms
proof (induction fails arbitrary: d s k)
  case (Cons f fs)
  obtain now msg where f: "f = (now, msg)" by (cases f)
  note step = FailAndRetryJob_board [OF Cons.prems(1,2), where now = now and msg = msg]
  show ?case
  proof (cases "fs = []")
    case True
    then show ?thesis using step(2) by (simp add: fail_times_def f)
  next
    case False
    have "board_of (fail_times fs i (snd (FailAndRetryJob now i msg d))) i
      = Some (if m \<le> (k + 1) + int (length fs) then StateQuarantined else StateQueued, (k + 1) + int (length fs), m)"
      by (rule Cons.IH [OF step(1,2) False])
    then show ?thesis by (simp add: fail_times_def f algebra_simps)
  qed
qed simp

text \<open>The retry budget: a job allowed \<open>m\<close> attempts that has failed \<open>k\<close> times is queued again
  after each of its next failures until the \<open>m\<close>-th, which quarantines it; every failure counts.\<close>

theorem retry_budget:
  assumes "faults d = []" and "board_of d i = Some (s, k, m)" and "0 < length fails"
  shows "board_of (fail_times fails i d) i
     = Some (if k + int (length fails) < m then StateQueued else StateQuarantined, k + int (length fails), m)"
  using fail_times_board [OF assms(1,2)] assms(3) by auto

theorem retry_budget_witness:
  "map (\<lambda>n. board_of (fail_times (replicate n (5, ''timeout'')) 1 (demo_db [demo_row 1 StateRunning 0 ''http://a''])) 1) [1, 2, 3]
   = [Some (StateQueued, 1, 3), Some (StateQueued, 2, 3), Some (StateQuarantined, 3, 3)]"
proof -
  have p: "faults (demo_db [demo_row 1 StateRunning 0 ''http://a'']) = []"
    "board_of (demo_db [demo_row 1 StateRunning 0 ''http://a'']) 1 = Some (StateRunning, 0, 3)"
    by (simp_all add: demo_db_def demo_row_def board_of_def find_row_def card_of_def)
  show ?thesis
    using retry_budget [OF p, of "replicate 1 (5, ''timeout'')"] retry_budget [OF p, of "replicate 2 (5, ''timeout'')"]
      retry_budget [OF p, of "replicate 3 (5, ''timeout'')"] by simp
qed

subsection \<open>Submitting and loading\<close>

lemma scan_insert:
  assumes "smap_wf (jFlags j)"
  shows "scanJob (insert_row j i) = j\<lparr>jID := i, jStartedAt := None, jFinishedAt := None,
    jLastError := [], jQuarantineReason := []\<rparr>"
  unfolding scanJob_def insert_row_def
  by (simp add: SetFlags_FlagsJSON [OF assms] coalesce_def)

text \<open>Round trip of the jobs table: a job submitted to a working store is found under the id it
  was given, a new one, with the flags, method, source and counters it was submitted with (the
  defaults of \<open>EnqueueJob\<close> filled in) and no start, finish or error.\<close>

theorem EnqueueJob_GetJob:
  assumes "db_inv d" and "faults d = []" and "smap_wf (jFlags j)"
    and "EnqueueJob now j d = (res, d')"
  shows "\<exists>j'. res = Inr j' \<and> find_row (jID j') d = None
     \<and> fst (GetJob (jID j') d') = Inr ((enqueue_defaults now j)\<lparr>jID := jID j', jStartedAt := None,
          jFinishedAt := None, jLastError := [], jQuarantineReason := []\<rparr>)"
proof -
  let ?j = "enqueue_defaults now j"
  let ?i = "jobs_seq d + 1"
  have none: "find_row ?i d = None"
    using assms(1) by (force simp: find_row_None db_inv_def jobs_ok_def)
  have d': "d' = d\<lparr>jobs := jobs d @ [insert_row ?j ?i], jobs_seq := ?i\<rparr>" and res: "res = Inr (?j\<lparr>jID := ?i\<rparr>)"
    using assms(2,4) by (auto simp: EnqueueJob_def Let_def)
  have "find_row ?i d' = Some (insert_row ?j ?i)"
    using none by (simp add: d' find_row_def find_snoc insert_row_def)
  moreover have "smap_wf (jFlags ?j)" using assms(3) by (simp add: enqueue_defaults_def Let_def)
  ultimately have "fst (GetJob ?i d') = Inr (?j\<lparr>jID := ?i, jStartedAt := None,
          jFinishedAt := None, jLastError := [], jQuarantineReason := []\<rparr>)"
    using assms(2) by (simp add: GetJob_def d' scan_insert)
  then show ?thesis using none res by simp
qed

theorem EnqueueJob_GetJob_witness:
  "let d = demo_db [demo_row 1 StateRunning 0 ''http://a'', demo_row 2 StateQueued 0 ''http://a'', demo_row 3 StateQueued 0 ''http://b''];
       r = EnqueueJob 50 (demo_job ''rsync://h/x'' 4) d
   in \<exists>j'. fst r = Inr j' \<and> find_row (jID j') d = None"
proof -
  let ?d = "demo_db [demo_row 1 StateRunning 0 ''http://a'', demo_row 2 StateQueued 0 ''http://a'', demo_row 3 StateQueued 0 ''http://b'']"
  have "faults ?d = []" "smap_wf (jFlags (demo_job ''rsync://h/x'' 4))"
    by (simp_all add: demo_db_def demo_job_def new_job_def smap_wf_def)
  from EnqueueJob_GetJob [OF demo_db_inv this, of 50, OF surjective_pairing] show ?thesis
    unfolding Let_def by blast
qed

subsection \<open>Recovery\<close>

lemma board_running:
  "db_inv d \<Longrightarrow> (\<exists>i k m. board_of d i = Some (StateRunning, k, m)) \<longleftrightarrow> (\<exists>r \<in> set (jobs d). rState r = StateRunning)"
proof
  assume "\<exists>i k m. board_of d i = Some (StateRunning, k, m)"
  then show "\<exists>r \<in> set (jobs d). rState r = StateRunning"
    by (auto simp: board_of_def card_of_def dest!: find_row_Some)
next
  assume inv: "db_inv d" and "\<exists>r \<in> set (jobs d). rState r = StateRunning"
  then obtain r where "r \<in> set (jobs d)" "rState r = StateRunning" by auto
  then show "\<exists>i k m. board_of d i = Some (StateRunning, k, m)"
    using find_row_mem [OF inv] by (auto simp: board_of_def card_of_def intro!: exI [of _ "rID r"])
qed

lemma recover_quiet:
  assumes "faults d = []"
  shows "board_of (snd (RecoverOrphanedJobs now d)) = (\<lambda>i. map_option recover_card (board_of d i))"
    and "\<forall>r \<in> set (jobs (snd (RecoverOrphanedJobs now d))). rState r \<noteq> StateRunning"
proof -
  have two: "(\<lambda>i. map_option sweep_card (map_option recover_half (b i))) = (\<lambda>i. map_option recover_card (b i))" for b :: board
    by (simp add: option.map_comp comp_def recover_twice)
  have s: "snd (RecoverOrphanedJobs now d) = d\<lparr>jobs := map_where (\<lambda>r. rState r = StateRunning)
       (\<lambda>r. r\<lparr>rState := StateQuarantined, rQuarantineReason := Some ''daemon restarted and max retries exceeded'', rFinishedAt := Some now\<rparr>)
       (jobs (d\<lparr>jobs := map_where (\<lambda>r. rState r = StateRunning \<and> rRetryCount r < rMaxRetries r)
         (\<lambda>r. r\<lparr>rState := StateQueued, rRetryCount := rRetryCount r + 1, rLastError := Some ''daemon restarted while job was running'', rFinishedAt := Some now\<rparr>)
         (jobs d)\<rparr>))\<rparr>"
    using assms by (simp add: RecoverOrphanedJobs_def)
  show "board_of (snd (RecoverOrphanedJobs now d)) = (\<lambda>i. map_option recover_card (board_of d i))"
    unfolding s recover_second recover_first two ..
  show "\<forall>r \<in> set (jobs (snd (RecoverOrphanedJobs now d))). rState r \<noteq> StateRunning"
    unfolding s by (auto simp: set_map_where)
qed

text \<open>Restart: without driver failures \<open>RecoverOrphanedJobs\<close> leaves no running job: each one is
  queued again with one more attempt counted, or quarantined when its attempts are used up; other
  jobs keep their cards, and the number returned is that of the jobs queued again.\<close>

theorem RecoverOrphanedJobs_correct:
  assumes "faults d = []"
  shows "board_of (snd (RecoverOrphanedJobs now d)) = (\<lambda>i. map_option recover_card (board_of d i))
    \<and> (\<forall>r \<in> set (jobs (snd (RecoverOrphanedJobs now d))). rState r \<noteq> StateRunning)
    \<and> fst (RecoverOrphanedJobs now d)
        = (length (filter (\<lambda>r. rState r = StateRunning \<and> rRetryCount r < rMaxRetries r) (jobs d)), None)"
proof -
  have "fst (RecoverOrphanedJobs now d)
      = (length (filter (\<lambda>r. rState r = StateRunning \<and> rRetryCount r < rMaxRetries r) (jobs d)), None)"
    using assms by (simp add: RecoverOrphanedJobs_def)
  with recover_quiet [OF assms] show ?thesis by blast
qed

theorem RecoverOrphanedJobs_correct_witness:
  "fst (RecoverOrphanedJobs 9 (demo_db [demo_row 1 StateRunning 0 ''http://a''])) = (1, None)"
  using RecoverOrphanedJobs_correct [of "demo_db [demo_row 1 StateRunning 0 ''http://a'']" 9]
  by (simp add: demo_db_def demo_row_def)

subsection \<open>Single actions and batches\<close>

text \<open>A pause holds a queued job back and a resume undoes it exactly: both succeed and the
  database is the one before. A second pause in a row is refused without effect, and a paused job
  is not among those a claim can take.\<close>

theorem pause_resume:
  assumes "db_inv d" and "faults d = []" and "find_row i d = Some r" and "rState r = StateQueued"
  shows "fst (PauseJob i d) = Inr () \<and> ResumeJob i (snd (PauseJob i d)) = (Inr (), d)
    \<and> fst (PauseJob i (snd (PauseJob i d))) \<noteq> Inr ()
    \<and> map_option rID (next_row (snd (PauseJob i d))) \<noteq> Some i"
proof -
  let ?d = "snd (PauseJob i d)"
  have i: "rID r = i" using find_row_Some [OF assms(3)] by simp
  have d1: "?d = d\<lparr>jobs := map_where (on_id i) (\<lambda>r. r\<lparr>rState := StatePaused\<rparr>) (jobs d)\<rparr>"
    using assms by (simp add: pause.quiet_cases)
  have inv: "db_inv ?d" by (rule PauseJob_inv [OF assms(1)])
  have f: "faults ?d = []" using assms(2) by (simp add: d1)
  have r1: "find_row i ?d = Some (r\<lparr>rState := StatePaused\<rparr>)"
    by (rule pause.changes(1) [OF assms(1-3)]) (use assms(4) in simp)
  have ok: "fst (PauseJob i d) = Inr ()" using pause.ok_iff [OF assms(1,2)] assms(3,4) by blast
  have undone: "map_where (on_id i) (\<lambda>r. r\<lparr>rState := StateQueued\<rparr>)
      (map_where (on_id i) (\<lambda>r. r\<lparr>rState := StatePaused\<rparr>) (jobs d)) = jobs d"
  proof -
    have "q\<lparr>rState := StateQueued\<rparr> = q" if "q \<in> set (jobs d)" "rID q = i" for q
      using find_row_mem [OF assms(1) that(1)] that(2) assms(3,4) by simp
    then show ?thesis by (auto simp: map_where_def on_id_def intro!: map_idI)
  qed
  have "ResumeJob i ?d = (Inr (), d)"
    using r1 by (simp add: resume.quiet_cases [OF inv f]) (simp add: d1 undone)
  moreover have "fst (PauseJob i ?d) \<noteq> Inr ()"
    using pause.not_twice [OF assms(1) inv assms(2) ok] by simp
  moreover have "map_option rID (next_row ?d) \<noteq> Some i"
  proof
    assume "map_option rID (next_row ?d) = Some i"
    then obtain q where n: "next_row ?d = Some q" and q: "rID q = i" by auto
    from next_row_queued [OF n] find_row_mem [OF inv] q r1 show False by force
  qed
  ultimately show ?thesis using ok by blast
qed

theorem pause_resume_witness:
  "ResumeJob 1 (snd (PauseJob 1 (demo_db [demo_row 1 StateQueued 0 ''http://a'']))) = (Inr (), demo_db [demo_row 1 StateQueued 0 ''http://a''])"
proof -
  let ?d = "demo_db [demo_row 1 StateQueued 0 ''http://a'']"
  have "db_inv ?d" "faults ?d = []" "find_row 1 ?d = Some (demo_row 1 StateQueued 0 ''http://a'')"
    "rState (demo_row 1 StateQueued 0 ''http://a'') = StateQueued"
    by (simp_all add: db_inv_def jobs_ok_def logs_ok_def demo_db_def demo_row_def row_ok_def find_row_def)
  from pause_resume [OF this] show ?thesis by blast
qed

text \<open>The single operation behind each batch action.\<close>

definition single_op :: "time \<Rightarrow> batch_request \<Rightarrow> int \<Rightarrow> db \<Rightarrow> db" where
  "single_op now req i d =
    (let act = bAction req in
     if act = BatchPause then snd (PauseJob i d)
     else if act = BatchResume then snd (ResumeJob i d)
     else if act = BatchQuarantine then snd (QuarantineJob now i (bReason req) d)
     else if act = BatchUnquarantine then snd (UnquarantineJob i d)
     else if act = BatchCancel then snd (CancelJob now i d)
     else if act = BatchRetry then snd (RetryJob i d)
     else if act = BatchDelete then snd (DeleteJob i d)
     else d)"

lemma change_one:
  "change [i] f b = (case b i of None \<Rightarrow> b | Some c \<Rightarrow> (case f c of None \<Rightarrow> b(i := None) | Some c' \<Rightarrow> b(i \<mapsto> c')))"
  by (rule ext) (auto simp: change_def split: option.split)

lemma update_in_one:
  assumes "\<And>r. rID (f r) = rID r"
    and "\<And>r. rID r = i \<Longrightarrow> P r \<Longrightarrow> G (card_of r) = Some (card_of (f r))"
    and "\<And>r. rID r = i \<Longrightarrow> \<not> P r \<Longrightarrow> G (card_of r) = Some (card_of r)"
    and "\<And>r. P r \<Longrightarrow> rID r = i"
  shows "board_of (e\<lparr>jobs := map_where P f (jobs d)\<rparr>) = change [i] G (board_of d)"
  by (rule board_update_in) (use assms in auto)

lemma single_op_faults: "faults d = [] \<Longrightarrow> faults (single_op now req i d) = []"
  by (simp add: single_op_def Let_def store_ops RetryJob_def GetJob_def split: sum.split prod.split)

lemma single_op_inv: "db_inv d \<Longrightarrow> db_inv (single_op now req i d)"
  by (simp add: single_op_def Let_def PauseJob_inv ResumeJob_inv QuarantineJob_inv UnquarantineJob_inv
      CancelJob_inv RetryJob_inv DeleteJob_inv)

lemma RetryJob_quiet_snd:
  "faults d = [] \<Longrightarrow> snd (RetryJob i d) = d\<lparr>jobs := map_where (on_id i)
     (\<lambda>r. r\<lparr>rState := StateQueued, rLastError := Some [], rQuarantineReason := Some [],
            rRetryCount := 0, rStartedAt := None, rFinishedAt := None\<rparr>) (jobs d)\<rparr>"
  by (simp add: RetryJob_def GetJob_def)

lemma delete_in_board:
  assumes "db_inv d"
  shows "board_of (e\<lparr>jobs := filter (\<lambda>r. \<not> (rID r \<in> set ids \<and> deletable (rState r))) (jobs d)\<rparr>)
     = change ids (batch_card BatchDelete) (board_of d)"
proof -
  have "board_of (e\<lparr>jobs := filter (\<lambda>r. \<not> (rID r \<in> set ids \<and> deletable (rState r))) (jobs d)\<rparr>)
     = board_of (d\<lparr>jobs := filter (\<lambda>r. \<not> (rID r \<in> set ids \<and> deletable (rState r))) (jobs d)\<rparr>)"
    by (simp add: board_of_def find_row_def fun_eq_iff)
  also have "\<dots> = (\<lambda>i. Option.bind (board_of d i) (\<lambda>c. if i \<in> set ids \<and> deletable (fst c) then None else Some c))"
    by (rule board_delete [OF assms]) (simp add: card_of_def)
  also have "\<dots> = change ids (batch_card BatchDelete) (board_of d)"
  proof (rule ext)
    fix i
    show "Option.bind (board_of d i) (\<lambda>c. if i \<in> set ids \<and> deletable (fst c) then None else Some c)
        = change ids (batch_card BatchDelete) (board_of d) i"
      by (cases "board_of d i") (auto simp: change_def)
  qed
  finally show ?thesis .
qed

lemma exec_delete_snd:
  "faults d = [] \<Longrightarrow> board_of (snd (exec_delete P d)) = board_of (d\<lparr>jobs := filter (\<lambda>r. \<not> P r) (jobs d)\<rparr>)"
  by simp

lemma single_op_board:
  assumes "db_inv d" and "faults d = []"
  shows "board_of (single_op now req i d) = change [i] (batch_card (bAction req)) (board_of d)"
proof -
  have stay: "change [i] (batch_card act) (board_of d) = board_of d"
    if "\<And>c. batch_card act c = Some c" for act
    by (rule ext) (cases "board_of d i"; simp add: change_def that)
  have upd: "faults d = [] \<Longrightarrow> snd (exec_update P f d) = d\<lparr>jobs := map_where P f (jobs d)\<rparr>" for P f
    by simp
  have del: "board_of (snd (exec_delete (\<lambda>r. rID r = i \<and> deletable (rState r)) d))
      = change [i] (batch_card BatchDelete) (board_of d)"
    using delete_in_board [OF assms(1), where ids = "[i]" and e = d] by (simp add: exec_delete_snd [OF assms(2)])
  note single = single_op_def Let_def
  consider "bAction req = BatchPause" | "bAction req = BatchResume" | "bAction req = BatchQuarantine"
    | "bAction req = BatchUnquarantine" | "bAction req = BatchCancel" | "bAction req = BatchRetry"
    | "bAction req = BatchDelete"
    | "bAction req \<notin> {BatchPause, BatchResume, BatchQuarantine, BatchUnquarantine, BatchCancel, BatchRetry, BatchDelete}"
    by blast
  then show ?thesis
  proof cases
    case 5
    then show ?thesis
      by (simp add: single store_ops upd [OF assms(2)], intro update_in_one) (auto simp: card_of_def)
  next
    case 7
    then show ?thesis using del by (simp add: single store_ops)
  next
    case 8
    then have "batch_card (bAction req) c = Some c" for c by (cases c) simp
    with 8 show ?thesis by (simp add: single stay)
  qed (simp_all add: single RetryJob_quiet_snd [OF assms(2)] store_ops upd [OF assms(2)],
      (rule update_in_one; simp add: card_of_def on_id_def)+)
qed

lemma batch_card_twice:
  "Option.bind (batch_card act c) (batch_card act) = batch_card act c"
  by (cases c) (simp split: if_split)

lemma change_fold:
  "foldl (\<lambda>b i. change [i] (batch_card act) b) b ids = change ids (batch_card act) b"
proof (induction ids arbitrary: b)
  case (Cons i ids)
  have "change ids (batch_card act) (change [i] (batch_card act) b) = change (i # ids) (batch_card act) b"
  proof (rule ext)
    fix j
    show "change ids (batch_card act) (change [i] (batch_card act) b) j = change (i # ids) (batch_card act) b j"
      by (cases "b j") (auto simp: change_def batch_card_twice)
  qed
  with Cons show ?case by simp
qed (simp add: change_def)

lemma singles_board:
  assumes "db_inv d" and "faults d = []"
  shows "board_of (fold (single_op now req) ids d) = change ids (batch_card (bAction req)) (board_of d)"
  using assms
proof (induction ids arbitrary: d)
  case (Cons i ids)
  have "board_of (fold (single_op now req) (i # ids) d)
      = change ids (batch_card (bAction req)) (board_of (single_op now req i d))"
    using Cons.IH [OF single_op_inv single_op_faults] Cons.prems by simp
  also have "\<dots> = change (i # ids) (batch_card (bAction req)) (board_of d)"
    using change_fold [of "bAction req" "board_of d" "i # ids"]
      change_fold [of "bAction req" "change [i] (batch_card (bAction req)) (board_of d)" ids]
    by (simp add: single_op_board [OF Cons.prems])
  finally show ?case .
qed (simp add: change_def)

lemma batch_stmt_quiet:
  assumes "db_inv d" and "faults d = []" and "batch_exec now req ids = Some stmt"
  shows "board_of (snd (stmt d)) = change ids (batch_card (bAction req)) (board_of d)"
proof -
  define act where "act = bAction req"
  have upd: "snd (exec_update P f d) = d\<lparr>jobs := map_where P f (jobs d)\<rparr>" for P f
    using assms(2) by simp
  show ?thesis using assms(3) unfolding batch_exec_def Let_def act_def [symmetric]
    apply (elim if_Some_elim; (simp only: upd)?)
    subgoal by (rule board_update_in) (simp_all add: card_of_def)
    subgoal by (rule board_update_in) (simp_all add: card_of_def)
    subgoal by (rule board_update_in) (simp_all add: card_of_def)
    subgoal by (rule board_update_in) (simp_all add: card_of_def)
    subgoal by (rule board_update_in) (simp_all add: card_of_def)
    subgoal by (rule board_update_in) (simp_all add: card_of_def)
    subgoal using delete_in_board [OF assms(1), where ids = ids and e = d]
      by (simp only: exec_delete_snd [OF assms(2)])
    by simp
qed

lemma batch_exec_None:
  assumes "batch_exec now req ids = None"
  shows "change ids (batch_card (bAction req)) b = b"
proof -
  have "bAction req \<notin> {BatchPause, BatchResume, BatchQuarantine, BatchUnquarantine, BatchCancel, BatchRetry, BatchDelete}"
    using assms unfolding batch_exec_def Let_def by (simp split: if_split_asm)
  then have "batch_card (bAction req) c = Some c" for c by (cases c) simp
  then show ?thesis
    by (intro ext, rename_tac j, case_tac "b j") (simp_all add: change_def)
qed

text \<open>C9: A batch action is the single action on each of its targets: on a working store the board
  after \<open>BatchAction\<close> is the one left by pausing, resuming, quarantining, ... the targets one at a
  time, jobs the single action would refuse being left alone. Duplicated and unknown ids are
  harmless, and the number of targets is what is reported as matched.\<close>

theorem BatchAction_as_singles:
  assumes "db_inv d" and "faults d = []" and "batch_targets req d = (Inr ids, d)"
  shows "board_of (snd (BatchAction now req d)) = board_of (fold (single_op now req) ids d)
    \<and> (\<forall>res. fst (BatchAction now req d) = Inr res \<longrightarrow> brMatched res = length ids \<and> brJobIDs res = ids)"
proof
  show "board_of (snd (BatchAction now req d)) = board_of (fold (single_op now req) ids d)"
    unfolding singles_board [OF assms(1,2)]
    using batch_stmt_quiet [OF assms(1,2)] batch_exec_None [of now req ids]
    by (auto simp: BatchAction_snd assms(3) change_def split: option.split)
  show "\<forall>res. fst (BatchAction now req d) = Inr res \<longrightarrow> brMatched res = length ids \<and> brJobIDs res = ids"
    by (auto simp: BatchAction_def assms(3) Let_def split: option.splits prod.splits sum.splits if_splits)
qed

theorem BatchAction_as_singles_witness:
  "let d = demo_db [demo_row 1 StateRunning 0 ''http://a'', demo_row 2 StateQueued 0 ''http://a'', demo_row 3 StateQueued 0 ''http://b''];
       req = \<lparr>bAction = BatchPause, bPrefix = [], bIDs = [3, 2, 3, 9], bReason = []\<rparr>
   in board_of (snd (BatchAction 5 req d)) = board_of (fold (single_op 5 req) [3, 2, 3, 9] d)"
  unfolding Let_def
  by (rule BatchAction_as_singles [THEN conjunct1, OF demo_db_inv])
     (simp_all add: demo_db_def batch_targets_def)

end
