(* ===== verification/StoreQueries.thy ===== *)
theory StoreQueries
  imports StoreProps
begin

text \<open>
  Properties of the store's reads and of its logs and settings: log lines come back per job and in
  order, settings round trip, counts partition the jobs, and what a listing shows.
\<close>

subsection \<open>Logs\<close>

definition append_all :: "(time \<times> int \<times> string \<times> string) list \<Rightarrow> db \<Rightarrow> db" where
  "append_all es d = fold (\<lambda>(t, i, s, m) d. snd (AppendLog t i s m d)) es d"

definition logs_of :: "int \<Rightarrow> db \<Rightarrow> job_log list" where
  "logs_of i d = filter (\<lambda>l. lJobID l = i) (job_logs d)"

lemma sort_by_sorted: "sorted_wrt le xs \<Longrightarrow> sort_by le xs = xs"
proof (induction xs)
  case (Cons x xs)
  then show ?case by (cases xs) auto
qed simp

lemma sorted_wrt_filter_map:
  "sorted_wrt (<) (map f xs) \<Longrightarrow> sorted_wrt (\<lambda>a b. f a \<le> (f b :: int)) (filter P xs)"
  by (induction xs) auto

lemma GetLogs_quiet:
  assumes "db_inv d" and "faults d = []"
  shows "fst (GetLogs i lim off d) = Inr (limit_clause lim off (logs_of i d))"
proof -
  have "sorted_wrt (\<lambda>a b. lID a \<le> lID b) (logs_of i d)"
    unfolding logs_of_def by (rule sorted_wrt_filter_map) (use assms(1) in \<open>simp add: db_inv_def logs_ok_def\<close>)
  then show ?thesis using assms(2) by (simp add: GetLogs_def logs_of_def sort_by_sorted)
qed

lemma AppendLog_quiet:
  assumes "faults d = []"
  shows "snd (AppendLog t i s m d) = (if find_row i d = None then d
     else d\<lparr>job_logs := job_logs d @ [\<lparr>lID = logs_seq d + 1, lJobID = i, lTimestamp = t, lStream = s, lMessage = m\<rparr>],
           logs_seq := logs_seq d + 1\<rparr>)"
  unfolding AppendLog_def driver_none [OF assms] by simp

lemma AppendLog_faults: "faults d = [] \<Longrightarrow> faults (snd (AppendLog t i s m d)) = []"
  by (simp add: AppendLog_quiet)

lemma append_all_faults: "faults d = [] \<Longrightarrow> faults (append_all es d) = []"
  by (induction es arbitrary: d) (auto simp: append_all_def AppendLog_faults)

lemma append_all_logs:
  assumes "faults d = []"
  shows "map (\<lambda>l. (lTimestamp l, lStream l, lMessage l)) (logs_of i (append_all es d))
     = map (\<lambda>l. (lTimestamp l, lStream l, lMessage l)) (logs_of i d)
       @ (if find_row i d = None then [] else map (\<lambda>(t, _, s, m). (t, s, m)) (filter (\<lambda>(_, j, _). j = i) es))"
  using assms
proof (induction es arbitrary: d)
  case (Cons e es)
  obtain t j s m where e: "e = (t, j, s, m)" by (cases e)
  let ?d = "snd (AppendLog t j s m d)"
  have f: "find_row i ?d = find_row i d"
    using Cons.prems by (simp add: AppendLog_quiet find_row_def)
  have "logs_of i ?d = logs_of i d @ (if j = i \<and> find_row i d \<noteq> None
      then [\<lparr>lID = logs_seq d + 1, lJobID = i, lTimestamp = t, lStream = s, lMessage = m\<rparr>] else [])"
    using Cons.prems by (auto simp: AppendLog_quiet logs_of_def)
  then show ?case using Cons.IH [of ?d] Cons.prems f by (simp add: append_all_def e AppendLog_faults)
qed (simp add: append_all_def)

lemma append_all_inv: "db_inv d \<Longrightarrow> db_inv (append_all es d)"
  by (induction es arbitrary: d) (auto simp: append_all_def AppendLog_inv)

text \<open>Whatever lines of several jobs are appended in whatever order, \<open>GetLogs\<close> of a known job
  returns that job's earlier lines followed by its new ones, with their times, in the order they
  were appended; a positive limit cuts a page out of exactly that list.\<close>

theorem GetLogs_in_order:
  assumes "db_inv d" and "faults d = []" and "find_row i d \<noteq> None"
  shows "\<exists>ls. fst (GetLogs i 0 0 (append_all es d)) = Inr ls
    \<and> map (\<lambda>l. (lTimestamp l, lStream l, lMessage l)) ls
      = map (\<lambda>l. (lTimestamp l, lStream l, lMessage l)) (logs_of i d)
        @ map (\<lambda>(t, _, s, m). (t, s, m)) (filter (\<lambda>(_, j, _). j = i) es)
    \<and> (\<forall>lim off. 0 < lim \<longrightarrow> 0 < off \<longrightarrow>
         fst (GetLogs i lim off (append_all es d)) = Inr (take (nat lim) (drop (nat off) ls)))"
  using append_all_logs [OF assms(2), of i es] assms(3)
  by (simp add: GetLogs_quiet append_all_inv assms(1) append_all_faults [OF assms(2)] limit_clause_def)

theorem GetLogs_in_order_witness:
  "\<exists>ls. fst (GetLogs 2 0 0 (append_all [(5, 2, ''out'', ''x''), (6, 1, ''out'', ''y''), (7, 2, ''err'', ''z'')]
       (demo_db [demo_row 1 StateRunning 0 ''http://a'', demo_row 2 StateQueued 0 ''http://a'', demo_row 3 StateQueued 0 ''http://b'']))) = Inr ls
     \<and> map lMessage ls = [''x'', ''z'']"
proof -
  let ?d = "demo_db [demo_row 1 StateRunning 0 ''http://a'', demo_row 2 StateQueued 0 ''http://a'', demo_row 3 StateQueued 0 ''http://b'']"
  have p: "faults ?d = []" "find_row 2 ?d \<noteq> None" "logs_of 2 ?d = []"
    by (simp_all add: demo_db_def demo_row_def find_row_def logs_of_def)
  from GetLogs_in_order [OF demo_db_inv p(1,2), of "[(5, 2, ''out'', ''x''), (6, 1, ''out'', ''y''), (7, 2, ''err'', ''z'')]"]
  obtain ls where ls: "fst (GetLogs 2 0 0 (append_all [(5, 2, ''out'', ''x''), (6, 1, ''out'', ''y''), (7, 2, ''err'', ''z'')] ?d)) = Inr ls"
    "map (\<lambda>l. (lTimestamp l, lStream l, lMessage l)) ls = [(5, ''out'', ''x''), (7, ''err'', ''z'')]"
    unfolding p(3) by (elim exE conjE) (rule that, assumption, simp)
  have "map lMessage ls = map (\<lambda>(_, _, m). m) (map (\<lambda>l. (lTimestamp l, lStream l, lMessage l)) ls)"
    by simp
  also have "\<dots> = [''x'', ''z'']" by (simp add: ls(2))
  finally have "map lMessage ls = [''x'', ''z'']" .
  with ls(1) show ?thesis by (intro exI [of _ ls] conjI)
qed

subsection \<open>Settings\<close>

text \<open>The two keys of the settings, read back.\<close>

lemma map_of_upsert: "map_of (upsert_kv k v m) = (map_of m)(k \<mapsto> v)"
  by (induction k v m rule: upsert_kv.induct) auto

lemma config_fold:
  assumes "distinct (map fst m)"
  shows "foldl config_row pc m =
    ((case map_of m ''paused'' of None \<Rightarrow> fst pc | Some v \<Rightarrow> v = ''1'' \<or> v = ''true''),
     (case map_of m ''concurrency'' of None \<Rightarrow> snd pc
      | Some v \<Rightarrow> (case sscanf_d v of None \<Rightarrow> snd pc | Some n \<Rightarrow> n)))"
  using assms
proof (induction m arbitrary: pc)
  case (Cons kv m)
  obtain k v where kv: "kv = (k, v)" by (cases kv)
  have none: "map_of m k = None" using Cons.prems kv by (simp add: map_of_eq_None_iff)
  show ?case
    using Cons.IH [of "config_row pc kv"] Cons.prems none
    by (cases pc) (auto simp: kv config_row_def split: option.split)
qed simp

lemma GetQueueConfig_quiet:
  assumes "faults d = []" and "distinct (map fst (queue_state d))"
  shows "GetQueueConfig d = (((case map_of (queue_state d) ''paused'' of None \<Rightarrow> False | Some v \<Rightarrow> v = ''1'' \<or> v = ''true''),
     (let conc = (case map_of (queue_state d) ''concurrency'' of None \<Rightarrow> 2
        | Some v \<Rightarrow> (case sscanf_d v of None \<Rightarrow> 2 | Some n \<Rightarrow> n)) in if conc < 1 then 1 else conc), None), d)"
  using assms by (simp add: GetQueueConfig_def config_fold Let_def fst_conv snd_conv del: One_nat_def cong: option.case_cong)

text \<open>Settings round trip: after \<open>SetQueueConcurrency n\<close> and \<open>SetQueuePaused b\<close>, in either order,
  \<open>GetQueueConfig\<close> returns \<open>b\<close> and \<open>n\<close>, at least one; a store where neither was ever set reports an
  unpaused queue of two workers.\<close>

theorem QueueConfig_roundtrip:
  assumes "db_inv d" and "faults d = []" and "n < 2 ^ 63"
  shows "fst (GetQueueConfig (snd (SetQueuePaused b (snd (SetQueueConcurrency n d))))) = (b, max 1 n, None)
    \<and> fst (GetQueueConfig (snd (SetQueueConcurrency n (snd (SetQueuePaused b d))))) = (b, max 1 n, None)
    \<and> (queue_state d = [] \<longrightarrow> fst (GetQueueConfig d) = (False, 2, None))"
proof -
  let ?d1 = "snd (SetQueuePaused b (snd (SetQueueConcurrency n d)))"
  let ?d2 = "snd (SetQueueConcurrency n (snd (SetQueuePaused b d)))"
  have d: "distinct (map fst (queue_state ?d1))" "distinct (map fst (queue_state ?d2))"
    using assms(1,2) Settings_inv by (auto simp: db_inv_def)
  have f: "faults ?d1 = []" "faults ?d2 = []"
    using assms(2) by (simp_all add: SetQueuePaused_def SetQueueConcurrency_def)
  have m: "map_of (queue_state ?d1) = (map_of (queue_state d))(''concurrency'' \<mapsto> itoa (max 1 n), ''paused'' \<mapsto> (if b then ''1'' else ''0''))"
    "map_of (queue_state ?d2) = (map_of (queue_state d))(''paused'' \<mapsto> (if b then ''1'' else ''0''), ''concurrency'' \<mapsto> itoa (max 1 n))"
    using assms(2) by (simp_all add: SetQueuePaused_def SetQueueConcurrency_def map_of_upsert max_def)
  have s: "sscanf_d (itoa (max 1 n)) = Some (max 1 n)" using assms(3) by (intro sscanf_d_itoa) auto
  have "fst (GetQueueConfig ?d1) = (b, max 1 n, None)" "fst (GetQueueConfig ?d2) = (b, max 1 n, None)"
    by (simp_all add: GetQueueConfig_quiet f d m s)
  moreover have "fst (GetQueueConfig d) = (False, 2, None)" if "queue_state d = []"
    using that assms(2) by (simp add: GetQueueConfig_def)
  ultimately show ?thesis by blast
qed

theorem QueueConfig_roundtrip_witness:
  "fst (GetQueueConfig (snd (SetQueuePaused True (snd (SetQueueConcurrency 7 (demo_db [demo_row 1 StateRunning 0 ''http://a'',
       demo_row 2 StateQueued 0 ''http://a'', demo_row 3 StateQueued 0 ''http://b''])))))) = (True, 7, None)"
  by (subst QueueConfig_roundtrip [OF demo_db_inv, THEN conjunct1]) (simp_all add: demo_db_def)

subsection \<open>Counts\<close>

lemma count_sum:
  assumes "\<And>r. r \<in> set js \<Longrightarrow> Valid (rState r)"
  shows "sum_list (map (count_state js) known_states) = length js"
  using assms
proof (induction js)
  case (Cons r js)
  have "Valid (rState r)" by (rule Cons.prems) simp
  then have "sum_list (map (count_state [r]) known_states) = 1"
    by (elim Valid_def [THEN iffD1, elim_format] insertE emptyE) (simp_all add: count_state_def known_states_def)
  moreover have "sum_list (map (count_state (r # js)) known_states)
      = sum_list (map (count_state [r]) known_states) + sum_list (map (count_state js) known_states)"
    by (simp add: count_state_def known_states_def)
  ultimately show ?case using Cons by simp
qed (simp add: count_state_def known_states_def)

text \<open>\<open>GetCounts\<close> reports each of the seven states, with zero where there is none, no other
  state, and the counts add up to the number of jobs.\<close>

theorem GetCounts_partition:
  assumes "db_inv d" and "faults d = []"
  shows "\<exists>c. fst (GetCounts d) = Inr c \<and> dom c = set known_states
    \<and> (\<forall>s n. c s = Some n \<longrightarrow> n = card {r \<in> set (jobs d). rState r = s})
    \<and> sum_list (map (\<lambda>s. the (c s)) known_states) = length (jobs d)"
proof -
  let ?c = "\<lambda>s. if s \<in> set known_states \<or> 0 < count_state (jobs d) s then Some (count_state (jobs d) s) else None"
  have v: "Valid (rState r)" if "r \<in> set (jobs d)" for r
    using assms(1) that by (simp add: db_inv_def jobs_ok_def row_ok_def)
  have ks: "Valid s \<Longrightarrow> s \<in> set known_states" for s
    by (simp add: Valid_def known_states_def)
  have dist: "distinct (jobs d)" using assms(1) distinct_ids by (auto simp: db_inv_def distinct_map)
  have "fst (GetCounts d) = Inr ?c" using assms(2) by (simp add: GetCounts_def)
  moreover have "dom ?c = set known_states"
  proof -
    have "s \<in> set known_states" if pos: "0 < count_state (jobs d) s" for s
    proof -
      obtain r where "r \<in> set (jobs d)" "rState r = s"
        using pos unfolding count_state_def by (metis (mono_tags, lifting) filter_False length_0_conv less_irrefl)
      then show ?thesis using v ks by blast
    qed
    then show ?thesis by (auto simp: dom_def split: if_splits)
  qed
  moreover have "count_state (jobs d) s = card {r \<in> set (jobs d). rState r = s}" for s
    using dist by (simp add: count_state_def distinct_card [symmetric])
  moreover have "sum_list (map (\<lambda>s. the (?c s)) known_states) = length (jobs d)"
  proof -
    have m: "map (\<lambda>s. the (?c s)) known_states = map (count_state (jobs d)) known_states" by simp
    show ?thesis unfolding m by (rule count_sum) (rule v)
  qed
  ultimately show ?thesis by (intro exI [of _ ?c]) (simp split: if_splits)
qed

theorem GetCounts_partition_witness:
  "\<exists>c. fst (GetCounts (demo_db [demo_row 1 StateRunning 0 ''http://a'', demo_row 2 StateQueued 0 ''http://a'',
      demo_row 3 StateQueued 0 ''http://b''])) = Inr c \<and> dom c = set known_states"
proof -
  let ?d = "demo_db [demo_row 1 StateRunning 0 ''http://a'', demo_row 2 StateQueued 0 ''http://a'', demo_row 3 StateQueued 0 ''http://b'']"
  have f: "faults ?d = []" by (simp add: demo_db_def)
  from GetCounts_partition [OF demo_db_inv f] show ?thesis by (elim exE conjE) (intro exI conjI)
qed

subsection \<open>Listings\<close>

definition listed :: "job_filter \<Rightarrow> row \<Rightarrow> bool" where
  "listed f r \<longleftrightarrow> where_clause f r \<and>
     (fPrefix f = [] \<or> matchPrefix (rSource r) (rSite r) (fPrefix f) (TrimSuffix (fPrefix f) ''/''))"

lemma scanJob_fields [simp]:
  "jSource (scanJob r) = rSource r" "jSite (scanJob r) = rSite r" "jPath (scanJob r) = rPath r"
  "jState (scanJob r) = rState r" "jMethod (scanJob r) = rMethod r"
  by (simp_all add: scanJob_def SetFlagsJSON_def)

lemma ListJobs_quiet:
  assumes "faults d = []" and "fLimit f \<le> 0"
  shows "fst (ListJobs f d) = Inr (map scanJob (filter (\<lambda>r. fPrefix f = []
       \<or> matchPrefix (rSource r) (rSite r) (fPrefix f) (TrimSuffix (fPrefix f) ''/''))
     (sort_by (order_clause f) (filter (where_clause f) (jobs d)))))"
  using assms by (simp add: ListJobs_def limit_clause_def filter_map comp_def)

lemma order_clause_preorder: "total_preorder (order_clause f)"
proof -
  have k: "total_preorder by_site" "total_preorder by_path"
    by (rule total_preorder_key, rule by_site_def) (rule total_preorder_key, rule by_path_def)
  have i: "total_preorder by_id" "total_preorder by_id_desc"
    by (auto simp: total_preorder_def by_id_def by_id_desc_def)
  show ?thesis unfolding order_clause_def
    by (simp add: i total_preorder_then_by [OF k(1) total_preorder_then_by [OF k(2) i(1)]])
qed

text \<open>Without a limit \<open>ListJobs\<close> returns exactly the jobs the filter selects (states, method, site
  and prefix together), newest first, or by site and then path in the tree order.\<close>

theorem ListJobs_complete:
  assumes "faults d = []" and "fLimit f \<le> 0"
  shows "\<exists>js. fst (ListJobs f d) = Inr js
    \<and> set js = scanJob ` {r \<in> set (jobs d). listed f r}
    \<and> (fOrderBy f \<noteq> ''tree'' \<longrightarrow> sorted_wrt (\<lambda>a b. jID b \<le> jID a) js)
    \<and> (fOrderBy f = ''tree'' \<longrightarrow> sorted_wrt (\<lambda>a b. str_le (jSite a) (jSite b)
          \<and> (jSite a = jSite b \<longrightarrow> str_le (jPath a) (jPath b))) js)"
proof -
  let ?rs = "filter (\<lambda>r. fPrefix f = [] \<or> matchPrefix (rSource r) (rSite r) (fPrefix f) (TrimSuffix (fPrefix f) ''/''))
     (sort_by (order_clause f) (filter (where_clause f) (jobs d)))"
  have s: "sorted_wrt (order_clause f) ?rs"
    using sorted_wrt_sort_by [OF order_clause_preorder] by (rule sorted_wrt_filter)
  have "set (map scanJob ?rs) = scanJob ` {r \<in> set (jobs d). listed f r}"
    by (auto simp: listed_def)
  moreover have "sorted_wrt (\<lambda>a b. jID b \<le> jID a) (map scanJob ?rs)" if "fOrderBy f \<noteq> ''tree''"
    using s that by (simp add: sorted_wrt_map order_clause_def by_id_desc_def [abs_def])
  moreover have "sorted_wrt (\<lambda>a b. str_le (jSite a) (jSite b)
          \<and> (jSite a = jSite b \<longrightarrow> str_le (jPath a) (jPath b))) (map scanJob ?rs)" if "fOrderBy f = ''tree''"
    unfolding sorted_wrt_map
    by (rule sorted_wrt_mono_rel [OF _ s])
       (use that in \<open>auto simp: order_clause_def then_by_def by_site_def by_path_def by_id_def\<close>)
  ultimately show ?thesis using ListJobs_quiet [OF assms] by blast
qed

definition demo_filter :: "string \<Rightarrow> int \<Rightarrow> job_filter" where
  "demo_filter pfx lim = \<lparr>fStates = [], fMethod = [], fSite = [], fPrefix = pfx, fOrderBy = [], fLimit = lim, fOffset = 0\<rparr>"

theorem ListJobs_complete_witness:
  "\<exists>js. fst (ListJobs (demo_filter [] 0) (demo_db [demo_row 1 StateRunning 0 ''http://a''])) = Inr js
     \<and> sorted_wrt (\<lambda>a b. jID b \<le> jID a) js"
proof -
  have "faults (demo_db [demo_row 1 StateRunning 0 ''http://a'']) = []" "fLimit (demo_filter [] 0) \<le> 0"
    "fOrderBy (demo_filter [] 0) \<noteq> ''tree''"
    by (simp_all add: demo_db_def demo_filter_def)
  from ListJobs_complete [OF this(1,2)] this(3) show ?thesis by blast
qed

text \<open>A limit is applied before the prefix: with a limit of one, asking for the jobs under
  \<open>http://a\<close> finds none although there is one, because the newest job is of another site.\<close>

theorem ListJobs_limit_before_prefix:
  "let d = demo_db [demo_row 1 StateQueued 0 ''http://a'', demo_row 2 StateQueued 0 ''http://b''] in
   map_sum id (map jID) (fst (ListJobs (demo_filter ''http://a'' 0) d)) = Inr [1]
   \<and> fst (ListJobs (demo_filter ''http://a'' 1) d) = Inr []"
  by code_simp

end
