(* ===== verification/LogHub.thy ===== *)
theory LogHub
  imports Job
begin

text \<open>
  \<open>internal/daemon/loghub.go\<close>: the in-memory log of the active jobs. A subscriber is a buffered Go
  channel; channels are numbered in the order they are made, and a channel is its capacity, what is
  buffered and whether it was closed. The two panics of Go channels are branches of the model:
  sending on a closed channel and closing one twice give \<open>None\<close>. A subscriber set is a list
  without duplicates (the order in which Go walks the map is not observable: no send blocks).
\<close>

subsection \<open>State\<close>

record chan =
  cCap :: nat
  cBuf :: "job_log list"
  cClosed :: bool

record hub =
  hRing :: nat
  hRecent :: "int \<Rightarrow> job_log list"          \<comment> \<open>a missing key reads as the empty slice\<close>
  hSubs :: "int \<Rightarrow> nat list option"
  hChans :: "chan list"

definition NewLogHub :: "int \<Rightarrow> hub" where
  "NewLogHub n = \<lparr>hRing = (if n \<le> 0 then 500 else nat n), hRecent = (\<lambda>_. []), hSubs = (\<lambda>_. None), hChans = []\<rparr>"

subsection \<open>Operations\<close>

text \<open>The ring buffer of \<open>Broadcast\<close>: a full buffer is shifted by one and its last slot overwritten.\<close>

definition ring_push :: "nat \<Rightarrow> job_log \<Rightarrow> job_log list \<Rightarrow> job_log list" where
  "ring_push n entry buf = (if n \<le> length buf then (tl buf @ [last buf])[length buf - 1 := entry] else buf @ [entry])"

text \<open>The non-blocking send of the \<open>select\<close>: dropped when the buffer is full.\<close>

definition send :: "job_log \<Rightarrow> nat \<Rightarrow> chan list \<Rightarrow> chan list option" where
  "send entry c cs =
    (if cClosed (cs ! c) then None
     else if length (cBuf (cs ! c)) < cCap (cs ! c)
          then Some (cs[c := (cs ! c)\<lparr>cBuf := cBuf (cs ! c) @ [entry]\<rparr>])
     else Some cs)"

fun fan_out :: "job_log \<Rightarrow> nat list \<Rightarrow> chan list \<Rightarrow> chan list option" where
  "fan_out entry [] cs = Some cs"
| "fan_out entry (c # subs) cs = (case send entry c cs of None \<Rightarrow> None | Some cs' \<Rightarrow> fan_out entry subs cs')"

definition log_entry :: "time \<Rightarrow> int \<Rightarrow> string \<Rightarrow> string \<Rightarrow> job_log" where
  "log_entry now jobID stream msg = \<lparr>lID = 0, lJobID = jobID, lTimestamp = now, lStream = stream, lMessage = msg\<rparr>"

definition Broadcast :: "time \<Rightarrow> int \<Rightarrow> string \<Rightarrow> string \<Rightarrow> hub \<Rightarrow> (job_log \<times> hub) option" where
  "Broadcast now jobID stream msg h =
    (let entry = log_entry now jobID stream msg;
         h1 = h\<lparr>hRecent := (hRecent h)(jobID := ring_push (hRing h) entry (hRecent h jobID))\<rparr>;
         subs = (case hSubs h1 jobID of None \<Rightarrow> [] | Some s \<Rightarrow> s)
     in case fan_out entry subs (hChans h1) of
          None \<Rightarrow> None
        | Some cs \<Rightarrow> Some (entry, h1\<lparr>hChans := cs\<rparr>))"

definition Subscribe :: "int \<Rightarrow> int \<Rightarrow> hub \<Rightarrow> (nat \<times> job_log list) \<times> hub" where
  "Subscribe jobID bufferSize h =
    (let cap = (if bufferSize \<le> 0 then 100 else nat bufferSize);
         ch = length (hChans h);
         subs = (case hSubs h jobID of None \<Rightarrow> [] | Some s \<Rightarrow> s)
     in ((ch, hRecent h jobID),
         h\<lparr>hSubs := (hSubs h)(jobID \<mapsto> subs @ [ch]),
           hChans := hChans h @ [\<lparr>cCap = cap, cBuf = [], cClosed = False\<rparr>]\<rparr>))"

definition Unsubscribe :: "int \<Rightarrow> nat \<Rightarrow> hub \<Rightarrow> hub option" where
  "Unsubscribe jobID ch h =
    (let h1 = (case hSubs h jobID of
                 None \<Rightarrow> h
               | Some subs \<Rightarrow>
                   let subs' = removeAll ch subs in
                   if subs' = [] then h\<lparr>hSubs := (hSubs h)(jobID := None)\<rparr>
                   else h\<lparr>hSubs := (hSubs h)(jobID \<mapsto> subs')\<rparr>)
     in if cClosed (hChans h1 ! ch) then None
        else Some (h1\<lparr>hChans := (hChans h1)[ch := (hChans h1 ! ch)\<lparr>cClosed := True\<rparr>]\<rparr>))"

definition Clear :: "int \<Rightarrow> hub \<Rightarrow> hub" where
  "Clear jobID h = h\<lparr>hRecent := (hRecent h)(jobID := [])\<rparr>"

text \<open>A client taking the next line off its channel.\<close>

definition receive :: "nat \<Rightarrow> hub \<Rightarrow> job_log option \<times> hub" where
  "receive ch h = (case cBuf (hChans h ! ch) of
      [] \<Rightarrow> (None, h)
    | l # ls \<Rightarrow> (Some l, h\<lparr>hChans := (hChans h)[ch := (hChans h ! ch)\<lparr>cBuf := ls\<rparr>]\<rparr>))"

subsection \<open>Runs\<close>

datatype hub_op =
    HBroadcast time int string string
  | HSubscribe int int
  | HUnsubscribe int nat
  | HReceive nat
  | HClear int

fun hub_step :: "hub_op \<Rightarrow> hub \<Rightarrow> hub option" where
  "hub_step (HBroadcast now i s m) h = map_option snd (Broadcast now i s m h)"
| "hub_step (HSubscribe i b) h = Some (snd (Subscribe i b h))"
| "hub_step (HUnsubscribe i c) h = Unsubscribe i c h"
| "hub_step (HReceive c) h = Some (snd (receive c h))"
| "hub_step (HClear i) h = Some (Clear i h)"

text \<open>Clients unsubscribe a channel they hold, from the job they subscribed to.\<close>

fun hub_pre :: "hub_op \<Rightarrow> hub \<Rightarrow> bool" where
  "hub_pre (HUnsubscribe i c) h = (case hSubs h i of None \<Rightarrow> False | Some s \<Rightarrow> c \<in> set s)"
| "hub_pre (HReceive c) h = (c < length (hChans h))"
| "hub_pre _ h = True"

text \<open>What a step hands to a client: the channel and the line received.\<close>

fun hub_out :: "hub_op \<Rightarrow> hub \<Rightarrow> (nat \<times> job_log) list" where
  "hub_out (HReceive c) h = (case fst (receive c h) of None \<Rightarrow> [] | Some l \<Rightarrow> [(c, l)])"
| "hub_out _ h = []"

inductive hub_run :: "hub \<Rightarrow> hub_op list \<Rightarrow> (nat \<times> job_log) list \<Rightarrow> hub \<Rightarrow> bool" where
  nil: "hub_run h [] [] h"
| snoc: "hub_run h ops out h' \<Longrightarrow> hub_pre op h' \<Longrightarrow> hub_step op h' = Some h''
    \<Longrightarrow> hub_run h (ops @ [op]) (out @ hub_out op h') h''"

lemma hub_run_cons:
  "hub_run h' ops out h'' \<Longrightarrow> hub_pre op h \<Longrightarrow> hub_step op h = Some h'
   \<Longrightarrow> hub_run h (op # ops) (hub_out op h @ out) h''"
proof (induction rule: hub_run.induct)
  case (nil h')
  then show ?case using hub_run.snoc [OF hub_run.nil, of op h h'] by simp
next
  case (snoc h0 ops out h' op' h'')
  then show ?case using hub_run.snoc [of h "op # ops" "hub_out op h @ out" h' op' h''] by simp
qed

text \<open>Runs, computed.\<close>

fun hub_exec :: "hub_op list \<Rightarrow> hub \<Rightarrow> ((nat \<times> job_log) list \<times> hub) option" where
  "hub_exec [] h = Some ([], h)"
| "hub_exec (op # ops) h =
     (if hub_pre op h
      then (case hub_step op h of None \<Rightarrow> None
            | Some h' \<Rightarrow> map_option (\<lambda>(out, h''). (hub_out op h @ out, h'')) (hub_exec ops h'))
      else None)"

lemma hub_exec_run: "hub_exec ops h = Some (out, h') \<Longrightarrow> hub_run h ops out h'"
proof (induction ops arbitrary: h out)
  case (Cons op ops)
  then show ?case by (auto split: if_splits option.splits intro: hub_run_cons)
qed (auto intro: hub_run.nil)

subsection \<open>The recent lines\<close>

lemma ring_push_take_last:
  assumes "0 < n" and "length buf \<le> n"
  shows "ring_push n entry buf = take_last n (buf @ [entry])"
proof (cases "length buf = n")
  case True
  then have ne: "buf \<noteq> []" using assms(1) by auto
  have "(tl buf @ [last buf])[length buf - 1 := entry] = tl buf @ [entry]"
    using ne by (simp add: list_update_append)
  then show ?thesis using True assms(1) by (simp add: ring_push_def take_last_snoc_full take_last_def drop_Suc)
next
  case False
  then show ?thesis using assms(2) by (simp add: ring_push_def take_last_def)
qed

lemma take_last_absorb: "take_last n (take_last n xs @ [x]) = take_last n (xs @ [x])"
proof (cases "length xs \<le> n")
  case False
  then show ?thesis by (cases n) (simp_all add: take_last_def Suc_diff_Suc)
qed (simp add: take_last_def)

lemma take_last_all: "length xs \<le> n \<Longrightarrow> take_last n xs = xs"
  by (simp add: take_last_def)

text \<open>A bounded history: what any component that keeps the last \<open>size\<close> items promises.\<close>

locale bounded_history =
  fixes view :: "'s \<Rightarrow> 'e list" and push :: "'e \<Rightarrow> 's \<Rightarrow> 's" and size :: nat
    and ok :: "'s \<Rightarrow> bool"
  assumes pushed: "ok s \<Longrightarrow> view (push e s) = take_last size (view s @ [e])"
    and still: "ok s \<Longrightarrow> ok (push e s)"
begin

lemma view_fold: "ok s \<Longrightarrow> length (view s) \<le> size \<Longrightarrow> view (fold push es s) = take_last size (view s @ es)"
proof (induction es rule: rev_induct)
  case (snoc e es)
  have "ok (fold push es s)" using snoc.prems(1) by (induction es arbitrary: s) (auto intro: still)
  then have "view (fold push (es @ [e]) s) = take_last size (view (fold push es s) @ [e])"
    by (simp add: pushed)
  also have "\<dots> = take_last size ((view s @ es) @ [e])"
    using snoc by (simp add: take_last_absorb del: append_assoc)
  finally show ?case by simp
qed (simp add: take_last_all)

end

lemma ring_push_length: "0 < n \<Longrightarrow> length buf \<le> n \<Longrightarrow> length (ring_push n e buf) \<le> n"
  by (simp add: ring_push_take_last)

interpretation ring: bounded_history "\<lambda>buf. buf" "ring_push (Suc n)" "Suc n" "\<lambda>buf. length buf \<le> Suc n" for n
  by unfold_locales (auto simp: ring_push_take_last)

subsection \<open>The invariant\<close>

definition subs_of :: "hub \<Rightarrow> int \<Rightarrow> nat list" where
  "subs_of h i = (case hSubs h i of None \<Rightarrow> [] | Some s \<Rightarrow> s)"

definition hub_inv :: "hub \<Rightarrow> bool" where
  "hub_inv h \<longleftrightarrow> 0 < hRing h \<and> (\<forall>i. length (hRecent h i) \<le> hRing h)
     \<and> (\<forall>i. hSubs h i \<noteq> Some [])
     \<and> (\<forall>i. distinct (subs_of h i))
     \<and> (\<forall>i. \<forall>c \<in> set (subs_of h i). c < length (hChans h) \<and> \<not> cClosed (hChans h ! c))
     \<and> (\<forall>i j. i \<noteq> j \<longrightarrow> set (subs_of h i) \<inter> set (subs_of h j) = {})
     \<and> (\<forall>ch \<in> set (hChans h). length (cBuf ch) \<le> cCap ch)"

lemma subs_of_upd [simp]: "subs_of (h\<lparr>hChans := cs\<rparr>) = subs_of h" "subs_of (h\<lparr>hRecent := f\<rparr>) = subs_of h"
  by (simp_all add: subs_of_def fun_eq_iff)

lemma hub_inv_sub:
  "hub_inv h \<Longrightarrow> c \<in> set (subs_of h i) \<Longrightarrow> c < length (hChans h)"
  "hub_inv h \<Longrightarrow> c \<in> set (subs_of h i) \<Longrightarrow> \<not> cClosed (hChans h ! c)"
  "hub_inv h \<Longrightarrow> c \<in> set (subs_of h i) \<Longrightarrow> c \<in> set (subs_of h j) \<Longrightarrow> i = j"
  unfolding hub_inv_def by blast+

lemma NewLogHub_inv: "hub_inv (NewLogHub n)"
  by (simp add: hub_inv_def NewLogHub_def subs_of_def)

text \<open>A send to open channels: every subscriber with room gets the line, nothing else changes.\<close>

definition offer :: "job_log \<Rightarrow> chan \<Rightarrow> chan" where
  "offer e ch = (if length (cBuf ch) < cCap ch then ch\<lparr>cBuf := cBuf ch @ [e]\<rparr> else ch)"

lemma offer_simps [simp]: "cClosed (offer e ch) = cClosed ch" "cCap (offer e ch) = cCap ch"
  by (simp_all add: offer_def)

lemma offer_cap: "length (cBuf ch) \<le> cCap ch \<Longrightarrow> length (cBuf (offer e ch)) \<le> cCap ch"
  by (simp add: offer_def)

lemma send_offer: "\<not> cClosed (cs ! c) \<Longrightarrow> send e c cs = Some (cs[c := offer e (cs ! c)])"
  by (simp add: send_def offer_def)

lemma fan_out_offer:
  assumes "\<forall>c \<in> set subs. c < length cs \<and> \<not> cClosed (cs ! c)" and "distinct subs"
  shows "\<exists>cs'. fan_out e subs cs = Some cs' \<and> length cs' = length cs
    \<and> (\<forall>c < length cs. cs' ! c = (if c \<in> set subs then offer e (cs ! c) else cs ! c))"
  using assms
proof (induction subs arbitrary: cs)
  case (Cons c subs)
  let ?cs = "cs[c := offer e (cs ! c)]"
  have "\<forall>d \<in> set subs. d < length ?cs \<and> \<not> cClosed (?cs ! d)"
    using Cons.prems by (auto simp: nth_list_update)
  then obtain cs' where cs': "fan_out e subs ?cs = Some cs'" "length cs' = length ?cs"
    "\<forall>d < length ?cs. cs' ! d = (if d \<in> set subs then offer e (?cs ! d) else ?cs ! d)"
    using Cons.IH [of ?cs] Cons.prems(2) by auto
  have "fan_out e (c # subs) cs = Some cs'" using Cons.prems(1) cs'(1) by (simp add: send_offer)
  moreover have "cs' ! d = (if d \<in> set (c # subs) then offer e (cs ! d) else cs ! d)" if "d < length cs" for d
    using cs'(3) that Cons.prems by (auto simp: nth_list_update)
  ultimately show ?case using cs'(2) by auto
qed simp

lemma Broadcast_cases:
  assumes "hub_inv h"
  obtains cs where "Broadcast now i s m h = Some (log_entry now i s m,
       h\<lparr>hRecent := (hRecent h)(i := ring_push (hRing h) (log_entry now i s m) (hRecent h i)), hChans := cs\<rparr>)"
    "length cs = length (hChans h)"
    "\<And>c. c < length (hChans h) \<Longrightarrow>
        cs ! c = (if c \<in> set (subs_of h i) then offer (log_entry now i s m) (hChans h ! c) else hChans h ! c)"
proof -
  have "\<forall>c \<in> set (subs_of h i). c < length (hChans h) \<and> \<not> cClosed (hChans h ! c)" "distinct (subs_of h i)"
    using assms by (simp_all add: hub_inv_def)
  from fan_out_offer [OF this, of "log_entry now i s m"]
  obtain cs where "fan_out (log_entry now i s m) (subs_of h i) (hChans h) = Some cs" "length cs = length (hChans h)"
    "\<forall>c < length (hChans h). cs ! c = (if c \<in> set (subs_of h i) then offer (log_entry now i s m) (hChans h ! c) else hChans h ! c)"
    by auto
  then show ?thesis using that by (simp add: Broadcast_def Let_def subs_of_def)
qed

subsection \<open>Every step keeps the invariant and none panics\<close>

lemma hub_inv_chans:
  assumes "hub_inv h" and "length cs = length (hChans h)"
    and "\<And>c. c < length (hChans h) \<Longrightarrow> cClosed (hChans h ! c) = cClosed (cs ! c) \<and> length (cBuf (cs ! c)) \<le> cCap (cs ! c)"
  shows "hub_inv (h\<lparr>hChans := cs\<rparr>)"
proof -
  have "length (cBuf ch) \<le> cCap ch" if "ch \<in> set cs" for ch
    using that assms(2,3) by (auto simp: in_set_conv_nth)
  moreover have "\<not> cClosed (cs ! c)" if "c \<in> set (subs_of h i)" for c i
    using assms(3) hub_inv_sub [OF assms(1) that] by blast
  ultimately show ?thesis using assms(1,2) by (simp add: hub_inv_def)
qed

lemma step_Broadcast_cases:
  assumes "hub_inv h" and "hub_step (HBroadcast now i s m) h = Some h'"
  obtains cs where "h' = h\<lparr>hRecent := (hRecent h)(i := ring_push (hRing h) (log_entry now i s m) (hRecent h i)), hChans := cs\<rparr>"
    "length cs = length (hChans h)"
    "\<And>c. c < length (hChans h) \<Longrightarrow>
        cs ! c = (if c \<in> set (subs_of h i) then offer (log_entry now i s m) (hChans h ! c) else hChans h ! c)"
proof (rule Broadcast_cases [OF assms(1), of now i s m])
  fix cs assume cs: "Broadcast now i s m h = Some (log_entry now i s m,
       h\<lparr>hRecent := (hRecent h)(i := ring_push (hRing h) (log_entry now i s m) (hRecent h i)), hChans := cs\<rparr>)"
    "length cs = length (hChans h)"
    "\<And>c. c < length (hChans h) \<Longrightarrow>
        cs ! c = (if c \<in> set (subs_of h i) then offer (log_entry now i s m) (hChans h ! c) else hChans h ! c)"
  then show ?thesis using assms(2) by (intro that [of cs]) simp_all
qed

lemma Broadcast_inv:
  assumes "hub_inv h" and "Broadcast now i s m h = Some (e, h')"
  shows "hub_inv h'"
proof -
  obtain cs where cs: "h' = h\<lparr>hRecent := (hRecent h)(i := ring_push (hRing h) e (hRecent h i)), hChans := cs\<rparr>"
    "length cs = length (hChans h)"
    "\<And>c. c < length (hChans h) \<Longrightarrow> cs ! c = (if c \<in> set (subs_of h i) then offer e (hChans h ! c) else hChans h ! c)"
    using assms by (auto elim!: Broadcast_cases [of h now i s m])
  have cap: "length (cBuf (hChans h ! c)) \<le> cCap (hChans h ! c)" if "c < length (hChans h)" for c
    using assms(1) that by (simp add: hub_inv_def)
  have "hub_inv (h\<lparr>hChans := cs\<rparr>)"
    by (rule hub_inv_chans [OF assms(1) cs(2)]) (simp add: cs(3) cap offer_cap)
  moreover have "length (ring_push (hRing h) e (hRecent h i)) \<le> hRing h"
    using assms(1) by (intro ring_push_length) (auto simp: hub_inv_def)
  ultimately show ?thesis by (simp add: cs(1) hub_inv_def)
qed

lemma Subscribe_inv:
  assumes "hub_inv h"
  shows "hub_inv (snd (Subscribe i b h))"
proof -
  let ?h = "snd (Subscribe i b h)" and ?n = "length (hChans h)"
  have new: "?n \<notin> set (subs_of h j)" for j using assms by (auto simp: hub_inv_def)
  have subs: "subs_of ?h j = (if j = i then subs_of h i @ [?n] else subs_of h j)" for j
    by (simp add: Subscribe_def Let_def subs_of_def)
  have chans: "hChans ?h = hChans h @ [\<lparr>cCap = (if b \<le> 0 then 100 else nat b), cBuf = [], cClosed = False\<rparr>]"
    by (simp add: Subscribe_def Let_def)
  have old: "c < length (hChans h) \<and> \<not> cClosed (hChans h ! c)" if "c \<in> set (subs_of h j)" for c j
    using assms that by (auto simp: hub_inv_def)
  have "hSubs ?h j \<noteq> Some []" for j
    using assms by (auto simp: Subscribe_def Let_def hub_inv_def)
  moreover have "distinct (subs_of ?h j)" for j
    using assms new by (simp add: subs hub_inv_def)
  moreover have "c < length (hChans ?h) \<and> \<not> cClosed (hChans ?h ! c)" if "c \<in> set (subs_of ?h j)" for c j
    using that old by (fastforce simp: subs chans nth_append split: if_splits)
  moreover have "set (subs_of ?h j) \<inter> set (subs_of ?h k) = {}" if "j \<noteq> k" for j k
    using assms that new by (auto simp: subs hub_inv_def)
  moreover have "length (cBuf ch) \<le> cCap ch" if "ch \<in> set (hChans ?h)" for ch
    using that assms by (auto simp: chans hub_inv_def)
  moreover have "hRing ?h = hRing h" "hRecent ?h = hRecent h"
    by (simp_all add: Subscribe_def Let_def)
  ultimately show ?thesis using assms unfolding hub_inv_def by (metis (no_types, lifting))
qed

lemma Unsubscribe_inv:
  assumes "hub_inv h" and "c \<in> set (subs_of h i)"
  shows "\<exists>h'. Unsubscribe i c h = Some h' \<and> hub_inv h' \<and> hRecent h' = hRecent h \<and> hRing h' = hRing h"
proof -
  obtain s where s: "hSubs h i = Some s" "c \<in> set s"
    using assms(2) by (cases "hSubs h i") (auto simp: subs_of_def)
  have c: "c < length (hChans h)" "\<not> cClosed (hChans h ! c)" using assms by (auto simp: hub_inv_def)
  define S where "S = (hSubs h)(i := (if removeAll c s = [] then None else Some (removeAll c s)))"
  define cs where "cs = (hChans h)[c := (hChans h ! c)\<lparr>cClosed := True\<rparr>]"
  define h' where "h' = h\<lparr>hSubs := S, hChans := cs\<rparr>"
  have u: "Unsubscribe i c h = Some h'"
    using c(2) by (simp add: Unsubscribe_def Let_def s h'_def S_def cs_def)
  have subs: "subs_of h' j = (if j = i then removeAll c s else subs_of h j)" for j
    by (simp add: h'_def S_def subs_of_def)
  have s': "subs_of h i = s" by (simp add: subs_of_def s)
  have no: "c \<notin> set (subs_of h' j)" for j
  proof
    assume "c \<in> set (subs_of h' j)"
    then show False using hub_inv_sub(3) [OF assms, of j] by (cases "j = i") (simp_all add: subs)
  qed
  have sub: "set (subs_of h' j) \<subseteq> set (subs_of h j)" for j by (auto simp: subs s')
  have "hSubs h' j \<noteq> Some []" for j
    using assms(1) by (auto simp: h'_def S_def hub_inv_def)
  moreover have "distinct (subs_of h' j)" for j
  proof -
    have "distinct (subs_of h j)" "distinct s" using assms(1) s' by (auto simp: hub_inv_def)
    then show ?thesis by (simp add: subs distinct_removeAll)
  qed
  moreover have "d < length (hChans h') \<and> \<not> cClosed (hChans h' ! d)" if "d \<in> set (subs_of h' j)" for d j
  proof -
    have "d \<noteq> c" using no that by auto
    moreover have "d < length (hChans h) \<and> \<not> cClosed (hChans h ! d)"
      using assms(1) sub that unfolding hub_inv_def by blast
    ultimately show ?thesis by (simp add: h'_def cs_def)
  qed
  moreover have "set (subs_of h' j) \<inter> set (subs_of h' k) = {}" if "j \<noteq> k" for j k
    using assms(1) sub [of j] sub [of k] that unfolding hub_inv_def by blast
  moreover have "length (cBuf ch) \<le> cCap ch" if "ch \<in> set (hChans h')" for ch
  proof -
    have "ch \<in> insert ((hChans h ! c)\<lparr>cClosed := True\<rparr>) (set (hChans h))"
      using that set_update_subset_insert [of "hChans h" c] by (auto simp: h'_def cs_def)
    moreover have "\<forall>k \<in> set (hChans h). length (cBuf k) \<le> cCap k" using assms(1) by (simp add: hub_inv_def)
    ultimately show ?thesis using nth_mem [OF c(1)] by auto
  qed
  moreover have "hRing h' = hRing h" "hRecent h' = hRecent h" by (simp_all add: h'_def)
  ultimately have "hub_inv h'" using assms(1) unfolding hub_inv_def by (metis (no_types, lifting))
  then show ?thesis using u by (simp add: h'_def)
qed

lemma receive_inv:
  assumes "hub_inv h" and "c < length (hChans h)"
  shows "hub_inv (snd (receive c h))"
proof (cases "cBuf (hChans h ! c)")
  case Nil
  then show ?thesis using assms by (simp add: receive_def)
next
  case (Cons l ls)
  have "length (cBuf (hChans h ! c)) \<le> cCap (hChans h ! c)" using assms by (auto simp: hub_inv_def)
  moreover have "length (cBuf (hChans h ! d)) \<le> cCap (hChans h ! d)" if "d < length (hChans h)" for d
    using assms(1) that by (auto simp: hub_inv_def)
  ultimately have "hub_inv (h\<lparr>hChans := (hChans h)[c := (hChans h ! c)\<lparr>cBuf := ls\<rparr>]\<rparr>)"
    using Cons by (intro hub_inv_chans [OF assms(1)]) (auto simp: nth_list_update assms(2))
  then show ?thesis by (simp add: receive_def Cons)
qed

lemma Clear_inv: "hub_inv h \<Longrightarrow> hub_inv (Clear i h)"
  by (simp add: hub_inv_def Clear_def)

lemma hub_step_inv:
  assumes "hub_inv h" and "hub_pre op h"
  shows "\<exists>h'. hub_step op h = Some h' \<and> hub_inv h'"
proof (cases op)
  case (HBroadcast now i s m)
  obtain e h' where "Broadcast now i s m h = Some (e, h')" by (rule Broadcast_cases [OF assms(1)]) blast
  then show ?thesis using Broadcast_inv [OF assms(1)] HBroadcast by auto
next
  case (HUnsubscribe i c)
  then have "c \<in> set (subs_of h i)" using assms(2) by (auto simp: subs_of_def split: option.splits)
  then show ?thesis using Unsubscribe_inv [OF assms(1)] HUnsubscribe by auto
qed (use assms in \<open>auto simp: Subscribe_inv receive_inv Clear_inv\<close>)

lemma hub_run_inv: "hub_run h ops out h' \<Longrightarrow> hub_inv h \<Longrightarrow> hub_inv h'"
proof (induction rule: hub_run.induct)
  case (snoc h ops out h' op h'')
  then show ?case using hub_step_inv [of h' op] by auto
qed

subsection \<open>What subscribers see\<close>

text \<open>The lines posted for a job by a list of operations, and those a full history would hold.\<close>

fun posted :: "int \<Rightarrow> hub_op list \<Rightarrow> job_log list" where
  "posted i [] = []"
| "posted i (HBroadcast now j s m # ops) = (if i = j then log_entry now j s m # posted i ops else posted i ops)"
| "posted i (_ # ops) = posted i ops"

lemma posted_append [simp]: "posted i (ops @ ops') = posted i ops @ posted i ops'"
  by (induction i ops rule: posted.induct) auto

text \<open>The lines of a job since its history was last cleared.\<close>

fun uncleared :: "int \<Rightarrow> hub_op list \<Rightarrow> job_log list \<Rightarrow> job_log list" where
  "uncleared i [] acc = acc"
| "uncleared i (HBroadcast now j s m # ops) acc = uncleared i ops (if i = j then acc @ [log_entry now j s m] else acc)"
| "uncleared i (HClear j # ops) acc = uncleared i ops (if i = j then [] else acc)"
| "uncleared i (_ # ops) acc = uncleared i ops acc"

lemma uncleared_snoc: "uncleared i (ops @ [op]) acc = uncleared i [op] (uncleared i ops acc)"
  by (induction i ops acc rule: uncleared.induct) auto

lemma step_recent:
  assumes "hub_inv h" and "hub_pre op h" and "hub_step op h = Some h'"
    and "hRecent h i = take_last (hRing h) ls"
  shows "hRing h' = hRing h" and "hRecent h' i = take_last (hRing h') (uncleared i [op] ls)"
proof -
  have len: "0 < hRing h" "\<And>i. length (hRecent h i) \<le> hRing h" using assms(1) by (auto simp: hub_inv_def)
  have "hRing h' = hRing h \<and> hRecent h' i = take_last (hRing h) (uncleared i [op] ls)"
  proof (cases op)
    case (HBroadcast now j s m)
    obtain cs where h': "h' = h\<lparr>hRecent := (hRecent h)(j := ring_push (hRing h) (log_entry now j s m) (hRecent h j)), hChans := cs\<rparr>"
      using assms(3) unfolding HBroadcast by (rule step_Broadcast_cases [OF assms(1)])
    show ?thesis
      using assms(4) by (auto simp: h' HBroadcast ring_push_take_last [OF len] take_last_absorb)
  next
    case (HUnsubscribe j c)
    then have "c \<in> set (subs_of h j)" using assms(2) by (auto simp: subs_of_def split: option.splits)
    then show ?thesis using Unsubscribe_inv [OF assms(1)] HUnsubscribe assms(3,4) by fastforce
  next
    case (HReceive c)
    then show ?thesis using assms(3,4) by (auto simp: receive_def split: list.splits)
  next
    case (HSubscribe j b)
    then show ?thesis using assms(3,4) by (auto simp: Subscribe_def Let_def)
  next
    case (HClear j)
    then show ?thesis using assms(3,4) by (auto simp: Clear_def take_last_def)
  qed
  then show "hRing h' = hRing h" "hRecent h' i = take_last (hRing h') (uncleared i [op] ls)" by simp_all
qed

lemma run_recent:
  assumes "hub_run h ops out h'" and "hub_inv h" and "hRecent h i = take_last (hRing h) ls"
  shows "hRing h' = hRing h \<and> hRecent h' i = take_last (hRing h) (uncleared i ops ls)"
  using assms
proof (induction rule: hub_run.induct)
  case (snoc h ops out h' op h'')
  then have ih: "hRing h' = hRing h" "hRecent h' i = take_last (hRing h') (uncleared i ops ls)" by simp_all
  from step_recent [OF hub_run_inv [OF snoc.hyps(1) snoc.prems(1)] snoc.hyps(2,3) ih(2)] ih(1)
  show ?case by (simp add: uncleared_snoc del: uncleared.simps)
qed simp

text \<open>One channel along a run: what its client has received so far and what is still buffered are,
  in order, lines posted for the job; all of them if the buffer never had to drop one.\<close>

definition got :: "nat \<Rightarrow> (nat \<times> job_log) list \<Rightarrow> job_log list" where
  "got c out = map snd (filter (\<lambda>p. fst p = c) out)"

lemma got_append [simp]: "got c (xs @ ys) = got c xs @ got c ys" "got c [] = []"
  by (simp_all add: got_def)

lemma step_stream:
  assumes "hub_inv h" and "hub_pre op h" and "hub_step op h = Some h'"
    and "c \<in> set (subs_of h i)" and "op \<noteq> HUnsubscribe i c"
  shows "c \<in> set (subs_of h' i) \<and> cCap (hChans h' ! c) = cCap (hChans h ! c)
    \<and> got c (hub_out op h) @ cBuf (hChans h' ! c) =
      cBuf (hChans h ! c) @ (if length (cBuf (hChans h ! c)) < cCap (hChans h ! c) then posted i [op] else [])"
proof -
  have c: "c < length (hChans h)" using hub_inv_sub(1) [OF assms(1,4)] .
  show ?thesis
  proof (cases op)
    case (HBroadcast now j s m)
    from assms(3) obtain cs where h': "h' = h\<lparr>hRecent := (hRecent h)(j := ring_push (hRing h) (log_entry now j s m) (hRecent h j)), hChans := cs\<rparr>"
      and cs: "\<And>d. d < length (hChans h) \<Longrightarrow>
        cs ! d = (if d \<in> set (subs_of h j) then offer (log_entry now j s m) (hChans h ! d) else hChans h ! d)"
      unfolding HBroadcast by (rule step_Broadcast_cases [OF assms(1)]) (rule that; assumption)
    have "c \<in> set (subs_of h j) \<longleftrightarrow> i = j" using hub_inv_sub(3) [OF assms(1,4)] assms(4) by blast
    then show ?thesis using assms(4) by (simp add: h' cs [OF c] HBroadcast offer_def)
  next
    case (HUnsubscribe j d)
    have "d \<in> set (subs_of h j)" using assms(2) HUnsubscribe by (auto simp: subs_of_def split: option.splits)
    then have dc: "d \<noteq> c" using assms(5) HUnsubscribe hub_inv_sub(3) [OF assms(1,4)] by blast
    obtain sj where sj: "hSubs h j = Some sj" using assms(2) HUnsubscribe by (auto split: option.splits)
    have h': "hChans h' = (hChans h)[d := (hChans h ! d)\<lparr>cClosed := True\<rparr>]"
      "hSubs h' = (hSubs h)(j := (if removeAll d sj = [] then None else Some (removeAll d sj)))"
      using assms(3) HUnsubscribe sj by (auto simp: Unsubscribe_def Let_def split: if_splits)
    have "c \<in> set (removeAll d sj)" if "c \<in> set sj" using that dc by simp
    then have "c \<in> set (subs_of h' i)" using assms(4) sj
      by (cases "removeAll d sj") (auto simp: subs_of_def h')
    then show ?thesis using dc by (simp add: h'(1) HUnsubscribe)
  next
    case (HReceive d)
    then show ?thesis using assms(3,4) c
      by (cases "cBuf (hChans h ! d)"; cases "d = c") (auto simp: receive_def got_def subs_of_def)
  next
    case (HSubscribe j b)
    then show ?thesis using assms(3,4) c
      by (auto simp: Subscribe_def Let_def subs_of_def nth_append)
  next
    case (HClear j)
    then show ?thesis using assms(3,4) by (auto simp: Clear_def)
  qed
qed

lemma run_stream:
  assumes "hub_run h ops out h'" and "hub_inv h" and "c \<in> set (subs_of h i)"
    and "HUnsubscribe i c \<notin> set ops" and "cBuf (hChans h ! c) = []"
  shows "c \<in> set (subs_of h' i) \<and> cCap (hChans h' ! c) = cCap (hChans h ! c)
    \<and> subseq (got c out @ cBuf (hChans h' ! c)) (posted i ops)
    \<and> (length (posted i ops) \<le> cCap (hChans h ! c) \<longrightarrow> got c out @ cBuf (hChans h' ! c) = posted i ops)"
  using assms
proof (induction rule: hub_run.induct)
  case (snoc h ops out h' op h'')
  let ?buf = "cBuf (hChans h' ! c)" and ?new = "posted i [op]"
  have ih: "c \<in> set (subs_of h' i)" "cCap (hChans h' ! c) = cCap (hChans h ! c)"
    "subseq (got c out @ ?buf) (posted i ops)"
    "length (posted i ops) \<le> cCap (hChans h ! c) \<Longrightarrow> got c out @ ?buf = posted i ops"
    using snoc by auto
  note st = step_stream [OF hub_run_inv [OF snoc.hyps(1) snoc.prems(1)] snoc.hyps(2,3) ih(1)]
  have st': "c \<in> set (subs_of h'' i)" "cCap (hChans h'' ! c) = cCap (hChans h' ! c)"
    "got c (out @ hub_out op h') @ cBuf (hChans h'' ! c)
     = (got c out @ ?buf) @ (if length ?buf < cCap (hChans h ! c) then ?new else [])"
    using st snoc.prems(3) ih(2) by auto
  have "subseq ((got c out @ ?buf) @ (if length ?buf < cCap (hChans h ! c) then ?new else [])) (posted i ops @ ?new)"
    by (intro list_emb_append_mono ih(3)) auto
  moreover have "(got c out @ ?buf) @ (if length ?buf < cCap (hChans h ! c) then ?new else []) = posted i ops @ ?new"
    if l: "length (posted i (ops @ [op])) \<le> cCap (hChans h ! c)"
  proof -
    have e: "got c out @ ?buf = posted i ops" using l by (intro ih(4)) simp
    then have "length ?buf \<le> length (posted i ops)" by (metis length_append le_add2)
    then show ?thesis using e l by (cases ?new) auto
  qed
  ultimately show ?case using st' ih(2) by simp
qed simp

subsection \<open>Properties\<close>

text \<open>The log hub never panics: as long as clients unsubscribe only what they hold, no sequence
  of broadcasts, subscriptions, reads and clears sends on a closed channel or closes one twice.\<close>

theorem LogHub_no_panic:
  assumes "hub_run (NewLogHub n) ops out h" and "hub_pre op h"
  shows "hub_step op h \<noteq> None"
  using hub_step_inv [OF hub_run_inv [OF assms(1) NewLogHub_inv] assms(2)] by auto

definition demo_ops :: "hub_op list" where
  "demo_ops = [HBroadcast 1 7 ''out'' ''a'', HBroadcast 2 7 ''out'' ''b'', HSubscribe 7 1, HBroadcast 3 7 ''out'' ''c'',
     HBroadcast 4 8 ''out'' ''x'', HReceive 0, HBroadcast 5 7 ''out'' ''d'', HBroadcast 6 7 ''out'' ''e'']"

definition demo_hub :: "int \<Rightarrow> hub_op list \<Rightarrow> hub" where
  "demo_hub n ops = snd (the (hub_exec ops (NewLogHub n)))"

lemma demo_run: "hub_run (NewLogHub 2) demo_ops [(0, log_entry 3 7 ''out'' ''c'')] (demo_hub 2 demo_ops)"
proof -
  have "\<exists>h. hub_exec demo_ops (NewLogHub 2) = Some ([(0, log_entry 3 7 ''out'' ''c'')], h)"
    by (simp add: demo_ops_def NewLogHub_def Broadcast_def Subscribe_def Let_def receive_def send_def)
  then obtain h where "hub_exec demo_ops (NewLogHub 2) = Some ([(0, log_entry 3 7 ''out'' ''c'')], h)" by blast
  then show ?thesis using hub_exec_run by (simp add: demo_hub_def)
qed

theorem LogHub_no_panic_witness:
  "hub_step (HUnsubscribe 7 0) (demo_hub 2 demo_ops) \<noteq> None"
proof (rule LogHub_no_panic [OF demo_run])
  have "hSubs (demo_hub 2 demo_ops) 7 = Some [0]"
    by (simp add: demo_hub_def demo_ops_def NewLogHub_def Broadcast_def Subscribe_def Let_def receive_def send_def)
  then show "hub_pre (HUnsubscribe 7 0) (demo_hub 2 demo_ops)" by simp
qed

text \<open>The recent lines of a job are the last \<open>ringSize\<close> lines broadcast for it since its history
  was cleared, whatever was done in between for other jobs or by subscribers; this is what a new
  subscriber is given.\<close>

theorem LogHub_recent:
  assumes "hub_run (NewLogHub n) ops out h"
  shows "hRecent h i = take_last (if n \<le> 0 then 500 else nat n) (uncleared i ops [])
    \<and> snd (fst (Subscribe i b h)) = hRecent h i"
  using run_recent [OF assms NewLogHub_inv, of i "[]"]
  by (simp add: NewLogHub_def take_last_def Subscribe_def Let_def)

theorem LogHub_recent_witness:
  "map lMessage (hRecent (demo_hub 2 demo_ops) 7) = [''d'', ''e'']"
  using LogHub_recent [OF demo_run, of 7] by (simp add: demo_ops_def take_last_def log_entry_def)

text \<open>A subscriber sees its job's lines in order, none twice and none of another job; and it
  misses none as long as at most as many lines are broadcast as its buffer holds. Together with
  the recent lines it is given there is no gap at the time it subscribes.\<close>

theorem LogHub_stream:
  assumes "hub_run (NewLogHub n) ops0 out0 h0" and "Subscribe i b h0 = ((c, recent), h)"
    and "hub_run h ops out h'" and "HUnsubscribe i c \<notin> set ops"
  shows "subseq (got c out @ cBuf (hChans h' ! c)) (posted i ops)
    \<and> (int (length (posted i ops)) \<le> (if b \<le> 0 then 100 else b)
         \<longrightarrow> got c out @ cBuf (hChans h' ! c) = posted i ops)"
proof -
  have inv: "hub_inv h" using Subscribe_inv [OF hub_run_inv [OF assms(1) NewLogHub_inv], of i b] assms(2) by simp
  have c: "c = length (hChans h0)" "c \<in> set (subs_of h i)" "cBuf (hChans h ! c) = []"
    "cCap (hChans h ! c) = (if b \<le> 0 then 100 else nat b)"
    using assms(2) by (auto simp: Subscribe_def Let_def subs_of_def)
  from run_stream [OF assms(3) inv c(2) assms(4) c(3)] show ?thesis by (auto simp: c(4))
qed

theorem LogHub_stream_witness:
  "\<exists>h' out. hub_run (snd (Subscribe 7 2 (NewLogHub 5))) [HBroadcast 3 7 ''out'' ''c'', HBroadcast 4 7 ''out'' ''d'', HReceive 0] out h'
     \<and> got 0 out @ cBuf (hChans h' ! 0) = [log_entry 3 7 ''out'' ''c'', log_entry 4 7 ''out'' ''d'']"
proof -
  let ?ops = "[HBroadcast 3 7 ''out'' ''c'', HBroadcast 4 7 ''out'' ''d'', HReceive 0]"
  let ?h = "snd (Subscribe 7 2 (NewLogHub 5))"
  have s: "Subscribe 7 2 (NewLogHub 5) = ((0, []), ?h)"
    by (simp add: Subscribe_def NewLogHub_def Let_def)
  have "hub_exec ?ops ?h \<noteq> None"
    by (simp add: NewLogHub_def Broadcast_def Subscribe_def Let_def receive_def send_def)
  then obtain out h' where "hub_exec ?ops ?h = Some (out, h')" by auto
  then have r: "hub_run ?h ?ops out h'" by (rule hub_exec_run)
  from LogHub_stream [OF hub_run.nil s r] r show ?thesis by (intro exI [of _ h'] exI [of _ out]) simp
qed

end
