(* ===== verification/Queue.thy ===== *)
theory Queue
  imports StoreQueries LogHub "HOL-Library.AList"
begin

text \<open>
  \<open>internal/daemon/queue.go\<close>: the queue that dispatches jobs to workers. Its state is the store and
  the log hub, the fields of \<open>Queue\<close>, the dispatcher's place in its loop, and the worker
  goroutines. A context is a token; \<open>qCancelled\<close> holds the tokens whose cancel function was called.
  The goroutines interleave between the critical sections of the code: the dispatcher has three
  steps (the check under the lock, the claim, the registration with the start of the worker), a
  worker logs lines, reports its outcome to the store and, later, removes itself from the maps. The
  executor is not modelled: what it logs and returns are arbitrary inputs of the worker's steps.
\<close>

subsection \<open>State\<close>

record worker =
  wTok :: nat          \<comment> \<open>its context\<close>
  wJob :: job
  wDone :: bool        \<comment> \<open>the outcome is in the store, the deferred cleanup has not run\<close>

datatype dispatcher = DCheck | DClaim | DSpawn job | DExit

record queue =
  qStore :: db
  qHub :: hub
  qPaused :: bool
  qConcurrency :: int
  qMaxRetries :: int
  qStartTime :: time
  qRunningCancels :: "(int \<times> nat) list"
  qActiveJobs :: "(int \<times> job) list"
  qNotify :: bool
  qStopped :: bool
  qDispatcher :: dispatcher
  qWorkers :: "worker list"
  qCancelled :: "nat list"
  qNextTok :: nat

record queue_config =
  cfgConcurrency :: int
  cfgMaxRetries :: int

definition NewQueue :: "db \<Rightarrow> hub option \<Rightarrow> queue_config \<Rightarrow> queue" where
  "NewQueue d logHub cfg = \<lparr>qStore = d,
     qHub = (case logHub of None \<Rightarrow> NewLogHub 500 | Some h \<Rightarrow> h),
     qPaused = False,
     qConcurrency = (if cfgConcurrency cfg \<le> 0 then 2 else cfgConcurrency cfg),
     qMaxRetries = (if cfgMaxRetries cfg \<le> 0 then 3 else cfgMaxRetries cfg),
     qStartTime = zero_time, qRunningCancels = [], qActiveJobs = [], qNotify = False,
     qStopped = False, qDispatcher = DExit, qWorkers = [], qCancelled = [], qNextTok = 0\<rparr>"

definition Start :: "time \<Rightarrow> queue \<Rightarrow> queue" where
  "Start now q =
    (let d1 = snd (RecoverOrphanedJobs now (qStore q));
         ((paused, conc, err), d2) = GetQueueConfig d1;
         q1 = q\<lparr>qStartTime := now, qStore := d2\<rparr>;
         q2 = (if err = None
               then (if 0 < conc then q1\<lparr>qPaused := paused, qConcurrency := conc\<rparr> else q1\<lparr>qPaused := paused\<rparr>)
               else q1)
     in q2\<lparr>qDispatcher := DCheck\<rparr>)"

definition cancel_ctx :: "nat \<Rightarrow> queue \<Rightarrow> queue" where
  "cancel_ctx tok q = q\<lparr>qCancelled := tok # qCancelled q\<rparr>"

definition notify :: "queue \<Rightarrow> queue" where
  "notify q = q\<lparr>qNotify := True\<rparr>"

text \<open>\<open>Stop\<close> up to its wait for the goroutines.\<close>

definition Stop :: "queue \<Rightarrow> queue" where
  "Stop q = (fold (\<lambda>(i, tok) q. cancel_ctx tok q) (qRunningCancels q) q)\<lparr>qRunningCancels := [], qStopped := True\<rparr>"

subsection \<open>The dispatcher\<close>

text \<open>One turn of the loop up to the claim; \<open>DCheck\<close> again stands for the waits that end by a
  notification or a timeout.\<close>

definition dispatch_check :: "queue \<Rightarrow> queue" where
  "dispatch_check q =
    (if qStopped q then q\<lparr>qDispatcher := DExit\<rparr>
     else if qPaused q \<or> qConcurrency q \<le> int (length (qActiveJobs q)) then q\<lparr>qNotify := False\<rparr>
     else q\<lparr>qDispatcher := DClaim\<rparr>)"

definition dispatch_claim :: "time \<Rightarrow> queue \<Rightarrow> queue" where
  "dispatch_claim now q =
    (case ClaimNextJob now (qStore q) of
       (Inl e, d) \<Rightarrow> q\<lparr>qStore := d, qDispatcher := DCheck\<rparr>
     | (Inr job, d) \<Rightarrow> q\<lparr>qStore := d, qDispatcher := DSpawn job\<rparr>)"

definition dispatch_spawn :: "job \<Rightarrow> queue \<Rightarrow> queue" where
  "dispatch_spawn job q =
    (let tok = qNextTok q in
     q\<lparr>qActiveJobs := AList.update (jID job) job (qActiveJobs q),
       qRunningCancels := AList.update (jID job) tok (qRunningCancels q),
       qWorkers := qWorkers q @ [\<lparr>wTok = tok, wJob = job, wDone = False\<rparr>],
       qNextTok := tok + 1,
       qDispatcher := DCheck\<rparr>)"

subsection \<open>Workers\<close>

definition isImmediateQuarantineError :: "string \<Rightarrow> string option" where
  "isImmediateQuarantineError err =
    (let msg = ToLower err in
     if Contains msg ''password'' \<or> Contains msg ''auth failed'' \<or> Contains msg ''invalid credentials''
     then Some ''Authentication or password failed''
     else if Contains msg ''403 forbidden'' \<or> Contains msg ''account locked'' \<or> Contains msg ''access restricted''
     then Some ''Access denied or account restricted (HTTP 403)''
     else if Contains msg ''cookie rotation'' \<or> Contains msg ''session no longer valid''
     then Some ''Session/cookies expired or invalid''
     else None)"

text \<open>The \<open>onLog\<close> callback; \<open>None\<close> is the panic of the hub.\<close>

definition onLog :: "time \<Rightarrow> job \<Rightarrow> string \<Rightarrow> string \<Rightarrow> queue \<Rightarrow> queue option" where
  "onLog now job stream line q =
    (case Broadcast now (jID job) stream line (qHub q) of
       None \<Rightarrow> None
     | Some (_, h) \<Rightarrow> Some (q\<lparr>qHub := h, qStore := snd (AppendLog now (jID job) stream line (qStore q))\<rparr>))"

text \<open>What a worker writes when the executor has returned.\<close>

definition record_outcome :: "time \<Rightarrow> bool \<Rightarrow> string option \<Rightarrow> int \<Rightarrow> db \<Rightarrow> db" where
  "record_outcome now ctx_cancelled runErr i d =
    (if ctx_cancelled then snd (FinishJob now i StateCancelled ''cancelled by user'' d)
     else (case runErr of
         None \<Rightarrow> snd (FinishJob now i StateCompleted [] d)
       | Some msg \<Rightarrow>
          (case isImmediateQuarantineError msg of
             Some reason \<Rightarrow> snd (QuarantineJob now i (reason @ '': '' @ msg) d)
           | None \<Rightarrow> snd (FailAndRetryJob now i msg d))))"

definition find_worker :: "nat \<Rightarrow> queue \<Rightarrow> worker option" where
  "find_worker tok q = find (\<lambda>w. wTok w = tok) (qWorkers q)"

definition worker_report :: "time \<Rightarrow> worker \<Rightarrow> string option \<Rightarrow> queue \<Rightarrow> queue" where
  "worker_report now w runErr q =
    q\<lparr>qStore := record_outcome now (wTok w \<in> set (qCancelled q)) runErr (jID (wJob w)) (qStore q),
      qWorkers := map_where (\<lambda>v. wTok v = wTok w) (\<lambda>v. v\<lparr>wDone := True\<rparr>) (qWorkers q)\<rparr>"

definition worker_cleanup :: "worker \<Rightarrow> queue \<Rightarrow> queue" where
  "worker_cleanup w q = notify
    (q\<lparr>qActiveJobs := AList.delete (jID (wJob w)) (qActiveJobs q),
       qRunningCancels := AList.delete (jID (wJob w)) (qRunningCancels q),
       qWorkers := filter (\<lambda>v. wTok v \<noteq> wTok w) (qWorkers q)\<rparr>)"

subsection \<open>Operations of the API\<close>

definition on_store :: "'a op \<Rightarrow> queue \<Rightarrow> 'a result \<times> queue" where
  "on_store op q = (case op (qStore q) of (r, d) \<Rightarrow> (r, q\<lparr>qStore := d\<rparr>))"

definition Enqueue :: "time \<Rightarrow> submit_request \<Rightarrow> queue \<Rightarrow> job result \<times> queue" where
  "Enqueue now req q =
    (case Validate req of
       Inl e \<Rightarrow> (Inl e, q)
     | Inr _ \<Rightarrow>
        (case on_store (EnqueueJob now (new_job\<lparr>jMethod := sMethod req, jSource := sSource req,
                 jDestDir := sDestDir req, jFlags := sFlags req, jPriority := sPriority req,
                 jMaxRetries := qMaxRetries q\<rparr>)) q of
           (Inl e, q1) \<Rightarrow> (Inl e, q1)
         | (Inr job, q1) \<Rightarrow> (Inr job, notify q1)))"

definition PauseQueue :: "queue \<Rightarrow> unit result \<times> queue" where
  "PauseQueue q = on_store (SetQueuePaused True) (q\<lparr>qPaused := True\<rparr>)"

definition ResumeQueue :: "queue \<Rightarrow> unit result \<times> queue" where
  "ResumeQueue q = (case on_store (SetQueuePaused False) (q\<lparr>qPaused := False\<rparr>) of (r, q1) \<Rightarrow> (r, notify q1))"

definition SetConcurrency :: "int \<Rightarrow> queue \<Rightarrow> unit result \<times> queue" where
  "SetConcurrency n q =
    (if n < 1 then (Inl (ErrMsg ''concurrency must be at least 1''), q)
     else (case on_store (SetQueueConcurrency n) (q\<lparr>qConcurrency := n\<rparr>) of (r, q1) \<Rightarrow> (r, notify q1)))"

definition CancelQueueJob :: "time \<Rightarrow> int \<Rightarrow> queue \<Rightarrow> unit result \<times> queue" where
  "CancelQueueJob now i q =
    (case map_of (qRunningCancels q) i of
       Some tok \<Rightarrow> (Inr (), cancel_ctx tok q)
     | None \<Rightarrow> on_store (CancelJob now i) q)"

definition PauseQueueJob :: "int \<Rightarrow> queue \<Rightarrow> unit result \<times> queue" where
  "PauseQueueJob i q = on_store (PauseJob i) q"

definition ResumeQueueJob :: "int \<Rightarrow> queue \<Rightarrow> unit result \<times> queue" where
  "ResumeQueueJob i q = (case on_store (ResumeJob i) q of (r, q1) \<Rightarrow> (r, notify q1))"

definition RetryQueueJob :: "int \<Rightarrow> queue \<Rightarrow> job result \<times> queue" where
  "RetryQueueJob i q = (case on_store (RetryJob i) q of
     (Inl e, q1) \<Rightarrow> (Inl e, q1) | (Inr job, q1) \<Rightarrow> (Inr job, notify q1))"

definition QuarantineQueueJob :: "time \<Rightarrow> int \<Rightarrow> string \<Rightarrow> queue \<Rightarrow> unit result \<times> queue" where
  "QuarantineQueueJob now i reason q =
    on_store (QuarantineJob now i reason)
      (case map_of (qRunningCancels q) i of Some tok \<Rightarrow> cancel_ctx tok q | None \<Rightarrow> q)"

definition UnquarantineQueueJob :: "int \<Rightarrow> queue \<Rightarrow> unit result \<times> queue" where
  "UnquarantineQueueJob i q = (case on_store (UnquarantineJob i) q of
     (Inl e, q1) \<Rightarrow> (Inl e, q1) | (Inr u, q1) \<Rightarrow> (Inr u, notify q1))"

text \<open>The loop of \<open>BatchJobs\<close> over the running jobs: whether a job is selected, by its id or by
  looking its source up, and then its cancellation.\<close>

definition should_cancel :: "batch_request \<Rightarrow> int \<Rightarrow> queue \<Rightarrow> bool \<times> queue" where
  "should_cancel req i q =
    (if bIDs req \<noteq> [] then (i \<in> set (bIDs req), q)
     else if bPrefix req \<noteq> [] then
       (case on_store (GetJob i) q of
          (Inr job, q1) \<Rightarrow> (matchPrefix (jSource job) (jSite job) (bPrefix req) (TrimSuffix (bPrefix req) ''/''), q1)
        | (Inl _, q1) \<Rightarrow> (False, q1))
     else (False, q))"

fun batch_cancels :: "batch_request \<Rightarrow> (int \<times> nat) list \<Rightarrow> queue \<Rightarrow> queue" where
  "batch_cancels req [] q = q"
| "batch_cancels req ((i, tok) # rest) q =
    (case should_cancel req i q of (b, q1) \<Rightarrow>
       batch_cancels req rest
         (if b then (cancel_ctx tok q1)\<lparr>qRunningCancels := AList.delete i (qRunningCancels q1)\<rparr> else q1))"

definition BatchJobs :: "time \<Rightarrow> batch_request \<Rightarrow> queue \<Rightarrow> batch_result result \<times> queue" where
  "BatchJobs now req q =
    (let q1 = (if bAction req = BatchCancel \<or> bAction req = BatchQuarantine
               then batch_cancels req (qRunningCancels q) q else q)
     in case on_store (BatchAction now req) q1 of
          (Inl e, q2) \<Rightarrow> (Inl e, q2)
        | (Inr res, q2) \<Rightarrow>
            (Inr res, if bAction req = BatchResume \<or> bAction req = BatchUnquarantine \<or> bAction req = BatchRetry
                      then notify q2 else q2))"

definition GetStatus :: "time \<Rightarrow> queue \<Rightarrow> queue_status result \<times> queue" where
  "GetStatus now q =
    (case on_store GetCounts q of
       (Inl e, q1) \<Rightarrow> (Inl e, q1)
     | (Inr counts, q1) \<Rightarrow>
         (Inr \<lparr>qsPaused = qPaused q, qsConcurrency = qConcurrency q, qsMaxRetries = qMaxRetries q,
               qsCounts = counts, qsActiveJobs = map snd (qActiveJobs q),
               qsUptimeSec = (now - qStartTime q) div 1000000000\<rparr>, q1))"

end
