(* ===== verification/QueueInv.thy ===== *)
theory QueueInv
  imports Queue
begin

text \<open>
  The queue as a system of interleaved goroutines: its events, its runs, the invariant of the maps
  and workers, and the bound on active jobs.
\<close>

subsection \<open>Events and runs\<close>

datatype qev =
    EvCheck
  | EvClaim time
  | EvSpawn
  | EvLog nat time string string
  | EvReport nat time "string option"
  | EvCleanup nat
  | EvEnqueue time submit_request
  | EvPause
  | EvResume
  | EvSetConcurrency int
  | EvCancel time int
  | EvPauseJob int
  | EvResumeJob int
  | EvRetry int
  | EvQuarantine time int string
  | EvUnquarantine int
  | EvBatch time batch_request
  | EvDelete int
  | EvRead nat
  | EvHub hub_op
  | EvStop

text \<open>When an event can happen: the dispatcher is at that place, the worker exists and is at that
  stage, or a client of the log hub uses a channel it holds. \<open>EvDelete\<close> is the API server's direct
  call of the store; \<open>EvRead\<close> stands for its reads, which only spend driver calls.\<close>

fun q_pre :: "qev \<Rightarrow> queue \<Rightarrow> bool" where
  "q_pre EvCheck q = (qDispatcher q = DCheck)"
| "q_pre (EvClaim now) q = (qDispatcher q = DClaim)"
| "q_pre EvSpawn q = (case qDispatcher q of DSpawn j \<Rightarrow> True | _ \<Rightarrow> False)"
| "q_pre (EvLog tok now s l) q = (case find_worker tok q of None \<Rightarrow> False | Some w \<Rightarrow> \<not> wDone w)"
| "q_pre (EvReport tok now r) q = (case find_worker tok q of None \<Rightarrow> False | Some w \<Rightarrow> \<not> wDone w)"
| "q_pre (EvCleanup tok) q = (case find_worker tok q of None \<Rightarrow> False | Some w \<Rightarrow> wDone w)"
| "q_pre (EvHub op) q = ((case op of HBroadcast now i s m \<Rightarrow> False | _ \<Rightarrow> True) \<and> hub_pre op (qHub q))"
| "q_pre _ q = True"

fun q_step :: "qev \<Rightarrow> queue \<Rightarrow> queue option" where
  "q_step EvCheck q = Some (dispatch_check q)"
| "q_step (EvClaim now) q = Some (dispatch_claim now q)"
| "q_step EvSpawn q = (case qDispatcher q of DSpawn j \<Rightarrow> Some (dispatch_spawn j q) | _ \<Rightarrow> None)"
| "q_step (EvLog tok now s l) q = (case find_worker tok q of None \<Rightarrow> None | Some w \<Rightarrow> onLog now (wJob w) s l q)"
| "q_step (EvReport tok now r) q = map_option (\<lambda>w. worker_report now w r q) (find_worker tok q)"
| "q_step (EvCleanup tok) q = map_option (\<lambda>w. worker_cleanup w q) (find_worker tok q)"
| "q_step (EvEnqueue now req) q = Some (snd (Enqueue now req q))"
| "q_step EvPause q = Some (snd (PauseQueue q))"
| "q_step EvResume q = Some (snd (ResumeQueue q))"
| "q_step (EvSetConcurrency n) q = Some (snd (SetConcurrency n q))"
| "q_step (EvCancel now i) q = Some (snd (CancelQueueJob now i q))"
| "q_step (EvPauseJob i) q = Some (snd (PauseQueueJob i q))"
| "q_step (EvResumeJob i) q = Some (snd (ResumeQueueJob i q))"
| "q_step (EvRetry i) q = Some (snd (RetryQueueJob i q))"
| "q_step (EvQuarantine now i reason) q = Some (snd (QuarantineQueueJob now i reason q))"
| "q_step (EvUnquarantine i) q = Some (snd (UnquarantineQueueJob i q))"
| "q_step (EvBatch now req) q = Some (snd (BatchJobs now req q))"
| "q_step (EvDelete i) q = Some (snd (on_store (DeleteJob i) q))"
| "q_step (EvRead n) q = Some (q\<lparr>qStore := (qStore q)\<lparr>faults := drop n (faults (qStore q))\<rparr>\<rparr>)"
| "q_step (EvHub op) q = map_option (\<lambda>h. q\<lparr>qHub := h\<rparr>) (hub_step op (qHub q))"
| "q_step EvStop q = Some (Stop q)"

inductive q_run :: "queue \<Rightarrow> qev list \<Rightarrow> queue \<Rightarrow> bool" where
  nil: "q_run q [] q"
| snoc: "q_run q evs q' \<Longrightarrow> q_pre ev q' \<Longrightarrow> q_step ev q' = Some q'' \<Longrightarrow> q_run q (evs @ [ev]) q''"

inductive_cases q_run_snocE: "q_run q (evs @ [ev]) q''"

lemma q_run_cons: "q_run q' evs q'' \<Longrightarrow> q_pre ev q \<Longrightarrow> q_step ev q = Some q' \<Longrightarrow> q_run q (ev # evs) q''"
proof (induction rule: q_run.induct)
  case (nil q')
  then show ?case using q_run.snoc [OF q_run.nil, of ev q q'] by simp
next
  case (snoc q0 evs q' ev' q'')
  then show ?case using q_run.snoc [of q "ev # evs" q' ev' q''] by simp
qed

fun q_exec :: "qev list \<Rightarrow> queue \<Rightarrow> queue option" where
  "q_exec [] q = Some q"
| "q_exec (ev # evs) q = (if q_pre ev q then Option.bind (q_step ev q) (q_exec evs) else None)"

lemma q_exec_run: "q_exec evs q = Some q' \<Longrightarrow> q_run q evs q'"
  by (induction evs arbitrary: q) (auto intro: q_run.nil q_run_cons split: if_splits bind_splits)

subsection \<open>What the operations leave alone\<close>

definition core :: "queue \<Rightarrow> (int \<times> job) list \<times> worker list \<times> nat \<times> dispatcher" where
  "core q = (qActiveJobs q, qWorkers q, qNextTok q, qDispatcher q)"

lemma on_store_simps [simp]:
  "snd (on_store op q) = q\<lparr>qStore := snd (op (qStore q))\<rparr>"
  "fst (on_store op q) = fst (op (qStore q))"
  by (simp_all add: on_store_def split: prod.split)

lemma notify_simps [simp]:
  "core (notify q) = core q" "qRunningCancels (notify q) = qRunningCancels q" "qStore (notify q) = qStore q"
  "qHub (notify q) = qHub q" "qConcurrency (notify q) = qConcurrency q" "qPaused (notify q) = qPaused q"
  "qCancelled (notify q) = qCancelled q" "qDispatcher (notify q) = qDispatcher q" "qStopped (notify q) = qStopped q"
  "qActiveJobs (notify q) = qActiveJobs q" "qWorkers (notify q) = qWorkers q" "qNextTok (notify q) = qNextTok q"
  by (simp_all add: notify_def core_def)

lemma cancel_ctx_simps [simp]:
  "core (cancel_ctx t q) = core q" "qRunningCancels (cancel_ctx t q) = qRunningCancels q"
  "qStore (cancel_ctx t q) = qStore q" "qHub (cancel_ctx t q) = qHub q"
  "qConcurrency (cancel_ctx t q) = qConcurrency q" "qPaused (cancel_ctx t q) = qPaused q"
  "qCancelled (cancel_ctx t q) = t # qCancelled q"
  by (simp_all add: cancel_ctx_def core_def)

lemma core_upd [simp]:
  "core (q\<lparr>qStore := d\<rparr>) = core q" "core (q\<lparr>qPaused := b\<rparr>) = core q" "core (q\<lparr>qConcurrency := n\<rparr>) = core q"
  "core (q\<lparr>qHub := h\<rparr>) = core q" "core (q\<lparr>qRunningCancels := rc\<rparr>) = core q" "core (q\<lparr>qStopped := b\<rparr>) = core q"
  "core (q\<lparr>qNotify := b\<rparr>) = core q"
  by (simp_all add: core_def)

text \<open>The store after an operation of the API, and the rest of the state up to the wake-up flag.\<close>

definition same_maps :: "queue \<Rightarrow> queue \<Rightarrow> bool" where
  "same_maps q q' \<longleftrightarrow> core q' = core q \<and> set (qRunningCancels q') \<subseteq> set (qRunningCancels q)
     \<and> (distinct (map fst (qRunningCancels q)) \<longrightarrow> distinct (map fst (qRunningCancels q')))
     \<and> qHub q' = qHub q"

lemma same_maps_refl [simp]: "same_maps q q"
  by (simp add: same_maps_def)

lemma same_maps_trans: "same_maps q q' \<Longrightarrow> same_maps q' q'' \<Longrightarrow> same_maps q q''"
  by (auto simp: same_maps_def)

lemma same_maps_upd [simp]:
  "same_maps q (q\<lparr>qStore := d\<rparr>)" "same_maps q (q\<lparr>qPaused := b\<rparr>)" "same_maps q (q\<lparr>qConcurrency := n\<rparr>)"
  "same_maps q (cancel_ctx t q)" "same_maps q (notify q)"
  "same_maps q (q\<lparr>qStore := d, qPaused := b\<rparr>)" "same_maps q (q\<lparr>qStore := d, qConcurrency := n\<rparr>)"
  "same_maps q (q\<lparr>qRunningCancels := [], qStopped := b\<rparr>)"
  by (simp_all add: same_maps_def)

lemma same_maps_delete: "same_maps q (q\<lparr>qRunningCancels := AList.delete i (qRunningCancels q)\<rparr>)"
  by (auto simp: same_maps_def AList.delete_eq distinct_map_filter)

lemma same_maps_notify: "same_maps q q' \<Longrightarrow> same_maps q (notify q')"
  by (erule same_maps_trans) simp

text \<open>The loop of \<open>BatchJobs\<close> reads the store, cancels contexts and drops their entries.\<close>

definition quiet_change :: "queue \<Rightarrow> queue \<Rightarrow> bool" where
  "quiet_change q q' \<longleftrightarrow> same_maps q q'
     \<and> (\<exists>fs. qStore q' = (qStore q)\<lparr>faults := fs\<rparr> \<and> (faults (qStore q) = [] \<longrightarrow> fs = []))
     \<and> qConcurrency q' = qConcurrency q \<and> qPaused q' = qPaused q"

lemma quiet_change_refl [simp]: "quiet_change q q"
  unfolding quiet_change_def by (auto intro: exI [of _ "faults (qStore q)"])

lemma quiet_change_trans: "quiet_change q q' \<Longrightarrow> quiet_change q' q'' \<Longrightarrow> quiet_change q q''"
  unfolding quiet_change_def by (auto intro: same_maps_trans)

lemma quiet_change_cancel [simp]: "quiet_change q (cancel_ctx t q)"
  unfolding quiet_change_def by (auto intro: exI [of _ "faults (qStore q)"])

lemma quiet_change_delete:
  "quiet_change q (q\<lparr>qRunningCancels := AList.delete i (qRunningCancels q)\<rparr>)"
  unfolding quiet_change_def by (auto simp: same_maps_delete intro: exI [of _ "faults (qStore q)"])

lemma quiet_change_stop: "quiet_change q (q\<lparr>qRunningCancels := [], qStopped := b\<rparr>)"
  unfolding quiet_change_def by (auto intro: exI [of _ "faults (qStore q)"])

lemma should_cancel_effect:
  assumes "should_cancel req i q = (b, q1)"
  shows "quiet_change q q1"
proof -
  obtain r d where g: "GetJob i (qStore q) = (r, d)" by (cases "GetJob i (qStore q)")
  with GetJob_db [of i "qStore q"] obtain gs where gs: "d = (qStore q)\<lparr>faults := gs\<rparr>" by auto
  have "faults d = []" if "faults (qStore q) = []" using g that by (auto simp: GetJob_def)
  then have "quiet_change q (q\<lparr>qStore := d\<rparr>)" unfolding quiet_change_def gs by auto
  moreover have "q1 = q \<or> q1 = q\<lparr>qStore := d\<rparr>"
    using assms by (auto simp: should_cancel_def on_store_def g split: if_split_asm sum.split_asm)
  ultimately show ?thesis by auto
qed

lemma batch_cancels_effect: "quiet_change q (batch_cancels req rc q)"
proof (induction req rc q rule: batch_cancels.induct)
  case (2 req i tok rest q)
  obtain b q1 where b: "should_cancel req i q = (b, q1)" by (cases "should_cancel req i q")
  let ?q2 = "if b then (cancel_ctx tok q1)\<lparr>qRunningCancels := AList.delete i (qRunningCancels q1)\<rparr> else q1"
  have "quiet_change q1 ?q2"
    using quiet_change_trans [OF quiet_change_cancel [of q1 tok] quiet_change_delete [of _ i]] by simp
  from quiet_change_trans [OF should_cancel_effect [OF b] this]
  have "quiet_change q ?q2" .
  from quiet_change_trans [OF this 2 [OF b [symmetric]]] show ?case by (simp add: b)
qed simp

lemma Stop_effect: "quiet_change q (Stop q)"
proof -
  have "quiet_change q (fold (\<lambda>(i, tok) q. cancel_ctx tok q) rc q)" for rc
  proof (induction rc arbitrary: q)
    case (Cons e rc)
    obtain i t where e: "e = (i, t)" by (cases e)
    show ?case using quiet_change_trans [OF quiet_change_cancel [of q t] Cons.IH] by (simp add: e)
  qed simp
  from quiet_change_trans [OF this quiet_change_stop] show ?thesis unfolding Stop_def .
qed

text \<open>The events of the API, the hub's clients and \<open>Stop\<close> do not touch the maps, except that some
  drop cancel functions.\<close>

fun api_event :: "qev \<Rightarrow> bool" where
  "api_event EvCheck = False"
| "api_event (EvClaim now) = False"
| "api_event EvSpawn = False"
| "api_event (EvLog tok now s l) = False"
| "api_event (EvReport tok now r) = False"
| "api_event (EvCleanup tok) = False"
| "api_event (EvHub op) = False"
| "api_event _ = True"

lemma API_store:
  "qStore (snd (PauseQueue q)) = snd (SetQueuePaused True (qStore q))"
  "qStore (snd (ResumeQueue q)) = snd (SetQueuePaused False (qStore q))"
  "qStore (snd (SetConcurrency n q)) = (if n < 1 then qStore q else snd (SetQueueConcurrency n (qStore q)))"
  "qStore (snd (CancelQueueJob now i q)) =
     (if map_of (qRunningCancels q) i = None then snd (CancelJob now i (qStore q)) else qStore q)"
  "qStore (snd (PauseQueueJob i q)) = snd (PauseJob i (qStore q))"
  "qStore (snd (ResumeQueueJob i q)) = snd (ResumeJob i (qStore q))"
  "qStore (snd (RetryQueueJob i q)) = snd (RetryJob i (qStore q))"
  "qStore (snd (QuarantineQueueJob now i reason q)) = snd (QuarantineJob now i reason (qStore q))"
  "qStore (snd (UnquarantineQueueJob i q)) = snd (UnquarantineJob i (qStore q))"
  by (auto simp: PauseQueue_def ResumeQueue_def SetConcurrency_def CancelQueueJob_def PauseQueueJob_def
      ResumeQueueJob_def RetryQueueJob_def QuarantineQueueJob_def UnquarantineQueueJob_def
      on_store_def split: prod.split sum.split option.split)

lemma Enqueue_store:
  "qStore (snd (Enqueue now req q)) \<in> {qStore q, snd (EnqueueJob now (new_job\<lparr>jMethod := sMethod req,
     jSource := sSource req, jDestDir := sDestDir req, jFlags := sFlags req, jPriority := sPriority req,
     jMaxRetries := qMaxRetries q\<rparr>) (qStore q))}"
  by (auto simp: Enqueue_def on_store_def split: prod.split sum.split)

lemma BatchJobs_store:
  obtains fs where "faults (qStore q) = [] \<longrightarrow> fs = []" "qStore (snd (BatchJobs now req q)) = snd (BatchAction now req ((qStore q)\<lparr>faults := fs\<rparr>))"
proof -
  define q1 where "q1 = (if bAction req = BatchCancel \<or> bAction req = BatchQuarantine
               then batch_cancels req (qRunningCancels q) q else q)"
  have "quiet_change q q1" using batch_cancels_effect by (simp add: q1_def)
  then obtain fs where fs: "qStore q1 = (qStore q)\<lparr>faults := fs\<rparr>" "faults (qStore q) = [] \<longrightarrow> fs = []"
    by (auto simp: quiet_change_def)
  have "qStore (snd (BatchJobs now req q)) = snd (BatchAction now req (qStore q1))"
    unfolding BatchJobs_def Let_def q1_def [symmetric]
    by (auto simp: on_store_def split: prod.split sum.split)
  then show ?thesis using that fs by simp
qed

lemma same_maps_store_notify [simp]:
  "same_maps q (notify (q\<lparr>qStore := d\<rparr>))" "same_maps q (notify (q\<lparr>qPaused := b, qStore := d\<rparr>))"
  "same_maps q (q\<lparr>qPaused := b, qStore := d\<rparr>)" "same_maps q (q\<lparr>qConcurrency := n, qStore := d\<rparr>)"
  "same_maps q (notify (q\<lparr>qConcurrency := n, qStore := d\<rparr>))" "same_maps q ((cancel_ctx t q)\<lparr>qStore := d\<rparr>)"
  by (simp_all add: same_maps_def)

lemma API_maps:
  "same_maps q (snd (PauseQueue q))" "same_maps q (snd (ResumeQueue q))" "same_maps q (snd (SetConcurrency n q))"
  "same_maps q (snd (CancelQueueJob now i q))" "same_maps q (snd (PauseQueueJob i q))"
  "same_maps q (snd (ResumeQueueJob i q))" "same_maps q (snd (RetryQueueJob i q))"
  "same_maps q (snd (QuarantineQueueJob now i reason q))" "same_maps q (snd (UnquarantineQueueJob i q))"
  "same_maps q (snd (Enqueue now req q))"
  by (auto simp: PauseQueue_def ResumeQueue_def SetConcurrency_def CancelQueueJob_def PauseQueueJob_def
      ResumeQueueJob_def RetryQueueJob_def QuarantineQueueJob_def UnquarantineQueueJob_def Enqueue_def
      on_store_def split: prod.split sum.split option.split)

lemma BatchJobs_maps: "same_maps q (snd (BatchJobs now req q))"
proof -
  define q1 where "q1 = (if bAction req = BatchCancel \<or> bAction req = BatchQuarantine
               then batch_cancels req (qRunningCancels q) q else q)"
  have 1: "same_maps q q1" using batch_cancels_effect by (simp add: q1_def quiet_change_def)
  have "same_maps q1 (snd (BatchJobs now req q))"
    unfolding BatchJobs_def Let_def q1_def [symmetric]
    by (auto simp: on_store_def split: prod.split sum.split)
  with 1 show ?thesis by (rule same_maps_trans)
qed

lemma api_step_maps: "api_event ev \<Longrightarrow> q_step ev q = Some q' \<Longrightarrow> same_maps q q'"
  using Stop_effect [of q]
  by (cases ev) (auto simp: API_maps BatchJobs_maps quiet_change_def)

subsection \<open>The invariant\<close>

text \<open>Active jobs and cancel functions are keyed once, every cancel function is of an active job and
  of a live worker on it, every active job has a worker, and contexts are never shared.\<close>

definition maps_inv :: "(int \<Rightarrow> job option) \<Rightarrow> (int \<Rightarrow> nat option) \<Rightarrow> worker list \<Rightarrow> nat \<Rightarrow> bool" where
  "maps_inv A C ws n \<longleftrightarrow> dom C \<subseteq> dom A
     \<and> (\<forall>i \<in> dom A. \<exists>w \<in> set ws. jID (wJob w) = i)
     \<and> (\<forall>i t. C i = Some t \<longrightarrow> (\<exists>w \<in> set ws. wTok w = t \<and> jID (wJob w) = i))
     \<and> distinct (map wTok ws) \<and> (\<forall>w \<in> set ws. wTok w < n)"

definition maps_ok :: "queue \<Rightarrow> bool" where
  "maps_ok q \<longleftrightarrow> distinct (map fst (qActiveJobs q)) \<and> distinct (map fst (qRunningCancels q))
     \<and> maps_inv (map_of (qActiveJobs q)) (map_of (qRunningCancels q)) (qWorkers q) (qNextTok q)"

definition q_inv :: "queue \<Rightarrow> bool" where
  "q_inv q \<longleftrightarrow> maps_ok q \<and> db_inv (qStore q) \<and> hub_inv (qHub q)"

lemma maps_inv_spawn:
  assumes "maps_inv A C ws n"
  shows "maps_inv (A(jID j \<mapsto> j)) (C(jID j \<mapsto> n)) (ws @ [\<lparr>wTok = n, wJob = j, wDone = b\<rparr>]) (n + 1)"
proof -
  have "wTok w < n" if "w \<in> set ws" for w using assms that by (simp add: maps_inv_def)
  then have "n \<notin> wTok ` set ws" "\<forall>w \<in> set ws. wTok w < n + 1" by fastforce+
  moreover have "dom C \<subseteq> dom A" "\<And>i. i \<in> dom A \<Longrightarrow> \<exists>w \<in> set ws. jID (wJob w) = i"
    "\<And>i t. C i = Some t \<Longrightarrow> \<exists>w \<in> set ws. wTok w = t \<and> jID (wJob w) = i" "distinct (map wTok ws)"
    using assms by (simp_all add: maps_inv_def)
  ultimately show ?thesis unfolding maps_inv_def by (auto split: if_splits)
qed

lemma maps_inv_cleanup:
  assumes "maps_inv A C ws n" and "w \<in> set ws"
  shows "maps_inv (A(jID (wJob w) := None)) (C(jID (wJob w) := None)) (filter (\<lambda>v. wTok v \<noteq> wTok w) ws) n"
proof -
  have d: "distinct (map wTok ws)" using assms(1) by (simp add: maps_inv_def)
  have other: "wTok v \<noteq> wTok w" if "v \<in> set ws" "jID (wJob v) \<noteq> jID (wJob w)" for v
    using d that assms(2) by (metis distinct_map inj_on_eq_iff)
  let ?ws = "filter (\<lambda>v. wTok v \<noteq> wTok w) ws"
  have 1: "\<exists>v \<in> set ?ws. jID (wJob v) = i" if i: "i \<in> dom A" "i \<noteq> jID (wJob w)" for i
  proof -
    obtain v where "v \<in> set ws" "jID (wJob v) = i" using assms(1) i(1) unfolding maps_inv_def by blast
    with other [of v] i(2) show ?thesis by auto
  qed
  have 2: "\<exists>v \<in> set ?ws. wTok v = t \<and> jID (wJob v) = i"
    if i: "C i = Some t" "i \<noteq> jID (wJob w)" for i t
  proof -
    obtain v where "v \<in> set ws" "wTok v = t" "jID (wJob v) = i" using assms(1) i(1) unfolding maps_inv_def by blast
    with other [of v] i(2) show ?thesis by auto
  qed
  have "dom C \<subseteq> dom A" "\<forall>v \<in> set ?ws. wTok v < n" using assms(1) by (simp_all add: maps_inv_def)
  moreover have "distinct (map wTok ?ws)" using d by (rule distinct_map_filter)
  ultimately show ?thesis unfolding maps_inv_def using 1 2 by (simp add: subset_iff)
qed

lemma maps_inv_workers:
  assumes "maps_inv A C ws n" and "map wTok ws' = map wTok ws" and "map wJob ws' = map wJob ws"
  shows "maps_inv A C ws' n"
proof -
  have z: "map (\<lambda>w. (wTok w, wJob w)) ws' = map (\<lambda>w. (wTok w, wJob w)) ws"
  proof -
    have zip: "map (\<lambda>w. (wTok w, wJob w)) xs = zip (map wTok xs) (map wJob xs)" for xs
      by (induction xs) auto
    show ?thesis unfolding zip assms(2,3) ..
  qed
  have e: "(\<lambda>w. (wTok w, wJob w)) ` set ws' = (\<lambda>w. (wTok w, wJob w)) ` set ws"
    using z by (metis list.set_map)
  have same: "\<exists>v \<in> set ws'. wTok v = wTok w \<and> wJob v = wJob w" if "w \<in> set ws" for w
  proof -
    have "(wTok w, wJob w) \<in> (\<lambda>w. (wTok w, wJob w)) ` set ws'" unfolding e using that by (rule imageI)
    then show ?thesis by auto
  qed
  have "\<exists>v \<in> set ws'. jID (wJob v) = i" if "i \<in> dom A" for i
    using assms(1) that same unfolding maps_inv_def by metis
  moreover have "\<exists>v \<in> set ws'. wTok v = t \<and> jID (wJob v) = i" if "C i = Some t" for i t
    using assms(1) that same unfolding maps_inv_def by metis
  moreover have "wTok ` set ws' = wTok ` set ws" using assms(2) by (metis list.set_map)
  then have "\<forall>w \<in> set ws'. wTok w < n" using assms(1) unfolding maps_inv_def by (metis image_iff)
  ultimately show ?thesis using assms(1,2) unfolding maps_inv_def by simp
qed

lemma maps_inv_fewer: "maps_inv A C ws n \<Longrightarrow> C' \<subseteq>\<^sub>m C \<Longrightarrow> maps_inv A C' ws n"
proof -
  assume m: "maps_inv A C ws n" and le: "C' \<subseteq>\<^sub>m C"
  have "C i = Some t" if "C' i = Some t" for i t using le that by (metis domI map_le_def)
  moreover have "dom C' \<subseteq> dom C" using le by (rule map_le_implies_dom_le)
  ultimately show ?thesis using m unfolding maps_inv_def by (simp add: subset_trans)
qed

lemma maps_ok_same:
  assumes "maps_ok q" and "same_maps q q'"
  shows "maps_ok q'"
proof -
  have c: "qActiveJobs q' = qActiveJobs q" "qWorkers q' = qWorkers q" "qNextTok q' = qNextTok q"
    and rc: "set (qRunningCancels q') \<subseteq> set (qRunningCancels q)" "distinct (map fst (qRunningCancels q'))"
    using assms by (auto simp: same_maps_def core_def maps_ok_def)
  have "map_of (qRunningCancels q') \<subseteq>\<^sub>m map_of (qRunningCancels q)"
  proof (unfold map_le_def, intro ballI)
    fix i assume "i \<in> dom (map_of (qRunningCancels q'))"
    then obtain t where t: "map_of (qRunningCancels q') i = Some t" by blast
    then have "(i, t) \<in> set (qRunningCancels q)" using rc(1) map_of_SomeD by fast
    then show "map_of (qRunningCancels q') i = map_of (qRunningCancels q) i"
      using assms(1) t by (simp add: maps_ok_def)
  qed
  then show ?thesis using assms(1) rc(2) maps_inv_fewer unfolding maps_ok_def c by blast
qed

lemma find_worker_Some: "find_worker t q = Some w \<Longrightarrow> w \<in> set (qWorkers q) \<and> wTok w = t"
  unfolding find_worker_def by (auto simp: find_Some_iff)

lemma AList_distinct: "distinct (map fst al) \<Longrightarrow> distinct (map fst (AList.update k v al))"
  "distinct (map fst al) \<Longrightarrow> distinct (map fst (AList.delete k al))"
  by (simp_all add: distinct_update AList.delete_eq distinct_map_filter)

lemma dispatch_spawn_maps: "maps_ok q \<Longrightarrow> maps_ok (dispatch_spawn j q)"
  using maps_inv_spawn [of "map_of (qActiveJobs q)" "map_of (qRunningCancels q)" "qWorkers q" "qNextTok q" j False]
  by (simp add: maps_ok_def dispatch_spawn_def Let_def AList_distinct update_conv')

lemma worker_report_maps: "maps_ok q \<Longrightarrow> maps_ok (worker_report now w r q)"
  by (simp add: maps_ok_def worker_report_def)
     (rule maps_inv_workers [of _ _ "qWorkers q"]; simp)

lemma worker_cleanup_maps: "maps_ok q \<Longrightarrow> w \<in> set (qWorkers q) \<Longrightarrow> maps_ok (worker_cleanup w q)"
  using maps_inv_cleanup [of "map_of (qActiveJobs q)" "map_of (qRunningCancels q)" "qWorkers q" "qNextTok q" w]
  by (simp add: maps_ok_def worker_cleanup_def notify_def AList_distinct delete_conv')

subsection \<open>Every event keeps the invariant\<close>

lemma enqueueable_new [simp]:
  "enqueueable (new_job\<lparr>jMethod := a, jSource := b, jDestDir := c, jFlags := f, jPriority := p, jMaxRetries := m\<rparr>)"
  by (simp add: enqueueable_def new_job_def)

lemma record_outcome_inv: "db_inv d \<Longrightarrow> db_inv (record_outcome now b r i d)"
  by (simp add: record_outcome_def FinishJob_inv QuarantineJob_inv FailAndRetryJob_inv split: option.split)

lemma api_step_db:
  assumes "api_event ev" and "db_inv (qStore q)" and "q_step ev q = Some q'"
  shows "db_inv (qStore q')"
proof (cases ev)
  case (EvEnqueue now req)
  then show ?thesis using assms(3) Enqueue_store [of now req q] EnqueueJob_inv [OF assms(2)] assms(2) by auto
next
  case (EvBatch now req)
  obtain fs where "qStore (snd (BatchJobs now req q)) = snd (BatchAction now req ((qStore q)\<lparr>faults := fs\<rparr>))"
    by (rule BatchJobs_store)
  then show ?thesis using assms(2,3) EvBatch BatchAction_inv [of "(qStore q)\<lparr>faults := fs\<rparr>"] by auto
next
  case EvStop
  then show ?thesis using assms(2,3) Stop_effect [of q] by (auto simp: quiet_change_def)
qed (use assms in \<open>auto simp: API_store Settings_inv CancelJob_inv PauseJob_inv ResumeJob_inv RetryJob_inv
       QuarantineJob_inv UnquarantineJob_inv DeleteJob_inv\<close>)

lemma api_step_misc:
  assumes "api_event ev" and "q_step ev q = Some q'"
  shows "qHub q' = qHub q"
  using api_step_maps [OF assms] by (simp add: same_maps_def)

lemma onLog_effect:
  assumes "hub_inv (qHub q)" and "db_inv (qStore q)"
  obtains h where "onLog now j s l q = Some (q\<lparr>qHub := h, qStore := snd (AppendLog now (jID j) s l (qStore q))\<rparr>)"
    "hub_inv h" "db_inv (snd (AppendLog now (jID j) s l (qStore q)))"
proof -
  obtain cs where "Broadcast now (jID j) s l (qHub q) = Some (log_entry now (jID j) s l, cs)"
    by (rule Broadcast_cases [OF assms(1), of now "jID j" s l])
  with Broadcast_inv [OF assms(1) this] AppendLog_inv [OF assms(2)] show ?thesis
    by (intro that [of cs]) (simp_all add: onLog_def)
qed

lemma maps_ok_core: "core q' = core q \<Longrightarrow> qRunningCancels q' = qRunningCancels q \<Longrightarrow> maps_ok q' = maps_ok q"
  by (simp add: core_def maps_ok_def)

text \<open>No event of the system panics, and each keeps the invariant.\<close>

lemma q_step_inv:
  assumes "q_inv q" and "q_pre ev q"
  shows "\<exists>q'. q_step ev q = Some q' \<and> q_inv q'"
proof -
  have m: "maps_ok q" and d: "db_inv (qStore q)" and h: "hub_inv (qHub q)"
    using assms(1) by (simp_all add: q_inv_def)
  have frame: "maps_ok (q\<lparr>qDispatcher := x\<rparr>)" "maps_ok (q\<lparr>qNotify := b\<rparr>)" "maps_ok (q\<lparr>qStore := e, qDispatcher := x\<rparr>)"
    "maps_ok (q\<lparr>qHub := g\<rparr>)" "maps_ok (q\<lparr>qHub := g, qStore := e\<rparr>)" for x b e g
    using m by (simp_all add: maps_ok_def)
  show ?thesis
  proof (cases ev)
    case EvCheck
    then show ?thesis using m d h by (auto simp: dispatch_check_def q_inv_def frame)
  next
    case (EvClaim now)
    obtain r e where c: "ClaimNextJob now (qStore q) = (r, e)" by (cases "ClaimNextJob now (qStore q)")
    with ClaimNextJob_inv [OF d, of now] have "db_inv e" by simp
    then show ?thesis using h EvClaim by (auto simp: dispatch_claim_def c q_inv_def frame split: sum.split)
  next
    case EvSpawn
    then obtain j where "qDispatcher q = DSpawn j" using assms(2) by (auto split: dispatcher.splits)
    then show ?thesis using EvSpawn dispatch_spawn_maps [OF m] d h
      by (simp add: q_inv_def) (simp add: dispatch_spawn_def Let_def)
  next
    case (EvLog tok now s l)
    then obtain w where w: "find_worker tok q = Some w" using assms(2) by (auto split: option.splits)
    from onLog_effect [OF h d, of now "wJob w" s l] obtain g where
      "onLog now (wJob w) s l q = Some (q\<lparr>qHub := g, qStore := snd (AppendLog now (jID (wJob w)) s l (qStore q))\<rparr>)"
      "hub_inv g" "db_inv (snd (AppendLog now (jID (wJob w)) s l (qStore q)))" by blast
    then show ?thesis using EvLog w by (simp add: q_inv_def frame)
  next
    case (EvReport tok now r)
    then obtain w where w: "find_worker tok q = Some w" using assms(2) by (auto split: option.splits)
    then show ?thesis using EvReport worker_report_maps [OF m] h record_outcome_inv [OF d]
      by (simp add: q_inv_def) (simp add: worker_report_def)
  next
    case (EvCleanup tok)
    then obtain w where w: "find_worker tok q = Some w" using assms(2) by (auto split: option.splits)
    then have "w \<in> set (qWorkers q)" using find_worker_Some by blast
    then show ?thesis using EvCleanup w worker_cleanup_maps [OF m] d h
      by (simp add: q_inv_def) (simp add: worker_cleanup_def notify_def)
  next
    case (EvHub op)
    then obtain g where "hub_step op (qHub q) = Some g" "hub_inv g"
      using assms(2) hub_step_inv [OF h] by auto
    then show ?thesis using EvHub d by (simp add: q_inv_def frame)
  qed (use api_step_db [of ev q] api_step_misc [of ev q] api_step_maps [of ev q] maps_ok_same [OF m] d h
       in \<open>force simp: q_inv_def\<close>)+
qed

lemma q_run_inv: "q_run q evs q' \<Longrightarrow> q_inv q \<Longrightarrow> q_inv q'"
proof (induction rule: q_run.induct)
  case (snoc q evs q' ev q'')
  then show ?case using q_step_inv [of q' ev] by auto
qed

lemma GetQueueConfig_db: "\<exists>fs. snd (GetQueueConfig d) = d\<lparr>faults := fs\<rparr>"
  by (rule tick_cases [of d]) (auto simp: GetQueueConfig_def split: prod.split)

lemma Start_fields:
  "maps_ok (Start now q) = maps_ok q" "qHub (Start now q) = qHub q" "qDispatcher (Start now q) = DCheck"
  "qActiveJobs (Start now q) = qActiveJobs q" "qWorkers (Start now q) = qWorkers q"
  "qStopped (Start now q) = qStopped q" "qRunningCancels (Start now q) = qRunningCancels q"
  "qStore (Start now q) = snd (GetQueueConfig (snd (RecoverOrphanedJobs now (qStore q))))"
  by (simp_all add: Start_def Let_def maps_ok_def split: prod.split)

lemma NewQueue_maps: "maps_ok (NewQueue d hb cfg)"
  by (simp add: NewQueue_def maps_ok_def maps_inv_def)

definition fresh_hub :: "hub option \<Rightarrow> bool" where
  "fresh_hub hb = (case hb of None \<Rightarrow> True | Some h \<Rightarrow> hub_inv h)"

lemma Start_inv:
  assumes "db_inv d" and "fresh_hub hb"
  shows "q_inv (Start now (NewQueue d hb cfg))"
proof -
  have "db_inv (snd (RecoverOrphanedJobs now d))" by (rule RecoverOrphanedJobs_inv [OF assms(1)])
  then have "db_inv (qStore (Start now (NewQueue d hb cfg)))"
    using GetQueueConfig_db [of "snd (RecoverOrphanedJobs now d)"]
    by (auto simp: Start_fields NewQueue_def)
  moreover have "hub_inv (qHub (NewQueue d hb cfg))"
    using assms(2) NewLogHub_inv by (auto simp: NewQueue_def fresh_hub_def split: option.splits)
  ultimately show ?thesis by (simp add: q_inv_def Start_fields NewQueue_maps)
qed

subsection \<open>The bound on active jobs\<close>

fun conc_of :: "qev \<Rightarrow> int" where
  "conc_of (EvSetConcurrency n) = n"
| "conc_of _ = 0"

definition peak :: "int \<Rightarrow> qev list \<Rightarrow> int" where
  "peak c evs = fold (\<lambda>ev m. max m (conc_of ev)) evs c"

definition bound_ok :: "int \<Rightarrow> queue \<Rightarrow> bool" where
  "bound_ok n q \<longleftrightarrow> qConcurrency q \<le> n \<and> int (length (qActiveJobs q)) \<le> n
     \<and> (qDispatcher q = DClaim \<or> (\<exists>j. qDispatcher q = DSpawn j) \<longrightarrow> int (length (qActiveJobs q)) < n)"

lemma bound_ok_mono: "bound_ok n q \<Longrightarrow> n \<le> m \<Longrightarrow> bound_ok m q"
  unfolding bound_ok_def by auto

lemma batch_concurrency: "qConcurrency (snd (BatchJobs now req q)) = qConcurrency q"
proof -
  define q1 where "q1 = (if bAction req = BatchCancel \<or> bAction req = BatchQuarantine
               then batch_cancels req (qRunningCancels q) q else q)"
  have 1: "qConcurrency q1 = qConcurrency q" using batch_cancels_effect by (simp add: q1_def quiet_change_def)
  have "qConcurrency (snd (BatchJobs now req q)) = qConcurrency q1"
    unfolding BatchJobs_def Let_def q1_def [symmetric]
    by (auto simp: on_store_def split: prod.split sum.split)
  with 1 show ?thesis by simp
qed

lemma API_concurrency:
  "qConcurrency (snd (PauseQueue q)) = qConcurrency q" "qConcurrency (snd (ResumeQueue q)) = qConcurrency q"
  "qConcurrency (snd (SetConcurrency n q)) = (if n < 1 then qConcurrency q else n)"
  "qConcurrency (snd (CancelQueueJob now i q)) = qConcurrency q" "qConcurrency (snd (PauseQueueJob i q)) = qConcurrency q"
  "qConcurrency (snd (ResumeQueueJob i q)) = qConcurrency q" "qConcurrency (snd (RetryQueueJob i q)) = qConcurrency q"
  "qConcurrency (snd (QuarantineQueueJob now i reason q)) = qConcurrency q"
  "qConcurrency (snd (UnquarantineQueueJob i q)) = qConcurrency q" "qConcurrency (snd (Enqueue now req q)) = qConcurrency q"
  by (auto simp: PauseQueue_def ResumeQueue_def SetConcurrency_def CancelQueueJob_def PauseQueueJob_def
      ResumeQueueJob_def RetryQueueJob_def QuarantineQueueJob_def UnquarantineQueueJob_def Enqueue_def
      on_store_def split: prod.split sum.split option.split)

lemma api_step_concurrency:
  "api_event ev \<Longrightarrow> q_step ev q = Some q' \<Longrightarrow> qConcurrency q' \<le> max (qConcurrency q) (conc_of ev)"
  using Stop_effect [of q]
  by (cases ev) (auto simp: API_concurrency batch_concurrency quiet_change_def)

lemma length_update: "length (AList.update k v al) \<le> Suc (length al)"
  by (induction al) auto

lemma step_bound:
  assumes "bound_ok n q" and "q_pre ev q" and "q_step ev q = Some q'"
  shows "bound_ok (max n (conc_of ev)) q'"
proof (cases "api_event ev")
  case True
  have c: "core q' = core q" using api_step_maps [OF True assms(3)] by (simp add: same_maps_def)
  then have "qActiveJobs q' = qActiveJobs q" "qDispatcher q' = qDispatcher q" by (simp_all add: core_def)
  moreover have "qConcurrency q' \<le> max n (conc_of ev)"
    using api_step_concurrency [OF True assms(3)] assms(1) unfolding bound_ok_def by linarith
  moreover have "n \<le> max n (conc_of ev)" by simp
  ultimately show ?thesis using assms(1) unfolding bound_ok_def by auto
next
  case False
  have "bound_ok n q'"
  proof (cases ev)
    case EvSpawn
    then obtain j where j: "qDispatcher q = DSpawn j" using assms(2) by (auto split: dispatcher.splits)
    then show ?thesis using assms(1,3) EvSpawn length_update [of "jID j" j "qActiveJobs q"]
      by (auto simp: bound_ok_def dispatch_spawn_def Let_def)
  next
    case (EvLog tok now s l)
    then show ?thesis using assms(1,3)
      by (auto simp: bound_ok_def onLog_def split: option.splits prod.splits)
  next
    case (EvCleanup tok)
    then obtain w where "q' = worker_cleanup w q" using assms(3) by auto
    then have q': "qActiveJobs q' = AList.delete (jID (wJob w)) (qActiveJobs q)" "qConcurrency q' = qConcurrency q"
      "qDispatcher q' = qDispatcher q" by (simp_all add: worker_cleanup_def notify_def)
    have "int (length (qActiveJobs q')) \<le> int (length (qActiveJobs q))"
      unfolding q'(1) using length_delete_le [of "jID (wJob w)" "qActiveJobs q"] by simp
    then show ?thesis using assms(1) q'(2,3) unfolding bound_ok_def by auto
  qed (use assms False in \<open>auto simp: bound_ok_def dispatch_check_def dispatch_claim_def worker_report_def
          split: if_splits sum.splits prod.splits\<close>)
  then show ?thesis by (rule bound_ok_mono) simp
qed

lemma peak_snoc: "peak c (evs @ [ev]) = max (peak c evs) (conc_of ev)"
  by (simp add: peak_def)

lemma run_bound: "q_run q evs q' \<Longrightarrow> bound_ok c q \<Longrightarrow> bound_ok (peak c evs) q'"
proof (induction rule: q_run.induct)
  case (snoc q evs q' ev q'')
  then show ?case using step_bound by (simp add: peak_snoc)
qed (simp add: peak_def)

subsection \<open>Dispatch stops when paused or stopped\<close>

text \<open>Jobs the dispatcher may still start once it may not pass its check again.\<close>

fun in_flight :: "dispatcher \<Rightarrow> nat" where
  "in_flight DClaim = 1"
| "in_flight (DSpawn j) = 1"
| "in_flight _ = 0"

fun spawns :: "qev list \<Rightarrow> nat" where
  "spawns [] = 0"
| "spawns (EvSpawn # evs) = Suc (spawns evs)"
| "spawns (_ # evs) = spawns evs"

lemma spawns_snoc: "spawns (evs @ [ev]) = spawns evs + spawns [ev]"
  by (induction evs rule: spawns.induct) auto

definition halted :: "queue \<Rightarrow> bool" where
  "halted q \<longleftrightarrow> qPaused q \<or> qStopped q"

lemma batch_cancels_flags:
  "qPaused (batch_cancels req rc q) = qPaused q \<and> qStopped (batch_cancels req rc q) = qStopped q"
proof (induction req rc q rule: batch_cancels.induct)
  case (2 req i tok rest q)
  obtain b q1 where b: "should_cancel req i q = (b, q1)" by (cases "should_cancel req i q")
  then have "qPaused q1 = qPaused q \<and> qStopped q1 = qStopped q"
    by (auto simp: should_cancel_def on_store_def split: if_split_asm sum.split_asm prod.split_asm)
  with 2 [OF b [symmetric]] show ?case by (auto simp: b cancel_ctx_def)
qed simp

lemma API_flags:
  "halted (snd (PauseQueue q))" "halted (snd (SetConcurrency n q)) = halted q"
  "halted (snd (CancelQueueJob now i q)) = halted q" "halted (snd (PauseQueueJob i q)) = halted q"
  "halted (snd (ResumeQueueJob i q)) = halted q" "halted (snd (RetryQueueJob i q)) = halted q"
  "halted (snd (QuarantineQueueJob now i reason q)) = halted q"
  "halted (snd (UnquarantineQueueJob i q)) = halted q" "halted (snd (Enqueue now req q)) = halted q"
  "halted (snd (BatchJobs now breq q)) = halted q" "halted (Stop q)"
  by (auto simp: halted_def PauseQueue_def SetConcurrency_def CancelQueueJob_def PauseQueueJob_def
      ResumeQueueJob_def RetryQueueJob_def QuarantineQueueJob_def UnquarantineQueueJob_def Enqueue_def
      BatchJobs_def Let_def Stop_def on_store_def notify_def cancel_ctx_def batch_cancels_flags
      split: prod.split sum.split option.split)

lemma step_halted:
  assumes "halted q" and "q_pre ev q" and "q_step ev q = Some q'" and "ev \<noteq> EvResume"
  shows "halted q' \<and> spawns [ev] + in_flight (qDispatcher q') \<le> in_flight (qDispatcher q)"
proof (cases "api_event ev")
  case True
  have "core q' = core q" using api_step_maps [OF True assms(3)] by (simp add: same_maps_def)
  then have "qDispatcher q' = qDispatcher q" by (simp add: core_def)
  moreover have "halted q'" using assms True by (cases ev) (auto simp: API_flags, simp_all add: halted_def)
  moreover have "spawns [ev] = 0" using True by (cases ev) auto
  ultimately show ?thesis by simp
next
  case False
  then show ?thesis using assms
    by (cases ev) (auto simp: halted_def dispatch_check_def dispatch_claim_def dispatch_spawn_def Let_def
        worker_report_def worker_cleanup_def notify_def onLog_def
        split: sum.splits prod.splits option.splits dispatcher.splits)
qed

lemma run_halted:
  "q_run q evs q' \<Longrightarrow> halted q \<Longrightarrow> EvResume \<notin> set evs
   \<Longrightarrow> halted q' \<and> spawns evs + in_flight (qDispatcher q') \<le> in_flight (qDispatcher q)"
proof (induction rule: q_run.induct)
  case (snoc q evs q' ev q'')
  then show ?case using step_halted [of q' ev q''] by (auto simp: spawns_snoc)
qed simp

lemma in_flight_le: "in_flight x \<le> 1"
  by (cases x) auto

end
