(* ===== verification/QueueExec.thy ===== *)
theory QueueExec
  imports QueueInv
begin

text \<open>
  What the queue does to the store: every event is at most one operation of the store, so runs of
  the queue refine the board; jobs are executed by one worker at a time; and no running job is
  forgotten.
\<close>

subsection \<open>Events as store operations\<close>

definition outcome_op :: "time \<Rightarrow> bool \<Rightarrow> string option \<Rightarrow> int \<Rightarrow> store_op" where
  "outcome_op now ctx_cancelled runErr i =
    (if ctx_cancelled then OpFinish now i StateCancelled ''cancelled by user''
     else (case runErr of
         None \<Rightarrow> OpFinish now i StateCompleted []
       | Some msg \<Rightarrow>
          (case isImmediateQuarantineError msg of
             Some reason \<Rightarrow> OpQuarantine now i (reason @ '': '' @ msg)
           | None \<Rightarrow> OpFail now i msg)))"

lemma record_outcome_exec: "record_outcome now b r i d = exec_op (outcome_op now b r i) d"
  by (simp add: record_outcome_def outcome_op_def split: option.split)

fun q_store_op :: "qev \<Rightarrow> queue \<Rightarrow> store_op option" where
  "q_store_op (EvClaim now) q = Some (OpClaim now)"
| "q_store_op (EvLog tok now s l) q = map_option (\<lambda>w. OpLog now (jID (wJob w)) s l) (find_worker tok q)"
| "q_store_op (EvReport tok now r) q =
     map_option (\<lambda>w. outcome_op now (wTok w \<in> set (qCancelled q)) r (jID (wJob w))) (find_worker tok q)"
| "q_store_op (EvEnqueue now req) q = (case Validate req of Inl e \<Rightarrow> None
     | Inr u \<Rightarrow> Some (OpEnqueue now (new_job\<lparr>jMethod := sMethod req, jSource := sSource req,
         jDestDir := sDestDir req, jFlags := sFlags req, jPriority := sPriority req, jMaxRetries := qMaxRetries q\<rparr>)))"
| "q_store_op EvPause q = Some (OpSetPaused True)"
| "q_store_op EvResume q = Some (OpSetPaused False)"
| "q_store_op (EvSetConcurrency n) q = (if n < 1 then None else Some (OpSetConcurrency n))"
| "q_store_op (EvCancel now i) q = (if map_of (qRunningCancels q) i = None then Some (OpCancel now i) else None)"
| "q_store_op (EvPauseJob i) q = Some (OpPause i)"
| "q_store_op (EvResumeJob i) q = Some (OpResume i)"
| "q_store_op (EvRetry i) q = Some (OpRetry i)"
| "q_store_op (EvQuarantine now i reason) q = Some (OpQuarantine now i reason)"
| "q_store_op (EvUnquarantine i) q = Some (OpUnquarantine i)"
| "q_store_op (EvBatch now req) q = Some (OpBatch now req)"
| "q_store_op (EvDelete i) q = Some (OpDelete i)"
| "q_store_op _ q = None"

lemma q_store_op_allowed: "q_store_op ev q = Some op \<Longrightarrow> allowed op"
  by (cases ev) (auto simp: outcome_op_def split: sum.splits if_splits option.splits)

lemma set_self_faults: "\<exists>fs. (faults d = [] \<longrightarrow> fs = []) \<and> d = d\<lparr>faults := fs\<rparr>"
  by (rule exI [of _ "faults d"]) simp

text \<open>The store after an event is the one its operation leaves; a batch first spends some driver
  calls on reading.\<close>

lemma q_step_store:
  assumes "q_pre ev q" and "q_step ev q = Some q'"
  shows "\<exists>fs. (faults (qStore q) = [] \<longrightarrow> fs = []) \<and> qStore q' = (case q_store_op ev q of None \<Rightarrow> (qStore q)\<lparr>faults := fs\<rparr>
     | Some op \<Rightarrow> exec_op op ((qStore q)\<lparr>faults := fs\<rparr>))"
proof (cases ev)
  case (EvBatch now req)
  obtain fs where "faults (qStore q) = [] \<longrightarrow> fs = []"
    "qStore (snd (BatchJobs now req q)) = snd (BatchAction now req ((qStore q)\<lparr>faults := fs\<rparr>))"
    by (rule BatchJobs_store)
  then show ?thesis using assms(2) EvBatch by auto
next
  case EvStop
  then show ?thesis using assms(2) Stop_effect [of q] by (auto simp: quiet_change_def)
next
  case (EvEnqueue now req)
  have "qStore q' = (case q_store_op ev q of None \<Rightarrow> qStore q | Some op \<Rightarrow> exec_op op (qStore q))"
    using assms(2) EvEnqueue by (auto simp: Enqueue_def on_store_def split: sum.split prod.split)
  then show ?thesis by (intro exI [of _ "faults (qStore q)"]) (simp split: option.split)
next
  case EvCheck
  then have "qStore q' = qStore q" using assms(2) by (auto simp: dispatch_check_def)
  then show ?thesis using EvCheck set_self_faults by simp
next
  case (EvClaim now)
  then have "qStore q' = exec_op (OpClaim now) (qStore q)"
    using assms(2) by (auto simp: dispatch_claim_def split: sum.split prod.split)
  then show ?thesis using EvClaim by (intro exI [of _ "faults (qStore q)"]) simp
next
  case EvSpawn
  then have "qStore q' = qStore q"
    using assms(2) by (auto simp: dispatch_spawn_def Let_def split: dispatcher.splits)
  then show ?thesis using EvSpawn set_self_faults by simp
next
  case (EvLog tok now s l)
  then obtain w where w: "find_worker tok q = Some w" using assms(1) by (auto split: option.splits)
  then have "qStore q' = exec_op (OpLog now (jID (wJob w)) s l) (qStore q)"
    using assms(2) EvLog by (auto simp: onLog_def split: option.splits prod.splits)
  then show ?thesis using EvLog w by (intro exI [of _ "faults (qStore q)"]) simp
next
  case (EvReport tok now r)
  then obtain w where w: "find_worker tok q = Some w" using assms(1) by (auto split: option.splits)
  then have "qStore q' = exec_op (outcome_op now (wTok w \<in> set (qCancelled q)) r (jID (wJob w))) (qStore q)"
    using assms(2) EvReport by (auto simp: worker_report_def record_outcome_exec)
  then show ?thesis using EvReport w by (intro exI [of _ "faults (qStore q)"]) simp
next
  case (EvCleanup tok)
  then have "qStore q' = qStore q" using assms(2) by (auto simp: worker_cleanup_def notify_def)
  then show ?thesis using EvCleanup set_self_faults by simp
next
  case (EvHub op)
  then have "qStore q' = qStore q" using assms(2) by auto
  then show ?thesis using EvHub set_self_faults by simp
next
  case (EvRead n)
  then show ?thesis using assms(2) by (intro exI [of _ "drop n (faults (qStore q))"]) auto
next
  case (EvSetConcurrency n)
  then have "qStore q' = (if n < 1 then qStore q else exec_op (OpSetConcurrency n) (qStore q))"
    using assms(2) by (auto simp: API_store)
  then show ?thesis using EvSetConcurrency by (intro exI [of _ "faults (qStore q)"]) simp
next
  case (EvCancel now i)
  then have "qStore q' = (if map_of (qRunningCancels q) i = None then exec_op (OpCancel now i) (qStore q) else qStore q)"
    using assms(2) by (auto simp: API_store)
  then show ?thesis using EvCancel by (intro exI [of _ "faults (qStore q)"]) simp
qed (use assms(2) in \<open>intro exI [of _ "faults (qStore q)"], force simp: API_store\<close>)+

text \<open>So the daemon refines the board.\<close>

lemma q_step_spec:
  assumes "q_inv q" and "q_pre ev q" and "q_step ev q = Some q'"
  shows "case q_store_op ev q of None \<Rightarrow> board_of (qStore q') = board_of (qStore q)
     | Some op \<Rightarrow> spec op (board_of (qStore q)) (board_of (qStore q'))"
proof -
  obtain fs where fs: "qStore q' = (case q_store_op ev q of None \<Rightarrow> (qStore q)\<lparr>faults := fs\<rparr>
     | Some op \<Rightarrow> exec_op op ((qStore q)\<lparr>faults := fs\<rparr>))" using q_step_store [OF assms(2,3)] by blast
  have inv: "db_inv ((qStore q)\<lparr>faults := fs\<rparr>)" using assms(1) by (simp add: q_inv_def)
  show ?thesis
  proof (cases "q_store_op ev q")
    case (Some op)
    then show ?thesis using store.follows [OF inv q_store_op_allowed [OF Some]] fs by simp
  qed (simp add: fs)
qed

subsection \<open>Ids\<close>

lemma seq_exec_update [simp]: "jobs_seq (snd (exec_update P f d)) = jobs_seq d"
  by (rule exec_update_cases [of P f d]) simp_all

lemma seq_exec_delete [simp]: "jobs_seq (snd (exec_delete P d)) = jobs_seq d"
  by (rule exec_delete_cases [of P d]) simp_all

lemma atomic_seq:
  assumes "atomic op" and "jobs_seq (snd (op (quiet d))) = jobs_seq d"
  shows "jobs_seq (snd (op d)) = jobs_seq d"
  by (rule atomicE [OF assms(1), of d]) (use assms(2) in auto)

lemma RetryJob_seq: "jobs_seq (snd (RetryJob i d)) = jobs_seq d"
proof -
  let ?f = "\<lambda>r. r\<lparr>rState := StateQueued, rLastError := Some [], rQuarantineReason := Some [],
                   rRetryCount := 0, rStartedAt := None, rFinishedAt := None\<rparr>"
  obtain x d1 where x: "exec_update (on_id i) ?f d = (x, d1)" by (cases "exec_update (on_id i) ?f d")
  then have "jobs_seq d1 = jobs_seq d" using seq_exec_update [of "on_id i" ?f d] by simp
  moreover obtain fs where "snd (GetJob i d1) = d1\<lparr>faults := fs\<rparr>" using GetJob_db by blast
  ultimately show ?thesis by (auto simp: RetryJob_def x split: sum.split)
qed

lemma RecoverOrphanedJobs_seq: "jobs_seq (snd (RecoverOrphanedJobs now d)) = jobs_seq d"
proof -
  have s: "jobs_seq d1 = jobs_seq d0" if "exec_update P f d0 = (x, d1)" for P f d0 x d1
    using seq_exec_update [of P f d0] that by simp
  show ?thesis unfolding RecoverOrphanedJobs_def
    by (auto split: prod.split sum.split dest!: s)
qed

lemma BatchAction_seq: "jobs_seq (snd (BatchAction now req d)) = jobs_seq d"
proof -
  obtain x d1 where t: "batch_targets req d = (x, d1)" by (cases "batch_targets req d")
  with batch_targets_db [of req d] have d1: "jobs_seq d1 = jobs_seq d" by auto
  have "jobs_seq (snd (stmt d1)) = jobs_seq d1" if "batch_exec now req ids = Some stmt" for ids stmt
    by (rule batch_exec_elim [OF that]) simp_all
  then show ?thesis using d1 by (auto simp: BatchAction_snd t split: sum.split option.split)
qed

lemma backfill_seq: "jobs_seq (backfill_items its d) = jobs_seq d"
  by (induction its d rule: backfill_items.induct) simp_all

lemma OpenStore_backfill_seq: "jobs_seq (OpenStore_backfill d) = jobs_seq d"
  unfolding OpenStore_backfill_def by (rule tick_cases [of d]) (auto simp: backfill_seq)

lemma ClaimNextJob_seq: "jobs_seq (snd (ClaimNextJob now d)) = jobs_seq d"
  by (rule atomic_seq [OF ClaimNextJob_atomic]) (simp add: ClaimNextJob_quiet split: option.split)

lemma FailAndRetryJob_seq: "jobs_seq (snd (FailAndRetryJob now i msg d)) = jobs_seq d"
  by (rule atomic_seq [OF FailAndRetryJob_atomic]) (simp add: FailAndRetryJob_quiet split: option.split)

lemma logs_settings_seq:
  "jobs_seq (snd (AppendLog now i s m d)) = jobs_seq d" "jobs_seq (snd (SetQueuePaused b d)) = jobs_seq d"
  "jobs_seq (snd (SetQueueConcurrency n d)) = jobs_seq d"
  by (rule atomic_seq, simp, simp add: AppendLog_quiet SetQueuePaused_def SetQueueConcurrency_def)+

lemma EnqueueJob_outcome:
  obtains fs where "snd (EnqueueJob now j d) = d\<lparr>faults := fs\<rparr>"
    | fs where "snd (EnqueueJob now j d) = d\<lparr>jobs := jobs d @ [insert_row (enqueue_defaults now j) (jobs_seq d + 1)],
        jobs_seq := jobs_seq d + 1, faults := fs\<rparr>"
proof (rule tick_cases [of d])
  fix e fs assume "tick d = (Some e, d\<lparr>faults := fs\<rparr>)"
  then show thesis using that(1) by (simp add: EnqueueJob_def Let_def driver_def)
next
  fix fs assume t: "tick d = (None, d\<lparr>faults := fs\<rparr>)"
  let ?d = "d\<lparr>jobs := jobs d @ [insert_row (enqueue_defaults now j) (jobs_seq d + 1)], jobs_seq := jobs_seq d + 1, faults := fs\<rparr>"
  show thesis
    by (rule tick_cases [of ?d]; rule that(2)) (auto simp: EnqueueJob_def Let_def driver_def t)
qed

lemma EnqueueJob_seq: "jobs_seq d \<le> jobs_seq (snd (EnqueueJob now j d))"
  by (rule EnqueueJob_outcome [of now j d]) simp_all

lemma exec_op_seq: "jobs_seq d \<le> jobs_seq (exec_op op d)"
  by (cases op) (simp_all add: EnqueueJob_seq ClaimNextJob_seq FailAndRetryJob_seq logs_settings_seq RetryJob_seq BatchAction_seq
      RecoverOrphanedJobs_seq OpenStore_backfill_seq store_ops)

text \<open>Submitting does not touch the ids already given.\<close>

lemma EnqueueJob_old:
  assumes "i \<le> jobs_seq d"
  shows "board_of (snd (EnqueueJob now j d)) i = board_of d i"
  by (rule EnqueueJob_outcome [of now j d])
     (use assms in \<open>simp_all add: board_of_def find_row_def find_snoc insert_row_def split: option.split\<close>)

text \<open>An id that is gone stays gone.\<close>

lemma exec_op_gone:
  assumes "db_inv d" and "allowed op" and "i \<le> jobs_seq d" and "board_of d i = None"
  shows "board_of (exec_op op d) i = None"
proof (cases "\<exists>now j. op = OpEnqueue now j")
  case True
  then show ?thesis using EnqueueJob_old [OF assms(3)] assms(4) by auto
next
  case False
  from exec_op_spec [OF assms(1,2)] show ?thesis
    by (cases rule: spec.cases) (use False assms(4) in \<open>auto simp: change_def split: if_splits\<close>)
qed

subsection \<open>One worker per job\<close>

definition executing :: "queue \<Rightarrow> worker list" where
  "executing q = filter (\<lambda>w. \<not> wDone w) (qWorkers q)"

text \<open>The jobs being executed, and the one the dispatcher holds.\<close>

definition held_ids :: "queue \<Rightarrow> int list" where
  "held_ids q = map (\<lambda>w. jID (wJob w)) (executing q) @ (case qDispatcher q of DSpawn j \<Rightarrow> [jID j] | _ \<Rightarrow> [])"

definition held :: "card option \<Rightarrow> bool" where
  "held c = (case c of None \<Rightarrow> True | Some (s, _, _) \<Rightarrow> s = StateRunning \<or> s = StateCancelled)"

definition exclusive :: "queue \<Rightarrow> bool" where
  "exclusive q \<longleftrightarrow> distinct (held_ids q)
     \<and> (\<forall>i \<in> set (held_ids q). i \<le> jobs_seq (qStore q) \<and> held (board_of (qStore q) i))"

text \<open>The events that take a job away from its worker: the API's retry, quarantine and batches.\<close>

fun gentle :: "qev \<Rightarrow> bool" where
  "gentle (EvRetry i) = False"
| "gentle (EvQuarantine now i reason) = False"
| "gentle (EvBatch now req) = False"
| "gentle _ = True"

text \<open>Operations that keep a held job held.\<close>

fun hold_op :: "int \<Rightarrow> store_op \<Rightarrow> bool" where
  "hold_op i (OpEnqueue now j) = False"
| "hold_op i (OpFinish now j st msg) = (i \<noteq> j)"
| "hold_op i (OpFail now j msg) = (i \<noteq> j)"
| "hold_op i (OpQuarantine now j reason) = (i \<noteq> j)"
| "hold_op i (OpRetry j) = False"
| "hold_op i (OpBatch now req) = False"
| "hold_op i (OpRecover now) = False"
| "hold_op i _ = True"

lemma spec_held:
  assumes "spec op b b'" and "hold_op i op" and "held (b i)"
  shows "held (b' i)"
  using assms(1)
  by (cases rule: spec.cases) (use assms(2,3) in \<open>auto simp: held_def split: if_splits\<close>)

lemma outcome_hold: "i \<noteq> j \<Longrightarrow> hold_op i (outcome_op now b r j)"
  by (simp add: outcome_op_def split: option.split)

lemma step_seq:
  assumes "q_pre ev q" and "q_step ev q = Some q'"
  shows "jobs_seq (qStore q) \<le> jobs_seq (qStore q')"
proof -
  obtain fs where fs: "qStore q' = (case q_store_op ev q of None \<Rightarrow> (qStore q)\<lparr>faults := fs\<rparr>
     | Some op \<Rightarrow> exec_op op ((qStore q)\<lparr>faults := fs\<rparr>))" using q_step_store [OF assms] by blast
  show ?thesis using exec_op_seq [of "(qStore q)\<lparr>faults := fs\<rparr>"] by (auto simp: fs split: option.split)
qed

text \<open>A gentle event keeps the board entry of every held job held, unless it is the report of the
  worker on that job.\<close>

lemma step_held:
  assumes "q_inv q" and "q_pre ev q" and "q_step ev q = Some q'" and "gentle ev"
    and "i \<le> jobs_seq (qStore q)" and "held (board_of (qStore q) i)"
    and "\<And>tok now r w. ev = EvReport tok now r \<Longrightarrow> find_worker tok q = Some w \<Longrightarrow> jID (wJob w) \<noteq> i"
  shows "held (board_of (qStore q') i)"
proof (cases "\<exists>now j. q_store_op ev q = Some (OpEnqueue now j)")
  case True
  then obtain now j where e: "q_store_op ev q = Some (OpEnqueue now j)" by blast
  obtain fs where "qStore q' = snd (EnqueueJob now j ((qStore q)\<lparr>faults := fs\<rparr>))"
    using q_step_store [OF assms(2,3)] e by auto
  then have "board_of (qStore q') i = board_of (qStore q) i"
    using EnqueueJob_old [of i "(qStore q)\<lparr>faults := fs\<rparr>" now j] assms(5) by simp
  then show ?thesis using assms(6) by simp
next
  case False
  show ?thesis
  proof (cases "q_store_op ev q")
    case None
    then show ?thesis using q_step_spec [OF assms(1-3)] assms(6) by simp
  next
    case (Some op)
    then have "spec op (board_of (qStore q)) (board_of (qStore q'))" using q_step_spec [OF assms(1-3)] by simp
    moreover have "hold_op i op"
    proof (cases ev)
      case (EvReport tok now r)
      then obtain w where w: "find_worker tok q = Some w" using assms(2) by (auto split: option.splits)
      then show ?thesis using Some EvReport assms(7) outcome_hold [of i] by fastforce
    qed (use Some False assms(4) in \<open>auto split: if_splits sum.splits\<close>)
    ultimately show ?thesis using spec_held assms(6) by blast
  qed
qed

text \<open>What each kind of event does to the held jobs.\<close>

lemma held_core: "core q' = core q \<Longrightarrow> held_ids q' = held_ids q"
  by (simp add: core_def held_ids_def executing_def)

lemma report_held:
  assumes "maps_ok q" and "find_worker tok q = Some w" and "\<not> wDone w"
  shows "\<exists>xs ys. held_ids q = xs @ jID (wJob w) # ys \<and> held_ids (worker_report now w r q) = xs @ ys"
proof -
  have w: "w \<in> set (qWorkers q)" using find_worker_Some [OF assms(2)] by blast
  obtain us vs where uv: "qWorkers q = us @ w # vs" using split_list [OF w] by blast
  have d: "distinct (map wTok (us @ w # vs))" using assms(1) by (simp add: maps_ok_def maps_inv_def uv)
  have same: "filter (\<lambda>v. \<not> wDone v) (map_where (\<lambda>v. wTok v = wTok w) (\<lambda>v. v\<lparr>wDone := True\<rparr>) zs)
      = filter (\<lambda>v. \<not> wDone v) zs" if "wTok w \<notin> wTok ` set zs" for zs
    by (rule arg_cong [where f = "filter _"], rule map_where_id) (use that in \<open>metis image_eqI\<close>)
  have "executing q = filter (\<lambda>v. \<not> wDone v) us @ w # filter (\<lambda>v. \<not> wDone v) vs"
    using assms(3) by (simp add: executing_def uv)
  moreover have "executing (worker_report now w r q) = filter (\<lambda>v. \<not> wDone v) us @ filter (\<lambda>v. \<not> wDone v) vs"
    using d same [of us] same [of vs]
    by (simp add: executing_def worker_report_def uv) (simp add: map_where_def)
  ultimately show ?thesis
    by (intro exI [of _ "map (\<lambda>w. jID (wJob w)) (filter (\<lambda>v. \<not> wDone v) us)"]
        exI [of _ "map (\<lambda>w. jID (wJob w)) (filter (\<lambda>v. \<not> wDone v) vs) @ (case qDispatcher q of DSpawn j \<Rightarrow> [jID j] | _ \<Rightarrow> [])"])
       (simp add: held_ids_def, simp add: worker_report_def)
qed

lemma cleanup_held:
  assumes "maps_ok q" and "find_worker tok q = Some w" and "wDone w"
  shows "held_ids (worker_cleanup w q) = held_ids q"
proof -
  have w: "w \<in> set (qWorkers q)" using find_worker_Some [OF assms(2)] by blast
  have d: "distinct (map wTok (qWorkers q))" using assms(1) by (simp add: maps_ok_def maps_inv_def)
  have "wTok v \<noteq> wTok w" if "v \<in> set (qWorkers q)" "\<not> wDone v" for v
    using d that w assms(3) by (metis distinct_map inj_on_eq_iff)
  then have "filter (\<lambda>v. \<not> wDone v) (filter (\<lambda>v. wTok v \<noteq> wTok w) (qWorkers q)) = filter (\<lambda>v. \<not> wDone v) (qWorkers q)"
    unfolding filter_filter by (intro filter_cong) auto
  then show ?thesis by (simp add: held_ids_def executing_def worker_cleanup_def notify_def)
qed

lemma step_exclusive:
  assumes "q_inv q" and "q_pre ev q" and "q_step ev q = Some q'" and "gentle ev" and "exclusive q"
  shows "exclusive q'"
proof -
  have m: "maps_ok q" and d: "db_inv (qStore q)" using assms(1) by (simp_all add: q_inv_def)
  have ex: "distinct (held_ids q)"
    "\<And>i. i \<in> set (held_ids q) \<Longrightarrow> i \<le> jobs_seq (qStore q) \<and> held (board_of (qStore q) i)"
    using assms(5) by (auto simp: exclusive_def)
  have keep: "i \<le> jobs_seq (qStore q') \<and> held (board_of (qStore q') i)"
    if "i \<in> set (held_ids q)" "\<And>tok now r w. ev = EvReport tok now r \<Longrightarrow> find_worker tok q = Some w \<Longrightarrow> jID (wJob w) \<noteq> i" for i
    using ex(2) [OF that(1)] step_seq [OF assms(2,3)] step_held [OF assms(1-4) _ _ that(2)] by fastforce
  have easy: "exclusive q'" if "held_ids q' = held_ids q" "\<And>tok now r. ev \<noteq> EvReport tok now r"
    using ex(1) keep that by (auto simp: exclusive_def)
  have api: "exclusive q'" if "api_event ev"
  proof (rule easy)
    have "core q' = core q" using api_step_maps [OF that assms(3)] by (simp add: same_maps_def)
    then show "held_ids q' = held_ids q" by (rule held_core)
  qed (use that in auto)
  show ?thesis
  proof (cases ev)
    case EvCheck
    then show ?thesis using assms(2,3) by (intro easy) (auto simp: dispatch_check_def held_ids_def executing_def)
  next
    case (EvClaim now)
    obtain r e where c: "ClaimNextJob now (qStore q) = (r, e)" by (cases "ClaimNextJob now (qStore q)")
    have dc: "qDispatcher q = DClaim" using assms(2) EvClaim by simp
    show ?thesis
    proof (cases r)
      case (Inl er)
      then show ?thesis using assms(3) dc EvClaim
        by (intro easy) (auto simp: dispatch_claim_def c held_ids_def executing_def)
    next
      case (Inr j)
      have q': "q' = q\<lparr>qStore := e, qDispatcher := DSpawn j\<rparr>"
        using assms(3) EvClaim by (simp add: dispatch_claim_def c Inr)
      then have h: "held_ids q' = held_ids q @ [jID j]" by (simp add: held_ids_def executing_def dc)
      obtain k m where b: "board_of (qStore q) (jID j) = Some (StateQueued, k, m)" "board_of e (jID j) = Some (StateRunning, k, m)"
        using ClaimNextJob_board [OF d, of now j e] c Inr by auto
      have "\<not> held (board_of (qStore q) (jID j))" by (simp add: b(1) held_def)
      then have new: "jID j \<notin> set (held_ids q)" using ex(2) by blast
      have "jID j \<le> jobs_seq (qStore q)"
      proof -
        obtain row where "find_row (jID j) (qStore q) = Some row" using b(1) by (auto simp: board_of_def)
        then show ?thesis using find_row_Some d by (fastforce simp: db_inv_def jobs_ok_def)
      qed
      then have "jID j \<le> jobs_seq (qStore q') \<and> held (board_of (qStore q') (jID j))"
        using step_seq [OF assms(2,3)] b(2) by (auto simp: q' held_def)
      moreover have "i \<le> jobs_seq (qStore q') \<and> held (board_of (qStore q') i)" if "i \<in> set (held_ids q)" for i
        by (rule keep [OF that]) (simp add: EvClaim)
      ultimately show ?thesis using ex(1) new unfolding exclusive_def h by auto
    qed
  next
    case EvSpawn
    then obtain j where j: "qDispatcher q = DSpawn j" using assms(2) by (auto split: dispatcher.splits)
    show ?thesis using assms(3) EvSpawn j
      by (intro easy) (auto simp: dispatch_spawn_def Let_def held_ids_def executing_def)
  next
    case (EvLog tok now s l)
    show ?thesis using assms(3) EvLog
      by (intro easy) (auto simp: onLog_def held_ids_def executing_def split: option.splits prod.splits)
  next
    case (EvReport tok now r)
    then obtain w where w: "find_worker tok q = Some w" "\<not> wDone w" using assms(2) by (auto split: option.splits)
    then have q': "q' = worker_report now w r q" using assms(3) EvReport by simp
    obtain xs ys where h: "held_ids q = xs @ jID (wJob w) # ys" "held_ids q' = xs @ ys"
      using report_held [OF m w, of now r] unfolding q' by blast
    have "i \<le> jobs_seq (qStore q') \<and> held (board_of (qStore q') i)" if "i \<in> set (xs @ ys)" for i
    proof (rule keep)
      show "i \<in> set (held_ids q)" using that by (auto simp: h(1))
      show "jID (wJob v) \<noteq> i" if "ev = EvReport t n s" "find_worker t q = Some v" for t n s v
        using that w(1) \<open>i \<in> set (xs @ ys)\<close> ex(1) EvReport by (auto simp: h(1))
    qed
    then show ?thesis using ex(1) unfolding exclusive_def h by simp
  next
    case (EvCleanup tok)
    then obtain w where w: "find_worker tok q = Some w" "wDone w" using assms(2) by (auto split: option.splits)
    then show ?thesis using assms(3) EvCleanup cleanup_held [OF m w] by (intro easy) auto
  next
    case (EvHub op)
    then show ?thesis using assms(3) by (intro easy) (auto simp: held_ids_def executing_def)
  qed (use api in simp_all)
qed

lemma run_exclusive:
  "q_run q evs q' \<Longrightarrow> q_inv q \<Longrightarrow> exclusive q \<Longrightarrow> list_all gentle evs \<Longrightarrow> exclusive q'"
proof (induction rule: q_run.induct)
  case (snoc q evs q' ev q'')
  then show ?case using step_exclusive [of q' ev q''] q_run_inv by auto
qed

subsection \<open>No running job is forgotten\<close>

text \<open>Without driver failures every job the store shows as running is being executed or is in the
  hands of the dispatcher.\<close>

definition owned :: "queue \<Rightarrow> bool" where
  "owned q \<longleftrightarrow> faults (qStore q) = []
     \<and> (\<forall>i k m. board_of (qStore q) i = Some (StateRunning, k, m) \<longrightarrow> i \<in> set (held_ids q))"

lemma batch_targets_quiet: "faults d = [] \<Longrightarrow> snd (batch_targets req d) = d"
  by (simp add: batch_targets_def matchingJobIDs_def Let_def)

lemma exec_op_quiet:
  assumes "faults d = []"
  shows "faults (exec_op op d) = []"
proof (cases op)
  case (OpBatch now req)
  obtain x where t: "batch_targets req d = (x, d)"
    using batch_targets_quiet [OF assms, of req] by (cases "batch_targets req d") auto
  have "faults (snd (stmt d)) = []" if "batch_exec now req ids = Some stmt" for ids stmt
    by (rule batch_exec_elim [OF that]) (simp_all add: assms)
  then show ?thesis using assms by (auto simp: OpBatch BatchAction_snd t split: sum.split option.split)
next
  case OpBackfill
  have "faults (backfill_items its e) = []" if "faults e = []" for its e
    using that by (induction its e rule: backfill_items.induct) simp_all
  then show ?thesis using assms by (simp add: OpBackfill OpenStore_backfill_def)
next
  case (OpRecover now)
  then show ?thesis using assms by (simp add: RecoverOrphanedJobs_def)
next
  case (OpLog now i s m)
  then show ?thesis using assms by (simp add: AppendLog_quiet)
qed (use assms in \<open>simp_all add: store_ops EnqueueJob_def Let_def ClaimNextJob_quiet FailAndRetryJob_quiet
       RetryJob_quiet_snd SetQueuePaused_def SetQueueConcurrency_def split: option.split\<close>)

lemma step_quiet:
  assumes "q_pre ev q" and "q_step ev q = Some q'" and "faults (qStore q) = []"
  shows "faults (qStore q') = []"
  using q_step_store [OF assms(1,2)] assms(3) exec_op_quiet by (auto split: option.split)

lemma outcome_not_running:
  assumes "faults d = []"
  shows "board_of (record_outcome now b r i d) i \<noteq> Some (StateRunning, k, m)"
proof -
  have upd: "board_of (snd (exec_update (on_id i) f d)) i \<noteq> Some (StateRunning, k, m)"
    if "\<And>r. rID (f r) = rID r" "\<And>r. rState (f r) \<noteq> StateRunning" for f
  proof (cases "find_row i d")
    case (Some q)
    then show ?thesis using that assms find_row_Some [OF Some]
      by (auto simp: board_of_def find_row_update on_id_def card_of_def)
  qed (simp add: assms board_of_def find_row_update that(1))
  have fail: "board_of (snd (FailAndRetryJob now i msg d)) i \<noteq> Some (StateRunning, k, m)" for msg
  proof (cases "board_of d i")
    case None
    then show ?thesis by (simp add: FailAndRetryJob_quiet [OF assms] board_of_def)
  next
    case (Some c)
    obtain s k' m' where "c = (s, k', m')" by (cases c)
    then show ?thesis using FailAndRetryJob_board(2) [OF assms, of i s k' m' now msg] Some by simp
  qed
  show ?thesis unfolding record_outcome_def
    using fail by (simp add: store_ops upd split: option.split)
qed

lemma step_owned:
  assumes "q_inv q" and "q_pre ev q" and "q_step ev q = Some q'" and "owned q"
  shows "owned q'"
proof -
  have m: "maps_ok q" and d: "db_inv (qStore q)" and f: "faults (qStore q) = []"
    and own: "\<And>i k m. board_of (qStore q) i = Some (StateRunning, k, m) \<Longrightarrow> i \<in> set (held_ids q)"
    using assms(1,4) by (auto simp: q_inv_def owned_def)
  have f': "faults (qStore q') = []" by (rule step_quiet [OF assms(2,3) f])
  have before: "board_of (qStore q) i = Some (StateRunning, k, n)"
    if "board_of (qStore q') i = Some (StateRunning, k, n)" "\<And>now. ev \<noteq> EvClaim now" for i k n
  proof (cases "q_store_op ev q")
    case None
    then show ?thesis using q_step_spec [OF assms(1-3)] that(1) by simp
  next
    case (Some op)
    then have "spec op (board_of (qStore q)) (board_of (qStore q'))" using q_step_spec [OF assms(1-3)] by simp
    from spec_running [OF this q_store_op_allowed [OF Some] that(1)] show ?thesis
      using Some that(2) by (cases ev) (auto simp: outcome_op_def split: if_splits option.splits sum.splits)
  qed
  have easy: "owned q'" if "held_ids q' = held_ids q" "\<And>now. ev \<noteq> EvClaim now"
    unfolding owned_def that(1) using f' own before [OF _ that(2)] by blast
  have api: "owned q'" if "api_event ev"
  proof (rule easy)
    have "core q' = core q" using api_step_maps [OF that assms(3)] by (simp add: same_maps_def)
    then show "held_ids q' = held_ids q" by (rule held_core)
  qed (use that in auto)
  show ?thesis
  proof (cases ev)
    case EvCheck
    then show ?thesis using assms(2,3) by (intro easy) (auto simp: dispatch_check_def held_ids_def executing_def)
  next
    case (EvClaim now)
    obtain r e where c: "ClaimNextJob now (qStore q) = (r, e)" by (cases "ClaimNextJob now (qStore q)")
    have dc: "qDispatcher q = DClaim" using assms(2) EvClaim by simp
    show ?thesis
    proof (cases r)
      case (Inl er)
      have q': "q' = q\<lparr>qStore := e, qDispatcher := DCheck\<rparr>"
        using assms(3) EvClaim by (simp add: dispatch_claim_def c Inl)
      have "e = qStore q" using c Inl f by (auto simp: ClaimNextJob_quiet split: option.splits)
      then show ?thesis using f own by (auto simp: owned_def q' held_ids_def executing_def dc)
    next
      case (Inr j)
      have q': "q' = q\<lparr>qStore := e, qDispatcher := DSpawn j\<rparr>"
        using assms(3) EvClaim by (simp add: dispatch_claim_def c Inr)
      have h: "held_ids q' = held_ids q @ [jID j]" by (simp add: q' held_ids_def executing_def dc)
      have "i \<in> set (held_ids q')" if "board_of (qStore q') i = Some (StateRunning, k, n)" for i k n
      proof (cases "i = jID j")
        case False
        have "ClaimNextJob now (qStore q) = (Inr j, e)" by (simp add: c Inr)
        then have "find_row i e = find_row i (qStore q)"
          by (rule ClaimNextJob_effect [OF d f]) (use False in simp)
        then have "board_of e i = board_of (qStore q) i" by (simp add: board_of_def)
        moreover have "board_of e i = Some (StateRunning, k, n)" using that by (simp add: q')
        ultimately have "board_of (qStore q) i = Some (StateRunning, k, n)" by simp
        then have "i \<in> set (held_ids q)" by (rule own)
        then show ?thesis unfolding h by simp
      qed (simp add: h)
      then show ?thesis using f' by (auto simp: owned_def)
    qed
  next
    case EvSpawn
    then obtain j where j: "qDispatcher q = DSpawn j" using assms(2) by (auto split: dispatcher.splits)
    show ?thesis using assms(3) EvSpawn j
      by (intro easy) (auto simp: dispatch_spawn_def Let_def held_ids_def executing_def)
  next
    case (EvLog tok now s l)
    show ?thesis using assms(3) EvLog
      by (intro easy) (auto simp: onLog_def held_ids_def executing_def split: option.splits prod.splits)
  next
    case (EvReport tok now r)
    then obtain w where w: "find_worker tok q = Some w" "\<not> wDone w" using assms(2) by (auto split: option.splits)
    then have q': "q' = worker_report now w r q" using assms(3) EvReport by simp
    obtain xs ys where h: "held_ids q = xs @ jID (wJob w) # ys" "held_ids q' = xs @ ys"
      using report_held [OF m w, of now r] unfolding q' by blast
    have "i \<in> set (held_ids q')" if b: "board_of (qStore q') i = Some (StateRunning, k, n)" for i k n
    proof -
      have "i \<noteq> jID (wJob w)" using outcome_not_running [OF f] b by (auto simp: q' worker_report_def)
      moreover have "i \<in> set (held_ids q)" using own before [OF b] EvReport by blast
      ultimately show ?thesis by (auto simp: h)
    qed
    then show ?thesis using f' by (auto simp: owned_def)
  next
    case (EvCleanup tok)
    then obtain w where w: "find_worker tok q = Some w" "wDone w" using assms(2) by (auto split: option.splits)
    then show ?thesis using assms(3) EvCleanup cleanup_held [OF m w] by (intro easy) auto
  next
    case (EvHub op)
    then show ?thesis using assms(3) by (intro easy) (auto simp: held_ids_def executing_def)
  qed (use api in simp_all)
qed

lemma run_owned: "q_run q evs q' \<Longrightarrow> q_inv q \<Longrightarrow> owned q \<Longrightarrow> owned q'"
proof (induction rule: q_run.induct)
  case (snoc q evs q' ev q'')
  then show ?case using step_owned [of q' ev q''] q_run_inv by auto
qed

end
