(* ===== verification/QueueProps.thy ===== *)
theory QueueProps
  imports QueueExec
begin

text \<open>
  The properties of the queue: it never panics and keeps its invariant, it bounds and stops
  dispatch, runs a job in one worker at a time and forgets none; and the interleavings in which it
  does less than its comments promise.
\<close>

definition demo_store :: db where
  "demo_store = demo_db [demo_row 1 StateQueued 5 ''http://a'', demo_row 2 StateQueued 0 ''http://b'',
     demo_row 3 StateQueued 0 ''http://c'']"

definition demo_queue :: "int \<Rightarrow> queue" where
  "demo_queue n = Start 100 (NewQueue demo_store None \<lparr>cfgConcurrency = n, cfgMaxRetries = 3\<rparr>)"

text \<open>One turn of the dispatcher that starts a job.\<close>

definition turn :: "qev list" where
  "turn = [EvCheck, EvClaim 200, EvSpawn]"

lemma demo_store_ok: "db_inv demo_store" "faults demo_store = []"
  by (simp_all add: demo_store_def db_inv_def jobs_ok_def logs_ok_def demo_db_def demo_row_def row_ok_def)

lemma fresh_None [simp]: "fresh_hub None"
  by (simp add: fresh_hub_def)

lemma demo_exec: "q_exec evs (demo_queue n) \<noteq> None \<Longrightarrow> q_run (demo_queue n) evs (the (q_exec evs (demo_queue n)))"
  using q_exec_run by auto

lemma Start_executing: "executing (Start now (NewQueue d hb cfg)) = []" "held_ids (Start now (NewQueue d hb cfg)) = []"
  by (simp_all add: executing_def held_ids_def Start_fields NewQueue_def)

lemma Start_exclusive: "exclusive (Start now (NewQueue d hb cfg))"
  by (simp add: exclusive_def Start_executing)

lemma Start_owned:
  assumes "db_inv d" and "faults d = []"
  shows "owned (Start now (NewQueue d hb cfg))"
proof -
  let ?d = "snd (RecoverOrphanedJobs now d)"
  have f: "faults ?d = []" using exec_op_quiet [OF assms(2), of "OpRecover now"] by simp
  have "board_of ?d = (\<lambda>i. map_option recover_card (board_of d i))"
    by (rule recover_quiet(1) [OF assms(2)])
  moreover have "recover_card c \<noteq> (StateRunning, k, m)" for c k m by (cases c) simp
  ultimately have none: "board_of ?d i \<noteq> Some (StateRunning, k, m)" for i k m by auto
  have "snd (GetQueueConfig ?d) = ?d" using f by (simp add: GetQueueConfig_def split: prod.split)
  then have "qStore (Start now (NewQueue d hb cfg)) = ?d" by (simp add: Start_fields NewQueue_def)
  then show ?thesis using f none by (simp add: owned_def)
qed

subsection \<open>Safety\<close>

text \<open>C5: The daemon's core never panics and keeps its invariant: started on a well-formed database,
  through any interleaving of the dispatcher, the workers, the API and the log clients, with any
  results of the executor and any driver failures, every event that can happen does, and leaves the
  tables, the log hub and the maps of active jobs and cancel functions consistent.\<close>

theorem daemon_safe:
  assumes "db_inv d" and "fresh_hub hb" and "q_run (Start now (NewQueue d hb cfg)) evs q" and "q_pre ev q"
  shows "q_inv q \<and> (\<exists>q'. q_step ev q = Some q' \<and> q_inv q')"
  using q_run_inv [OF assms(3) Start_inv [OF assms(1,2)]] q_step_inv assms(4) by blast

theorem daemon_safe_witness:
  "q_inv (the (q_exec (turn @ [EvReport 0 300 (Some ''boom'')]) (demo_queue 5)))"
proof -
  have e: "q_exec (turn @ [EvReport 0 300 (Some ''boom'')]) (demo_queue 5) \<noteq> None" by code_simp
  show ?thesis
    by (rule daemon_safe [OF demo_store_ok(1) fresh_None demo_exec [OF e, unfolded demo_queue_def], where ev = EvPause, THEN conjunct1, folded demo_queue_def])
       simp
qed

text \<open>C8: Concurrency: the number of active jobs never exceeds the highest limit in force so far, and
  the dispatcher only claims a job while there is room for it.\<close>

theorem active_bound:
  assumes "q_run (Start now (NewQueue d hb cfg)) evs q"
  shows "int (length (qActiveJobs q)) \<le> peak (max 0 (qConcurrency (Start now (NewQueue d hb cfg)))) evs
    \<and> (\<forall>j. qDispatcher q = DSpawn j \<longrightarrow>
         int (length (qActiveJobs q)) < peak (max 0 (qConcurrency (Start now (NewQueue d hb cfg)))) evs)"
proof -
  have "bound_ok (max 0 (qConcurrency (Start now (NewQueue d hb cfg)))) (Start now (NewQueue d hb cfg))"
    by (simp add: bound_ok_def Start_fields) (simp add: NewQueue_def)
  from run_bound [OF assms this] show ?thesis by (auto simp: bound_ok_def)
qed

theorem active_bound_witness:
  "length (qActiveJobs (the (q_exec (turn @ turn @ [EvCheck]) (demo_queue 5)))) \<le> 2"
proof -
  have e: "q_exec (turn @ turn @ [EvCheck]) (demo_queue 5) \<noteq> None" by code_simp
  have "peak (max 0 (qConcurrency (demo_queue 5))) (turn @ turn @ [EvCheck]) = 2" by code_simp
  with active_bound [OF demo_exec [OF e, unfolded demo_queue_def]] show ?thesis
    by (simp add: demo_queue_def)
qed

text \<open>Pausing and stopping: from a moment when the queue is paused or stopped, and until it is
  resumed, the dispatcher starts no job, except the one it is already committed to if it had passed
  its check.\<close>

theorem halt_stops_dispatch:
  assumes "q_run q evs q'" and "qPaused q \<or> qStopped q" and "EvResume \<notin> set evs"
  shows "spawns evs \<le> in_flight (qDispatcher q) \<and> (qDispatcher q = DCheck \<longrightarrow> spawns evs = 0)"
  using run_halted [OF assms(1) _ assms(3)] assms(2) by (auto simp: halted_def)

theorem halt_stops_dispatch_witness:
  "spawns [EvCheck, EvCheck] \<le> in_flight (qDispatcher (the (q_exec [EvPause] (demo_queue 5))))"
proof -
  have "q_exec [EvCheck, EvCheck] (the (q_exec [EvPause] (demo_queue 5))) \<noteq> None"
    "qPaused (the (q_exec [EvPause] (demo_queue 5)))" by code_simp+
  then show ?thesis using halt_stops_dispatch [OF q_exec_run, of "[EvCheck, EvCheck]"] by auto
qed

text \<open>C1: No job is executed twice at once: in every run without retry, quarantine or batch requests
  from the API, whatever fails in the database or in the executors, the workers that are executing
  and the dispatcher have pairwise different jobs, none of which the store would hand out again.\<close>

theorem one_worker_per_job:
  assumes "db_inv d" and "fresh_hub hb" and "q_run (Start now (NewQueue d hb cfg)) evs q" and "list_all gentle evs"
  shows "distinct (map (\<lambda>w. jID (wJob w)) (executing q))
    \<and> (\<forall>w \<in> set (executing q). \<forall>r. find_row (jID (wJob w)) (qStore q) = Some r \<longrightarrow> rState r \<noteq> StateQueued)"
proof -
  have ex: "exclusive q" by (rule run_exclusive [OF assms(3) Start_inv [OF assms(1,2)] Start_exclusive assms(4)])
  have "held (board_of (qStore q) (jID (wJob w)))" if "w \<in> set (executing q)" for w
    using ex that by (auto simp: exclusive_def held_ids_def)
  then have "rState r \<noteq> StateQueued" if "w \<in> set (executing q)" "find_row (jID (wJob w)) (qStore q) = Some r" for w r
    using that by (force simp: held_def board_of_def card_of_def)
  moreover have "distinct (map (\<lambda>w. jID (wJob w)) (executing q))" using ex by (simp add: exclusive_def held_ids_def)
  ultimately show ?thesis by blast
qed

theorem one_worker_per_job_witness:
  "distinct (map (\<lambda>w. jID (wJob w)) (executing (the (q_exec (turn @ turn @ [EvReport 0 300 (Some ''boom''), EvPauseJob 3]) (demo_queue 5)))))"
proof -
  let ?evs = "turn @ turn @ [EvReport 0 300 (Some ''boom''), EvPauseJob 3]"
  have e: "q_exec ?evs (demo_queue 5) \<noteq> None" by code_simp
  have g: "list_all gentle ?evs" by (simp add: turn_def)
  show ?thesis
    using one_worker_per_job [OF demo_store_ok(1) fresh_None demo_exec [OF e, unfolded demo_queue_def] g, folded demo_queue_def]
    by simp
qed

text \<open>C2: No running job is forgotten: as long as the database does not fail, every job shown as
  running is being executed by a worker or is the one the dispatcher is about to start, through any
  requests of the API and any results of the executors. So no job stays running after its worker
  is done.\<close>

theorem no_forgotten_job:
  assumes "db_inv d" and "faults d = []" and "fresh_hub hb" and "q_run (Start now (NewQueue d hb cfg)) evs q"
    and "r \<in> set (jobs (qStore q))" and "rState r = StateRunning"
  shows "(\<exists>w \<in> set (qWorkers q). \<not> wDone w \<and> jID (wJob w) = rID r)
    \<or> (\<exists>j. qDispatcher q = DSpawn j \<and> jID j = rID r)"
proof -
  have "owned q" by (rule run_owned [OF assms(4) Start_inv [OF assms(1,3)] Start_owned [OF assms(1,2)]])
  moreover have "db_inv (qStore q)" using q_run_inv [OF assms(4) Start_inv [OF assms(1,3)]] by (simp add: q_inv_def)
  then have "board_of (qStore q) (rID r) = Some (StateRunning, rRetryCount r, rMaxRetries r)"
    using find_row_mem assms(5,6) by (simp add: board_of_def card_of_def)
  ultimately have "rID r \<in> set (held_ids q)" unfolding owned_def by blast
  then show ?thesis by (cases "qDispatcher q") (auto simp: held_ids_def executing_def)
qed

theorem no_forgotten_job_witness:
  "\<exists>w \<in> set (qWorkers (the (q_exec turn (demo_queue 5)))). \<not> wDone w \<and> jID (wJob w) = 1"
proof -
  let ?q = "the (q_exec turn (demo_queue 5))"
  have e: "q_exec turn (demo_queue 5) \<noteq> None" by code_simp
  obtain r where r: "r \<in> set (jobs (qStore ?q))" "rState r = StateRunning" "rID r = 1"
  proof -
    have "list_ex (\<lambda>r. rState r = StateRunning \<and> rID r = 1) (jobs (qStore ?q))" by code_simp
    then show ?thesis using that by (auto simp: list_ex_iff)
  qed
  have "qDispatcher ?q = DCheck" by code_simp
  with no_forgotten_job [OF demo_store_ok fresh_None demo_exec [OF e, unfolded demo_queue_def], folded demo_queue_def, OF r(1,2)] r(3)
  show ?thesis by auto
qed

text \<open>C4: The daemon refines the board: every event of every run is a step the board allows for the
  one store operation it stands for, or leaves the board alone. In particular a job gets to run only
  by a claim of the dispatcher, out of the queued state.\<close>

theorem daemon_refines_board:
  assumes "db_inv d" and "fresh_hub hb" and "q_run (Start now (NewQueue d hb cfg)) evs q"
    and "q_pre ev q" and "q_step ev q = Some q'"
  shows "(case q_store_op ev q of None \<Rightarrow> board_of (qStore q') = board_of (qStore q)
       | Some op \<Rightarrow> spec op (board_of (qStore q)) (board_of (qStore q')))
    \<and> (\<forall>i k m. board_of (qStore q') i = Some (StateRunning, k, m) \<longrightarrow> board_of (qStore q) i \<noteq> board_of (qStore q') i
         \<longrightarrow> board_of (qStore q) i = Some (StateQueued, k, m) \<and> (\<exists>t. ev = EvClaim t))"
proof -
  note sp = q_step_spec [OF q_run_inv [OF assms(3) Start_inv [OF assms(1,2)]] assms(4,5)]
  have "board_of (qStore q) i = Some (StateQueued, k, m) \<and> (\<exists>t. ev = EvClaim t)"
    if b: "board_of (qStore q') i = Some (StateRunning, k, m)" "board_of (qStore q) i \<noteq> board_of (qStore q') i" for i k m
  proof (cases "q_store_op ev q")
    case (Some op)
    then have "spec op (board_of (qStore q)) (board_of (qStore q'))" using sp by simp
    from spec_running_again [OF this q_store_op_allowed [OF Some] b] Some show ?thesis
      by (cases ev) (auto simp: outcome_op_def split: if_splits option.splits sum.splits)
  qed (use sp b in simp)
  then show ?thesis using sp by blast
qed

theorem daemon_refines_board_witness:
  "spec (OpClaim 200) (board_of (qStore (the (q_exec [EvCheck] (demo_queue 5)))))
     (board_of (qStore (dispatch_claim 200 (the (q_exec [EvCheck] (demo_queue 5))))))"
proof -
  let ?q = "the (q_exec [EvCheck] (demo_queue 5))"
  have e: "q_exec [EvCheck] (demo_queue 5) \<noteq> None" and p: "q_pre (EvClaim 200) ?q" by code_simp+
  show ?thesis
    using daemon_refines_board [OF demo_store_ok(1) fresh_None demo_exec [OF e, unfolded demo_queue_def] p [unfolded demo_queue_def],
      folded demo_queue_def, of "dispatch_claim 200 ?q"] by simp
qed

subsection \<open>What a worker writes\<close>

lemma finish_board:
  "faults d = [] \<Longrightarrow> board_of d i = Some (s, k, m) \<Longrightarrow> board_of (snd (FinishJob now i st msg d)) i = Some (st, k, m)"
  "faults d = [] \<Longrightarrow> board_of d i = Some (s, k, m)
     \<Longrightarrow> board_of (snd (QuarantineJob now i reason d)) i = Some (StateQuarantined, k, m)"
proof -
  assume f: "faults d = []" and b: "board_of d i = Some (s, k, m)"
  then obtain r where r: "find_row i d = Some r" "rRetryCount r = k" "rMaxRetries r = m" "rID r = i"
    using find_row_Some [of i d] by (auto simp: board_of_def card_of_def)
  show "board_of (snd (FinishJob now i st msg d)) i = Some (st, k, m)"
    "board_of (snd (QuarantineJob now i reason d)) i = Some (StateQuarantined, k, m)"
    using f r by (simp_all add: store_ops board_of_def find_row_update on_id_def card_of_def)
qed

text \<open>The outcome of a run: a worker whose context was cancelled records the job as cancelled
  whatever the executor returned; otherwise success completes the job, an authentication, access or
  session error (recognised in the lower-cased message) quarantines it without counting an attempt,
  and any other error counts an attempt and queues the job again, or quarantines it when no attempt
  is left.\<close>

theorem worker_outcome:
  assumes "faults (qStore q) = []" and "board_of (qStore q) (jID (wJob w)) = Some (s, k, m)"
  shows "board_of (qStore (worker_report now w res q)) (jID (wJob w)) = Some
     (if wTok w \<in> set (qCancelled q) then (StateCancelled, k, m)
      else case res of
          None \<Rightarrow> (StateCompleted, k, m)
        | Some msg \<Rightarrow> if isImmediateQuarantineError msg \<noteq> None then (StateQuarantined, k, m)
                      else if m \<le> k + 1 then (StateQuarantined, k + 1, m) else (StateQueued, k + 1, m))"
  using assms
  by (auto simp: worker_report_def record_outcome_def finish_board FailAndRetryJob_board(2) split: option.split)

theorem worker_outcome_witness:
  "board_of (qStore (worker_report 300 \<lparr>wTok = 0, wJob = demo_job ''http://a/'' 0\<lparr>jID := 1\<rparr>, wDone = False\<rparr>
      (Some ''imap: Invalid Credentials'') (the (q_exec turn (demo_queue 5))))) 1 = Some (StateQuarantined, 0, 3)"
proof -
  let ?q = "the (q_exec turn (demo_queue 5))"
  have p: "faults (qStore ?q) = []" "board_of (qStore ?q) 1 = Some (StateRunning, 0, 3)" "0 \<notin> set (qCancelled ?q)"
    "isImmediateQuarantineError ''imap: Invalid Credentials'' \<noteq> None" by code_simp+
  have j: "jID (demo_job ''http://a/'' 0\<lparr>jID := 1\<rparr>) = 1" by simp
  show ?thesis
    by (subst worker_outcome [where w = "\<lparr>wTok = 0, wJob = demo_job ''http://a/'' 0\<lparr>jID := 1\<rparr>, wDone = False\<rparr>"
          and q = ?q and s = StateRunning and k = 0 and m = 3, unfolded worker.simps j])
       (simp_all add: p)
qed

text \<open>Cancelling a running job takes effect: once \<open>CancelJob\<close> has called its cancel function, the
  worker's report leaves the job cancelled, even when the executor ended without an error.\<close>

theorem cancel_running:
  assumes "faults (qStore q) = []" and "board_of (qStore q) (jID (wJob w)) = Some (s, k, m)"
    and "map_of (qRunningCancels q) (jID (wJob w)) = Some (wTok w)"
  shows "fst (CancelQueueJob now (jID (wJob w)) q) = Inr ()
    \<and> board_of (qStore (worker_report now' w res (snd (CancelQueueJob now (jID (wJob w)) q)))) (jID (wJob w))
        = Some (StateCancelled, k, m)"
  using assms
  by (simp add: CancelQueueJob_def worker_report_def record_outcome_def finish_board)

theorem cancel_running_witness:
  "board_of (qStore (worker_report 400 (the (find_worker 0 (the (q_exec turn (demo_queue 5))))) None
      (snd (CancelQueueJob 300 1 (the (q_exec turn (demo_queue 5))))))) 1 = Some (StateCancelled, 0, 3)"
proof -
  let ?q = "the (q_exec turn (demo_queue 5))"
  let ?w = "the (find_worker 0 ?q)"
  have p: "faults (qStore ?q) = []" "jID (wJob ?w) = 1" "board_of (qStore ?q) 1 = Some (StateRunning, 0, 3)"
    "map_of (qRunningCancels ?q) 1 = Some (wTok ?w)" by code_simp+
  from cancel_running [of ?q ?w StateRunning 0 3 300 400 None] show ?thesis using p by simp
qed

subsection \<open>Where the queue does less than it says\<close>

text \<open>A quarantine of a running job is lost: \<open>QuarantineJob\<close> cancels the worker and marks the job
  quarantined, but the cancelled worker then records the job as cancelled, so that it ends up
  outside the quarantine, where \<open>UnquarantineJob\<close> refuses it.\<close>

theorem quarantine_running_lost:
  assumes "faults (qStore q) = []" and "board_of (qStore q) (jID (wJob w)) = Some (s, k, m)"
    and "map_of (qRunningCancels q) (jID (wJob w)) = Some (wTok w)"
  shows "let q1 = snd (QuarantineQueueJob now (jID (wJob w)) reason q) in
    board_of (qStore q1) (jID (wJob w)) = Some (StateQuarantined, k, m)
    \<and> board_of (qStore (worker_report now' w res q1)) (jID (wJob w)) = Some (StateCancelled, k, m)"
proof -
  let ?d = "snd (QuarantineJob now (jID (wJob w)) reason (qStore q))"
  have "board_of ?d (jID (wJob w)) = Some (StateQuarantined, k, m)" by (rule finish_board(2) [OF assms(1,2)])
  moreover have "faults ?d = []" using assms(1) by (simp add: store_ops)
  ultimately show ?thesis using assms(3)
    by (simp add: QuarantineQueueJob_def worker_report_def record_outcome_def finish_board(1) Let_def)
qed

theorem quarantine_running_lost_witness:
  "board_of (qStore (worker_report 400 (the (find_worker 0 (the (q_exec turn (demo_queue 5))))) None
      (snd (QuarantineQueueJob 300 1 ''bad'' (the (q_exec turn (demo_queue 5))))))) 1 = Some (StateCancelled, 0, 3)"
proof -
  let ?q = "the (q_exec turn (demo_queue 5))"
  let ?w = "the (find_worker 0 ?q)"
  have p: "faults (qStore ?q) = []" "jID (wJob ?w) = 1" "board_of (qStore ?q) 1 = Some (StateRunning, 0, 3)"
    "map_of (qRunningCancels ?q) 1 = Some (wTok ?w)" by code_simp+
  from quarantine_running_lost [of ?q ?w StateRunning 0 3 300 "''bad''" 400 None] show ?thesis using p
    by (simp add: Let_def)
qed

text \<open>The configured concurrency never takes effect on a fresh database: \<open>Start\<close> replaces it by
  the default two of \<open>GetQueueConfig\<close> unless a limit was stored before.\<close>

theorem Start_overrides_concurrency:
  assumes "db_inv d" and "faults d = []" and "map_of (queue_state d) ''concurrency'' = None"
  shows "qConcurrency (Start now (NewQueue d hb cfg)) = 2"
proof -
  let ?d = "snd (RecoverOrphanedJobs now d)"
  have f: "faults ?d = []" using exec_op_quiet [OF assms(2), of "OpRecover now"] by simp
  have qs: "queue_state ?d = queue_state d" using assms(2) by (simp add: RecoverOrphanedJobs_def)
  have dist: "distinct (map fst (queue_state ?d))" using assms(1) by (simp add: qs db_inv_def)
  show ?thesis using assms(3)
    by (simp add: Start_def Let_def NewQueue_def GetQueueConfig_quiet [OF f dist] qs)
qed

theorem Start_overrides_concurrency_witness:
  "qConcurrency (NewQueue demo_store None \<lparr>cfgConcurrency = 5, cfgMaxRetries = 3\<rparr>) = 5
   \<and> qConcurrency (demo_queue 5) = 2"
proof
  show "qConcurrency (NewQueue demo_store None \<lparr>cfgConcurrency = 5, cfgMaxRetries = 3\<rparr>) = 5"
    by (simp add: NewQueue_def)
  show "qConcurrency (demo_queue 5) = 2"
    unfolding demo_queue_def
    by (rule Start_overrides_concurrency [OF demo_store_ok]) (simp add: demo_store_def demo_db_def)
qed

text \<open>Two ways past the concurrency limit. A failed job is back in the queue before its worker
  has cleaned up; if it is claimed in between, the cleanup removes the new worker from the maps,
  which then counts for nothing and cannot be cancelled: with a limit of two, three jobs run. And
  \<open>RetryJob\<close>, which says it restarts failed or completed jobs, takes a running one too: the same
  job then runs in three workers.\<close>

theorem limit_races:
  "map_option (\<lambda>q. (qConcurrency q, map (\<lambda>w. jID (wJob w)) (executing q), map fst (qRunningCancels q)))
     (q_exec (turn @ [EvReport 0 300 (Some ''boom'')] @ turn @ [EvCleanup 0] @ turn @ turn) (demo_queue 5))
   = Some (2, [1, 2, 3], [2, 3])
   \<and> map_option (\<lambda>q. (qConcurrency q, map (\<lambda>w. jID (wJob w)) (executing q), map fst (qActiveJobs q)))
     (q_exec (turn @ [EvRetry 1] @ turn @ [EvRetry 1] @ turn) (demo_queue 5))
   = Some (2, [1, 1, 1], [1])"
proof
  show "map_option (\<lambda>q. (qConcurrency q, map (\<lambda>w. jID (wJob w)) (executing q), map fst (qRunningCancels q)))
     (q_exec (turn @ [EvReport 0 300 (Some ''boom'')] @ turn @ [EvCleanup 0] @ turn @ turn) (demo_queue 5))
   = Some (2, [1, 2, 3], [2, 3])" by code_simp
  show "map_option (\<lambda>q. (qConcurrency q, map (\<lambda>w. jID (wJob w)) (executing q), map fst (qActiveJobs q)))
     (q_exec (turn @ [EvRetry 1] @ turn @ [EvRetry 1] @ turn) (demo_queue 5))
   = Some (2, [1, 1, 1], [1])" by code_simp
qed

end
