(* ===== verification/GoHttp.thy ===== *)
theory GoHttp
  imports GoJson
begin

text \<open>
  What the API uses of Go's packages \<open>net/http\<close>, \<open>net/url\<close> (queries), \<open>encoding/base64\<close> and \<open>encoding/json\<close>
  (decoding a stream into a struct). A request is what the server hands to a handler: method, URL,
  headers under their canonical names, cookies already read from the header, and the body. A
  response is its status, headers and body; bodies written by \<open>writeJSON\<close> are kept as the value that
  is encoded.
\<close>

subsection \<open>Queries\<close>

text \<open>\<open>url.ParseQuery\<close>, as \<open>URL.Query\<close> uses it: malformed pairs are dropped.\<close>

definition query_pair :: "string \<Rightarrow> (string \<times> string) option" where
  "query_pair kv =
    (if kv = [] \<or> CHR '';'' \<in> set kv then None
     else (case Cut kv ''='' of (k, v, _) \<Rightarrow>
        (case (unescape k encodeQueryComponent, unescape v encodeQueryComponent) of
           (Inr k', Inr v') \<Rightarrow> Some (k', v')
         | _ \<Rightarrow> None)))"

definition ParseQuery :: "string \<Rightarrow> (string \<times> string) list" where
  "ParseQuery q = List.map_filter query_pair (Split q (CHR ''&''))"

definition QueryGet :: "(string \<times> string) list \<Rightarrow> string \<Rightarrow> string" where
  "QueryGet vals k = (case map_of vals k of None \<Rightarrow> [] | Some v \<Rightarrow> v)"

definition QueryEscape :: "string \<Rightarrow> string" where
  "QueryEscape s = escape s encodeQueryComponent"

text \<open>\<open>Values.Encode\<close> of a map with one value per key.\<close>

definition EncodeQuery :: "smap \<Rightarrow> string" where
  "EncodeQuery m = Join (map (\<lambda>(k, v). QueryEscape k @ ''='' @ QueryEscape v) m) ''&''"

subsection \<open>Base64 and the Authorization header\<close>

definition b64_val :: "char \<Rightarrow> nat option" where
  "b64_val c = (let n = (of_char c :: nat) in
     if 65 \<le> n \<and> n \<le> 90 then Some (n - 65)
     else if 97 \<le> n \<and> n \<le> 122 then Some (n - 71)
     else if 48 \<le> n \<and> n \<le> 57 then Some (n + 4)
     else if n = 43 then Some 62 else if n = 47 then Some 63 else None)"

definition byte :: "nat \<Rightarrow> char" where
  "byte n = (char_of (n mod 256) :: char)"

fun b64_groups :: "string \<Rightarrow> string option" where
  "b64_groups [] = Some []"
| "b64_groups (a # b # c # d # r) =
    (case (b64_val a, b64_val b) of
       (Some x, Some y) \<Rightarrow>
         (if c = CHR ''='' then (if d = CHR ''='' \<and> r = [] then Some [byte (x * 4 + y div 16)] else None)
          else (case b64_val c of
             None \<Rightarrow> None
           | Some z \<Rightarrow>
              (if d = CHR ''='' then
                 (if r = [] then Some [byte (x * 4 + y div 16), byte (y * 16 + z div 4)] else None)
               else (case b64_val d of
                  None \<Rightarrow> None
                | Some w \<Rightarrow> map_option (\<lambda>t. byte (x * 4 + y div 16) # byte (y * 16 + z div 4) # byte (z * 64 + w) # t)
                              (b64_groups r)))))
     | _ \<Rightarrow> None)"
| "b64_groups _ = None"

definition b64_decode :: "string \<Rightarrow> string option" where
  "b64_decode s = b64_groups (filter (\<lambda>c. c \<noteq> CHR 0x0A \<and> c \<noteq> CHR 0x0D) s)"

text \<open>\<open>Request.BasicAuth\<close> on the value of the header.\<close>

definition BasicAuth :: "string \<Rightarrow> (string \<times> string) option" where
  "BasicAuth auth =
    (if length auth < 6 \<or> \<not> EqualFold (take 6 auth) ''Basic '' then None
     else (case b64_decode (drop 6 auth) of
        None \<Rightarrow> None
      | Some cs \<Rightarrow> (case Cut cs '':'' of (u, p, ok) \<Rightarrow> if ok then Some (u, p) else None)))"

subsection \<open>Requests and responses\<close>

record request =
  rqMethod :: string
  rqPath :: string
  rqRawQuery :: string
  rqHost :: string
  rqTLS :: bool
  rqHeaders :: "(string \<times> string) list"
  rqCookies :: "(string \<times> string) list"
  rqBody :: string

definition Header :: "request \<Rightarrow> string \<Rightarrow> string" where
  "Header r k = QueryGet (rqHeaders r) k"

definition URLQuery :: "request \<Rightarrow> (string \<times> string) list" where
  "URLQuery r = ParseQuery (rqRawQuery r)"

text \<open>The text of an error: plain, or a prefix followed by the message of a library decoder, whose
  wording is left open.\<close>

datatype errtext = Txt string | TxtThen string

record cookie =
  ckName :: string
  ckValue :: string
  ckPath :: string
  ckExpires :: int
  ckMaxAge :: int
  ckHttpOnly :: bool

subsection \<open>Decoding a request body\<close>

text \<open>\<open>Decoder.Decode\<close> reads the first value of the stream; after a value that is not an array or an
  object it looks one byte ahead.\<close>

definition json_first :: "string \<Rightarrow> json option" where
  "json_first s = (case parse_value (2 * length s + 2) s of
       None \<Rightarrow> None
     | Some (v, r) \<Rightarrow>
        (case v of
           JObj _ \<Rightarrow> Some v
         | JArr _ \<Rightarrow> Some v
         | _ \<Rightarrow> if r = [] \<or> json_space (hd r) then Some v else None))"

text \<open>The members of the object a struct is decoded from; \<open>null\<close> leaves the struct as it is.\<close>

definition struct_members :: "string \<Rightarrow> (string \<times> json) list option" where
  "struct_members body = (case json_first body of
       Some (JObj ms) \<Rightarrow> Some ms | Some JNull \<Rightarrow> Some [] | _ \<Rightarrow> None)"

text \<open>A field: members are matched without regard to case, later ones replace earlier ones, \<open>null\<close>
  changes nothing, and a member of the wrong type is reported once the rest was decoded. The
  result is the value and whether there was no such error.\<close>

definition field_members :: "string \<Rightarrow> (string \<times> json) list \<Rightarrow> json list" where
  "field_members name ms = map snd (filter (\<lambda>(k, v). EqualFold k name \<and> v \<noteq> JNull) ms)"

definition string_field :: "string \<Rightarrow> (string \<times> json) list \<Rightarrow> string \<times> bool" where
  "string_field name ms = foldl (\<lambda>(s, ok) v. case v of JStr t \<Rightarrow> (t, ok) | _ \<Rightarrow> (s, False)) ([], True) (field_members name ms)"

definition int_field :: "string \<Rightarrow> (string \<times> json) list \<Rightarrow> int \<times> bool" where
  "int_field name ms = foldl (\<lambda>(n, ok) v. case v of
       JNum t \<Rightarrow> (case Atoi t of (i, good) \<Rightarrow> if good then (i, ok) else (n, False))
     | _ \<Rightarrow> (n, False)) (0, True) (field_members name ms)"

definition smap_field :: "string \<Rightarrow> (string \<times> json) list \<Rightarrow> smap \<times> bool" where
  "smap_field name ms = foldl (\<lambda>(m, ok) v. case v of
       JObj es \<Rightarrow> (foldl (\<lambda>a (k, e). smap_put k (member_text e) a) m es, ok \<and> list_all (\<lambda>(k, e). member_ok e) es)
     | _ \<Rightarrow> (m, False)) ([], True) (field_members name ms)"

definition ints_field :: "string \<Rightarrow> (string \<times> json) list \<Rightarrow> int list \<times> bool" where
  "ints_field name ms = foldl (\<lambda>(xs, ok) v. case v of
       JArr es \<Rightarrow> (map (\<lambda>e. case e of JNum t \<Rightarrow> (case Atoi t of (i, good) \<Rightarrow> if good then i else 0) | _ \<Rightarrow> 0) es,
                   ok \<and> list_all (\<lambda>e. case e of JNum t \<Rightarrow> snd (Atoi t) | JNull \<Rightarrow> True | _ \<Rightarrow> False) es)
     | _ \<Rightarrow> (xs, False)) ([], True) (field_members name ms)"

subsection \<open>Facts\<close>

lemma unescape_escape_query: "unescape (QueryEscape s) encodeQueryComponent = Inr s"
proof (induction s)
  case Nil
  then show ?case by (simp add: QueryEscape_def escape_def)
next
  case (Cons c s)
  consider "c = CHR '' ''" | "c \<noteq> CHR '' ''" "shouldEscape c encodeQueryComponent"
    | "c \<noteq> CHR '' ''" "\<not> shouldEscape c encodeQueryComponent" by blast
  then show ?case
  proof cases
    case 1
    then show ?thesis using Cons by (simp add: QueryEscape_def escape_def)
  next
    case 2
    let ?n = "of_char c :: nat"
    have n: "?n < 256" by (metis of_char_of nat_of_char_less_256)
    have d: "?n div 16 < 16" "?n mod 16 < 16" using n less_mult_imp_div_less [of ?n 16 16] by auto
    have e: "QueryEscape (c # s) = CHR ''%'' # upper_hex (?n div 16) # upper_hex (?n mod 16) # QueryEscape s"
      using 2 by (simp add: QueryEscape_def escape_def Let_def)
    have "unescape (QueryEscape (c # s)) encodeQueryComponent
        = map_sum id ((#) (char_of (16 * (?n div 16) + ?n mod 16))) (unescape (QueryEscape s) encodeQueryComponent)"
      by (simp add: e hex_val_upper_hex [OF d(1)] hex_val_upper_hex [OF d(2)] Let_def)
    then show ?thesis using Cons by simp
  next
    case 3
    then have "c \<noteq> CHR ''%''" "c \<noteq> CHR ''+''"
      by (auto simp: shouldEscape_def is_alnum_def is_alpha_def is_digit_def)
    moreover have "QueryEscape (c # s) = c # QueryEscape s" using 3 by (simp add: QueryEscape_def escape_def)
    ultimately show ?thesis using Cons by simp
  qed
qed

text \<open>An escaped text has none of the characters that structure a query.\<close>

lemma upper_hex_alnum: "d < 16 \<Longrightarrow> is_alnum (upper_hex d)"
  by (auto simp: upper_hex_def is_alnum_def is_alpha_def is_digit_def Let_def)

lemma QueryEscape_chars:
  assumes "c \<in> set (QueryEscape s)"
  shows "c \<noteq> CHR ''&'' \<and> c \<noteq> CHR '';'' \<and> c \<noteq> CHR ''=''"
proof -
  obtain x where x: "x \<in> set s" and c: "c \<in> set (if x = CHR '' '' then ''+''
      else if shouldEscape x encodeQueryComponent
      then (let n = (of_char x :: nat) in [CHR ''%'', upper_hex (n div 16), upper_hex (n mod 16)]) else [x])"
    using assms by (auto simp: QueryEscape_def escape_def split: if_splits)
  have n: "(of_char x :: nat) < 256" by (metis of_char_of nat_of_char_less_256)
  then have d: "(of_char x :: nat) div 16 < 16" "(of_char x :: nat) mod 16 < 16"
    using less_mult_imp_div_less [of "of_char x" 16 16] by auto
  have al: "\<not> is_alnum CHR ''&''" "\<not> is_alnum CHR '';''" "\<not> is_alnum CHR ''=''"
    by (simp_all add: is_alnum_def is_alpha_def is_digit_def)
  consider "c = CHR ''+''" | "c = CHR ''%''" | "is_alnum c" | "c = x" "\<not> shouldEscape x encodeQueryComponent"
    using c upper_hex_alnum [OF d(1)] upper_hex_alnum [OF d(2)] by (auto simp: Let_def split: if_splits)
  then show ?thesis
  proof cases
    case 4
    then show ?thesis by (auto simp: shouldEscape_def al)
  qed (use al in auto)
qed

lemma HasPrefix_single [simp]: "HasPrefix (a # s) [c] \<longleftrightarrow> a = c"
  by (simp add: HasPrefix_def)

lemma Index_single: "c \<notin> set a \<Longrightarrow> Index (a @ c # b) [c] = Some (length a)"
  by (induction a) auto

lemma Cut_single: "c \<notin> set a \<Longrightarrow> Cut (a @ c # b) [c] = (a, b, True)"
  by (simp add: Cut_def Index_single)

lemma query_pair_escape: "query_pair (QueryEscape k @ ''='' @ QueryEscape v) = Some (k, v)"
proof -
  have "CHR '';'' \<notin> set (QueryEscape k @ ''='' @ QueryEscape v)" using QueryEscape_chars by auto
  moreover have "CHR ''='' \<notin> set (QueryEscape k)" using QueryEscape_chars by blast
  then have "Cut (QueryEscape k @ CHR ''='' # QueryEscape v) ''='' = (QueryEscape k, QueryEscape v, True)"
    by (rule Cut_single)
  ultimately show ?thesis by (simp add: query_pair_def unescape_escape_query)
qed

lemma ParseQuery_Encode: "m \<noteq> [] \<Longrightarrow> ParseQuery (EncodeQuery m) = m"
proof -
  assume ne: "m \<noteq> []"
  let ?ps = "map (\<lambda>(k, v). QueryEscape k @ ''='' @ QueryEscape v) m"
  have n: "CHR ''&'' \<notin> set (QueryEscape s)" for s using QueryEscape_chars by blast
  have "Split (EncodeQuery m) (CHR ''&'') = ?ps"
    unfolding EncodeQuery_def by (rule Split_Join) (use ne n in auto)
  moreover have "List.map_filter query_pair (map (\<lambda>(k, v). QueryEscape k @ ''='' @ QueryEscape v) m) = m"
  proof (induction m)
    case (Cons kv m)
    obtain k v where "kv = (k, v)" by (cases kv)
    with Cons show ?case using query_pair_escape [of k v] by (simp add: map_filter_simps)
  qed (simp add: map_filter_simps)
  ultimately show ?thesis by (simp add: ParseQuery_def)
qed

end
