(* ===== verification/Auth.thy ===== *)
theory Auth
  imports Config GoHttp
begin

text \<open>
  \<open>internal/daemon/auth.go\<close>: password, session and OAuth authentication. Random tokens, the time and the
  answers of the OAuth provider are inputs; the secrets the configuration names are read through
  \<open>reader\<close>. Go's nil \<open>*AuthManager\<close> is \<open>None\<close>. A handler reads the clock several times; here it has
  one time. Times are in nanoseconds.
\<close>

subsection \<open>State\<close>

type_synonym atime = int

definition second :: int where
  "second = 1000000000"

definition sessionCookieName :: string where
  "sessionCookieName = ''mirrord_session''"

definition sessionDuration :: int where
  "sessionDuration = 14 * 24 * 3600 * second"

record session =
  ssToken :: string
  ssUser :: string
  ssCreatedAt :: atime
  ssExpiresAt :: atime

record auth_manager =
  amCfg :: auth_config
  amPassword :: string
  amClientSecret :: string
  amSessions :: "(string \<times> session) list"
  amOAuthStates :: "(string \<times> atime) list"
  amAllowedUsers :: "string list"
  amAuthURL :: string
  amTokenURL :: string
  amUserinfoURL :: string
  amScopes :: string

text \<open>The discovery document of an issuer, when it could be fetched and decoded.\<close>

type_synonym discovery = "string \<Rightarrow> (string \<times> string \<times> string) option"

definition or_else :: "string \<Rightarrow> string \<Rightarrow> string" where
  "or_else a b = (if a = [] then b else a)"

definition provider_endpoints :: "auth_manager \<Rightarrow> auth_manager" where
  "provider_endpoints a =
    (let oc = acOAuth (amCfg a);
         provider = ToLower (oaProvider oc)
     in if provider = ''google'' then
          a\<lparr>amAuthURL := ''https://accounts.google.com/o/oauth2/v2/auth'',
            amTokenURL := ''https://oauth2.googleapis.com/token'',
            amUserinfoURL := ''https://openidconnect.googleapis.com/v1/userinfo'',
            amScopes := (if oaScopes oc = [] then ''openid email profile'' else amScopes a)\<rparr>
        else if provider = ''github'' then
          a\<lparr>amAuthURL := ''https://github.com/login/oauth/authorize'',
            amTokenURL := ''https://github.com/login/oauth/access_token'',
            amUserinfoURL := ''https://api.github.com/user'',
            amScopes := (if oaScopes oc = [] then ''read:user user:email'' else amScopes a)\<rparr>
        else
          a\<lparr>amAuthURL := oaAuthURL oc, amTokenURL := oaTokenURL oc, amUserinfoURL := oaUserInfoURL oc\<rparr>)"

definition configured_scopes :: "auth_manager \<Rightarrow> auth_manager" where
  "configured_scopes a = (let scopes = oaScopes (acOAuth (amCfg a)) in
     if scopes \<noteq> [] then a\<lparr>amScopes := Join scopes '' ''\<rparr> else a)"

definition discover_endpoints :: "discovery \<Rightarrow> auth_manager \<Rightarrow> auth_manager" where
  "discover_endpoints disc a =
    (let issuer = oaIssuer (acOAuth (amCfg a)) in
     if issuer \<noteq> [] \<and> (amAuthURL a = [] \<or> amTokenURL a = [] \<or> amUserinfoURL a = []) then
       (case disc (TrimSuffix issuer ''/'' @ ''/.well-known/openid-configuration'') of
          None \<Rightarrow> a
        | Some (au, tu, uu) \<Rightarrow>
            a\<lparr>amAuthURL := or_else (amAuthURL a) au, amTokenURL := or_else (amTokenURL a) tu,
              amUserinfoURL := or_else (amUserinfoURL a) uu,
              amScopes := or_else (amScopes a) ''openid email profile''\<rparr>)
     else a)"

definition resolveOAuthEndpoints :: "discovery \<Rightarrow> auth_manager \<Rightarrow> auth_manager" where
  "resolveOAuthEndpoints disc a = discover_endpoints disc (configured_scopes (provider_endpoints a))"

definition NewAuthManager :: "reader \<Rightarrow> discovery \<Rightarrow> auth_config \<Rightarrow> string + auth_manager" where
  "NewAuthManager rd disc cfg =
    (case PasswordValue rd cfg of
       Inl e \<Rightarrow> Inl e
     | Inr pw \<Rightarrow>
        (case ClientSecretValue rd (acOAuth cfg) of
           Inl e \<Rightarrow> Inl e
         | Inr secret \<Rightarrow>
            (let am = \<lparr>amCfg = cfg, amPassword = pw, amClientSecret = secret, amSessions = [], amOAuthStates = [],
                   amAllowedUsers = map (\<lambda>u. ToLower (TrimSpace u)) (oaAllowedUsers (acOAuth cfg)),
                   amAuthURL = [], amTokenURL = [], amUserinfoURL = [], amScopes = []\<rparr>
             in Inr (if OAuth_Enabled (acOAuth cfg) then resolveOAuthEndpoints disc am else am))))"

subsection \<open>What is enabled\<close>

definition AM_Enabled :: "auth_manager option \<Rightarrow> bool" where
  "AM_Enabled a = (case a of None \<Rightarrow> False | Some am \<Rightarrow> Auth_Enabled (amCfg am))"

definition AM_PasswordEnabled :: "auth_manager option \<Rightarrow> bool" where
  "AM_PasswordEnabled a = (case a of None \<Rightarrow> False | Some am \<Rightarrow> amPassword am \<noteq> [])"

definition AM_OAuthEnabled :: "auth_manager option \<Rightarrow> bool" where
  "AM_OAuthEnabled a = (case a of None \<Rightarrow> False
     | Some am \<Rightarrow> OAuth_Enabled (acOAuth (amCfg am)) \<and> amAuthURL am \<noteq> [] \<and> amTokenURL am \<noteq> [])"

definition ProviderName :: "auth_manager option \<Rightarrow> string" where
  "ProviderName a = (case a of None \<Rightarrow> []
     | Some am \<Rightarrow>
        (let p = oaProvider (acOAuth (amCfg am)) in
         if p = [] then ''Single Sign-On''
         else if ToLower p = ''google'' then ''Google''
         else if ToLower p = ''github'' then ''GitHub''
         else ToUpper (take 1 p) @ drop 1 p))"

definition CheckPassword :: "string \<Rightarrow> auth_manager option \<Rightarrow> bool" where
  "CheckPassword pass a = (case a of None \<Rightarrow> False | Some am \<Rightarrow> amPassword am \<noteq> [] \<and> pass = amPassword am)"

subsection \<open>Sessions\<close>

text \<open>\<open>token\<close> is the random token drawn.\<close>

definition CreateSession :: "atime \<Rightarrow> string \<Rightarrow> string \<Rightarrow> auth_manager \<Rightarrow> cookie \<times> auth_manager" where
  "CreateSession now token user am =
    (let sess = \<lparr>ssToken = token, ssUser = user, ssCreatedAt = now, ssExpiresAt = now + sessionDuration\<rparr>
     in (\<lparr>ckName = sessionCookieName, ckValue = token, ckPath = ''/'', ckExpires = ssExpiresAt sess,
          ckMaxAge = sessionDuration div second, ckHttpOnly = True\<rparr>,
         am\<lparr>amSessions := AList.update token sess (amSessions am)\<rparr>))"

definition InvalidateSession :: "string \<Rightarrow> auth_manager \<Rightarrow> auth_manager" where
  "InvalidateSession token am = am\<lparr>amSessions := AList.delete token (amSessions am)\<rparr>"

definition LogoutCookie :: cookie where
  "LogoutCookie = \<lparr>ckName = sessionCookieName, ckValue = [], ckPath = ''/'', ckExpires = 0,
     ckMaxAge = -1, ckHttpOnly = True\<rparr>"

definition session_user :: "atime \<Rightarrow> string \<Rightarrow> auth_manager \<Rightarrow> string option" where
  "session_user now token am = (case map_of (amSessions am) token of
     None \<Rightarrow> None | Some s \<Rightarrow> if now < ssExpiresAt s then Some (ssUser s) else None)"

text \<open>The \<open>Authorization\<close> header: the user it authenticates, if any.\<close>

definition header_user :: "atime \<Rightarrow> request \<Rightarrow> auth_manager \<Rightarrow> string option" where
  "header_user now r am =
    (case SplitN2 (Header r ''Authorization'') (CHR '' '') of
       [scheme, rest] \<Rightarrow>
         (if ToLower scheme = ''bearer'' then
            (if CheckPassword (TrimSpace rest) (Some am) then Some ''api''
             else session_user now (TrimSpace rest) am)
          else if ToLower scheme = ''basic'' then
            (case BasicAuth (Header r ''Authorization'') of
               Some (u, p) \<Rightarrow> if CheckPassword p (Some am) then Some (if u = [] then ''api'' else u) else None
             | None \<Rightarrow> None)
          else None)
     | _ \<Rightarrow> None)"

definition session_cookie :: "request \<Rightarrow> string" where
  "session_cookie r = QueryGet (rqCookies r) sessionCookieName"

definition ValidateRequest :: "atime \<Rightarrow> request \<Rightarrow> auth_manager option \<Rightarrow> string option \<times> auth_manager option" where
  "ValidateRequest now r a =
    (if \<not> AM_Enabled a then (Some ''anonymous'', a)
     else (case a of
        None \<Rightarrow> (None, a)
      | Some am \<Rightarrow>
         (case header_user now r am of
            Some u \<Rightarrow> (Some u, a)
          | None \<Rightarrow>
             (let c = session_cookie r in
              if c = [] then (None, a)
              else (case map_of (amSessions am) c of
                 None \<Rightarrow> (None, a)
               | Some s \<Rightarrow> if now < ssExpiresAt s then (Some (ssUser s), a)
                           else (None, Some (InvalidateSession c am)))))))"

subsection \<open>OAuth\<close>

definition stateLifetime :: int where
  "stateLifetime = 600 * second"

definition redirect_uri :: "request \<Rightarrow> auth_manager \<Rightarrow> string" where
  "redirect_uri r am =
    (if oaRedirectURL (acOAuth (amCfg am)) \<noteq> [] then oaRedirectURL (acOAuth (amCfg am))
     else (if rqTLS r \<or> Header r ''X-Forwarded-Proto'' = ''https'' then ''https'' else ''http'')
          @ ''://'' @ rqHost r @ ''/auth/callback'')"

text \<open>A new state is added and the expired ones are pruned.\<close>

definition OAuthStartURL :: "atime \<Rightarrow> string \<Rightarrow> request \<Rightarrow> auth_manager option \<Rightarrow> (string + string) \<times> auth_manager option" where
  "OAuthStartURL now state r a =
    (case a of
       None \<Rightarrow> (Inl ''oauth is not configured'', a)
     | Some am \<Rightarrow>
        (if \<not> AM_OAuthEnabled a then (Inl ''oauth is not configured'', a)
         else
          (let am' = am\<lparr>amOAuthStates := filter (\<lambda>(s, exp). \<not> exp < now)
                 (AList.update state (now + stateLifetime) (amOAuthStates am))\<rparr>;
               vals = smap_put ''state'' state (smap_put ''scope'' (amScopes am) (smap_put ''response_type'' ''code''
                 (smap_put ''redirect_uri'' (redirect_uri r am) (smap_put ''client_id'' (oaClientID (acOAuth (amCfg am))) []))));
               separator = (if Contains (amAuthURL am) ''?'' then ''&'' else ''?'')
           in (Inr (amAuthURL am @ separator @ EncodeQuery vals), Some am'))))"

datatype http_reply = HttpFailed string | HttpReply int string

text \<open>The provider: its answer to the token request (its URL and form) and to the request for the
  user's data (its URL and the access token).\<close>

record oauth_world =
  owToken :: "string \<Rightarrow> string \<Rightarrow> http_reply"
  owUser :: "string \<Rightarrow> string \<Rightarrow> http_reply"

definition take_state :: "atime \<Rightarrow> string \<Rightarrow> auth_manager \<Rightarrow> bool \<times> auth_manager" where
  "take_state now state am =
    ((case map_of (amOAuthStates am) state of None \<Rightarrow> False | Some exp \<Rightarrow> \<not> exp < now),
     am\<lparr>amOAuthStates := AList.delete state (amOAuthStates am)\<rparr>)"

definition token_form :: "request \<Rightarrow> string \<Rightarrow> auth_manager \<Rightarrow> string" where
  "token_form r code am = EncodeQuery (smap_put ''client_secret'' (amClientSecret am)
     (smap_put ''client_id'' (oaClientID (acOAuth (amCfg am))) (smap_put ''redirect_uri'' (redirect_uri r am)
       (smap_put ''code'' code (smap_put ''grant_type'' ''authorization_code'' [])))))"

definition exchange_code :: "oauth_world \<Rightarrow> request \<Rightarrow> string \<Rightarrow> auth_manager \<Rightarrow> errtext + string" where
  "exchange_code w r code am =
    (case Parse (amTokenURL am) of
       Inl e \<Rightarrow> Inl (Txt e)
     | Inr _ \<Rightarrow>
        (case owToken w (amTokenURL am) (token_form r code am) of
           HttpFailed e \<Rightarrow> Inl (Txt (''exchanging oauth code: '' @ e))
         | HttpReply status body \<Rightarrow>
            (if status \<noteq> 200 then Inl (Txt (''token endpoint returned status '' @ itoa status @ '': '' @ body))
             else (case struct_members body of
                None \<Rightarrow> Inl (TxtThen ''decoding token response: '')
              | Some ms \<Rightarrow>
                 (if \<not> snd (string_field ''access_token'' ms) \<or> \<not> snd (string_field ''token_type'' ms)
                     \<or> \<not> snd (string_field ''id_token'' ms)
                  then Inl (TxtThen ''decoding token response: '')
                  else if fst (string_field ''access_token'' ms) = [] then Inl (Txt ''no access token in oauth response'')
                  else Inr (fst (string_field ''access_token'' ms)))))))"

text \<open>The user's identifier: the first of the fields that is a non-empty string.\<close>

fun first_text :: "(string \<times> json) list \<Rightarrow> string list \<Rightarrow> string" where
  "first_text ms [] = ''oauth_user''"
| "first_text ms (k # ks) =
    (case map_of (rev ms) k of
       Some (JStr s) \<Rightarrow> if s \<noteq> [] then s else first_text ms ks
     | _ \<Rightarrow> first_text ms ks)"

definition fetch_user :: "oauth_world \<Rightarrow> string \<Rightarrow> auth_manager \<Rightarrow> errtext + string" where
  "fetch_user w token am =
    (case Parse (amUserinfoURL am) of
       Inl e \<Rightarrow> Inl (Txt e)
     | Inr _ \<Rightarrow>
        (case owUser w (amUserinfoURL am) token of
           HttpFailed e \<Rightarrow> Inl (Txt (''fetching userinfo: '' @ e))
         | HttpReply status body \<Rightarrow>
            (if status \<noteq> 200 then Inl (Txt (''userinfo endpoint returned status '' @ itoa status @ '': '' @ body))
             else (case struct_members body of
                None \<Rightarrow> Inl (TxtThen ''decoding userinfo: '')
              | Some ms \<Rightarrow> Inr (first_text ms [''email'', ''login'', ''preferred_username'', ''sub'', ''name'']))))) "

definition HandleOAuthCallback :: "atime \<Rightarrow> oauth_world \<Rightarrow> request \<Rightarrow> auth_manager \<Rightarrow> (errtext + string) \<times> auth_manager" where
  "HandleOAuthCallback now w r am =
    (let code = QueryGet (URLQuery r) ''code''; state = QueryGet (URLQuery r) ''state'' in
     if code = [] \<or> state = [] then (Inl (Txt ''missing code or state in callback''), am)
     else (case take_state now state am of (good, am') \<Rightarrow>
       (if \<not> good then (Inl (Txt ''invalid or expired oauth state parameter''), am')
        else (case exchange_code w r code am' of
           Inl e \<Rightarrow> (Inl e, am')
         | Inr token \<Rightarrow>
            (case fetch_user w token am' of
               Inl e \<Rightarrow> (Inl e, am')
             | Inr user \<Rightarrow>
                (if amAllowedUsers am' \<noteq> [] \<and> ToLower user \<notin> set (amAllowedUsers am')
                 then (Inl (Txt (''user '' @ Quote user @ '' is not authorized to access this service'')), am')
                 else (Inr user, am')))))))"

end
