(* ===== verification/AuthProps.thy ===== *)
theory AuthProps
  imports Auth
begin

text \<open>
  Runs of the authentication manager, what a history of logins and logouts grants, and the
  properties of sessions and OAuth states.
\<close>

subsection \<open>Runs\<close>

datatype auth_ev =
    ACreate atime string string         \<comment> \<open>time, token, user\<close>
  | AInvalidate string
  | AValidate atime request
  | AStart atime string request         \<comment> \<open>time, state\<close>
  | ACallback atime oauth_world request

fun auth_step :: "auth_ev \<Rightarrow> auth_manager \<Rightarrow> auth_manager" where
  "auth_step (ACreate now tok u) am = snd (CreateSession now tok u am)"
| "auth_step (AInvalidate tok) am = InvalidateSession tok am"
| "auth_step (AValidate now r) am = (case snd (ValidateRequest now r (Some am)) of None \<Rightarrow> am | Some am' \<Rightarrow> am')"
| "auth_step (AStart now st r) am = (case snd (OAuthStartURL now st r (Some am)) of None \<Rightarrow> am | Some am' \<Rightarrow> am')"
| "auth_step (ACallback now w r) am = snd (HandleOAuthCallback now w r am)"

definition auth_run :: "auth_ev list \<Rightarrow> auth_manager \<Rightarrow> auth_manager" where
  "auth_run evs am = fold auth_step evs am"

lemma auth_run_snoc [simp]: "auth_run (evs @ [ev]) am = auth_step ev (auth_run evs am)"
  by (simp add: auth_run_def)

lemma auth_run_Nil [simp]: "auth_run [] am = am"
  by (simp add: auth_run_def)

subsection \<open>What a step leaves alone\<close>

definition settings :: "auth_manager \<Rightarrow> auth_config \<times> string \<times> string list \<times> string \<times> string" where
  "settings am = (amCfg am, amPassword am, amAllowedUsers am, amAuthURL am, amTokenURL am)"

lemma take_state_simps [simp]:
  "snd (take_state now st am) = am\<lparr>amOAuthStates := AList.delete st (amOAuthStates am)\<rparr>"
  by (simp add: take_state_def)

lemma callback_state:
  "snd (HandleOAuthCallback now w r am) =
     (if QueryGet (URLQuery r) ''code'' = [] \<or> QueryGet (URLQuery r) ''state'' = [] then am
      else snd (take_state now (QueryGet (URLQuery r) ''state'') am))"
proof -
  obtain good am' where t: "take_state now (QueryGet (URLQuery r) ''state'') am = (good, am')"
    by (cases "take_state now (QueryGet (URLQuery r) ''state'') am")
  then show ?thesis unfolding HandleOAuthCallback_def Let_def t
    by (simp add: t del: take_state_simps split: sum.split)
qed

lemma validate_state:
  "snd (ValidateRequest now r (Some am)) = Some am \<or>
   (snd (ValidateRequest now r (Some am)) = Some (InvalidateSession (session_cookie r) am)
    \<and> (\<exists>s. map_of (amSessions am) (session_cookie r) = Some s \<and> \<not> now < ssExpiresAt s))"
  by (auto simp: ValidateRequest_def Let_def split: option.split)

lemma start_state:
  "snd (OAuthStartURL now st r (Some am)) = Some (if AM_OAuthEnabled (Some am)
     then am\<lparr>amOAuthStates := filter (\<lambda>(s, exp). \<not> exp < now) (AList.update st (now + stateLifetime) (amOAuthStates am))\<rparr>
     else am)"
  by (simp add: OAuthStartURL_def Let_def)

lemma settings_step [simp]: "settings (auth_step ev am) = settings am"
proof (cases ev)
  case (AValidate now r)
  then show ?thesis using validate_state [of now r am] by (auto simp: settings_def InvalidateSession_def)
next
  case (ACallback now w r)
  then show ?thesis by (simp add: settings_def callback_state)
qed (simp_all add: settings_def CreateSession_def InvalidateSession_def start_state Let_def)

lemma settings_run [simp]: "settings (auth_run evs am) = settings am"
  by (induction evs rule: rev_induct) simp_all

lemma CheckPassword_run [simp]: "CheckPassword p (Some (auth_run evs am)) = CheckPassword p (Some am)"
  using settings_run [of evs am] by (simp add: settings_def CheckPassword_def)

lemma Enabled_run [simp]: "AM_Enabled (Some (auth_run evs am)) = AM_Enabled (Some am)"
  using settings_run [of evs am] by (simp add: settings_def AM_Enabled_def)

lemma OAuthEnabled_run [simp]: "AM_OAuthEnabled (Some (auth_run evs am)) = AM_OAuthEnabled (Some am)"
  using settings_run [of evs am] by (simp add: settings_def AM_OAuthEnabled_def)

subsection \<open>Sessions\<close>

text \<open>What a history grants: for every token its user and the time of its login, until it is
  invalidated.\<close>

fun grant_step :: "auth_ev \<Rightarrow> (string \<Rightarrow> (string \<times> atime) option) \<Rightarrow> (string \<Rightarrow> (string \<times> atime) option)" where
  "grant_step (ACreate now tok u) g = g(tok \<mapsto> (u, now))"
| "grant_step (AInvalidate tok) g = g(tok := None)"
| "grant_step _ g = g"

definition granted :: "auth_ev list \<Rightarrow> string \<Rightarrow> (string \<times> atime) option" where
  "granted evs = fold grant_step evs Map.empty"

lemma granted_snoc [simp]: "granted (evs @ [ev]) = grant_step ev (granted evs)"
  by (simp add: granted_def)

lemma granted_Nil [simp]: "granted [] = Map.empty"
  by (simp add: granted_def)

definition live :: "auth_ev list \<Rightarrow> atime \<Rightarrow> string \<Rightarrow> string option" where
  "live evs now tok = (case granted evs tok of
     None \<Rightarrow> None | Some (u, t) \<Rightarrow> if now < t + sessionDuration then Some u else None)"

text \<open>The clock does not run backwards past a validation.\<close>

definition checked_by :: "atime \<Rightarrow> auth_ev list \<Rightarrow> bool" where
  "checked_by now evs \<longleftrightarrow> (\<forall>t r. AValidate t r \<in> set evs \<longrightarrow> t \<le> now)"

text \<open>The sessions of the manager are the granted ones, except some that have expired.\<close>

definition sessions_match :: "atime \<Rightarrow> (string \<Rightarrow> (string \<times> atime) option) \<Rightarrow> auth_manager \<Rightarrow> bool" where
  "sessions_match now g am \<longleftrightarrow> (\<forall>tok.
     (case g tok of
        None \<Rightarrow> map_of (amSessions am) tok = None
      | Some (u, t) \<Rightarrow>
          (case map_of (amSessions am) tok of
             None \<Rightarrow> t + sessionDuration \<le> now
           | Some s \<Rightarrow> ssUser s = u \<and> ssExpiresAt s = t + sessionDuration)))"

lemma sessions_match_run:
  assumes "amSessions am = []" and "checked_by now evs"
  shows "sessions_match now (granted evs) (auth_run evs am)"
  using assms(2)
proof (induction evs rule: rev_induct)
  case Nil
  then show ?case by (simp add: sessions_match_def assms(1))
next
  case (snoc ev evs)
  let ?a = "auth_run evs am"
  have m: "sessions_match now (granted evs) ?a" using snoc by (auto simp: checked_by_def)
  show ?case
  proof (cases ev)
    case (ACreate t tok u)
    then show ?thesis using m by (simp add: sessions_match_def CreateSession_def Let_def update_conv' cong: option.case_cong)
  next
    case (AInvalidate tok)
    then show ?thesis using m by (simp add: sessions_match_def InvalidateSession_def delete_conv' cong: option.case_cong)
  next
    case (AValidate t r)
    have t: "t \<le> now" using snoc.prems AValidate by (auto simp: checked_by_def)
    show ?thesis
    proof (cases "snd (ValidateRequest t r (Some ?a)) = Some ?a")
      case True
      then show ?thesis using m AValidate by simp
    next
      case False
      then obtain s where v: "snd (ValidateRequest t r (Some ?a)) = Some (InvalidateSession (session_cookie r) ?a)"
          and s: "map_of (amSessions ?a) (session_cookie r) = Some s" "ssExpiresAt s \<le> t"
        using validate_state [of t r ?a] by auto
      have "case granted evs (session_cookie r) of None \<Rightarrow> False | Some (u, t') \<Rightarrow> ssExpiresAt s = t' + sessionDuration"
        using m s(1) unfolding sessions_match_def
        by (auto split: option.splits dest!: spec [of _ "session_cookie r"])
      then have e: "case granted evs (session_cookie r) of None \<Rightarrow> False | Some (u, t') \<Rightarrow> t' + sessionDuration \<le> now"
        using s(2) t by (auto split: option.splits)
      show ?thesis unfolding sessions_match_def
      proof
        fix tok
        show "case granted (evs @ [ev]) tok of None \<Rightarrow> map_of (amSessions (auth_run (evs @ [ev]) am)) tok = None
          | Some (u, t) \<Rightarrow> (case map_of (amSessions (auth_run (evs @ [ev]) am)) tok of
               None \<Rightarrow> t + sessionDuration \<le> now | Some s \<Rightarrow> ssUser s = u \<and> ssExpiresAt s = t + sessionDuration)"
        proof (cases "tok = session_cookie r")
          case True
          then show ?thesis using v e AValidate
            by (auto simp: InvalidateSession_def delete_conv' split: option.splits)
        next
          case False
          then have s1: "map_of (amSessions (auth_run (evs @ [ev]) am)) tok = map_of (amSessions ?a) tok"
            using v AValidate by (simp add: InvalidateSession_def delete_conv')
          have "granted (evs @ [ev]) tok = granted evs tok" using AValidate by simp
          then show ?thesis using m [unfolded sessions_match_def, THEN spec, of tok] by (simp only: s1)
        qed
      qed
    qed
  next
    case (AStart t st r)
    then show ?thesis using m by (simp add: sessions_match_def start_state cong: option.case_cong)
  next
    case (ACallback t w r)
    then show ?thesis using m by (simp add: sessions_match_def callback_state cong: option.case_cong)
  qed
qed

lemma session_user_live:
  assumes "amSessions am = []" and "checked_by now evs"
  shows "session_user now tok (auth_run evs am) = live evs now tok"
proof -
  have "case granted evs tok of None \<Rightarrow> map_of (amSessions (auth_run evs am)) tok = None
      | Some (u, t) \<Rightarrow> (case map_of (amSessions (auth_run evs am)) tok of
          None \<Rightarrow> t + sessionDuration \<le> now | Some s \<Rightarrow> ssUser s = u \<and> ssExpiresAt s = t + sessionDuration)"
    using sessions_match_run [OF assms] unfolding sessions_match_def by blast
  then show ?thesis
    by (auto simp: session_user_def live_def split: option.splits)
qed

definition am_core :: "auth_manager \<Rightarrow> _" where
  "am_core a = (amSessions a, amOAuthStates a, amCfg a, amPassword a, amAllowedUsers a)"

lemma resolve_core: "am_core (resolveOAuthEndpoints disc a) = am_core a"
proof -
  have "am_core (provider_endpoints a) = am_core a" for a
    by (simp add: provider_endpoints_def am_core_def Let_def)
  moreover have "am_core (configured_scopes a) = am_core a" for a
    by (simp add: configured_scopes_def am_core_def Let_def)
  moreover have "am_core (discover_endpoints disc a) = am_core a" for a
    by (simp add: discover_endpoints_def am_core_def Let_def split: option.split prod.split)
  ultimately show ?thesis by (simp add: resolveOAuthEndpoints_def)
qed

lemma New_sessions:
  assumes "NewAuthManager rd disc cfg = Inr am"
  shows "amSessions am = [] \<and> amOAuthStates am = [] \<and> amCfg am = cfg \<and> PasswordValue rd cfg = Inr (amPassword am)
    \<and> amAllowedUsers am = map (\<lambda>u. ToLower (TrimSpace u)) (oaAllowedUsers (acOAuth cfg))"
proof -
  have "am_core (resolveOAuthEndpoints disc a) = am_core a" for a by (rule resolve_core)
  then show ?thesis using assms
    by (auto simp: NewAuthManager_def Let_def am_core_def split: sum.splits if_splits)
qed

text \<open>The credentials a request carries.\<close>

definition presents_password :: "string \<Rightarrow> request \<Rightarrow> bool" where
  "presents_password pw r \<longleftrightarrow> pw \<noteq> [] \<and> (\<exists>scheme rest. SplitN2 (Header r ''Authorization'') (CHR '' '') = [scheme, rest] \<and>
     (ToLower scheme = ''bearer'' \<and> TrimSpace rest = pw
      \<or> ToLower scheme = ''basic'' \<and> (\<exists>u. BasicAuth (Header r ''Authorization'') = Some (u, pw))))"

definition presents_token :: "(string \<Rightarrow> string option) \<Rightarrow> request \<Rightarrow> bool" where
  "presents_token good r \<longleftrightarrow>
     (\<exists>scheme rest. SplitN2 (Header r ''Authorization'') (CHR '' '') = [scheme, rest] \<and> ToLower scheme = ''bearer''
        \<and> good (TrimSpace rest) \<noteq> None)
     \<or> (session_cookie r \<noteq> [] \<and> good (session_cookie r) \<noteq> None)"

lemma header_user_iff:
  "(header_user now r am \<noteq> None \<longleftrightarrow> presents_password (amPassword am) r
     \<or> (\<exists>scheme rest. SplitN2 (Header r ''Authorization'') (CHR '' '') = [scheme, rest] \<and> ToLower scheme = ''bearer''
        \<and> session_user now (TrimSpace rest) am \<noteq> None))"
proof (cases "\<exists>scheme rest. SplitN2 (Header r ''Authorization'') (CHR '' '') = [scheme, rest]")
  case True
  then obtain scheme rest where s: "SplitN2 (Header r ''Authorization'') (CHR '' '') = [scheme, rest]" by blast
  show ?thesis
    unfolding header_user_def presents_password_def s
    by (auto simp: CheckPassword_def split: option.splits)
next
  case False
  then have "header_user now r am = None"
    by (auto simp: header_user_def split: list.splits)
  with False show ?thesis by (auto simp: presents_password_def)
qed

lemma validate_iff:
  assumes "NewAuthManager rd disc cfg = Inr am" and "Auth_Enabled cfg" and "checked_by now evs"
  shows "fst (ValidateRequest now r (Some (auth_run evs am))) \<noteq> None \<longleftrightarrow>
     presents_password (projr (PasswordValue rd cfg)) r \<or> presents_token (live evs now) r"
proof -
  let ?a = "auth_run evs am"
  have n: "amSessions am = []" "amCfg am = cfg" "PasswordValue rd cfg = Inr (amPassword am)"
    using New_sessions [OF assms(1)] by simp_all
  have en: "AM_Enabled (Some ?a)" using assms(2) n(2) by (simp add: AM_Enabled_def [of "Some am"])
  have pw: "amPassword ?a = amPassword am" using settings_run [of evs am] by (simp add: settings_def)
  have u: "session_user now tok ?a = live evs now tok" for tok by (rule session_user_live [OF n(1) assms(3)])
  have c: "fst (ValidateRequest now r (Some ?a)) \<noteq> None \<longleftrightarrow> header_user now r ?a \<noteq> None
      \<or> (session_cookie r \<noteq> [] \<and> session_user now (session_cookie r) ?a \<noteq> None)"
    using en by (auto simp: ValidateRequest_def session_user_def Let_def split: option.split)
  show ?thesis unfolding c header_user_iff u pw n(3) presents_token_def by auto
qed


definition demo_auth :: auth_config where
  "demo_auth = no_auth\<lparr>acPassword := ''s3cret''\<rparr>"

definition demo_request :: "string \<Rightarrow> string \<Rightarrow> request" where
  "demo_request meth path = \<lparr>rqMethod = meth, rqPath = path, rqRawQuery = [], rqHost = ''localhost'', rqTLS = False,
     rqHeaders = [], rqCookies = [], rqBody = []\<rparr>"

abbreviation with_cookie :: "string \<Rightarrow> request \<Rightarrow> request" where
  "with_cookie tok r \<equiv> r\<lparr>rqCookies := [(sessionCookieName, tok)]\<rparr>"

definition no_reader :: reader where
  "no_reader f = Inl ''no such file''"

definition demo_am :: auth_manager where
  "demo_am = projr (NewAuthManager no_reader (\<lambda>_. None) demo_auth)"

lemma demo_am: "NewAuthManager no_reader (\<lambda>_. None) demo_auth = Inr demo_am" "Auth_Enabled demo_auth"
  by (simp_all add: demo_am_def NewAuthManager_def PasswordValue_def ClientSecretValue_def demo_auth_def no_auth_def
      no_oauth_def OAuth_Enabled_def Auth_Enabled_def)


subsection \<open>OAuth states\<close>

text \<open>What a history leaves pending: a state from the start of a login until its first use.\<close>

fun pend_step :: "bool \<Rightarrow> auth_ev \<Rightarrow> (string \<Rightarrow> atime option) \<Rightarrow> (string \<Rightarrow> atime option)" where
  "pend_step on (AStart now st r) p = (if on then p(st \<mapsto> now) else p)"
| "pend_step on (ACallback now w r) p =
     (if QueryGet (URLQuery r) ''code'' = [] \<or> QueryGet (URLQuery r) ''state'' = [] then p
      else p(QueryGet (URLQuery r) ''state'' := None))"
| "pend_step on _ p = p"

definition pending :: "bool \<Rightarrow> auth_ev list \<Rightarrow> string \<Rightarrow> atime option" where
  "pending on evs = fold (pend_step on) evs Map.empty"

lemma pending_snoc [simp]: "pending on (evs @ [ev]) = pend_step on ev (pending on evs)"
  by (simp add: pending_def)

lemma map_of_filter_Some:
  "distinct (map fst xs) \<Longrightarrow> map_of (filter P xs) k = Some v \<Longrightarrow> map_of xs k = Some v"
  by (metis distinct_map_filter map_of_SomeD map_of_is_SomeI filter_is_subset subsetD)

lemma states_pending:
  assumes "amOAuthStates am = []"
  shows "distinct (map fst (amOAuthStates (auth_run evs am)))
    \<and> (\<forall>st exp. map_of (amOAuthStates (auth_run evs am)) st = Some exp \<longrightarrow>
         (\<exists>t. pending (AM_OAuthEnabled (Some am)) evs st = Some t \<and> exp = t + stateLifetime))"
proof (induction evs rule: rev_induct)
  case Nil
  then show ?case by (simp add: assms)
next
  case (snoc ev evs)
  let ?a = "auth_run evs am"
  show ?case
  proof (cases ev)
    case (AValidate now r)
    have "amOAuthStates (auth_step ev ?a) = amOAuthStates ?a"
      using validate_state [of now r ?a] AValidate by (auto simp: InvalidateSession_def)
    then show ?thesis using snoc AValidate by simp
  next
    case (AStart now st r)
    show ?thesis
    proof (cases "AM_OAuthEnabled (Some am)")
      case True
      let ?u = "AList.update st (now + stateLifetime) (amOAuthStates ?a)"
      have d: "distinct (map fst ?u)" using snoc by (simp add: distinct_update)
      have e: "amOAuthStates (auth_step ev ?a) = filter (\<lambda>(s, exp). \<not> exp < now) ?u"
        using True by (simp add: AStart start_state)
      have "\<exists>t. pending True (evs @ [ev]) x = Some t \<and> exp = t + stateLifetime"
        if "map_of (filter (\<lambda>(s, exp). \<not> exp < now) ?u) x = Some exp" for x exp
        using map_of_filter_Some [OF d that] snoc True by (auto simp: AStart update_conv' split: if_splits)
      then show ?thesis using e d True by (simp add: distinct_map_filter)
    next
      case False
      then show ?thesis using snoc by (simp add: AStart start_state)
    qed
  next
    case (ACallback now w r)
    then show ?thesis using snoc 
      by (auto simp: callback_state delete_conv' distinct_delete split: if_splits simp del: map_of_eq_Some_iff)
  qed (use snoc in \<open>simp_all add: CreateSession_def InvalidateSession_def Let_def\<close>)
qed

text \<open>C12: Logging in through OAuth: a callback is accepted only with a state that a login start of this
  server issued at most ten minutes before and that no callback has used since, and it only yields a
  user on the list of allowed users, when there is one.\<close>

theorem OAuth_callback_correct:
  assumes "NewAuthManager rd disc cfg = Inr am"
    and "fst (HandleOAuthCallback now w r (auth_run evs am)) = Inr user"
  shows "(\<exists>t. pending (AM_OAuthEnabled (Some am)) evs (QueryGet (URLQuery r) ''state'') = Some t \<and> now \<le> t + stateLifetime)
    \<and> (oaAllowedUsers (acOAuth cfg) \<noteq> [] \<longrightarrow>
         ToLower user \<in> (\<lambda>u. ToLower (TrimSpace u)) ` set (oaAllowedUsers (acOAuth cfg)))
    \<and> pending (AM_OAuthEnabled (Some am)) (evs @ [ACallback now w r]) (QueryGet (URLQuery r) ''state'') = None"
proof -
  let ?a = "auth_run evs am" and ?st = "QueryGet (URLQuery r) ''state''"
  have n: "amOAuthStates am = []" "amAllowedUsers am = map (\<lambda>u. ToLower (TrimSpace u)) (oaAllowedUsers (acOAuth cfg))"
    using New_sessions [OF assms(1)] by simp_all
  have al: "amAllowedUsers ?a = amAllowedUsers am" using settings_run [of evs am] by (simp add: settings_def)
  have ne: "QueryGet (URLQuery r) ''code'' \<noteq> []" "?st \<noteq> []"
    using assms(2) by (auto simp: HandleOAuthCallback_def Let_def split: if_splits)
  obtain good am' where t: "take_state now ?st ?a = (good, am')" by (cases "take_state now ?st ?a")
  have ok: "good" "amAllowedUsers am' = [] \<or> ToLower user \<in> set (amAllowedUsers am')"
    using assms(2) ne by (auto simp: HandleOAuthCallback_def Let_def t split: if_splits sum.splits)
  obtain exp where e: "map_of (amOAuthStates ?a) ?st = Some exp" "now \<le> exp"
    using t ok(1) by (auto simp: take_state_def split: option.splits)
  have "am' = snd (take_state now ?st ?a)" using t by simp
  then have "amAllowedUsers am' = amAllowedUsers am" using al by simp
  then show ?thesis using e states_pending [OF n(1), of evs] ok(2) n(2) ne
    by (auto simp del: map_of_eq_Some_iff)
qed

definition demo_oauth :: auth_config where
  "demo_oauth = no_auth\<lparr>acOAuth := no_oauth\<lparr>oaClientID := ''id'', oaClientSecret := ''sec'', oaProvider := ''github'',
     oaAllowedUsers := ['' Ann '']\<rparr>\<rparr>"

definition demo_oauth_am :: auth_manager where
  "demo_oauth_am = projr (NewAuthManager no_reader (\<lambda>_. None) demo_oauth)"

definition demo_world :: oauth_world where
  "demo_world = \<lparr>owToken = (\<lambda>_ _. HttpReply 200 (''{'' @ json_string ''access_token'' @ '':'' @ json_string ''tok'' @ ''}'')),
     owUser = (\<lambda>_ _. HttpReply 200 (''{'' @ json_string ''login'' @ '':'' @ json_string ''ann'' @ ''}''))\<rparr>"

definition demo_callback :: request where
  "demo_callback = (demo_request ''GET'' ''/auth/callback'')\<lparr>rqRawQuery := ''code=c&state=st''\<rparr>"

theorem OAuth_callback_correct_witness:
  "fst (HandleOAuthCallback 100 demo_world demo_callback (auth_run [AStart 0 ''st'' (demo_request ''GET'' ''/auth/oauth/start'')] demo_oauth_am)) = Inr ''ann''
   \<and> pending True [AStart 0 ''st'' (demo_request ''GET'' ''/auth/oauth/start''), ACallback 100 demo_world demo_callback] ''st'' = None"
proof -
  have n: "NewAuthManager no_reader (\<lambda>_. None) demo_oauth = Inr demo_oauth_am"
    by (simp add: demo_oauth_am_def NewAuthManager_def PasswordValue_def ClientSecretValue_def demo_oauth_def no_auth_def
      no_oauth_def OAuth_Enabled_def)
  have ok: "fst (HandleOAuthCallback 100 demo_world demo_callback (auth_run [AStart 0 ''st'' (demo_request ''GET'' ''/auth/oauth/start'')] demo_oauth_am)) = Inr ''ann''"
    by code_simp
  have "AM_OAuthEnabled (Some demo_oauth_am)" "QueryGet (URLQuery demo_callback) ''state'' = ''st''" by code_simp+
  then show ?thesis using OAuth_callback_correct [OF n ok] ok by simp
qed

end
