(* ===== verification/Server.thy ===== *)
theory Server
  imports QueueProps AuthProps
begin

text \<open>
  \<open>internal/daemon/server.go\<close>: the HTTP API of the daemon and the authentication in front of it. A
  handler takes the world of its request (clock, random token, provider, files and what else lies
  outside), the path value \<open>{id}\<close>, the request and the server, and gives the response and the new
  server; \<open>None\<close> is a panic (a send on a closed channel). A handler runs as one step, as each makes
  at most one change of the queue, whose own goroutines interleave between the requests.
  A streaming handler is split: the step that opens the stream, one step per item it sends, and the
  step that closes it when the client has gone.

  The body \<open>writeJSON\<close> encodes is kept as the value; a redirect keeps the target it was given. The
  file server of the embedded web page is a function of the request.
\<close>

subsection \<open>Responses\<close>

datatype body =
    BEmpty
  | BError errtext                          \<comment> \<open>\<open>writeError\<close>\<close>
  | BPlain string                           \<comment> \<open>\<open>http.Error\<close>\<close>
  | BFields "(string \<times> string) list"
  | BQueueStatus queue_status
  | BConcurrency int
  | BJob job
  | BJobs "job list"
  | BBatch batch_result
  | BLogs "job_log list"
  | BConfig string string config
  | BMe bool bool string bool bool string
  | BHtml "string list"                     \<comment> \<open>the parts after the fixed head of the page\<close>
  | BLogStream nat "job_log list"           \<comment> \<open>the channel subscribed to, and the lines sent first\<close>
  | BEventStream nat "string list"

record response =
  rpStatus :: int
  rpHeaders :: "(string \<times> string) list"
  rpCookies :: "cookie list"
  rpLocation :: "string option"
  rpBody :: body

definition writeJSON :: "int \<Rightarrow> body \<Rightarrow> response" where
  "writeJSON status b = \<lparr>rpStatus = status, rpHeaders = [(''Content-Type'', ''application/json'')],
     rpCookies = [], rpLocation = None, rpBody = b\<rparr>"

definition writeError :: "int \<Rightarrow> errtext \<Rightarrow> response" where
  "writeError status msg = writeJSON status (BError msg)"

definition http_Error :: "string \<Rightarrow> int \<Rightarrow> response" where
  "http_Error msg status = \<lparr>rpStatus = status, rpHeaders = [(''Content-Type'', ''text/plain; charset=utf-8'')],
     rpCookies = [], rpLocation = None, rpBody = BPlain msg\<rparr>"

definition Redirect :: "string \<Rightarrow> int \<Rightarrow> response" where
  "Redirect target status = \<lparr>rpStatus = status, rpHeaders = [], rpCookies = [], rpLocation = Some target, rpBody = BEmpty\<rparr>"

definition with_set_cookie :: "cookie \<Rightarrow> response \<Rightarrow> response" where
  "with_set_cookie c rp = rp\<lparr>rpCookies := rpCookies rp @ [c]\<rparr>"

definition event_stream_headers :: "(string \<times> string) list" where
  "event_stream_headers = [(''Content-Type'', ''text/event-stream''), (''Cache-Control'', ''no-cache''),
     (''Connection'', ''keep-alive'')]"

subsection \<open>State\<close>

text \<open>The channels of the event streams, numbered as they are made; all hold ten events.\<close>

record evchan =
  evBuf :: "string list"
  evClosed :: bool

record server =
  svQueue :: queue
  svCfg :: config
  svConfigPath :: string
  svConfigFile :: "string option"           \<comment> \<open>the content of the file at that path\<close>
  svWeb :: "(request \<Rightarrow> response) option"
  svAuth :: "auth_manager option"
  svEventSub :: "nat list"
  svEventChans :: "evchan list"

record world =
  wNow :: int
  wToken :: string                           \<comment> \<open>the random text drawn\<close>
  wMethods :: registry
  wProbe :: "string \<Rightarrow> bool"                 \<comment> \<open>\<open>git.ProbeHTTP\<close>\<close>
  wOAuth :: oauth_world
  wDiscovery :: discovery
  wEnv :: env
  wReader :: reader
  wToml :: "string \<Rightarrow> toml_result"           \<comment> \<open>the decoder on the text of a file\<close>
  wTmpFile :: "string + string"
  wTmpWrite :: "string option"
  wMkdir :: "string option"
  wWrite :: "(string \<times> string option) option"   \<comment> \<open>an error, and what it left of the file\<close>
  wFlusher :: bool

type_synonym handler = "world \<Rightarrow> string \<Rightarrow> request \<Rightarrow> server \<Rightarrow> (response \<times> server) option"

definition NewServer :: "reader \<Rightarrow> discovery \<Rightarrow> queue \<Rightarrow> config \<Rightarrow> string \<Rightarrow> string option \<Rightarrow> (request \<Rightarrow> response) option \<Rightarrow> server" where
  "NewServer rd disc q cfg configPath file web =
    \<lparr>svQueue = q, svCfg = cfg, svConfigPath = configPath, svConfigFile = file, svWeb = web,
     svAuth = (case NewAuthManager rd disc (dcAuth (cfgDaemon cfg)) of Inl _ \<Rightarrow> None | Inr am \<Rightarrow> Some am),
     svEventSub = [], svEventChans = []\<rparr>"

subsection \<open>Events\<close>

definition event_send :: "string \<Rightarrow> nat \<Rightarrow> evchan list \<Rightarrow> evchan list option" where
  "event_send ev c cs =
    (if evClosed (cs ! c) then None
     else if length (evBuf (cs ! c)) < 10 then Some (cs[c := (cs ! c)\<lparr>evBuf := evBuf (cs ! c) @ [ev]\<rparr>])
     else Some cs)"

fun event_fan_out :: "string \<Rightarrow> nat list \<Rightarrow> evchan list \<Rightarrow> evchan list option" where
  "event_fan_out ev [] cs = Some cs"
| "event_fan_out ev (c # subs) cs = (case event_send ev c cs of None \<Rightarrow> None | Some cs' \<Rightarrow> event_fan_out ev subs cs')"

definition broadcastEvent :: "string \<Rightarrow> server \<Rightarrow> server option" where
  "broadcastEvent ev s = map_option (\<lambda>cs. s\<lparr>svEventChans := cs\<rparr>) (event_fan_out ev (svEventSub s) (svEventChans s))"

text \<open>A handler that broadcasts an event and then answers.\<close>

definition after_event :: "string \<Rightarrow> response \<Rightarrow> server \<Rightarrow> (response \<times> server) option" where
  "after_event ev rp s = map_option (\<lambda>s'. (rp, s')) (broadcastEvent ev s)"

definition handleStreamEvents :: handler where
  "handleStreamEvents w i r s =
    (if \<not> wFlusher w then Some (http_Error ''streaming unsupported'' 500, s)
     else (let ch = length (svEventChans s) in
       Some (\<lparr>rpStatus = 200, rpHeaders = event_stream_headers, rpCookies = [], rpLocation = None,
               rpBody = BEventStream ch [''connected'']\<rparr>,
             s\<lparr>svEventSub := svEventSub s @ [ch], svEventChans := svEventChans s @ [\<lparr>evBuf = [], evClosed = False\<rparr>]\<rparr>)))"

text \<open>The turns of its loop: the next event, or a heartbeat with the status; and its end.\<close>

definition event_stream_next :: "nat \<Rightarrow> server \<Rightarrow> string option \<times> server" where
  "event_stream_next ch s = (case evBuf (svEventChans s ! ch) of
     [] \<Rightarrow> (None, s)
   | ev # evs \<Rightarrow> (Some ev, s\<lparr>svEventChans := (svEventChans s)[ch := (svEventChans s ! ch)\<lparr>evBuf := evs\<rparr>]\<rparr>))"

definition on_queue :: "(queue \<Rightarrow> 'a \<times> queue) \<Rightarrow> server \<Rightarrow> 'a \<times> server" where
  "on_queue op s = (case op (svQueue s) of (x, q) \<Rightarrow> (x, s\<lparr>svQueue := q\<rparr>))"

definition event_stream_tick :: "world \<Rightarrow> server \<Rightarrow> queue_status option \<times> server" where
  "event_stream_tick w s = (case on_queue (GetStatus (wNow w)) s of
     (Inl _, s1) \<Rightarrow> (None, s1) | (Inr st, s1) \<Rightarrow> (Some st, s1))"

definition event_stream_close :: "nat \<Rightarrow> server \<Rightarrow> server option" where
  "event_stream_close ch s =
    (let s1 = s\<lparr>svEventSub := removeAll ch (svEventSub s)\<rparr> in
     if evClosed (svEventChans s1 ! ch) then None
     else Some (s1\<lparr>svEventChans := (svEventChans s1)[ch := (svEventChans s1 ! ch)\<lparr>evClosed := True\<rparr>]\<rparr>))"

subsection \<open>The queue\<close>

definition status_reply :: "string \<Rightarrow> response" where
  "status_reply st = writeJSON 200 (BFields [(''status'', st)])"

definition error_reply :: "int \<Rightarrow> err \<Rightarrow> response" where
  "error_reply status e = writeError status (Txt (err_text e))"

definition parseJobID :: "string \<Rightarrow> string + int" where
  "parseJobID idStr = (case Atoi idStr of (n, ok) \<Rightarrow>
     if ok then Inr n else Inl (''invalid job ID: '' @ Quote idStr))"

definition handleQueueStatus :: handler where
  "handleQueueStatus w i r s = (case on_queue (GetStatus (wNow w)) s of
     (Inl e, s1) \<Rightarrow> Some (error_reply 500 e, s1)
   | (Inr st, s1) \<Rightarrow> Some (writeJSON 200 (BQueueStatus st), s1))"

definition handleQueuePause :: handler where
  "handleQueuePause w i r s = (case on_queue PauseQueue s of
     (Inl e, s1) \<Rightarrow> Some (error_reply 500 e, s1)
   | (Inr _, s1) \<Rightarrow> after_event ''queue:paused'' (status_reply ''paused'') s1)"

definition handleQueueResume :: handler where
  "handleQueueResume w i r s = (case on_queue ResumeQueue s of
     (Inl e, s1) \<Rightarrow> Some (error_reply 500 e, s1)
   | (Inr _, s1) \<Rightarrow> after_event ''queue:resumed'' (status_reply ''resumed'') s1)"

text \<open>The integer field of a body that is a struct; \<open>None\<close> is an error of the decoder.\<close>

definition decode_int :: "string \<Rightarrow> string \<Rightarrow> int option" where
  "decode_int name bdy = (case struct_members bdy of
     None \<Rightarrow> None
   | Some ms \<Rightarrow> if snd (int_field name ms) then Some (fst (int_field name ms)) else None)"

definition handleQueueConcurrency :: handler where
  "handleQueueConcurrency w i r s =
    (case decode_int ''concurrency'' (rqBody r) of
       None \<Rightarrow> Some (writeError 400 (TxtThen ''invalid request body: ''), s)
     | Some n \<Rightarrow>
        (if n < 1 then Some (writeError 400 (Txt ''concurrency must be at least 1''), s)
         else (case on_queue (SetConcurrency n) s of
            (Inl e, s1) \<Rightarrow> Some (error_reply 500 e, s1)
          | (Inr _, s1) \<Rightarrow> after_event (''concurrency:'' @ itoa n) (writeJSON 200 (BConcurrency n)) s1)))"

subsection \<open>Listing and batches\<close>

definition list_filter :: "(string \<times> string) list \<Rightarrow> job_filter" where
  "list_filter q =
    \<lparr>fStates = (if QueryGet q ''state'' \<noteq> []
                then filter Valid (map TrimSpace (Split (QueryGet q ''state'') (CHR '','')))
                else []),
     fMethod = QueryGet q ''method'', fSite = QueryGet q ''site'', fPrefix = QueryGet q ''prefix'',
     fOrderBy = QueryGet q ''order_by'',
     fLimit = (if QueryGet q ''limit'' \<noteq> [] then fst (Atoi (QueryGet q ''limit'')) else 0),
     fOffset = (if QueryGet q ''offset'' \<noteq> [] then fst (Atoi (QueryGet q ''offset'')) else 0)\<rparr>"

definition handleListJobs :: handler where
  "handleListJobs w i r s = (case on_queue (on_store (ListJobs (list_filter (URLQuery r)))) s of
     (Inl e, s1) \<Rightarrow> Some (error_reply 500 e, s1)
   | (Inr js, s1) \<Rightarrow> Some (writeJSON 200 (BJobs js), s1))"

definition decode_batch :: "string \<Rightarrow> batch_request option" where
  "decode_batch bdy = (case struct_members bdy of
     None \<Rightarrow> None
   | Some ms \<Rightarrow>
      (if snd (string_field ''action'' ms) \<and> snd (string_field ''prefix'' ms) \<and> snd (ints_field ''ids'' ms)
          \<and> snd (string_field ''reason'' ms)
       then Some \<lparr>bAction = fst (string_field ''action'' ms), bPrefix = fst (string_field ''prefix'' ms),
                  bIDs = fst (ints_field ''ids'' ms), bReason = fst (string_field ''reason'' ms)\<rparr>
       else None))"

definition handleBatchJobs :: handler where
  "handleBatchJobs w i r s =
    (case decode_batch (rqBody r) of
       None \<Rightarrow> Some (writeError 400 (TxtThen ''invalid JSON: ''), s)
     | Some req \<Rightarrow>
        (if bAction req = [] then Some (writeError 400 (Txt ''missing action in batch request''), s)
         else (case on_queue (BatchJobs (wNow w) req) s of
            (Inl e, s1) \<Rightarrow> Some (error_reply 500 e, s1)
          | (Inr res, s1) \<Rightarrow> after_event (''jobs:batch:'' @ bAction req) (writeJSON 200 (BBatch res)) s1)))"

subsection \<open>Submitting a job\<close>

definition decode_submit :: "string \<Rightarrow> submit_request option" where
  "decode_submit bdy = (case struct_members bdy of
     None \<Rightarrow> None
   | Some ms \<Rightarrow>
      (if snd (string_field ''method'' ms) \<and> snd (string_field ''source'' ms) \<and> snd (string_field ''dest_dir'' ms)
          \<and> snd (smap_field ''flags'' ms) \<and> snd (int_field ''priority'' ms)
       then Some \<lparr>sMethod = fst (string_field ''method'' ms), sSource = fst (string_field ''source'' ms),
                  sDestDir = fst (string_field ''dest_dir'' ms), sFlags = fst (smap_field ''flags'' ms),
                  sPriority = fst (int_field ''priority'' ms)\<rparr>
       else None))"

text \<open>The method: detected from the source when none is given, else it must be registered.\<close>

definition choose_method :: "world \<Rightarrow> submit_request \<Rightarrow> string + string" where
  "choose_method w req =
    (if sMethod req = [] then
       (case Detect (wMethods w) (sSource req) of
          Some m \<Rightarrow> Inr (if mName m = ''http'' \<and> wProbe w (sSource req) then ''git'' else mName m)
        | None \<Rightarrow> Inl (''cannot auto-detect mirror method for source '' @ Quote (sSource req) @ ''; specify method''))
     else if GetMethod (wMethods w) (sMethod req) = None then Inl (''unknown mirror method '' @ Quote (sMethod req))
     else Inr (sMethod req))"

definition fill_dest :: "registry \<Rightarrow> config \<Rightarrow> string \<Rightarrow> submit_request \<Rightarrow> string + string" where
  "fill_dest reg cfg meth req =
    (let mc = map_of (cfgMethods cfg) meth in
     if sDestDir req \<noteq> [] then Inr (sDestDir req)
     else if mc \<noteq> None \<and> mcDestDir (the mc) \<noteq> [] then Inr (mcDestDir (the mc))
     else if cfgDestDir cfg \<noteq> [] then
       (case GetMethod reg meth of
          None \<Rightarrow> Inr (cfgDestDir cfg)
        | Some m \<Rightarrow>
           (case mSubdir m of
              None \<Rightarrow> Inr (cfgDestDir cfg)
            | Some f \<Rightarrow> (let sub = f (sSource req) in
                if sub \<noteq> [] \<and> IsLocal sub then Inr (JoinPath [cfgDestDir cfg, sub]) else Inr (cfgDestDir cfg))))
     else Inl ''no destination directory given and no default destdir configured'')"

definition merge_flags :: "(string \<times> string) list \<Rightarrow> smap \<Rightarrow> smap" where
  "merge_flags defaults given = foldl (\<lambda>m (k, v). if map_of m k = None then smap_put k v m else m) given defaults"

definition method_flags :: "config \<Rightarrow> string \<Rightarrow> (string \<times> string) list" where
  "method_flags cfg meth = (case map_of (cfgMethods cfg) meth of None \<Rightarrow> [] | Some mc \<Rightarrow> mcFlags mc)"

definition prepare_submit :: "world \<Rightarrow> config \<Rightarrow> submit_request \<Rightarrow> string + submit_request" where
  "prepare_submit w cfg req =
    (case choose_method w req of
       Inl e \<Rightarrow> Inl e
     | Inr meth \<Rightarrow>
        (case fill_dest (wMethods w) cfg meth req of
           Inl e \<Rightarrow> Inl e
         | Inr dest \<Rightarrow>
             Inr (req\<lparr>sMethod := meth, sDestDir := dest, sFlags := merge_flags (method_flags cfg meth) (sFlags req)\<rparr>)))"

definition handleSubmitJob :: handler where
  "handleSubmitJob w i r s =
    (case decode_submit (rqBody r) of
       None \<Rightarrow> Some (writeError 400 (TxtThen ''invalid JSON: ''), s)
     | Some req \<Rightarrow>
        (case Validate req of
           Inl e \<Rightarrow> Some (error_reply 400 e, s)
         | Inr _ \<Rightarrow>
            (case prepare_submit w (svCfg s) req of
               Inl e \<Rightarrow> Some (writeError 400 (Txt e), s)
             | Inr req' \<Rightarrow>
                (case on_queue (Enqueue (wNow w) req') s of
                   (Inl e, s1) \<Rightarrow> Some (error_reply 500 e, s1)
                 | (Inr job, s1) \<Rightarrow> after_event (''job:enqueued:'' @ itoa (jID job)) (writeJSON 201 (BJob job)) s1))))"

subsection \<open>One job\<close>

definition with_id :: "string \<Rightarrow> server \<Rightarrow> (int \<Rightarrow> (response \<times> server) option) \<Rightarrow> (response \<times> server) option" where
  "with_id idStr s k = (case parseJobID idStr of
     Inl e \<Rightarrow> Some (writeError 400 (Txt e), s) | Inr n \<Rightarrow> k n)"

text \<open>The handlers that run an operation of the queue on the job and answer with its new status: \<open>code\<close>
  is the status of their errors, \<open>ev\<close> the event they broadcast.\<close>

definition job_action :: "(int \<Rightarrow> queue \<Rightarrow> 'a result \<times> queue) \<Rightarrow> int \<Rightarrow> string \<Rightarrow> ('a \<Rightarrow> response) \<Rightarrow> string \<Rightarrow> server \<Rightarrow> (response \<times> server) option" where
  "job_action op code ev reply idStr s = with_id idStr s (\<lambda>n.
     case on_queue (op n) s of
       (Inl e, s1) \<Rightarrow> Some (error_reply code e, s1)
     | (Inr x, s1) \<Rightarrow> after_event (''job:'' @ ev @ '':'' @ itoa n) (reply x) s1)"

definition handleGetJob :: handler where
  "handleGetJob w i r s = with_id i s (\<lambda>n.
     case on_queue (on_store (GetJob n)) s of
       (Inl ErrJobNotFound, s1) \<Rightarrow> Some (writeError 404 (Txt ''job not found''), s1)
     | (Inl e, s1) \<Rightarrow> Some (error_reply 500 e, s1)
     | (Inr job, s1) \<Rightarrow> Some (writeJSON 200 (BJob job), s1))"

definition handleCancelJob :: handler where
  "handleCancelJob w i r s =
    job_action (CancelQueueJob (wNow w)) 500 ''cancelled'' (\<lambda>_. status_reply ''cancelled'') i s"

definition handlePauseJob :: handler where
  "handlePauseJob w i r s = job_action PauseQueueJob 400 ''paused'' (\<lambda>_. status_reply ''paused'') i s"

definition handleResumeJob :: handler where
  "handleResumeJob w i r s = job_action ResumeQueueJob 400 ''resumed'' (\<lambda>_. status_reply ''resumed'') i s"

definition handleRetryJob :: handler where
  "handleRetryJob w i r s = job_action RetryQueueJob 500 ''retried'' (\<lambda>job. writeJSON 200 (BJob job)) i s"

text \<open>The error of the decoder is ignored; what it decoded is used.\<close>

definition decoded_string :: "string \<Rightarrow> string \<Rightarrow> string" where
  "decoded_string name bdy = (case struct_members bdy of None \<Rightarrow> [] | Some ms \<Rightarrow> fst (string_field name ms))"

definition quarantine_reason :: "string \<Rightarrow> string" where
  "quarantine_reason bdy = (let reason = decoded_string ''reason'' bdy in
     if reason = [] then ''manual quarantine via API'' else reason)"

definition handleQuarantineJob :: handler where
  "handleQuarantineJob w i r s =
    job_action (\<lambda>n. QuarantineQueueJob (wNow w) n (quarantine_reason (rqBody r))) 500 ''quarantined''
      (\<lambda>_. status_reply ''quarantined'') i s"

definition handleUnquarantineJob :: handler where
  "handleUnquarantineJob w i r s =
    job_action UnquarantineQueueJob 400 ''unquarantined'' (\<lambda>_. status_reply ''unquarantined'') i s"

definition handleDeleteJob :: handler where
  "handleDeleteJob w i r s =
    job_action (\<lambda>n. on_store (DeleteJob n)) 400 ''deleted'' (\<lambda>_. status_reply ''deleted'') i s"

definition handleGetLogs :: handler where
  "handleGetLogs w i r s = with_id i s (\<lambda>n.
     case on_queue (on_store (GetLogs n (fst (Atoi (QueryGet (URLQuery r) ''limit''))) (fst (Atoi (QueryGet (URLQuery r) ''offset''))))) s of
       (Inl e, s1) \<Rightarrow> Some (error_reply 500 e, s1)
     | (Inr logs, s1) \<Rightarrow> Some (writeJSON 200 (BLogs logs), s1))"

definition on_hub :: "(hub \<Rightarrow> 'a \<times> hub) \<Rightarrow> server \<Rightarrow> 'a \<times> server" where
  "on_hub op s = (case op (qHub (svQueue s)) of (x, h) \<Rightarrow> (x, s\<lparr>svQueue := (svQueue s)\<lparr>qHub := h\<rparr>\<rparr>))"

definition handleStreamLogs :: handler where
  "handleStreamLogs w i r s =
    (case parseJobID i of
       Inl e \<Rightarrow> Some (http_Error e 400, s)
     | Inr n \<Rightarrow>
        (if \<not> wFlusher w then Some (http_Error ''streaming unsupported'' 500, s)
         else (case on_hub (Subscribe n 100) s of
           ((ch, recent), s1) \<Rightarrow>
             Some (\<lparr>rpStatus = 200, rpHeaders = event_stream_headers, rpCookies = [], rpLocation = None,
                     rpBody = BLogStream ch recent\<rparr>, s1))))"

text \<open>The turns of its loop, and the deferred end.\<close>

definition log_stream_next :: "nat \<Rightarrow> server \<Rightarrow> job_log option \<times> server" where
  "log_stream_next ch s = on_hub (receive ch) s"

definition log_stream_close :: "int \<Rightarrow> nat \<Rightarrow> server \<Rightarrow> server option" where
  "log_stream_close n ch s = map_option (\<lambda>h. s\<lparr>svQueue := (svQueue s)\<lparr>qHub := h\<rparr>\<rparr>) (Unsubscribe n ch (qHub (svQueue s)))"

subsection \<open>The configuration\<close>

definition handleGetConfig :: handler where
  "handleGetConfig w i r s =
    (let rawContent = (if svConfigPath s \<noteq> [] then (case svConfigFile s of Some b \<Rightarrow> b | None \<Rightarrow> []) else [])
     in Some (writeJSON 200 (BConfig (svConfigPath s) rawContent (svCfg s)), s))"

definition decode_string :: "string \<Rightarrow> string \<Rightarrow> string option" where
  "decode_string name bdy = (case struct_members bdy of
     None \<Rightarrow> None
   | Some ms \<Rightarrow> if snd (string_field name ms) then Some (fst (string_field name ms)) else None)"

text \<open>The new configuration takes effect; the authentication is kept when its secrets cannot be read.\<close>

definition install_config :: "world \<Rightarrow> string \<Rightarrow> config \<Rightarrow> server \<Rightarrow> server" where
  "install_config w raw newCfg s =
    (let s1 = s\<lparr>svConfigFile := Some raw, svCfg := newCfg\<rparr> in
     case NewAuthManager (wReader w) (wDiscovery w) (dcAuth (cfgDaemon newCfg)) of
       Inl _ \<Rightarrow> s1 | Inr am \<Rightarrow> s1\<lparr>svAuth := Some am\<rparr>)"

definition handleSaveConfig :: handler where
  "handleSaveConfig w i r s =
    (case decode_string ''raw'' (rqBody r) of
       None \<Rightarrow> Some (writeError 400 (TxtThen ''invalid JSON: ''), s)
     | Some raw \<Rightarrow>
        (case (wTmpFile w, wTmpWrite w) of
           (Inl e, _) \<Rightarrow> Some (writeError 500 (Txt e), s)
         | (Inr _, Some e) \<Rightarrow> Some (writeError 500 (Txt e), s)
         | (Inr tmpName, None) \<Rightarrow>
            (case Load (wEnv w) (wMethods w) tmpName (wToml w raw) of
               Inl e \<Rightarrow> Some (writeError 400 (Txt (''invalid configuration: '' @ e)), s)
             | Inr newCfg \<Rightarrow>
                (if svConfigPath s = [] then Some (writeError 400 (Txt ''no configuration path configured''), s)
                 else (case (wMkdir w, wWrite w) of
                    (Some e, _) \<Rightarrow> Some (writeError 500 (Txt e), s)
                  | (None, Some (e, left)) \<Rightarrow> Some (writeError 500 (Txt e), s\<lparr>svConfigFile := left\<rparr>)
                  | (None, None) \<Rightarrow>
                      after_event ''config:updated'' (status_reply ''saved'') (install_config w raw newCfg s))))))"

subsection \<open>Authentication\<close>

definition AuthEnabled :: "server \<Rightarrow> bool" where
  "AuthEnabled s = (svAuth s \<noteq> None \<and> AM_Enabled (svAuth s))"

definition PasswordAuthEnabled :: "server \<Rightarrow> bool" where
  "PasswordAuthEnabled s = (svAuth s \<noteq> None \<and> AM_PasswordEnabled (svAuth s))"

definition OAuthEnabled :: "server \<Rightarrow> bool" where
  "OAuthEnabled s = (svAuth s \<noteq> None \<and> AM_OAuthEnabled (svAuth s))"

definition validate :: "world \<Rightarrow> request \<Rightarrow> server \<Rightarrow> string option \<times> server" where
  "validate w r s = (case ValidateRequest (wNow w) r (svAuth s) of (u, a) \<Rightarrow> (u, s\<lparr>svAuth := a\<rparr>))"

definition html_EscapeString :: "string \<Rightarrow> string" where
  "html_EscapeString = ReplaceBytes [(CHR ''&'', ''&amp;''), (CHR 0x27, ''&#39;''), (CHR ''<'', ''&lt;''),
     (CHR ''>'', ''&gt;''), (CHR 0x22, ''&#34;'')]"

text \<open>The texts of the page that depend on the request and the settings. They end in a backslash and
  an \<open>n\<close>: the Go literals are raw.\<close>

definition raw_newline :: string where
  "raw_newline = [CHR 0x5C, CHR ''n'']"

definition quoted :: "string \<Rightarrow> string" where
  "quoted t = CHR 0x22 # t @ [CHR 0x22]"

definition login_page :: "string \<Rightarrow> server \<Rightarrow> string list" where
  "login_page errMsg s =
    (let hasPassword = PasswordAuthEnabled s; hasOAuth = OAuthEnabled s in
     (if errMsg \<noteq> [] then [''    <div class='' @ quoted ''alert'' @ ''>'' @ html_EscapeString errMsg @ ''</div>'' @ raw_newline] else [])
     @ (if hasPassword
        then [''    <form method='' @ quoted ''POST'' @ '' action='' @ quoted ''/auth/login'' @ ''>'' @ [CHR 0x0A] @
              ''      <input type='' @ quoted ''password'' @ '' name='' @ quoted ''password'' @ '' placeholder='' @ quoted ''Enter password'' @ '' required autofocus />'' @ [CHR 0x0A] @
              ''      <button type='' @ quoted ''submit'' @ '' class='' @ quoted ''btn btn-primary'' @ ''>Log in with Password</button>'' @ [CHR 0x0A] @
              ''    </form>'' @ [CHR 0x0A]] else [])
     @ (if hasPassword \<and> hasOAuth then [''    <div class='' @ quoted ''divider'' @ ''>or</div>'' @ raw_newline] else [])
     @ (if hasOAuth then
          (let providerName = (if svAuth s \<noteq> None then ProviderName (svAuth s) else ''Single Sign-On'') in
           [''    <a href='' @ quoted ''/auth/oauth/start'' @ '' class='' @ quoted ''btn btn-oauth'' @ ''>Log in with ''
             @ html_EscapeString providerName @ ''</a>'' @ raw_newline]) else [])
     @ (if \<not> hasPassword \<and> \<not> hasOAuth
        then [''    <p style='' @ quoted ''text-align:center;color:var(--text-muted);font-size:13px;''
                @ ''>No login methods are currently configured.</p>'' @ raw_newline] else [])
     @ [''  </div>'' @ [CHR 0x0A] @ ''</body>'' @ [CHR 0x0A] @ ''</html>''])"

definition handleLoginPage :: handler where
  "handleLoginPage w i r s =
    (case (if svAuth s \<noteq> None then validate w r s else (None, s)) of
       (Some u, s1) \<Rightarrow> Some (Redirect ''/'' 303, s1)
     | (None, s1) \<Rightarrow>
         Some (\<lparr>rpStatus = 200, rpHeaders = [(''Content-Type'', ''text/html; charset=utf-8'')], rpCookies = [],
                 rpLocation = None, rpBody = BHtml (login_page (QueryGet (URLQuery r) ''error'') s1)\<rparr>, s1))"

definition accepts_json :: "request \<Rightarrow> bool" where
  "accepts_json r = Contains (Header r ''Accept'') ''application/json''"

text \<open>\<open>ParseForm\<close> and \<open>FormValue\<close>: the fields of the body, if its media type is that of a form, before
  those of the query. \<open>FormValue\<close> does not read a multipart body, as \<open>ParseForm\<close> ran before.\<close>

definition media_type :: "request \<Rightarrow> string" where
  "media_type r = TrimSpace (ToLower (fst (Cut (Header r ''Content-Type'') '';'')))"

definition FormValue :: "request \<Rightarrow> string \<Rightarrow> string" where
  "FormValue r name = QueryGet
     (if media_type r = ''application/x-www-form-urlencoded'' then ParseQuery (rqBody r) @ URLQuery r
      else URLQuery r) name"

definition submitted_password :: "request \<Rightarrow> string" where
  "submitted_password r =
    (if Contains (Header r ''Content-Type'') ''application/json'' then decoded_string ''password'' (rqBody r)
     else FormValue r ''password'')"

definition create_session :: "world \<Rightarrow> string \<Rightarrow> auth_manager \<Rightarrow> server \<Rightarrow> cookie \<times> server" where
  "create_session w user am s = (case CreateSession (wNow w) (wToken w) user am of
     (c, am') \<Rightarrow> (c, s\<lparr>svAuth := Some am'\<rparr>))"

definition handleLoginSubmit :: handler where
  "handleLoginSubmit w i r s =
    (case svAuth s of
       None \<Rightarrow> Some (writeError 400 (Txt ''password authentication is not enabled''), s)
     | Some am \<Rightarrow>
        (if \<not> AM_PasswordEnabled (svAuth s)
         then Some (writeError 400 (Txt ''password authentication is not enabled''), s)
         else if \<not> CheckPassword (submitted_password r) (svAuth s)
         then Some (if accepts_json r then writeError 401 (Txt ''invalid password'')
                    else Redirect ''/auth/login?error=Invalid+password'' 303, s)
         else (case create_session w ''admin'' am s of (c, s1) \<Rightarrow>
           Some (with_set_cookie c
             (if accepts_json r then writeJSON 200 (BFields [(''status'', ''ok''), (''user'', ''admin'')])
              else Redirect ''/'' 303), s1))))"

definition handleOAuthStart :: handler where
  "handleOAuthStart w i r s =
    (if svAuth s = None \<or> \<not> AM_OAuthEnabled (svAuth s) then Some (http_Error ''OAuth is not configured'' 400, s)
     else (case OAuthStartURL (wNow w) (wToken w) r (svAuth s) of
        (Inl e, a) \<Rightarrow> Some (http_Error e 500, s\<lparr>svAuth := a\<rparr>)
      | (Inr url, a) \<Rightarrow> Some (Redirect url 307, s\<lparr>svAuth := a\<rparr>)))"

text \<open>The text of an error of the callback, where the wording of a decoder is left out.\<close>

fun known_text :: "errtext \<Rightarrow> string" where
  "known_text (Txt t) = t"
| "known_text (TxtThen t) = t"

definition handleOAuthCallback :: handler where
  "handleOAuthCallback w i r s =
    (case svAuth s of
       None \<Rightarrow> Some (http_Error ''OAuth is not configured'' 400, s)
     | Some am \<Rightarrow>
        (if \<not> AM_OAuthEnabled (svAuth s) then Some (http_Error ''OAuth is not configured'' 400, s)
         else (case HandleOAuthCallback (wNow w) (wOAuth w) r am of
            (Inl e, am1) \<Rightarrow>
              Some (Redirect (''/auth/login?error='' @ QueryEscape (known_text e)) 303, s\<lparr>svAuth := Some am1\<rparr>)
          | (Inr user, am1) \<Rightarrow>
              (case create_session w user am1 s of (c, s1) \<Rightarrow> Some (with_set_cookie c (Redirect ''/'' 303), s1)))))"

definition handleLogout :: handler where
  "handleLogout w i r s =
    (let reply = (if accepts_json r then writeJSON 200 (BFields [(''status'', ''logged_out'')])
                  else Redirect ''/auth/login'' 303)
     in case svAuth s of
          None \<Rightarrow> Some (reply, s)
        | Some am \<Rightarrow>
            Some (with_set_cookie LogoutCookie reply,
              if session_cookie r \<noteq> [] then s\<lparr>svAuth := Some (InvalidateSession (session_cookie r) am)\<rparr> else s))"

definition handleAuthMe :: handler where
  "handleAuthMe w i r s =
    (case (if svAuth s \<noteq> None then validate w r s else (Some ''anonymous'', s)) of
       (u, s1) \<Rightarrow>
         Some (writeJSON 200 (BMe (AuthEnabled s1) (u \<noteq> None) (case u of Some n \<Rightarrow> n | None \<Rightarrow> [])
                 (PasswordAuthEnabled s1) (OAuthEnabled s1) (ProviderName (svAuth s1))), s1))"

subsection \<open>Routing\<close>

definition routes :: "(string \<times> handler) list" where
  "routes =
    [(''GET /api/v1/queue/status'', handleQueueStatus),
     (''POST /api/v1/queue/pause'', handleQueuePause),
     (''POST /api/v1/queue/resume'', handleQueueResume),
     (''POST /api/v1/queue/concurrency'', handleQueueConcurrency),
     (''GET /api/v1/jobs'', handleListJobs),
     (''POST /api/v1/jobs'', handleSubmitJob),
     (''POST /api/v1/jobs/batch'', handleBatchJobs),
     (''GET /api/v1/jobs/{id}'', handleGetJob),
     (''POST /api/v1/jobs/{id}/cancel'', handleCancelJob),
     (''POST /api/v1/jobs/{id}/pause'', handlePauseJob),
     (''POST /api/v1/jobs/{id}/resume'', handleResumeJob),
     (''POST /api/v1/jobs/{id}/retry'', handleRetryJob),
     (''POST /api/v1/jobs/{id}/quarantine'', handleQuarantineJob),
     (''POST /api/v1/jobs/{id}/unquarantine'', handleUnquarantineJob),
     (''DELETE /api/v1/jobs/{id}'', handleDeleteJob),
     (''GET /api/v1/jobs/{id}/logs'', handleGetLogs),
     (''GET /api/v1/jobs/{id}/logs/stream'', handleStreamLogs),
     (''GET /api/v1/events'', handleStreamEvents),
     (''GET /api/v1/config'', handleGetConfig),
     (''PUT /api/v1/config'', handleSaveConfig),
     (''GET /auth/login'', handleLoginPage),
     (''POST /auth/login'', handleLoginSubmit),
     (''GET /auth/oauth/start'', handleOAuthStart),
     (''GET /auth/callback'', handleOAuthCallback),
     (''POST /auth/logout'', handleLogout),
     (''GET /api/v1/auth/me'', handleAuthMe)]"

text \<open>A pattern of \<open>http.ServeMux\<close>: a method (\<open>GET\<close> also takes \<open>HEAD\<close>) and segments, of which \<open>{id}\<close>
  stands for any that is not empty. The result is the path value.\<close>

fun match_segs :: "string list \<Rightarrow> string list \<Rightarrow> string \<Rightarrow> string option" where
  "match_segs [] [] v = Some v"
| "match_segs (p # ps) (x # xs) v =
    (if p = ''{id}'' then (if x = [] then None else match_segs ps xs x)
     else if p = x then match_segs ps xs v else None)"
| "match_segs _ _ v = None"

definition match_pattern :: "string \<Rightarrow> request \<Rightarrow> string option" where
  "match_pattern pat r = (case Cut pat '' '' of (meth, pth, _) \<Rightarrow>
     if rqMethod r = meth \<or> (meth = ''GET'' \<and> rqMethod r = ''HEAD'')
     then match_segs (Split pth (CHR ''/'')) (Split (rqPath r) (CHR ''/'')) [] else None)"

fun find_route :: "(string \<times> handler) list \<Rightarrow> request \<Rightarrow> (handler \<times> string) option" where
  "find_route [] r = None"
| "find_route ((pat, h) # rs) r = (case match_pattern pat r of Some v \<Rightarrow> Some (h, v) | None \<Rightarrow> find_route rs r)"

definition handleRoot :: handler where
  "handleRoot w i r s = (case svWeb s of
     Some files \<Rightarrow> Some (files r, s)
   | None \<Rightarrow>
      (if rqPath r = ''/''
       then Some (\<lparr>rpStatus = 200, rpHeaders = [(''Content-Type'', ''text/html; charset=utf-8'')], rpCookies = [],
         rpLocation = None, rpBody = BHtml [''<!DOCTYPE html><html><head><title>mirrord</title></head><body><h1>mirrord service</h1><p>API running. Web UI not embedded.</p><p><a href='' @ quoted ''/api/v1/queue/status'' @ ''>Queue Status API</a></p></body></html>'']\<rparr>, s)
       else Some (http_Error ''404 page not found'' 404, s)))"

text \<open>A path that is not in its shortest form is redirected to it before any handler runs.\<close>

definition clean_path :: "string \<Rightarrow> string" where
  "clean_path p = (let q = (if HasPrefix p ''/'' then p else CHR ''/'' # p); c = Clean q in
     if HasSuffix q ''/'' \<and> c \<noteq> ''/'' then c @ ''/'' else c)"

definition ServeHTTP :: "world \<Rightarrow> request \<Rightarrow> server \<Rightarrow> (response \<times> server) option" where
  "ServeHTTP w r s =
    (if rqMethod r \<noteq> ''CONNECT'' \<and> clean_path (rqPath r) \<noteq> rqPath r
     then Some (Redirect (escape (clean_path (rqPath r)) encodePath @ (if rqRawQuery r \<noteq> [] then ''?'' @ rqRawQuery r else [])) 301, s)
     else (case find_route routes r of
        Some (h, v) \<Rightarrow> h w v r s
      | None \<Rightarrow> handleRoot w [] r s))"

definition public_path :: "string \<Rightarrow> bool" where
  "public_path p \<longleftrightarrow> p = ''/auth/login'' \<or> p = ''/auth/callback'' \<or> p = ''/auth/oauth/start''"

definition WithAuth :: "world \<Rightarrow> request \<Rightarrow> server \<Rightarrow> (response \<times> server) option" where
  "WithAuth w r s =
    (if \<not> AuthEnabled s then ServeHTTP w r s
     else if public_path (rqPath r) then ServeHTTP w r s
     else (case validate w r s of
        (None, s1) \<Rightarrow>
          (if HasPrefix (rqPath r) ''/api/'' \<or> accepts_json r
           then (let rp = writeError 401 (Txt ''authentication required'') in
                 Some (rp\<lparr>rpHeaders := (''WWW-Authenticate'', ''Bearer realm='' @ quoted ''mirrord'') # rpHeaders rp\<rparr>, s1))
           else Some (Redirect ''/auth/login'' 303, s1))
      | (Some user, s1) \<Rightarrow> ServeHTTP w r s1))"

end
