(* ===== verification/ServerRun.thy ===== *)
theory ServerRun
  imports Server
begin

text \<open>
  The server as a system: the contract every handler meets (it does not panic, keeps the event
  streams in order and asks the queue for at most one operation), the same for the whole HTTP
  interface, and runs of the server in which requests, streams and the goroutines of the queue
  interleave.
\<close>

subsection \<open>Event streams\<close>

definition events_ok :: "server \<Rightarrow> bool" where
  "events_ok s \<longleftrightarrow> (\<forall>c \<in> set (svEventSub s). c < length (svEventChans s) \<and> \<not> evClosed (svEventChans s ! c))"

lemma event_fan_out_ok:
  assumes "\<forall>c \<in> set subs. c < length cs \<and> \<not> evClosed (cs ! c)"
  shows "\<exists>cs'. event_fan_out ev subs cs = Some cs' \<and> length cs' = length cs
    \<and> (\<forall>c < length cs. evClosed (cs' ! c) = evClosed (cs ! c))"
  using assms
proof (induction subs arbitrary: cs)
  case (Cons c subs)
  obtain cs1 where s: "event_send ev c cs = Some cs1" "length cs1 = length cs"
      "\<forall>k < length cs. evClosed (cs1 ! k) = evClosed (cs ! k)"
    using Cons.prems by (cases "length (evBuf (cs ! c)) < 10") (simp_all add: event_send_def nth_list_update)
  have "\<forall>k \<in> set subs. k < length cs1 \<and> \<not> evClosed (cs1 ! k)" using Cons.prems s(2,3) by simp
  from Cons.IH [OF this] s show ?case by auto
qed simp

lemma broadcast_ok:
  assumes "events_ok s"
  shows "\<exists>cs. broadcastEvent ev s = Some (s\<lparr>svEventChans := cs\<rparr>) \<and> events_ok (s\<lparr>svEventChans := cs\<rparr>)"
  using event_fan_out_ok [of "svEventSub s" "svEventChans s" ev] assms
  by (auto simp: events_ok_def broadcastEvent_def)

lemma after_event_ok:
  assumes "events_ok s"
  shows "\<exists>cs. after_event ev rp s = Some (rp, s\<lparr>svEventChans := cs\<rparr>) \<and> events_ok (s\<lparr>svEventChans := cs\<rparr>)"
  using broadcast_ok [OF assms, of ev] by (auto simp: after_event_def)

lemma events_ok_upd [simp]:
  "events_ok (s\<lparr>svQueue := q\<rparr>) = events_ok s" "events_ok (s\<lparr>svAuth := a\<rparr>) = events_ok s"
  "events_ok (s\<lparr>svCfg := c\<rparr>) = events_ok s" "events_ok (s\<lparr>svConfigFile := f\<rparr>) = events_ok s"
  by (simp_all add: events_ok_def)

subsection \<open>What a request asks of the queue\<close>

fun requested :: "qev \<Rightarrow> bool" where
  "requested (EvHub (HSubscribe i b)) = True"
| "requested (EvHub op) = False"
| "requested EvStop = False"
| "requested ev = api_event ev"

definition asked :: "queue \<Rightarrow> queue \<Rightarrow> bool" where
  "asked q q' \<longleftrightarrow> (\<exists>evs. length evs \<le> 1 \<and> list_all requested evs \<and> q_exec evs q = Some q')"

lemma asked_refl [simp]: "asked q q"
  unfolding asked_def by (rule exI [of _ "[]"]) simp

lemma asked_step: "requested ev \<Longrightarrow> q_pre ev q \<Longrightarrow> q_step ev q = Some q' \<Longrightarrow> asked q q'"
  unfolding asked_def by (rule exI [of _ "[ev]"]) simp

lemma asked_run: "asked q q' \<Longrightarrow> \<exists>evs. q_run q evs q'"
  unfolding asked_def using q_exec_run by blast

text \<open>An operation of the queue that a handler may call.\<close>

definition api_op :: "(queue \<Rightarrow> 'a \<times> queue) \<Rightarrow> bool" where
  "api_op op \<longleftrightarrow> (\<forall>q. asked q (snd (op q)))"

lemma api_op_ev: "requested ev \<Longrightarrow> (\<And>q. q_pre ev q) \<Longrightarrow> (\<And>q. q_step ev q = Some (snd (op q))) \<Longrightarrow> api_op op"
  unfolding api_op_def using asked_step by blast

lemma api_ops:
  "api_op PauseQueue" "api_op ResumeQueue" "api_op (SetConcurrency n)" "api_op (CancelQueueJob now i)"
  "api_op (PauseQueueJob i)" "api_op (ResumeQueueJob i)" "api_op (RetryQueueJob i)"
  "api_op (QuarantineQueueJob now i reason)" "api_op (UnquarantineQueueJob i)" "api_op (BatchJobs now req)"
  "api_op (Enqueue now sub)" "api_op (on_store (DeleteJob i))"
  by (rule api_op_ev [of EvPause] api_op_ev [of EvResume] api_op_ev [of "EvSetConcurrency n"]
      api_op_ev [of "EvCancel now i"] api_op_ev [of "EvPauseJob i"] api_op_ev [of "EvResumeJob i"]
      api_op_ev [of "EvRetry i"] api_op_ev [of "EvQuarantine now i reason"] api_op_ev [of "EvUnquarantine i"]
      api_op_ev [of "EvBatch now req"] api_op_ev [of "EvEnqueue now sub"] api_op_ev [of "EvDelete i"]; simp; fail)+

text \<open>Reading the store spends driver calls only.\<close>

definition reads :: "'a op \<Rightarrow> bool" where
  "reads op \<longleftrightarrow> (\<forall>d. \<exists>n. snd (op d) = d\<lparr>faults := drop n (faults d)\<rparr>)"

lemma reads_driver: "reads k \<Longrightarrow> reads (driver k)"
proof -
  assume k: "reads k"
  have "\<exists>n. snd (driver k d) = d\<lparr>faults := drop n (faults d)\<rparr>" for d
  proof (cases "faults d")
    case Nil
    from k obtain n where "snd (k d) = d\<lparr>faults := drop n (faults d)\<rparr>" by (auto simp: reads_def)
    then show ?thesis using Nil by (intro exI [of _ n]) (simp add: driver_def tick_def)
  next
    case (Cons f fs)
    show ?thesis
    proof (cases f)
      case None
      from k have "\<exists>n. snd (k (d\<lparr>faults := fs\<rparr>)) = (d\<lparr>faults := fs\<rparr>)\<lparr>faults := drop n (faults (d\<lparr>faults := fs\<rparr>))\<rparr>"
        unfolding reads_def by (rule spec)
      then obtain n where "snd (k (d\<lparr>faults := fs\<rparr>)) = d\<lparr>faults := drop n fs\<rparr>" by auto
      then show ?thesis using Cons None by (intro exI [of _ "Suc n"]) (simp add: driver_def tick_def)
    next
      case (Some e)
      then show ?thesis using Cons by (intro exI [of _ 1]) (simp add: driver_def tick_def)
    qed
  qed
  then show ?thesis by (simp add: reads_def)
qed

lemma reads_pure: "reads (\<lambda>d. (f d, d))"
proof -
  have "\<exists>n. d = d\<lparr>faults := drop n (faults d)\<rparr>" for d :: db by (rule exI [of _ 0]) simp
  then show ?thesis by (simp add: reads_def)
qed

lemma store_reads: "reads (GetJob i)" "reads (ListJobs f)" "reads (GetLogs i lim off)" "reads GetCounts"
  unfolding GetJob_def ListJobs_def GetLogs_def GetCounts_def by (intro reads_driver reads_pure)+

lemma api_read: "reads op \<Longrightarrow> api_op (on_store op)"
  unfolding api_op_def
proof
  fix q :: queue
  assume "reads op"
  then obtain n where "snd (op (qStore q)) = (qStore q)\<lparr>faults := drop n (faults (qStore q))\<rparr>"
    by (auto simp: reads_def)
  then show "asked q (snd (on_store op q))" by (intro asked_step [of "EvRead n"]) simp_all
qed

lemma api_status: "api_op (GetStatus now)"
proof -
  have "snd (GetStatus now q) = snd (on_store GetCounts q)" for q :: queue
    by (simp add: GetStatus_def on_store_def split: prod.split sum.split)
  with api_read [OF store_reads(4)] show ?thesis by (simp add: api_op_def)
qed

lemmas queue_ops_ok = api_ops api_status store_reads [THEN api_read]

subsection \<open>The contract of a handler\<close>

locale served =
  fixes h :: handler
  assumes serves: "events_ok s \<Longrightarrow>
    \<exists>rp s'. h w i r s = Some (rp, s') \<and> events_ok s' \<and> asked (svQueue s) (svQueue s')"
begin

lemma no_panic: "events_ok s \<Longrightarrow> h w i r s \<noteq> None"
  using serves by fastforce

lemma keeps_events: "h w i r s = Some (rp, s') \<Longrightarrow> events_ok s \<Longrightarrow> events_ok s'"
  using serves [of s w i r] by auto

lemma as_queue_run: "h w i r s = Some (rp, s') \<Longrightarrow> events_ok s \<Longrightarrow> \<exists>evs. q_run (svQueue s) evs (svQueue s')"
  using serves [of s w i r] asked_run by fastforce

lemma keeps_invariant: "h w i r s = Some (rp, s') \<Longrightarrow> events_ok s \<Longrightarrow> q_inv (svQueue s) \<Longrightarrow> q_inv (svQueue s')"
  using as_queue_run q_run_inv by blast

end

text \<open>The shapes of the handlers: an answer at once, an operation of the queue, and an operation
  followed by an event.\<close>

definition replies :: "server \<Rightarrow> (response \<times> server) option \<Rightarrow> bool" where
  "replies s x \<longleftrightarrow> (\<exists>rp s'. x = Some (rp, s') \<and> events_ok s' \<and> asked (svQueue s) (svQueue s'))"

lemma served_iff: "served h \<longleftrightarrow> (\<forall>s w i r. events_ok s \<longrightarrow> replies s (h w i r s))"
  by (auto simp: served_def replies_def)

lemma replies_same: "events_ok s' \<Longrightarrow> svQueue s' = svQueue s \<Longrightarrow> replies s (Some (rp, s'))"
  by (simp add: replies_def)

lemma replies_after: "events_ok s' \<Longrightarrow> asked (svQueue s) (svQueue s') \<Longrightarrow> replies s (after_event ev rp s')"
  using after_event_ok [of s' ev rp] by (auto simp: replies_def)

lemma on_queue_eq: "on_queue op s = (fst (op (svQueue s)), s\<lparr>svQueue := snd (op (svQueue s))\<rparr>)"
  by (simp add: on_queue_def split: prod.split)

lemma replies_op:
  assumes "api_op op" and "events_ok s"
    and "\<And>x s1. events_ok s1 \<Longrightarrow> asked (svQueue s) (svQueue s1) \<Longrightarrow> replies s (k x s1)"
  shows "replies s (case on_queue op s of (x, s1) \<Rightarrow> k x s1)"
  using assms by (simp add: on_queue_eq api_op_def)

lemma replies_with_id:
  "events_ok s \<Longrightarrow> (\<And>n. replies s (k n)) \<Longrightarrow> replies s (with_id i s k)"
  by (simp add: with_id_def replies_same split: sum.split)

lemma replies_asked: "events_ok s' \<Longrightarrow> asked (svQueue s) (svQueue s') \<Longrightarrow> replies s (Some (rp, s'))"
  by (simp add: replies_def)

lemma job_action_ok:
  assumes "\<And>n. api_op (op n)" and "events_ok s"
  shows "replies s (job_action op code ev reply i s)"
  unfolding job_action_def
  by (intro replies_with_id replies_op assms)
     (auto simp: replies_asked replies_after split: sum.split)


subsection \<open>Every route\<close>

lemma queue_handlers:
  "served handleQueueStatus" "served handleQueuePause" "served handleQueueResume"
  "served handleListJobs"
  unfolding served_iff handleQueueStatus_def handleQueuePause_def handleQueueResume_def handleListJobs_def
  by (intro allI impI replies_op queue_ops_ok; auto simp: replies_asked replies_after split: sum.split)+

lemma body_handlers:
  "served handleQueueConcurrency" "served handleBatchJobs"
  unfolding served_iff handleQueueConcurrency_def handleBatchJobs_def
  by (auto simp: replies_same intro!: replies_op queue_ops_ok replies_asked replies_after split: option.split sum.split)

lemma submit_handler: "served handleSubmitJob"
  unfolding served_iff handleSubmitJob_def
  by (auto simp: replies_same intro!: replies_op queue_ops_ok replies_asked replies_after split: option.split sum.split)

lemma job_handlers:
  "served handleCancelJob" "served handlePauseJob" "served handleResumeJob" "served handleRetryJob"
  "served handleQuarantineJob" "served handleUnquarantineJob" "served handleDeleteJob"
  unfolding served_iff handleCancelJob_def handlePauseJob_def handleResumeJob_def handleRetryJob_def
    handleQuarantineJob_def handleUnquarantineJob_def handleDeleteJob_def
  by (auto intro!: job_action_ok queue_ops_ok)

lemma read_handlers:
  "served handleGetJob" "served handleGetLogs" "served handleGetConfig"
  unfolding served_iff handleGetJob_def handleGetLogs_def handleGetConfig_def Let_def
  by (auto intro!: replies_with_id replies_op queue_ops_ok replies_asked simp: replies_same split: sum.split err.split)

lemma subscribe_asked: "asked q (q\<lparr>qHub := snd (Subscribe n b (qHub q))\<rparr>)"
  by (rule asked_step [of "EvHub (HSubscribe n b)"]) simp_all

lemma stream_handlers: "served handleStreamLogs" "served handleStreamEvents"
proof -
  have "events_ok s \<Longrightarrow> events_ok (s\<lparr>svEventSub := svEventSub s @ [length (svEventChans s)],
      svEventChans := svEventChans s @ [\<lparr>evBuf = [], evClosed = False\<rparr>]\<rparr>)" for s
    by (auto simp: events_ok_def nth_append)
  then show "served handleStreamEvents"
    by (auto simp: served_iff handleStreamEvents_def Let_def replies_same)
  show "served handleStreamLogs"
    by (auto simp: served_iff handleStreamLogs_def on_hub_def replies_same subscribe_asked
        intro!: replies_asked split: sum.split prod.split)
       (metis snd_conv subscribe_asked)
qed

lemma config_handler: "served handleSaveConfig"
proof -
  have i: "svQueue (install_config w raw c s) = svQueue s" "events_ok (install_config w raw c s) = events_ok s" for w raw c s
    by (simp_all add: install_config_def Let_def split: sum.split)
  show ?thesis
    unfolding served_iff handleSaveConfig_def
    by (auto simp: replies_same i intro!: replies_after split: option.split sum.split)
qed

lemma validate_simps [simp]:
  "svQueue (snd (validate w r s)) = svQueue s" "events_ok (snd (validate w r s)) = events_ok s"
  "svCfg (snd (validate w r s)) = svCfg s" "svConfigFile (snd (validate w r s)) = svConfigFile s"
  by (simp_all add: validate_def split: prod.split)

lemma validate_same: "validate w r s = (u, s1) \<Longrightarrow> svQueue s1 = svQueue s \<and> events_ok s1 = events_ok s"
  using validate_simps by (metis snd_conv)

lemma auth_handlers:
  "served handleLoginPage" "served handleLoginSubmit" "served handleOAuthStart" "served handleOAuthCallback"
  "served handleLogout" "served handleAuthMe"
  unfolding served_iff handleLoginPage_def handleLoginSubmit_def handleOAuthStart_def handleOAuthCallback_def
    handleLogout_def handleAuthMe_def create_session_def
  by (auto simp: Let_def intro!: replies_same dest!: validate_same split: option.split prod.split sum.split)

lemma routes_served: "(pat, h) \<in> set routes \<Longrightarrow> served h"
  unfolding routes_def
  by (auto simp: queue_handlers body_handlers submit_handler job_handlers read_handlers stream_handlers
      config_handler auth_handlers)

lemma find_route_in: "find_route rs r = Some (h, v) \<Longrightarrow> \<exists>pat. (pat, h) \<in> set rs"
  by (induction rs r rule: find_route.induct) (auto split: option.splits)

lemma ServeHTTP_served: "served (\<lambda>w i r s. ServeHTTP w r s)"
proof -
  have "replies s (h w v r s)" if "find_route routes r = Some (h, v)" "events_ok s" for w r s h v
    using find_route_in [OF that(1)] routes_served that(2) by (auto simp: served_iff)
  then show ?thesis
    unfolding served_iff ServeHTTP_def handleRoot_def
    by (auto simp: replies_same split: option.split)
qed

interpretation serve: served "\<lambda>w i r s. ServeHTTP w r s"
  by (rule ServeHTTP_served)

interpretation gate: served "\<lambda>w i r s. WithAuth w r s"
proof -
  have sv: "events_ok s \<Longrightarrow> replies s (ServeHTTP w r s)" for w r s
    using ServeHTTP_served by (simp add: served_iff)
  have "replies s (WithAuth w r s)" if "events_ok s" for w r s
  proof (cases "AuthEnabled s \<and> \<not> public_path (rqPath r)")
    case True
    obtain u s1 where v: "validate w r s = (u, s1)" by (cases "validate w r s")
    note same = validate_same [OF v]
    show ?thesis
    proof (cases u)
      case None
      then show ?thesis using True v same that by (simp add: WithAuth_def Let_def replies_same)
    next
      case (Some user)
      then show ?thesis using True v same sv [of s1 w r] that by (simp add: WithAuth_def replies_def)
    qed
  next
    case False
    then show ?thesis using sv that by (auto simp: WithAuth_def)
  qed
  then show "served (\<lambda>w i r s. WithAuth w r s)" by (simp add: served_iff)
qed

end
