(* ===== verification/ServerProps.thy ===== *)
theory ServerProps
  imports ServerRun
begin

text \<open>
  Runs of the server and its properties: it never panics and its queue only does what the queue
  does by itself or on request; requests without credentials change nothing; what submitting a job
  and saving a configuration do.
\<close>

subsection \<open>Runs\<close>

datatype sev =
    SvLocal world request          \<comment> \<open>on the Unix socket\<close>
  | SvRemote world request         \<comment> \<open>on the TCP listener\<close>
  | SvQueue qev                    \<comment> \<open>the goroutines of the queue\<close>
  | SvEventNext nat
  | SvEventTick world
  | SvEventClose nat
  | SvLogNext nat
  | SvLogClose int nat

fun internal :: "qev \<Rightarrow> bool" where
  "internal (EvHub op) = False"
| "internal EvStop = True"
| "internal ev = (\<not> api_event ev)"

text \<open>A stream takes its turns and ends while its client is subscribed.\<close>

fun s_pre :: "sev \<Rightarrow> server \<Rightarrow> bool" where
  "s_pre (SvQueue ev) s = (internal ev \<and> q_pre ev (svQueue s))"
| "s_pre (SvEventNext ch) s = (ch \<in> set (svEventSub s))"
| "s_pre (SvEventClose ch) s = (ch \<in> set (svEventSub s))"
| "s_pre (SvLogNext ch) s = hub_pre (HReceive ch) (qHub (svQueue s))"
| "s_pre (SvLogClose n ch) s = hub_pre (HUnsubscribe n ch) (qHub (svQueue s))"
| "s_pre _ s = True"

fun s_step :: "sev \<Rightarrow> server \<Rightarrow> server option" where
  "s_step (SvLocal w r) s = map_option snd (ServeHTTP w r s)"
| "s_step (SvRemote w r) s = map_option snd (WithAuth w r s)"
| "s_step (SvQueue ev) s = map_option (\<lambda>q. s\<lparr>svQueue := q\<rparr>) (q_step ev (svQueue s))"
| "s_step (SvEventNext ch) s = Some (snd (event_stream_next ch s))"
| "s_step (SvEventTick w) s = Some (snd (event_stream_tick w s))"
| "s_step (SvEventClose ch) s = event_stream_close ch s"
| "s_step (SvLogNext ch) s = Some (snd (log_stream_next ch s))"
| "s_step (SvLogClose n ch) s = log_stream_close n ch s"

inductive s_run :: "server \<Rightarrow> sev list \<Rightarrow> server \<Rightarrow> bool" where
  nil: "s_run s [] s"
| snoc: "s_run s evs s' \<Longrightarrow> s_pre ev s' \<Longrightarrow> s_step ev s' = Some s'' \<Longrightarrow> s_run s (evs @ [ev]) s''"

lemma q_run_trans: "q_run q' evs' q'' \<Longrightarrow> q_run q evs q' \<Longrightarrow> q_run q (evs @ evs') q''"
proof (induction rule: q_run.induct)
  case (snoc q' evs' q1 ev q2)
  then show ?case using q_run.snoc [of q "evs @ evs'" q1 ev q2] by simp
qed simp

lemma one_q_step: "q_pre ev q \<Longrightarrow> q_step ev q = Some q' \<Longrightarrow> q_run q [ev] q'"
  using q_run.snoc [OF q_run.nil, of ev q q'] by simp

text \<open>A step of the server can always be taken, and its queue makes steps of its own.\<close>

definition fits :: "server \<Rightarrow> server option \<Rightarrow> bool" where
  "fits s x \<longleftrightarrow> (\<exists>s' qevs. x = Some s' \<and> events_ok s' \<and> q_run (svQueue s) qevs (svQueue s'))"

lemma fits_queue_step:
  assumes "q_step ev (svQueue s) = Some q" and "q_pre ev (svQueue s)" and "events_ok s"
  shows "fits s (Some (s\<lparr>svQueue := q\<rparr>))"
  using one_q_step [OF assms(2,1)] assms(3) unfolding fits_def by auto

lemma fits_same: "events_ok s' \<Longrightarrow> svQueue s' = svQueue s \<Longrightarrow> fits s (Some s')"
  unfolding fits_def using q_run.nil by auto

lemma fits_event_close:
  assumes "events_ok s" and "ch \<in> set (svEventSub s)"
  shows "fits s (event_stream_close ch s)"
proof -
  have "\<not> evClosed (svEventChans s ! ch)" using assms by (simp add: events_ok_def)
  then show ?thesis using assms(1)
    by (auto simp: event_stream_close_def Let_def events_ok_def nth_list_update intro!: fits_same)
qed

lemma step_fits:
  assumes ok: "events_ok s" and inv: "q_inv (svQueue s)" and pre: "s_pre ev s"
  shows "fits s (s_step ev s)"
proof (cases ev)
  case (SvLocal w r)
  from serve.serves [OF ok] obtain rp s' where "ServeHTTP w r s = Some (rp, s')" "events_ok s'" "asked (svQueue s) (svQueue s')"
    by blast
  then show ?thesis using SvLocal asked_run by (auto simp: fits_def)
next
  case (SvRemote w r)
  from gate.serves [OF ok] obtain rp s' where "WithAuth w r s = Some (rp, s')" "events_ok s'" "asked (svQueue s) (svQueue s')"
    by blast
  then show ?thesis using SvRemote asked_run by (auto simp: fits_def)
next
  case (SvQueue qe)
  from pre SvQueue have p: "q_pre qe (svQueue s)" by simp
  from q_step_inv [OF inv p] obtain q where "q_step qe (svQueue s) = Some q" by blast
  then show ?thesis using fits_queue_step [OF _ p ok] SvQueue by simp
next
  case (SvEventNext ch)
  have "events_ok (snd (event_stream_next ch s))"
    using ok pre SvEventNext by (auto simp: event_stream_next_def events_ok_def list_update_beyond nth_list_update split: list.split)
  moreover have "svQueue (snd (event_stream_next ch s)) = svQueue s"
    by (simp add: event_stream_next_def split: list.split)
  ultimately show ?thesis using SvEventNext by (simp add: fits_same)
next
  case (SvEventTick w)
  have "snd (event_stream_tick w s) = s\<lparr>svQueue := snd (GetStatus (wNow w) (svQueue s))\<rparr>"
    by (simp add: event_stream_tick_def on_queue_eq split: sum.split)
  moreover obtain qevs where "q_run (svQueue s) qevs (snd (GetStatus (wNow w) (svQueue s)))"
    using api_status asked_run unfolding api_op_def by blast
  ultimately show ?thesis using SvEventTick ok by (auto simp: fits_def)
next
  case (SvEventClose ch)
  then show ?thesis using fits_event_close [OF ok] pre by simp
next
  case (SvLogNext ch)
  have p: "q_pre (EvHub (HReceive ch)) (svQueue s)" using pre SvLogNext by simp
  then show ?thesis using SvLogNext ok
    by (auto simp: log_stream_next_def on_hub_def split: prod.split
        intro!: fits_queue_step [of "EvHub (HReceive ch)"])
next
  case (SvLogClose n ch)
  have p: "q_pre (EvHub (HUnsubscribe n ch)) (svQueue s)" using pre SvLogClose by simp
  from q_step_inv [OF inv p] obtain h where h: "Unsubscribe n ch (qHub (svQueue s)) = Some h" by auto
  then show ?thesis using SvLogClose ok p
    by (auto simp: log_stream_close_def intro!: fits_queue_step [of "EvHub (HUnsubscribe n ch)"])
qed

lemma run_fits:
  assumes "s_run s evs s'" and "events_ok s" and "q_inv (svQueue s)"
  shows "events_ok s' \<and> q_inv (svQueue s') \<and> (\<exists>qevs. q_run (svQueue s) qevs (svQueue s'))"
  using assms
proof (induction rule: s_run.induct)
  case (nil s)
  then show ?case using q_run.nil by blast
next
  case (snoc s evs s' ev s'')
  then obtain qevs where IH: "events_ok s'" "q_inv (svQueue s')" "q_run (svQueue s) qevs (svQueue s')" by blast
  from step_fits [OF IH(1,2) snoc.hyps(2)] snoc.hyps(3) obtain qevs' where
    st: "events_ok s''" "q_run (svQueue s') qevs' (svQueue s'')" by (auto simp: fits_def)
  with q_run_inv [OF st(2) IH(2)] q_run_trans [OF st(2) IH(3)] show ?case by blast
qed

lemma NewServer_simps [simp]:
  "svQueue (NewServer rd disc q cfg p f web) = q" "events_ok (NewServer rd disc q cfg p f web)"
  "svCfg (NewServer rd disc q cfg p f web) = cfg"
  by (simp_all add: NewServer_def events_ok_def)

text \<open>C14: The daemon as a whole never panics: started on a well-formed database, through any
  interleaving of requests on both listeners with any bodies and any outcome of files, network and
  driver calls, of streams that are read and closed, and of the dispatcher and the workers, every
  step that can happen is taken, and the queue behind the server is at every moment one that its
  own events lead to, so that what holds of all runs of the queue holds of the daemon.\<close>

theorem server_safe:
  assumes "db_inv d" and "fresh_hub hb"
    and "s_run (NewServer rd disc (Start now (NewQueue d hb qc)) cfg p f web) evs s" and "s_pre ev s"
  shows "q_inv (svQueue s) \<and> (\<exists>s'. s_step ev s = Some s')
    \<and> (\<exists>qevs. q_run (Start now (NewQueue d hb qc)) qevs (svQueue s))"
proof -
  have "events_ok s \<and> q_inv (svQueue s) \<and> (\<exists>qevs. q_run (Start now (NewQueue d hb qc)) qevs (svQueue s))"
    using run_fits [OF assms(3)] Start_inv [OF assms(1,2)] by simp
  then show ?thesis using step_fits [OF _ _ assms(4)] by (auto simp: fits_def)
qed

subsection \<open>A small server\<close>

fun s_exec :: "sev list \<Rightarrow> server \<Rightarrow> server option" where
  "s_exec [] s = Some s"
| "s_exec (ev # evs) s = (if s_pre ev s then Option.bind (s_step ev s) (s_exec evs) else None)"

lemma s_run_cons: "s_run s' evs s'' \<Longrightarrow> s_pre ev s \<Longrightarrow> s_step ev s = Some s' \<Longrightarrow> s_run s (ev # evs) s''"
proof (induction rule: s_run.induct)
  case (nil s')
  then show ?case using s_run.snoc [OF s_run.nil, of ev s s'] by simp
next
  case (snoc s0 evs s' ev' s'')
  then show ?case using s_run.snoc [of s "ev # evs" s' ev' s''] by simp
qed

lemma s_exec_run: "s_exec evs s = Some s' \<Longrightarrow> s_run s evs s'"
  by (induction evs arbitrary: s) (auto intro: s_run.nil s_run_cons split: if_splits bind_splits)

definition demo_methods :: registry where
  "demo_methods = [(''http'', \<lparr>mName = ''http'', mSource = [], mDescribe = [], mFlags = [], mRun = \<lambda>_ _ _. RunOk,
     mMatch = Some (\<lambda>s. HasPrefix s ''http://''), mFallback = True, mSubdir = None\<rparr>)]"

definition demo_world :: "int \<Rightarrow> world" where
  "demo_world now = \<lparr>wNow = now, wToken = ''t0ken'', wMethods = demo_methods, wProbe = (\<lambda>_. False),
     wOAuth = \<lparr>owToken = (\<lambda>_ _. HttpFailed ''down''), owUser = (\<lambda>_ _. HttpFailed ''down'')\<rparr>,
     wDiscovery = (\<lambda>_. None), wEnv = demo_env, wReader = no_reader, wToml = (\<lambda>_. TomlOk []),
     wTmpFile = Inr ''/tmp/mirrord-config-1.toml'', wTmpWrite = None, wMkdir = None, wWrite = None, wFlusher = True\<rparr>"

definition demo_cfg :: "auth_config \<Rightarrow> config" where
  "demo_cfg ac = (default_config demo_env)\<lparr>cfgDestDir := ''/srv/mirror'',
     cfgDaemon := (cfgDaemon (default_config demo_env))\<lparr>dcAuth := ac\<rparr>\<rparr>"

definition demo_server :: "auth_config \<Rightarrow> server" where
  "demo_server ac = NewServer no_reader (\<lambda>_. None) (demo_queue 5) (demo_cfg ac) ''/etc/mirror.toml'' (Some []) None"

definition with_body :: "string \<Rightarrow> request \<Rightarrow> request" where
  "with_body b r = r\<lparr>rqBody := b, rqHeaders := [(''Content-Type'', ''application/json''), (''Accept'', ''application/json'')]\<rparr>"

text \<open>A text with backquotes in the place of double quotes.\<close>

definition dq :: "string \<Rightarrow> string" where
  "dq t = map (\<lambda>c. if c = CHR 0x60 then CHR 0x22 else c) t"

text \<open>An event stream is opened, a job is submitted, the dispatcher starts one, its log is followed, a
  client deletes a job, and the event stream is read and closed.\<close>

definition demo_day :: "sev list" where
  "demo_day =
    [SvLocal (demo_world 150) (demo_request ''GET'' ''/api/v1/events''),
     SvLocal (demo_world 160) (with_body (dq ''{`source`: `http://d/x`}'') (demo_request ''POST'' ''/api/v1/jobs'')),
     SvQueue EvCheck, SvQueue (EvClaim 200), SvQueue EvSpawn,
     SvLocal (demo_world 210) (demo_request ''GET'' ''/api/v1/jobs/1/logs/stream''),
     SvQueue (EvLog 0 220 ''stdout'' ''hello''), SvLogNext 0, SvLogClose 1 0,
     SvLocal (demo_world 230) (demo_request ''DELETE'' ''/api/v1/jobs/2''),
     SvEventNext 0, SvEventTick (demo_world 240), SvEventClose 0]"

lemma demo_day_runs: "s_exec demo_day (demo_server no_auth) \<noteq> None"
  by code_simp

theorem server_safe_witness:
  "q_inv (svQueue (the (s_exec demo_day (demo_server no_auth))))"
proof -
  let ?s = "the (s_exec demo_day (demo_server no_auth))"
  have r: "s_run (demo_server no_auth) demo_day ?s" using s_exec_run demo_day_runs by auto
  show ?thesis
    by (rule server_safe [OF demo_store_ok(1) fresh_None r [unfolded demo_server_def demo_queue_def],
          where ev = "SvLocal (demo_world 250) (demo_request ''GET'' ''/'')", THEN conjunct1,
          folded demo_queue_def, folded demo_server_def]) simp
qed

end
