(* ===== verification/Gate.thy ===== *)
theory Gate
  imports ServerProps
begin

text \<open>
  Authentication of the whole daemon: the sessions of the server over its runs, and who is served.
\<close>

subsection \<open>What a handler does to the authentication\<close>

text \<open>Sessions are only made for a request that carried the password or came back from the provider,
  and their token goes into a cookie of the response.\<close>

definition proves_login :: "world \<Rightarrow> request \<Rightarrow> auth_manager \<Rightarrow> string \<Rightarrow> bool" where
  "proves_login w r a user \<longleftrightarrow> CheckPassword (submitted_password r) (Some a)
     \<or> fst (HandleOAuthCallback (wNow w) (wOAuth w) r a) = Inr user"

fun justified :: "world \<Rightarrow> request \<Rightarrow> auth_manager \<Rightarrow> response \<Rightarrow> auth_ev \<Rightarrow> bool" where
  "justified w r a rp (ACreate t tok u) = (t = wNow w \<and> tok = wToken w \<and> proves_login w r a u
     \<and> (\<exists>c \<in> set (rpCookies rp). ckName c = sessionCookieName \<and> ckValue c = tok))"
| "justified w r a rp (AValidate t q) = (t = wNow w)"
| "justified w r a rp _ = True"

definition auth_moves :: "world \<Rightarrow> request \<Rightarrow> server \<Rightarrow> (response \<times> server) option \<Rightarrow> bool" where
  "auth_moves w r s x \<longleftrightarrow> (\<forall>rp s' a. x = Some (rp, s') \<longrightarrow> svAuth s = Some a \<longrightarrow>
     (\<exists>aevs. svAuth s' = Some (auth_run aevs a) \<and> list_all (justified w r a rp) aevs))"

definition same_auth :: "server \<Rightarrow> (response \<times> server) option \<Rightarrow> bool" where
  "same_auth s x \<longleftrightarrow> (\<forall>rp s'. x = Some (rp, s') \<longrightarrow> svAuth s' = svAuth s)"

lemma auth_moves_same: "same_auth s x \<Longrightarrow> auth_moves w r s x"
  unfolding auth_moves_def same_auth_def by (intro allI impI exI [of _ "[]"]) simp

lemma same_auth_reply [intro]: "svAuth s' = svAuth s \<Longrightarrow> same_auth s (Some (rp, s'))"
  by (simp add: same_auth_def)

lemma same_auth_after [intro]: "svAuth s' = svAuth s \<Longrightarrow> same_auth s (after_event ev rp s')"
  by (auto simp: same_auth_def after_event_def broadcastEvent_def)

lemma same_auth_op:
  "(\<And>x s1. svAuth s1 = svAuth s \<Longrightarrow> same_auth s (k x s1)) \<Longrightarrow> same_auth s (case on_queue op s of (x, s1) \<Rightarrow> k x s1)"
  by (simp add: on_queue_eq)

lemma same_auth_with_id: "(\<And>n. same_auth s (k n)) \<Longrightarrow> same_auth s (with_id i s k)"
  by (auto simp: with_id_def split: sum.split)

lemma same_auth_job: "same_auth s (job_action op code ev reply i s)"
  unfolding job_action_def by (intro same_auth_with_id same_auth_op) (auto split: sum.split)

lemma queue_handlers_auth:
  "same_auth s (handleQueueStatus w i r s)" "same_auth s (handleQueuePause w i r s)"
  "same_auth s (handleQueueResume w i r s)" "same_auth s (handleListJobs w i r s)"
  "same_auth s (handleQueueConcurrency w i r s)" "same_auth s (handleBatchJobs w i r s)"
  "same_auth s (handleSubmitJob w i r s)"
  unfolding handleQueueStatus_def handleQueuePause_def handleQueueResume_def handleListJobs_def
    handleQueueConcurrency_def handleBatchJobs_def handleSubmitJob_def
  by (auto intro!: same_auth_op split: sum.split option.split)

lemma job_handlers_auth:
  "same_auth s (handleCancelJob w i r s)" "same_auth s (handlePauseJob w i r s)"
  "same_auth s (handleResumeJob w i r s)" "same_auth s (handleRetryJob w i r s)"
  "same_auth s (handleQuarantineJob w i r s)" "same_auth s (handleUnquarantineJob w i r s)"
  "same_auth s (handleDeleteJob w i r s)"
  unfolding handleCancelJob_def handlePauseJob_def handleResumeJob_def handleRetryJob_def
    handleQuarantineJob_def handleUnquarantineJob_def handleDeleteJob_def
  by (rule same_auth_job)+

lemma read_handlers_auth:
  "same_auth s (handleGetJob w i r s)" "same_auth s (handleGetLogs w i r s)"
  "same_auth s (handleGetConfig w i r s)" "same_auth s (handleStreamLogs w i r s)"
  "same_auth s (handleStreamEvents w i r s)" "same_auth s (handleRoot w i r s)"
  unfolding handleGetJob_def handleGetLogs_def handleGetConfig_def handleStreamLogs_def
    handleStreamEvents_def handleRoot_def on_hub_def Let_def
  by (auto intro!: same_auth_op same_auth_with_id split: sum.split prod.split err.split option.split)

lemma validate_auth:
  assumes "svAuth s = Some a" and "validate w r s = (u, s1)"
  shows "svAuth s1 = Some (auth_run [AValidate (wNow w) r] a) \<and> s1 = s\<lparr>svAuth := svAuth s1\<rparr>"
  using assms validate_state [of "wNow w" r a]
  by (auto simp: validate_def auth_run_def split: prod.splits option.split)

lemma create_session_auth:
  assumes "create_session w user a s = (c, s1)"
  shows "svAuth s1 = Some (auth_run [ACreate (wNow w) (wToken w) user] a) \<and> ckValue c = wToken w
    \<and> ckName c = sessionCookieName"
  using assms by (auto simp: create_session_def CreateSession_def Let_def auth_run_def)

lemma auth_movesI:
  assumes "\<And>a. svAuth s = Some a \<Longrightarrow> x = Some (rp, s') \<and> svAuth s' = Some (auth_run aevs a)
    \<and> list_all (justified w r a rp) aevs"
  shows "auth_moves w r s x"
  using assms unfolding auth_moves_def by fastforce

lemma page_handlers_auth:
  "auth_moves w r s (handleLoginPage w i r s)" "auth_moves w r s (handleAuthMe w i r s)"
proof -
  obtain u s1 where v: "validate w r s = (u, s1)" by (cases "validate w r s")
  show "auth_moves w r s (handleAuthMe w i r s)"
    by (rule auth_movesI [where aevs = "[AValidate (wNow w) r]"])
       (auto simp: handleAuthMe_def v dest!: validate_auth [OF _ v])
  show "auth_moves w r s (handleLoginPage w i r s)"
    unfolding auth_moves_def
    by (intro allI impI exI [of _ "[AValidate (wNow w) r]"])
       (auto simp: handleLoginPage_def v dest!: validate_auth [OF _ v] split: option.splits)
qed

lemma login_handlers_auth: "auth_moves w r s (handleLoginSubmit w i r s)"
proof (cases "\<exists>a. svAuth s = Some a \<and> AM_PasswordEnabled (svAuth s) \<and> CheckPassword (submitted_password r) (svAuth s)")
  case True
  then obtain a where a: "svAuth s = Some a" "AM_PasswordEnabled (Some a)" "CheckPassword (submitted_password r) (Some a)" by auto
  obtain c s1 where c: "create_session w ''admin'' a s = (c, s1)" by (cases "create_session w ''admin'' a s")
  show ?thesis
    unfolding auth_moves_def
    by (intro allI impI exI [of _ "[ACreate (wNow w) (wToken w) ''admin'']"])
       (use a create_session_auth [OF c] in \<open>auto simp: handleLoginSubmit_def c proves_login_def with_set_cookie_def
          simp del: auth_run_def\<close>)
next
  case False
  then show ?thesis by (intro auth_moves_same) (auto simp: handleLoginSubmit_def split: option.splits)
qed

lemma callback_run: "snd (HandleOAuthCallback now ow r a) = auth_run [ACallback now ow r] a"
  by (simp add: auth_run_def)

lemma oauth_handlers_auth:
  "auth_moves w r s (handleOAuthStart w i r s)" "auth_moves w r s (handleOAuthCallback w i r s)"
proof -
  show "auth_moves w r s (handleOAuthStart w i r s)"
  proof (cases "\<exists>a. svAuth s = Some a \<and> AM_OAuthEnabled (Some a)")
    case True
    then obtain a where a: "svAuth s = Some a" "AM_OAuthEnabled (Some a)" by blast
    obtain u a2 where st: "OAuthStartURL (wNow w) (wToken w) r (Some a) = (u, a2)"
      by (cases "OAuthStartURL (wNow w) (wToken w) r (Some a)")
    then have a2: "a2 = Some (auth_run [AStart (wNow w) (wToken w) r] a)"
      using start_state [of "wNow w" "wToken w" r a] by (simp add: auth_run_def)
    show ?thesis
      unfolding auth_moves_def
      by (intro allI impI exI [of _ "[AStart (wNow w) (wToken w) r]"])
         (use a in \<open>auto simp: handleOAuthStart_def st a2 split: sum.splits\<close>)
  next
    case False
    then show ?thesis by (intro auth_moves_same) (auto simp: handleOAuthStart_def)
  qed
  show "auth_moves w r s (handleOAuthCallback w i r s)"
  proof (cases "\<exists>a. svAuth s = Some a \<and> AM_OAuthEnabled (Some a)")
    case True
    then obtain a where a: "svAuth s = Some a" "AM_OAuthEnabled (Some a)" by blast
    obtain x a1 where h: "HandleOAuthCallback (wNow w) (wOAuth w) r a = (x, a1)"
      by (cases "HandleOAuthCallback (wNow w) (wOAuth w) r a")
    then have a1: "a1 = auth_run [ACallback (wNow w) (wOAuth w) r] a" using callback_run by (metis snd_conv)
    show ?thesis
    proof (cases x)
      case (Inl e)
      show ?thesis
        by (rule auth_movesI [where aevs = "[ACallback (wNow w) (wOAuth w) r]"])
           (use a h a1 Inl in \<open>auto simp: handleOAuthCallback_def\<close>)
    next
      case (Inr user)
      obtain c s1 where c: "create_session w user a1 s = (c, s1)" by (cases "create_session w user a1 s")
      have "svAuth s1 = Some (auth_run [ACallback (wNow w) (wOAuth w) r, ACreate (wNow w) (wToken w) user] a)"
        using create_session_auth [OF c] a1 by (simp add: auth_run_def)
      with create_session_auth [OF c] show ?thesis
        unfolding auth_moves_def
        by (intro allI impI exI [of _ "[ACallback (wNow w) (wOAuth w) r, ACreate (wNow w) (wToken w) user]"])
           (use a h Inr c in \<open>auto simp: handleOAuthCallback_def proves_login_def with_set_cookie_def\<close>)
    qed
  next
    case False
    then show ?thesis by (intro auth_moves_same) (auto simp: handleOAuthCallback_def split: option.splits)
  qed
qed

lemma logout_handler_auth: "auth_moves w r s (handleLogout w i r s)"
proof (cases "session_cookie r = []")
  case True
  then show ?thesis by (intro auth_moves_same) (auto simp: handleLogout_def Let_def split: option.splits)
next
  case False
  then show ?thesis
    unfolding auth_moves_def
    by (intro allI impI exI [of _ "[AInvalidate (session_cookie r)]"])
       (auto simp: handleLogout_def Let_def auth_run_def split: if_splits)
qed

subsection \<open>The whole interface\<close>

lemma find_route_match: "find_route rs r = Some (h, v) \<Longrightarrow> \<exists>pat. (pat, h) \<in> set rs \<and> match_pattern pat r = Some v"
  by (induction rs r rule: find_route.induct) (auto split: option.splits)

lemma routes_auth_all:
  "list_all (\<lambda>(pat, h). pat = ''PUT /api/v1/config'' \<or> (\<forall>w i r s. auth_moves w r s (h w i r s))) routes"
  by (simp add: routes_def auth_moves_same queue_handlers_auth job_handlers_auth read_handlers_auth page_handlers_auth
      login_handlers_auth oauth_handlers_auth logout_handler_auth)

lemma routes_auth: "(pat, h) \<in> set routes \<Longrightarrow> pat = ''PUT /api/v1/config'' \<or> auth_moves w r s (h w i r s)"
  using routes_auth_all unfolding list_all_iff by fast

lemma match_put: "match_pattern ''PUT /api/v1/config'' r = Some v \<Longrightarrow> rqMethod r = ''PUT''"
proof -
  have "Cut ''PUT /api/v1/config'' '' '' = (''PUT'', ''/api/v1/config'', True)" by code_simp
  then show "match_pattern ''PUT /api/v1/config'' r = Some v \<Longrightarrow> rqMethod r = ''PUT''"
    unfolding match_pattern_def by (simp split: if_splits)
qed

lemma ServeHTTP_auth: "rqMethod r \<noteq> ''PUT'' \<Longrightarrow> auth_moves w r s (ServeHTTP w r s)"
proof -
  assume m: "rqMethod r \<noteq> ''PUT''"
  have "auth_moves w r s (h w v r s)" if "find_route routes r = Some (h, v)" for h v
    using find_route_match [OF that] routes_auth match_put m by blast
  moreover have "auth_moves w r s (handleRoot w [] r s)" by (rule auth_moves_same) (rule read_handlers_auth)
  ultimately show ?thesis
    unfolding ServeHTTP_def by (auto intro: auth_moves_same split: option.split)
qed

lemma sessions_irrelevant:
  "take_state now st (a\<lparr>amSessions := ss\<rparr>) = (fst (take_state now st a), (snd (take_state now st a))\<lparr>amSessions := ss\<rparr>)"
  "exchange_code ow r code (a\<lparr>amSessions := ss\<rparr>) = exchange_code ow r code a"
  "fetch_user ow tok (a\<lparr>amSessions := ss\<rparr>) = fetch_user ow tok a"
  by (simp_all add: take_state_def exchange_code_def token_form_def redirect_uri_def fetch_user_def
      cong: sum.case_cong http_reply.case_cong)

lemma callback_sessions:
  "fst (HandleOAuthCallback now ow r (a\<lparr>amSessions := ss\<rparr>)) = fst (HandleOAuthCallback now ow r a)"
proof -
  let ?code = "QueryGet (URLQuery r) ''code''" and ?st = "QueryGet (URLQuery r) ''state''"
  obtain good am where t: "take_state now ?st a = (good, am)" by (cases "take_state now ?st a")
  show ?thesis
    unfolding HandleOAuthCallback_def Let_def sessions_irrelevant(1) t
    by (cases "exchange_code ow r ?code am"; cases "fetch_user ow (projr (exchange_code ow r ?code am)) am")
       (simp_all add: sessions_irrelevant(2,3))
qed

lemma proves_login_validate: "proves_login w r (auth_run [AValidate t r'] a) u = proves_login w r a u"
proof -
  have "auth_run [AValidate t r'] a = a\<lparr>amSessions := amSessions (auth_run [AValidate t r'] a)\<rparr>"
    using validate_state [of t r' a] by (auto simp: auth_run_def InvalidateSession_def)
  then have "fst (HandleOAuthCallback now ow r (auth_run [AValidate t r'] a)) = fst (HandleOAuthCallback now ow r a)" for now ow
    using callback_sessions by metis
  then show ?thesis by (simp add: proves_login_def)
qed

lemma justified_validate: "justified w r (auth_run [AValidate t r'] a) rp x \<Longrightarrow> justified w r a rp x"
  by (cases x) (simp_all add: proves_login_validate)

lemma WithAuth_auth: "rqMethod r \<noteq> ''PUT'' \<Longrightarrow> auth_moves w r s (WithAuth w r s)"
proof (cases "AuthEnabled s \<and> \<not> public_path (rqPath r)")
  case True
  assume m: "rqMethod r \<noteq> ''PUT''"
  obtain u s1 where v: "validate w r s = (u, s1)" by (cases "validate w r s")
  show ?thesis
  proof (cases u)
    case None
    then show ?thesis using True
      unfolding auth_moves_def
      by (intro allI impI exI [of _ "[AValidate (wNow w) r]"])
         (auto simp: WithAuth_def v Let_def dest!: validate_auth [OF _ v] split: if_splits)
  next
    case (Some user)
    have "\<exists>aevs. svAuth s' = Some (auth_run aevs a) \<and> list_all (justified w r a rp) aevs"
      if x: "ServeHTTP w r s1 = Some (rp, s')" and a: "svAuth s = Some a" for rp s' a
    proof -
      let ?v = "AValidate (wNow w) r"
      have s1: "svAuth s1 = Some (auth_run [?v] a)" using validate_auth [OF a v] by simp
      obtain aevs where e: "svAuth s' = Some (auth_run aevs (auth_run [?v] a))"
          "list_all (justified w r (auth_run [?v] a) rp) aevs"
        using ServeHTTP_auth [OF m, of w s1] x s1 unfolding auth_moves_def by blast
      have "list_all (justified w r a rp) (?v # aevs)"
        using e(2) justified_validate by (auto simp: list_all_iff)
      moreover have "svAuth s' = Some (auth_run (?v # aevs) a)" using e(1) by (simp add: auth_run_def)
      ultimately show ?thesis by blast
    qed
    then show ?thesis using True Some by (auto simp: auth_moves_def WithAuth_def v)
  qed
next
  case False
  assume m: "rqMethod r \<noteq> ''PUT''"
  show ?thesis using False ServeHTTP_auth [OF m] by (auto simp: WithAuth_def)
qed

subsection \<open>Runs\<close>

fun request_of :: "sev \<Rightarrow> (world \<times> request) option" where
  "request_of (SvLocal w r) = Some (w, r)"
| "request_of (SvRemote w r) = Some (w, r)"
| "request_of ev = None"

fun answer :: "sev \<Rightarrow> server \<Rightarrow> (response \<times> server) option" where
  "answer (SvLocal w r) s = ServeHTTP w r s"
| "answer (SvRemote w r) s = WithAuth w r s"
| "answer ev s = None"

text \<open>Some request of the run logged the user in at that time: it carried the password or came back
  from the provider for that user, and its answer set the cookie.\<close>

definition logged_in :: "server \<Rightarrow> sev list \<Rightarrow> string \<Rightarrow> string \<Rightarrow> int \<Rightarrow> bool" where
  "logged_in s0 evs tok user t \<longleftrightarrow> (\<exists>evs1 ev evs2 s1 a w r rp s2.
     evs = evs1 @ ev # evs2 \<and> s_run s0 evs1 s1 \<and> svAuth s1 = Some a \<and> request_of ev = Some (w, r)
     \<and> answer ev s1 = Some (rp, s2) \<and> justified w r a rp (ACreate t tok user))"

lemma logged_in_snoc: "logged_in s0 evs tok u t \<Longrightarrow> logged_in s0 (evs @ [ev]) tok u t"
  unfolding logged_in_def by (metis append.assoc append_Cons)

definition no_put :: "sev \<Rightarrow> bool" where
  "no_put ev \<longleftrightarrow> (case request_of ev of None \<Rightarrow> True | Some (w, r) \<Rightarrow> rqMethod r \<noteq> ''PUT'')"

lemma step_auth:
  assumes "s_step ev s = Some s'" and "no_put ev" and "svAuth s = Some a"
  shows "\<exists>aevs. svAuth s' = Some (auth_run aevs a) \<and> (request_of ev = None \<longrightarrow> aevs = [])
    \<and> (\<forall>w r. request_of ev = Some (w, r) \<longrightarrow> (\<exists>rp. answer ev s = Some (rp, s') \<and> list_all (justified w r a rp) aevs))"
proof (cases "request_of ev")
  case None
  have "svAuth s' = svAuth s" using None assms(1)
    by (cases ev) (auto simp: event_stream_next_def event_stream_tick_def on_queue_eq event_stream_close_def
        log_stream_next_def on_hub_def log_stream_close_def Let_def split: list.splits sum.splits prod.splits if_splits)
  then show ?thesis using None assms(3) by (intro exI [of _ "[]"]) simp
next
  case (Some wr)
  obtain w r where wr: "wr = (w, r)" by (cases wr)
  have m: "rqMethod r \<noteq> ''PUT''" using assms(2) Some wr by (simp add: no_put_def)
  have "auth_moves w r s (answer ev s)"
    using Some wr ServeHTTP_auth [OF m] WithAuth_auth [OF m] by (cases ev) auto
  moreover obtain rp where "answer ev s = Some (rp, s')" using assms(1) Some wr by (cases ev) auto
  ultimately show ?thesis using Some wr assms(3) by (auto simp: auth_moves_def)
qed

definition times_of :: "sev list \<Rightarrow> int set" where
  "times_of evs = {wNow w | w r. Some (w, r) \<in> request_of ` set evs}"

text \<open>The authentication after a run is what a history of its own makes of it, whose logins are those
  of the run.\<close>

lemma run_auth:
  assumes "s_run s0 evs s" and "svAuth s0 = Some a" and "list_all no_put evs"
  shows "\<exists>aevs. svAuth s = Some (auth_run aevs a)
    \<and> (\<forall>t tok u. ACreate t tok u \<in> set aevs \<longrightarrow> logged_in s0 evs tok u t)
    \<and> (\<forall>t r. AValidate t r \<in> set aevs \<longrightarrow> t \<in> times_of evs)"
  using assms
proof (induction rule: s_run.induct)
  case (nil s)
  then show ?case by (intro exI [of _ "[]"]) simp
next
  case (snoc s evs s' ev s'')
  then obtain aevs where IH: "svAuth s' = Some (auth_run aevs a)"
      "\<forall>t tok u. ACreate t tok u \<in> set aevs \<longrightarrow> logged_in s evs tok u t"
      "\<forall>t r. AValidate t r \<in> set aevs \<longrightarrow> t \<in> times_of evs" by auto
  from step_auth [OF snoc.hyps(3) _ IH(1)] snoc.prems(2) obtain new where
    new: "svAuth s'' = Some (auth_run new (auth_run aevs a))" "request_of ev = None \<longrightarrow> new = []"
      "\<forall>w r. request_of ev = Some (w, r) \<longrightarrow> (\<exists>rp. answer ev s' = Some (rp, s'')
         \<and> list_all (justified w r (auth_run aevs a) rp) new)" by auto
  have "logged_in s (evs @ [ev]) tok u t" if n: "ACreate t tok u \<in> set new" for t tok u
  proof -
    obtain w r rp where "request_of ev = Some (w, r)" "answer ev s' = Some (rp, s'')"
        "justified w r (auth_run aevs a) rp (ACreate t tok u)"
      using new(2,3) n by (cases "request_of ev") (auto simp: list_all_iff simp del: justified.simps)
    then show ?thesis unfolding logged_in_def using snoc.hyps(1) IH(1) by blast
  qed
  moreover have "t \<in> times_of (evs @ [ev])" if n: "AValidate t q \<in> set new" for t q
  proof -
    obtain w r where "request_of ev = Some (w, r)" "t = wNow w"
      using new(2,3) n by (cases "request_of ev") (fastforce simp: list_all_iff)+
    then show ?thesis by (auto simp: times_of_def)
  qed
  moreover have "times_of evs \<subseteq> times_of (evs @ [ev])" by (auto simp: times_of_def)
  ultimately show ?case using IH(2,3) new(1) logged_in_snoc
    by (intro exI [of _ "aevs @ new"]) (auto simp: auth_run_def)
qed

lemma granted_created: "granted aevs tok = Some (u, t) \<Longrightarrow> ACreate t tok u \<in> set aevs"
proof (induction aevs rule: rev_induct)
  case (snoc ev aevs)
  then show ?case by (cases ev) (auto split: if_splits)
qed simp

lemma presents_token_mono: "presents_token f r \<Longrightarrow> (\<And>tok. f tok \<noteq> None \<Longrightarrow> g tok \<noteq> None) \<Longrightarrow> presents_token g r"
  unfolding presents_token_def by blast

text \<open>The tokens that are good at a moment of a run.\<close>

definition good_token :: "server \<Rightarrow> sev list \<Rightarrow> int \<Rightarrow> string \<Rightarrow> string option" where
  "good_token s0 evs now tok =
     (if \<exists>user t. logged_in s0 evs tok user t \<and> now < t + sessionDuration then Some tok else None)"


text \<open>A login over TCP, and then a request without its cookie.\<close>

definition demo_login :: sev where
  "demo_login = SvRemote (demo_world 150) (with_body (dq ''{`password`: `s3cret`}'') (demo_request ''POST'' ''/auth/login''))"


subsection \<open>Authentication that cannot be set up\<close>

definition stays_open :: "server \<Rightarrow> (response \<times> server) option \<Rightarrow> bool" where
  "stays_open s x \<longleftrightarrow> (svAuth s = None \<longrightarrow> (\<forall>rp s'. x = Some (rp, s') \<longrightarrow> svAuth s' = None))"

lemma stays_open_same: "same_auth s x \<Longrightarrow> stays_open s x"
  by (simp add: stays_open_def same_auth_def)

lemma auth_handlers_open:
  "stays_open s (handleLoginPage w i r s)" "stays_open s (handleAuthMe w i r s)" "stays_open s (handleLoginSubmit w i r s)"
  "stays_open s (handleOAuthStart w i r s)" "stays_open s (handleOAuthCallback w i r s)" "stays_open s (handleLogout w i r s)"
  by (auto simp: stays_open_def handleLoginPage_def handleAuthMe_def handleLoginSubmit_def handleOAuthStart_def
      handleOAuthCallback_def handleLogout_def Let_def)

lemma routes_open_all:
  "list_all (\<lambda>(pat, h). pat = ''PUT /api/v1/config'' \<or> (\<forall>w i r s. stays_open s (h w i r s))) routes"
  by (simp add: routes_def stays_open_same queue_handlers_auth job_handlers_auth read_handlers_auth auth_handlers_open)

lemma ServeHTTP_open: "rqMethod r \<noteq> ''PUT'' \<Longrightarrow> stays_open s (ServeHTTP w r s)"
proof -
  assume m: "rqMethod r \<noteq> ''PUT''"
  have "stays_open s (h w v r s)" if "find_route routes r = Some (h, v)" for h v
    using find_route_match [OF that] routes_open_all match_put m unfolding list_all_iff by fast
  moreover have "stays_open s (handleRoot w [] r s)" by (rule stays_open_same) (rule read_handlers_auth)
  ultimately show ?thesis
    unfolding ServeHTTP_def by (auto intro: stays_open_same split: option.split)
qed

lemma open_run: "s_run s0 evs s \<Longrightarrow> svAuth s0 = None \<Longrightarrow> list_all no_put evs \<Longrightarrow> svAuth s = None"
proof (induction rule: s_run.induct)
  case (snoc s evs s' ev s'')
  then have n: "svAuth s' = None" "no_put ev" by simp_all
  have m: "rqMethod r \<noteq> ''PUT''" if "ev = SvLocal w r \<or> ev = SvRemote w r" for w r
    using that n(2) by (auto simp: no_put_def)
  have "WithAuth w r s' = ServeHTTP w r s'" for w r using n(1) by (simp add: WithAuth_def AuthEnabled_def)
  then show ?case using snoc.hyps(3) n(1) m ServeHTTP_open
    by (cases ev) (auto simp: stays_open_def event_stream_next_def event_stream_tick_def on_queue_eq event_stream_close_def
        log_stream_next_def on_hub_def log_stream_close_def Let_def split: list.splits sum.splits prod.splits if_splits)
qed

text \<open>The gate fails open: when the configuration asks for a password or an OAuth login but its
  secret cannot be read, \<open>NewServer\<close> drops the error, and until a configuration is saved the TCP
  listener serves every request as if authentication were off.\<close>

theorem NewServer_fails_open:
  assumes "Auth_Enabled (dcAuth (cfgDaemon cfg))" and "NewAuthManager rd disc (dcAuth (cfgDaemon cfg)) = Inl e"
    and "s_run (NewServer rd disc q cfg p f web) evs s" and "list_all no_put evs"
  shows "WithAuth w r s = ServeHTTP w r s"
proof -
  have "svAuth (NewServer rd disc q cfg p f web) = None" by (simp add: NewServer_def assms(2))
  from open_run [OF assms(3) this assms(4)] show ?thesis by (simp add: WithAuth_def AuthEnabled_def)
qed

text \<open>A password file that does not exist: the server deletes a job for anyone.\<close>

definition file_auth :: auth_config where
  "file_auth = no_auth\<lparr>acPasswordFile := ''/etc/mirrord.pass''\<rparr>"

theorem NewServer_fails_open_witness:
  "WithAuth (demo_world 300) (demo_request ''POST'' ''/api/v1/queue/pause'') (demo_server file_auth)
     = ServeHTTP (demo_world 300) (demo_request ''POST'' ''/api/v1/queue/pause'') (demo_server file_auth)
   \<and> Auth_Enabled file_auth"
proof -
  have c: "dcAuth (cfgDaemon (demo_cfg file_auth)) = file_auth" by (simp add: demo_cfg_def)
  have "\<exists>e. NewAuthManager no_reader (\<lambda>_. None) file_auth = Inl e"
    by (simp add: NewAuthManager_def PasswordValue_def file_auth_def no_auth_def no_reader_def)
  then obtain e where n: "NewAuthManager no_reader (\<lambda>_. None) (dcAuth (cfgDaemon (demo_cfg file_auth))) = Inl e"
    unfolding c by blast
  have a: "Auth_Enabled (dcAuth (cfgDaemon (demo_cfg file_auth)))"
    unfolding c by (simp add: file_auth_def Auth_Enabled_def)
  have r: "s_run (demo_server file_auth) [] (demo_server file_auth)" by (rule s_run.nil)
  note NewServer_fails_open [OF a n r [unfolded demo_server_def], folded demo_server_def,
      of "demo_world 300" "demo_request ''POST'' ''/api/v1/queue/pause''"]
  then show ?thesis using a c by simp
qed

end
