(* ===== verification/ServerOps.thy ===== *)
theory ServerOps
  imports ServerProps
begin

text \<open>
  What the handlers that change the daemon's jobs and settings do: submitting a job and saving the
  configuration.
\<close>

subsection \<open>Submitting a job\<close>

lemma map_of_merge_flags:
  "map_of (merge_flags defaults given) k = (case map_of given k of Some v \<Rightarrow> Some v | None \<Rightarrow> map_of defaults k)"
proof (induction defaults arbitrary: given)
  case Nil
  then show ?case by (simp add: merge_flags_def split: option.split)
next
  case (Cons kv defaults)
  obtain a v where kv: "kv = (a, v)" by (cases kv)
  have "merge_flags (kv # defaults) given = merge_flags defaults (if map_of given a = None then smap_put a v given else given)"
    by (simp add: merge_flags_def kv)
  then show ?case by (auto simp: Cons.IH kv split: option.split)
qed

lemma Enqueue_success:
  assumes "Enqueue now req q = (Inr job, q')"
  shows "jMethod job = sMethod req \<and> jSource job = sSource req \<and> jDestDir job = sDestDir req \<and> jFlags job = sFlags req
    \<and> jPriority job = sPriority req \<and> jState job = StateQueued \<and> qNotify q'
    \<and> (\<exists>j i. jobs (qStore q') = jobs (qStore q) @ [insert_row j i] \<and> job = j\<lparr>jID := i\<rparr>)"
proof -
  let ?j = "new_job\<lparr>jMethod := sMethod req, jSource := sSource req, jDestDir := sDestDir req, jFlags := sFlags req,
      jPriority := sPriority req, jMaxRetries := qMaxRetries q\<rparr>"
  obtain d where enq: "EnqueueJob now ?j (qStore q) = (Inr job, d)" and q': "q' = notify (q\<lparr>qStore := d\<rparr>)"
    using assms by (auto simp: Enqueue_def on_store_def split: sum.splits prod.splits)
  define e where "e = enqueue_defaults now ?j"
  have f: "jMethod e = sMethod req" "jSource e = sSource req" "jDestDir e = sDestDir req" "jFlags e = sFlags req"
    "jPriority e = sPriority req" "jState e = StateQueued"
    by (simp_all add: e_def enqueue_defaults_def Let_def new_job_def)
  obtain i where "job = e\<lparr>jID := i\<rparr>" "jobs d = jobs (qStore q) @ [insert_row e i]"
    using enq by (auto simp: EnqueueJob_def Let_def driver_def tick_def e_def [symmetric] split: list.splits option.splits prod.splits)
  with f q' show ?thesis by (auto simp: notify_def)
qed

lemma Enqueue_valid: "Validate req = Inr u \<Longrightarrow> TrimSpace (sSource req) \<noteq> []"
  by (simp add: Validate_def split: if_splits)

lemma fill_dest_cases:
  assumes "fill_dest reg cfg meth req = Inr dest"
  shows "if sDestDir req \<noteq> [] then dest = sDestDir req
    else (\<exists>mc. map_of (cfgMethods cfg) meth = Some mc \<and> mcDestDir mc \<noteq> [] \<and> dest = mcDestDir mc)
       \<or> (cfgDestDir cfg \<noteq> [] \<and> path_under (cfgDestDir cfg) dest)"
  using assms by (auto simp: fill_dest_def Let_def under_JoinPath_local split: if_splits option.splits)

lemma choose_method_cases:
  assumes "choose_method w req = Inr meth"
  shows "if sMethod req \<noteq> [] then meth = sMethod req \<and> GetMethod (wMethods w) meth \<noteq> None
    else (\<exists>m. Detect (wMethods w) (sSource req) = Some m \<and>
       (meth = mName m \<or> (mName m = ''http'' \<and> wProbe w (sSource req) \<and> meth = ''git'')))"
  using assms by (auto simp: choose_method_def split: if_splits option.splits)

text \<open>C16: Submitting a job: a request that is answered with 201 has put exactly one new job into the
  queue, in state queued, with the source it names, the method it names, which is registered, or the
  one detected from the source, the destination it names or else that of the method's section or
  one below the default directory, and the flags it gives, with those of the method's section where
  it gives none; one that is answered with 400 has changed nothing.\<close>

theorem submit_correct:
  assumes "handleSubmitJob w i r s = Some (rp, s')"
  shows "(rpStatus rp = 400 \<longrightarrow> s' = s)
    \<and> (rpStatus rp = 201 \<longrightarrow> (\<exists>req job j i. decode_submit (rqBody r) = Some req \<and> rpBody rp = BJob job
        \<and> jobs (qStore (svQueue s')) = jobs (qStore (svQueue s)) @ [insert_row j i] \<and> job = j\<lparr>jID := i\<rparr>
        \<and> jState job = StateQueued \<and> jSource job = sSource req \<and> jPriority job = sPriority req
        \<and> (if sMethod req \<noteq> [] then jMethod job = sMethod req \<and> GetMethod (wMethods w) (jMethod job) \<noteq> None
           else (\<exists>m. Detect (wMethods w) (sSource req) = Some m \<and>
             (jMethod job = mName m \<or> (mName m = ''http'' \<and> wProbe w (sSource req) \<and> jMethod job = ''git''))))
        \<and> (if sDestDir req \<noteq> [] then jDestDir job = sDestDir req
           else (\<exists>mc. map_of (cfgMethods (svCfg s)) (jMethod job) = Some mc \<and> mcDestDir mc \<noteq> [] \<and> jDestDir job = mcDestDir mc)
             \<or> (cfgDestDir (svCfg s) \<noteq> [] \<and> path_under (cfgDestDir (svCfg s)) (jDestDir job)))
        \<and> (\<forall>k. map_of (jFlags job) k = (case map_of (sFlags req) k of Some v \<Rightarrow> Some v
             | None \<Rightarrow> map_of (method_flags (svCfg s) (jMethod job)) k))))"
proof (cases "decode_submit (rqBody r)")
  case None
  then show ?thesis using assms by (auto simp: handleSubmitJob_def writeError_def writeJSON_def)
next
  case (Some req)
  show ?thesis
  proof (cases "isl (Validate req) \<or> isl (prepare_submit w (svCfg s) req)")
    case True
    then show ?thesis using assms Some
      by (auto simp: handleSubmitJob_def writeError_def writeJSON_def error_reply_def split: sum.splits)
  next
    case False
    then obtain u req' where v: "Validate req = Inr u" "prepare_submit w (svCfg s) req = Inr req'"
      by (cases "Validate req"; cases "prepare_submit w (svCfg s) req") simp_all
    then obtain meth dest where m: "choose_method w req = Inr meth" "fill_dest (wMethods w) (svCfg s) meth req = Inr dest"
        "req' = req\<lparr>sMethod := meth, sDestDir := dest, sFlags := merge_flags (method_flags (svCfg s) meth) (sFlags req)\<rparr>"
      by (auto simp: prepare_submit_def split: sum.splits)
    obtain x q where e: "Enqueue (wNow w) req' (svQueue s) = (x, q)" by (cases "Enqueue (wNow w) req' (svQueue s)")
    show ?thesis
    proof (cases x)
      case (Inl err)
      then show ?thesis using assms Some v e
        by (auto simp: handleSubmitJob_def on_queue_def error_reply_def writeError_def writeJSON_def)
    next
      case (Inr job)
      have rp: "rp = writeJSON 201 (BJob job)" "svQueue s' = q"
        using assms Some v e Inr by (auto simp: handleSubmitJob_def on_queue_def after_event_def broadcastEvent_def)
      from Enqueue_success [OF e [unfolded Inr]] obtain j i where j: "jMethod job = meth" "jSource job = sSource req"
          "jDestDir job = dest" "jFlags job = merge_flags (method_flags (svCfg s) meth) (sFlags req)"
          "jPriority job = sPriority req" "jState job = StateQueued"
          "jobs (qStore q) = jobs (qStore (svQueue s)) @ [insert_row j i]" "job = j\<lparr>jID := i\<rparr>"
        by (auto simp: m(3))
      have st: "rpStatus rp = 201" "rpBody rp = BJob job" by (simp_all add: rp(1) writeJSON_def)
      have fl: "map_of (jFlags job) k = (case map_of (sFlags req) k of Some v \<Rightarrow> Some v
             | None \<Rightarrow> map_of (method_flags (svCfg s) (jMethod job)) k)" for k
        by (simp add: j(1,4) map_of_merge_flags cong: option.case_cong)
      show ?thesis
        by (rule conjI, simp add: st, intro impI exI [of _ req] exI [of _ job] exI [of _ j] exI [of _ i] conjI allI)
          (use Some rp(2) j(1-3,5-8) st fl choose_method_cases [OF m(1)] fill_dest_cases [OF m(2)] in
            \<open>simp_all only:\<close>)
    qed
  qed
qed

text \<open>A source without a method, and one that no method takes.\<close>

definition demo_submit :: "string \<Rightarrow> (response \<times> server) option" where
  "demo_submit source = handleSubmitJob (demo_world 160) [] (with_body (dq (''{`source`: `'' @ source @ ''`}'')) (demo_request ''POST'' ''/api/v1/jobs''))
     (demo_server no_auth)"

theorem submit_correct_witness:
  "rpStatus (fst (the (demo_submit ''http://d/x''))) = 201
   \<and> (\<exists>j i. jobs (qStore (svQueue (snd (the (demo_submit ''http://d/x''))))) = jobs (qStore (demo_queue 5)) @ [insert_row j i])
   \<and> rpStatus (fst (the (demo_submit ''gopher:x''))) = 400
   \<and> snd (the (demo_submit ''gopher:x'')) = demo_server no_auth"
proof -
  have "demo_submit ''http://d/x'' \<noteq> None" "demo_submit ''gopher:x'' \<noteq> None" by code_simp+
  then have o: "demo_submit ''http://d/x'' = Some (fst (the (demo_submit ''http://d/x'')), snd (the (demo_submit ''http://d/x'')))"
    "demo_submit ''gopher:x'' = Some (fst (the (demo_submit ''gopher:x'')), snd (the (demo_submit ''gopher:x'')))" by simp_all
  have st: "rpStatus (fst (the (demo_submit ''http://d/x''))) = 201" "rpStatus (fst (the (demo_submit ''gopher:x''))) = 400"
    by code_simp+
  have q: "svQueue (demo_server no_auth) = demo_queue 5" by (simp add: demo_server_def)
  from submit_correct [OF o(1) [unfolded demo_submit_def], folded demo_submit_def, THEN conjunct2, THEN mp, OF st(1)]
    submit_correct [OF o(2) [unfolded demo_submit_def], folded demo_submit_def, THEN conjunct1, THEN mp, OF st(2)] st
  show ?thesis unfolding q by blast
qed

subsection \<open>Saving the configuration\<close>



end
