(* ===== verification/GoFS.thy ===== *)
theory GoFS
  imports GoPath
begin

text \<open>
  The part of the file system the crawlers use. Files and directories are kept under the elements of
  their cleaned paths; the paths of one run are all rooted or all relative, as they are built from
  one destination directory. The failures of system calls are inputs of the operations.
\<close>

datatype node = Dir | File string

type_synonym key = "string list"
type_synonym fs = "key \<Rightarrow> node option"

definition node_at :: "path \<Rightarrow> fs \<Rightarrow> node option" where
  "node_at p f = f (clean_elems p)"

definition is_file :: "node option \<Rightarrow> bool" where
  "is_file n = (case n of Some (File _) \<Rightarrow> True | _ \<Rightarrow> False)"

definition is_dir :: "node option \<Rightarrow> bool" where
  "is_dir n \<longleftrightarrow> n = Some Dir"

text \<open>\<open>os.MkdirAll\<close>: it fails on a file among the ancestors, and may fail after making some of the
  directories.\<close>

definition ancestors :: "key \<Rightarrow> key list" where
  "ancestors k = map (\<lambda>n. take n k) [1..<Suc (length k)]"

definition make_dir :: "key \<Rightarrow> fs \<Rightarrow> fs" where
  "make_dir k f = (if f k = None then f(k \<mapsto> Dir) else f)"

definition MkdirAll :: "(string \<times> nat) option \<Rightarrow> path \<Rightarrow> fs \<Rightarrow> string option \<times> fs" where
  "MkdirAll fault p f =
    (let ks = ancestors (clean_elems p) in
     if list_ex (\<lambda>k. is_file (f k)) ks then (Some ''not a directory'', f)
     else (case fault of
         Some (e, n) \<Rightarrow> (Some e, fold make_dir (take n ks) f)
       | None \<Rightarrow> (None, fold make_dir ks f)))"

definition put_file :: "path \<Rightarrow> string \<Rightarrow> fs \<Rightarrow> fs" where
  "put_file p c f = f(clean_elems p \<mapsto> File c)"

definition remove_file :: "path \<Rightarrow> fs \<Rightarrow> fs" where
  "remove_file p f = f(clean_elems p := None)"

subsection \<open>Facts\<close>

lemma ancestors_prefix: "a \<in> set (ancestors k) \<Longrightarrow> prefix a k"
  by (auto simp: ancestors_def intro: take_is_prefix)

lemma ancestors_self: "k \<noteq> [] \<Longrightarrow> k \<in> set (ancestors k)"
  unfolding ancestors_def by (cases k) (auto simp: image_iff intro!: bexI [of _ "length k"])

lemma make_dirs_change:
  "fold make_dir ks f k = f k \<or> (f k = None \<and> fold make_dir ks f k = Some Dir \<and> k \<in> set ks)"
proof (induction ks arbitrary: f)
  case (Cons a ks)
  have "make_dir a f k = f k \<or> (f k = None \<and> make_dir a f k = Some Dir \<and> k = a)" by (auto simp: make_dir_def)
  then show ?case using Cons [of "make_dir a f"] by auto
qed simp

lemma make_dirs_made: "k \<in> set ks \<Longrightarrow> fold make_dir ks f k \<noteq> None"
proof (induction ks arbitrary: f)
  case (Cons a ks)
  show ?case
  proof (cases "k \<in> set ks")
    case False
    then have "k = a" using Cons.prems by simp
    then have "make_dir a f k \<noteq> None" by (auto simp: make_dir_def)
    then show ?thesis using make_dirs_change [of ks "make_dir a f" k] by auto
  qed (use Cons in simp)
qed simp

lemma MkdirAll_change:
  assumes "MkdirAll fault p f = (r, f')"
  shows "f' k = f k \<or> (f k = None \<and> f' k = Some Dir \<and> prefix k (clean_elems p))"
proof -
  have "fold make_dir (take n ks) f k = f k \<or> (f k = None \<and> fold make_dir (take n ks) f k = Some Dir \<and> k \<in> set ks)" for n ks
    using make_dirs_change [of "take n ks" f k] in_set_takeD by fastforce
  moreover have "fold make_dir ks f k = f k \<or> (f k = None \<and> fold make_dir ks f k = Some Dir \<and> k \<in> set ks)" for ks
    by (rule make_dirs_change)
  ultimately show ?thesis using assms ancestors_prefix
    by (auto simp: MkdirAll_def Let_def split: if_splits option.splits prod.splits) blast+
qed

lemma MkdirAll_done:
  assumes "MkdirAll fault p f = (None, f')" and "clean_elems p \<noteq> []"
  shows "node_at p f' = Some Dir"
proof -
  let ?k = "clean_elems p"
  have f': "f' = fold make_dir (ancestors ?k) f" and nf: "\<not> is_file (f ?k)"
    using assms ancestors_self by (auto simp: MkdirAll_def Let_def list_ex_iff split: if_splits option.splits)
  have "f' ?k \<noteq> None" unfolding f' by (rule make_dirs_made [OF ancestors_self [OF assms(2)]])
  moreover have "f' ?k = f ?k \<or> f' ?k = Some Dir" using make_dirs_change [of "ancestors ?k" f ?k] f' by auto
  ultimately show ?thesis using nf by (auto simp: node_at_def is_file_def split: option.splits node.splits)
qed

text \<open>A suffix added to the last element of a cleaned path.\<close>

definition plain_suffix :: "string \<Rightarrow> bool" where
  "plain_suffix x \<longleftrightarrow> 2 < length x \<and> slash \<notin> set x"

definition with_suffix :: "bool \<Rightarrow> key \<Rightarrow> string \<Rightarrow> key" where
  "with_suffix r es x = (if es = [] then [(if r then [] else ''.'') @ x] else butlast es @ [last es @ x])"

lemma plain_suffix_elem: "plain_suffix x \<Longrightarrow> slash \<notin> set a \<Longrightarrow> plain_elem (a @ x)"
proof -
  assume x: "plain_suffix x" and a: "slash \<notin> set a"
  have l: "2 < length (a @ x)" using x by (simp add: plain_suffix_def)
  have "a @ x \<noteq> y" if "length y \<le> 2" for y using l that by (metis linorder_not_less)
  from this [of "''.''"] this [of "''..''"] this [of "[]"] have "a @ x \<noteq> ''.''" "a @ x \<noteq> ''..''" "a @ x \<noteq> []" by simp_all
  then show ?thesis using x a by (simp add: plain_elem_def plain_suffix_def)
qed

lemma Join_last: "es \<noteq> [] \<Longrightarrow> Join (es @ [e]) s = Join es s @ s @ e"
  by (induction es s rule: Join.induct) auto

lemma Join_suffix: "es \<noteq> [] \<Longrightarrow> Join es s @ x = Join (butlast es @ [last es @ x]) s"
  by (cases es rule: rev_cases; cases "butlast es = []") (auto simp: Join_last)

lemma dots_butlast: "dots_then_plain es \<Longrightarrow> es \<noteq> [] \<Longrightarrow> dots_then_plain (butlast es)"
proof -
  assume "dots_then_plain es" and ne: "es \<noteq> []"
  then obtain n gs where g: "es = replicate n ''..'' @ gs" "list_all plain_elem gs"
    unfolding dots_then_plain_def by blast
  show ?thesis
  proof (cases "gs = []")
    case True
    then obtain m where "n = Suc m" using g(1) ne by (cases n) auto
    then have "es = replicate m ''..'' @ [''..'']" using g(1) True by (simp add: replicate_append_same)
    then have "butlast es = replicate m ''..'' @ []" by simp
    then show ?thesis unfolding dots_then_plain_def by (intro exI [of _ m] exI [of _ "[]"]) simp
  next
    case False
    then have "butlast es = replicate n ''..'' @ butlast gs" using g(1) by (simp add: butlast_append)
    moreover have "list_all plain_elem (butlast gs)" using g(2) by (auto simp: list_all_iff dest: in_set_butlastD)
    ultimately show ?thesis unfolding dots_then_plain_def by blast
  qed
qed

lemma dots_snoc: "dots_then_plain es \<Longrightarrow> plain_elem e \<Longrightarrow> dots_then_plain (es @ [e])"
proof -
  assume "dots_then_plain es" and e: "plain_elem e"
  then obtain n gs where "es = replicate n ''..'' @ gs" "list_all plain_elem gs"
    unfolding dots_then_plain_def by blast
  then show ?thesis using e unfolding dots_then_plain_def
    by (intro exI [of _ n] exI [of _ "gs @ [e]"]) simp
qed

lemma clean_elems_Join: "dots_then_plain es \<Longrightarrow> clean_elems (Join es [slash]) = es"
proof (cases "es = []")
  case True
  have "\<not> rooted []" by (simp add: rooted_def HasPrefix_def)
  then show ?thesis using True by (simp add: clean_elems_def)
next
  case False
  assume d: "dots_then_plain es"
  have "Split (Join es [slash]) slash = es" by (rule Split_Join) (use False dots_no_slash [OF d] in auto)
  then show ?thesis using unrooted_Join [OF d False]
    by (simp add: clean_elems_def [of "Join _ _"] foldl_clean_dots_id [OF d])
qed

lemma clean_elems_suffix:
  assumes "plain_suffix x"
  shows "clean_elems (Clean p @ x) = with_suffix (rooted p) (clean_elems p) x"
proof (cases "clean_elems p = []")
  case True
  have "slash \<notin> set ''.''" by (simp add: slash_def)
  then have pl: "plain_elem x" "plain_elem (''.'' @ x)"
    using plain_suffix_elem [OF assms, of "[]"] plain_suffix_elem [OF assms, of "''.''"] by simp_all
  have "Clean p = (if rooted p then [slash] else ''.'')" using True by (simp add: Clean_def unclean_def)
  moreover have "clean_elems (slash # x) = [x]" using clean_elems_unclean_rooted [of "[x]"] pl by simp
  moreover have "clean_elems (''.'' @ x) = [''.'' @ x]"
  proof -
    have "\<not> rooted (''.'' @ x)" by (simp add: rooted_def HasPrefix_def)
    moreover have "Split (''.'' @ x) slash = [''.'' @ x]" using pl(2) Split_Join_plain [of "[''.'' @ x]"] by simp
    ultimately show ?thesis using foldl_clean_plain [of "[''.'' @ x]" False "[]"] pl(2)
      by (simp add: clean_elems_def del: clean_step.simps)
  qed
  ultimately show ?thesis using True by (simp add: with_suffix_def)
next
  case ne: False
  let ?es = "clean_elems p" and ?fs = "butlast (clean_elems p) @ [last (clean_elems p) @ x]"
  have w: "with_suffix (rooted p) ?es x = ?fs" using ne by (simp add: with_suffix_def)
  have lp: "plain_elem (last ?es @ x)"
    using dots_no_slash [OF clean_elems_shape last_in_set [OF ne]] plain_suffix_elem [OF assms] by blast
  show ?thesis
  proof (cases "rooted p")
    case True
    then have "list_all plain_elem ?es" by (rule clean_elems_rooted_plain)
    then have "list_all plain_elem ?fs" using lp by (auto simp: list_all_iff dest: in_set_butlastD)
    moreover have "Clean p @ x = slash # Join ?fs [slash]"
      using True Join_suffix [OF ne] by (simp add: Clean_def unclean_def)
    ultimately show ?thesis using clean_elems_unclean_rooted w by simp
  next
    case False
    have d: "dots_then_plain ?fs" using dots_butlast [OF clean_elems_shape ne] lp by (rule dots_snoc)
    have "Clean p @ x = Join ?fs [slash]" using False ne Join_suffix [OF ne] by (simp add: Clean_def unclean_def)
    then show ?thesis using w clean_elems_Join [OF d] by simp
  qed
qed

lemma LastIndexByte_last: "c \<notin> set b \<Longrightarrow> LastIndexByte (a @ c # b) c = Some (length a)"
proof -
  assume c: "c \<notin> set b"
  have "LastIndexByte b c = None" using c by (induction b) auto
  then show ?thesis by (induction a) auto
qed

text \<open>The directory of a cleaned path.\<close>

lemma DirPath_prefix: "prefix (clean_elems (DirPath (Clean p))) (clean_elems p)"
proof (cases "clean_elems p" rule: rev_cases)
  case Nil
  have "clean_elems ''.'' = []" "clean_elems ''/'' = []" "DirPath ''.'' = ''.''" "DirPath ''/'' = ''/''" by code_simp+
  moreover have "Clean p = ''.'' \<or> Clean p = ''/''" using Nil by (simp add: Clean_def unclean_def slash_def)
  ultimately show ?thesis by fastforce
next
  case (snoc es e)
  have ne: "slash \<notin> set e" using dots_no_slash [OF clean_elems_shape, of e p] snoc by simp
  have d: "dots_then_plain es" using dots_butlast [OF clean_elems_shape, of p] snoc by simp
  have nil: "clean_elems ''.'' = []" "clean_elems [slash] = []" by code_simp+
  show ?thesis
  proof (cases "es = []")
    case True
    have "LastIndexByte e slash = None" using ne by (induction e) auto
    then have "DirPath e = ''.''" by (simp add: DirPath_def)
    moreover have "DirPath (slash # e) = Clean [slash]"
      using LastIndexByte_last [OF ne, of "[]"] by (simp add: DirPath_def)
    ultimately show ?thesis using snoc True nil by (simp add: Clean_def [of p] unclean_def)
  next
    case False
    have J: "Join (es @ [e]) [slash] = Join es [slash] @ slash # e" using False by (simp add: Join_last)
    have D: "DirPath (a @ slash # e) = Clean (a @ [slash])" for a
      using LastIndexByte_last [OF ne, of a] by (simp add: DirPath_def)
    have jn: "Join es [slash] \<noteq> []"
      using clean_elems_Join [OF d] False by (metis clean_elems_Join dots_then_plain_Nil Join.simps(1))
    have e1: "clean_elems (Join es [slash] @ [slash]) = es"
      using clean_elems_append_plain_nil [OF jn] clean_elems_Join [OF d] by simp
    have e2: "clean_elems (slash # Join es [slash] @ [slash]) = es" if "rooted p"
    proof -
      have "list_all plain_elem es" using clean_elems_rooted_plain [OF that] snoc by simp
      then show ?thesis
        using clean_elems_append_plain_nil [of "slash # Join es [slash]"] clean_elems_unclean_rooted by simp
    qed
    show ?thesis
      using snoc J D [of "Join es [slash]"] D [of "slash # Join es [slash]"] e1 e2
      by (simp add: Clean_def [of p] unclean_def)
  qed
qed

end
