(* ===== verification/Gopher.thy ===== *)
theory Gopher
  imports GoFS GoUrl
begin

text \<open>
  \<open>gopher/gopher.go\<close>: the recursive crawl of a Gopher menu tree. The crawl reads the network and the
  clock and may fail in every system call: the \<open>n\<close>-th attempt to fetch an item takes its outcomes
  from the \<open>n\<close>-th record of an arbitrary sequence, so a statement over all sequences covers every
  server, also one that answers the same selector differently each time. \<open>get\<close> and \<open>readMenu\<close> call each other without
  a bound of their own, so \<open>get\<close> has fuel; \<open>None\<close> is a crawl that is still running. Sleeping and
  logging are left out.
\<close>

subsection \<open>Menus\<close>

definition typeText :: char where "typeText = CHR ''0''"
definition typeMenu :: char where "typeMenu = CHR ''1''"
definition typeError :: char where "typeError = CHR ''3''"
definition typeInfo :: char where "typeInfo = CHR ''i''"

definition followTypes :: string where
  "followTypes = ''014569gI''"

record dirent =
  deType :: char
  deDisplay :: string
  deSelector :: string
  deHost :: string
  dePort :: string

text \<open>\<open>direntRe\<close>: a type, then fields between tabs, the fourth made of digits, and what follows a fifth
  tab without a line feed.\<close>

definition direntRe :: "string \<Rightarrow> dirent option" where
  "direntRe line = (case line of
     [] \<Rightarrow> None
   | t # r \<Rightarrow>
      (if t \<notin> set ''0123456789+TgIih'' then None
       else (case Split r (CHR 0x09) of
          display # selector # hst # prt # extra \<Rightarrow>
            (if list_all is_digit prt \<and> list_all (\<lambda>m. CHR 0x0A \<notin> set m) extra
             then Some \<lparr>deType = t, deDisplay = display, deSelector = selector, deHost = hst, dePort = prt\<rparr>
             else None)
        | _ \<Rightarrow> None)))"

text \<open>\<open>bytes.Split\<close> at \<open>crlf\<close>.\<close>

fun split_crlf :: "string \<Rightarrow> string list" where
  "split_crlf [] = [[]]"
| "split_crlf [a] = [[a]]"
| "split_crlf (a # b # r) =
     (if a = CHR 0x0D \<and> b = CHR 0x0A then [] # split_crlf r
      else (case split_crlf (b # r) of [] \<Rightarrow> [[a]] | p # ps \<Rightarrow> (a # p) # ps))"

fun sniff_loop :: "string list \<Rightarrow> nat \<Rightarrow> bool" where
  "sniff_loop [] matched = (0 < matched)"
| "sniff_loop (line # rest) matched =
     (if line = [] \<or> line = ''.'' then sniff_loop rest matched
      else if direntRe line \<noteq> None then sniff_loop rest (Suc matched)
      else if rest = [] then sniff_loop rest matched
      else False)"

definition sniffIsMenu :: "string \<Rightarrow> bool" where
  "sniffIsMenu chunk = sniff_loop (split_crlf chunk) 0"

subsection \<open>The crawl\<close>

definition gopher_tmpSuffix :: string where
  "gopher_tmpSuffix = ''.gopher-tmp''"

definition maxAttempts :: nat where
  "maxAttempts = 5"

record crawl =
  cHostname :: string
  cPort :: string
  cBasedir :: path
  cRootDir :: path

text \<open>A connection: a failure up to the first read, or the first chunk, the rest of the response, and
  the error that ended it instead of the end of the stream.\<close>

datatype conn = ConnFailed string | Conn string string "string option"

record attempt =
  atCtx :: "string option"              \<comment> \<open>the context is cancelled before\<close>
  atConn :: "string \<Rightarrow> conn"            \<comment> \<open>the answer to a selector\<close>
  atWait :: "string option"             \<comment> \<open>the context is cancelled in the wait after a failure\<close>
  atMkdir :: "(string \<times> nat) option"
  atCreate :: "string option"
  atWrite :: "string option"            \<comment> \<open>writing or closing the temporary file\<close>
  atRename :: "string option"
  atReadme :: "(string \<times> string option) option"   \<comment> \<open>an error, and what it left of the file\<close>

record gstate =
  gSeen :: "string list"
  gFs :: fs
  gTick :: nat

definition gopher_localPath :: "crawl \<Rightarrow> string \<Rightarrow> path option" where
  "gopher_localPath c selector =
    (let full = JoinPath [cBasedir c, Clean (''/'' @ TrimPrefix selector ''/'')] in
     case Rel (cRootDir c) full of
       None \<Rightarrow> None
     | Some rel \<Rightarrow> if rel = ''..'' \<or> HasPrefix rel ''../'' then None else Some full)"

definition gopher_writeFile :: "attempt \<Rightarrow> string \<Rightarrow> string \<Rightarrow> string option \<Rightarrow> path \<Rightarrow> fs \<Rightarrow> string option \<times> fs" where
  "gopher_writeFile a first rest readErr localPath f =
    (case MkdirAll (atMkdir a) (DirPath localPath) f of
       (Some e, f1) \<Rightarrow> (Some e, f1)
     | (None, f1) \<Rightarrow>
        (let tmpPath = localPath @ gopher_tmpSuffix in
         if is_dir (node_at tmpPath f1) then (Some ''is a directory'', f1)
         else (case atCreate a of
            Some e \<Rightarrow> (Some e, f1)
          | None \<Rightarrow>
             (case (atWrite a, readErr) of
                (Some e, _) \<Rightarrow> (Some e, remove_file tmpPath f1)
              | (None, Some e) \<Rightarrow> (Some e, remove_file tmpPath f1)
              | (None, None) \<Rightarrow>
                 (let f2 = put_file tmpPath (first @ rest) f1 in
                  if is_dir (node_at localPath f2) then (Some ''file exists'', f2)
                  else (case atRename a of
                     Some e \<Rightarrow> (Some e, f2)
                   | None \<Rightarrow> (None, put_file localPath (first @ rest) (remove_file tmpPath f2))))))))"

type_synonym getter = "string \<Rightarrow> char option \<Rightarrow> gstate \<Rightarrow> (string option \<times> gstate) option"

text \<open>The entries of a menu: the text of its \<open>i\<close> lines is collected, entries of a type to follow on this
  host are fetched, everything else is skipped.\<close>

definition follow_entry :: "crawl \<Rightarrow> dirent \<Rightarrow> bool" where
  "follow_entry c de \<longleftrightarrow> deType de \<in> set followTypes \<and> EqualFold (deHost de) (cHostname c) \<and> dePort de = cPort c"

fun menu_items :: "getter \<Rightarrow> crawl \<Rightarrow> string list \<Rightarrow> string \<Rightarrow> gstate \<Rightarrow> (string option \<times> string \<times> gstate) option" where
  "menu_items rec c [] readme s = Some (None, readme, s)"
| "menu_items rec c (line # rest) readme s =
    (if line = [] \<or> line = ''.'' then menu_items rec c rest readme s
     else (case direntRe line of
        None \<Rightarrow> menu_items rec c rest readme s
      | Some de \<Rightarrow>
         (if deType de = typeInfo then menu_items rec c rest (readme @ deDisplay de @ [CHR 0x0A]) s
          else if deType de = typeError then menu_items rec c rest readme s
          else if \<not> follow_entry c de then menu_items rec c rest readme s
          else (case rec (deSelector de) (Some (deType de)) s of
             None \<Rightarrow> None
           | Some (Some e, s1) \<Rightarrow> Some (Some e, readme, s1)
           | Some (None, s1) \<Rightarrow> menu_items rec c rest readme s1))))"

definition write_readme :: "attempt \<Rightarrow> path \<Rightarrow> string \<Rightarrow> fs \<Rightarrow> string option \<times> fs" where
  "write_readme a localDir readme f =
    (let p = JoinPath [localDir, ''00README''] in
     if readme = [] then (None, f)
     else if is_dir (node_at p f) then (Some ''is a directory'', f)
     else (case atReadme a of
        Some (e, Some left) \<Rightarrow> (Some e, put_file p left f)
      | Some (e, None) \<Rightarrow> (Some e, f)
      | None \<Rightarrow> (None, put_file p readme f)))"

definition readMenu :: "getter \<Rightarrow> crawl \<Rightarrow> attempt \<Rightarrow> string \<Rightarrow> path \<Rightarrow> gstate \<Rightarrow> (string option \<times> gstate) option" where
  "readMenu rec c a buf localDir s =
    (case MkdirAll (atMkdir a) localDir (gFs s) of
       (Some e, f1) \<Rightarrow> Some (Some e, s\<lparr>gFs := f1\<rparr>)
     | (None, f1) \<Rightarrow>
        (case menu_items rec c (split_crlf buf) [] (s\<lparr>gFs := f1\<rparr>) of
           None \<Rightarrow> None
         | Some (Some e, _, s1) \<Rightarrow> Some (Some e, s1)
         | Some (None, readme, s1) \<Rightarrow>
            (case write_readme a localDir readme (gFs s1) of (e, f2) \<Rightarrow> Some (e, s1\<lparr>gFs := f2\<rparr>))))"

definition gopher_fetch :: "getter \<Rightarrow> crawl \<Rightarrow> attempt \<Rightarrow> string \<Rightarrow> char option \<Rightarrow> path \<Rightarrow> gstate \<Rightarrow> (string option \<times> gstate) option" where
  "gopher_fetch rec c a selector itemType localPath s =
    (case atConn a selector of
       ConnFailed e \<Rightarrow> Some (Some e, s)
     | Conn first rest readErr \<Rightarrow>
        (if first = [] then Some (None, s)
         else if itemType = Some typeMenu \<or> (itemType = None \<and> sniffIsMenu first)
         then readMenu rec c a (first @ rest) localPath s
         else (case gopher_writeFile a first rest readErr localPath (gFs s) of
            (e, f1) \<Rightarrow> Some (e, s\<lparr>gFs := f1\<rparr>))))"

text \<open>The retry loop with \<open>k\<close> attempts left; after the last one the item is given up.\<close>

fun attempts :: "getter \<Rightarrow> crawl \<Rightarrow> (nat \<Rightarrow> attempt) \<Rightarrow> nat \<Rightarrow> string \<Rightarrow> char option \<Rightarrow> path \<Rightarrow> gstate \<Rightarrow> (string option \<times> gstate) option" where
  "attempts rec c env 0 selector itemType localPath s = Some (None, s)"
| "attempts rec c env (Suc k) selector itemType localPath s =
    (let a = env (gTick s); s0 = s\<lparr>gTick := Suc (gTick s)\<rparr> in
     case atCtx a of
       Some e \<Rightarrow> Some (Some e, s0)
     | None \<Rightarrow>
        (case gopher_fetch rec c a selector itemType localPath s0 of
           None \<Rightarrow> None
         | Some (None, s1) \<Rightarrow> Some (None, s1)
         | Some (Some e, s1) \<Rightarrow>
            (if k = 0 then Some (None, s1)
             else (case atWait a of
                Some e1 \<Rightarrow> Some (Some e1, s1)
              | None \<Rightarrow> attempts rec c env k selector itemType localPath s1))))"

primrec gopher_get :: "nat \<Rightarrow> crawl \<Rightarrow> (nat \<Rightarrow> attempt) \<Rightarrow> getter" where
  "gopher_get 0 c env selector itemType s = None"
| "gopher_get (Suc n) c env selector itemType s =
    (if selector \<in> set (gSeen s) then Some (None, s)
     else (let s1 = s\<lparr>gSeen := selector # gSeen s\<rparr> in
       case gopher_localPath c selector of
         None \<Rightarrow> Some (None, s1)
       | Some localPath \<Rightarrow>
          (case node_at localPath (gFs s1) of
             Some (File _) \<Rightarrow> Some (None, s1)
           | Some Dir \<Rightarrow> attempts (gopher_get n c env) c env maxAttempts selector (Some typeMenu) localPath s1
           | None \<Rightarrow> attempts (gopher_get n c env) c env maxAttempts selector itemType localPath s1)))"

text \<open>The start of \<open>Mirror\<close>: the crawl, the first selector and its type.\<close>

definition gopher_start :: "string \<Rightarrow> path \<Rightarrow> string + (crawl \<times> string \<times> char option)" where
  "gopher_start source destDir =
    (case Parse source of
       Inl e \<Rightarrow> Inl (''parsing '' @ Quote source @ '': '' @ e)
     | Inr u \<Rightarrow>
        (if Scheme u \<noteq> [] \<and> Scheme u \<noteq> ''gopher'' then Inl (''not a gopher:// URL: '' @ Quote source)
         else if Hostname u = [] then Inl (''no host in '' @ Quote source)
         else
          (let prt = (if Port u = [] then ''70'' else Port u);
               menu = HasPrefix (Path u) ''/1/'';
               selector = (if menu then drop 2 (Path u) else Path u);
               basedir = JoinPath [destDir, Hostname u]
           in Inr (\<lparr>cHostname = Hostname u, cPort = prt, cBasedir = basedir,
                    cRootDir = JoinPath [basedir, Clean (''/'' @ TrimPrefix selector ''/'')]\<rparr>,
                   selector, if menu then Some typeMenu else None))))"

definition gopher_Mirror :: "nat \<Rightarrow> (nat \<Rightarrow> attempt) \<Rightarrow> string \<Rightarrow> path \<Rightarrow> fs \<Rightarrow> (string option \<times> gstate) option" where
  "gopher_Mirror fuel env source destDir f =
    (case gopher_start source destDir of
       Inl e \<Rightarrow> Some (Some e, \<lparr>gSeen = [], gFs = f, gTick = 0\<rparr>)
     | Inr (c, selector, itemType) \<Rightarrow>
         gopher_get fuel c env selector itemType \<lparr>gSeen = [], gFs = f, gTick = 0\<rparr>)"

end
