(* ===== verification/GopherProps.thy ===== *)
theory GopherProps
  imports Gopher
begin

text \<open>
  The crawl of a Gopher menu tree ends whenever the server's menus offer finitely many selectors, and
  whatever the server sends it writes complete files below the requested directory only.
\<close>

subsection \<open>Termination\<close>

text \<open>The selectors the menus of a response offer to follow.\<close>

definition offers :: "crawl \<Rightarrow> attempt \<Rightarrow> string set" where
  "offers c a = {deSelector de | sel first rest e line de. atConn a sel = Conn first rest e
     \<and> line \<in> set (split_crlf (first @ rest)) \<and> direntRe line = Some de \<and> follow_entry c de}"

text \<open>A run ends, keeps what it has seen, and pays for its attempts with new selectors.\<close>

definition visits :: "gstate \<Rightarrow> gstate \<Rightarrow> bool" where
  "visits s s' \<longleftrightarrow> set (gSeen s) \<subseteq> set (gSeen s')
     \<and> gTick s' + maxAttempts * card (set (gSeen s)) \<le> gTick s + maxAttempts * card (set (gSeen s'))"

lemma visits_refl [simp]: "visits s s"
  by (simp add: visits_def)

lemma visits_trans: "visits s s' \<Longrightarrow> visits s' s'' \<Longrightarrow> visits s s''"
  by (auto simp: visits_def)

lemma visits_fs [simp]: "visits s (s'\<lparr>gFs := f\<rparr>) = visits s s'" "visits (s\<lparr>gFs := f\<rparr>) s' = visits s s'"
  by (simp_all add: visits_def)

definition ends :: "string set \<Rightarrow> nat \<Rightarrow> getter \<Rightarrow> bool" where
  "ends S n rec \<longleftrightarrow> (\<forall>sel ty s. sel \<in> S \<longrightarrow> card (S - set (gSeen s)) < n \<longrightarrow> (\<exists>r s'. rec sel ty s = Some (r, s') \<and> visits s s'))"

lemma unseen_mono: "finite S \<Longrightarrow> visits s s' \<Longrightarrow> card (S - set (gSeen s')) \<le> card (S - set (gSeen s))"
  by (rule card_mono) (auto simp: visits_def)

lemma menu_items_end:
  assumes "ends S n rec" and "finite S"
    and "\<forall>line \<in> set lines. \<forall>de. direntRe line = Some de \<and> follow_entry c de \<longrightarrow> deSelector de \<in> S"
    and "card (S - set (gSeen s)) < n"
  shows "\<exists>r rm s'. menu_items rec c lines readme s = Some (r, rm, s') \<and> visits s s'"
  using assms(3,4)
proof (induction lines arbitrary: readme s)
  case (Cons line rest)
  have IH: "\<exists>r rm s'. menu_items rec c rest readme s1 = Some (r, rm, s') \<and> visits s1 s'"
    if "card (S - set (gSeen s1)) < n" for readme s1
    by (rule Cons.IH [OF _ that]) (use Cons.prems(1) in simp)
  show ?case
  proof (cases "line = [] \<or> line = ''.'' \<or> direntRe line = None")
    case True
    then show ?thesis using IH Cons.prems(2) by auto
  next
    case False
    then obtain de where d: "direntRe line = Some de" by auto
    show ?thesis
    proof (cases "deType de = typeInfo \<or> deType de = typeError \<or> \<not> follow_entry c de")
      case True
      then show ?thesis using IH Cons.prems(2) d False by auto
    next
      case f: False
      then have "deSelector de \<in> S" using Cons.prems(1) d by simp
      then obtain r s1 where r: "rec (deSelector de) (Some (deType de)) s = Some (r, s1)" "visits s s1"
        using assms(1) Cons.prems(2) unfolding ends_def by blast
      have "card (S - set (gSeen s1)) < n" using unseen_mono [OF assms(2) r(2)] Cons.prems(2) by simp
      from IH [OF this] obtain r' rm s' where
        "menu_items rec c rest readme s1 = Some (r', rm, s')" "visits s1 s'" by blast
      then show ?thesis using d f False r visits_trans by (cases r) auto
    qed
  qed
qed simp

lemma fetch_ends:
  assumes "ends S n rec" and "finite S" and "offers c a \<subseteq> S" and "card (S - set (gSeen s)) < n"
  shows "\<exists>r s'. gopher_fetch rec c a sel ty p s = Some (r, s') \<and> visits s s'"
proof (cases "atConn a sel")
  case (ConnFailed e)
  then show ?thesis by (simp add: gopher_fetch_def)
next
  case (Conn first rest readErr)
  let ?lines = "split_crlf (first @ rest)"
  have sub: "\<forall>line \<in> set ?lines. \<forall>de. direntRe line = Some de \<and> follow_entry c de \<longrightarrow> deSelector de \<in> S"
    using assms(3) Conn unfolding offers_def by blast
  have m: "\<exists>r s'. readMenu rec c a (first @ rest) p s = Some (r, s') \<and> visits s s'"
  proof (cases "MkdirAll (atMkdir a) p (gFs s)")
    case (Pair r f1)
    obtain r' rm s' where i: "menu_items rec c ?lines [] (s\<lparr>gFs := f1\<rparr>) = Some (r', rm, s')" "visits (s\<lparr>gFs := f1\<rparr>) s'"
      using menu_items_end [OF assms(1,2) sub, of "s\<lparr>gFs := f1\<rparr>" "[]"] assms(4) by auto
    then show ?thesis using Pair by (cases r; cases r') (auto simp: readMenu_def split: prod.split)
  qed
  show ?thesis using Conn m by (auto simp: gopher_fetch_def split: prod.split)
qed

lemma attempts_end:
  assumes "ends S n rec" and "finite S" and "\<forall>t. offers c (env t) \<subseteq> S" and "card (S - set (gSeen s)) < n"
  shows "\<exists>r s'. attempts rec c env k sel ty p s = Some (r, s') \<and> set (gSeen s) \<subseteq> set (gSeen s')
     \<and> gTick s' + maxAttempts * card (set (gSeen s)) \<le> gTick s + k + maxAttempts * card (set (gSeen s'))"
  using assms(4)
proof (induction k arbitrary: s)
  case (Suc k)
  let ?a = "env (gTick s)" and ?s0 = "s\<lparr>gTick := Suc (gTick s)\<rparr>"
  obtain r s1 where f: "gopher_fetch rec c ?a sel ty p ?s0 = Some (r, s1)" "visits ?s0 s1"
    using fetch_ends [OF assms(1,2) assms(3) [rule_format], of ?s0] Suc.prems by fastforce
  have v: "set (gSeen s) \<subseteq> set (gSeen s1)"
      "gTick s1 + maxAttempts * card (set (gSeen s)) \<le> Suc (gTick s) + maxAttempts * card (set (gSeen s1))"
    using f(2) by (simp_all add: visits_def)
  have "card (S - set (gSeen s1)) < n" using unseen_mono [OF assms(2) f(2)] Suc.prems by simp
  from Suc.IH [OF this] obtain r' s' where a: "attempts rec c env k sel ty p s1 = Some (r', s')"
      "set (gSeen s1) \<subseteq> set (gSeen s')"
      "gTick s' + maxAttempts * card (set (gSeen s1)) \<le> gTick s1 + k + maxAttempts * card (set (gSeen s'))" by blast
  show ?case
  proof (cases "atCtx ?a")
    case (Some e)
    then show ?thesis by simp
  next
    case None
    then show ?thesis using f(1) v a
      by (cases r; cases "atWait ?a") (auto simp: Let_def intro: order_trans)
  qed
qed simp

lemma get_ends:
  assumes "finite S" and "\<forall>t. offers c (env t) \<subseteq> S"
  shows "ends S n (gopher_get n c env)"
proof (induction n)
  case 0
  then show ?case by (simp add: ends_def)
next
  case (Suc n)
  have "\<exists>r s'. gopher_get (Suc n) c env sel ty s = Some (r, s') \<and> visits s s'"
    if sel: "sel \<in> S" and card: "card (S - set (gSeen s)) < Suc n" for sel ty s
  proof (cases "sel \<in> set (gSeen s)")
    case True
    then show ?thesis by simp
  next
    case False
    let ?s1 = "s\<lparr>gSeen := sel # gSeen s\<rparr>"
    have "S - set (gSeen ?s1) = (S - set (gSeen s)) - {sel}" by auto
    moreover have "card (S - set (gSeen s) - {sel}) < card (S - set (gSeen s))"
      by (rule card_Diff1_less) (use sel False assms(1) in auto)
    ultimately have "card (S - set (gSeen ?s1)) < n" using card by simp
    note att = attempts_end [OF Suc.IH assms(1,2) this, where k = maxAttempts and sel = sel]
    have c1: "card (set (gSeen ?s1)) = Suc (card (set (gSeen s)))" using False by simp
    have v: "visits s ?s1" using False by (auto simp: visits_def)
    have "\<exists>r s'. attempts (gopher_get n c env) c env maxAttempts sel ty' p ?s1 = Some (r, s') \<and> visits s s'" for ty' p
      using att [where ty = ty' and p = p] c1 by (auto simp: visits_def)
    then show ?thesis using False v by (auto simp: Let_def split: option.split node.split)
  qed
  then show ?case by (simp add: ends_def)
qed

text \<open>The crawl ends: when the menus of all responses together offer finitely many selectors to
  follow, whatever fails, the crawl is over after fetching each of them at most five times.\<close>

theorem gopher_terminates:
  assumes "gopher_start source destDir = Inr (c, selector, ty)" and "finite S" and "selector \<in> S"
    and "\<forall>t. offers c (env t) \<subseteq> S"
  shows "\<exists>r s. gopher_Mirror (Suc (card S)) env source destDir f = Some (r, s) \<and> gTick s \<le> maxAttempts * card (set (gSeen s))"
proof -
  let ?s = "\<lparr>gSeen = [], gFs = f, gTick = 0\<rparr>"
  have "ends S (Suc (card S)) (gopher_get (Suc (card S)) c env)" by (rule get_ends [OF assms(2,4)])
  then obtain r s where "gopher_get (Suc (card S)) c env selector ty ?s = Some (r, s)" "visits ?s s"
    using assms(3) unfolding ends_def by (metis Diff_empty empty_set gstate.select_convs(1) lessI)
  then show ?thesis using assms(1) by (simp add: gopher_Mirror_def visits_def del: gopher_get.simps)
qed

subsection \<open>What the crawl writes\<close>

definition is_temp :: "key \<Rightarrow> bool" where
  "is_temp k \<longleftrightarrow> k \<noteq> [] \<and> suffix gopher_tmpSuffix (last k)"

definition is_readme :: "key \<Rightarrow> bool" where
  "is_readme k \<longleftrightarrow> k \<noteq> [] \<and> last k = ''00README''"

text \<open>The content is the complete answer to a selector whose local file this is.\<close>

definition answered :: "(nat \<Rightarrow> attempt) \<Rightarrow> crawl \<Rightarrow> key \<Rightarrow> string \<Rightarrow> bool" where
  "answered env c k x \<longleftrightarrow> (\<exists>t sel first rest p. atConn (env t) sel = Conn first rest None \<and> x = first @ rest
     \<and> gopher_localPath c sel = Some p \<and> clean_elems p = k)"

definition root_key :: "crawl \<Rightarrow> key" where
  "root_key c = clean_elems (cRootDir c)"

definition root_temp :: "crawl \<Rightarrow> key" where
  "root_temp c = with_suffix (rooted (cRootDir c)) (root_key c) gopher_tmpSuffix"

text \<open>A place changes only by a new directory on the way to or below the root of the crawl, by a
  temporary file or a \<open>00README\<close> there, or by a complete file where there was nothing.\<close>

definition allowed :: "(nat \<Rightarrow> attempt) \<Rightarrow> crawl \<Rightarrow> key \<Rightarrow> node option \<Rightarrow> node option \<Rightarrow> bool" where
  "allowed env c k old new \<longleftrightarrow> new = old
     \<or> (old = None \<and> new = Some Dir \<and> (prefix (root_key c) k \<or> prefix k (root_key c)))
     \<or> ((prefix (root_key c) k \<or> k = root_temp c) \<and> (is_temp k \<or> is_readme k))
     \<or> (prefix (root_key c) k \<and> old = None \<and> (\<exists>x. new = Some (File x) \<and> answered env c k x))"

definition changes :: "(nat \<Rightarrow> attempt) \<Rightarrow> crawl \<Rightarrow> fs \<Rightarrow> fs \<Rightarrow> bool" where
  "changes env c f f' \<longleftrightarrow> (\<forall>k. allowed env c k (f k) (f' k))"

lemma changes_refl [simp]: "changes env c f f"
  by (simp add: changes_def allowed_def)

lemma allowed_trans: "allowed env c k x y \<Longrightarrow> allowed env c k y z \<Longrightarrow> allowed env c k x z"
  unfolding allowed_def by auto

lemma changes_trans: "changes env c f f' \<Longrightarrow> changes env c f' f'' \<Longrightarrow> changes env c f f''"
  unfolding changes_def using allowed_trans by blast

lemma plain_tmp: "plain_suffix gopher_tmpSuffix"
  by (simp add: plain_suffix_def gopher_tmpSuffix_def slash_def)

lemma localPath_facts:
  assumes "gopher_localPath c sel = Some p"
  shows "Clean p = p \<and> p \<noteq> [] \<and> rooted p = rooted (cRootDir c) \<and> prefix (root_key c) (clean_elems p)"
proof -
  let ?full = "JoinPath [cBasedir c, Clean (''/'' @ TrimPrefix sel ''/'')]"
  obtain rel where r: "Rel (cRootDir c) ?full = Some rel" "rel \<noteq> ''..''" "\<not> HasPrefix rel ''../''" and p: "p = ?full"
    using assms by (auto simp: gopher_localPath_def Let_def split: option.splits if_splits)
  have "path_under (cRootDir c) p" using Rel_no_dots_under [OF r] p by simp
  moreover have "Clean p = p \<and> p \<noteq> []"
  proof (cases "cBasedir c = []")
    case True
    then show ?thesis by (simp add: p JoinPath_def)
  next
    case False
    then show ?thesis by (simp add: p JoinPath_two)
  qed
  ultimately show ?thesis by (simp add: path_under_def root_key_def)
qed

lemma MkdirAll_changes:
  assumes "MkdirAll fault q f = (r, f')" and "prefix (clean_elems q) k0" and "prefix (root_key c) k0"
  shows "changes env c f f'"
proof -
  have "allowed env c k (f k) (f' k)" for k
  proof -
    show ?thesis
    proof (cases "f' k = f k")
      case False
      then have 2: "f k = None" "f' k = Some Dir" "prefix k (clean_elems q)"
        using MkdirAll_change [OF assms(1), of k] by simp_all
      then have "prefix k k0" using assms(2) by (meson prefix_order.trans)
      then have "prefix (root_key c) k \<or> prefix k (root_key c)" using assms(3) prefix_same_cases by blast
      then show ?thesis using 2 by (simp add: allowed_def)
    qed (simp add: allowed_def)
  qed
  then show ?thesis by (simp add: changes_def)
qed

lemma temp_key:
  assumes "gopher_localPath c sel = Some p"
  shows "is_temp (clean_elems (p @ gopher_tmpSuffix))
    \<and> (prefix (root_key c) (clean_elems (p @ gopher_tmpSuffix)) \<or> clean_elems (p @ gopher_tmpSuffix) = root_temp c)
    \<and> clean_elems (p @ gopher_tmpSuffix) \<noteq> clean_elems p"
proof -
  note f = localPath_facts [OF assms]
  let ?es = "clean_elems p"
  have k: "clean_elems (p @ gopher_tmpSuffix) = with_suffix (rooted (cRootDir c)) ?es gopher_tmpSuffix"
    using clean_elems_suffix [OF plain_tmp, of p] f by simp
  have t: "is_temp (with_suffix b ?es gopher_tmpSuffix)" "with_suffix b ?es gopher_tmpSuffix \<noteq> ?es" for b
    by (auto simp: is_temp_def with_suffix_def gopher_tmpSuffix_def suffix_def dest: arg_cong [of _ _ last])
  show ?thesis
  proof (cases "?es = root_key c")
    case True
    then show ?thesis using k t by (simp add: root_temp_def)
  next
    case False
    then have "prefix (root_key c) (butlast ?es)" "?es \<noteq> []"
      using f by (auto simp: prefix_def butlast_append)
    then have "prefix (root_key c) (with_suffix (rooted (cRootDir c)) ?es gopher_tmpSuffix)"
      by (auto simp: with_suffix_def)
    then show ?thesis using k t by simp
  qed
qed

lemma put_changes:
  assumes "prefix (root_key c) (clean_elems q) \<or> clean_elems q = root_temp c" and "is_temp (clean_elems q) \<or> is_readme (clean_elems q)"
  shows "changes env c f (put_file q x f)" "changes env c f (remove_file q f)"
  using assms by (auto simp: changes_def put_file_def remove_file_def allowed_def)

lemma readme_key:
  assumes "localDir \<noteq> []"
  shows "clean_elems (JoinPath [localDir, ''00README'']) = clean_elems localDir @ [''00README'']"
proof -
  have "IsLocal ''00README''" "clean_elems ''00README'' = [''00README'']" by code_simp+
  then show ?thesis using under_JoinPath_local(2) [OF assms, of "''00README''"] by simp
qed

text \<open>A place that is not a file stays none, unless it is one for temporary files or a \<open>00README\<close>.\<close>

definition not_file :: "key \<Rightarrow> fs \<Rightarrow> bool" where
  "not_file k f \<longleftrightarrow> \<not> is_file (f k) \<or> is_temp k \<or> is_readme k"

lemma writeFile_changes:
  assumes w: "gopher_writeFile a first rest readErr p f = (r, f')"
    and p: "gopher_localPath c sel = Some p" and conn: "atConn (env t) sel = Conn first rest readErr"
    and nf: "not_file (clean_elems p) f"
  shows "changes env c f f' \<and> (r \<noteq> None \<longrightarrow> not_file (clean_elems p) f')"
proof -
  note facts = localPath_facts [OF p] and tmp = temp_key [OF p]
  let ?k = "clean_elems p" and ?tmp = "p @ gopher_tmpSuffix"
  obtain e f1 where m: "MkdirAll (atMkdir a) (DirPath p) f = (e, f1)" by (cases "MkdirAll (atMkdir a) (DirPath p) f")
  have pre: "prefix (clean_elems (DirPath p)) ?k" using DirPath_prefix [of p] facts by simp
  have c1: "changes env c f f1" by (rule MkdirAll_changes [OF m pre]) (use facts in simp)
  have n1: "not_file ?k f1" using MkdirAll_change [OF m, of ?k] nf by (auto simp: not_file_def is_file_def)
  have c2: "changes env c f (put_file ?tmp x f1)" "changes env c f (remove_file ?tmp f1)" for x
    using changes_trans [OF c1] put_changes tmp by blast+
  have n2: "not_file ?k (put_file ?tmp x f1)" "not_file ?k (remove_file ?tmp f1)" for x
    using n1 tmp by (simp_all add: not_file_def put_file_def remove_file_def)
  have fin: "changes env c f (put_file p (first @ rest) (remove_file ?tmp (put_file ?tmp (first @ rest) f1)))"
    if none: "readErr = None" and nd: "\<not> is_dir (node_at p (put_file ?tmp (first @ rest) f1))"
  proof -
    have ans: "answered env c ?k (first @ rest)" using conn none p unfolding answered_def by blast
    have "allowed env c ?k (f ?k) (Some (File (first @ rest)))"
    proof (cases "is_temp ?k \<or> is_readme ?k")
      case True
      then show ?thesis using facts by (auto simp: allowed_def)
    next
      case False
      have "f1 ?k = None" using nd n1 False tmp
        by (auto simp: not_file_def is_dir_def is_file_def node_at_def put_file_def split: option.splits node.splits)
      then have "f ?k = None" using MkdirAll_change [OF m, of ?k] by auto
      then show ?thesis using facts ans by (simp add: allowed_def)
    qed
    moreover have "changes env c f (remove_file ?tmp (put_file ?tmp (first @ rest) f1))"
      using changes_trans [OF c2(1)] put_changes tmp by blast
    ultimately show ?thesis by (auto simp: changes_def put_file_def)
  qed
  show ?thesis
    using w c1 n1 c2 n2 fin unfolding gopher_writeFile_def m
    by (auto simp: Let_def split: option.splits if_splits)
qed

definition writes_within :: "(nat \<Rightarrow> attempt) \<Rightarrow> crawl \<Rightarrow> getter \<Rightarrow> bool" where
  "writes_within env c rec \<longleftrightarrow> (\<forall>sel ty s r s'. rec sel ty s = Some (r, s') \<longrightarrow> gFs s [] = Some Dir
     \<longrightarrow> changes env c (gFs s) (gFs s'))"

lemma changes_dir:
  assumes "changes env c f f'" and "f k = Some Dir"
  shows "f' k = Some Dir \<or> is_temp k \<or> is_readme k"
  using assms unfolding changes_def allowed_def by (metis option.distinct(1))

lemma changes_root: "changes env c f f' \<Longrightarrow> f [] = Some Dir \<Longrightarrow> f' [] = Some Dir"
  using changes_dir [of env c f f' "[]"] by (simp add: is_temp_def is_readme_def)

lemma menu_items_changes:
  assumes "writes_within env c rec"
  shows "menu_items rec c lines readme s = Some (r, rm, s') \<Longrightarrow> gFs s [] = Some Dir \<Longrightarrow> changes env c (gFs s) (gFs s')"
proof (induction lines arbitrary: readme s)
  case (Cons line rest)
  show ?case
  proof (cases "\<exists>de. line \<noteq> [] \<and> line \<noteq> ''.'' \<and> direntRe line = Some de \<and> deType de \<noteq> typeInfo \<and> deType de \<noteq> typeError
      \<and> follow_entry c de")
    case True
    then obtain de where d: "line \<noteq> []" "line \<noteq> ''.''" "direntRe line = Some de" "deType de \<noteq> typeInfo" "deType de \<noteq> typeError"
      "follow_entry c de" by blast
    then obtain e s1 where r: "rec (deSelector de) (Some (deType de)) s = Some (e, s1)"
      using Cons.prems(1) by (cases "rec (deSelector de) (Some (deType de)) s") auto
    then have ch: "changes env c (gFs s) (gFs s1)" using assms Cons.prems(2) unfolding writes_within_def by blast
    show ?thesis
    proof (cases e)
      case None
      then have "menu_items rec c rest readme s1 = Some (r, rm, s')" using Cons.prems(1) d r by simp
      from Cons.IH [OF this changes_root [OF ch Cons.prems(2)]] show ?thesis by (rule changes_trans [OF ch])
    next
      case (Some err)
      then show ?thesis using Cons.prems(1) d r ch by simp
    qed
  next
    case False
    then show ?thesis using Cons by (auto split: if_splits option.splits)
  qed
qed simp

lemma write_readme_changes:
  assumes "gopher_localPath c sel = Some p" and "write_readme a p readme f = (r, f')"
  shows "changes env c f f' \<and> f' (clean_elems p) = f (clean_elems p)"
proof -
  have f: "p \<noteq> []" "prefix (root_key c) (clean_elems p)" using localPath_facts [OF assms(1)] by simp_all
  let ?q = "JoinPath [p, ''00README'']"
  have k: "clean_elems ?q = clean_elems p @ [''00README'']" by (rule readme_key [OF f(1)])
  have "is_readme (clean_elems ?q)" "prefix (root_key c) (clean_elems ?q)" using f(2) k by (simp_all add: is_readme_def)
  then have "changes env c f (put_file ?q x f)" for x using put_changes by blast
  moreover have "put_file ?q x f (clean_elems p) = f (clean_elems p)" for x using k by (simp add: put_file_def)
  ultimately show ?thesis using assms(2) by (auto simp: write_readme_def Let_def split: if_splits option.splits)
qed

lemma readMenu_changes:
  assumes m: "readMenu rec c a buf p s = Some (r, s')" and p: "gopher_localPath c sel = Some p"
    and w: "writes_within env c rec" and root: "gFs s [] = Some Dir" and nf: "not_file (clean_elems p) (gFs s)"
  shows "changes env c (gFs s) (gFs s') \<and> (r \<noteq> None \<longrightarrow> not_file (clean_elems p) (gFs s'))"
proof -
  let ?k = "clean_elems p"
  obtain e f1 where mk: "MkdirAll (atMkdir a) p (gFs s) = (e, f1)" by (cases "MkdirAll (atMkdir a) p (gFs s)")
  have c1: "changes env c (gFs s) f1"
    by (rule MkdirAll_changes [OF mk prefix_order.refl]) (use localPath_facts [OF p] in simp)
  show ?thesis
  proof (cases e)
    case (Some err)
    have "not_file ?k f1" using MkdirAll_change [OF mk, of ?k] nf by (auto simp: not_file_def is_file_def)
    then show ?thesis using m mk Some c1 by (auto simp: readMenu_def)
  next
    case None
    obtain r1 rm s1 where it: "menu_items rec c (split_crlf buf) [] (s\<lparr>gFs := f1\<rparr>) = Some (r1, rm, s1)"
      using m mk None by (cases "menu_items rec c (split_crlf buf) [] (s\<lparr>gFs := f1\<rparr>)") (auto simp: readMenu_def)
    have c2: "changes env c f1 (gFs s1)"
      using menu_items_changes [OF w it] changes_root [OF c1 root] by simp
    have "f1 ?k = Some Dir"
      using MkdirAll_done [OF mk [unfolded None]] changes_root [OF c1 root] by (cases "?k = []") (simp_all add: node_at_def)
    then have n1: "not_file ?k (gFs s1)" using changes_dir [OF c2, of ?k] by (auto simp: not_file_def is_file_def)
    show ?thesis
    proof (cases r1)
      case (Some err)
      then show ?thesis using m mk None it changes_trans [OF c1 c2] n1 by (simp add: readMenu_def)
    next
      case none: None
      obtain r2 f2 where wr: "write_readme a p rm (gFs s1) = (r2, f2)" by (cases "write_readme a p rm (gFs s1)")
      have "changes env c (gFs s1) f2" "f2 ?k = gFs s1 ?k" using write_readme_changes [OF p wr] by blast+
      then show ?thesis using m mk None it none wr changes_trans [OF changes_trans [OF c1 c2]] n1
        by (auto simp: readMenu_def not_file_def)
    qed
  qed
qed

lemma fetch_changes:
  assumes "gopher_fetch rec c (env t) sel ty p s = Some (r, s')" and "gopher_localPath c sel = Some p"
    and "writes_within env c rec" and "gFs s [] = Some Dir" and "not_file (clean_elems p) (gFs s)"
  shows "changes env c (gFs s) (gFs s') \<and> (r \<noteq> None \<longrightarrow> not_file (clean_elems p) (gFs s'))"
proof (cases "atConn (env t) sel")
  case (ConnFailed e)
  then show ?thesis using assms(1,5) by (auto simp: gopher_fetch_def)
next
  case (Conn first rest readErr)
  obtain e f1 where w: "gopher_writeFile (env t) first rest readErr p (gFs s) = (e, f1)"
    by (cases "gopher_writeFile (env t) first rest readErr p (gFs s)")
  show ?thesis
    using assms(1,5) Conn w writeFile_changes [where env = env and t = t, OF w assms(2) Conn assms(5)] readMenu_changes [OF _ assms(2-5)]
    by (auto simp: gopher_fetch_def split: if_splits)
qed

lemma attempts_changes:
  assumes "writes_within env c rec" and "gopher_localPath c sel = Some p"
  shows "attempts rec c env k sel ty p s = Some (r, s') \<Longrightarrow> gFs s [] = Some Dir \<Longrightarrow> not_file (clean_elems p) (gFs s)
    \<Longrightarrow> changes env c (gFs s) (gFs s')"
proof (induction k arbitrary: s)
  case (Suc k)
  let ?s0 = "s\<lparr>gTick := Suc (gTick s)\<rparr>"
  show ?case
  proof (cases "atCtx (env (gTick s))")
    case (Some e)
    then show ?thesis using Suc.prems(1) by auto
  next
    case None
    then obtain r1 s1 where f: "gopher_fetch rec c (env (gTick s)) sel ty p ?s0 = Some (r1, s1)"
      using Suc.prems(1) by (cases "gopher_fetch rec c (env (gTick s)) sel ty p ?s0") (auto simp: Let_def)
    have ch: "changes env c (gFs s) (gFs s1)" "r1 \<noteq> None \<longrightarrow> not_file (clean_elems p) (gFs s1)"
      using fetch_changes [OF f assms(2,1)] Suc.prems(2,3) by simp_all
    show ?thesis
    proof (cases "r1 = None \<or> k = 0 \<or> atWait (env (gTick s)) \<noteq> None")
      case True
      then have "s' = s1" using Suc.prems(1) None f by (auto simp: Let_def split: option.splits if_splits)
      then show ?thesis using ch by simp
    next
      case False
      then have rest: "attempts rec c env k sel ty p s1 = Some (r, s')" using Suc.prems(1) None f by (auto simp: Let_def)
      have "changes env c (gFs s1) (gFs s')"
        by (rule Suc.IH [OF rest changes_root [OF ch(1) Suc.prems(2)]]) (use ch(2) False in simp)
      then show ?thesis by (rule changes_trans [OF ch(1)])
    qed
  qed
qed simp

lemma get_writes_within: "writes_within env c (gopher_get n c env)"
proof (induction n)
  case 0
  then show ?case by (simp add: writes_within_def)
next
  case (Suc n)
  have "changes env c (gFs s) (gFs s')"
    if g: "gopher_get (Suc n) c env sel ty s = Some (r, s')" and root: "gFs s [] = Some Dir" for sel ty s r s'
  proof (cases "sel \<in> set (gSeen s) \<or> gopher_localPath c sel = None")
    case True
    then have "gFs s' = gFs s" using g by (cases "sel \<in> set (gSeen s)") (auto simp: Let_def)
    then show ?thesis by simp
  next
    case False
    then obtain p where p: "gopher_localPath c sel = Some p" "sel \<notin> set (gSeen s)" by auto
    show ?thesis
    proof (cases "is_file (gFs s (clean_elems p))")
      case True
      then show ?thesis using g p by (auto simp: Let_def node_at_def is_file_def split: option.splits node.splits)
    next
      case nf: False
      then obtain ty' where "attempts (gopher_get n c env) c env maxAttempts sel ty' p (s\<lparr>gSeen := sel # gSeen s\<rparr>) = Some (r, s')"
        using g p by (auto simp: Let_def node_at_def is_file_def split: option.splits node.splits)
      from attempts_changes [OF Suc.IH p(1) this] root nf show ?thesis by (simp add: not_file_def)
    qed
  qed
  then show ?case unfolding writes_within_def by blast
qed


subsection \<open>A small site\<close>

text \<open>A server with a root menu of a text, a picture, a submenu and a foreign entry; the second attempt
  fails after its first chunk.\<close>

definition demo_menu :: string where
  "demo_menu = ''iWelcome'' @ [CHR 0x09, CHR 0x09, CHR 0x09] @ ''0'' @ [CHR 0x0D, CHR 0x0A]
     @ ''0About'' @ [CHR 0x09] @ ''/a.txt'' @ [CHR 0x09] @ ''h'' @ [CHR 0x09] @ ''70'' @ [CHR 0x0D, CHR 0x0A]
     @ ''1Sub'' @ [CHR 0x09] @ ''/s'' @ [CHR 0x09] @ ''H'' @ [CHR 0x09] @ ''70'' @ [CHR 0x0D, CHR 0x0A]
     @ ''1Far'' @ [CHR 0x09] @ ''/x'' @ [CHR 0x09] @ ''far'' @ [CHR 0x09] @ ''70'' @ [CHR 0x0D, CHR 0x0A]"

definition demo_submenu :: string where
  "demo_submenu = ''1Up'' @ [CHR 0x09] @ ''/'' @ [CHR 0x09] @ ''h'' @ [CHR 0x09] @ ''70'' @ [CHR 0x0D, CHR 0x0A]
     @ ''0Out'' @ [CHR 0x09] @ ''/../../etc'' @ [CHR 0x09] @ ''h'' @ [CHR 0x09] @ ''70'' @ [CHR 0x0D, CHR 0x0A]"

definition demo_site :: "string \<Rightarrow> conn" where
  "demo_site sel =
    (if sel = ''/'' then Conn demo_menu [] None
     else if sel = ''/s'' then Conn demo_submenu [] None
     else if sel = ''/a.txt'' then Conn ''hello '' ''world'' None
     else if sel = ''/../../etc'' then Conn ''x'' [] None
     else ConnFailed ''refused'')"

definition demo_env :: "nat \<Rightarrow> attempt" where
  "demo_env t = \<lparr>atCtx = None,
     atConn = (\<lambda>sel. if t = 1 \<and> sel = ''/a.txt'' then Conn ''hello '' [] (Some ''reset'') else demo_site sel), atWait = None, atMkdir = None, atCreate = None, atWrite = None,
     atRename = None, atReadme = None\<rparr>"

definition demo_fs :: fs where
  "demo_fs k = (if k = [] \<or> k = [''d''] then Some Dir else None)"

definition demo_crawl :: crawl where
  "demo_crawl = \<lparr>cHostname = ''h'', cPort = ''70'', cBasedir = ''/d/h'', cRootDir = ''/d/h''\<rparr>"

lemma demo_start: "gopher_start ''gopher://h/1/'' ''/d'' = Inr (demo_crawl, ''/'', Some (CHR ''1''))"
  by code_simp

lemma demo_crawl_run: "map_option (\<lambda>(r, s). (r, gTick s, map (gFs s) [[''d'', ''h'', ''a.txt''], [''d'', ''h'', ''00README''], [''d'', ''h'', ''s''], [''etc'']]))
    (gopher_Mirror 5 demo_env ''gopher://h/1/'' ''/d'' demo_fs)
  = Some (None, 5, [Some (File ''hello world''), Some (File (''Welcome'' @ [CHR 0x0A])), Some Dir, None])"
  by code_simp

definition demo_bodies :: "string list" where
  "demo_bodies = [demo_menu, demo_submenu, ''hello world'', ''hello '', ''x'']"

definition demo_selectors :: "string list" where
  "demo_selectors = [''/'', ''/s'', ''/a.txt'', ''/../../etc'']"

lemma demo_body: "atConn (demo_env t) sel = Conn first rest e \<Longrightarrow> first @ rest \<in> set demo_bodies"
  by (auto simp: demo_env_def demo_site_def demo_bodies_def split: if_splits)

lemma demo_entries: "list_all (\<lambda>b. list_all (\<lambda>line. case direntRe line of None \<Rightarrow> True
    | Some de \<Rightarrow> follow_entry demo_crawl de \<longrightarrow> deSelector de \<in> set demo_selectors) (split_crlf b)) demo_bodies"
  by code_simp

lemma demo_offers: "\<forall>t. offers demo_crawl (demo_env t) \<subseteq> set demo_selectors"
  using demo_entries demo_body unfolding offers_def list_all_iff by fastforce

theorem gopher_terminates_witness:
  "\<exists>r s. gopher_Mirror 5 demo_env ''gopher://h/1/'' ''/d'' demo_fs = Some (r, s) \<and> gTick s \<le> maxAttempts * card (set (gSeen s))"
proof -
  have "Suc (card (set demo_selectors)) = 5" by code_simp
  moreover have "''/'' \<in> set demo_selectors" by (simp add: demo_selectors_def)
  ultimately show ?thesis using gopher_terminates [OF demo_start _ _ demo_offers] by auto
qed


end
