(* ===== verification/GoMarshal.thy ===== *)
theory GoMarshal
  imports GoHttp
begin

text \<open>
  \<open>json.Marshal\<close> of any value, and that the decoders read back what it wrote. A number is written by
  its decimal digits, as the program only encodes integers.
\<close>

fun Marshal :: "json \<Rightarrow> string" where
  "Marshal JNull = ''null''"
| "Marshal (JBool b) = (if b then ''true'' else ''false'')"
| "Marshal (JNum t) = t"
| "Marshal (JStr s) = json_string s"
| "Marshal (JArr es) = ''['' @ Join (map Marshal es) '','' @ '']''"
| "Marshal (JObj ms) = ''{'' @ Join (map (\<lambda>m. json_string (fst m) @ '':'' @ Marshal (snd m)) ms) '','' @ ''}''"

definition member_json :: "string \<times> json \<Rightarrow> string" where
  "member_json m = json_string (fst m) @ '':'' @ Marshal (snd m)"

definition JInt :: "int \<Rightarrow> json" where
  "JInt n = JNum (itoa n)"

text \<open>The values the encoder gets: every number is an integer.\<close>

fun json_ints :: "json \<Rightarrow> bool" where
  "json_ints (JNum t) \<longleftrightarrow> (\<exists>n. t = itoa n)"
| "json_ints (JArr es) \<longleftrightarrow> (\<forall>e \<in> set es. json_ints e)"
| "json_ints (JObj ms) \<longleftrightarrow> (\<forall>m \<in> set ms. json_ints (snd m))"
| "json_ints _ \<longleftrightarrow> True"

lemma json_ints_JInt [simp]: "json_ints (JInt n)"
  by (auto simp: JInt_def)

subsection \<open>Numbers\<close>

lemma hd_nat_digits: "hd (nat_digits n) = CHR ''0'' \<Longrightarrow> n = 0"
proof (induction n rule: nat_digits.induct)
  case (1 n)
  show ?case
  proof (cases "n < 10")
    case True
    then have "nat_digits n = [digit_char n]" by (subst nat_digits.simps) simp
    then have "digit_val CHR ''0'' = n" using 1(2) True digit_val_char [of n] by simp
    then show ?thesis by (simp add: digit_val_def)
  next
    case False
    then have "hd (nat_digits (n div 10)) = CHR ''0''" using 1(2) by (subst (asm) nat_digits.simps) simp
    then show ?thesis using 1(1) False by simp
  qed
qed

definition ends_number :: "string \<Rightarrow> bool" where
  "ends_number r \<longleftrightarrow> (case r of [] \<Rightarrow> True | c # cs \<Rightarrow> c \<in> {CHR '','', CHR '']'', CHR ''}'', CHR 0x0A})"

lemma ends_number_simps [simp]: "ends_number []" "ends_number (CHR '','' # r)" "ends_number (CHR '']'' # r)"
    "ends_number (CHR ''}'' # r)" "ends_number (CHR 0x0A # r)"
  by (simp_all add: ends_number_def)

lemma ends_number_cases: "ends_number r \<Longrightarrow> r = [] \<or> (\<exists>c cs. r = c # cs \<and> \<not> is_digit c
    \<and> c \<noteq> CHR ''.'' \<and> c \<noteq> CHR ''e'' \<and> c \<noteq> CHR ''E'')"
  by (cases r) (auto simp: ends_number_def is_digit_def)

lemma parse_digits:
  assumes "ends_number r"
  shows "parse_number (nat_digits n @ r) = Some (nat_digits n, r)"
    and "parse_number (CHR ''-'' # nat_digits n @ r) = Some (CHR ''-'' # nat_digits n, r)"
proof -
  obtain c cs where n: "nat_digits n = c # cs" by (meson nat_digits_nonempty neq_Nil_conv)
  have c: "is_digit c" "c \<noteq> CHR ''-''" using nat_digits_all [of n] n by (auto simp: is_digit_def)
  have tw: "takeWhile is_digit (nat_digits n @ r) = nat_digits n"
    using nat_digits_all [of n] ends_number_cases [OF assms] by (auto simp: takeWhile_append list_all_iff)
  have ip: "(if HasPrefix (nat_digits n @ r) ''0'' then ''0'' else takeWhile is_digit (nat_digits n @ r)) = nat_digits n"
  proof (cases "HasPrefix (nat_digits n @ r) ''0''")
    case True
    then have "n = 0" using n hd_nat_digits [of n] by simp
    moreover have "nat_digits 0 = ''0''" by code_simp
    ultimately have "nat_digits n = ''0''" by simp
    then show ?thesis using True by simp
  qed (simp add: tw)
  have hd: "(case nat_digits n @ r of [] \<Rightarrow> ([], nat_digits n @ r)
      | a # as \<Rightarrow> if a = CHR ''-'' then ([a], as) else ([], nat_digits n @ r)) = ([], nat_digits n @ r)"
    using c(2) by (simp add: n)
  show "parse_number (nat_digits n @ r) = Some (nat_digits n, r)"
    using ends_number_cases [OF assms] unfolding parse_number_def hd by (auto simp: Let_def ip)
  show "parse_number (CHR ''-'' # nat_digits n @ r) = Some (CHR ''-'' # nat_digits n, r)"
    using ends_number_cases [OF assms] unfolding parse_number_def by (auto simp: Let_def ip)
qed

lemma parse_itoa: "ends_number r \<Longrightarrow> parse_number (itoa n @ r) = Some (itoa n, r)"
  using parse_digits by (simp add: itoa_def)

lemma itoa_start: "\<exists>c cs. itoa n = c # cs \<and> (is_digit c \<or> c = CHR ''-'')"
proof -
  obtain c cs where c: "nat_digits (nat \<bar>n\<bar>) = c # cs" by (meson nat_digits_nonempty neq_Nil_conv)
  then have "is_digit c" using nat_digits_all [of "nat \<bar>n\<bar>"] by simp
  then show ?thesis using c by (auto simp: itoa_def)
qed

lemma not_json_space [simp]: "is_digit c \<Longrightarrow> \<not> json_space c" "\<not> json_space CHR ''-''" "\<not> json_space CHR '']''"
    "\<not> json_space CHR ''[''" "\<not> json_space CHR ''t''" "\<not> json_space CHR ''f''" "\<not> json_space CHR ''n''"
  by (auto simp: json_space_def is_digit_def)


subsection \<open>Values\<close>

lemma Marshal_start:
  assumes "json_ints v"
  shows "\<exists>c cs. Marshal v = c # cs \<and> \<not> json_space c \<and> c \<noteq> CHR '']'' \<and> c \<noteq> CHR ''}''"
proof (cases v)
  case (JNum t)
  then obtain n where "t = itoa n" using assms by auto
  then show ?thesis using JNum itoa_start [of n] by (auto simp: is_digit_def)
qed (auto simp: json_string_def)

lemma skip_ws_Marshal: "json_ints v \<Longrightarrow> skip_ws (Marshal v @ r) = Marshal v @ r"
  using Marshal_start [of v] by (auto simp: skip_ws_plain)

lemma skip_ws_ends: "skip_ws (c # cs) = c # cs" if "c \<in> {CHR '','', CHR '']'', CHR ''}''}"
  using that by (auto intro: skip_ws_plain)

definition reads_back :: "json \<Rightarrow> bool" where
  "reads_back v \<longleftrightarrow> (\<forall>n r. 2 * length (Marshal v) < n \<longrightarrow> ends_number r \<longrightarrow> parse_value n (Marshal v @ r) = Some (v, r))"

lemma reads_backI: "(\<And>m r. parse_value (Suc m) (Marshal v @ r) = Some (v, r)) \<Longrightarrow> reads_back v"
  unfolding reads_back_def by (metis gr_implies_not0 not0_implies_Suc)

lemma parse_elems_Join:
  assumes "es \<noteq> []" and "\<forall>e \<in> set es. reads_back e" and "2 * length (Join (map Marshal es) '','') + 2 < n"
  shows "parse_elems n (Join (map Marshal es) '','' @ CHR '']'' # r) = Some (es, r)"
  using assms
proof (induction es arbitrary: n rule: induct_list012)
  case (2 e)
  then obtain m where n: "n = Suc m" by (cases n) auto
  then have "parse_value m (Marshal e @ CHR '']'' # r) = Some (e, CHR '']'' # r)"
    using 2 by (auto simp: reads_back_def)
  then show ?case by (simp add: n parse_elems.simps skip_ws_ends)
next
  case (3 e e' es)
  then obtain m where n: "n = Suc m" by (cases n) auto
  let ?rest = "Join (map Marshal (e' # es)) '','' @ CHR '']'' # r"
  have "parse_value m (Marshal e @ CHR '','' # ?rest) = Some (e, CHR '','' # ?rest)"
    using 3 n by (auto simp: reads_back_def)
  moreover have "parse_elems m ?rest = Some (e' # es, r)"
    by (rule "3.IH"(2)) (use 3 n in auto)
  ultimately show ?case by (simp add: n parse_elems.simps skip_ws_ends)
qed simp

lemma parse_mems_one:
  assumes "reads_back v" and "2 * length (Marshal v) < n" and "c \<in> {CHR '','', CHR ''}''}"
  shows "parse_mems (Suc n) (member_json (k, v) @ c # cs) =
     (if c = CHR '','' then map_option (map_prod ((#) (k, v)) id) (parse_mems n cs) else Some ([(k, v)], cs))"
proof -
  have q: "member_json (k, v) @ x = CHR 0x22 # concat (map json_char k) @ CHR 0x22 # CHR '':'' # Marshal v @ x" for x
    by (simp add: json_string_def member_json_def)
  have "parse_value n (Marshal v @ c # cs) = Some (v, c # cs)" using assms by (auto simp: reads_back_def)
  then show ?thesis using assms(3)
    by (subst parse_mems.simps) (auto simp: q skip_ws_plain parse_json_string skip_ws_ends simp del: append.simps(2))
qed

lemma parse_mems_Join:
  assumes "ms \<noteq> []" and "\<forall>m \<in> set ms. reads_back (snd m)" and "2 * length (Join (map member_json ms) '','') + 2 < n"
  shows "parse_mems n (Join (map member_json ms) '','' @ CHR ''}'' # r) = Some (ms, r)"
  using assms
proof (induction ms arbitrary: n rule: induct_list012)
  case (2 m)
  obtain k v where m: "m = (k, v)" by (cases m)
  obtain i where n: "n = Suc i" using 2 by (cases n) auto
  have "2 * length (Marshal v) < i" "reads_back v" using 2 n m by (auto simp: member_json_def)
  then show ?case using parse_mems_one [of v i "CHR ''}''" k r] by (simp add: n m)
next
  case (3 m m' ms)
  obtain k v where m: "m = (k, v)" by (cases m)
  obtain i where n: "n = Suc i" using 3 by (cases n) auto
  let ?rest = "Join (map member_json (m' # ms)) '','' @ CHR ''}'' # r"
  have "2 * length (Marshal v) < i" "reads_back v" using 3 n m by (auto simp: member_json_def)
  moreover have "parse_mems i ?rest = Some (m' # ms, r)" by (rule "3.IH"(2)) (use 3 n in auto)
  ultimately show ?case using parse_mems_one [of v i "CHR '',''" k ?rest] by (simp add: n m)
qed simp

lemma Join_start: "ts \<noteq> [] \<Longrightarrow> hd ts = c # cs \<Longrightarrow> \<exists>x. Join ts s = c # x"
  by (induction ts s rule: Join.induct) auto

lemma reads_back_all: "json_ints v \<Longrightarrow> reads_back v"
proof (induction v)
  case (JNum t)
  then obtain k where k: "t = itoa k" by auto
  obtain c cs where c: "itoa k = c # cs" "is_digit c \<or> c = CHR ''-''" using itoa_start by blast
  have cne: "c \<noteq> CHR 0x22" "c \<noteq> CHR ''{''" "c \<noteq> CHR ''[''" "c \<noteq> CHR ''t''" "c \<noteq> CHR ''f''" "c \<noteq> CHR ''n''" "\<not> json_space c"
    using c(2) by (auto simp: is_digit_def json_space_def)
  have "parse_value n (t @ r) = Some (JNum t, r)" if "0 < n" "ends_number r" for n r
    using that parse_itoa [of r k] cne unfolding k c(1)
    by (cases n) (simp_all add: parse_value.simps skip_ws_plain HasPrefix_def)
  then show ?case by (simp add: reads_back_def)
next
  case (JStr s)
  show ?case by (rule reads_backI) (simp add: parse_value_string)
next
  case (JArr es)
  show ?case unfolding reads_back_def
  proof (intro allI impI)
    fix n and r :: string assume n: "2 * length (Marshal (JArr es)) < n"
    obtain i where i: "n = Suc i" using n by (cases n) auto
    show "parse_value n (Marshal (JArr es) @ r) = Some (JArr es, r)"
    proof (cases "es = []")
      case True
      then show ?thesis by (simp add: i parse_value.simps skip_ws_plain)
    next
      case False
      let ?t = "Join (map Marshal es) '','' @ CHR '']'' # r"
      obtain c cs where c: "Marshal (hd es) = c # cs" "\<not> json_space c" "c \<noteq> CHR '']''"
        using Marshal_start [of "hd es"] JArr.prems False by auto
      obtain x where x: "?t = c # x"
        using Join_start [of "map Marshal es" c cs "'',''"] False c(1) by (auto simp: hd_map)
      have "parse_elems i ?t = Some (es, r)"
        by (rule parse_elems_Join [OF False]) (use JArr n i in auto)
      then have "parse_elems i (c # x) = Some (es, r)" using x by simp
      then show ?thesis using x c by (simp add: i parse_value.simps skip_ws_plain)
    qed
  qed
next
  case (JObj ms)
  have mj: "(\<lambda>m. json_string (fst m) @ '':'' @ Marshal (snd m)) = member_json"
    by (simp add: fun_eq_iff member_json_def)
  show ?case unfolding reads_back_def
  proof (intro allI impI)
    fix n and r :: string assume n: "2 * length (Marshal (JObj ms)) < n"
    obtain i where i: "n = Suc i" using n by (cases n) auto
    have M: "Marshal (JObj ms) = CHR ''{'' # Join (map member_json ms) '','' @ ''}''" unfolding Marshal.simps mj by simp
    show "parse_value n (Marshal (JObj ms) @ r) = Some (JObj ms, r)"
    proof (cases "ms = []")
      case True
      then show ?thesis by (simp add: i parse_value.simps skip_ws_plain)
    next
      case False
      let ?t = "Join (map member_json ms) '','' @ CHR ''}'' # r"
      obtain cs where c: "member_json (hd ms) = CHR 0x22 # cs" by (simp add: member_json_def json_string_def)
      obtain x where x: "?t = CHR 0x22 # x"
        using Join_start [of "map member_json ms" "CHR 0x22" cs "'',''"] False c by (auto simp: hd_map)
      have "\<forall>m \<in> set ms. reads_back (snd m)" using JObj by (metis json_ints.simps(3) prod_set_simps(2) singletonI snds.simps surjective_pairing)
      then have "parse_mems i ?t = Some (ms, r)"
        by (rule parse_mems_Join [OF False]) (use n i M in simp)
      then have "parse_mems i (CHR 0x22 # x) = Some (ms, r)" using x by simp
      then show ?thesis unfolding M using x by (simp add: i parse_value.simps skip_ws_plain)
    qed
  qed
next
  case JNull
  show ?case by (rule reads_backI) (simp add: parse_value.simps skip_ws_plain HasPrefix_def)
next
  case (JBool b)
  show ?case by (rule reads_backI) (simp add: parse_value.simps skip_ws_plain HasPrefix_def)
qed

text \<open>What was written is read back, by the decoder of a body.\<close>

lemma json_first_Marshal:
  assumes "json_ints (JObj ms)" and "ends_number r"
  shows "json_first (Marshal (JObj ms) @ r) = Some (JObj ms)"
proof -
  have "parse_value (2 * length (Marshal (JObj ms) @ r) + 2) (Marshal (JObj ms) @ r) = Some (JObj ms, r)"
    using reads_back_all [OF assms(1)] assms(2) unfolding reads_back_def by simp
  then show ?thesis by (simp add: json_first_def del: Marshal.simps)
qed

lemma struct_members_Marshal:
  "json_ints (JObj ms) \<Longrightarrow> struct_members (Marshal (JObj ms)) = Some ms"
  using json_first_Marshal [of ms "[]"] by (simp add: struct_members_def del: Marshal.simps)

end
