(* ===== verification/Client.thy ===== *)
theory Client
  imports Server GoMarshal
begin

text \<open>
  \<open>internal/daemon/client.go\<close>: the client of the daemon's API. A method of the client is the HTTP call
  it makes; \<open>client_do\<close> is what the methods share: the request is built from the URL, sent, and an
  answer outside 200 to 299 becomes an error. The transport is a function from requests to answers or
  to an error of its own. The answer of a success is handed over as the value the server encoded.
\<close>

record client =
  clSocket :: "string option"
  clTarget :: string

definition NewUnixClient :: "string \<Rightarrow> client" where
  "NewUnixClient socketPath = \<lparr>clSocket = Some socketPath, clTarget = ''http://unix''\<rparr>"

definition NewHTTPClient :: "string \<Rightarrow> client" where
  "NewHTTPClient baseURL = \<lparr>clSocket = None, clTarget = TrimSuffix baseURL ''/''\<rparr>"

definition client_url :: "client \<Rightarrow> string \<Rightarrow> string" where
  "client_url c endpoint = clTarget c @ endpoint"

subsection \<open>Calls\<close>

record call =
  caMethod :: string
  caURL :: string
  caJSON :: bool                \<comment> \<open>the content type is set\<close>
  caBody :: string

definition plain_call :: "client \<Rightarrow> string \<Rightarrow> string \<Rightarrow> call" where
  "plain_call c meth endpoint = \<lparr>caMethod = meth, caURL = client_url c endpoint, caJSON = False, caBody = []\<rparr>"

definition postAction :: "client \<Rightarrow> string \<Rightarrow> string option \<Rightarrow> call" where
  "postAction c endpoint bdy = \<lparr>caMethod = ''POST'', caURL = client_url c endpoint, caJSON = bdy \<noteq> None,
     caBody = (case bdy of None \<Rightarrow> [] | Some b \<Rightarrow> b)\<rparr>"

definition job_endpoint :: "int \<Rightarrow> string \<Rightarrow> string" where
  "job_endpoint i action = ''/api/v1/jobs/'' @ itoa i @ action"

definition cl_GetStatus :: "client \<Rightarrow> call" where
  "cl_GetStatus c = plain_call c ''GET'' ''/api/v1/queue/status''"

definition cl_PauseQueue :: "client \<Rightarrow> call" where
  "cl_PauseQueue c = plain_call c ''POST'' ''/api/v1/queue/pause''"

definition cl_ResumeQueue :: "client \<Rightarrow> call" where
  "cl_ResumeQueue c = plain_call c ''POST'' ''/api/v1/queue/resume''"

definition cl_SetConcurrency :: "int \<Rightarrow> client \<Rightarrow> call" where
  "cl_SetConcurrency n c = postAction c ''/api/v1/queue/concurrency'' (Some (Marshal (JObj [(''concurrency'', JInt n)])))"

text \<open>\<open>url.Values\<close> with \<open>Set\<close> is a map with one value per key.\<close>

definition set_text :: "string \<Rightarrow> string \<Rightarrow> smap \<Rightarrow> smap" where
  "set_text k v m = (if v \<noteq> [] then smap_put k v m else m)"

definition set_positive :: "string \<Rightarrow> int \<Rightarrow> smap \<Rightarrow> smap" where
  "set_positive k n m = (if n > 0 then smap_put k (itoa n) m else m)"

definition filter_values :: "job_filter \<Rightarrow> smap" where
  "filter_values f =
    set_positive ''offset'' (fOffset f)
    (set_positive ''limit'' (fLimit f)
    (set_text ''order_by'' (fOrderBy f)
    (set_text ''prefix'' (fPrefix f)
    (set_text ''site'' (fSite f)
    (set_text ''method'' (fMethod f)
    (if fStates f \<noteq> [] then smap_put ''state'' (Join (fStates f) '','') [] else []))))))"

definition with_values :: "string \<Rightarrow> smap \<Rightarrow> string" where
  "with_values endpoint vals = (if vals \<noteq> [] then endpoint @ ''?'' @ EncodeQuery vals else endpoint)"

definition cl_ListJobs :: "job_filter \<Rightarrow> client \<Rightarrow> call" where
  "cl_ListJobs f c = plain_call c ''GET'' (with_values ''/api/v1/jobs'' (filter_values f))"

text \<open>The fields of a request in the order of the struct, those marked \<open>omitempty\<close> left out when empty.\<close>

definition text_member :: "string \<Rightarrow> string \<Rightarrow> (string \<times> json) list" where
  "text_member k v = (if v = [] then [] else [(k, JStr v)])"

definition submit_json :: "submit_request \<Rightarrow> json" where
  "submit_json r = JObj (text_member ''method'' (sMethod r) @ [(''source'', JStr (sSource r))]
     @ text_member ''dest_dir'' (sDestDir r)
     @ (if sFlags r = [] then [] else [(''flags'', JObj (map (\<lambda>(k, v). (k, JStr v)) (sFlags r)))])
     @ (if sPriority r = 0 then [] else [(''priority'', JInt (sPriority r))]))"

definition cl_SubmitJob :: "submit_request \<Rightarrow> client \<Rightarrow> call" where
  "cl_SubmitJob r c = postAction c ''/api/v1/jobs'' (Some (Marshal (submit_json r)))"

definition cl_GetJob :: "int \<Rightarrow> client \<Rightarrow> call" where
  "cl_GetJob i c = plain_call c ''GET'' (job_endpoint i [])"

definition cl_CancelJob :: "int \<Rightarrow> client \<Rightarrow> call" where
  "cl_CancelJob i c = postAction c (job_endpoint i ''/cancel'') None"

definition cl_PauseJob :: "int \<Rightarrow> client \<Rightarrow> call" where
  "cl_PauseJob i c = postAction c (job_endpoint i ''/pause'') None"

definition cl_ResumeJob :: "int \<Rightarrow> client \<Rightarrow> call" where
  "cl_ResumeJob i c = postAction c (job_endpoint i ''/resume'') None"

definition cl_RetryJob :: "int \<Rightarrow> client \<Rightarrow> call" where
  "cl_RetryJob i c = plain_call c ''POST'' (job_endpoint i ''/retry'')"

definition cl_QuarantineJob :: "int \<Rightarrow> string \<Rightarrow> client \<Rightarrow> call" where
  "cl_QuarantineJob i reason c =
     postAction c (job_endpoint i ''/quarantine'') (Some (Marshal (JObj [(''reason'', JStr reason)])))"

definition cl_UnquarantineJob :: "int \<Rightarrow> client \<Rightarrow> call" where
  "cl_UnquarantineJob i c = postAction c (job_endpoint i ''/unquarantine'') None"

definition cl_DeleteJob :: "int \<Rightarrow> client \<Rightarrow> call" where
  "cl_DeleteJob i c = plain_call c ''DELETE'' (job_endpoint i [])"

definition batch_json :: "batch_request \<Rightarrow> json" where
  "batch_json r = JObj ([(''action'', JStr (bAction r))] @ text_member ''prefix'' (bPrefix r)
     @ (if bIDs r = [] then [] else [(''ids'', JArr (map JInt (bIDs r)))])
     @ text_member ''reason'' (bReason r))"

definition cl_BatchJobs :: "batch_request \<Rightarrow> client \<Rightarrow> call" where
  "cl_BatchJobs r c = postAction c ''/api/v1/jobs/batch'' (Some (Marshal (batch_json r)))"

definition log_values :: "int \<Rightarrow> int \<Rightarrow> smap" where
  "log_values limit offset = set_positive ''offset'' offset (set_positive ''limit'' limit [])"

definition cl_GetLogs :: "int \<Rightarrow> int \<Rightarrow> int \<Rightarrow> client \<Rightarrow> call" where
  "cl_GetLogs i limit offset c = plain_call c ''GET'' (with_values (job_endpoint i ''/logs'') (log_values limit offset))"

definition cl_StreamLogs :: "int \<Rightarrow> client \<Rightarrow> call" where
  "cl_StreamLogs i c = plain_call c ''GET'' (job_endpoint i ''/logs/stream'')"

text \<open>The calls as one type.\<close>

datatype client_op =
    OpGetStatus
  | OpPauseQueue
  | OpResumeQueue
  | OpSetConcurrency int
  | OpListJobs job_filter
  | OpSubmitJob submit_request
  | OpGetJob int
  | OpCancelJob int
  | OpPauseJob int
  | OpResumeJob int
  | OpRetryJob int
  | OpQuarantineJob int string
  | OpUnquarantineJob int
  | OpDeleteJob int
  | OpBatchJobs batch_request
  | OpGetLogs int int int
  | OpStreamLogs int

primrec call_of :: "client_op \<Rightarrow> client \<Rightarrow> call" where
  "call_of OpGetStatus = cl_GetStatus"
| "call_of OpPauseQueue = cl_PauseQueue"
| "call_of OpResumeQueue = cl_ResumeQueue"
| "call_of (OpSetConcurrency n) = cl_SetConcurrency n"
| "call_of (OpListJobs f) = cl_ListJobs f"
| "call_of (OpSubmitJob req) = cl_SubmitJob req"
| "call_of (OpGetJob i) = cl_GetJob i"
| "call_of (OpCancelJob i) = cl_CancelJob i"
| "call_of (OpPauseJob i) = cl_PauseJob i"
| "call_of (OpResumeJob i) = cl_ResumeJob i"
| "call_of (OpRetryJob i) = cl_RetryJob i"
| "call_of (OpQuarantineJob i reason) = cl_QuarantineJob i reason"
| "call_of (OpUnquarantineJob i) = cl_UnquarantineJob i"
| "call_of (OpDeleteJob i) = cl_DeleteJob i"
| "call_of (OpBatchJobs req) = cl_BatchJobs req"
| "call_of (OpGetLogs i limit offset) = cl_GetLogs i limit offset"
| "call_of (OpStreamLogs i) = cl_StreamLogs i"

text \<open>The lines of a stream of events: those with data that decodes are reported.\<close>

definition stream_items :: "(string \<Rightarrow> 'a option) \<Rightarrow> string list \<Rightarrow> 'a list" where
  "stream_items decode lines =
     List.map_filter (\<lambda>l. if HasPrefix l ''data: '' then decode (TrimPrefix l ''data: '') else None) lines"

subsection \<open>Sending\<close>

text \<open>\<open>http.NewRequestWithContext\<close> and \<open>Client.Do\<close>: the request as the handlers of a server see it.\<close>

definition sent :: "call \<Rightarrow> string + request" where
  "sent ca =
    (case Parse (caURL ca) of
       Inl e \<Rightarrow> Inl e
     | Inr u \<Rightarrow>
        (if Scheme u \<notin> {''http'', ''https''} then Inl (''unsupported protocol scheme '' @ Quote (Scheme u))
         else if Host u = [] then Inl ''http: no Host in request URL''
         else Inr \<lparr>rqMethod = caMethod ca, rqPath = (if Path u = [] then ''/'' else Path u), rqRawQuery = RawQuery u,
           rqHost = Host u, rqTLS = (Scheme u = ''https''),
           rqHeaders = (if caJSON ca then [(''Content-Type'', ''application/json'')] else []),
           rqCookies = [], rqBody = caBody ca\<rparr>))"

text \<open>The text of an answer that reports an error; the values of successes are handed over as they are.\<close>

fun body_text :: "body \<Rightarrow> string" where
  "body_text (BError t) = Marshal (JObj [(''error'', JStr (known_text t))]) @ [CHR 0x0A]"
| "body_text (BPlain t) = t @ [CHR 0x0A]"
| "body_text _ = []"

definition checkErr :: "int \<Rightarrow> string \<Rightarrow> string option" where
  "checkErr status bdy =
    (if 200 \<le> status \<and> status < 300 then None
     else (let plain = ''http '' @ itoa status @ '': '' @ TrimSpace bdy in
       case json_parse bdy of
         Some (JObj ms) \<Rightarrow>
           (case string_field ''error'' ms of (e, ok) \<Rightarrow>
              if ok \<and> e \<noteq> [] then Some (''server error: '' @ e) else Some plain)
       | _ \<Rightarrow> Some plain))"

definition client_do :: "(request \<Rightarrow> string + response) \<Rightarrow> call \<Rightarrow> string + body" where
  "client_do roundTrip ca =
    (case sent ca of
       Inl e \<Rightarrow> Inl e
     | Inr r \<Rightarrow>
        (case roundTrip r of
           Inl e \<Rightarrow> Inl e
         | Inr rp \<Rightarrow>
            (case checkErr (rpStatus rp) (body_text (rpBody rp)) of Some e \<Rightarrow> Inl e | None \<Rightarrow> Inr (rpBody rp))))"

end
