(* ===== verification/GoFlagInt.thy ===== *)
theory GoFlagInt
  imports GoFlag
begin

text \<open>\<open>flag.Int\<close> reads with \<open>strconv.ParseInt(s, 0, 64)\<close>: a base prefix and underscores between digits are
  allowed.\<close>

definition base_of :: "string \<Rightarrow> nat \<times> string" where
  "base_of s =
    (if HasPrefix s ''0'' then
       (if length s < 3 then (8, drop 1 s)
        else if lower_char (s ! 1) = CHR ''b'' then (2, drop 2 s)
        else if lower_char (s ! 1) = CHR ''o'' then (8, drop 2 s)
        else if lower_char (s ! 1) = CHR ''x'' then (16, drop 2 s)
        else (8, drop 1 s))
     else (10, s))"

definition digit_of :: "char \<Rightarrow> nat option" where
  "digit_of c = (let n = (of_char (lower_char c) :: nat) in
     if 48 \<le> n \<and> n \<le> 57 then Some (n - 48) else if 97 \<le> n \<and> n \<le> 122 then Some (n - 87) else None)"

fun digits_in :: "nat \<Rightarrow> string \<Rightarrow> nat \<Rightarrow> string + nat" where
  "digits_in b [] acc = Inr acc"
| "digits_in b (c # cs) acc =
    (if c = CHR ''_'' then digits_in b cs acc
     else (case digit_of c of
       None \<Rightarrow> Inl ''parse error''
     | Some d \<Rightarrow>
        (if b \<le> d then Inl ''parse error''
         else if 2 ^ 64 \<le> acc * b + d then Inl ''value out of range''
         else digits_in b cs (acc * b + d))))"

text \<open>What was seen last: the beginning, a digit or base prefix, an underscore, something else.\<close>

datatype seen = SeenStart | SeenDigit | SeenUnderscore | SeenOther

fun underscores_from :: "bool \<Rightarrow> seen \<Rightarrow> string \<Rightarrow> bool" where
  "underscores_from hex saw [] = (saw \<noteq> SeenUnderscore)"
| "underscores_from hex saw (c # cs) =
    (if is_digit c \<or> (hex \<and> lower_char c \<in> set ''abcdef'') then underscores_from hex SeenDigit cs
     else if c = CHR ''_'' then (if saw = SeenDigit then underscores_from hex SeenUnderscore cs else False)
     else if saw = SeenUnderscore then False
     else underscores_from hex SeenOther cs)"

definition underscoreOK :: "string \<Rightarrow> bool" where
  "underscoreOK s0 =
    (let s = (if s0 \<noteq> [] \<and> (hd s0 = CHR ''-'' \<or> hd s0 = CHR ''+'') then tl s0 else s0) in
     if 2 \<le> length s \<and> hd s = CHR ''0'' \<and> lower_char (s ! 1) \<in> {CHR ''b'', CHR ''o'', CHR ''x''}
     then underscores_from (lower_char (s ! 1) = CHR ''x'') SeenDigit (drop 2 s)
     else underscores_from False SeenStart s)"

definition set_int :: "string \<Rightarrow> string + string" where
  "set_int s =
    (case signed_digits s of (neg, ds) \<Rightarrow>
       if ds = [] then Inl ''parse error''
       else (case base_of ds of (b, cs) \<Rightarrow>
         (case digits_in b cs 0 of
            Inl e \<Rightarrow> Inl e
          | Inr n \<Rightarrow>
             (let v = (if neg then - int n else int n) in
              if CHR ''_'' \<in> set cs \<and> \<not> underscoreOK ds then Inl ''parse error''
              else if v < - (2 ^ 63) \<or> 2 ^ 63 \<le> v then Inl ''value out of range''
              else Inr (itoa v)))))"

definition int_flag :: "string \<Rightarrow> int \<Rightarrow> flag" where
  "int_flag name v = \<lparr>flName = name, flBool = False, flSet = set_int, flValue = itoa v\<rparr>"

definition value_of_flag :: "flagset \<Rightarrow> string \<Rightarrow> string" where
  "value_of_flag fs name = (case Lookup fs name of None \<Rightarrow> [] | Some f \<Rightarrow> flValue f)"

end
