(* ===== verification/QueueCmd.thy ===== *)
theory QueueCmd
  imports Cli Client GoFlagInt
begin

text \<open>
  \<open>mirror queue\<close> (\<open>cmd/mirror/queue.go\<close>): what its arguments ask of the daemon. A subcommand ends with a usage
  error, or makes one call of the client and prints a line about its result; \<open>list\<close>, \<open>status\<close> and \<open>logs\<close>
  print tables, of which the calls are modelled.
\<close>

subsection \<open>The subcommands\<close>

datatype queue_cmd =
    QHelp                                     \<comment> \<open>the usage on standard output\<close>
  | QExit int string                          \<comment> \<open>an exit status, and the message on standard error\<close>
  | QSubmit "string list"
  | QList job_filter
  | QShow int
  | QLogs int
  | QFollow int
  | QRun client_op "body \<Rightarrow> string"             \<comment> \<open>a call, and what is printed of its result\<close>

definition clientFromConfig :: "env \<Rightarrow> config \<Rightarrow> client" where
  "clientFromConfig e cfg =
    (let socket = dcSocket (cfgDaemon cfg) in NewUnixClient (if socket = [] then DefaultSocketPath e else socket))"

text \<open>\<open>handleClientError\<close>: what a failed call prints before the exit with status 1.\<close>

definition handleClientError :: "string \<Rightarrow> string \<Rightarrow> string" where
  "handleClientError err socket =
    (if Contains err ''connect: connection refused'' \<or> Contains err ''no such file or directory''
     then ''mirror: cannot connect to mirrord at '' @ socket @ [CHR 0x0A]
       @ ''is the daemon running? Start it with `mirrord` or `systemctl --user start mirrord`'' @ [CHR 0x0A]
     else ''mirror: '' @ err @ [CHR 0x0A])"

definition requireID :: "string \<Rightarrow> string list \<Rightarrow> queue_cmd + int" where
  "requireID cmd args = (case args of
     [] \<Rightarrow> Inl (QExit 2 (''usage: mirror queue '' @ cmd @ '' <id>'' @ [CHR 0x0A]))
   | a # _ \<Rightarrow> (case Atoi a of (i, ok) \<Rightarrow>
       if ok then Inr i else Inl (QExit 2 (''mirror: invalid job id '' @ Quote a @ [CHR 0x0A]))))"

definition job_line :: "int \<Rightarrow> string \<Rightarrow> body \<Rightarrow> string" where
  "job_line i what b = ''Job #'' @ itoa i @ what @ [CHR 0x0A]"

definition batch_line :: "string \<Rightarrow> string \<Rightarrow> body \<Rightarrow> string" where
  "batch_line what arg b = (case b of
     BBatch res \<Rightarrow> what @ '' '' @ itoa (int (brAffected res)) @ '' jobs matching '' @ arg @ ''.'' @ [CHR 0x0A]
   | _ \<Rightarrow> [])"

definition batch_by_prefix :: "string \<Rightarrow> string \<Rightarrow> string \<Rightarrow> batch_request" where
  "batch_by_prefix action arg reason = \<lparr>bAction = action, bPrefix = arg, bIDs = [], bReason = reason\<rparr>"

text \<open>An argument that is an integer names one job, any other is a prefix.\<close>

definition job_or_prefix :: "(int \<Rightarrow> client_op) \<Rightarrow> string \<Rightarrow> string \<Rightarrow> string \<Rightarrow> string \<Rightarrow> string \<Rightarrow> queue_cmd" where
  "job_or_prefix one done action batched reason arg =
    (case Atoi arg of (i, ok) \<Rightarrow>
       if ok then QRun (one i) (job_line i done)
       else QRun (OpBatchJobs (batch_by_prefix action arg reason)) (batch_line batched arg))"

definition list_flags :: flagset where
  "list_flags = NewFlagSet ''queue list'' [string_flag ''state'' [], string_flag ''site'' [], string_flag ''prefix'' [],
     int_flag ''limit'' 50]"

definition filter_of_flags :: "flagset \<Rightarrow> job_filter" where
  "filter_of_flags fs =
    \<lparr>fStates = (if value_of_flag fs ''state'' \<noteq> [] then map TrimSpace (Split (value_of_flag fs ''state'') (CHR '','')) else []),
     fMethod = [], fSite = value_of_flag fs ''site'', fPrefix = value_of_flag fs ''prefix'', fOrderBy = [],
     fLimit = fst (Atoi (value_of_flag fs ''limit'')), fOffset = 0\<rparr>"

text \<open>\<open>flag.ExitOnError\<close>: help exits with 0, an error with 2; both print the usage of the flags.\<close>

definition parse_or_exit :: "string list \<Rightarrow> flagset \<Rightarrow> (string list \<Rightarrow> flagset \<Rightarrow> queue_cmd) \<Rightarrow> queue_cmd" where
  "parse_or_exit args fs k = (case ParseFlags args fs of
     Inl PErrHelp \<Rightarrow> QExit 0 []
   | Inl (PErrMsg m) \<Rightarrow> QExit 2 m
   | Inr (rest, fs') \<Rightarrow> k rest fs')"

definition queue_usage :: "string \<Rightarrow> queue_cmd" where
  "queue_usage t = QExit 2 (''usage: mirror queue '' @ t @ [CHR 0x0A])"

definition queue_logs :: "string list \<Rightarrow> queue_cmd" where
  "queue_logs args = parse_or_exit args (NewFlagSet ''queue logs'' [bool_flag ''f'' False]) (\<lambda>rest fs.
     case rest of
       [] \<Rightarrow> queue_usage ''logs [-f] <id>''
     | a # _ \<Rightarrow> (case Atoi a of (i, ok) \<Rightarrow>
         if \<not> ok then QExit 2 (''mirror: invalid job id '' @ Quote a @ [CHR 0x0A])
         else if value_of_flag fs ''f'' = ''true'' then QFollow i else QLogs i))"

definition queue_list :: "string list \<Rightarrow> queue_cmd" where
  "queue_list args = parse_or_exit args list_flags (\<lambda>_ fs. QList (filter_of_flags fs))"

definition queue_show :: "string list \<Rightarrow> queue_cmd" where
  "queue_show args = (case requireID ''status'' args of Inl c \<Rightarrow> c | Inr i \<Rightarrow> QShow i)"

definition queue_pause :: "string list \<Rightarrow> queue_cmd" where
  "queue_pause args = (case args of
     [] \<Rightarrow> QRun OpPauseQueue (\<lambda>_. ''Queue paused. Running jobs will finish, but no new jobs will start.'' @ [CHR 0x0A])
   | a # _ \<Rightarrow> job_or_prefix OpPauseJob '' paused.'' BatchPause ''Paused'' [] a)"

definition queue_resume :: "string list \<Rightarrow> queue_cmd" where
  "queue_resume args = (case args of
     [] \<Rightarrow> QRun OpResumeQueue (\<lambda>_. ''Queue resumed.'' @ [CHR 0x0A])
   | a # _ \<Rightarrow> job_or_prefix OpResumeJob '' resumed.'' BatchResume ''Resumed'' [] a)"

definition queue_concurrency :: "string list \<Rightarrow> queue_cmd" where
  "queue_concurrency args = (case args of
     [] \<Rightarrow> queue_usage ''concurrency <n>''
   | a # _ \<Rightarrow> (case Atoi a of (n, ok) \<Rightarrow>
       if \<not> ok \<or> n < 1 then QExit 2 (''mirror: concurrency must be a positive integer'' @ [CHR 0x0A])
       else QRun (OpSetConcurrency n) (\<lambda>_. ''Worker concurrency set to '' @ itoa n @ ''.'' @ [CHR 0x0A])))"

definition queue_cancel :: "string list \<Rightarrow> queue_cmd" where
  "queue_cancel args = (case args of
     [] \<Rightarrow> queue_usage ''cancel <id>|<prefix>''
   | a # _ \<Rightarrow> job_or_prefix OpCancelJob '' cancelled.'' BatchCancel ''Cancelled'' [] a)"

definition queue_retry :: "string list \<Rightarrow> queue_cmd" where
  "queue_retry args = (case requireID ''retry'' args of
     Inl c \<Rightarrow> c
   | Inr i \<Rightarrow> QRun (OpRetryJob i) (\<lambda>b. case b of BJob j \<Rightarrow> job_line (jID j) '' moved back to queue.'' b | _ \<Rightarrow> []))"

definition queue_quarantine :: "string list \<Rightarrow> queue_cmd" where
  "queue_quarantine args = (case args of
     [] \<Rightarrow> queue_usage ''quarantine <id>|<prefix> [reason]''
   | a # rest \<Rightarrow>
      (let reason = (if rest = [] then ''quarantined via CLI'' else Join rest '' '') in
       job_or_prefix (\<lambda>i. OpQuarantineJob i reason) '' quarantined.'' BatchQuarantine ''Quarantined'' reason a))"

definition queue_unquarantine :: "string list \<Rightarrow> queue_cmd" where
  "queue_unquarantine args = (case args of
     [] \<Rightarrow> queue_usage ''unquarantine <id>|<prefix>''
   | a # _ \<Rightarrow> job_or_prefix OpUnquarantineJob '' unquarantined and returned to queue.'' BatchUnquarantine ''Unquarantined'' [] a)"

definition queue_delete :: "string list \<Rightarrow> queue_cmd" where
  "queue_delete args =
    (case requireID ''delete'' args of Inl c \<Rightarrow> c | Inr i \<Rightarrow> QRun (OpDeleteJob i) (job_line i '' deleted.''))"

definition queueMain :: "string list \<Rightarrow> queue_cmd" where
  "queueMain args =
    (case args of [] \<Rightarrow> QHelp | sub # subArgs \<Rightarrow>
     if sub \<in> {''-h'', ''--help''} then QHelp
     else if sub \<in> {''list'', ''ls''} then queue_list subArgs
     else if sub = ''submit'' then QSubmit subArgs
     else if sub = ''status'' then queue_show subArgs
     else if sub = ''logs'' then queue_logs subArgs
     else if sub = ''pause'' then queue_pause subArgs
     else if sub = ''resume'' then queue_resume subArgs
     else if sub = ''concurrency'' then queue_concurrency subArgs
     else if sub = ''cancel'' then queue_cancel subArgs
     else if sub = ''retry'' then queue_retry subArgs
     else if sub = ''quarantine'' then queue_quarantine subArgs
     else if sub = ''unquarantine'' then queue_unquarantine subArgs
     else if sub = ''delete'' then queue_delete subArgs
     else QExit 2 (''mirror: unknown queue subcommand '' @ Quote sub @ [CHR 0x0A, CHR 0x0A]))"

lemmas queue_subcommands = queue_list_def queue_show_def queue_pause_def queue_resume_def queue_concurrency_def
  queue_cancel_def queue_retry_def queue_quarantine_def queue_unquarantine_def queue_delete_def

text \<open>The call each command begins with; \<open>list\<close> also asks for the status, whose failure is ignored.\<close>

definition command_op :: "queue_cmd \<Rightarrow> client_op option" where
  "command_op c = (case c of
     QList f \<Rightarrow> Some (OpListJobs f) | QShow i \<Rightarrow> Some (OpGetJob i) | QLogs i \<Rightarrow> Some (OpGetLogs i 500 0)
   | QFollow i \<Rightarrow> Some (OpStreamLogs i) | QRun act _ \<Rightarrow> Some act | _ \<Rightarrow> None)"

text \<open>\<open>submitMain\<close>: the command line of a mirror run, sent as a job.\<close>

definition submitMain :: "registry \<Rightarrow> (string \<Rightarrow> bool) \<Rightarrow> config \<Rightarrow> string list \<Rightarrow> queue_cmd" where
  "submitMain reg probe cfg args =
    (if args = [] \<or> hd args \<in> {''-h'', ''--help''} then QHelp
     else (case resolve reg probe cfg args of
       Inl e \<Rightarrow> QExit 2 []
     | Inr iv \<Rightarrow> QRun (OpSubmitJob (submit_of iv)) (\<lambda>b. case b of
         BJob j \<Rightarrow> ''Enqueued job #'' @ itoa (jID j) @ '' ('' @ jMethod j @ '': '' @ jSource j @ '' into '' @ jDestDir j @ '')'' @ [CHR 0x0A]
       | _ \<Rightarrow> [])))"

text \<open>The whole command: \<open>submit\<close> resolves its own arguments.\<close>

definition queue_command :: "registry \<Rightarrow> (string \<Rightarrow> bool) \<Rightarrow> config \<Rightarrow> string list \<Rightarrow> queue_cmd" where
  "queue_command reg probe cfg args = (case queueMain args of QSubmit a \<Rightarrow> submitMain reg probe cfg a | c \<Rightarrow> c)"

subsection \<open>What is printed of jobs and logs\<close>

text \<open>The texts of times and durations are inputs: \<open>since t\<close> is \<open>time.Since(t).Round(time.Second)\<close>, \<open>stamp t\<close>
  the time in the layout of the place.\<close>

definition truncate_text :: "string \<Rightarrow> nat \<Rightarrow> string" where
  "truncate_text s n = (if length s \<le> n then s else take (n - 3) s @ ''...'')"

definition queue_banner :: "queue_status \<Rightarrow> string" where
  "queue_banner st =
    (let n = (\<lambda>c. itoa (int (case qsCounts st c of None \<Rightarrow> 0 | Some k \<Rightarrow> k))) in
     ''Queue'' @ (if qsPaused st then '' [PAUSED]'' else []) @ '' (concurrency: '' @ itoa (qsConcurrency st) @ '') '' @
     [CHR 0xE2, CHR 0x80, CHR 0x94] @ '' '' @ n StateQueued @ '' queued, '' @ n StateRunning @ '' running, '' @
     n StateQuarantined @ '' quarantined, '' @ n StateFailed @ '' failed'' @ [CHR 0x0A, CHR 0x0A])"

definition job_info :: "(int \<Rightarrow> string) \<Rightarrow> job \<Rightarrow> string" where
  "job_info since j =
    (if jState j = StateRunning \<and> jStartedAt j \<noteq> None then ''running '' @ since (the (jStartedAt j))
     else if jState j = StateFailed \<and> jLastError j \<noteq> [] then truncate_text (jLastError j) 40
     else if jState j = StateQuarantined \<and> jQuarantineReason j \<noteq> [] then truncate_text (jQuarantineReason j) 40
     else [])"

text \<open>The cells of the table, which the library aligns.\<close>

definition job_table :: "(int \<Rightarrow> string) \<Rightarrow> job list \<Rightarrow> string list list" where
  "job_table since js =
    [''ID'', ''STATE'', ''METHOD'', ''SOURCE'', ''CREATED'', ''INFO''] #
    map (\<lambda>j. [itoa (jID j), jState j, jMethod j, truncate_text (jSource j) 45, since (jCreatedAt j) @ '' ago'', job_info since j]) js"

definition field :: "string \<Rightarrow> string \<Rightarrow> string" where
  "field name val = ''  '' @ name @ val @ [CHR 0x0A]"

definition show_job :: "(int \<Rightarrow> string) \<Rightarrow> job \<Rightarrow> string" where
  "show_job stamp j =
    ''Job #'' @ itoa (jID j) @ '':'' @ [CHR 0x0A] @
    field ''State:       '' (jState j) @ field ''Method:      '' (jMethod j) @
    field ''Source:      '' (jSource j) @ field ''Destination: '' (jDestDir j) @
    (if jFlags j \<noteq> [] then field ''Flags:       ''
        (''map['' @ Join (map (\<lambda>(k, v). k @ '':'' @ v) (jFlags j)) '' '' @ '']'') else []) @
    field ''Priority:    '' (itoa (jPriority j)) @ field ''Created:     '' (stamp (jCreatedAt j)) @
    (case jStartedAt j of None \<Rightarrow> [] | Some t \<Rightarrow> field ''Started:     '' (stamp t)) @
    (case jFinishedAt j of None \<Rightarrow> [] | Some t \<Rightarrow> field ''Finished:    '' (stamp t)) @
    (if jRetryCount j > 0 then field ''Retries:     '' (itoa (jRetryCount j) @ '' / '' @ itoa (jMaxRetries j)) else []) @
    (if jLastError j \<noteq> [] then field ''Last Error:  '' (jLastError j) else []) @
    (if jQuarantineReason j \<noteq> [] then field ''Quarantine:  '' (jQuarantineReason j) else [])"

definition log_line :: "(int \<Rightarrow> string) \<Rightarrow> job_log \<Rightarrow> string" where
  "log_line stamp l = ''['' @ stamp (lTimestamp l) @ ''] ['' @ lStream l @ ''] '' @ lMessage l @ [CHR 0x0A]"

lemma truncate_text_length: "3 \<le> n \<Longrightarrow> length (truncate_text s n) \<le> n"
  by (auto simp: truncate_text_def)

end
