(* ===== verification/ClientWire.thy ===== *)
theory ClientWire
  imports Client ServerRun
begin

text \<open>
  What passes between the client and the server: the URL of a call and its route, the body of a call
  and what the server decodes, and an answer and what the client makes of it.
\<close>

subsection \<open>URLs of calls\<close>

definition path_char :: "char \<Rightarrow> bool" where
  "path_char c \<longleftrightarrow> is_alnum c \<or> c = CHR ''/'' \<or> c = CHR ''-''"

definition query_char :: "char \<Rightarrow> bool" where
  "query_char c \<longleftrightarrow> is_alnum c \<or> c \<in> set ''-_.~%+=&''"

lemma url_char:
  assumes "path_char c \<or> query_char c"
  shows "32 \<le> (of_char c :: nat)" "(of_char c :: nat) \<noteq> 127" "c \<noteq> CHR ''#''" "c \<noteq> CHR ''?''"
  using assms by (auto simp: path_char_def query_char_def is_alnum_def is_alpha_def is_digit_def Let_def)

lemma path_char_percent: "path_char c \<Longrightarrow> c \<noteq> CHR ''%''"
  by (auto simp: path_char_def is_alnum_def is_alpha_def is_digit_def Let_def)

lemma Cut_without: "c \<notin> set s \<Longrightarrow> Cut s [c] = (s, [], False)"
proof -
  assume "c \<notin> set s"
  then have "Index s [c] = None" by (induction s) (auto simp: HasPrefix_def)
  then show ?thesis by (simp add: Cut_def)
qed

lemma suffix_char: "HasSuffix s [c] \<Longrightarrow> c \<in> set s"
  by (auto simp: HasSuffix_iff)

lemma unescape_plain: "list_all path_char s \<Longrightarrow> unescape s encodePath = Inr s"
  by (induction s) (auto dest: path_char_percent)

lemma scheme_http: "getScheme (''http:'' @ x) = Inr (''http'', x)"
  by (simp add: getScheme_def is_alpha_def is_digit_def)

lemma parse_nofrag_http:
  assumes "\<not> has_ctl raw" and "raw \<noteq> ''*''" and "getScheme raw = Inr (''http'', rest0)"
    and "parse_query (empty_url\<lparr>Scheme := ''http''\<rparr>) rest0 = (u, ''//'' @ auth)"
    and "IndexByte auth (CHR ''/'') = Some i" and "parseAuthority ''http'' (take i auth) = Inr (None, h)"
  shows "parse_nofrag raw = setPath (u\<lparr>User := None, Host := h\<rparr>) (drop i auth)"
proof -
  have low: "ToLower ''http'' = ''http''" by code_simp
  have pre: "HasPrefix (''//'' @ auth) ''/''" "HasPrefix (''//'' @ auth) ''//''" by (simp_all add: HasPrefix_def)
  have d: "drop 2 (''//'' @ auth) = auth" by simp
  show ?thesis
    unfolding parse_nofrag_def assms(3) bind_sum_def sum.case prod.case low assms(4) Let_def d
    using assms(1,2) pre by (simp add: assms(5,6))
qed

lemma parse_unix:
  assumes p: "HasPrefix p ''/''" "list_all path_char p" and q: "list_all query_char q"
  shows "\<exists>u. Parse (''http://unix'' @ p @ (if q = [] then [] else CHR ''?'' # q)) = Inr u
     \<and> Scheme u = ''http'' \<and> Host u = ''unix'' \<and> Path u = p \<and> RawQuery u = q"
proof -
  let ?qq = "if q = [] then [] else CHR ''?'' # q"
  let ?rest = "''//unix'' @ p @ ?qq"
  have chars: "CHR ''?'' \<notin> set p" "CHR ''#'' \<notin> set p" "CHR ''?'' \<notin> set q" "CHR ''#'' \<notin> set q"
    using p(2) q url_char unfolding list_all_iff by blast+
  have cut: "Cut (''http:'' @ ?rest) ''#'' = (''http:'' @ ?rest, [], False)"
    using chars by (intro Cut_without) auto
  have ctl: "\<not> has_ctl (''http:'' @ ?rest)"
  proof -
    have "\<not> has_ctl p" "\<not> has_ctl q" using p(2) q url_char unfolding has_ctl_def list_ex_iff list_all_iff by force+
    moreover have "\<not> has_ctl ''http://unix''" "\<not> has_ctl ''?''" by code_simp+
    ultimately show ?thesis by (auto simp: has_ctl_def)
  qed
  have pq: "parse_query v ?rest = (v\<lparr>RawQuery := q\<rparr>, ''//unix'' @ p)" for v
  proof (cases "q = []")
    case True
    have "\<not> HasSuffix (''//unix'' @ p) ''?''" using chars suffix_char [of "''//unix'' @ p" "CHR ''?''"] by auto
    moreover have "Cut (''//unix'' @ p) ''?'' = (''//unix'' @ p, [], False)" using chars by (intro Cut_without) auto
    ultimately show ?thesis using True by (simp add: parse_query_def)
  next
    case False
    have "\<not> HasSuffix (''//unix'' @ p @ CHR ''?'' # q) ''?''"
      using chars False by (cases q rule: rev_cases) (auto simp: HasSuffix_def)
    moreover have "Cut ((''//unix'' @ p) @ CHR ''?'' # q) ''?'' = (''//unix'' @ p, q, True)"
      using chars by (intro Cut_single) auto
    ultimately show ?thesis using False by (simp add: parse_query_def)
  qed
  obtain r where r: "p = CHR ''/'' # r" using p(1) by (cases p) (auto simp: HasPrefix_def)
  have auth: "parseAuthority ''http'' ''unix'' = Inr (None, ''unix'')" by code_simp
  have "parse_nofrag (''http:'' @ ?rest) = setPath (empty_url\<lparr>Scheme := ''http'', RawQuery := q, User := None, Host := ''unix''\<rparr>) (drop 4 (''unix'' @ p))"
  proof (rule parse_nofrag_http [OF ctl _ scheme_http])
    show "parse_query (empty_url\<lparr>Scheme := ''http''\<rparr>) ?rest = (empty_url\<lparr>Scheme := ''http'', RawQuery := q\<rparr>, ''//'' @ ''unix'' @ p)"
      using pq by simp
  qed (use r auth in simp_all)
  then show ?thesis
    using cut unescape_plain [OF p(2)] by (simp add: Parse_def setPath_def bind_sum_def empty_url_def)
qed


subsection \<open>Routing\<close>

text \<open>The routes with their patterns split, as the multiplexer compares them.\<close>

fun find_seg :: "(string \<times> string list \<times> handler) list \<Rightarrow> string \<Rightarrow> string list \<Rightarrow> (handler \<times> string) option" where
  "find_seg [] m xs = None"
| "find_seg ((meth, ps, h) # rs) m xs =
    (case (if m = meth \<or> (meth = ''GET'' \<and> m = ''HEAD'') then match_segs ps xs [] else None) of
       Some v \<Rightarrow> Some (h, v) | None \<Rightarrow> find_seg rs m xs)"

definition split_route :: "string \<times> handler \<Rightarrow> string \<times> string list \<times> handler" where
  "split_route ph = (case Cut (fst ph) '' '' of (meth, pth, _) \<Rightarrow> (meth, Split pth (CHR ''/''), snd ph))"

lemma find_route_split: "find_route rs r = find_seg (map split_route rs) (rqMethod r) (Split (rqPath r) (CHR ''/''))"
proof (induction rs)
  case (Cons ph rs)
  obtain pat h where ph: "ph = (pat, h)" by (cases ph)
  obtain meth pth ok where c: "Cut pat '' '' = (meth, pth, ok)" by (metis prod_cases3)
  show ?case using Cons by (simp add: ph split_route_def match_pattern_def c split: option.split)
qed simp

definition split_pattern :: "string \<Rightarrow> string \<times> string list" where
  "split_pattern pat = (case Cut pat '' '' of (meth, pth, _) \<Rightarrow> (meth, Split pth (CHR ''/'')))"

lemma patterns_split: "map split_pattern (map fst routes) =
    [(''GET'', [[], ''api'', ''v1'', ''queue'', ''status'']),
     (''POST'', [[], ''api'', ''v1'', ''queue'', ''pause'']),
     (''POST'', [[], ''api'', ''v1'', ''queue'', ''resume'']),
     (''POST'', [[], ''api'', ''v1'', ''queue'', ''concurrency'']),
     (''GET'', [[], ''api'', ''v1'', ''jobs'']),
     (''POST'', [[], ''api'', ''v1'', ''jobs'']),
     (''POST'', [[], ''api'', ''v1'', ''jobs'', ''batch'']),
     (''GET'', [[], ''api'', ''v1'', ''jobs'', ''{id}'']),
     (''POST'', [[], ''api'', ''v1'', ''jobs'', ''{id}'', ''cancel'']),
     (''POST'', [[], ''api'', ''v1'', ''jobs'', ''{id}'', ''pause'']),
     (''POST'', [[], ''api'', ''v1'', ''jobs'', ''{id}'', ''resume'']),
     (''POST'', [[], ''api'', ''v1'', ''jobs'', ''{id}'', ''retry'']),
     (''POST'', [[], ''api'', ''v1'', ''jobs'', ''{id}'', ''quarantine'']),
     (''POST'', [[], ''api'', ''v1'', ''jobs'', ''{id}'', ''unquarantine'']),
     (''DELETE'', [[], ''api'', ''v1'', ''jobs'', ''{id}'']),
     (''GET'', [[], ''api'', ''v1'', ''jobs'', ''{id}'', ''logs'']),
     (''GET'', [[], ''api'', ''v1'', ''jobs'', ''{id}'', ''logs'', ''stream'']),
     (''GET'', [[], ''api'', ''v1'', ''events'']),
     (''GET'', [[], ''api'', ''v1'', ''config'']),
     (''PUT'', [[], ''api'', ''v1'', ''config'']),
     (''GET'', [[], ''auth'', ''login'']),
     (''POST'', [[], ''auth'', ''login'']),
     (''GET'', [[], ''auth'', ''oauth'', ''start'']),
     (''GET'', [[], ''auth'', ''callback'']),
     (''POST'', [[], ''auth'', ''logout'']),
     (''GET'', [[], ''api'', ''v1'', ''auth'', ''me''])]"
  by code_simp

lemma routes_split: "map split_route routes = map2 (\<lambda>(meth, ps) ph. (meth, ps, snd ph)) (map split_pattern (map fst routes)) routes"
proof -
  have "map split_route rs = map2 (\<lambda>(meth, ps) ph. (meth, ps, snd ph)) (map split_pattern (map fst rs)) rs" for rs
    by (induction rs) (auto simp: split_route_def split_pattern_def split: prod.splits)
  then show ?thesis .
qed

lemma route_table: "map split_route routes =
    [(''GET'', [[], ''api'', ''v1'', ''queue'', ''status''], handleQueueStatus),
     (''POST'', [[], ''api'', ''v1'', ''queue'', ''pause''], handleQueuePause),
     (''POST'', [[], ''api'', ''v1'', ''queue'', ''resume''], handleQueueResume),
     (''POST'', [[], ''api'', ''v1'', ''queue'', ''concurrency''], handleQueueConcurrency),
     (''GET'', [[], ''api'', ''v1'', ''jobs''], handleListJobs),
     (''POST'', [[], ''api'', ''v1'', ''jobs''], handleSubmitJob),
     (''POST'', [[], ''api'', ''v1'', ''jobs'', ''batch''], handleBatchJobs),
     (''GET'', [[], ''api'', ''v1'', ''jobs'', ''{id}''], handleGetJob),
     (''POST'', [[], ''api'', ''v1'', ''jobs'', ''{id}'', ''cancel''], handleCancelJob),
     (''POST'', [[], ''api'', ''v1'', ''jobs'', ''{id}'', ''pause''], handlePauseJob),
     (''POST'', [[], ''api'', ''v1'', ''jobs'', ''{id}'', ''resume''], handleResumeJob),
     (''POST'', [[], ''api'', ''v1'', ''jobs'', ''{id}'', ''retry''], handleRetryJob),
     (''POST'', [[], ''api'', ''v1'', ''jobs'', ''{id}'', ''quarantine''], handleQuarantineJob),
     (''POST'', [[], ''api'', ''v1'', ''jobs'', ''{id}'', ''unquarantine''], handleUnquarantineJob),
     (''DELETE'', [[], ''api'', ''v1'', ''jobs'', ''{id}''], handleDeleteJob),
     (''GET'', [[], ''api'', ''v1'', ''jobs'', ''{id}'', ''logs''], handleGetLogs),
     (''GET'', [[], ''api'', ''v1'', ''jobs'', ''{id}'', ''logs'', ''stream''], handleStreamLogs),
     (''GET'', [[], ''api'', ''v1'', ''events''], handleStreamEvents),
     (''GET'', [[], ''api'', ''v1'', ''config''], handleGetConfig),
     (''PUT'', [[], ''api'', ''v1'', ''config''], handleSaveConfig),
     (''GET'', [[], ''auth'', ''login''], handleLoginPage),
     (''POST'', [[], ''auth'', ''login''], handleLoginSubmit),
     (''GET'', [[], ''auth'', ''oauth'', ''start''], handleOAuthStart),
     (''GET'', [[], ''auth'', ''callback''], handleOAuthCallback),
     (''POST'', [[], ''auth'', ''logout''], handleLogout),
     (''GET'', [[], ''api'', ''v1'', ''auth'', ''me''], handleAuthMe)]"
  unfolding routes_split patterns_split unfolding routes_def by simp

text \<open>A request whose path is in its shortest form, as all calls of the client have it.\<close>

lemma plain_no_slash: "plain_elem p \<Longrightarrow> slash \<notin> set p"
  by (simp add: plain_elem_def)

lemma Join_ends: "fs \<noteq> [] \<Longrightarrow> \<exists>x. Join fs s = x @ last fs"
proof (induction fs s rule: Join.induct)
  case (3 p q ps s)
  then obtain x where "Join (q # ps) s = x @ last (q # ps)" by auto
  then have "Join (p # q # ps) s = (p @ s @ x) @ last (p # q # ps)" by simp
  then show ?case by blast
qed auto

lemma clean_segs:
  assumes "list_all plain_elem es" and "es \<noteq> []"
  shows "clean_path (slash # Join es [slash]) = slash # Join es [slash]"
proof -
  let ?p = "slash # Join es [slash]"
  have r: "rooted ?p" by (simp add: rooted_def HasPrefix_def slash_def)
  have c: "clean_elems ?p = es" by (rule clean_elems_unclean_rooted [OF assms(1)])
  then have C: "Clean ?p = ?p" using r by (simp add: Clean_def unclean_def)
  have ne: "plain_elem (last es)" using assms by (simp add: list_all_iff)
  then have "last es \<noteq> []" "slash \<notin> set (last es)" by (simp_all add: plain_elem_def)
  moreover obtain x where "Join es [slash] = x @ last es" using Join_ends [OF assms(2)] by blast
  ultimately have "last ?p \<noteq> slash" by (metis append_is_Nil_conv last_ConsR last_appendR last_in_set)
  then have "\<not> HasSuffix ?p ''/''" using HasSuffix_iff [of ?p "''/''"] by (metis last_snoc slash_def)
  then show ?thesis using r C by (simp add: clean_path_def rooted_def slash_def Let_def)
qed

lemma ServeHTTP_route:
  assumes "rqPath r = slash # Join es [slash]" and "list_all plain_elem es" and "es \<noteq> []"
    and "find_seg (map split_route routes) (rqMethod r) ([] # es) = Some (h, v)"
  shows "ServeHTTP w r s = h w v r s"
proof -
  have "Split (rqPath r) slash = [] # es"
  proof -
    have J: "Join ([] # es) [slash] = rqPath r" using assms(1,3) by (cases es) simp_all
    have "Split (Join ([] # es) [slash]) slash = [] # es"
    proof (rule Split_Join)
      fix p assume "p \<in> set ([] # es)"
      then consider "p = []" | "p \<in> set es" by auto
      then show "slash \<notin> set p" using assms(2) plain_no_slash by cases (simp_all add: list_all_iff)
    qed simp
    then show ?thesis unfolding J .
  qed
  then have "find_route routes r = Some (h, v)" using assms(4) by (simp add: find_route_split slash_def)
  then show ?thesis using clean_segs [OF assms(2,3)] assms(1) by (simp add: ServeHTTP_def)
qed


subsection \<open>Bodies\<close>

text \<open>The names of fields as the decoder compares them.\<close>

lemma field_names:
  "EqualFold ''method'' ''method'' \<and> \<not> EqualFold ''method'' ''source'' \<and> \<not> EqualFold
    ''method'' ''dest_dir'' \<and> \<not> EqualFold ''method'' ''flags'' \<and> \<not> EqualFold ''method''
    ''priority'' \<and> \<not> EqualFold ''source'' ''method'' \<and> EqualFold ''source'' ''source'' \<and>
    \<not> EqualFold ''source'' ''dest_dir'' \<and> \<not> EqualFold ''source'' ''flags'' \<and> \<not> EqualFold
    ''source'' ''priority'' \<and> \<not> EqualFold ''dest_dir'' ''method'' \<and> \<not> EqualFold ''dest_dir''
    ''source'' \<and> EqualFold ''dest_dir'' ''dest_dir'' \<and> \<not> EqualFold ''dest_dir'' ''flags'' \<and>
    \<not> EqualFold ''dest_dir'' ''priority'' \<and> \<not> EqualFold ''flags'' ''method'' \<and> \<not>
    EqualFold ''flags'' ''source'' \<and> \<not> EqualFold ''flags'' ''dest_dir'' \<and> EqualFold ''flags''
    ''flags'' \<and> \<not> EqualFold ''flags'' ''priority'' \<and> \<not> EqualFold ''priority'' ''method''
    \<and> \<not> EqualFold ''priority'' ''source'' \<and> \<not> EqualFold ''priority'' ''dest_dir'' \<and>
    \<not> EqualFold ''priority'' ''flags'' \<and> EqualFold ''priority'' ''priority'' \<and> EqualFold ''action''
    ''action'' \<and> \<not> EqualFold ''action'' ''prefix'' \<and> \<not> EqualFold ''action'' ''ids'' \<and>
    \<not> EqualFold ''action'' ''reason'' \<and> \<not> EqualFold ''prefix'' ''action'' \<and> EqualFold
    ''prefix'' ''prefix'' \<and> \<not> EqualFold ''prefix'' ''ids'' \<and> \<not> EqualFold ''prefix'' ''reason''
    \<and> \<not> EqualFold ''ids'' ''action'' \<and> \<not> EqualFold ''ids'' ''prefix'' \<and> EqualFold ''ids''
    ''ids'' \<and> \<not> EqualFold ''ids'' ''reason'' \<and> \<not> EqualFold ''reason'' ''action'' \<and> \<not>
    EqualFold ''reason'' ''prefix'' \<and> \<not> EqualFold ''reason'' ''ids'' \<and> EqualFold ''reason''
    ''reason'' \<and> EqualFold ''concurrency'' ''concurrency'' \<and> EqualFold ''error'' ''error''"
  by code_simp

lemma field_members_Nil [simp]: "field_members k [] = []"
  by (simp add: field_members_def)

lemma field_members_Cons [simp]: "field_members k ((x, v) # ms) =
    (if EqualFold x k \<and> v \<noteq> JNull then v # field_members k ms else field_members k ms)"
  by (simp add: field_members_def)

lemma field_members_append [simp]: "field_members k (ms @ ms') = field_members k ms @ field_members k ms'"
  by (simp add: field_members_def)

lemma field_members_text [simp]: "field_members k (text_member x v) = (if v = [] \<or> \<not> EqualFold x k then [] else [JStr v])"
  by (simp add: text_member_def)

definition int64 :: "int \<Rightarrow> bool" where
  "int64 n \<longleftrightarrow> - (2 ^ 63) \<le> n \<and> n < 2 ^ 63"

lemma Atoi_int64 [simp]: "int64 n \<Longrightarrow> Atoi (itoa n) = (n, True)"
  by (simp add: int64_def Atoi_itoa)

lemma smap_field_text:
  assumes "smap_wf m"
  shows "foldl (\<lambda>a (k, e). smap_put k (member_text e) a) [] (map (\<lambda>(k, v). (k, JStr v)) m) = m"
  using foldl_smap_put [of "[]" m] assms by simp

lemma text_members_ok: "list_all (\<lambda>(k, e). member_ok e) (map (\<lambda>(k, v). (k, JStr v)) m)"
  by (auto simp: list_all_iff member_ok_def)

lemma decode_concurrency: "int64 n \<Longrightarrow> decode_int ''concurrency'' (Marshal (JObj [(''concurrency'', JInt n)])) = Some n"
proof -
  assume n: "int64 n"
  have s: "struct_members (Marshal (JObj [(''concurrency'', JInt n)])) = Some [(''concurrency'', JInt n)]"
    by (rule struct_members_Marshal) simp
  show ?thesis unfolding decode_int_def s using n field_names by (simp add: int_field_def JInt_def)
qed

lemma decode_reason: "decoded_string ''reason'' (Marshal (JObj [(''reason'', JStr t)])) = t"
proof -
  have s: "struct_members (Marshal (JObj [(''reason'', JStr t)])) = Some [(''reason'', JStr t)]"
    by (rule struct_members_Marshal) simp
  show ?thesis unfolding decoded_string_def s using field_names by (simp add: string_field_def)
qed

lemma decode_submit_json:
  assumes "smap_wf (sFlags r)" and "int64 (sPriority r)"
  shows "decode_submit (Marshal (submit_json r)) = Some r"
proof -
  obtain ms where ms: "submit_json r = JObj ms" and m: "ms = text_member ''method'' (sMethod r) @ [(''source'', JStr (sSource r))]
     @ text_member ''dest_dir'' (sDestDir r)
     @ (if sFlags r = [] then [] else [(''flags'', JObj (map (\<lambda>(k, v). (k, JStr v)) (sFlags r)))])
     @ (if sPriority r = 0 then [] else [(''priority'', JInt (sPriority r))])" by (simp add: submit_json_def)
  have "json_ints (JObj ms)" by (auto simp: m text_member_def)
  then have s: "struct_members (Marshal (JObj ms)) = Some ms" by (rule struct_members_Marshal)
  have f: "string_field ''method'' ms = (sMethod r, True)" "string_field ''source'' ms = (sSource r, True)"
    "string_field ''dest_dir'' ms = (sDestDir r, True)" "int_field ''priority'' ms = (sPriority r, True)"
    using assms(2) field_names by (simp_all add: m string_field_def int_field_def JInt_def)
  have "smap_field ''flags'' ms = (sFlags r, True)"
    using field_names smap_field_text [OF assms(1)] text_members_ok [of "sFlags r"]
    by (simp add: m smap_field_def JInt_def)
  then show ?thesis unfolding decode_submit_def ms s using f by simp
qed

lemma decode_batch_json:
  assumes "\<forall>i \<in> set (bIDs r). int64 i"
  shows "decode_batch (Marshal (batch_json r)) = Some r"
proof -
  obtain ms where ms: "batch_json r = JObj ms" and m: "ms = [(''action'', JStr (bAction r))] @ text_member ''prefix'' (bPrefix r)
     @ (if bIDs r = [] then [] else [(''ids'', JArr (map JInt (bIDs r)))])
     @ text_member ''reason'' (bReason r)" by (simp add: batch_json_def)
  have "json_ints (JObj ms)" by (auto simp: m text_member_def)
  then have s: "struct_members (Marshal (JObj ms)) = Some ms" by (rule struct_members_Marshal)
  have f: "string_field ''action'' ms = (bAction r, True)" "string_field ''prefix'' ms = (bPrefix r, True)"
    "string_field ''reason'' ms = (bReason r, True)"
    using field_names by (simp_all add: m string_field_def)
  have "map (\<lambda>e. case e of JNum t \<Rightarrow> (case Atoi t of (i, good) \<Rightarrow> if good then i else 0) | _ \<Rightarrow> 0) (map JInt (bIDs r)) = bIDs r"
    using assms by (induction "bIDs r" arbitrary: r) (auto simp: JInt_def intro!: map_idI)
  moreover have "list_all (\<lambda>e. case e of JNum t \<Rightarrow> snd (Atoi t) | JNull \<Rightarrow> True | _ \<Rightarrow> False) (map JInt (bIDs r))"
    using assms by (auto simp: list_all_iff JInt_def)
  ultimately have "ints_field ''ids'' ms = (bIDs r, True)"
    using field_names by (simp add: m ints_field_def)
  then show ?thesis unfolding decode_batch_def ms s using f by simp
qed


subsection \<open>Answers\<close>

text \<open>What an operation gives to a caller of the API: an error with its status, or a value; and what the
  client makes of the error.\<close>

type_synonym reply = "(int \<times> string) + body"

definition report :: "int \<Rightarrow> ('a \<Rightarrow> body) \<Rightarrow> 'a result \<times> queue \<Rightarrow> reply \<times> queue" where
  "report code f x = (case x of (Inl e, q) \<Rightarrow> (Inl (code, err_text e), q) | (Inr a, q) \<Rightarrow> (Inr (f a), q))"

definition client_text :: "int \<times> string \<Rightarrow> string" where
  "client_text e = (if snd e = [] then ''http '' @ itoa (fst e) @ '': {'' @ quoted ''error'' @ '':'' @ quoted [] @ ''}''
     else ''server error: '' @ snd e)"

definition answered :: "response \<Rightarrow> string + body" where
  "answered rp = (case checkErr (rpStatus rp) (body_text (rpBody rp)) of Some e \<Rightarrow> Inl e | None \<Rightarrow> Inr (rpBody rp))"

definition gives :: "(response \<times> server) option \<Rightarrow> server \<Rightarrow> reply \<times> queue \<Rightarrow> bool" where
  "gives x s res \<longleftrightarrow> (\<exists>rp s'. x = Some (rp, s') \<and> svQueue s' = snd res \<and> svCfg s' = svCfg s \<and> svAuth s' = svAuth s
     \<and> svConfigFile s' = svConfigFile s \<and> answered rp = map_sum client_text id (fst res))"

lemma json_parse_error: "json_parse (Marshal (JObj [(''error'', JStr m)]) @ [CHR 0x0A]) = Some (JObj [(''error'', JStr m)])"
proof -
  let ?v = "JObj [(''error'', JStr m)]"
  have "reads_back ?v" by (rule reads_back_all) simp
  then have "parse_value (2 * length (Marshal ?v @ [CHR 0x0A]) + 2) (Marshal ?v @ [CHR 0x0A]) = Some (?v, [CHR 0x0A])"
    unfolding reads_back_def by simp
  moreover have "skip_ws [CHR 0x0A] = []" by (simp add: skip_ws_def json_space_def)
  ultimately show ?thesis by (simp add: json_parse_def del: Marshal.simps)
qed

lemma answered_error:
  assumes "\<not> (200 \<le> code \<and> code < 300)"
  shows "answered (writeError code (Txt m)) = Inl (client_text (code, m))"
proof -
  have b: "body_text (BError (Txt m)) = Marshal (JObj [(''error'', JStr m)]) @ [CHR 0x0A]" by simp
  have f: "string_field ''error'' [(''error'', JStr x)] = (x, True)" for x
    using field_names by (simp add: string_field_def)
  have t: "TrimSpace (Marshal (JObj [(''error'', JStr [])]) @ [CHR 0x0A]) = ''{'' @ quoted ''error'' @ '':'' @ quoted [] @ ''}''"
    by code_simp
  show ?thesis using assms t
    by (simp add: answered_def writeError_def writeJSON_def checkErr_def b json_parse_error f client_text_def
        del: Marshal.simps body_text.simps)
qed

lemma gives_error:
  assumes "\<not> (200 \<le> code \<and> code < 300)" and "s' = s\<lparr>svQueue := q\<rparr>"
  shows "gives (Some (writeError code (Txt m), s')) s (Inl (code, m), q)"
  using answered_error [OF assms(1)] assms(2) by (simp add: gives_def)

lemma gives_value:
  assumes "200 \<le> code" "code < 300" and "s' = s\<lparr>svQueue := q\<rparr>"
  shows "gives (Some (writeJSON code b, s')) s (Inr b, q)"
  using assms by (simp add: gives_def answered_def writeJSON_def checkErr_def)

lemma gives_event:
  assumes "events_ok s" and "200 \<le> code" "code < 300"
  shows "gives (after_event ev (writeJSON code b) (s\<lparr>svQueue := q\<rparr>)) s (Inr b, q)"
proof -
  have "events_ok (s\<lparr>svQueue := q\<rparr>)" using assms(1) by simp
  from after_event_ok [OF this, of ev "writeJSON code b"] obtain cs where
    "after_event ev (writeJSON code b) (s\<lparr>svQueue := q\<rparr>) = Some (writeJSON code b, s\<lparr>svQueue := q, svEventChans := cs\<rparr>)" by blast
  then show ?thesis using assms by (simp add: gives_def answered_def writeJSON_def checkErr_def)
qed

text \<open>A handler that runs an operation of the queue.\<close>

lemma gives_op:
  assumes "events_ok s" and "\<not> (200 \<le> code \<and> code < 300)"
    and "\<And>a q. gives (k a (s\<lparr>svQueue := q\<rparr>)) s (Inr (f a), q)"
  shows "gives (case on_queue op s of (Inl e, s1) \<Rightarrow> Some (error_reply code e, s1) | (Inr a, s1) \<Rightarrow> k a s1) s
    (report code f (op (svQueue s)))"
proof -
  obtain r q where o: "op (svQueue s) = (r, q)" by (cases "op (svQueue s)")
  show ?thesis
  proof (cases r)
    case (Inl e)
    then show ?thesis using o gives_error [OF assms(2) refl] by (simp add: on_queue_def report_def error_reply_def)
  next
    case (Inr a)
    then show ?thesis using o assms(3) by (simp add: on_queue_def report_def)
  qed
qed

lemma gives_job_action:
  assumes "events_ok s" and "\<not> (200 \<le> code \<and> code < 300)" and "int64 n"
    and "\<And>a. \<exists>c b. reply a = writeJSON c b \<and> 200 \<le> c \<and> c < 300 \<and> b = f a"
  shows "gives (job_action op code ev reply (itoa n) s) s (report code f (op n (svQueue s)))"
proof -
  have "gives (after_event (''job:'' @ ev @ '':'' @ itoa n) (reply a) (s\<lparr>svQueue := q\<rparr>)) s (Inr (f a), q)" for a q
    using gives_event [OF assms(1)] assms(4) [of a] by auto
  from gives_op [OF assms(1,2), where k = "\<lambda>a s1. after_event (''job:'' @ ev @ '':'' @ itoa n) (reply a) s1", OF this]
  show ?thesis using assms(3) by (simp add: job_action_def with_id_def parseJobID_def)
qed

end
