(* ===== verification/ClientProps.thy ===== *)
theory ClientProps
  imports ClientWire ServerProps
begin

text \<open>
  The client and the server together: over the socket of the daemon, every method of the client runs
  the operation of the queue it is named after and reports its result.
\<close>

text \<open>What the caller of a method means: the operation of the queue, with the checks of the API. States
  the daemon does not know are dropped from a filter, numbers that are not positive count as none.\<close>

definition api_filter :: "job_filter \<Rightarrow> job_filter" where
  "api_filter f = f\<lparr>fStates := filter Valid (map TrimSpace (fStates f)), fLimit := max 0 (fLimit f), fOffset := max 0 (fOffset f)\<rparr>"

definition status_body :: "string \<Rightarrow> body" where
  "status_body st = BFields [(''status'', st)]"

primrec meant :: "world \<Rightarrow> config \<Rightarrow> client_op \<Rightarrow> queue \<Rightarrow> reply \<times> queue" where
  "meant w cfg OpGetStatus q = report 500 BQueueStatus (GetStatus (wNow w) q)"
| "meant w cfg OpPauseQueue q = report 500 (\<lambda>_. status_body ''paused'') (PauseQueue q)"
| "meant w cfg OpResumeQueue q = report 500 (\<lambda>_. status_body ''resumed'') (ResumeQueue q)"
| "meant w cfg (OpSetConcurrency n) q =
     (if n < 1 then (Inl (400, ''concurrency must be at least 1''), q)
      else report 500 (\<lambda>_. BConcurrency n) (SetConcurrency n q))"
| "meant w cfg (OpListJobs f) q = report 500 BJobs (on_store (ListJobs (api_filter f)) q)"
| "meant w cfg (OpSubmitJob req) q =
     (if TrimSpace (sSource req) = [] then (Inl (400, ''source cannot be empty''), q)
      else (case prepare_submit w cfg req of
         Inl e \<Rightarrow> (Inl (400, e), q)
       | Inr req' \<Rightarrow> report 500 BJob (Enqueue (wNow w) req' q)))"
| "meant w cfg (OpGetJob i) q = report 500 BJob (on_store (GetJob i) q)"
| "meant w cfg (OpCancelJob i) q = report 500 (\<lambda>_. status_body ''cancelled'') (CancelQueueJob (wNow w) i q)"
| "meant w cfg (OpPauseJob i) q = report 400 (\<lambda>_. status_body ''paused'') (PauseQueueJob i q)"
| "meant w cfg (OpResumeJob i) q = report 400 (\<lambda>_. status_body ''resumed'') (ResumeQueueJob i q)"
| "meant w cfg (OpRetryJob i) q = report 500 BJob (RetryQueueJob i q)"
| "meant w cfg (OpQuarantineJob i reason) q =
     report 500 (\<lambda>_. status_body ''quarantined'')
       (QuarantineQueueJob (wNow w) i (if reason = [] then ''manual quarantine via API'' else reason) q)"
| "meant w cfg (OpUnquarantineJob i) q = report 400 (\<lambda>_. status_body ''unquarantined'') (UnquarantineQueueJob i q)"
| "meant w cfg (OpDeleteJob i) q = report 400 (\<lambda>_. status_body ''deleted'') (on_store (DeleteJob i) q)"
| "meant w cfg (OpBatchJobs req) q =
     (if bAction req = [] then (Inl (400, ''missing action in batch request''), q)
      else report 500 BBatch (BatchJobs (wNow w) req q))"
| "meant w cfg (OpGetLogs i limit offset) q = report 500 BLogs (on_store (GetLogs i (max 0 limit) (max 0 offset)) q)"
| "meant w cfg (OpStreamLogs i) q =
     (case Subscribe i 100 (qHub q) of ((ch, recent), h) \<Rightarrow> (Inr (BLogStream ch recent), q\<lparr>qHub := h\<rparr>))"

text \<open>The values a call can carry: integers of 64 bits, flags that are a map, states without a comma.\<close>

primrec sendable :: "client_op \<Rightarrow> bool" where
  "sendable OpGetStatus = True"
| "sendable OpPauseQueue = True"
| "sendable OpResumeQueue = True"
| "sendable (OpSetConcurrency n) = int64 n"
| "sendable (OpListJobs f) = (int64 (fLimit f) \<and> int64 (fOffset f) \<and> (\<forall>st \<in> set (fStates f). CHR '','' \<notin> set st))"
| "sendable (OpSubmitJob req) = (smap_wf (sFlags req) \<and> int64 (sPriority req))"
| "sendable (OpGetJob i) = int64 i"
| "sendable (OpCancelJob i) = int64 i"
| "sendable (OpPauseJob i) = int64 i"
| "sendable (OpResumeJob i) = int64 i"
| "sendable (OpRetryJob i) = int64 i"
| "sendable (OpQuarantineJob i reason) = int64 i"
| "sendable (OpUnquarantineJob i) = int64 i"
| "sendable (OpDeleteJob i) = int64 i"
| "sendable (OpBatchJobs req) = (\<forall>i \<in> set (bIDs req). int64 i)"
| "sendable (OpGetLogs i limit offset) = (int64 i \<and> int64 limit \<and> int64 offset)"
| "sendable (OpStreamLogs i) = int64 i"

text \<open>A call over the socket of the daemon; \<open>None\<close> is a panic of the daemon.\<close>

definition client_call :: "world \<Rightarrow> call \<Rightarrow> server \<Rightarrow> ((string + body) \<times> server) option" where
  "client_call w ca s = (case sent ca of
     Inl e \<Rightarrow> Some (client_do (\<lambda>_. Inl e) ca, s)
   | Inr r \<Rightarrow> map_option (\<lambda>(rp, s'). (client_do (\<lambda>_. Inr rp) ca, s')) (ServeHTTP w r s))"

definition runs_as :: "(string + body) \<times> server \<Rightarrow> server \<Rightarrow> reply \<times> queue \<Rightarrow> bool" where
  "runs_as out s res \<longleftrightarrow> fst out = map_sum client_text id (fst res) \<and> svQueue (snd out) = snd res
     \<and> svCfg (snd out) = svCfg s \<and> svAuth (snd out) = svAuth s \<and> svConfigFile (snd out) = svConfigFile s"

subsection \<open>Calls and handlers\<close>

lemma path_chars_Join: "list_all (list_all path_char) es \<Longrightarrow> list_all path_char (Join es [slash])"
  by (induction es "[slash]" rule: Join.induct) (auto simp: path_char_def slash_def)

lemma client_served:
  assumes url: "caURL ca = ''http://unix'' @ (slash # Join es [slash]) @ (if qs = [] then [] else CHR ''?'' # qs)"
    and es: "es \<noteq> []" "list_all plain_elem es" "list_all (list_all path_char) es" and qs: "list_all query_char qs"
    and route: "find_seg (map split_route routes) (caMethod ca) ([] # es) = Some (h, v)"
    and handler: "\<And>r. rqRawQuery r = qs \<Longrightarrow> rqBody r = caBody ca \<Longrightarrow> gives (h w v r s) s res"
  shows "\<exists>out. client_call w ca s = Some out \<and> runs_as out s res"
proof -
  let ?p = "slash # Join es [slash]"
  have "HasPrefix ?p ''/''" by (simp add: HasPrefix_def slash_def)
  moreover have "list_all path_char ?p" using path_chars_Join [OF es(3)] by (simp add: path_char_def slash_def)
  ultimately obtain u where u: "Parse (caURL ca) = Inr u" "Scheme u = ''http''" "Host u = ''unix''" "Path u = ?p" "RawQuery u = qs"
    unfolding url using parse_unix [OF _ _ qs, of ?p] by blast
  define r where "r = \<lparr>rqMethod = caMethod ca, rqPath = ?p, rqRawQuery = qs, rqHost = ''unix'', rqTLS = False,
     rqHeaders = (if caJSON ca then [(''Content-Type'', ''application/json'')] else []), rqCookies = [], rqBody = caBody ca\<rparr>"
  have s: "sent ca = Inr r" using u by (simp add: sent_def r_def)
  have "ServeHTTP w r s = h w v r s"
    by (rule ServeHTTP_route [OF _ es(2,1)]) (use route in \<open>simp_all add: r_def\<close>)
  moreover have "gives (h w v r s) s res" by (rule handler) (simp_all add: r_def)
  ultimately obtain rp s' where "ServeHTTP w r s = Some (rp, s')" "svQueue s' = snd res" "svCfg s' = svCfg s" "svAuth s' = svAuth s"
    "svConfigFile s' = svConfigFile s" "answered rp = map_sum client_text id (fst res)" unfolding gives_def by metis
  then show ?thesis using s by (simp add: client_call_def client_do_def answered_def [symmetric] runs_as_def)
qed

lemma itoa_chars: "list_all path_char (itoa n)"
  using nat_digits_all by (auto simp: itoa_def path_char_def is_alnum_def list_all_iff)

lemma itoa_elem: "plain_elem (itoa n)"
proof -
  obtain c cs where c: "itoa n = c # cs" "is_digit c \<or> c = CHR ''-''" using itoa_start by blast
  have "\<not> is_digit slash" by (simp add: slash_def is_digit_def)
  then have "slash \<notin> set (nat_digits k)" for k using nat_digits_all [of k] by (auto simp: list_all_iff)
  then have "slash \<notin> set (itoa n)" by (simp add: itoa_def slash_def)
  then show ?thesis using c by (auto simp: plain_elem_def is_digit_def)
qed


subsection \<open>What the handlers give\<close>

lemma status_reply_body: "status_reply st = writeJSON 200 (status_body st)"
  by (simp add: status_reply_def status_body_def)

lemma gives_queue_handlers:
  assumes "events_ok s"
  shows "gives (handleQueueStatus w v r s) s (meant w (svCfg s) OpGetStatus (svQueue s))"
    and "gives (handleQueuePause w v r s) s (meant w (svCfg s) OpPauseQueue (svQueue s))"
    and "gives (handleQueueResume w v r s) s (meant w (svCfg s) OpResumeQueue (svQueue s))"
  unfolding handleQueueStatus_def handleQueuePause_def handleQueueResume_def meant.simps status_reply_body
  by (rule gives_op [OF assms], simp, simp add: gives_value gives_event assms)+

lemma gives_concurrency:
  assumes "events_ok s" and "rqBody r = Marshal (JObj [(''concurrency'', JInt n)])" and "int64 n"
  shows "gives (handleQueueConcurrency w v r s) s (meant w (svCfg s) (OpSetConcurrency n) (svQueue s))"
proof (cases "n < 1")
  case True
  then show ?thesis using gives_error [of 400 s "svQueue s" s] decode_concurrency [OF assms(3)] assms(2)
    by (simp add: handleQueueConcurrency_def)
next
  case False
  have "gives (case on_queue (SetConcurrency n) s of (Inl e, s1) \<Rightarrow> Some (error_reply 500 e, s1)
      | (Inr _, s1) \<Rightarrow> after_event (''concurrency:'' @ itoa n) (writeJSON 200 (BConcurrency n)) s1) s
    (report 500 (\<lambda>_. BConcurrency n) (SetConcurrency n (svQueue s)))"
    by (rule gives_op [OF assms(1)]) (simp_all add: gives_event assms(1))
  then show ?thesis using False decode_concurrency [OF assms(3)] assms(2) by (simp add: handleQueueConcurrency_def)
qed

lemma gives_batch:
  assumes "events_ok s" and "rqBody r = Marshal (batch_json req)" and "\<forall>i \<in> set (bIDs req). int64 i"
  shows "gives (handleBatchJobs w v r s) s (meant w (svCfg s) (OpBatchJobs req) (svQueue s))"
proof (cases "bAction req = []")
  case True
  then show ?thesis using gives_error [of 400 s "svQueue s" s] decode_batch_json [OF assms(3)] assms(2)
    by (simp add: handleBatchJobs_def)
next
  case False
  have "gives (case on_queue (BatchJobs (wNow w) req) s of (Inl e, s1) \<Rightarrow> Some (error_reply 500 e, s1)
      | (Inr res, s1) \<Rightarrow> after_event (''jobs:batch:'' @ bAction req) (writeJSON 200 (BBatch res)) s1) s
    (report 500 BBatch (BatchJobs (wNow w) req (svQueue s)))"
    by (rule gives_op [OF assms(1)]) (simp_all add: gives_event assms(1))
  then show ?thesis using False decode_batch_json [OF assms(3)] assms(2) by (simp add: handleBatchJobs_def)
qed

lemma gives_submit:
  assumes "events_ok s" and "rqBody r = Marshal (submit_json req)" and "smap_wf (sFlags req)" and "int64 (sPriority req)"
  shows "gives (handleSubmitJob w v r s) s (meant w (svCfg s) (OpSubmitJob req) (svQueue s))"
proof -
  note d = decode_submit_json [OF assms(3,4)]
  have e: "gives (Some (writeError 400 (Txt m), s)) s (Inl (400, m), svQueue s)" for m
    using gives_error [of 400 s "svQueue s" s] by simp
  have "gives (case on_queue (Enqueue (wNow w) req') s of (Inl e, s1) \<Rightarrow> Some (error_reply 500 e, s1)
      | (Inr job, s1) \<Rightarrow> after_event (''job:enqueued:'' @ itoa (jID job)) (writeJSON 201 (BJob job)) s1) s
    (report 500 BJob (Enqueue (wNow w) req' (svQueue s)))" for req'
    by (rule gives_op [OF assms(1)]) (simp_all add: gives_event assms(1))
  then show ?thesis using d assms(2) e
    by (simp add: handleSubmitJob_def Validate_def error_reply_def split: sum.split)
qed

lemma gives_job_handlers:
  assumes "events_ok s" and "int64 n"
  shows "gives (handleCancelJob w (itoa n) r s) s (meant w (svCfg s) (OpCancelJob n) (svQueue s))"
    and "gives (handlePauseJob w (itoa n) r s) s (meant w (svCfg s) (OpPauseJob n) (svQueue s))"
    and "gives (handleResumeJob w (itoa n) r s) s (meant w (svCfg s) (OpResumeJob n) (svQueue s))"
    and "gives (handleRetryJob w (itoa n) r s) s (meant w (svCfg s) (OpRetryJob n) (svQueue s))"
    and "gives (handleUnquarantineJob w (itoa n) r s) s (meant w (svCfg s) (OpUnquarantineJob n) (svQueue s))"
    and "gives (handleDeleteJob w (itoa n) r s) s (meant w (svCfg s) (OpDeleteJob n) (svQueue s))"
  unfolding handleCancelJob_def handlePauseJob_def handleResumeJob_def handleRetryJob_def handleUnquarantineJob_def
    handleDeleteJob_def meant.simps status_reply_body
  by (rule gives_job_action [OF assms(1) _ assms(2)], simp,
      intro exI conjI; (rule refl)?; simp)+

lemma gives_quarantine:
  assumes "events_ok s" and "int64 n" and "rqBody r = Marshal (JObj [(''reason'', JStr reason)])"
  shows "gives (handleQuarantineJob w (itoa n) r s) s (meant w (svCfg s) (OpQuarantineJob n reason) (svQueue s))"
proof -
  have q: "quarantine_reason (rqBody r) = (if reason = [] then ''manual quarantine via API'' else reason)"
    by (simp add: quarantine_reason_def assms(3) decode_reason Let_def del: Marshal.simps)
  show ?thesis unfolding handleQuarantineJob_def meant.simps status_reply_body q
    by (rule gives_job_action [OF assms(1) _ assms(2)], simp, intro exI conjI; (rule refl)?; simp)
qed

lemma gives_get_job:
  assumes "events_ok s" and "int64 n"
  shows "gives (handleGetJob w (itoa n) r s) s (meant w (svCfg s) (OpGetJob n) (svQueue s))"
proof -
  obtain x q where o: "on_store (GetJob n) (svQueue s) = (x, q)" by (cases "on_store (GetJob n) (svQueue s)")
  have "client_text (404, ''job not found'') = client_text (500, ''job not found'')" by (simp add: client_text_def)
  then have "gives (Some (writeError 404 (Txt ''job not found''), s\<lparr>svQueue := q\<rparr>)) s (Inl (500, ''job not found''), q)"
    using gives_error [of 404 "s\<lparr>svQueue := q\<rparr>" q s "''job not found''"] by (simp add: gives_def)
  then show ?thesis using o assms(2) gives_error [of 500 "s\<lparr>svQueue := q\<rparr>" q s] gives_value [of 200 "s\<lparr>svQueue := q\<rparr>" q s]
    by (cases x rule: sum.exhaust; cases "projl x")
       (auto simp: handleGetJob_def with_id_def parseJobID_def on_queue_def report_def error_reply_def split: sum.splits err.splits)
qed


text \<open>Queries.\<close>

definition query_text :: "smap \<Rightarrow> string" where
  "query_text vals = (if vals = [] then [] else EncodeQuery vals)"

lemma EncodeQuery_nonempty: "vals \<noteq> [] \<Longrightarrow> EncodeQuery vals \<noteq> []"
proof
  assume "vals \<noteq> []" and "EncodeQuery vals = []"
  then have "ParseQuery [] = vals" using ParseQuery_Encode [of vals] by simp
  moreover have "ParseQuery [] = []" by code_simp
  ultimately show False using \<open>vals \<noteq> []\<close> by simp
qed

lemma with_values_text: "with_values e vals = e @ (if query_text vals = [] then [] else CHR ''?'' # query_text vals)"
  using EncodeQuery_nonempty [of vals] by (simp add: with_values_def query_text_def)

lemma URLQuery_text: "rqRawQuery r = query_text vals \<Longrightarrow> URLQuery r = vals"
  using ParseQuery_Encode [of vals]
  by (auto simp: URLQuery_def query_text_def ParseQuery_def query_pair_def map_filter_simps)

lemma QueryEscape_query_char: "list_all query_char (QueryEscape v)"
proof -
  have "query_char c" if c: "c \<in> set (if x = CHR '' '' then ''+''
      else if shouldEscape x encodeQueryComponent
      then (let n = (of_char x :: nat) in [CHR ''%'', upper_hex (n div 16), upper_hex (n mod 16)]) else [x])" for x c
  proof -
    have "(of_char x :: nat) < 256" by (metis of_char_of nat_of_char_less_256)
    then have d: "(of_char x :: nat) div 16 < 16" "(of_char x :: nat) mod 16 < 16"
      using less_mult_imp_div_less [of "of_char x" 16 16] by auto
    have "\<not> shouldEscape x encodeQueryComponent \<Longrightarrow> is_alnum x \<or> x \<in> set ''-_.~''"
      by (auto simp: shouldEscape_def split: if_splits)
    then have u: "\<not> shouldEscape x encodeQueryComponent \<Longrightarrow> query_char x" by (auto simp: query_char_def)
    have "query_char CHR ''+''" "query_char CHR ''%''" by (simp_all add: query_char_def)
    then show ?thesis using c u upper_hex_alnum [OF d(1)] upper_hex_alnum [OF d(2)]
      by (auto simp: Let_def query_char_def split: if_splits)
  qed
  moreover have "\<exists>x. c \<in> set (if x = CHR '' '' then ''+''
      else if shouldEscape x encodeQueryComponent
      then (let n = (of_char x :: nat) in [CHR ''%'', upper_hex (n div 16), upper_hex (n mod 16)]) else [x])"
    if "c \<in> set (QueryEscape v)" for c
  proof -
    have "QueryEscape v = concat (map (\<lambda>x. if x = CHR '' '' then ''+''
      else if shouldEscape x encodeQueryComponent
      then (let n = (of_char x :: nat) in [CHR ''%'', upper_hex (n div 16), upper_hex (n mod 16)]) else [x]) v)"
      by (simp add: QueryEscape_def escape_def)
    then show ?thesis using that by (simp only: set_concat set_map) blast
  qed
  ultimately show ?thesis unfolding list_all_iff by blast
qed

lemma query_char_Join: "list_all (list_all query_char) ts \<Longrightarrow> list_all query_char (Join ts ''&'')"
  by (induction ts "''&''" rule: Join.induct) (auto simp: query_char_def)

lemma query_text_chars: "list_all query_char (query_text vals)"
proof -
  have "query_char CHR ''=''" by (simp add: query_char_def)
  then have "list_all query_char (EncodeQuery vals)" unfolding EncodeQuery_def
    by (intro query_char_Join) (auto simp: list_all_iff QueryEscape_query_char [unfolded list_all_iff, rule_format])
  then show ?thesis by (simp add: query_text_def)
qed

lemma set_text_get: "QueryGet (set_text k v m) x = (if x = k \<and> v \<noteq> [] then v else QueryGet m x)"
  by (simp add: set_text_def QueryGet_def)

lemma set_positive_get: "QueryGet (set_positive k n m) x = (if x = k \<and> n > 0 then itoa n else QueryGet m x)"
  by (simp add: set_positive_def QueryGet_def)

lemma itoa_nonempty [simp]: "itoa n \<noteq> []"
  using itoa_start [of n] by auto

lemma list_filter_values:
  assumes "int64 (fLimit f)" and "int64 (fOffset f)" and "\<forall>st \<in> set (fStates f). CHR '','' \<notin> set st"
  shows "list_filter (filter_values f) = api_filter f"
proof -
  let ?v = "filter_values f"
  have get: "QueryGet ?v ''method'' = fMethod f" "QueryGet ?v ''site'' = fSite f" "QueryGet ?v ''prefix'' = fPrefix f"
    "QueryGet ?v ''order_by'' = fOrderBy f" "QueryGet ?v ''limit'' = (if fLimit f > 0 then itoa (fLimit f) else [])"
    "QueryGet ?v ''offset'' = (if fOffset f > 0 then itoa (fOffset f) else [])"
    "QueryGet ?v ''state'' = (if fStates f \<noteq> [] then Join (fStates f) '','' else [])"
    by (simp_all add: filter_values_def set_text_get set_positive_get) (simp_all add: QueryGet_def)
  have st: "(if QueryGet ?v ''state'' \<noteq> [] then filter Valid (map TrimSpace (Split (QueryGet ?v ''state'') (CHR '',''))) else [])
      = filter Valid (map TrimSpace (fStates f))"
  proof (cases "fStates f = []")
    case False
    then have "Split (Join (fStates f) '','') (CHR '','') = fStates f" using assms(3) by (intro Split_Join) auto
    moreover have "filter Valid (map TrimSpace (fStates f)) = []" if "Join (fStates f) '','' = []"
    proof -
      have "fStates f = [[]]" using that False by (cases "fStates f"; cases "tl (fStates f)") auto
      moreover have "\<not> Valid (TrimSpace [])" by code_simp
      ultimately show ?thesis by simp
    qed
    ultimately show ?thesis using get(7) False by simp
  qed (simp add: get(7))
  show ?thesis unfolding list_filter_def st by (simp add: api_filter_def get assms(1,2))
qed

lemma gives_list:
  assumes "events_ok s" and "sendable (OpListJobs f)" and "rqRawQuery r = query_text (filter_values f)"
  shows "gives (handleListJobs w v r s) s (meant w (svCfg s) (OpListJobs f) (svQueue s))"
proof -
  have "list_filter (URLQuery r) = api_filter f"
    using list_filter_values assms(2) URLQuery_text [OF assms(3)] by simp
  then show ?thesis unfolding handleListJobs_def meant.simps
    by (simp only:) (rule gives_op [OF assms(1)], simp, simp add: gives_value)
qed

lemma gives_logs:
  assumes "events_ok s" and "sendable (OpGetLogs n limit offset)" and "rqRawQuery r = query_text (log_values limit offset)"
  shows "gives (handleGetLogs w (itoa n) r s) s (meant w (svCfg s) (OpGetLogs n limit offset) (svQueue s))"
proof -
  have z: "Atoi [] = (0, False)" by code_simp
  have g: "fst (Atoi (QueryGet (URLQuery r) ''limit'')) = max 0 limit" "fst (Atoi (QueryGet (URLQuery r) ''offset'')) = max 0 offset"
    unfolding URLQuery_text [OF assms(3)] using assms(2) z
    by (simp_all add: log_values_def set_positive_get) (simp_all add: QueryGet_def z)
  have n: "parseJobID (itoa n) = Inr n" using assms(2) by (simp add: parseJobID_def)
  show ?thesis unfolding handleGetLogs_def with_id_def n sum.case meant.simps g
    by (rule gives_op [OF assms(1)]) (simp_all add: gives_value)
qed

lemma gives_stream:
  assumes "int64 n" and "wFlusher w"
  shows "gives (handleStreamLogs w (itoa n) r s) s (meant w (svCfg s) (OpStreamLogs n) (svQueue s))"
  using assms
  by (auto simp: handleStreamLogs_def parseJobID_def on_hub_def gives_def answered_def checkErr_def split: prod.splits)


subsection \<open>Every call\<close>

definition seg_ok :: "string \<Rightarrow> bool" where
  "seg_ok e \<longleftrightarrow> plain_elem e \<and> list_all path_char e"

lemma seg_ok_literals:
  "seg_ok ''api'' \<and> seg_ok ''v1'' \<and> seg_ok ''queue'' \<and> seg_ok ''status'' \<and> seg_ok ''pause''
    \<and> seg_ok ''resume'' \<and> seg_ok ''concurrency'' \<and> seg_ok ''jobs'' \<and> seg_ok ''cancel'' \<and>
    seg_ok ''retry'' \<and> seg_ok ''quarantine'' \<and> seg_ok ''unquarantine'' \<and> seg_ok ''batch'' \<and>
    seg_ok ''logs'' \<and> seg_ok ''stream''"
  by code_simp

lemma segs_ok: "list_all seg_ok es \<Longrightarrow> list_all plain_elem es \<and> list_all (list_all path_char) es"
  by (simp add: seg_ok_def list_all_iff)

lemma seg_ok_itoa [simp]: "seg_ok (itoa n)"
  by (simp add: seg_ok_def itoa_chars itoa_elem)

text \<open>A call over the socket has the URL, the method and with them the route it is meant for.\<close>

definition wired :: "client_op \<Rightarrow> string list \<Rightarrow> string \<Rightarrow> handler \<Rightarrow> string \<Rightarrow> bool" where
  "wired act es qs h v \<longleftrightarrow> es \<noteq> [] \<and> list_all seg_ok es \<and> (\<forall>sock. let ca = call_of act (NewUnixClient sock) in
     caURL ca = ''http://unix'' @ (slash # Join es [slash]) @ (if qs = [] then [] else CHR ''?'' # qs)
     \<and> find_seg (map split_route routes) (caMethod ca) ([] # es) = Some (h, v))"

lemmas call_defs = NewUnixClient_def client_url_def plain_call_def postAction_def job_endpoint_def cl_GetStatus_def
  cl_PauseQueue_def cl_ResumeQueue_def cl_SetConcurrency_def cl_ListJobs_def cl_SubmitJob_def cl_GetJob_def
  cl_CancelJob_def cl_PauseJob_def cl_ResumeJob_def cl_RetryJob_def cl_QuarantineJob_def cl_UnquarantineJob_def
  cl_DeleteJob_def cl_BatchJobs_def cl_GetLogs_def cl_StreamLogs_def

lemma wires:
  "wired OpGetStatus [''api'', ''v1'', ''queue'', ''status''] [] handleQueueStatus []"
  "wired OpPauseQueue [''api'', ''v1'', ''queue'', ''pause''] [] handleQueuePause []"
  "wired OpResumeQueue [''api'', ''v1'', ''queue'', ''resume''] [] handleQueueResume []"
  "wired (OpSetConcurrency n) [''api'', ''v1'', ''queue'', ''concurrency''] [] handleQueueConcurrency []"
  "wired (OpListJobs f) [''api'', ''v1'', ''jobs''] (query_text (filter_values f)) handleListJobs []"
  "wired (OpSubmitJob req) [''api'', ''v1'', ''jobs''] [] handleSubmitJob []"
  "wired (OpGetJob n) [''api'', ''v1'', ''jobs'', itoa n] [] handleGetJob (itoa n)"
  "wired (OpCancelJob n) [''api'', ''v1'', ''jobs'', itoa n, ''cancel''] [] handleCancelJob (itoa n)"
  "wired (OpPauseJob n) [''api'', ''v1'', ''jobs'', itoa n, ''pause''] [] handlePauseJob (itoa n)"
  "wired (OpResumeJob n) [''api'', ''v1'', ''jobs'', itoa n, ''resume''] [] handleResumeJob (itoa n)"
  "wired (OpRetryJob n) [''api'', ''v1'', ''jobs'', itoa n, ''retry''] [] handleRetryJob (itoa n)"
  "wired (OpQuarantineJob n reason) [''api'', ''v1'', ''jobs'', itoa n, ''quarantine''] [] handleQuarantineJob (itoa n)"
  "wired (OpUnquarantineJob n) [''api'', ''v1'', ''jobs'', itoa n, ''unquarantine''] [] handleUnquarantineJob (itoa n)"
  "wired (OpDeleteJob n) [''api'', ''v1'', ''jobs'', itoa n] [] handleDeleteJob (itoa n)"
  "wired (OpBatchJobs bt) [''api'', ''v1'', ''jobs'', ''batch''] [] handleBatchJobs []"
  "wired (OpGetLogs n limit offset) [''api'', ''v1'', ''jobs'', itoa n, ''logs''] (query_text (log_values limit offset)) handleGetLogs (itoa n)"
  "wired (OpStreamLogs n) [''api'', ''v1'', ''jobs'', itoa n, ''logs'', ''stream''] [] handleStreamLogs (itoa n)"
  unfolding wired_def route_table using seg_ok_literals
  by (simp_all add: call_defs with_values_text slash_def)

lemma wired_runs:
  assumes "wired act es qs h v" and "list_all query_char qs"
    and "\<And>r. rqRawQuery r = qs \<Longrightarrow> rqBody r = caBody (call_of act (NewUnixClient sock)) \<Longrightarrow> gives (h w v r s) s res"
  shows "\<exists>out. client_call w (call_of act (NewUnixClient sock)) s = Some out \<and> runs_as out s res"
proof -
  have es: "es \<noteq> []" "list_all plain_elem es" "list_all (list_all path_char) es"
    using assms(1) segs_ok by (auto simp: wired_def)
  show ?thesis by (rule client_served [where es = es and qs = qs and h = h and v = v])
    (use assms es in \<open>auto simp: wired_def Let_def\<close>)
qed

lemmas gives_calls = gives_queue_handlers gives_concurrency gives_list gives_submit gives_get_job gives_job_handlers
  gives_quarantine gives_batch gives_logs gives_stream

lemma call_runs:
  assumes "events_ok s" and "sendable act" and "wFlusher w"
  shows "\<exists>out. client_call w (call_of act (NewUnixClient sock)) s = Some out \<and> runs_as out s (meant w (svCfg s) act (svQueue s))"
  by (insert assms, cases act; hypsubst; rule wires [THEN wired_runs];
      simp add: query_text_chars call_defs gives_calls del: meant.simps Marshal.simps)



end
