(* ===== verification/QueueCmdProps.thy ===== *)
theory QueueCmdProps
  imports QueueCmd ClientProps
begin

text \<open>
  \<open>mirror queue\<close> and the daemon: whatever the arguments, the call a subcommand makes is one the client can
  send, and it runs on the daemon as the operation it is meant to be.
\<close>

text \<open>What an operation is addressed to: a job, or the jobs below a prefix.\<close>

fun target :: "client_op \<Rightarrow> (int + string) option" where
  "target (OpGetJob i) = Some (Inl i)"
| "target (OpCancelJob i) = Some (Inl i)"
| "target (OpPauseJob i) = Some (Inl i)"
| "target (OpResumeJob i) = Some (Inl i)"
| "target (OpRetryJob i) = Some (Inl i)"
| "target (OpQuarantineJob i reason) = Some (Inl i)"
| "target (OpUnquarantineJob i) = Some (Inl i)"
| "target (OpDeleteJob i) = Some (Inl i)"
| "target (OpBatchJobs req) = (if bIDs req = [] then Some (Inr (bPrefix req)) else None)"
| "target _ = None"

definition named :: "string \<Rightarrow> int + string" where
  "named arg = (if snd (Atoi arg) then Inl (fst (Atoi arg)) else Inr arg)"

subsection \<open>What a command can send\<close>

lemma Atoi_range: "int64 (fst (Atoi s))"
  by (auto simp: int64_def Atoi_def Let_def split: prod.split)

lemma Atoi_range_eq: "Atoi s = (i, ok) \<Longrightarrow> int64 i"
  using Atoi_range [of s] by simp

lemma int64_zero [simp]: "int64 0"
  by (simp add: int64_def)

lemma smap_wf_foldl: "smap_wf m \<Longrightarrow> smap_wf (foldl (\<lambda>m (k, v). smap_put k v m) m kvs)"
  by (induction kvs arbitrary: m) (auto simp: smap_wf_put split: prod.splits)

lemma parse_or_exit_op:
  assumes "command_op (parse_or_exit args fs k) = Some act"
  obtains rest fs' where "command_op (k rest fs') = Some act"
  using assms by (auto simp: parse_or_exit_def command_op_def split: sum.splits parse_error.splits prod.splits)

definition fine :: "queue_cmd \<Rightarrow> bool" where
  "fine c \<longleftrightarrow> (\<forall>act. command_op c = Some act \<longrightarrow> sendable act)"

lemma fine_simps [simp]:
  "fine QHelp" "fine (QExit n t)" "fine (QSubmit a)" "fine (QShow i) = int64 i" "fine (QLogs i) = int64 i"
  "fine (QFollow i) = int64 i" "fine (QRun act say) = sendable act" "fine (QList f) = sendable (OpListJobs f)"
  "fine (queue_usage t)"
  by (simp_all add: fine_def command_op_def queue_usage_def int64_def)

lemma fine_list: "fine (QList (filter_of_flags fs))"
proof -
  have "CHR '','' \<notin> set (TrimSpace t)" if "t \<in> set (Split x (CHR '',''))" for t x
    using Split_no_sep [OF that] set_TrimSpace by blast
  then show ?thesis by (auto simp: filter_of_flags_def Atoi_range)
qed

lemma fine_parse: "(\<And>rest fs'. fine (k rest fs')) \<Longrightarrow> fine (parse_or_exit args fs k)"
  by (auto simp: parse_or_exit_def split: sum.splits parse_error.splits prod.splits)

lemma fine_job_or_prefix: "(\<And>i. int64 i \<Longrightarrow> sendable (one i)) \<Longrightarrow> fine (job_or_prefix one done action batched reason arg)"
  using Atoi_range [of arg] by (auto simp: job_or_prefix_def batch_by_prefix_def split: prod.split)

lemma fine_requireID: "requireID cmd args = Inl c \<Longrightarrow> fine c" "requireID cmd args = Inr i \<Longrightarrow> int64 i"
  by (auto simp: requireID_def Atoi_range_eq split: list.splits prod.splits if_splits)

lemma fine_logs: "fine (queue_logs args)"
  unfolding queue_logs_def
  by (rule fine_parse) (auto simp: Atoi_range_eq split: list.split prod.split)

lemma fine_if: "fine a \<Longrightarrow> fine b \<Longrightarrow> fine (if P then a else b)"
  by simp

lemma fine_cons: "fine a \<Longrightarrow> (\<And>x xs. fine (f x xs)) \<Longrightarrow> fine (case ys of [] \<Rightarrow> a | x # xs \<Rightarrow> f x xs)"
  by (cases ys) simp_all

lemma fine_with_id: "(\<And>i. int64 i \<Longrightarrow> fine (f i)) \<Longrightarrow> fine (case requireID cmd args of Inl c \<Rightarrow> c | Inr i \<Rightarrow> f i)"
  using fine_requireID by (auto split: sum.split)

lemma fine_main: "fine (queueMain args)"
  unfolding queueMain_def queue_subcommands
  by (intro fine_if fine_cons fine_list fine_parse fine_logs fine_with_id)
     (auto simp: fine_job_or_prefix Let_def Atoi_range_eq split: prod.split)

lemma fine_submit: "fine (submitMain reg probe cfg args)"
  using smap_wf_foldl [of "[]"] by (auto simp: submitMain_def submit_of_def smap_wf_def split: sum.split)

lemma fine_command: "fine (queue_command reg probe cfg args)"
  using fine_main [of args] fine_submit by (auto simp: queue_command_def split: queue_cmd.split)


subsection \<open>Running a command\<close>

definition job_subcommands :: "string list" where
  "job_subcommands = [''status'', ''pause'', ''resume'', ''cancel'', ''retry'', ''quarantine'', ''unquarantine'', ''delete'']"

text \<open>The subcommands for jobs, given an argument.\<close>

lemma main_status: "queueMain (''status'' # r) = (case requireID ''status'' r of Inl c \<Rightarrow> c | Inr i \<Rightarrow> QShow i)"
  by (simp add: queueMain_def queue_subcommands)

lemma main_pause: "queueMain (''pause'' # a # r) = job_or_prefix OpPauseJob '' paused.'' BatchPause ''Paused'' [] a"
  by (simp add: queueMain_def queue_subcommands)

lemma main_resume: "queueMain (''resume'' # a # r) = job_or_prefix OpResumeJob '' resumed.'' BatchResume ''Resumed'' [] a"
  by (simp add: queueMain_def queue_subcommands)

lemma main_cancel: "queueMain (''cancel'' # a # r) = job_or_prefix OpCancelJob '' cancelled.'' BatchCancel ''Cancelled'' [] a"
  by (simp add: queueMain_def queue_subcommands)

lemma main_retry: "\<exists>say. queueMain (''retry'' # r) = (case requireID ''retry'' r of Inl c \<Rightarrow> c | Inr i \<Rightarrow> QRun (OpRetryJob i) (say i))"
  by (simp add: queueMain_def queue_subcommands) (rule exI, rule refl)

lemma main_quarantine: "\<exists>reason. queueMain (''quarantine'' # a # r)
    = job_or_prefix (\<lambda>i. OpQuarantineJob i reason) '' quarantined.'' BatchQuarantine ''Quarantined'' reason a"
  by (rule exI [of _ "if r = [] then ''quarantined via CLI'' else Join r '' ''"]) (simp add: queueMain_def queue_subcommands Let_def)

lemma main_unquarantine: "queueMain (''unquarantine'' # a # r)
    = job_or_prefix OpUnquarantineJob '' unquarantined and returned to queue.'' BatchUnquarantine ''Unquarantined'' [] a"
  by (simp add: queueMain_def queue_subcommands)

lemma main_delete: "queueMain (''delete'' # r)
    = (case requireID ''delete'' r of Inl c \<Rightarrow> c | Inr i \<Rightarrow> QRun (OpDeleteJob i) (job_line i '' deleted.''))"
  by (simp add: queueMain_def queue_subcommands)

text \<open>Such a command is not \<open>submit\<close>, and its call is addressed to what the argument names.\<close>

definition at_target :: "string \<Rightarrow> queue_cmd \<Rightarrow> bool" where
  "at_target a c \<longleftrightarrow> (\<forall>x. c \<noteq> QSubmit x) \<and> (\<forall>act. command_op c = Some act \<longrightarrow> target act = Some (named a))"

lemma at_target_single: "(\<And>i. target (one i) = Some (Inl i)) \<Longrightarrow> at_target a (job_or_prefix one done action batched reason a)"
  by (auto simp: at_target_def job_or_prefix_def command_op_def named_def batch_by_prefix_def split: prod.splits)

lemma at_target_id: "(\<And>i x. f i \<noteq> QSubmit x) \<Longrightarrow> (\<And>i act. command_op (f i) = Some act \<Longrightarrow> target act = Some (Inl i))
    \<Longrightarrow> at_target a (case requireID cmd (a # rest) of Inl c \<Rightarrow> c | Inr i \<Rightarrow> f i)"
  by (auto simp: at_target_def requireID_def command_op_def named_def split: prod.splits if_splits)

lemma addressed: "sub \<in> set job_subcommands \<Longrightarrow> at_target a (queueMain (sub # a # rest))"
proof -
  obtain say where retry: "queueMain (''retry'' # a # rest) = (case requireID ''retry'' (a # rest) of Inl c \<Rightarrow> c | Inr i \<Rightarrow> QRun (OpRetryJob i) (say i))"
    using main_retry by blast
  obtain reason where quarantine: "queueMain (''quarantine'' # a # rest)
      = job_or_prefix (\<lambda>i. OpQuarantineJob i reason) '' quarantined.'' BatchQuarantine ''Quarantined'' reason a"
    using main_quarantine by blast
  have "list_all (\<lambda>sub. at_target a (queueMain (sub # a # rest))) job_subcommands"
    unfolding job_subcommands_def list.pred_inject main_status main_pause main_resume main_cancel main_unquarantine main_delete retry quarantine
    by (intro conjI at_target_single at_target_id) (auto simp: command_op_def)
  then show "sub \<in> set job_subcommands \<Longrightarrow> at_target a (queueMain (sub # a # rest))" by (simp add: list_all_iff)
qed

lemma queue_command_eq: "(\<And>x. queueMain args \<noteq> QSubmit x) \<Longrightarrow> queue_command reg probe cfg args = queueMain args"
  by (auto simp: queue_command_def split: queue_cmd.split)



end
