(* ===== verification/Mirrord.thy ===== *)
theory Mirrord
  imports Server GoFlagInt
begin

text \<open>
  \<open>cmd/mirrord/main.go\<close>: how the daemon comes up. The settings are those of the configuration under the
  flags of the command line; the database is opened, the queue is started, the socket is checked for
  another daemon, and the two listeners are opened. What the machine answers is a record of inputs.
  The shutdown, and what the queue does while the daemon is still coming up, are left out.
\<close>

record machine =
  mcEnv :: env
  mcMethods :: registry
  mcToml :: "string \<Rightarrow> toml_result"
  mcReader :: reader
  mcDiscovery :: discovery
  mcOpen :: "string \<Rightarrow> string + db"        \<comment> \<open>the database of a path\<close>
  mcExecutable :: "string option"
  mcIsFile :: "string \<Rightarrow> bool"
  mcLookPath :: "string option"
  mcNow :: int
  mcMkdir :: "string option"
  mcListening :: "string \<Rightarrow> bool"            \<comment> \<open>something accepts connections on the socket\<close>
  mcListenUnix :: "string option"
  mcListenTCP :: "string option"
  mcConfigFile :: "string \<Rightarrow> string option"
  mcWeb :: "(request \<Rightarrow> response) option"

definition mirrord_flags :: flagset where
  "mirrord_flags = NewFlagSet ''mirrord'' [string_flag ''config'' [], string_flag ''socket'' [], string_flag ''http'' [],
     string_flag ''db'' [], int_flag ''concurrency'' 0, string_flag ''password'' [], string_flag ''password-file'' [],
     bool_flag ''version'' False]"

record settings =
  stSocket :: string
  stHTTP :: string
  stDB :: string
  stConcurrency :: int
  stCfg :: config

definition override :: "string \<Rightarrow> string \<Rightarrow> string" where
  "override flagged configured = (if flagged \<noteq> [] then flagged else configured)"

definition apply_flags :: "env \<Rightarrow> flagset \<Rightarrow> config \<Rightarrow> settings" where
  "apply_flags e fs cfg =
    (let dc = cfgDaemon cfg; ac = dcAuth dc; fl = value_of_flag fs;
         conc = fst (Atoi (fl ''concurrency''));
         ac1 = (if fl ''password'' \<noteq> [] then ac\<lparr>acPassword := fl ''password''\<rparr> else ac);
         ac2 = (if fl ''password-file'' \<noteq> [] then ac1\<lparr>acPasswordFile := ExpandHome e (fl ''password-file'')\<rparr> else ac1)
     in \<lparr>stSocket = (if fl ''socket'' \<noteq> [] then ExpandHome e (fl ''socket'') else dcSocket dc),
         stHTTP = override (fl ''http'') (dcHTTP dc),
         stDB = (if fl ''db'' \<noteq> [] then ExpandHome e (fl ''db'') else dcDB dc),
         stConcurrency = (if conc > 0 then conc else dcConcurrency dc),
         stCfg = cfg\<lparr>cfgDaemon := dc\<lparr>dcAuth := ac2\<rparr>\<rparr>\<rparr>)"

datatype chosen_executor = CommandExec string | InProcessExec

definition findMirrorBinary :: "machine \<Rightarrow> string" where
  "findMirrorBinary m =
    (let onPath = (case mcLookPath m of Some p \<Rightarrow> p | None \<Rightarrow> []) in
     case mcExecutable m of
       None \<Rightarrow> onPath
     | Some self \<Rightarrow>
        (let sibling = JoinPath [DirPath self, ''mirror''] in if mcIsFile m sibling then sibling else onPath))"

definition choose_executor :: "machine \<Rightarrow> chosen_executor" where
  "choose_executor m = (let bin = findMirrorBinary m in if bin \<noteq> [] then CommandExec bin else InProcessExec)"

text \<open>The daemon once it serves: the server answers on the socket, and behind its authentication on the
  TCP address if there is one.\<close>

record mirrord =
  mdServer :: server
  mdSocket :: string
  mdTCP :: "string option"
  mdExecutor :: chosen_executor

datatype boot = BExit int string | BFatal string | BServing mirrord

text \<open>From the settings on: what became of the start, and the database it leaves.\<close>

definition bring_up :: "machine \<Rightarrow> string \<Rightarrow> settings \<Rightarrow> boot \<times> db option" where
  "bring_up m confPath st =
    (case mcOpen m (stDB st) of
       Inl e \<Rightarrow> (BFatal (''mirrord: opening database at '' @ stDB st @ '': '' @ e), None)
     | Inr d \<Rightarrow>
        (let q = Start (mcNow m) (NewQueue (OpenStore_backfill d) (Some (NewLogHub 1000))
               \<lparr>cfgConcurrency = stConcurrency st, cfgMaxRetries = dcMaxRetries (cfgDaemon (stCfg st))\<rparr>);
             srv = NewServer (mcReader m) (mcDiscovery m) q (stCfg st) confPath (mcConfigFile m confPath) (mcWeb m);
             left = Some (qStore q)
         in case mcMkdir m of
              Some e \<Rightarrow> (BFatal (''mirrord: creating socket directory '' @ DirPath (stSocket st) @ '': '' @ e), left)
            | None \<Rightarrow>
               (if mcListening m (stSocket st)
                then (BFatal (''mirrord: another instance is already listening on '' @ stSocket st), left)
                else (case mcListenUnix m of
                   Some e \<Rightarrow> (BFatal (''mirrord: listening on unix socket '' @ stSocket st @ '': '' @ e), left)
                 | None \<Rightarrow>
                    (case (if stHTTP st = [] then None else mcListenTCP m) of
                       Some e \<Rightarrow> (BFatal (''mirrord: listening on http '' @ stHTTP st @ '': '' @ e), left)
                     | None \<Rightarrow>
                         (BServing \<lparr>mdServer = srv, mdSocket = stSocket st,
                            mdTCP = (if stHTTP st = [] then None else Some (stHTTP st)), mdExecutor = choose_executor m\<rparr>, left))))))"

definition mirrord_main :: "machine \<Rightarrow> string list \<Rightarrow> boot \<times> db option" where
  "mirrord_main m args =
    (case ParseFlags args mirrord_flags of
       Inl PErrHelp \<Rightarrow> (BExit 0 [], None)
     | Inl (PErrMsg e) \<Rightarrow> (BExit 2 e, None)
     | Inr (_, fs) \<Rightarrow>
        (if value_of_flag fs ''version'' = ''true'' then (BExit 0 [], None)
         else
          (let confPath = override (value_of_flag fs ''config'') (ConfigPath (mcEnv m)) in
           case Load (mcEnv m) (mcMethods m) confPath (mcToml m confPath) of
             Inl e \<Rightarrow> (BFatal (''mirrord: loading config '' @ confPath @ '': '' @ e), None)
           | Inr cfg \<Rightarrow> bring_up m confPath (apply_flags (mcEnv m) fs cfg))))"

end
