(* ===== verification/MirrordProps.thy ===== *)
theory MirrordProps
  imports Mirrord ServerOps
begin

text \<open>
  The start of the daemon: what serves is a server whose runs are safe, on a socket nobody else listens
  on; a second daemon on the same database disturbs the first before it notices it; and a password
  given as a flag is lost when a configuration is saved.
\<close>

text \<open>The cases of a start that got as far as opening the database.\<close>

definition boot_queue :: "machine \<Rightarrow> settings \<Rightarrow> db \<Rightarrow> queue" where
  "boot_queue m st d = Start (mcNow m) (NewQueue (OpenStore_backfill d) (Some (NewLogHub 1000))
     \<lparr>cfgConcurrency = stConcurrency st, cfgMaxRetries = dcMaxRetries (cfgDaemon (stCfg st))\<rparr>)"

lemma bring_up_serving:
  assumes "bring_up m confPath st = (BServing md, x)"
  obtains d where "mcOpen m (stDB st) = Inr d" and "\<not> mcListening m (mdSocket md)" and "mdSocket md = stSocket st"
    and "mdTCP md = (if stHTTP st = [] then None else Some (stHTTP st))"
    and "mdServer md = NewServer (mcReader m) (mcDiscovery m) (boot_queue m st d) (stCfg st) confPath (mcConfigFile m confPath) (mcWeb m)"
  using assms by (auto simp: bring_up_def boot_queue_def Let_def split: sum.splits option.splits if_splits)

lemma mirrord_main_serving:
  assumes "mirrord_main m args = (BServing md, x)"
  obtains confPath rest fs cfg where "ParseFlags args mirrord_flags = Inr (rest, fs)"
    and "confPath = override (value_of_flag fs ''config'') (ConfigPath (mcEnv m))"
    and "Load (mcEnv m) (mcMethods m) confPath (mcToml m confPath) = Inr cfg"
    and "bring_up m confPath (apply_flags (mcEnv m) fs cfg) = (BServing md, x)"
proof -
  obtain rest fs where p: "ParseFlags args mirrord_flags = Inr (rest, fs)"
    using assms by (auto simp: mirrord_main_def split: sum.splits parse_error.splits)
  let ?c = "override (value_of_flag fs ''config'') (ConfigPath (mcEnv m))"
  obtain cfg where l: "Load (mcEnv m) (mcMethods m) ?c (mcToml m ?c) = Inr cfg"
    using assms p by (auto simp: mirrord_main_def Let_def split: sum.splits if_splits)
  have "bring_up m ?c (apply_flags (mcEnv m) fs cfg) = (BServing md, x)"
    using assms p l by (auto simp: mirrord_main_def Let_def split: if_splits)
  then show thesis using that [OF p refl l] by blast
qed

lemma fresh_NewLogHub [simp]: "fresh_hub (Some (NewLogHub n))"
  by (simp add: fresh_hub_def NewLogHub_inv)

lemma Start_positive:
  assumes "0 < qConcurrency q"
  shows "0 < qConcurrency (Start now q)" "qMaxRetries (Start now q) = qMaxRetries q"
  using assms by (auto simp: Start_def Let_def split: prod.split)

text \<open>C21: A daemon that comes up serves on a socket on which nobody else listened, with a positive limit
  and a positive number of retries, and with the TCP listener exactly when the flag or the
  configuration gives an address; and from there on, through any interleaving of requests, streams,
  dispatcher and workers, every step that can happen is taken without a panic.\<close>

theorem mirrord_serves:
  assumes "mirrord_main m args = (BServing md, x)" and "\<And>p d. mcOpen m p = Inr d \<Longrightarrow> db_inv d"
    and "s_run (mdServer md) evs s" and "s_pre ev s"
  shows "\<not> mcListening m (mdSocket md) \<and> 0 < qConcurrency (svQueue (mdServer md)) \<and> 0 < qMaxRetries (svQueue (mdServer md))
    \<and> (mdTCP md \<noteq> None \<longleftrightarrow> (\<exists>rest fs. ParseFlags args mirrord_flags = Inr (rest, fs)
          \<and> (value_of_flag fs ''http'' \<noteq> [] \<or> dcHTTP (cfgDaemon (svCfg (mdServer md))) \<noteq> [])))
    \<and> q_inv (svQueue s) \<and> (\<exists>s'. s_step ev s = Some s')"
proof -
  obtain confPath rest fs cfg where p: "ParseFlags args mirrord_flags = Inr (rest, fs)"
    and "confPath = override (value_of_flag fs ''config'') (ConfigPath (mcEnv m))"
    and "Load (mcEnv m) (mcMethods m) confPath (mcToml m confPath) = Inr cfg"
    and b: "bring_up m confPath (apply_flags (mcEnv m) fs cfg) = (BServing md, x)"
    by (rule mirrord_main_serving [OF assms(1)])
  let ?st = "apply_flags (mcEnv m) fs cfg"
  obtain d where d: "mcOpen m (stDB ?st) = Inr d" "\<not> mcListening m (mdSocket md)" and "mdSocket md = stSocket ?st"
    and t: "mdTCP md = (if stHTTP ?st = [] then None else Some (stHTTP ?st))"
    and srv: "mdServer md = NewServer (mcReader m) (mcDiscovery m) (boot_queue m ?st d) (stCfg ?st) confPath (mcConfigFile m confPath) (mcWeb m)"
    by (rule bring_up_serving [OF b])
  have inv: "db_inv (OpenStore_backfill d)" using assms(2) [OF d(1)] by (rule OpenStore_backfill_inv)
  have qi: "q_inv (boot_queue m ?st d)" unfolding boot_queue_def by (rule Start_inv [OF inv]) simp
  have ok: "events_ok (mdServer md)" "svQueue (mdServer md) = boot_queue m ?st d" "svCfg (mdServer md) = stCfg ?st"
    by (simp_all add: srv NewServer_def events_ok_def)
  have "events_ok s \<and> q_inv (svQueue s)" using run_fits [OF assms(3)] ok qi by auto
  then have run: "q_inv (svQueue s)" "\<exists>s'. s_step ev s = Some s'" using step_fits [OF _ _ assms(4)] by (auto simp: fits_def)
  have pos: "0 < qConcurrency (boot_queue m ?st d)" "0 < qMaxRetries (boot_queue m ?st d)"
    unfolding boot_queue_def by (rule Start_positive, simp add: NewQueue_def) (subst Start_positive(2); simp add: NewQueue_def)
  have "stHTTP ?st = [] \<longleftrightarrow> value_of_flag fs ''http'' = [] \<and> dcHTTP (cfgDaemon (stCfg ?st)) = []"
    by (simp add: apply_flags_def Let_def override_def)
  then have "mdTCP md \<noteq> None \<longleftrightarrow> value_of_flag fs ''http'' \<noteq> [] \<or> dcHTTP (cfgDaemon (svCfg (mdServer md))) \<noteq> []"
    using t ok(3) by simp
  then show ?thesis using d(2) run pos ok(2) p by auto
qed

definition demo_machine :: "db \<Rightarrow> bool \<Rightarrow> machine" where
  "demo_machine d busy = \<lparr>mcEnv = demo_env, mcMethods = demo_methods, mcToml = (\<lambda>_. TomlMissing), mcReader = no_reader,
     mcDiscovery = (\<lambda>_. None), mcOpen = (\<lambda>_. Inr d), mcExecutable = Some ''/usr/bin/mirrord'', mcIsFile = (\<lambda>p. p = ''/usr/bin/mirror''),
     mcLookPath = None, mcNow = 400, mcMkdir = None, mcListening = (\<lambda>_. busy), mcListenUnix = None, mcListenTCP = None,
     mcConfigFile = (\<lambda>_. None), mcWeb = None\<rparr>"

definition demo_md :: mirrord where
  "demo_md = (case fst (mirrord_main (demo_machine demo_store False) [''-http'', '':8080'']) of BServing md \<Rightarrow> md)"

theorem mirrord_serves_witness:
  "mdSocket demo_md = ''/home/u/.local/state/mirrortools/mirrord.sock'' \<and> mdTCP demo_md = Some '':8080''
    \<and> 0 < qConcurrency (svQueue (mdServer demo_md)) \<and> (\<exists>s'. s_step (SvQueue EvCheck) (mdServer demo_md) = Some s')"
proof -
  have e: "mdSocket demo_md = ''/home/u/.local/state/mirrortools/mirrord.sock''" "mdTCP demo_md = Some '':8080''" by code_simp+
  have "case fst (mirrord_main (demo_machine demo_store False) [''-http'', '':8080'']) of BServing _ \<Rightarrow> True | _ \<Rightarrow> False" by code_simp
  then obtain x where m: "mirrord_main (demo_machine demo_store False) [''-http'', '':8080''] = (BServing demo_md, x)"
    by (cases "mirrord_main (demo_machine demo_store False) [''-http'', '':8080'']") (auto simp: demo_md_def split: boot.splits)
  have d: "\<And>p d. mcOpen (demo_machine demo_store False) p = Inr d \<Longrightarrow> db_inv d"
    using demo_store_ok(1) by (simp add: demo_machine_def)
  have c: "qDispatcher (svQueue (mdServer demo_md)) = DCheck" by code_simp
  have pre: "s_pre (SvQueue EvCheck) (mdServer demo_md)" using c by simp
  note r = mirrord_serves [where ev = "SvQueue EvCheck", OF m d s_run.nil pre]
  have "0 < qConcurrency (svQueue (mdServer demo_md))" "\<exists>s'. s_step (SvQueue EvCheck) (mdServer demo_md) = Some s'"
    by (rule r [THEN conjunct2, THEN conjunct1], assumption?) (rule r [THEN conjunct2, THEN conjunct2, THEN conjunct2, THEN conjunct2, THEN conjunct2], assumption?)
  then show ?thesis using e by blast
qed

subsection \<open>A second daemon\<close>

text \<open>A daemon started while another one listens on its socket ends with an error, but only after it
  has opened the same database and recovered the jobs it takes for orphaned: every job the first
  daemon is running is queued again, to be claimed by a second worker, or is quarantined.\<close>

theorem second_daemon_requeues:
  assumes "mirrord_main m args = (r, Some d')" and "\<And>p. mcOpen m p = Inr d" and "\<And>p. mcListening m p"
    and "faults d = []"
  shows "(\<exists>e. r = BFatal e)
    \<and> (\<forall>i k mx. board_of d i = Some (StateRunning, k, mx) \<longrightarrow>
        board_of d' i = Some (if k < mx then (StateQueued, k + 1, mx) else (StateQuarantined, k, mx)))"
proof -
  obtain rest fs where p: "ParseFlags args mirrord_flags = Inr (rest, fs)"
    using assms(1) by (auto simp: mirrord_main_def split: sum.splits parse_error.splits)
  obtain confPath st where b: "bring_up m confPath st = (r, Some d')"
    using assms(1) p by (auto simp: mirrord_main_def Let_def split: sum.splits if_splits)
  have e: "(\<exists>e. r = BFatal e) \<and> d' = qStore (boot_queue m st d)"
    using b assms(2,3) by (auto simp: bring_up_def boot_queue_def Let_def split: sum.splits option.splits if_splits)
  have f: "faults (OpenStore_backfill d) = []" using exec_op_quiet [OF assms(4), of OpBackfill] by simp
  obtain fs' where "snd (GetQueueConfig (snd (RecoverOrphanedJobs (mcNow m) (OpenStore_backfill d))))
      = (snd (RecoverOrphanedJobs (mcNow m) (OpenStore_backfill d)))\<lparr>faults := fs'\<rparr>" using GetQueueConfig_db by blast
  then have "board_of d' = board_of (snd (RecoverOrphanedJobs (mcNow m) (OpenStore_backfill d)))"
    using e by (simp add: boot_queue_def Start_fields NewQueue_def)
  then have "board_of d' = (\<lambda>i. map_option recover_card (board_of d i))"
    using recover_quiet(1) [OF f] by (simp add: OpenStore_backfill_board)
  then show ?thesis using e by auto
qed

text \<open>Job 1 runs; a second daemon starts and ends; the first one now starts job 1 a second time.\<close>

definition first_daemon :: queue where
  "first_daemon = the (q_exec turn (demo_queue 5))"

lemma first_daemon_again:
  "map_option (\<lambda>q. map (\<lambda>w. jID (wJob w)) (executing q))
     (q_exec turn (first_daemon\<lparr>qStore := the (snd (mirrord_main (demo_machine (qStore first_daemon) True) []))\<rparr>)) = Some [1, 1]"
  by code_simp

theorem second_daemon_requeues_witness:
  "board_of (qStore first_daemon) 1 = Some (StateRunning, 0, 3)
   \<and> board_of (the (snd (mirrord_main (demo_machine (qStore first_daemon) True) []))) 1 = Some (StateQueued, 1, 3)"
proof -
  have b: "board_of (qStore first_daemon) 1 = Some (StateRunning, 0, 3)" "faults (qStore first_daemon) = []" by code_simp+
  obtain r d' where m: "mirrord_main (demo_machine (qStore first_daemon) True) [] = (r, Some d')"
  proof -
    have "snd (mirrord_main (demo_machine (qStore first_daemon) True) []) \<noteq> None" by code_simp
    then show thesis using that by (cases "mirrord_main (demo_machine (qStore first_daemon) True) []") auto
  qed
  have "board_of d' 1 = Some (StateQueued, 1, 3)"
    using second_daemon_requeues [OF m _ _ b(2)] b(1) by (simp add: demo_machine_def)
  then show ?thesis using b(1) m by simp
qed


subsection \<open>A password on the command line\<close>

lemma saved_auth:
  assumes "handleSaveConfig w i r s = Some (rp, s')" and "rpStatus rp = 200"
  shows "\<exists>raw tmp cfg. Load (wEnv w) (wMethods w) tmp (wToml w raw) = Inr cfg
    \<and> svAuth s' = (case NewAuthManager (wReader w) (wDiscovery w) (dcAuth (cfgDaemon cfg)) of Inl e \<Rightarrow> svAuth s | Inr am \<Rightarrow> Some am)"
proof -
  have e: "svAuth s2 = svAuth s1" if "after_event ev rp' s1 = Some (x, s2)" for ev rp' s1 x s2
    using that by (auto simp: after_event_def broadcastEvent_def)
  have a: "svAuth (install_config w raw c s) = (case NewAuthManager (wReader w) (wDiscovery w) (dcAuth (cfgDaemon c)) of
       Inl e \<Rightarrow> svAuth s | Inr am \<Rightarrow> Some am)" for raw c
    by (simp add: install_config_def Let_def split: sum.split)
  note bad = writeError_def writeJSON_def
  obtain raw where raw: "decode_string ''raw'' (rqBody r) = Some raw"
    using assms by (cases "decode_string ''raw'' (rqBody r)") (auto simp: handleSaveConfig_def bad)
  obtain tmp where tmp: "wTmpFile w = Inr tmp" "wTmpWrite w = None"
    using assms raw by (cases "wTmpFile w"; cases "wTmpWrite w") (auto simp: handleSaveConfig_def bad)
  obtain c where c: "Load (wEnv w) (wMethods w) tmp (wToml w raw) = Inr c"
    using assms raw tmp by (cases "Load (wEnv w) (wMethods w) tmp (wToml w raw)") (auto simp: handleSaveConfig_def bad)
  have "after_event ''config:updated'' (status_reply ''saved'') (install_config w raw c s) = Some (rp, s')"
    using assms raw tmp c
    by (cases "wMkdir w"; cases "wWrite w") (auto simp: handleSaveConfig_def bad split: if_splits)
  from e [OF this] c show ?thesis unfolding a by blast
qed

text \<open>The password of the flag lives in memory only: a daemon started with it asks for it, and stops
  asking for anything as soon as a configuration without authentication of its own, the one it was
  started with for example, is saved through its API.\<close>

theorem flag_password_lost:
  assumes "mirrord_main m args = (BServing md, x)" and "ParseFlags args mirrord_flags = Inr (rest, fs)"
    and "value_of_flag fs ''password'' \<noteq> []"
    and "\<And>p cfg. Load (mcEnv m) (mcMethods m) p (mcToml m p) = Inr cfg \<Longrightarrow> acOAuth (dcAuth (cfgDaemon cfg)) = no_oauth"
    and "handleSaveConfig w i r s = Some (rp, s')" and "rpStatus rp = 200"
    and "\<And>tmp raw cfg. Load (wEnv w) (wMethods w) tmp (wToml w raw) = Inr cfg \<Longrightarrow> dcAuth (cfgDaemon cfg) = no_auth"
  shows "AuthEnabled (mdServer md) \<and> (\<forall>w r. WithAuth w r s' = ServeHTTP w r s')"
proof
  obtain confPath rest' fs' cfg where p: "ParseFlags args mirrord_flags = Inr (rest', fs')"
    and "confPath = override (value_of_flag fs' ''config'') (ConfigPath (mcEnv m))"
    and l: "Load (mcEnv m) (mcMethods m) confPath (mcToml m confPath) = Inr cfg"
    and b: "bring_up m confPath (apply_flags (mcEnv m) fs' cfg) = (BServing md, x)"
    by (rule mirrord_main_serving [OF assms(1)])
  let ?st = "apply_flags (mcEnv m) fs' cfg"
  obtain d where "mcOpen m (stDB ?st) = Inr d" and "\<not> mcListening m (mdSocket md)" and "mdSocket md = stSocket ?st"
    and "mdTCP md = (if stHTTP ?st = [] then None else Some (stHTTP ?st))"
    and srv: "mdServer md = NewServer (mcReader m) (mcDiscovery m) (boot_queue m ?st d) (stCfg ?st) confPath (mcConfigFile m confPath) (mcWeb m)"
    by (rule bring_up_serving [OF b])
  have "acPassword (dcAuth (cfgDaemon (stCfg ?st))) \<noteq> []" "acOAuth (dcAuth (cfgDaemon (stCfg ?st))) = no_oauth"
    using assms(2-4) p l by (auto simp: apply_flags_def Let_def)
  then show "AuthEnabled (mdServer md)"
    by (simp add: srv NewServer_def NewAuthManager_def PasswordValue_def ClientSecretValue_def no_oauth_def OAuth_Enabled_def
        AuthEnabled_def AM_Enabled_def Auth_Enabled_def Let_def)
  obtain raw tmp c where c: "Load (wEnv w) (wMethods w) tmp (wToml w raw) = Inr c"
    and a: "svAuth s' = (case NewAuthManager (wReader w) (wDiscovery w) (dcAuth (cfgDaemon c)) of Inl e \<Rightarrow> svAuth s | Inr am \<Rightarrow> Some am)"
    using saved_auth [OF assms(5,6)] by blast
  have "dcAuth (cfgDaemon c) = no_auth" using assms(7) c by blast
  then have "\<not> AuthEnabled s'" using a
    by (simp add: NewAuthManager_def PasswordValue_def ClientSecretValue_def no_auth_def no_oauth_def OAuth_Enabled_def
        AuthEnabled_def AM_Enabled_def Auth_Enabled_def Let_def)
  then show "\<forall>w r. WithAuth w r s' = ServeHTTP w r s'" by (simp add: WithAuth_def)
qed

definition secret_md :: mirrord where
  "secret_md = (case fst (mirrord_main (demo_machine demo_store False) [''-password'', ''secret'']) of BServing md \<Rightarrow> md)"

definition save_empty :: request where
  "save_empty = with_body (dq ''{`raw`: ``}'') (demo_request ''PUT'' ''/api/v1/config'')"

theorem flag_password_lost_witness:
  "AuthEnabled (mdServer secret_md)
   \<and> (\<exists>rp s'. handleSaveConfig (demo_world 300) [] save_empty (mdServer secret_md) = Some (rp, s')
        \<and> (\<forall>w r. WithAuth w r s' = ServeHTTP w r s'))"
proof -
  have "case fst (mirrord_main (demo_machine demo_store False) [''-password'', ''secret'']) of BServing _ \<Rightarrow> True | _ \<Rightarrow> False"
    by code_simp
  then obtain x where m: "mirrord_main (demo_machine demo_store False) [''-password'', ''secret''] = (BServing secret_md, x)"
    by (cases "mirrord_main (demo_machine demo_store False) [''-password'', ''secret'']") (auto simp: secret_md_def split: boot.splits)
  have "case ParseFlags [''-password'', ''secret''] mirrord_flags of Inr (rest, fs) \<Rightarrow> value_of_flag fs ''password'' \<noteq> [] | _ \<Rightarrow> False"
    by code_simp
  then obtain rest fs where f: "ParseFlags [''-password'', ''secret''] mirrord_flags = Inr (rest, fs)" "value_of_flag fs ''password'' \<noteq> []"
    by (auto split: sum.splits prod.splits)
  have dflt: "dcAuth (cfgDaemon (default_config demo_env)) = no_auth" by (simp add: default_config_def)
  have c: "\<And>p cfg. Load (mcEnv (demo_machine demo_store False)) (mcMethods (demo_machine demo_store False)) p
      (mcToml (demo_machine demo_store False) p) = Inr cfg \<Longrightarrow> acOAuth (dcAuth (cfgDaemon cfg)) = no_oauth"
    using dflt by (auto simp: demo_machine_def Load_def no_auth_def split: if_splits)
  have "load_keys demo_env demo_methods q [] (default_config demo_env) = Inr (default_config demo_env)" for q by simp
  then have n: "\<And>tmp raw cfg. Load (wEnv (demo_world 300)) (wMethods (demo_world 300)) tmp (wToml (demo_world 300) raw) = Inr cfg
      \<Longrightarrow> dcAuth (cfgDaemon cfg) = no_auth"
    using dflt by (auto simp: demo_world_def Load_def split: if_splits)
  have "case handleSaveConfig (demo_world 300) [] save_empty (mdServer secret_md) of Some (rp, s') \<Rightarrow> rpStatus rp = 200 | _ \<Rightarrow> False"
    by code_simp
  then obtain rp s' where h: "handleSaveConfig (demo_world 300) [] save_empty (mdServer secret_md) = Some (rp, s')" "rpStatus rp = 200"
    by (auto split: option.splits prod.splits)
  have "AuthEnabled (mdServer secret_md) \<and> (\<forall>w r. WithAuth w r s' = ServeHTTP w r s')"
    by (rule flag_password_lost [OF m f _ h]) (fact c, fact n)
  then show ?thesis using h(1) by blast
qed

end
