(* ===== verification/GoUrlRef.thy ===== *)
theory GoUrlRef
  imports GoUrl
begin

text \<open>
  The rest of \<open>net/url\<close> the web crawlers use: the resolution of a reference against a base URL
  (\<open>URL.Parse\<close>, \<open>URL.ResolveReference\<close>), and the check \<open>http.NewRequest\<close> makes of a URL.
\<close>

subsection \<open>Resolving references\<close>

text \<open>The state of the loop of \<open>resolvePath\<close>: whether the next element is written without a separator,
  and what was written after the leading slash.\<close>

definition dot_step :: "bool \<times> string \<Rightarrow> string \<Rightarrow> bool \<times> string" where
  "dot_step st e = (case st of (first, dst) \<Rightarrow>
     if e = ''.'' then (False, dst)
     else if e = ''..'' then
       (case LastIndexByte dst (CHR ''/'') of None \<Rightarrow> (True, []) | Some i \<Rightarrow> (first, take i dst))
     else (False, dst @ (if first then [] else ''/'') @ e))"

definition resolvePath :: "string \<Rightarrow> string \<Rightarrow> string" where
  "resolvePath base ref =
    (let full = (if ref = [] then base
                 else if hd ref \<noteq> CHR ''/'' then
                   (case LastIndexByte base (CHR ''/'') of None \<Rightarrow> ref | Some i \<Rightarrow> take (Suc i) base @ ref)
                 else ref)
     in if full = [] then []
        else
         (let es = Split full (CHR ''/'');
              dst = snd (foldl dot_step (True, []) es)
                @ (if last es = ''.'' \<or> last es = ''..'' then ''/'' else [])
          in if HasPrefix dst ''/'' then dst else CHR ''/'' # dst))"

definition setPath_or_same :: "url \<Rightarrow> string \<Rightarrow> url" where
  "setPath_or_same u p = (case setPath u p of Inl _ \<Rightarrow> u | Inr u' \<Rightarrow> u')"

definition ResolveReference :: "url \<Rightarrow> url \<Rightarrow> url" where
  "ResolveReference u ref =
    (let v = ref\<lparr>Scheme := (if Scheme ref = [] then Scheme u else Scheme ref)\<rparr> in
     if Scheme ref \<noteq> [] \<or> Host ref \<noteq> [] \<or> User ref \<noteq> None
     then setPath_or_same v (resolvePath (EscapedPath ref) [])
     else if Opaque ref \<noteq> [] then v\<lparr>User := None, Host := [], Path := []\<rparr>
     else
      (let w = (if Path ref = [] \<and> \<not> ForceQuery ref \<and> RawQuery ref = []
                then (let v1 = v\<lparr>RawQuery := RawQuery u\<rparr> in
                      if Fragment ref = [] then v1\<lparr>Fragment := Fragment u, RawFragment := RawFragment u\<rparr> else v1)
                else v)
       in if Path ref = [] \<and> Opaque u \<noteq> [] then w\<lparr>Opaque := Opaque u, User := None, Host := [], Path := []\<rparr>
          else setPath_or_same (w\<lparr>Host := Host u, User := User u\<rparr>) (resolvePath (EscapedPath u) (EscapedPath ref))))"

definition parse_ref :: "url \<Rightarrow> string \<Rightarrow> string + url" where
  "parse_ref u ref = map_sum id (ResolveReference u) (Parse ref)"

text \<open>\<open>http.NewRequest\<close> parses the text of the URL and drops a colon without a port.\<close>

definition removeEmptyPort :: "string \<Rightarrow> string" where
  "removeEmptyPort h =
    (case LastIndexByte h (CHR '':'') of
       None \<Rightarrow> h
     | Some i \<Rightarrow>
        (if (case LastIndexByte h (CHR '']'') of None \<Rightarrow> True | Some j \<Rightarrow> j < i) then TrimSuffix h '':'' else h))"

definition request_url :: "string \<Rightarrow> string + url" where
  "request_url s = map_sum id (\<lambda>u. u\<lparr>Host := removeEmptyPort (Host u)\<rparr>) (Parse s)"

subsection \<open>Facts\<close>

text \<open>A reference is resolved into a rooted path, or the empty one.\<close>

lemma resolvePath_rooted: "resolvePath base ref = [] \<or> HasPrefix (resolvePath base ref) ''/''"
  by (auto simp: resolvePath_def Let_def HasPrefix_def)

end
