(* ===== verification/HttpPage.thy ===== *)
theory HttpPage
  imports GoUrlRef
begin

text \<open>
  The part of \<open>httpmirror/httpmirror.go\<close> that reads pages: canonical URLs, the references of an HTML page
  and of a stylesheet, and the recognition of directory listings. The HTML parser is a third-party
  package: its result is a tree with the fields of \<open>html.Node\<close>, and the parser itself a parameter.
\<close>

subsection \<open>URLs\<close>

definition dirOf :: "string \<Rightarrow> string" where
  "dirOf p = (case LastIndexByte p (CHR ''/'') of Some i \<Rightarrow> take (Suc i) p | None \<Rightarrow> ''/'')"

definition normalize :: "url \<Rightarrow> url" where
  "normalize u0 =
    (let u1 = u0\<lparr>Scheme := ToLower (Scheme u0), Host := ToLower (Host u0)\<rparr>;
         u2 = (if Scheme u1 = ''http'' \<and> HasSuffix (Host u1) '':80'' \<or> Scheme u1 = ''https'' \<and> HasSuffix (Host u1) '':443''
               then u1\<lparr>Host := take (the (LastIndexByte (Host u1) (CHR '':''))) (Host u1)\<rparr> else u1);
         u3 = u2\<lparr>Fragment := [], RawFragment := [], User := None\<rparr>
     in if Path u3 = [] then u3\<lparr>Path := ''/'', RawPath := []\<rparr> else u3)"

definition resolve_ref :: "url \<Rightarrow> string \<Rightarrow> url option" where
  "resolve_ref base ref0 =
    (let ref = TrimSpace ref0 in
     if ref = [] \<or> HasPrefix ref ''#'' then None
     else (case parse_ref base ref of
        Inl _ \<Rightarrow> None
      | Inr u \<Rightarrow> if Scheme u \<noteq> ''http'' \<and> Scheme u \<noteq> ''https'' \<or> Host u = [] then None else Some (normalize u)))"

subsection \<open>Stylesheets\<close>

text \<open>The white space of \<open>\s\<close>.\<close>

definition re_space :: "char \<Rightarrow> bool" where
  "re_space c \<longleftrightarrow> (of_char c :: nat) \<in> {9, 10, 12, 13, 32}"

text \<open>\<open>\s*\)\<close>: what follows the closing parenthesis.\<close>

definition closing :: "string \<Rightarrow> string option" where
  "closing s = (case dropWhile re_space s of c # r \<Rightarrow> if c = CHR '')'' then Some r else None | [] \<Rightarrow> None)"

text \<open>A quoted text, and what follows its closing quote.\<close>

definition quoted :: "string \<Rightarrow> (string \<times> string) option" where
  "quoted s = (case s of
     [] \<Rightarrow> None
   | q # r \<Rightarrow> if q \<noteq> CHR 0x22 \<and> q \<noteq> CHR 0x27 then None
             else (case dropWhile (\<lambda>c. c \<noteq> q) r of [] \<Rightarrow> None | _ # t \<Rightarrow> Some (takeWhile (\<lambda>c. c \<noteq> q) r, t)))"

text \<open>\<open>cssURLRe\<close> and \<open>cssImportRe\<close> at the head of a text: the group that matched and the rest.\<close>

definition match_url :: "string \<Rightarrow> (string \<times> string) option" where
  "match_url s =
    (if \<not> HasPrefix s ''url('' then None
     else
      (let r = dropWhile re_space (drop 4 s);
           bare = (\<lambda>c. c \<noteq> CHR '')'' \<and> \<not> re_space c);
           unquoted = map_option (Pair (takeWhile bare r)) (closing (dropWhile bare r))
       in case quoted r of
            None \<Rightarrow> unquoted
          | Some (g, t) \<Rightarrow> (case closing t of Some rest \<Rightarrow> Some (g, rest) | None \<Rightarrow> unquoted)))"

definition match_import :: "string \<Rightarrow> (string \<times> string) option" where
  "match_import s =
    (if \<not> HasPrefix s ''@import'' then None
     else (let r = drop 7 s in
       if r = [] \<or> \<not> re_space (hd r) then None else quoted (dropWhile re_space r)))"

primrec find_all :: "nat \<Rightarrow> (string \<Rightarrow> (string \<times> string) option) \<Rightarrow> string \<Rightarrow> string list" where
  "find_all 0 m s = []"
| "find_all (Suc n) m s = (case s of
     [] \<Rightarrow> []
   | _ # s' \<Rightarrow> (case m s of None \<Rightarrow> find_all n m s' | Some (g, rest) \<Rightarrow> g # find_all n m rest))"

definition css_refs :: "string \<Rightarrow> string list" where
  "css_refs css = filter (\<lambda>g. g \<noteq> []) (find_all (length css) match_url css @ find_all (length css) match_import css)"

definition extractCSS :: "string \<Rightarrow> url \<Rightarrow> url list" where
  "extractCSS css base = List.map_filter (resolve_ref base) (css_refs css)"

subsection \<open>Pages\<close>

datatype node_type = ElementNode | TextNode | OtherNode

type_synonym html_attr = "string \<times> string \<times> string"   \<comment> \<open>name space, key, value\<close>

datatype html_node = HtmlNode node_type string "html_attr list" "html_node list"

type_synonym html_parser = "string \<Rightarrow> html_node option"

fun getAttr :: "html_attr list \<Rightarrow> string \<Rightarrow> string" where
  "getAttr [] key = []"
| "getAttr ((ns, k, v) # r) key = (if ns = [] \<and> k = key then v else getAttr r key)"

fun findBase :: "html_node \<Rightarrow> string" and findBases :: "html_node list \<Rightarrow> string" where
  "findBase (HtmlNode ty data attrs ch) =
    (if ty = ElementNode \<and> data = ''base'' \<and> getAttr attrs ''href'' \<noteq> [] then getAttr attrs ''href'' else findBases ch)"
| "findBases [] = []"
| "findBases (n # ns) = (let b = findBase n in if b \<noteq> [] then b else findBases ns)"

definition requisiteRels :: "string list" where
  "requisiteRels = [''stylesheet'', ''icon'', ''shortcut'', ''apple-touch-icon'', ''apple-touch-icon-precomposed'',
     ''mask-icon'', ''manifest'', ''preload'', ''modulepreload'']"

definition link_refs :: "string \<Rightarrow> html_attr list \<Rightarrow> string list" where
  "link_refs data attrs =
    (if data \<in> {''a'', ''area''} then [getAttr attrs ''href'']
     else if data \<in> {''frame'', ''iframe''} then [getAttr attrs ''src''] else [])"

definition srcset_refs :: "string \<Rightarrow> string list" where
  "srcset_refs v = List.map_filter (\<lambda>cand. case Fields cand of [] \<Rightarrow> None | f # _ \<Rightarrow> Some f) (Split v (CHR '',''))"

definition style_text :: "html_node list \<Rightarrow> string" where
  "style_text ch = (case ch of HtmlNode TextNode data _ _ # _ \<Rightarrow> data | _ \<Rightarrow> [])"

definition req_refs :: "string \<Rightarrow> html_attr list \<Rightarrow> html_node list \<Rightarrow> string list" where
  "req_refs data attrs ch =
    (let attr = getAttr attrs in
     (if data \<in> {''img'', ''source''} then attr ''src'' # srcset_refs (attr ''srcset'')
      else if data \<in> {''script'', ''audio'', ''track'', ''embed''} then [attr ''src'']
      else if data = ''video'' then [attr ''src'', attr ''poster'']
      else if data = ''object'' then [attr ''data'']
      else if data = ''input'' then (if EqualFold (attr ''type'') ''image'' then [attr ''src''] else [])
      else if data = ''link'' then
        (if list_ex (\<lambda>r. r \<in> set requisiteRels) (Fields (ToLower (attr ''rel''))) then [attr ''href''] else [])
      else if data \<in> {''body'', ''table'', ''tr'', ''td'', ''th''} then [attr ''background'']
      else if data = ''style'' then css_refs (style_text ch)
      else [])
     @ css_refs (attr ''style''))"

text \<open>The walk over the tree: the references to follow and those the page needs, in the order of the page.\<close>

fun page_refs :: "html_node \<Rightarrow> string list \<times> string list" and pages_refs :: "html_node list \<Rightarrow> string list \<times> string list" where
  "page_refs (HtmlNode ty data attrs ch) =
    (case pages_refs ch of (ls, rs) \<Rightarrow>
       if ty = ElementNode then (link_refs data attrs @ ls, req_refs data attrs ch @ rs) else (ls, rs))"
| "pages_refs [] = ([], [])"
| "pages_refs (n # ns) = (case (page_refs n, pages_refs ns) of ((l1, r1), (l2, r2)) \<Rightarrow> (l1 @ l2, r1 @ r2))"

subsection \<open>Directory listings\<close>

text \<open>Case-insensitive matching of a lower-case text; \<open>s\<close> also folds to the long s, two bytes in UTF-8.\<close>

fun fold_match :: "string \<Rightarrow> string \<Rightarrow> string option" where
  "fold_match [] s = Some s"
| "fold_match (p # ps) s = (case s of
     [] \<Rightarrow> None
   | c # cs \<Rightarrow>
      if lower_char c = p then fold_match ps cs
      else if p = CHR ''s'' \<and> HasPrefix s [CHR 0xC5, CHR 0xBF] then fold_match ps (drop 2 s) else None)"

definition listing_title :: "string \<Rightarrow> bool" where
  "listing_title t = list_ex (\<lambda>p. case fold_match p t of Some (c # _) \<Rightarrow> re_space c | _ \<Rightarrow> False)
     [''index of'', ''directory listing for'', ''directory listing of'', ''directory:'']"

definition word :: "string \<Rightarrow> bool" where
  "word s \<longleftrightarrow> s \<noteq> [] \<and> list_all (\<lambda>c. is_alnum c \<or> c = CHR ''_'') s"

definition sort_query :: "string \<Rightarrow> bool" where
  "sort_query q \<longleftrightarrow>
     length q = 7 \<and> take 2 q = ''C='' \<and> q ! 2 \<in> set ''NMSD'' \<and> q ! 3 \<in> set '';&'' \<and> take 2 (drop 4 q) = ''O='' \<and> q ! 6 \<in> set ''AD''
   \<or> (case Cut q ''&'' of (a, b, ok) \<Rightarrow> ok
        \<and> (HasPrefix a ''sort='' \<and> word (drop 5 a) \<and> HasPrefix b ''order='' \<and> word (drop 6 b)
         \<or> HasPrefix a ''order='' \<and> word (drop 6 a) \<and> HasPrefix b ''sort='' \<and> word (drop 5 b)))"

fun textOf :: "html_node \<Rightarrow> string" and textsOf :: "html_node list \<Rightarrow> string" where
  "textOf (HtmlNode ty data attrs ch) = (if ty = TextNode then data else []) @ textsOf ch"
| "textsOf [] = []"
| "textsOf (n # ns) = textOf n @ textsOf ns"

fun title_text :: "bool \<Rightarrow> html_node \<Rightarrow> string" and titles_text :: "bool \<Rightarrow> html_node list \<Rightarrow> string" where
  "title_text inTitle (HtmlNode ty data attrs ch) =
    (let t = inTitle \<or> (ty = ElementNode \<and> data = ''title'') in
     (if t \<and> ty = TextNode then data else []) @ titles_text t ch)"
| "titles_text inTitle [] = []"
| "titles_text inTitle (n # ns) = title_text inTitle n @ titles_text inTitle ns"

text \<open>The elements of a name, in the order of the page.\<close>

fun elements :: "string \<Rightarrow> html_node \<Rightarrow> html_node list" and elementss :: "string \<Rightarrow> html_node list \<Rightarrow> html_node list" where
  "elements name (HtmlNode ty data attrs ch) =
    (if ty = ElementNode \<and> data = name then [HtmlNode ty data attrs ch] else []) @ elementss name ch"
| "elementss name [] = []"
| "elementss name (n # ns) = elements name n @ elementss name ns"

fun node_href :: "html_node \<Rightarrow> string" where
  "node_href (HtmlNode ty data attrs ch) = getAttr attrs ''href''"

fun child_elements :: "html_node \<Rightarrow> html_node list" where
  "child_elements (HtmlNode ty data attrs ch) = filter (\<lambda>n. case n of HtmlNode t _ _ _ \<Rightarrow> t = ElementNode) ch"

fun node_data :: "html_node \<Rightarrow> string" where
  "node_data (HtmlNode ty data attrs ch) = data"

definition sort_link :: "url \<Rightarrow> html_node \<Rightarrow> bool" where
  "sort_link pageURL a = (case parse_ref pageURL (node_href a) of
     Inl _ \<Rightarrow> False | Inr u \<Rightarrow> Path u = Path pageURL \<and> sort_query (RawQuery u))"

definition isListing :: "html_node \<Rightarrow> url \<Rightarrow> bool" where
  "isListing doc pageURL =
    (let title = title_text False doc; anchors = elements ''a'' doc; bodies = elements ''body'' doc in
     listing_title (Join (Fields title) '' '')
     \<or> list_ex (\<lambda>a. TrimSpace (textOf a) = ''[To Parent Directory]'') anchors
     \<or> 2 \<le> length (filter (sort_link pageURL) anchors)
     \<or> (bodies \<noteq> [] \<and> title = [] \<and>
         (case child_elements (last bodies) of
            [e] \<Rightarrow> node_data e = ''pre'' \<and> list_all (\<lambda>c. node_data c = ''a'') (child_elements e)
          | _ \<Rightarrow> False)))"

definition extractHTML :: "html_parser \<Rightarrow> string \<Rightarrow> url \<Rightarrow> url list \<times> url list \<times> bool" where
  "extractHTML parse data pageURL =
    (case parse data of
       None \<Rightarrow> ([], [], False)
     | Some doc \<Rightarrow>
        (let b = findBase doc;
             base = (if b = [] then pageURL else (case parse_ref pageURL (TrimSpace b) of Inl _ \<Rightarrow> pageURL | Inr u \<Rightarrow> u))
         in case page_refs doc of (ls, rs) \<Rightarrow>
              (List.map_filter (resolve_ref base) ls, List.map_filter (resolve_ref base) rs, isListing doc pageURL)))"

end
