(* ===== verification/GoMime.thy ===== *)
theory GoMime
  imports GoStrings
begin

text \<open>
  \<open>mime.ParseMediaType\<close>: the media type of a \<open>Content-Type\<close>, as \<open>mt, _, _ := mime.ParseMediaType(v)\<close> keeps
  it. It is empty when the type is malformed or when a parameter is given twice with different
  values; a malformed parameter keeps the type. Continued parameters (\<open>name*0\<close>) are collected per name
  in the same way.
\<close>

definition is_tspecial :: "char \<Rightarrow> bool" where
  "is_tspecial c \<longleftrightarrow> c \<in> set ''()<>@,;:/[]?='' \<union> {CHR 0x22, CHR 0x5C}"

definition is_token_char :: "char \<Rightarrow> bool" where
  "is_token_char c = (let n = (of_char c :: nat) in
     33 \<le> n \<and> n \<le> 126 \<and> \<not> is_tspecial c)"

definition consumeToken :: "string \<Rightarrow> string \<times> string" where
  "consumeToken v = (takeWhile is_token_char v, dropWhile is_token_char v)"

text \<open>\<open>checkMediaTypeDisposition\<close>\<close>

definition valid_media :: "string \<Rightarrow> bool" where
  "valid_media s = (case consumeToken s of (typ, rest) \<Rightarrow>
     typ \<noteq> [] \<and> (rest = [] \<or>
       (hd rest = CHR ''/'' \<and> fst (consumeToken (tl rest)) \<noteq> [] \<and> snd (consumeToken (tl rest)) = [])))"

text \<open>The text of a quoted string up to its closing quote, and the rest. A backslash quotes a special
  character after it.\<close>

fun quoted_text :: "string \<Rightarrow> (string \<times> string) option" where
  "quoted_text [] = None"
| "quoted_text (c # cs) =
    (if c = CHR 0x22 then Some ([], cs)
     else if c = CHR 0x5C then
       (case cs of
          [] \<Rightarrow> map_option (apfst ((#) c)) (quoted_text cs)
        | d # ds \<Rightarrow> if is_tspecial d then map_option (apfst ((#) d)) (quoted_text ds)
                   else map_option (apfst ((#) c)) (quoted_text cs))
     else if c = CHR 0x0D \<or> c = CHR 0x0A then None
     else map_option (apfst ((#) c)) (quoted_text cs))"

definition consumeValue :: "string \<Rightarrow> string \<times> string" where
  "consumeValue v = (case v of
     [] \<Rightarrow> ([], [])
   | c # cs \<Rightarrow> if c \<noteq> CHR 0x22 then consumeToken v
               else (case quoted_text cs of None \<Rightarrow> ([], v) | Some (t, rest) \<Rightarrow> (t, rest)))"

text \<open>One parameter: name, value and rest; \<open>None\<close> when there is none.\<close>

definition consumeMediaParam :: "string \<Rightarrow> (string \<times> string \<times> string) option" where
  "consumeMediaParam v =
    (let r1 = dropWhile is_space v in
     if \<not> HasPrefix r1 '';'' then None
     else (case consumeToken (dropWhile is_space (tl r1)) of (name, r2) \<Rightarrow>
       if name = [] then None
       else (let r3 = dropWhile is_space r2 in
         if \<not> HasPrefix r3 ''='' then None
         else (let r4 = dropWhile is_space (tl r3) in
           case consumeValue r4 of (val, r5) \<Rightarrow>
             if val = [] \<and> r5 = r4 then None else Some (ToLower name, val, r5)))))"

text \<open>Whether a parameter is repeated with another value before the parameters end or break off.\<close>

primrec repeated_param :: "nat \<Rightarrow> (string \<times> string) list \<Rightarrow> string \<Rightarrow> bool" where
  "repeated_param 0 seen v = False"
| "repeated_param (Suc n) seen v =
    (case consumeMediaParam (dropWhile is_space v) of
       None \<Rightarrow> False
     | Some (k, x, rest) \<Rightarrow>
        (case map_of seen k of
           Some y \<Rightarrow> if y \<noteq> x then True else repeated_param n seen rest
         | None \<Rightarrow> repeated_param n ((k, x) # seen) rest))"

definition MediaType :: "string \<Rightarrow> string" where
  "MediaType v =
    (let base = fst (Cut v '';''); mt = TrimSpace (ToLower base) in
     if valid_media mt \<and> \<not> repeated_param (length v) [] (drop (length base) v) then mt else [])"

end
