(* ===== verification/CrawlTable.thy ===== *)
theory CrawlTable
  imports Prelude
begin

text \<open>
  The work list two of the crawlers share: a table of entries with ascending ids and distinct names, and
  a loop that visits the pending entry of the least id above the last one until none is left, while the
  visits add entries at the end. The locale states what such a loop needs of the query and of a visit; its lemmas show
  that the loop ends when the names are finitely many, what it keeps, and that it leaves nothing pending that
  a visit does not pass over.
\<close>

subsection \<open>Tables\<close>

definition table_ok :: "('r \<Rightarrow> nat) \<Rightarrow> ('r \<Rightarrow> 'k) \<Rightarrow> 'r list \<Rightarrow> bool" where
  "table_ok ident name rows \<longleftrightarrow> sorted_wrt (<) (map ident rows) \<and> distinct (map name rows) \<and> (\<forall>r \<in> set rows. 0 < ident r)"

definition grows :: "('r \<Rightarrow> nat) \<Rightarrow> ('r \<Rightarrow> 'k) \<Rightarrow> 'r list \<Rightarrow> 'r list \<Rightarrow> bool" where
  "grows ident name rows rows' \<longleftrightarrow>
     prefix (map (\<lambda>r. (ident r, name r)) rows) (map (\<lambda>r. (ident r, name r)) rows')
     \<and> (table_ok ident name rows \<longrightarrow> table_ok ident name rows')"

lemma grows_refl [simp]: "grows ident name rows rows"
  by (simp add: grows_def)

lemma grows_trans: "grows ident name a b \<Longrightarrow> grows ident name b c \<Longrightarrow> grows ident name a c"
  unfolding grows_def by (blast intro: prefix_order.trans)

lemma grows_ok: "grows ident name a b \<Longrightarrow> table_ok ident name a \<Longrightarrow> table_ok ident name b"
  by (simp add: grows_def)

lemma grows_idents: "grows ident name a b \<Longrightarrow> prefix (map ident a) (map ident b)"
proof -
  assume "grows ident name a b"
  then have "prefix (map fst (map (\<lambda>r. (ident r, name r)) a)) (map fst (map (\<lambda>r. (ident r, name r)) b))"
    unfolding grows_def by (blast intro: map_mono_prefix)
  then show ?thesis by (simp add: o_def)
qed

lemma same_keys_grows:
  assumes "map (\<lambda>r. (ident r, name r)) rows' = map (\<lambda>r. (ident r, name r)) rows"
  shows "grows ident name rows rows'"
proof -
  have "map fst (map (\<lambda>r. (ident r, name r)) rows') = map fst (map (\<lambda>r. (ident r, name r)) rows)"
    and "map snd (map (\<lambda>r. (ident r, name r)) rows') = map snd (map (\<lambda>r. (ident r, name r)) rows)" using assms by simp_all
  then have e: "map ident rows' = map ident rows" "map name rows' = map name rows" by (simp_all add: o_def)
  have "list_all (\<lambda>i. 0 < i) (map ident rows') = list_all (\<lambda>i. 0 < i) (map ident rows)" using e(1) by simp
  then have "(\<forall>r \<in> set rows'. 0 < ident r) = (\<forall>r \<in> set rows. 0 < ident r)" by (simp add: list_all_iff)
  then show ?thesis using assms e by (simp add: grows_def table_ok_def)
qed

lemma image_map_where: "(\<And>r. k (f r) = k r) \<Longrightarrow> k ` set (map_where P f rows) = k ` set rows"
  by (metis map_map_where set_map)

lemma grows_map_where: "(\<And>r. ident (f r) = ident r) \<Longrightarrow> (\<And>r. name (f r) = name r) \<Longrightarrow> grows ident name rows (map_where P f rows)"
  by (rule same_keys_grows) (simp add: map_where_def)

text \<open>\<open>INTEGER PRIMARY KEY\<close>: a new entry gets the greatest id plus one.\<close>

definition fresh_id :: "('r \<Rightarrow> nat) \<Rightarrow> 'r list \<Rightarrow> nat" where
  "fresh_id ident rows = Suc (fold max (map ident rows) 0)"

lemma fold_max_upper: "(x :: nat) \<in> set xs \<Longrightarrow> x \<le> fold max xs m" "m \<le> fold max xs m"
  by (induction xs arbitrary: m) (auto, (meson max.cobounded1 max.cobounded2 order_trans)+)

lemma fresh_id_above: "r \<in> set rows \<Longrightarrow> ident r < fresh_id ident rows"
  using fold_max_upper(1) [of "ident r" "map ident rows" 0] by (simp add: fresh_id_def)

lemma grows_insert:
  assumes "ident n = fresh_id ident rows" and "name n \<notin> name ` set rows"
  shows "grows ident name rows (rows @ [n])"
  using assms fresh_id_above [of _ rows ident]
  by (auto simp: grows_def table_ok_def sorted_wrt_append fresh_id_def [of _ "rows"])

lemma table_ok_ident: "table_ok ident name rows \<Longrightarrow> r \<in> set rows \<Longrightarrow> r' \<in> set rows \<Longrightarrow> ident r = ident r' \<Longrightarrow> r = r'"
proof -
  assume t: "table_ok ident name rows" and r: "r \<in> set rows" "r' \<in> set rows" "ident r = ident r'"
  have "distinct (map ident rows)" using t strict_sorted_iff unfolding table_ok_def by blast
  then show ?thesis using r by (metis distinct_map inj_onD)
qed

lemma table_ok_card:
  assumes "table_ok ident name rows" and "finite U" and "name ` set rows \<subseteq> U"
  shows "length rows \<le> card U"
proof -
  have "length rows = card (name ` set rows)"
    using assms(1) by (metis table_ok_def distinct_card length_map set_map)
  also have "\<dots> \<le> card U" using assms(2,3) by (rule card_mono)
  finally show ?thesis .
qed

subsection \<open>Steps\<close>

text \<open>What a step may do to a table and its count of errors: the table grows, a row is bad only if one was before or an error is
  counted, and, when \<open>calm\<close> is set, a row is pending only if it was before or is new.\<close>

definition tame :: "('r \<Rightarrow> nat) \<Rightarrow> ('r \<Rightarrow> 'k) \<Rightarrow> ('r \<Rightarrow> bool) \<Rightarrow> ('r \<Rightarrow> bool) \<Rightarrow> bool \<Rightarrow> 'r list \<times> nat \<Rightarrow> 'r list \<times> nat \<Rightarrow> bool" where
  "tame ident name pend bad calm t t' \<longleftrightarrow>
     grows ident name (fst t) (fst t') \<and> snd t \<le> snd t'
     \<and> (\<forall>r' \<in> set (fst t'). bad r' \<longrightarrow> snd t < snd t' \<or> (\<exists>r0 \<in> set (fst t). bad r0))
     \<and> (calm \<longrightarrow> (\<forall>r' \<in> set (fst t'). pend r' \<longrightarrow>
          (\<exists>r0 \<in> set (fst t). ident r0 = ident r' \<and> name r0 = name r' \<and> pend r0) \<or> (\<forall>r0 \<in> set (fst t). ident r0 < ident r')))"

lemma tame_refl [simp]: "tame ident name pend bad calm t t"
  by (auto simp: tame_def)

lemma tame_grows: "tame ident name pend bad calm t t' \<Longrightarrow> grows ident name (fst t) (fst t')"
  by (simp add: tame_def)

lemma grows_all_below:
  assumes "grows ident name a b" and "\<forall>r0 \<in> set b. ident r0 < i"
  shows "\<forall>r0 \<in> set a. ident r0 < i"
proof -
  have "set (map ident a) \<subseteq> set (map ident b)" using assms(1) by (intro set_mono_prefix grows_idents)
  then show ?thesis using assms(2) by fastforce
qed

lemma tame_trans:
  assumes "tame ident name pend bad calm a b" and "tame ident name pend bad calm b c"
  shows "tame ident name pend bad calm a c"
  unfolding tame_def
proof (intro conjI ballI impI)
  have g: "grows ident name (fst a) (fst b)" using assms(1) by (rule tame_grows)
  show "grows ident name (fst a) (fst c)" using g assms(2) grows_trans unfolding tame_def by blast
  show "snd a \<le> snd c" using assms unfolding tame_def by linarith
  show "snd a < snd c \<or> (\<exists>r0 \<in> set (fst a). bad r0)" if "r \<in> set (fst c)" "bad r" for r
    using assms that unfolding tame_def by (meson le_less_trans less_le_trans)
  show "(\<exists>r0 \<in> set (fst a). ident r0 = ident r \<and> name r0 = name r \<and> pend r0) \<or> (\<forall>r0 \<in> set (fst a). ident r0 < ident r)"
    if s: calm and r: "r \<in> set (fst c)" "pend r" for r
  proof (cases "\<forall>r0 \<in> set (fst b). ident r0 < ident r")
    case True
    then show ?thesis using grows_all_below [OF g] by blast
  next
    case False
    then obtain r1 where r1: "r1 \<in> set (fst b)" "ident r1 = ident r" "name r1 = name r" "pend r1"
      using assms(2) s r unfolding tame_def by blast
    then have "(\<exists>r0 \<in> set (fst a). ident r0 = ident r1 \<and> name r0 = name r1 \<and> pend r0) \<or> (\<forall>r0 \<in> set (fst a). ident r0 < ident r1)"
      using assms(1) s unfolding tame_def by blast
    then show ?thesis using r1 by simp
  qed
qed

lemma tame_insert:
  assumes "ident n = fresh_id ident rows" and "name n \<notin> name ` set rows" and "\<not> bad n"
  shows "tame ident name pend bad calm (rows, m) (rows @ [n], m)"
proof -
  have "\<forall>r0 \<in> set rows. ident r0 < ident n" using fresh_id_above assms(1) by metis
  moreover have "grows ident name rows (rows @ [n])" using assms(1,2) by (rule grows_insert)
  ultimately show ?thesis using assms(3) by (auto simp: tame_def)
qed

text \<open>An update by id: no row it changes is pending then (unless the step need not be calm) or bad (unless it is counted).\<close>

lemma tame_update:
  assumes "\<And>r. ident (f r) = ident r" and "\<And>r. name (f r) = name r" and "m \<le> m'"
    and "\<And>r. calm \<Longrightarrow> \<not> pend (f r)" and "m < m' \<or> (\<forall>r. bad (f r) \<longrightarrow> bad r)"
  shows "tame ident name pend bad calm (rows, m) (map_where P f rows, m')"
  using assms by (auto simp: tame_def set_map_where intro: grows_map_where)

subsection \<open>The loop\<close>

locale worklist =
  fixes pick :: "nat \<Rightarrow> 's \<Rightarrow> ('e + 'r option) \<times> 's"
    and visit :: "'r \<Rightarrow> 's \<Rightarrow> 'e option \<times> 's"
    and loop :: "nat \<Rightarrow> nat \<Rightarrow> 's \<Rightarrow> ('e option \<times> 's) option"
    and rows :: "'s \<Rightarrow> 'r list" and ident :: "'r \<Rightarrow> nat" and name :: "'r \<Rightarrow> 'k" and pending :: "'r \<Rightarrow> bool"
  assumes loop_0: "loop 0 lo s = None"
    and loop_Suc: "loop (Suc n) lo s = (case pick lo s of
        (Inl e, s1) \<Rightarrow> Some (Some e, s1)
      | (Inr None, s1) \<Rightarrow> Some (None, s1)
      | (Inr (Some r), s1) \<Rightarrow>
         (case visit r s1 of (Some e, s2) \<Rightarrow> Some (Some e, s2) | (None, s2) \<Rightarrow> loop n (ident r) s2))"
    and pick_rows: "pick lo s = (p, s1) \<Longrightarrow> rows s1 = rows s"
    and pick_none: "pick lo s = (Inr None, s1) \<Longrightarrow> r \<in> set (rows s) \<Longrightarrow> pending r \<Longrightarrow> ident r \<le> lo"
    and pick_some: "pick lo s = (Inr (Some r), s1) \<Longrightarrow> r \<in> set (rows s) \<and> pending r \<and> lo < ident r
        \<and> (\<forall>r' \<in> set (rows s). pending r' \<longrightarrow> lo < ident r' \<longrightarrow> ident r \<le> ident r')"
    and visit_grows: "visit r s = (x, s') \<Longrightarrow> grows ident name (rows s) (rows s')"
begin

abbreviation ok :: "'s \<Rightarrow> bool" where
  "ok s \<equiv> table_ok ident name (rows s)"

text \<open>What every query and visit keeps, the loop keeps.\<close>

lemma loop_keeps:
  assumes "loop n lo s = Some (x, s')" and "I s"
    and "\<And>lo s p s1. I s \<Longrightarrow> pick lo s = (p, s1) \<Longrightarrow> I s1"
    and "\<And>r s x s1. I s \<Longrightarrow> r \<in> set (rows s) \<Longrightarrow> pending r \<Longrightarrow> visit r s = (x, s1) \<Longrightarrow> I s1"
  shows "I s'"
  using assms(1,2)
proof (induction n arbitrary: lo s)
  case 0
  then show ?case by (simp add: loop_0)
next
  case (Suc n)
  obtain p s1 where p: "pick lo s = (p, s1)" by fastforce
  have i1: "I s1" using assms(3) Suc.prems(2) p by blast
  show ?case
  proof (cases "\<exists>r. p = Inr (Some r)")
    case True
    then obtain r where r: "p = Inr (Some r)" by blast
    obtain y s2 where v: "visit r s1 = (y, s2)" by fastforce
    have "r \<in> set (rows s1)" "pending r" using pick_some pick_rows p r by metis+
    then have "I s2" using assms(4) i1 v by blast
    then show ?thesis using Suc.IH Suc.prems(1) p r v by (auto simp: loop_Suc split: option.splits)
  next
    case False
    then show ?thesis using Suc.prems(1) p i1 by (auto simp: loop_Suc split: sum.splits option.splits)
  qed
qed

text \<open>A loop ends without an error when no query and no visit on the way has one.\<close>

lemma loop_no_error:
  assumes "loop n lo s = Some (x, s')" and "I s"
    and "\<And>lo s p s1. I s \<Longrightarrow> pick lo s = (p, s1) \<Longrightarrow> I s1 \<and> (\<forall>e. p \<noteq> Inl e)"
    and "\<And>r s x s1. I s \<Longrightarrow> r \<in> set (rows s) \<Longrightarrow> pending r \<Longrightarrow> visit r s = (x, s1) \<Longrightarrow> I s1 \<and> x = None"
  shows "x = None"
  using assms(1,2)
proof (induction n arbitrary: lo s)
  case 0
  then show ?case by (simp add: loop_0)
next
  case (Suc n)
  obtain p s1 where p: "pick lo s = (p, s1)" by fastforce
  have i1: "I s1" "\<forall>e. p \<noteq> Inl e" using assms(3) Suc.prems(2) p by blast+
  show ?case
  proof (cases "\<exists>r. p = Inr (Some r)")
    case True
    then obtain r where r: "p = Inr (Some r)" by blast
    obtain y s2 where v: "visit r s1 = (y, s2)" by fastforce
    have "r \<in> set (rows s1)" "pending r" using pick_some pick_rows p r by metis+
    then have "I s2" "y = None" using assms(4) i1 v by blast+
    then show ?thesis using Suc.IH Suc.prems(1) p r v by (auto simp: loop_Suc)
  next
    case False
    then show ?thesis using Suc.prems(1) p i1 by (auto simp: loop_Suc split: sum.splits option.splits)
  qed
qed

lemma loop_grows:
  assumes "loop n lo s = Some (x, s')"
  shows "grows ident name (rows s) (rows s')"
  using loop_keeps [OF assms, where I = "\<lambda>t. grows ident name (rows s) (rows t)"] pick_rows visit_grows
  by (metis grows_refl grows_trans)

text \<open>With finitely many names the loop ends: every turn puts one more entry behind it.\<close>

lemma behind_grows:
  assumes "grows ident name (rows s) (rows s')" and "r \<in> set (rows s)" and "lo < ident r"
  shows "length (filter (\<lambda>i. i \<le> lo) (map ident (rows s))) < length (filter (\<lambda>i. i \<le> ident r) (map ident (rows s')))"
proof -
  let ?is = "map ident (rows s)"
  obtain zs where z: "map ident (rows s') = ?is @ zs" using grows_idents [OF assms(1)] by (auto simp: prefix_def)
  have m: "ident r \<in> set ?is" using assms(2) by simp
  have "length (filter (\<lambda>i. i \<le> lo) xs) + (if ident r \<in> set xs then 1 else 0) \<le> length (filter (\<lambda>i. i \<le> ident r) xs)" for xs
    using assms(3) by (induction xs) auto
  from this [of ?is] m show ?thesis unfolding z filter_append length_append by simp
qed

lemma loop_ends:
  assumes "finite U" and "I s" and "ok s" and "\<And>s. I s \<Longrightarrow> name ` set (rows s) \<subseteq> U"
    and "\<And>lo s p s1. I s \<Longrightarrow> pick lo s = (p, s1) \<Longrightarrow> I s1"
    and "\<And>r s x s1. I s \<Longrightarrow> r \<in> set (rows s) \<Longrightarrow> pending r \<Longrightarrow> visit r s = (x, s1) \<Longrightarrow> I s1"
    and "card U < n + length (filter (\<lambda>i. i \<le> lo) (map ident (rows s)))"
  shows "loop n lo s \<noteq> None"
  using assms(2,3,7)
proof (induction n arbitrary: lo s)
    case 0
    have "length (filter (\<lambda>i. i \<le> lo) (map ident (rows s))) \<le> length (rows s)"
      by (metis length_filter_le length_map)
    with 0(3) have "card U < length (rows s)" by linarith
    then show ?case using table_ok_card [OF 0(2) assms(1) assms(4) [OF 0(1)]] by simp
  next
    case (Suc n)
    obtain p s1 where p: "pick lo s = (p, s1)" by fastforce
    have i1: "I s1" "ok s1" using assms(5) Suc.prems(1,2) p pick_rows [OF p] by (blast, simp)
    show ?case
    proof (cases "\<exists>r. p = Inr (Some r)")
      case True
      then obtain r where r: "p = Inr (Some r)" by blast
      obtain y s2 where v: "visit r s1 = (y, s2)" by fastforce
      have m: "r \<in> set (rows s1)" "lo < ident r" "pending r" using pick_some [OF p [unfolded r]] pick_rows [OF p] by simp_all
      have g: "grows ident name (rows s1) (rows s2)" by (rule visit_grows [OF v])
      have "I s2" "ok s2" using assms(6) i1 m(1,3) v grows_ok [OF g] by (blast, blast)
      moreover have "card U < n + length (filter (\<lambda>i. i \<le> ident r) (map ident (rows s2)))"
        using behind_grows [OF g m(1,2)] Suc.prems(3) pick_rows [OF p] by simp
      ultimately have "loop n (ident r) s2 \<noteq> None" by (rule Suc.IH)
      then show ?thesis using p r v by (auto simp: loop_Suc split: option.splits)
    next
      case False
      then show ?thesis using p by (auto simp: loop_Suc split: sum.splits option.splits)
    qed
qed

end

text \<open>When a visit settles its entry, or passes it over, and makes no earlier entry pending, a loop that ends without an
  error leaves pending only entries that are passed over.\<close>

locale settling_worklist = worklist pick visit loop rows ident name pending
  for pick :: "nat \<Rightarrow> 's \<Rightarrow> ('e + 'r option) \<times> 's" and visit and loop and rows and ident and name :: "'r \<Rightarrow> 'k" and pending +
  fixes passed :: "'r \<Rightarrow> bool"
  assumes visit_settles: "visit r s = (None, s') \<Longrightarrow> table_ok ident name (rows s) \<Longrightarrow> r \<in> set (rows s) \<Longrightarrow> r' \<in> set (rows s')
      \<Longrightarrow> pending r' \<Longrightarrow> ident r' \<le> ident r \<Longrightarrow> passed r' \<or>
        (\<exists>r0 \<in> set (rows s). ident r0 = ident r' \<and> pending r0 \<and> ident r0 \<noteq> ident r \<and> (passed r0 \<longrightarrow> passed r'))"
begin

lemma loop_settles:
  assumes "loop n lo s = Some (None, s')" and "table_ok ident name (rows s)"
    and "\<And>r. r \<in> set (rows s) \<Longrightarrow> pending r \<Longrightarrow> ident r \<le> lo \<Longrightarrow> passed r"
  shows "\<forall>r \<in> set (rows s'). pending r \<longrightarrow> passed r"
  using assms
proof (induction n arbitrary: lo s)
  case 0
  then show ?case by (simp add: loop_0)
next
  case (Suc n)
  obtain p s1 where p: "pick lo s = (p, s1)" by fastforce
  note same = pick_rows [OF p]
  show ?case
  proof (cases p)
    case (Inl e)
    then show ?thesis using Suc.prems(1) p by (simp add: loop_Suc)
  next
    case (Inr x)
    show ?thesis
    proof (cases x)
      case None
      then have "s' = s1" using Suc.prems(1) p Inr by (simp add: loop_Suc)
      then show ?thesis using Suc.prems(3) pick_none p Inr None same by metis
    next
      case (Some r)
      obtain y s2 where v: "visit r s1 = (y, s2)" by fastforce
      then have y: "y = None" "loop n (ident r) s2 = Some (None, s')"
        using Suc.prems(1) p Inr Some by (auto simp: loop_Suc split: option.splits)
      have m: "r \<in> set (rows s)" "lo < ident r"
        "\<And>r'. r' \<in> set (rows s) \<Longrightarrow> pending r' \<Longrightarrow> lo < ident r' \<Longrightarrow> ident r \<le> ident r'"
        using pick_some p Inr Some by blast+
      have "passed r'" if r': "r' \<in> set (rows s2)" "pending r'" "ident r' \<le> ident r" for r'
        using visit_settles [of r s1 s2 r'] v y(1) same Suc.prems(2,3) m r' by (metis le_antisym not_le)
      moreover have "table_ok ident name (rows s2)"
        using grows_ok [OF visit_grows [OF v]] Suc.prems(2) same by simp
      ultimately show ?thesis using Suc.IH y(2) by blast
    qed
  qed
qed

end

end
