(* ===== verification/HttpMirror.thy ===== *)
theory HttpMirror
  imports HttpPage GoMime Git GoFS CrawlTable "HOL-Library.AList"
begin

text \<open>
  \<open>httpmirror/httpmirror.go\<close>: the recursive mirror of a web site, with its state in a database in the
  destination directory. Every step may fail: the network, the file system and the context take their
  outcomes from an arbitrary sequence of records (one for each turn), the database from a list of
  faults. The answers are functions of the request, so a statement over all sequences covers every
  server. The loop over the pending URLs has no bound of its own and gets fuel; \<open>None\<close> is a run that is
  still going on. Sleeping, logging and file times are left out.
\<close>

subsection \<open>Answers of the network\<close>

record answer =
  anStatus :: nat
  anLocation :: string
  anType :: string
  anETag :: string
  anLastMod :: string
  anBody :: string
  anBodyErr :: "string option"     \<comment> \<open>the error that ends the body instead of its end\<close>

record web_request =
  wrUrl :: url
  wrNoneMatch :: "string option"
  wrModifiedSince :: "string option"

definition isRedirect :: "nat \<Rightarrow> bool" where
  "isRedirect code \<longleftrightarrow> code \<in> {301, 302, 303, 307, 308}"

text \<open>\<open>Response.Location\<close>: relative to the URL of the request.\<close>

definition Location :: "web_request \<Rightarrow> answer \<Rightarrow> string + url" where
  "Location rq a = (if anLocation a = [] then Inl ''http: no Location header in response''
     else parse_ref (wrUrl rq) (anLocation a))"

subsection \<open>Probing for a Git repository (\<open>git.ProbeHTTP\<close>)\<close>

type_synonym web_get = "string \<Rightarrow> string + answer"

text \<open>\<open>io.ReadAll\<close> of an \<open>io.LimitReader\<close>\<close>

definition read_limited :: "nat \<Rightarrow> answer \<Rightarrow> string option" where
  "read_limited n a = (if length (anBody a) < n \<and> anBodyErr a \<noteq> None then None else Some (take n (anBody a)))"

definition dumb_refs_line :: "string \<Rightarrow> bool" where
  "dumb_refs_line line =
    (let hex = (\<lambda>c. is_digit c \<or> c \<in> set ''abcdef''); h = takeWhile hex line; r = dropWhile hex line in
     40 \<le> length h \<and> length h \<le> 64 \<and> HasPrefix r (CHR 0x09 # ''refs/'')
     \<and> drop 6 r \<noteq> [] \<and> list_all (\<lambda>c. \<not> re_space c) (drop 6 r))"

definition ProbeHTTP :: "web_get \<Rightarrow> string \<Rightarrow> bool" where
  "ProbeHTTP get rawURL =
    (case Parse rawURL of
       Inl _ \<Rightarrow> False
     | Inr u \<Rightarrow>
        (if Scheme u \<noteq> ''http'' \<and> Scheme u \<noteq> ''https'' \<or> Host u = [] \<or> RawQuery u \<noteq> [] then False
         else
          (let base = TrimRight (url_String u) ''/'' in
           case get (base @ ''/info/refs?service=git-upload-pack'') of
             Inl _ \<Rightarrow> False
           | Inr a \<Rightarrow>
              (let mt = MediaType (anType a) in
               if anStatus a \<noteq> 200 then False
               else if mt = ''application/x-git-upload-pack-advertisement'' then True
               else if mt = ''text/html'' \<or> mt = ''application/xhtml+xml'' then False
               else (case read_limited 4096 a of
                 None \<Rightarrow> False
               | Some bdy \<Rightarrow>
                  (if \<not> list_all (\<lambda>line. line = [] \<or> dumb_refs_line line) (Split (TrimSpace bdy) (CHR 0x0A)) then False
                   else (case get (base @ ''/HEAD'') of
                      Inl _ \<Rightarrow> False
                    | Inr h \<Rightarrow> anStatus h = 200 \<and>
                        (case read_limited 256 h of None \<Rightarrow> False | Some hb \<Rightarrow> HasPrefix hb ''ref: refs/''))))))))"

subsection \<open>The crawl\<close>

definition http_dbFileName :: string where "http_dbFileName = ''.httpmirror.db''"
definition http_tmpSuffix :: string where "http_tmpSuffix = ''.httpmirror-tmp''"
definition http_maxAttempts :: nat where "http_maxAttempts = 3"

definition statePending :: string where "statePending = ''pending''"
definition stateDone :: string where "stateDone = ''done''"
definition stateError :: string where "stateError = ''error''"
definition stateFailed :: string where "stateFailed = ''failed''"

lemmas url_states = statePending_def stateDone_def stateError_def stateFailed_def

record url_row =
  urID :: nat
  urUrl :: string
  urRequisite :: bool
  urState :: string
  urStatus :: "nat option"
  urError :: "string option"
  urEtag :: "string option"
  urLastMod :: "string option"

record hstate =
  hsRows :: "url_row list"
  hsMeta :: "(string \<times> string) list"
  hsFaults :: "string option list"    \<comment> \<open>of the next statements\<close>
  hsFs :: fs
  hsTick :: nat
  hsRequests :: nat
  hsErrors :: nat

record hcrawl =
  hcDest :: path
  hcScope :: url
  hcUpdate :: bool
  hcWait :: bool

text \<open>The outcomes of one turn.\<close>

record turn =
  tuCtx :: "string option"               \<comment> \<open>the context is cancelled when the loop looks\<close>
  tuWait :: "string option"              \<comment> \<open>\dots in the wait before the request\<close>
  tuAfter :: "string option"             \<comment> \<open>\dots after a failed attempt\<close>
  tuPause :: "string option"             \<comment> \<open>\dots in the wait after it\<close>
  tuDo :: "web_request \<Rightarrow> string + answer"
  tuGet :: web_get                       \<comment> \<open>the client of the Git probe, which follows redirects\<close>
  tuMkdir :: "(string \<times> nat) option"
  tuCreate :: "string option"
  tuWrite :: "string option"
  tuClose :: "string option"
  tuRename :: "string option"

type_synonym turns = "nat \<Rightarrow> turn"

datatype fetch_error = StatusError nat | LocalError string | OtherError string

fun is_local :: "fetch_error \<Rightarrow> bool" where
  "is_local (LocalError e) = True"
| "is_local _ = False"

fun error_text :: "fetch_error \<Rightarrow> string" where
  "error_text (StatusError code) = ''http '' @ itoa (int code)"
| "error_text (LocalError e) = e"
| "error_text (OtherError e) = e"

definition http_inScope :: "hcrawl \<Rightarrow> url \<Rightarrow> bool" where
  "http_inScope c u \<longleftrightarrow> Scheme u = Scheme (hcScope c) \<and> Host u = Host (hcScope c) \<and> HasPrefix (Path u) (Path (hcScope c))"

definition http_localPath :: "path \<Rightarrow> url \<Rightarrow> string + path" where
  "http_localPath destDir u =
    (let hst = Host u in
     if hst = [] \<or> hst = ''.'' \<or> hst = ''..'' \<or> ContainsAny hst [CHR ''/'', CHR 0x5C] then Inl (''unusable host '' @ Quote hst)
     else
      (let p1 = (if Path u = [] \<or> HasSuffix (Path u) ''/'' then Path u @ ''index.html'' else Path u);
           p2 = (if RawQuery u \<noteq> [] then p1 @ ''?'' @ ReplaceByte (RawQuery u) (CHR ''/'') ''%2F'' else p1);
           p = Clean (''/'' @ p2)
       in if HasSuffix p http_tmpSuffix then Inl (''path '' @ Quote (Path u) @ '' collides with temp file naming'')
          else Inr (JoinPath [destDir, hst, p])))"

subsection \<open>The database\<close>

definition db_tick :: "hstate \<Rightarrow> string option \<times> hstate" where
  "db_tick s = (case hsFaults s of [] \<Rightarrow> (None, s) | f # fs \<Rightarrow> (f, s\<lparr>hsFaults := fs\<rparr>))"

definition new_url :: "nat \<Rightarrow> string \<Rightarrow> bool \<Rightarrow> url_row" where
  "new_url i u requisite = \<lparr>urID = i, urUrl = u, urRequisite = requisite, urState = statePending, urStatus = None,
     urError = None, urEtag = None, urLastMod = None\<rparr>"

definition upsert_url :: "string \<Rightarrow> bool \<Rightarrow> url_row list \<Rightarrow> url_row list" where
  "upsert_url u requisite rows =
    (if list_ex (\<lambda>r. urUrl r = u) rows
     then map_where (\<lambda>r. urUrl r = u) (\<lambda>r. r\<lparr>urRequisite := urRequisite r \<and> requisite\<rparr>) rows
     else rows @ [new_url (fresh_id urID rows) u requisite])"

definition enqueue :: "hcrawl \<Rightarrow> url \<Rightarrow> bool \<Rightarrow> hstate \<Rightarrow> fetch_error option \<times> hstate" where
  "enqueue c u requisite s =
    (if \<not> requisite \<and> \<not> http_inScope c u then (None, s)
     else (case db_tick s of
        (Some e, s1) \<Rightarrow> (Some (OtherError e), s1)
      | (None, s1) \<Rightarrow> (None, s1\<lparr>hsRows := upsert_url (url_String u) requisite (hsRows s1)\<rparr>)))"

fun enqueue_all :: "hcrawl \<Rightarrow> (url \<times> bool) list \<Rightarrow> hstate \<Rightarrow> fetch_error option \<times> hstate" where
  "enqueue_all c [] s = (None, s)"
| "enqueue_all c ((u, requisite) # us) s =
    (case enqueue c u requisite s of (Some e, s1) \<Rightarrow> (Some e, s1) | (None, s1) \<Rightarrow> enqueue_all c us s1)"

definition update_row :: "nat \<Rightarrow> (url_row \<Rightarrow> url_row) \<Rightarrow> hstate \<Rightarrow> string option \<times> hstate" where
  "update_row i f s = (case db_tick s of
     (Some e, s1) \<Rightarrow> (Some e, s1)
   | (None, s1) \<Rightarrow> (None, s1\<lparr>hsRows := map_where (\<lambda>r. urID r = i) f (hsRows s1)\<rparr>))"

definition markDone :: "nat \<Rightarrow> nat \<Rightarrow> string \<Rightarrow> string \<Rightarrow> hstate \<Rightarrow> string option \<times> hstate" where
  "markDone i status etag lastMod = update_row i (\<lambda>r. r\<lparr>urState := stateDone, urStatus := Some status, urError := None,
     urEtag := Some etag, urLastMod := Some lastMod\<rparr>)"

definition http_setState :: "nat \<Rightarrow> string \<Rightarrow> nat \<Rightarrow> string \<Rightarrow> hstate \<Rightarrow> string option \<times> hstate" where
  "http_setState i st status msg = update_row i (\<lambda>r. r\<lparr>urState := st, urStatus := Some status, urError := Some msg\<rparr>)"

text \<open>An error of the database inside an attempt is an error like any other.\<close>

definition as_fetch :: "string option \<times> hstate \<Rightarrow> fetch_error option \<times> hstate" where
  "as_fetch r = (case r of (e, s) \<Rightarrow> (map_option OtherError e, s))"

subsection \<open>One attempt\<close>

text \<open>The body goes to a temporary file; the error, or the state with the file in place.\<close>

definition download :: "turn \<Rightarrow> answer \<Rightarrow> path \<Rightarrow> fs \<Rightarrow> fetch_error option \<times> fs" where
  "download t a localPath f =
    (case MkdirAll (tuMkdir t) (DirPath localPath) f of
       (Some e, f1) \<Rightarrow> (Some (LocalError e), f1)
     | (None, f1) \<Rightarrow>
        (let tmp = localPath @ http_tmpSuffix in
         if is_dir (node_at tmp f1) then (Some (LocalError ''is a directory''), f1)
         else (case tuCreate t of
            Some e \<Rightarrow> (Some (LocalError e), f1)
          | None \<Rightarrow>
             (case (tuWrite t, anBodyErr a, tuClose t) of
                (Some e, _, _) \<Rightarrow> (Some (OtherError e), remove_file tmp f1)
              | (None, Some e, _) \<Rightarrow> (Some (OtherError e), remove_file tmp f1)
              | (None, None, Some e) \<Rightarrow> (Some (LocalError e), remove_file tmp f1)
              | (None, None, None) \<Rightarrow> (None, put_file tmp (anBody a) f1)))))"

definition put_in_place :: "turn \<Rightarrow> answer \<Rightarrow> path \<Rightarrow> fs \<Rightarrow> fetch_error option \<times> fs" where
  "put_in_place t a localPath f =
    (let tmp = localPath @ http_tmpSuffix in
     if is_dir (node_at localPath f) then (Some (LocalError ''file exists''), remove_file tmp f)
     else (case tuRename t of
        Some e \<Rightarrow> (Some (LocalError e), remove_file tmp f)
      | None \<Rightarrow> (None, put_file localPath (anBody a) (remove_file tmp f))))"

text \<open>What is read of an answer: the links, the requisites, and whether it is a directory listing.\<close>

definition page_finds :: "html_parser \<Rightarrow> hcrawl \<Rightarrow> url \<Rightarrow> answer \<Rightarrow> url list \<times> url list \<times> bool" where
  "page_finds parse c u a =
    (let mt = MediaType (anType a) in
     if (mt = ''text/html'' \<or> mt = ''application/xhtml+xml'') \<and> http_inScope c u then extractHTML parse (anBody a) u
     else if mt = ''text/css'' then ([], extractCSS (anBody a) u, False) else ([], [], False))"

definition listed :: "url list \<Rightarrow> (url \<times> bool) list" where
  "listed links = map (\<lambda>l. (l, False)) (filter (\<lambda>l. RawQuery l = []) links)"

definition linked :: "url list \<Rightarrow> url list \<Rightarrow> (url \<times> bool) list" where
  "linked links reqs = map (\<lambda>l. (l, False)) links @ map (\<lambda>r. (r, True)) reqs"

definition enqueue_then_done :: "hcrawl \<Rightarrow> (url \<times> bool) list \<Rightarrow> nat \<Rightarrow> nat \<Rightarrow> string \<Rightarrow> string \<Rightarrow> hstate \<Rightarrow> fetch_error option \<times> hstate" where
  "enqueue_then_done c us i status etag lastMod s =
    (case enqueue_all c us s of (Some e, s1) \<Rightarrow> (Some e, s1) | (None, s1) \<Rightarrow> as_fetch (markDone i status etag lastMod s1))"

definition http_save :: "html_parser \<Rightarrow> hcrawl \<Rightarrow> turn \<Rightarrow> nat \<Rightarrow> url \<Rightarrow> answer \<Rightarrow> path \<Rightarrow> hstate \<Rightarrow> fetch_error option \<times> hstate" where
  "http_save parse c t i u a localPath s =
    (case download t a localPath (hsFs s) of
       (Some e, f1) \<Rightarrow> (Some e, s\<lparr>hsFs := f1\<rparr>)
     | (None, f1) \<Rightarrow>
        (case page_finds parse c u a of (links, reqs, listing) \<Rightarrow>
           if listing then enqueue_then_done c (listed links) i (anStatus a) [] [] (s\<lparr>hsFs := remove_file (localPath @ http_tmpSuffix) f1\<rparr>)
           else (case put_in_place t a localPath f1 of
                (Some e, f2) \<Rightarrow> (Some e, s\<lparr>hsFs := f2\<rparr>)
              | (None, f2) \<Rightarrow>
                  enqueue_then_done c (linked links reqs) i (anStatus a) (anETag a) (anLastMod a) (s\<lparr>hsFs := f2\<rparr>))))"

text \<open>The validators of the row, sent when there is a file to keep.\<close>

definition row_of :: "nat \<Rightarrow> hstate \<Rightarrow> url_row option" where
  "row_of i s = find (\<lambda>r. urID r = i) (hsRows s)"

definition opt_text :: "string option \<Rightarrow> string" where
  "opt_text v = (case v of None \<Rightarrow> [] | Some t \<Rightarrow> t)"

definition validators :: "nat \<Rightarrow> hstate \<Rightarrow> string \<times> string" where
  "validators i s = (case row_of i s of None \<Rightarrow> ([], []) | Some r \<Rightarrow> (opt_text (urEtag r), opt_text (urLastMod r)))"

definition conditional :: "url \<Rightarrow> string \<times> string \<Rightarrow> node option \<Rightarrow> web_request" where
  "conditional u v n = (let ask = (\<lambda>t. if is_file n \<and> t \<noteq> [] then Some t else None) in
     \<lparr>wrUrl = u, wrNoneMatch = ask (fst v), wrModifiedSince = ask (snd v)\<rparr>)"

definition newRequest :: "hcrawl \<Rightarrow> turn \<Rightarrow> url \<Rightarrow> hstate \<Rightarrow> string + url" where
  "newRequest c t u s =
    (if 0 < hsRequests s \<and> hcWait c \<and> tuWait t \<noteq> None then Inl (the (tuWait t)) else request_url (url_String u))"

definition handle_answer :: "html_parser \<Rightarrow> hcrawl \<Rightarrow> turn \<Rightarrow> nat \<Rightarrow> url \<Rightarrow> bool \<Rightarrow> path \<Rightarrow> web_request \<Rightarrow> string \<times> string \<Rightarrow> answer \<Rightarrow> hstate
    \<Rightarrow> fetch_error option \<times> hstate" where
  "handle_answer parse c t i u requisite localPath rq v a s =
    (let code = anStatus a in
     if code = 304 then as_fetch (markDone i code (fst v) (snd v) s)
     else if isRedirect code then
       (case Location rq a of
          Inl _ \<Rightarrow> (Some (StatusError code), s)
        | Inr loc \<Rightarrow> enqueue_then_done c [(normalize loc, requisite)] i code [] [] s)
     else if code div 100 = 2 then http_save parse c t i u a localPath s
     else if code = 408 \<or> code = 429 \<or> 500 \<le> code then (Some (OtherError (''http '' @ itoa (int code))), s)
     else (Some (StatusError code), s))"

definition http_fetch :: "html_parser \<Rightarrow> hcrawl \<Rightarrow> turn \<Rightarrow> nat \<Rightarrow> url \<Rightarrow> bool \<Rightarrow> hstate \<Rightarrow> fetch_error option \<times> hstate" where
  "http_fetch parse c t i u requisite s =
    (case http_localPath (hcDest c) u of
       Inl e \<Rightarrow> (Some (LocalError e), s)
     | Inr localPath \<Rightarrow>
        (case newRequest c t u s of
           Inl e \<Rightarrow> (Some (OtherError e), s)
         | Inr ru \<Rightarrow>
            (case db_tick s of
               (Some e, s1) \<Rightarrow> (Some (OtherError e), s1)
             | (None, s1) \<Rightarrow>
                (let v = validators i s1;
                     rq = conditional ru v (node_at localPath (hsFs s1));
                     s2 = s1\<lparr>hsRequests := Suc (hsRequests s1)\<rparr>
                 in case tuDo t rq of
                      Inl e \<Rightarrow> (Some (OtherError e), s2)
                    | Inr a \<Rightarrow> handle_answer parse c t i u requisite localPath rq v a s2))))"

subsection \<open>The loop\<close>

text \<open>\<open>process\<close> with \<open>k\<close> attempts left.\<close>

fun http_process :: "html_parser \<Rightarrow> hcrawl \<Rightarrow> turns \<Rightarrow> nat \<Rightarrow> nat \<Rightarrow> url \<Rightarrow> bool \<Rightarrow> hstate \<Rightarrow> string option \<times> hstate" where
  "http_process parse c env 0 i u requisite s = (None, s)"
| "http_process parse c env (Suc k) i u requisite s =
    (let t = env (hsTick s) in
     case http_fetch parse c t i u requisite (s\<lparr>hsTick := Suc (hsTick s)\<rparr>) of
       (None, s1) \<Rightarrow> (None, s1)
     | (Some err, s1) \<Rightarrow>
        (if tuAfter t \<noteq> None then (tuAfter t, s1)
         else (case err of
            StatusError code \<Rightarrow> http_setState i stateFailed code (error_text err) s1
          | _ \<Rightarrow>
             (if is_local err \<or> k = 0
              then http_setState i stateError 0 (error_text err) (s1\<lparr>hsErrors := Suc (hsErrors s1)\<rparr>)
              else if tuPause t \<noteq> None then (tuPause t, s1)
              else http_process parse c env k i u requisite s1))))"

definition next_pending :: "nat \<Rightarrow> url_row list \<Rightarrow> url_row option" where
  "next_pending lastID rows =
    (case sort_by (\<lambda>a b. urID a \<le> urID b) (filter (\<lambda>r. urState r = statePending \<and> lastID < urID r) rows) of
       [] \<Rightarrow> None | r # _ \<Rightarrow> Some r)"

text \<open>The body of the loop for one row.\<close>

definition http_visit :: "html_parser \<Rightarrow> hcrawl \<Rightarrow> turns \<Rightarrow> url_row \<Rightarrow> hstate \<Rightarrow> string option \<times> hstate" where
  "http_visit parse c env r s =
    (case Parse (urUrl r) of
       Inl e \<Rightarrow> (None, snd (http_setState (urID r) stateFailed 0 e s))
     | Inr u \<Rightarrow>
        (if \<not> urRequisite r \<and> \<not> http_inScope c u then (None, s)
         else http_process parse c env http_maxAttempts (urID r) u (urRequisite r) s))"

text \<open>The head of the loop: the context, and the query for the next row.\<close>

definition http_pick :: "turns \<Rightarrow> nat \<Rightarrow> hstate \<Rightarrow> (string + url_row option) \<times> hstate" where
  "http_pick env lastID s =
    (case tuCtx (env (hsTick s)) of
       Some e \<Rightarrow> (Inl e, s)
     | None \<Rightarrow> (case db_tick s of (Some e, s1) \<Rightarrow> (Inl e, s1) | (None, s1) \<Rightarrow> (Inr (next_pending lastID (hsRows s1)), s1)))"

primrec http_run :: "html_parser \<Rightarrow> hcrawl \<Rightarrow> turns \<Rightarrow> nat \<Rightarrow> nat \<Rightarrow> hstate \<Rightarrow> (string option \<times> hstate) option" where
  "http_run parse c env 0 lastID s = None"
| "http_run parse c env (Suc n) lastID s =
    (case http_pick env lastID s of
       (Inl e, s1) \<Rightarrow> Some (Some e, s1)
     | (Inr None, s1) \<Rightarrow> Some (None, s1)
     | (Inr (Some r), s1) \<Rightarrow>
        (case http_visit parse c env r s1 of
           (Some e, s2) \<Rightarrow> Some (Some e, s2)
         | (None, s2) \<Rightarrow> http_run parse c env n (urID r) s2))"

subsection \<open>Mirror\<close>

datatype resolved = ResolveError string | StartAt url | StartGit url

text \<open>\<open>resolveStart\<close> follows at most ten redirects.\<close>

primrec follow_start :: "nat \<Rightarrow> hcrawl \<Rightarrow> turns \<Rightarrow> url \<Rightarrow> hstate \<Rightarrow> (string + url) \<times> hstate" where
  "follow_start 0 c env u s = (Inr u, s)"
| "follow_start (Suc n) c env u s =
    (let t = env (hsTick s); s0 = s\<lparr>hsTick := Suc (hsTick s)\<rparr> in
     case newRequest c t u s0 of
       Inl e \<Rightarrow> (Inl e, s0)
     | Inr ru \<Rightarrow>
        (let rq = \<lparr>wrUrl = ru, wrNoneMatch = None, wrModifiedSince = None\<rparr>;
             s1 = s0\<lparr>hsRequests := Suc (hsRequests s0)\<rparr>
         in case tuDo t rq of
              Inl e \<Rightarrow> (Inl (''fetching '' @ url_String u @ '': '' @ e), s1)
            | Inr a \<Rightarrow>
               (case Location rq a of
                  Inr loc \<Rightarrow> if isRedirect (anStatus a) then follow_start n c env (normalize loc) s1 else (Inr u, s1)
                | Inl _ \<Rightarrow> (Inr u, s1))))"

definition resolveStart :: "hcrawl \<Rightarrow> turns \<Rightarrow> url \<Rightarrow> hstate \<Rightarrow> resolved \<times> hstate" where
  "resolveStart c env start s =
    (let key = ''start:'' @ url_String start in
     case db_tick s of
       (Some e, s1) \<Rightarrow> (ResolveError e, s1)
     | (None, s1) \<Rightarrow>
        (case map_of (hsMeta s1) key of
           Some v \<Rightarrow> (case Parse v of Inl e \<Rightarrow> (ResolveError e, s1) | Inr u \<Rightarrow> (StartAt u, s1))
         | None \<Rightarrow>
            (case follow_start 10 c env start s1 of
               (Inl e, s2) \<Rightarrow> (ResolveError e, s2)
             | (Inr u, s2) \<Rightarrow>
                (if git_Match (url_String u) \<or> ProbeHTTP (tuGet (env (hsTick s2))) (url_String u) then (StartGit u, s2)
                 else (case db_tick s2 of
                    (Some e, s3) \<Rightarrow> (ResolveError e, s3)
                  | (None, s3) \<Rightarrow> (StartAt u, s3\<lparr>hsMeta := AList.update key (url_String u) (hsMeta s3)\<rparr>))))))"

definition reset_rows :: "bool \<Rightarrow> url_row list \<Rightarrow> url_row list" where
  "reset_rows update rows =
    (if update then map (\<lambda>r. r\<lparr>urState := statePending\<rparr>) rows
     else map_where (\<lambda>r. urState r = stateError) (\<lambda>r. r\<lparr>urState := statePending\<rparr>) rows)"

text \<open>The run was handed to the Git backend, or ended with an error or without one.\<close>

datatype http_outcome = HandedToGit string | HttpEnded "string option"

definition http_scope :: "url \<Rightarrow> url" where
  "http_scope root = empty_url\<lparr>Scheme := Scheme root, Host := Host root, Path := dirOf (Path root)\<rparr>"

text \<open>From the open database on.\<close>

definition http_crawl :: "nat \<Rightarrow> html_parser \<Rightarrow> hcrawl \<Rightarrow> turns \<Rightarrow> url \<Rightarrow> hstate \<Rightarrow> (http_outcome \<times> hstate) option" where
  "http_crawl fuel parse c env start s =
    (case resolveStart c env start s of
       (ResolveError e, s1) \<Rightarrow> Some (HttpEnded (Some e), s1)
     | (StartGit u, s1) \<Rightarrow> Some (HandedToGit (url_String u), s1)
     | (StartAt root, s1) \<Rightarrow>
        (let c1 = c\<lparr>hcScope := http_scope root\<rparr> in
         case db_tick s1 of
           (Some e, s2) \<Rightarrow> Some (HttpEnded (Some e), s2)
         | (None, s2) \<Rightarrow>
            (case enqueue c1 root False (s2\<lparr>hsRows := reset_rows (hcUpdate c) (hsRows s2)\<rparr>) of
               (Some e, s3) \<Rightarrow> Some (HttpEnded (Some (error_text e)), s3)
             | (None, s3) \<Rightarrow>
                (case http_run parse c1 env fuel 0 s3 of
                   None \<Rightarrow> None
                 | Some (Some e, s4) \<Rightarrow> Some (HttpEnded (Some e), s4)
                 | Some (None, s4) \<Rightarrow> Some (HttpEnded
                     (if 0 < hsErrors s4 then Some (itoa (int (hsErrors s4)) @ '' URLs failed, re-run to retry them'') else None), s4)))))"

definition http_Mirror :: "nat \<Rightarrow> html_parser \<Rightarrow> turns \<Rightarrow> bool \<Rightarrow> bool \<Rightarrow> string option \<Rightarrow> string \<Rightarrow> path \<Rightarrow> hstate \<Rightarrow> (http_outcome \<times> hstate) option" where
  "http_Mirror fuel parse env update wait openErr source destDir s =
    (case Parse source of
       Inl e \<Rightarrow> Some (HttpEnded (Some (''parsing '' @ Quote source @ '': '' @ e)), s)
     | Inr u \<Rightarrow>
        (if Scheme u \<noteq> ''http'' \<and> Scheme u \<noteq> ''https''
         then Some (HttpEnded (Some (''not an http:// or https:// URL: '' @ Quote source)), s)
         else if Host u = [] then Some (HttpEnded (Some (''no host in '' @ Quote source)), s)
         else if git_Match source then Some (HandedToGit source, s)
         else
          (let dbPath = JoinPath [destDir, http_dbFileName] in
           if node_at dbPath (hsFs s) = None \<and> ProbeHTTP (tuGet (env (hsTick s))) source then Some (HandedToGit source, s)
           else (case openErr of
              Some e \<Rightarrow> Some (HttpEnded (Some e), s)
            | None \<Rightarrow>
               http_crawl fuel parse \<lparr>hcDest = destDir, hcScope = empty_url, hcUpdate = update, hcWait = wait\<rparr> env (normalize u)
                 (s\<lparr>hsFs := put_file dbPath [] (hsFs s), hsRequests := 0, hsErrors := 0\<rparr>)))))"

end
