(* ===== verification/HttpLoop.thy ===== *)
theory HttpLoop
  imports HttpMirror
begin

text \<open>
  The table of URLs under the operations of the crawl: it only grows, no row becomes pending again, and
  an attempt that reports no error has settled its row. The loop is an instance of the shared work list.
\<close>

subsection \<open>Steps on the table\<close>

abbreviation urls_ok :: "url_row list \<Rightarrow> bool" where
  "urls_ok \<equiv> table_ok urID urUrl"

definition pending_row :: "url_row \<Rightarrow> bool" where
  "pending_row r \<longleftrightarrow> urState r = statePending"

lemma settled_states [simp]: "stateDone \<noteq> statePending" "stateFailed \<noteq> statePending" "stateError \<noteq> statePending"
  "stateDone \<noteq> stateError" "stateDone \<noteq> stateFailed" "stateFailed \<noteq> stateError" "statePending \<noteq> stateError"
  by (simp_all add: url_states)

text \<open>A pending row was pending before, with the same URL and at least as needed, or is new; a row with an
  error had one before, or is counted.\<close>

definition calm :: "hstate \<Rightarrow> hstate \<Rightarrow> bool" where
  "calm s s' \<longleftrightarrow> grows urID urUrl (hsRows s) (hsRows s') \<and> hsMeta s' = hsMeta s \<and> hsErrors s \<le> hsErrors s' \<and>
     (\<forall>r' \<in> set (hsRows s'). urState r' = stateError \<longrightarrow> hsErrors s < hsErrors s' \<or> (\<exists>r0 \<in> set (hsRows s). urState r0 = stateError)) \<and>
     (\<forall>r' \<in> set (hsRows s'). pending_row r' \<longrightarrow>
        (\<exists>r0 \<in> set (hsRows s). urID r0 = urID r' \<and> pending_row r0 \<and> urUrl r0 = urUrl r' \<and> (urRequisite r' \<longrightarrow> urRequisite r0))
        \<or> (\<forall>r0 \<in> set (hsRows s). urID r0 < urID r'))"

lemma calm_refl [simp]: "calm s s"
  by (auto simp: calm_def)

lemma grows_below: "grows urID urUrl a b \<Longrightarrow> (\<forall>r0 \<in> set b. urID r0 < i) \<Longrightarrow> (\<forall>r0 \<in> set a. urID r0 < i)"
proof -
  assume "grows urID urUrl a b" and b: "\<forall>r0 \<in> set b. urID r0 < i"
  then have "set (map urID a) \<subseteq> set (map urID b)" by (intro set_mono_prefix grows_idents)
  then show ?thesis using b by fastforce
qed

lemma calm_trans: "calm s s' \<Longrightarrow> calm s' s'' \<Longrightarrow> calm s s''"
proof -
  assume 1: "calm s s'" and 2: "calm s' s''"
  have g: "grows urID urUrl (hsRows s) (hsRows s')" using 1 by (simp add: calm_def)
  show ?thesis
    unfolding calm_def
  proof (intro conjI ballI impI)
    show "grows urID urUrl (hsRows s) (hsRows s'')" using g 2 grows_trans unfolding calm_def by blast
    show "hsMeta s'' = hsMeta s" "hsErrors s \<le> hsErrors s''" using 1 2 unfolding calm_def by simp_all
    show "hsErrors s < hsErrors s'' \<or> (\<exists>r0 \<in> set (hsRows s). urState r0 = stateError)"
      if r: "r \<in> set (hsRows s'')" "urState r = stateError" for r
    proof (cases "hsErrors s' < hsErrors s''")
      case True
      then show ?thesis using 1 unfolding calm_def by linarith
    next
      case False
      then obtain r1 where "r1 \<in> set (hsRows s')" "urState r1 = stateError" using 2 r unfolding calm_def by blast
      then have "hsErrors s < hsErrors s' \<or> (\<exists>r0 \<in> set (hsRows s). urState r0 = stateError)" using 1 unfolding calm_def by blast
      then show ?thesis using 2 unfolding calm_def by linarith
    qed
    show "(\<exists>r0 \<in> set (hsRows s). urID r0 = urID r \<and> pending_row r0 \<and> urUrl r0 = urUrl r \<and> (urRequisite r \<longrightarrow> urRequisite r0))
        \<or> (\<forall>r0 \<in> set (hsRows s). urID r0 < urID r)" if r: "r \<in> set (hsRows s'')" "pending_row r" for r
    proof (cases "\<forall>r0 \<in> set (hsRows s'). urID r0 < urID r")
      case True
      then show ?thesis using grows_below [OF g] by blast
    next
      case False
      then obtain r1 where r1: "r1 \<in> set (hsRows s')" "urID r1 = urID r" "pending_row r1" "urUrl r1 = urUrl r" "urRequisite r \<longrightarrow> urRequisite r1"
        using 2 r unfolding calm_def by blast
      then have "(\<exists>r0 \<in> set (hsRows s). urID r0 = urID r1 \<and> pending_row r0 \<and> urUrl r0 = urUrl r1 \<and> (urRequisite r1 \<longrightarrow> urRequisite r0))
        \<or> (\<forall>r0 \<in> set (hsRows s). urID r0 < urID r1)" using 1 unfolding calm_def by blast
      then show ?thesis using r1 by auto
    qed
  qed
qed

lemma calm_same: "hsRows s' = hsRows s \<Longrightarrow> hsMeta s' = hsMeta s \<Longrightarrow> hsErrors s' = hsErrors s \<Longrightarrow> calm s s'"
  by (auto simp: calm_def)

lemma db_tick_simps [simp]:
  "hsRows (snd (db_tick s)) = hsRows s" "hsMeta (snd (db_tick s)) = hsMeta s" "hsFs (snd (db_tick s)) = hsFs s"
  "hsErrors (snd (db_tick s)) = hsErrors s" "hsRequests (snd (db_tick s)) = hsRequests s" "hsTick (snd (db_tick s)) = hsTick s"
  by (auto simp: db_tick_def split: list.split)

lemma db_tick_same: "db_tick s = (e, s1) \<Longrightarrow> hsRows s1 = hsRows s \<and> hsMeta s1 = hsMeta s \<and> hsFs s1 = hsFs s
    \<and> hsErrors s1 = hsErrors s \<and> hsRequests s1 = hsRequests s \<and> hsTick s1 = hsTick s"
  using db_tick_simps [of s] by simp

lemma upsert_url_grows: "grows urID urUrl rows (upsert_url u q rows)"
  unfolding upsert_url_def by (auto intro!: grows_map_where grows_insert simp: new_url_def list_ex_iff)

lemma set_upsert_url: "r \<in> set (upsert_url u q rows) \<Longrightarrow>
    (\<exists>r0 \<in> set rows. urID r0 = urID r \<and> urState r0 = urState r \<and> urUrl r0 = urUrl r \<and> (urRequisite r \<longrightarrow> urRequisite r0))
    \<or> (\<forall>r0 \<in> set rows. urID r0 < urID r)"
  by (auto simp: upsert_url_def set_map_where new_url_def fresh_id_above split: if_splits)

lemma enqueue_calm:
  assumes "enqueue c u q s = (e, s')"
  shows "calm s s'"
proof (cases "s' = s \<or> (\<exists>x. db_tick s = (x, s'))")
  case True
  then show ?thesis using db_tick_same by (auto intro: calm_same)
next
  case False
  then obtain s1 where d: "db_tick s = (None, s1)" "s' = s1\<lparr>hsRows := upsert_url (url_String u) q (hsRows s1)\<rparr>"
    using assms by (auto simp: enqueue_def split: if_splits option.splits prod.splits)
  have r: "hsRows s' = upsert_url (url_String u) q (hsRows s)" "hsMeta s' = hsMeta s" "hsErrors s' = hsErrors s"
    using d db_tick_same [OF d(1)] by simp_all
  have e: "urState r = stateError \<Longrightarrow> r \<in> set (upsert_url v q rows) \<Longrightarrow> \<exists>r0 \<in> set rows. urState r0 = stateError" for r v rows
    by (auto simp: upsert_url_def set_map_where new_url_def split: if_splits)
  show ?thesis unfolding calm_def r pending_row_def using upsert_url_grows set_upsert_url e by (metis order.refl)
qed

lemma enqueue_all_calm: "enqueue_all c us s = (e, s') \<Longrightarrow> calm s s'"
proof (induction c us s arbitrary: e s' rule: enqueue_all.induct)
  case (2 c u q us s)
  obtain e1 s1 where 1: "enqueue c u q s = (e1, s1)" by fastforce
  then have "calm s s1" by (rule enqueue_calm)
  then show ?case using 2 1 by (cases e1) (auto intro: calm_trans)
qed simp

lemma update_row_cases:
  assumes "update_row i f s = (e, s')"
  obtains "e \<noteq> None" and "hsRows s' = hsRows s" and "hsMeta s' = hsMeta s" and "hsFs s' = hsFs s" and "hsErrors s' = hsErrors s"
  | "e = None" and "hsRows s' = map_where (\<lambda>r. urID r = i) f (hsRows s)" and "hsMeta s' = hsMeta s" and "hsFs s' = hsFs s"
    and "hsErrors s' = hsErrors s"
proof -
  obtain x s1 where d: "db_tick s = (x, s1)" by fastforce
  show thesis using that assms d db_tick_same [OF d] by (cases x) (auto simp: update_row_def)
qed

lemma update_row_calm:
  assumes "update_row i f s = (e, s')" and f: "\<And>r. urID (f r) = urID r" "\<And>r. urUrl (f r) = urUrl r" "\<And>r. \<not> pending_row (f r)"
    and n: "s = s0 \<and> (\<forall>r. urState (f r) \<noteq> stateError) \<or> (\<exists>n > hsErrors s0. s = s0\<lparr>hsErrors := n\<rparr>)"
  shows "calm s0 s'" and "e = None \<Longrightarrow> r \<in> set (hsRows s') \<Longrightarrow> urID r = i \<Longrightarrow> \<not> pending_row r"
proof -
  have s: "hsRows s = hsRows s0" "hsMeta s = hsMeta s0" "hsErrors s0 \<le> hsErrors s" using n by auto
  have er: "r \<in> set (map_where (\<lambda>r. urID r = i) f (hsRows s)) \<Longrightarrow> urState r = stateError
      \<Longrightarrow> hsErrors s0 < hsErrors s \<or> (\<exists>r0 \<in> set (hsRows s). urState r0 = stateError)" for r
    using n by (auto simp: set_map_where)
  have g: "grows urID urUrl (hsRows s) (map_where (\<lambda>r. urID r = i) f (hsRows s))" by (rule grows_map_where) (simp_all add: f)
  have m: "r \<in> set (map_where (\<lambda>r. urID r = i) f (hsRows s)) \<Longrightarrow> pending_row r \<Longrightarrow> r \<in> set (hsRows s) \<and> urID r \<noteq> i" for r
    using f(3) by (auto simp: set_map_where)
  show "calm s0 s'"
  proof (rule update_row_cases [OF assms(1)])
    assume "hsRows s' = hsRows s" "hsMeta s' = hsMeta s" "hsErrors s' = hsErrors s"
    then show ?thesis using s unfolding calm_def by (auto simp: pending_row_def)
  next
    assume "hsRows s' = map_where (\<lambda>r. urID r = i) f (hsRows s)" "hsMeta s' = hsMeta s" "hsErrors s' = hsErrors s"
    then show ?thesis using s g er m unfolding calm_def by metis
  qed
  show "e = None \<Longrightarrow> r \<in> set (hsRows s') \<Longrightarrow> urID r = i \<Longrightarrow> \<not> pending_row r"
    by (rule update_row_cases [OF assms(1)]) (use m [of r] in auto)
qed

lemma markDone_calm:
  assumes "markDone i st et lm s = (e, s')"
  shows "calm s s'" and "e = None \<Longrightarrow> r \<in> set (hsRows s') \<Longrightarrow> urID r = i \<Longrightarrow> \<not> pending_row r"
  using assms update_row_calm [of i _ s e s' s] unfolding markDone_def by (auto simp: pending_row_def)

lemma setState_calm:
  assumes "http_setState i st code msg s = (e, s')" and "st \<noteq> statePending"
    and "s = s0 \<and> st \<noteq> stateError \<or> (\<exists>n > hsErrors s0. s = s0\<lparr>hsErrors := n\<rparr>)"
  shows "calm s0 s'" and "e = None \<Longrightarrow> r \<in> set (hsRows s') \<Longrightarrow> urID r = i \<Longrightarrow> \<not> pending_row r"
  using assms update_row_calm [of i _ s e s' s0] unfolding http_setState_def by (auto simp: pending_row_def)

subsection \<open>An attempt\<close>

text \<open>What an attempt of row \<open>i\<close> does: it is calm, and settles the row when it reports no error.\<close>

definition attempted :: "nat \<Rightarrow> hstate \<Rightarrow> 'e option \<times> hstate \<Rightarrow> bool" where
  "attempted i s res \<longleftrightarrow> calm s (snd res) \<and> (fst res = None \<longrightarrow> (\<forall>r \<in> set (hsRows (snd res)). urID r = i \<longrightarrow> \<not> pending_row r))"

lemma attempted_error: "calm s s' \<Longrightarrow> attempted i s (Some e, s')"
  by (simp add: attempted_def)

lemma attempted_none: "attempted i s (None :: fetch_error option, s') \<Longrightarrow> attempted i s (None :: string option, s')"
  by (simp add: attempted_def)

lemma attempted_after: "calm s s' \<Longrightarrow> attempted i s' res \<Longrightarrow> attempted i s res"
  unfolding attempted_def by (blast intro: calm_trans)

lemma attempted_mark: "attempted i s (as_fetch (markDone i st et lm s))"
  using markDone_calm by (cases "markDone i st et lm s") (auto simp: attempted_def as_fetch_def)

lemma attempted_enqueue: "attempted i s (enqueue_then_done c us i st et lm s)"
proof -
  obtain e s1 where e: "enqueue_all c us s = (e, s1)" by fastforce
  show ?thesis using enqueue_all_calm [OF e] e
    by (cases e) (auto simp: enqueue_then_done_def intro: attempted_error attempted_after [OF _ attempted_mark])
qed

lemma save_attempted: "attempted i s (http_save parse c t i u a p s)"
proof -
  have fs: "calm s (s\<lparr>hsFs := f\<rparr>)" for f by (rule calm_same) simp_all
  show ?thesis
    unfolding http_save_def
    by (auto split: prod.split option.split intro!: attempted_error fs attempted_after [OF fs attempted_enqueue])
qed

lemma answer_attempted: "attempted i s (handle_answer parse c t i u q p rq v a s)"
  unfolding handle_answer_def Let_def
  by (auto split: sum.split intro: attempted_error attempted_mark save_attempted attempted_enqueue)

lemma fetch_attempted: "attempted i s (http_fetch parse c t i u q s)"
proof -
  have "calm s (s1\<lparr>hsRequests := n\<rparr>)" "calm s s1" if "db_tick s = (e, s1)" for e s1 n
    using db_tick_same [OF that] by (auto intro: calm_same)
  then show ?thesis
    unfolding http_fetch_def Let_def
    by (auto split: sum.split prod.split option.split intro: attempted_error attempted_after [OF _ answer_attempted])
qed

lemma process_attempted: "attempted i s (http_process parse c env (Suc k) i u q s)"
proof (induction k arbitrary: s)
  have st: "attempted i s (http_setState i stateFailed code msg s)" for code msg s
    using setState_calm [of i stateFailed code msg s _ _ s] by (cases "http_setState i stateFailed code msg s") (auto simp: attempted_def)
  have er: "attempted i s (http_setState i stateError code msg (s\<lparr>hsErrors := Suc (hsErrors s)\<rparr>))" for code msg s
    using setState_calm [of i stateError code msg "s\<lparr>hsErrors := Suc (hsErrors s)\<rparr>" _ _ s]
    by (cases "http_setState i stateError code msg (s\<lparr>hsErrors := Suc (hsErrors s)\<rparr>)") (auto simp: attempted_def)
  have tick: "calm s (s\<lparr>hsTick := n\<rparr>)" for s n by (rule calm_same) simp_all
  have fet: "attempted i s (http_fetch parse c t i u q (s\<lparr>hsTick := n\<rparr>))" for t s n
    by (rule attempted_after [OF tick fetch_attempted])
  have turn: "attempted i s (case http_fetch parse c t i u q (s\<lparr>hsTick := n\<rparr>) of
       (None, s1) \<Rightarrow> (None, s1)
     | (Some err, s1) \<Rightarrow>
        (if tuAfter t \<noteq> None then (tuAfter t, s1)
         else (case err of
            StatusError code \<Rightarrow> http_setState i stateFailed code (error_text err) s1
          | _ \<Rightarrow>
             (if is_local err \<or> l
              then http_setState i stateError 0 (error_text err) (s1\<lparr>hsErrors := Suc (hsErrors s1)\<rparr>)
              else if tuPause t \<noteq> None then (tuPause t, s1)
              else rest s1))))"
    if "\<not> l \<Longrightarrow> \<forall>s1. attempted i s1 (rest s1)" for t n l rest s
  proof -
    obtain e s1 where f: "http_fetch parse c t i u q (s\<lparr>hsTick := n\<rparr>) = (e, s1)" by fastforce
    have a: "attempted i s (e, s1)" using fet [of s t n] f by metis
    then have c: "calm s s1" by (simp add: attempted_def)
    show ?thesis
    proof (cases e)
      case None
      then show ?thesis using f a by (simp add: attempted_none)
    next
      case (Some err)
      have r: "attempted i s (rest s1)" if "\<not> l" using that \<open>\<not> l \<Longrightarrow> \<forall>s1. attempted i s1 (rest s1)\<close> attempted_after [OF c] by blast
      have x: "attempted i s (x, s1)" if "x \<noteq> None" for x :: "string option" using that c attempted_error by (cases x) auto
      show ?thesis unfolding f Some
        by (cases err) (simp_all add: x r attempted_after [OF c st] attempted_after [OF c er])
    qed
  qed
  {
    case 0
    show ?case unfolding http_process.simps Let_def by (rule turn [of "0 = (0 :: nat)"]) simp
  next
    case (Suc k)
    show ?case unfolding http_process.simps(2) [of _ _ _ "Suc k"] Let_def by (rule turn [of "Suc k = 0"]) (intro allI, rule Suc.IH)
  }
qed

subsection \<open>The loop\<close>

text \<open>Rows the loop passes over: their URL does not parse, or it is a link out of scope.\<close>

definition passed_over :: "hcrawl \<Rightarrow> url_row \<Rightarrow> bool" where
  "passed_over c r = (case Parse (urUrl r) of Inl _ \<Rightarrow> True | Inr u \<Rightarrow> \<not> urRequisite r \<and> \<not> http_inScope c u)"

lemma visit_calm:
  assumes "http_visit parse c env r s = (x, s')"
  shows "calm s s'" and "x = None \<Longrightarrow> \<not> passed_over c r \<Longrightarrow> r' \<in> set (hsRows s') \<Longrightarrow> urID r' = urID r \<Longrightarrow> \<not> pending_row r'"
proof -
  have m: "http_maxAttempts = Suc 2" by (simp add: http_maxAttempts_def)
  have a: "attempted (urID r) s (http_process parse c env http_maxAttempts (urID r) u q s)" for u q
    unfolding m by (rule process_attempted)
  have f: "calm s (snd (http_setState (urID r) stateFailed 0 e s))" for e
    using setState_calm(1) [of "urID r" stateFailed 0 e s _ _ s] by (metis prod.collapse settled_states(2,6))
  have "calm s s' \<and> (x = None \<longrightarrow> \<not> passed_over c r \<longrightarrow> r' \<in> set (hsRows s') \<longrightarrow> urID r' = urID r \<longrightarrow> \<not> pending_row r')" for r'
  proof (cases "Parse (urUrl r)")
    case (Inl e)
    then show ?thesis using assms f [of e] by (auto simp: http_visit_def passed_over_def)
  next
    case (Inr u)
    show ?thesis
    proof (cases "\<not> urRequisite r \<and> \<not> http_inScope c u")
      case True
      then show ?thesis using assms Inr by (simp add: http_visit_def passed_over_def)
    next
      case False
      then show ?thesis using assms Inr a [of u "urRequisite r"] by (auto simp: http_visit_def attempted_def)
    qed
  qed
  then show "calm s s'" "x = None \<Longrightarrow> \<not> passed_over c r \<Longrightarrow> r' \<in> set (hsRows s') \<Longrightarrow> urID r' = urID r \<Longrightarrow> \<not> pending_row r'"
    by blast+
qed

lemma set_sort_pending: "sort_by le (filter P rows) = r # rs \<Longrightarrow> r \<in> set rows \<and> P r"
proof -
  assume "sort_by le (filter P rows) = r # rs"
  then have "r \<in> set (sort_by le (filter P rows))" by simp
  then show ?thesis by simp
qed

lemma next_pending_Some:
  assumes "next_pending lo rows = Some r"
  shows "r \<in> set rows \<and> pending_row r \<and> lo < urID r \<and> (\<forall>r' \<in> set rows. pending_row r' \<longrightarrow> lo < urID r' \<longrightarrow> urID r \<le> urID r')"
proof -
  let ?P = "\<lambda>r. urState r = statePending \<and> lo < urID r"
  obtain rs where s: "sort_by (\<lambda>a b. urID a \<le> urID b) (filter ?P rows) = r # rs"
    using assms by (auto simp: next_pending_def split: list.splits)
  have "total_preorder (\<lambda>a b. urID a \<le> urID b)" by (auto simp: total_preorder_def)
  then have "urID r \<le> urID r'" if "r' \<in> set (filter ?P rows)" for r' using sort_by_hd_least [OF _ s that] by blast
  then show ?thesis using set_sort_pending [OF s] by (simp add: pending_row_def)
qed

lemma next_pending_None: "next_pending lo rows = None \<Longrightarrow> r \<in> set rows \<Longrightarrow> pending_row r \<Longrightarrow> urID r \<le> lo"
  by (fastforce simp: next_pending_def pending_row_def filter_empty_conv split: list.splits)

lemma http_pick_cases:
  assumes "http_pick env lo s = (p, s1)"
  shows "hsRows s1 = hsRows s \<and> hsMeta s1 = hsMeta s \<and> hsFs s1 = hsFs s \<and> hsErrors s1 = hsErrors s \<and> hsRequests s1 = hsRequests s
    \<and> (\<forall>x. p = Inr x \<longrightarrow> x = next_pending lo (hsRows s))"
  using assms db_tick_same [of s] by (auto simp: http_pick_def split: option.splits prod.splits)

interpretation http_list: settling_worklist "http_pick env" "http_visit parse c env" "http_run parse c env" hsRows urID urUrl pending_row "passed_over c"
  for parse c env
proof unfold_locales
  show "http_run parse c env 0 lo s = None" for lo s by simp
  show "http_run parse c env (Suc n) lo s = (case http_pick env lo s of
      (Inl e, s1) \<Rightarrow> Some (Some e, s1)
    | (Inr None, s1) \<Rightarrow> Some (None, s1)
    | (Inr (Some r), s1) \<Rightarrow>
       (case http_visit parse c env r s1 of (Some e, s2) \<Rightarrow> Some (Some e, s2) | (None, s2) \<Rightarrow> http_run parse c env n (urID r) s2))" for n lo s
    by simp
  show "hsRows s1 = hsRows s" if "http_pick env lo s = (p, s1)" for lo s p s1 using http_pick_cases [OF that] by blast
  show "urID r \<le> lo" if "http_pick env lo s = (Inr None, s1)" "r \<in> set (hsRows s)" "pending_row r" for lo s s1 r
    using http_pick_cases [OF that(1)] that(2,3) next_pending_None by metis
  show "r \<in> set (hsRows s) \<and> pending_row r \<and> lo < urID r \<and> (\<forall>r' \<in> set (hsRows s). pending_row r' \<longrightarrow> lo < urID r' \<longrightarrow> urID r \<le> urID r')"
    if "http_pick env lo s = (Inr (Some r), s1)" for lo s r s1
    using http_pick_cases [OF that] by (intro next_pending_Some) simp
  show "grows urID urUrl (hsRows s) (hsRows s')" if "http_visit parse c env r s = (x, s')" for r s x s'
    using visit_calm(1) [OF that] by (simp add: calm_def)
  show "passed_over c r' \<or> (\<exists>r0 \<in> set (hsRows s). urID r0 = urID r' \<and> pending_row r0 \<and> urID r0 \<noteq> urID r \<and> (passed_over c r0 \<longrightarrow> passed_over c r'))"
    if v: "http_visit parse c env r s = (None, s')" and ok: "urls_ok (hsRows s)" and r: "r \<in> set (hsRows s)"
      and r': "r' \<in> set (hsRows s')" "pending_row r'" "urID r' \<le> urID r" for r s s' r'
  proof -
    have "\<not> (\<forall>r0 \<in> set (hsRows s). urID r0 < urID r')" using r r'(3) by (meson not_le)
    then obtain r0 where 0: "r0 \<in> set (hsRows s)" "urID r0 = urID r'" "pending_row r0" "urUrl r0 = urUrl r'" "urRequisite r' \<longrightarrow> urRequisite r0"
      using visit_calm(1) [OF v] r'(1,2) unfolding calm_def by blast
    then have p: "passed_over c r0 \<longrightarrow> passed_over c r'" by (auto simp: passed_over_def split: sum.splits)
    show ?thesis
    proof (cases "urID r0 = urID r")
      case True
      then have "r0 = r" using table_ok_ident [OF ok 0(1) r] by blast
      then show ?thesis using visit_calm(2) [OF v _ _ r'(1)] r'(2) 0(2) p by metis
    qed (use 0 p in blast)
  qed
qed

end
