(* ===== verification/HttpProps.thy ===== *)
theory HttpProps
  imports HttpLoop
begin

text \<open>
  What a run of the crawl achieves: it ends on a site with finitely many URLs, a run that ends well has
  settled every URL in its scope, and a second one asks for nothing.
\<close>

subsection \<open>Runs\<close>

abbreviation known_urls :: "hstate \<Rightarrow> string set" where
  "known_urls s \<equiv> urUrl ` set (hsRows s)"

definition scoped :: "hcrawl \<Rightarrow> url \<Rightarrow> hcrawl" where
  "scoped c root = c\<lparr>hcScope := http_scope root\<rparr>"

lemma follow_start_same:
  "follow_start n c env u s = (r, s') \<Longrightarrow> hsRows s' = hsRows s \<and> hsMeta s' = hsMeta s \<and> hsFs s' = hsFs s \<and> hsErrors s' = hsErrors s
    \<and> hsFaults s' = hsFaults s"
proof (induction n arbitrary: u s)
  case (Suc n)
  from Suc.prems show ?case
    by (auto simp: Let_def dest!: Suc.IH split: sum.splits if_splits)
qed simp

lemma resolveStart_same:
  assumes "resolveStart c env start s = (r, s')"
  shows "hsRows s' = hsRows s \<and> hsFs s' = hsFs s \<and> hsErrors s' = hsErrors s"
  using assms
  by (auto simp: resolveStart_def Let_def split: option.splits sum.splits prod.splits if_splits dest!: db_tick_same follow_start_same)

lemma crawl_ended:
  assumes "http_crawl fuel parse c env start s = Some (HttpEnded None, s')"
  obtains root s1 s2 s3 where "resolveStart c env start s = (StartAt root, s1)" and "db_tick s1 = (None, s2)"
    and "enqueue (scoped c root) root False (s2\<lparr>hsRows := reset_rows (hcUpdate c) (hsRows s2)\<rparr>) = (None, s3)"
    and "http_run parse (scoped c root) env fuel 0 s3 = Some (None, s')" and "hsErrors s' = 0"
  using assms unfolding http_crawl_def Let_def scoped_def
  by (auto split: prod.splits resolved.splits option.splits if_splits)

lemma reset_rows_keys: "map (\<lambda>r. (urID r, urUrl r)) (reset_rows b rows) = map (\<lambda>r. (urID r, urUrl r)) rows"
  by (simp add: reset_rows_def map_where_def)

lemma reset_rows_urls: "urUrl ` set (reset_rows b rows) = urUrl ` set rows"
proof -
  have "map snd (map (\<lambda>r. (urID r, urUrl r)) (reset_rows b rows)) = map snd (map (\<lambda>r. (urID r, urUrl r)) rows)"
    by (simp only: reset_rows_keys)
  then show ?thesis by (simp add: o_def) (metis set_map)
qed

lemma reset_rows_no_error: "r \<in> set (reset_rows b rows) \<Longrightarrow> urState r \<noteq> stateError"
  by (auto simp: reset_rows_def set_map_where split: if_splits)

lemma upsert_url_urls: "urUrl ` set (upsert_url u q rows) = insert u (urUrl ` set rows)"
proof -
  have "urUrl ` set (map_where P (\<lambda>r. r\<lparr>urRequisite := urRequisite r \<and> q\<rparr>) rows) = urUrl ` set rows" for P
    by (rule image_map_where) simp
  then show ?thesis by (auto simp: upsert_url_def new_url_def list_ex_iff)
qed

text \<open>What is known after an URL was enqueued.\<close>

lemma enqueue_urls:
  assumes "enqueue c u q s = (e, s')"
  shows "known_urls s' \<subseteq> insert (url_String u) (known_urls s)"
    and "\<not> (q \<or> http_inScope c u) \<Longrightarrow> known_urls s' = known_urls s"
    and "e = None \<Longrightarrow> q \<or> http_inScope c u \<Longrightarrow> url_String u \<in> known_urls s'"
proof -
  obtain x s1 where d: "db_tick s = (x, s1)" by fastforce
  note t = db_tick_same [OF d]
  have k: "known_urls s' = (if (q \<or> http_inScope c u) \<and> e = None then insert (url_String u) (known_urls s) else known_urls s)"
  proof (cases "q \<or> http_inScope c u")
    case True
    show ?thesis
    proof (cases x)
      case None
      then have "e = None" "hsRows s' = upsert_url (url_String u) q (hsRows s)" using assms True d t by (auto simp: enqueue_def)
      then show ?thesis using True by (simp add: upsert_url_urls)
    next
      case (Some y)
      then have "e \<noteq> None" "hsRows s' = hsRows s" using assms True d t by (auto simp: enqueue_def)
      then show ?thesis by auto
    qed
  next
    case False
    then show ?thesis using assms by (simp add: enqueue_def)
  qed
  show "known_urls s' \<subseteq> insert (url_String u) (known_urls s)" using k by auto
  show "\<not> (q \<or> http_inScope c u) \<Longrightarrow> known_urls s' = known_urls s" using k by auto
  show "e = None \<Longrightarrow> q \<or> http_inScope c u \<Longrightarrow> url_String u \<in> known_urls s'" using k by simp
qed

lemma grows_names: "grows ident name a b \<Longrightarrow> name ` set a \<subseteq> name ` set b"
proof -
  assume "grows ident name a b"
  then have "prefix (map (\<lambda>r. (ident r, name r)) a) (map (\<lambda>r. (ident r, name r)) b)" by (simp add: grows_def)
  then have "set (map (\<lambda>r. (ident r, name r)) a) \<subseteq> set (map (\<lambda>r. (ident r, name r)) b)" by (rule set_mono_prefix)
  then show ?thesis by auto
qed

lemma run_counts_errors:
  assumes "http_run parse c env n lo s = Some (x, s')" and "hsErrors s' = 0" and "\<forall>r \<in> set (hsRows s). urState r \<noteq> stateError"
  shows "\<forall>r \<in> set (hsRows s'). urState r \<noteq> stateError"
proof -
  let ?I = "\<lambda>s. hsErrors s = 0 \<longrightarrow> (\<forall>r \<in> set (hsRows s). urState r \<noteq> stateError)"
  have "?I s'"
  proof (rule http_list.loop_keeps [OF assms(1), where I = ?I])
    show "?I s" using assms(3) by simp
    show "?I s1" if "?I s" "http_pick env lo s = (p, s1)" for lo s p s1
      using that(1) http_pick_cases [OF that(2)] by simp
    show "?I s1" if "?I s" "http_visit parse c env r s = (x, s1)" for r s x s1
      using that(1) visit_calm(1) [OF that(2)] unfolding calm_def by auto
  qed
  then show ?thesis using assms(2) by simp
qed

lemma settled_run:
  assumes "http_crawl fuel parse c env start s = Some (HttpEnded None, s')" and "urls_ok (hsRows s)"
  shows "\<exists>root. fst (resolveStart c env start s) = StartAt root \<and> urls_ok (hsRows s') \<and> known_urls s \<subseteq> known_urls s'
    \<and> (http_inScope (scoped c root) root \<longrightarrow> url_String root \<in> known_urls s')
    \<and> (\<forall>r \<in> set (hsRows s'). urState r \<noteq> stateError \<and> (pending_row r \<longrightarrow> passed_over (scoped c root) r))"
proof -
  obtain root s1 s2 s3 where r: "resolveStart c env start s = (StartAt root, s1)" and d: "db_tick s1 = (None, s2)"
    and e: "enqueue (scoped c root) root False (s2\<lparr>hsRows := reset_rows (hcUpdate c) (hsRows s2)\<rparr>) = (None, s3)"
    and l: "http_run parse (scoped c root) env fuel 0 s3 = Some (None, s')" and z: "hsErrors s' = 0"
    by (rule crawl_ended [OF assms(1)])
  let ?s2 = "s2\<lparr>hsRows := reset_rows (hcUpdate c) (hsRows s2)\<rparr>"
  have rows: "hsRows s2 = hsRows s" using resolveStart_same [OF r] db_tick_same [OF d] by simp
  have g2: "grows urID urUrl (hsRows s) (hsRows ?s2)" using rows by (simp add: same_keys_grows reset_rows_keys)
  have c3: "calm ?s2 s3" by (rule enqueue_calm [OF e])
  have g: "grows urID urUrl (hsRows s3) (hsRows s')" by (rule http_list.loop_grows [OF l])
  have g3: "grows urID urUrl (hsRows ?s2) (hsRows s3)" using c3 by (simp add: calm_def)
  note ok3 = grows_ok [OF g3 grows_ok [OF g2 assms(2)]]
  have "\<forall>r \<in> set (hsRows s'). pending_row r \<longrightarrow> passed_over (scoped c root) r"
    by (rule http_list.loop_settles [OF l ok3]) (use ok3 in \<open>auto simp: table_ok_def\<close>)
  moreover have "\<forall>r \<in> set (hsRows s'). urState r \<noteq> stateError"
  proof (rule run_counts_errors [OF l z])
    have "hsErrors s3 = hsErrors ?s2" using e by (auto simp: enqueue_def dest!: db_tick_same split: if_splits option.splits prod.splits)
    then show "\<forall>r \<in> set (hsRows s3). urState r \<noteq> stateError"
      using c3 reset_rows_no_error unfolding calm_def by fastforce
  qed
  moreover have "known_urls s \<subseteq> known_urls s'" using grows_names [OF g2] grows_names [OF g3] grows_names [OF g] by blast
  moreover have "http_inScope (scoped c root) root \<longrightarrow> url_String root \<in> known_urls s'"
    using enqueue_urls(3) [OF e] grows_names [OF g] by blast
  ultimately show ?thesis using r grows_ok [OF g ok3] by auto
qed

text \<open>C22: A run that reports no error has settled everything: of all the URLs ever found, no row is left with an
  error, and none is pending but those the run passes over (a link outside the scope that was left by
  another run, or a text that is no URL); the start URL is among them, and the table is well formed.\<close>

theorem http_settles:
  assumes "http_crawl fuel parse c env start s = Some (HttpEnded None, s')" and "urls_ok (hsRows s)"
  shows "\<exists>root. fst (resolveStart c env start s) = StartAt root \<and> urls_ok (hsRows s') \<and> known_urls s \<subseteq> known_urls s'
    \<and> (http_inScope (scoped c root) root \<longrightarrow> url_String root \<in> known_urls s')
    \<and> (\<forall>r \<in> set (hsRows s'). urState r \<noteq> stateError \<and> (pending_row r \<longrightarrow> passed_over (scoped c root) r))"
  by (rule settled_run [OF assms])

subsection \<open>A second run\<close>

text \<open>Visiting a row that is passed over asks for nothing.\<close>

lemma passed_cases:
  assumes "http_visit parse c env r s = (x, s')" and "passed_over c r"
  obtains "x = None" and "s' = s" | e msg where "x = None" and "http_setState (urID r) stateFailed 0 msg s = (e, s')"
proof (cases "Parse (urUrl r)")
  case (Inl msg)
  obtain e s2 where "http_setState (urID r) stateFailed 0 msg s = (e, s2)" by fastforce
  then show ?thesis using that(2) assms(1) Inl by (auto simp: http_visit_def)
next
  case (Inr u)
  then show ?thesis using that(1) assms by (auto simp: http_visit_def passed_over_def)
qed

lemma passed_visit:
  assumes "http_visit parse c env r s = (x, s')" and "passed_over c r"
  shows "x = None \<and> hsRequests s' = hsRequests s \<and> hsFs s' = hsFs s \<and> hsErrors s' = hsErrors s"
proof -
  have st: "hsRequests s2 = hsRequests s \<and> hsFs s2 = hsFs s \<and> hsErrors s2 = hsErrors s"
    if "http_setState i st code msg s = (e, s2)" for i st code msg e s2
    using that by (auto simp: http_setState_def update_row_def split: prod.splits option.splits dest!: db_tick_same)
  show ?thesis by (rule passed_cases [OF assms]) (use st in auto)
qed

lemma db_tick_quiet: "hsFaults s = [] \<Longrightarrow> db_tick s = (None, s)"
  by (simp add: db_tick_def)

text \<open>No statement fails: the list of faults is used up.\<close>

lemma quiet_visit:
  assumes "http_visit parse c env r s = (x, s')" and "passed_over c r" and "hsFaults s = []"
  shows "hsFaults s' = [] \<and> known_urls s' = known_urls s \<and> (\<forall>r' \<in> set (hsRows s'). pending_row r' \<longrightarrow> r' \<in> set (hsRows s))"
proof -
  have st: "hsFaults s2 = [] \<and> known_urls s2 = known_urls s \<and> (\<forall>r' \<in> set (hsRows s2). pending_row r' \<longrightarrow> r' \<in> set (hsRows s))"
    if h: "http_setState i stateFailed code msg s = (e, s2)" for i code msg e s2
  proof -
    have s2: "s2 = s\<lparr>hsRows := map_where (\<lambda>r. urID r = i) (\<lambda>r. r\<lparr>urState := stateFailed, urStatus := Some code, urError := Some msg\<rparr>) (hsRows s)\<rparr>"
      using h db_tick_quiet [OF assms(3)] by (simp add: http_setState_def update_row_def)
    have "urUrl ` set (map_where P (\<lambda>r. r\<lparr>urState := stateFailed, urStatus := Some code, urError := Some msg\<rparr>) rows) = urUrl ` set rows" for P rows
      by (rule image_map_where) simp
    then have "known_urls s2 = known_urls s" by (simp add: s2)
    moreover have "\<forall>r' \<in> set (hsRows s2). pending_row r' \<longrightarrow> r' \<in> set (hsRows s)" by (auto simp: s2 set_map_where pending_row_def)
    ultimately show ?thesis using assms(3) by (simp add: s2)
  qed
  show ?thesis by (rule passed_cases [OF assms(1,2)]) (use assms(3) in simp, use st in blast)
qed

definition start_key :: "url \<Rightarrow> string" where
  "start_key start = ''start:'' @ url_String start"

text \<open>Once a run has ended well, the next one without \<open>-update\<close> makes no request at all and leaves every file as
  it is, whatever the network would have answered.\<close>

theorem http_rerun:
  assumes "http_crawl fuel parse c env start s = Some (HttpEnded None, s')" and "urls_ok (hsRows s)"
    and "map_of (hsMeta s') (start_key start) = Some v" and "Parse v = Inr root" and "fst (resolveStart c env start s) = StartAt root"
    and "http_inScope (scoped c root) root" and "hsFaults s' = []" and "\<And>t. tuCtx (env' t) = None"
  shows "\<exists>s''. http_crawl (Suc (length (hsRows s'))) parse (c\<lparr>hcUpdate := False\<rparr>) env' start (s'\<lparr>hsRequests := 0, hsErrors := 0\<rparr>)
      = Some (HttpEnded None, s'') \<and> hsRequests s'' = 0 \<and> hsFs s'' = hsFs s'"
proof -
  let ?c = "scoped c root" and ?u = "c\<lparr>hcUpdate := False\<rparr>" and ?s = "s'\<lparr>hsRequests := 0, hsErrors := 0\<rparr>"
  let ?c1 = "scoped ?u root"
  have ok: "urls_ok (hsRows s')" and root: "url_String root \<in> known_urls s'"
    and calm_rows: "\<forall>r \<in> set (hsRows s'). urState r \<noteq> stateError \<and> (pending_row r \<longrightarrow> passed_over ?c r)"
    using settled_run [OF assms(1,2)] assms(5,6) by auto
  have same: "passed_over ?c1 r = passed_over ?c r" "http_inScope ?c1 u = http_inScope ?c u" for r u
    by (simp_all add: passed_over_def scoped_def http_inScope_def split: sum.split)
  have res: "resolveStart ?u env' start ?s = (StartAt root, ?s)"
    using assms(3,4,7) by (simp add: resolveStart_def Let_def db_tick_quiet start_key_def)
  have rst: "reset_rows False (hsRows s') = hsRows s'"
    using calm_rows by (simp add: reset_rows_def map_where_id)
  obtain r where r: "r \<in> set (hsRows s')" "urUrl r = url_String root" using root by auto
  define s3 where "s3 = ?s\<lparr>hsRows := upsert_url (url_String root) False (hsRows s')\<rparr>"
  have e: "enqueue ?c1 root False (?s\<lparr>hsRows := reset_rows (hcUpdate ?u) (hsRows s')\<rparr>) = (None, s3)"
    using assms(6,7) by (simp add: enqueue_def db_tick_def rst s3_def same)
  have k3: "hsFaults s3 = []" "hsRequests s3 = 0" "hsErrors s3 = 0" "hsFs s3 = hsFs s'" using assms(7) by (simp_all add: s3_def)
  have g3: "grows urID urUrl (hsRows s') (hsRows s3)" by (simp add: s3_def upsert_url_grows)
  have u3: "known_urls s3 = known_urls s'" using root by (auto simp: s3_def upsert_url_urls)
  have p3: "\<forall>r \<in> set (hsRows s3). pending_row r \<longrightarrow> passed_over ?c1 r"
  proof (intro ballI impI)
    fix x assume x: "x \<in> set (hsRows s3)" "pending_row x"
    then obtain r0 where "r0 \<in> set (hsRows s')" "urState r0 = urState x" "urUrl r0 = urUrl x" "urRequisite x \<longrightarrow> urRequisite r0"
      using r by (auto simp: s3_def upsert_url_def set_map_where list_ex_iff split: if_splits)
    moreover from this have "passed_over ?c r0" using calm_rows x(2) by (simp add: pending_row_def)
    ultimately show "passed_over ?c1 x" by (auto simp: same passed_over_def split: sum.splits)
  qed
  let ?I = "\<lambda>t. hsFaults t = [] \<and> hsRequests t = 0 \<and> hsErrors t = 0 \<and> hsFs t = hsFs s' \<and> known_urls t = known_urls s'
      \<and> (\<forall>r \<in> set (hsRows t). pending_row r \<longrightarrow> passed_over ?c1 r)"
  have I3: "?I s3" using k3 u3 p3 by simp
  have pick: "?I t1 \<and> (\<forall>e. p \<noteq> Inl e)" if "?I t" "http_pick env' lo t = (p, t1)" for lo t p t1
    using that assms(8) by (auto simp: http_pick_def db_tick_quiet)
  have visit: "?I t1 \<and> x = None" if t: "?I t" "pending_row r" "r \<in> set (hsRows t)" "http_visit parse ?c1 env' r t = (x, t1)" for r t x t1
    using passed_visit [OF t(4)] quiet_visit [OF t(4)] t(1-3) by metis
  have "card (known_urls s') = length (hsRows s')"
    using ok by (metis table_ok_def distinct_card length_map set_map)
  then have enough: "card (known_urls s') < Suc (length (hsRows s')) + length (filter (\<lambda>i. i \<le> 0) (map urID (hsRows s3)))" by simp
  have "http_run parse ?c1 env' (Suc (length (hsRows s'))) 0 s3 \<noteq> None"
  proof (rule http_list.loop_ends [where U = "known_urls s'" and I = ?I, OF _ I3 grows_ok [OF g3 ok] _ _ _ enough])
    show "finite (known_urls s')" by simp
    show "known_urls t \<subseteq> known_urls s'" if "?I t" for t using that by simp
    show "?I t1" if "?I t" "http_pick env' lo t = (p, t1)" for lo t p t1 using pick [OF that] by blast
    show "?I t1" if "?I t" "r \<in> set (hsRows t)" "pending_row r" "http_visit parse ?c1 env' r t = (x, t1)" for r t x t1
      using visit [OF that(1,3,2,4)] by blast
  qed
  then obtain x s'' where l: "http_run parse ?c1 env' (Suc (length (hsRows s'))) 0 s3 = Some (x, s'')" by fast
  have x: "x = None"
  proof (rule http_list.loop_no_error [OF l, where I = ?I, OF I3])
    show "?I t1 \<and> (\<forall>e. p \<noteq> Inl e)" if "?I t" "http_pick env' lo t = (p, t1)" for lo t p t1 using pick [OF that] .
    show "?I t1 \<and> x = None" if "?I t" "r \<in> set (hsRows t)" "pending_row r" "http_visit parse ?c1 env' r t = (x, t1)" for r t x t1
      using visit [OF that(1,3,2,4)] .
  qed
  have i: "?I s''"
  proof (rule http_list.loop_keeps [OF l, where I = ?I, OF I3])
    show "?I t1" if "?I t" "http_pick env' lo t = (p, t1)" for lo t p t1 using pick [OF that] by blast
    show "?I t1" if "?I t" "r \<in> set (hsRows t)" "pending_row r" "http_visit parse ?c1 env' r t = (x, t1)" for r t x t1
      using visit [OF that(1,3,2,4)] by blast
  qed
  have "http_crawl (Suc (length (hsRows s'))) parse ?u env' start ?s = Some (HttpEnded None, s'')"
    using res e l x i assms(7) unfolding scoped_def
    by (simp add: http_crawl_def db_tick_quiet del: http_run.simps)
  then show ?thesis using i by blast
qed

end
