(* ===== verification/HttpFetch.thy ===== *)
theory HttpFetch
  imports HttpProps
begin

text \<open>
  A run ends on a site with finitely many URLs; what one attempt that reports no error has done; and what the
  crawl writes.
\<close>

subsection \<open>Termination\<close>

text \<open>Every URL the answers lead to, from a known one, is in the set.\<close>

definition offers_within :: "html_parser \<Rightarrow> hcrawl \<Rightarrow> turns \<Rightarrow> string set \<Rightarrow> bool" where
  "offers_within parse c env U \<longleftrightarrow>
    (\<forall>t rq a. tuDo (env t) rq = Inr a \<longrightarrow>
       (\<forall>l. Location rq a = Inr l \<longrightarrow> url_String (normalize l) \<in> U)
       \<and> (\<forall>x u ls rs li. x \<in> U \<longrightarrow> Parse x = Inr u \<longrightarrow> page_finds parse c u a = (ls, rs, li) \<longrightarrow>
            (\<forall>l \<in> set ls. http_inScope c l \<longrightarrow> url_String l \<in> U) \<and> (\<forall>r \<in> set rs. url_String r \<in> U)))"

lemma update_row_urls:
  assumes "update_row i f s = (e, s')" and "\<And>r. urUrl (f r) = urUrl r"
  shows "known_urls s' = known_urls s"
  by (rule update_row_cases [OF assms(1)]) (simp_all add: image_map_where assms(2))

lemma mark_urls: "known_urls (snd (markDone i st et lm s)) = known_urls s" "known_urls (snd (http_setState i x st m s)) = known_urls s"
proof -
  have "known_urls (snd (update_row i f s)) = known_urls s" if "\<And>r. urUrl (f r) = urUrl r" for f
    by (rule update_row_urls [OF prod.collapse [symmetric] that])
  then show "known_urls (snd (markDone i st et lm s)) = known_urls s" "known_urls (snd (http_setState i x st m s)) = known_urls s"
    unfolding markDone_def http_setState_def by simp_all
qed

lemma enqueue_all_urls:
  "enqueue_all c us s = (e, s') \<Longrightarrow> known_urls s \<subseteq> U \<Longrightarrow> (\<And>u q. (u, q) \<in> set us \<Longrightarrow> q \<or> http_inScope c u \<Longrightarrow> url_String u \<in> U)
    \<Longrightarrow> known_urls s' \<subseteq> U"
proof (induction us arbitrary: s)
  case (Cons x us)
  obtain u q where x: "x = (u, q)" by fastforce
  obtain e1 s1 where 1: "enqueue c u q s = (e1, s1)" by fastforce
  have k: "known_urls s1 \<subseteq> U"
    using enqueue_urls(1,2) [OF 1] Cons.prems(2) Cons.prems(3) [of u q] x
    by (cases "q \<or> http_inScope c u") (meson insert_subset list.set_intros(1) order_trans, simp)
  show ?case
  proof (cases e1)
    case None
    then have "enqueue_all c us s1 = (e, s')" using Cons.prems(1) 1 x by simp
    then show ?thesis by (rule Cons.IH [OF _ k]) (use Cons.prems(3) in \<open>meson list.set_intros(2)\<close>)
  next
    case (Some y)
    then show ?thesis using Cons.prems(1) 1 x k by simp
  qed
qed simp

lemma enqueue_done_urls:
  assumes "known_urls s \<subseteq> U" and "\<And>u q. (u, q) \<in> set us \<Longrightarrow> q \<or> http_inScope c u \<Longrightarrow> url_String u \<in> U"
  shows "known_urls (snd (enqueue_then_done c us i st et lm s)) \<subseteq> U"
proof -
  obtain e s1 where e: "enqueue_all c us s = (e, s1)" by fastforce
  have "known_urls s1 \<subseteq> U" by (rule enqueue_all_urls [OF e assms])
  then show ?thesis using e mark_urls(1) [of i st et lm s1]
    by (cases e) (simp_all add: enqueue_then_done_def as_fetch_def case_prod_beta)
qed

lemma save_urls:
  assumes "known_urls s \<subseteq> U" and "\<And>ls rs li. page_finds parse c u a = (ls, rs, li) \<Longrightarrow>
      (\<forall>l \<in> set ls. http_inScope c l \<longrightarrow> url_String l \<in> U) \<and> (\<forall>r \<in> set rs. url_String r \<in> U)"
  shows "known_urls (snd (http_save parse c t i u a p s)) \<subseteq> U"
proof -
  obtain ls rs li where f: "page_finds parse c u a = (ls, rs, li)" by (metis prod_cases3)
  have "known_urls (snd (enqueue_then_done c (listed ls) i st et lm (s\<lparr>hsFs := f'\<rparr>))) \<subseteq> U"
    "known_urls (snd (enqueue_then_done c (linked ls rs) i st et lm (s\<lparr>hsFs := f'\<rparr>))) \<subseteq> U" for st et lm f'
    by (rule enqueue_done_urls; use assms(1) assms(2) [OF f] in \<open>auto simp: listed_def linked_def\<close>)+
  then show ?thesis using assms(1) by (auto simp: http_save_def f split: prod.split option.split)
qed

lemma fetch_urls:
  assumes "offers_within parse c env U" and "x \<in> U" and "Parse x = Inr u" and "known_urls s \<subseteq> U"
  shows "known_urls (snd (http_fetch parse c (env t) i u q s)) \<subseteq> U"
proof -
  have "known_urls (snd (handle_answer parse c (env t) i u q p rq v a s2)) \<subseteq> U"
    if a: "tuDo (env t) rq = Inr a" and s2: "known_urls s2 \<subseteq> U" for p rq v a s2
  proof -
    have "known_urls (snd (http_save parse c (env t) i u a p s2)) \<subseteq> U"
      by (rule save_urls [OF s2]) (use assms(1-3) a in \<open>unfold offers_within_def, blast\<close>)
    moreover have "known_urls (snd (enqueue_then_done c [(normalize l, q)] i st et lm s2)) \<subseteq> U" if "Location rq a = Inr l" for l st et lm
      by (rule enqueue_done_urls [OF s2]) (use assms(1) a that in \<open>unfold offers_within_def, auto\<close>)
    moreover have "known_urls (snd (as_fetch (markDone i st et lm s2))) \<subseteq> U" for st et lm
      using mark_urls(1) [of i st et lm s2] s2 by (simp add: as_fetch_def case_prod_beta)
    ultimately show ?thesis using s2 by (simp add: handle_answer_def Let_def split: sum.split)
  qed
  moreover have "known_urls (s1\<lparr>hsRequests := n\<rparr>) \<subseteq> U" "known_urls s1 \<subseteq> U" if "db_tick s = (e, s1)" for e s1 n
    using db_tick_same [OF that] assms(4) by simp_all
  ultimately show ?thesis using assms(4)
    by (auto simp: http_fetch_def Let_def split: sum.split prod.split option.split)
qed

lemma process_urls:
  assumes "offers_within parse c env U" and "x \<in> U" and "Parse x = Inr u"
  shows "known_urls s \<subseteq> U \<Longrightarrow> known_urls (snd (http_process parse c env k i u q s)) \<subseteq> U"
proof (induction k arbitrary: s)
  case (Suc k)
  obtain e s1 where f: "http_fetch parse c (env (hsTick s)) i u q (s\<lparr>hsTick := Suc (hsTick s)\<rparr>) = (e, s1)" by fastforce
  have 1: "known_urls s1 \<subseteq> U"
    using fetch_urls [OF assms, of "s\<lparr>hsTick := Suc (hsTick s)\<rparr>" "hsTick s" i q] Suc.prems f by simp
  then have "known_urls (snd (http_setState i st code m s1)) \<subseteq> U" "known_urls (snd (http_setState i st code m (s1\<lparr>hsErrors := n\<rparr>))) \<subseteq> U"
    for st code m n using mark_urls(2) by (metis, metis hstate.select_convs(1) hstate.surjective hstate.update_convs(7))
  then show ?case using f 1 Suc.IH [OF 1]
    by (cases e) (auto simp: Let_def split: fetch_error.split)
qed simp

lemma visit_urls:
  assumes "offers_within parse c env U" and "known_urls s \<subseteq> U" and "r \<in> set (hsRows s)" and "http_visit parse c env r s = (x, s')"
  shows "known_urls s' \<subseteq> U"
proof (cases "Parse (urUrl r)")
  case (Inl e)
  then have "s' = snd (http_setState (urID r) stateFailed 0 e s)" using assms(4) by (simp add: http_visit_def)
  then show ?thesis using assms(2) mark_urls(2) by simp
next
  case (Inr u)
  have "urUrl r \<in> U" using assms(2,3) by auto
  from process_urls [OF assms(1) this Inr assms(2), of http_maxAttempts "urID r" "urRequisite r"]
  show ?thesis using assms(2,4) Inr by (cases "\<not> urRequisite r \<and> \<not> http_inScope c u") (simp_all add: http_visit_def)
qed

lemma follow_start_within:
  "follow_start n c env u s = (Inr v, s') \<Longrightarrow> url_String u \<in> U
    \<Longrightarrow> (\<And>t rq a l. tuDo (env t) rq = Inr a \<Longrightarrow> Location rq a = Inr l \<Longrightarrow> url_String (normalize l) \<in> U) \<Longrightarrow> url_String v \<in> U"
proof (induction n arbitrary: u s)
  case (Suc n)
  then show ?case by (auto simp: Let_def split: sum.splits if_splits)
qed auto

text \<open>C23: On a site where all answers together lead to finitely many URLs, the run ends, after one turn of its loop for each of
  them, whatever fails on the way.\<close>

theorem http_terminates:
  assumes "finite U" and "known_urls s \<subseteq> U" and "url_String start \<in> U" and "urls_ok (hsRows s)"
    and "\<And>k v u. map_of (hsMeta s) k = Some v \<Longrightarrow> Parse v = Inr u \<Longrightarrow> url_String u \<in> U"
    and "\<And>root. offers_within parse (scoped c root) env U"
  shows "\<exists>res. http_crawl (Suc (card U)) parse c env start s = Some res"
proof -
  have loc: "url_String (normalize l) \<in> U" if "tuDo (env t) rq = Inr a" "Location rq a = Inr l" for t rq a l
    using assms(6) that unfolding offers_within_def by blast
  have root: "url_String root \<in> U" if "resolveStart c env start s = (StartAt root, s1)" for root s1
    using that assms(3,5) follow_start_within [OF _ _ loc]
    by (auto simp: resolveStart_def Let_def split: prod.splits option.splits sum.splits if_splits dest!: db_tick_same)
  have run: "http_run parse (scoped c root) env (Suc (card U)) 0 s3 \<noteq> None"
    if r: "resolveStart c env start s = (StartAt root, s1)" and d: "db_tick s1 = (None, s2)"
      and e: "enqueue (scoped c root) root False (s2\<lparr>hsRows := reset_rows (hcUpdate c) (hsRows s2)\<rparr>) = (None, s3)" for root s1 s2 s3
  proof -
    let ?s2 = "s2\<lparr>hsRows := reset_rows (hcUpdate c) (hsRows s2)\<rparr>"
    have rows: "hsRows s2 = hsRows s" using resolveStart_same [OF r] db_tick_same [OF d] by simp
    have "grows urID urUrl (hsRows s) (hsRows ?s2)" using rows by (simp add: same_keys_grows reset_rows_keys)
    moreover have "grows urID urUrl (hsRows ?s2) (hsRows s3)" using enqueue_calm [OF e] by (simp add: calm_def)
    ultimately have ok: "urls_ok (hsRows s3)" using grows_ok assms(4) by blast
    have "known_urls ?s2 \<subseteq> U" using rows assms(2) reset_rows_urls by simp
    then have k: "known_urls s3 \<subseteq> U" using enqueue_urls(1) [OF e] root [OF r] by (meson insert_subset order_trans)
    show ?thesis
    proof (rule http_list.loop_ends [where U = U and I = "\<lambda>s. known_urls s \<subseteq> U", OF assms(1) k ok])
      show "known_urls t1 \<subseteq> U" if "known_urls t \<subseteq> U" "http_pick env lo t = (p, t1)" for lo t p t1
        using that(1) http_pick_cases [OF that(2)] by simp
      show "known_urls t1 \<subseteq> U" if "known_urls t \<subseteq> U" "r \<in> set (hsRows t)" "http_visit parse (scoped c root) env r t = (x, t1)" for r t x t1
        by (rule visit_urls [OF assms(6) that])
    qed simp_all
  qed
  show ?thesis
  proof (cases "\<exists>root s1 s2 s3. resolveStart c env start s = (StartAt root, s1) \<and> db_tick s1 = (None, s2)
      \<and> enqueue (scoped c root) root False (s2\<lparr>hsRows := reset_rows (hcUpdate c) (hsRows s2)\<rparr>) = (None, s3)")
    case True
    then obtain root s1 s2 s3 where t: "resolveStart c env start s = (StartAt root, s1)" "db_tick s1 = (None, s2)"
      "enqueue (scoped c root) root False (s2\<lparr>hsRows := reset_rows (hcUpdate c) (hsRows s2)\<rparr>) = (None, s3)" by blast
    then obtain x s4 where "http_run parse (scoped c root) env (Suc (card U)) 0 s3 = Some (x, s4)" using run [OF t] by fast
    then show ?thesis using t unfolding scoped_def by (cases x) (simp_all add: http_crawl_def del: http_run.simps)
  next
    case False
    then show ?thesis unfolding http_crawl_def Let_def scoped_def by (fastforce split: prod.split resolved.split option.split)
  qed
qed

subsection \<open>What the crawl writes\<close>

lemma http_plain_tmp: "plain_suffix http_tmpSuffix"
  by (simp add: plain_suffix_def http_tmpSuffix_def slash_def)

lemma http_localPath_facts:
  assumes "http_localPath d u = Inr p" and "d \<noteq> []"
  shows "Clean p = p \<and> p \<noteq> [] \<and> rooted p = rooted d
    \<and> (\<exists>q. clean_elems p = clean_elems d @ Host u # clean_elems q \<and> rooted q) \<and> plain_elem (Host u)"
proof -
  let ?h = "Host u"
  obtain q where p: "p = JoinPath [d, ?h, Clean (''/'' @ q)]" and h: "?h \<noteq> []" "?h \<noteq> ''.''" "?h \<noteq> ''..''" "\<not> ContainsAny ?h [CHR ''/'', CHR 0x5C]"
    using assms(1) by (auto simp: http_localPath_def Let_def split: if_splits)
  have pl: "plain_elem ?h" using h by (auto simp: plain_elem_def ContainsAny_def slash_def list_ex_iff)
  have r: "rooted (''/'' @ q)" by (simp add: rooted_iff slash_def)
  have "Clean p = p \<and> p \<noteq> []" using assms(2) h(1) by (simp add: p JoinPath_three)
  moreover have "path_under d p" unfolding p by (rule under_JoinPath_host(2) [OF assms(2) pl r])
  ultimately show ?thesis using under_JoinPath_host(1) [OF assms(2) pl r] pl r p by (auto simp: path_under_def)
qed

definition http_temp :: "key \<Rightarrow> bool" where
  "http_temp k \<longleftrightarrow> k \<noteq> [] \<and> suffix http_tmpSuffix (last k)"

text \<open>The content is the complete body of a successful answer to the request for the URL this is the local file of.\<close>

definition downloaded :: "turns \<Rightarrow> path \<Rightarrow> key \<Rightarrow> string \<Rightarrow> bool" where
  "downloaded env d k x \<longleftrightarrow> (\<exists>t rq a u p. tuDo (env t) rq = Inr a \<and> request_url (url_String u) = Inr (wrUrl rq)
     \<and> anStatus a div 100 = 2 \<and> anBodyErr a = None \<and> x = anBody a \<and> http_localPath d u = Inr p \<and> clean_elems p = k)"

text \<open>A place changes only by a new directory on the way to the destination or below it, by a temporary file below
  it, or by a complete download below it where there was no directory.\<close>

definition http_allowed :: "turns \<Rightarrow> path \<Rightarrow> key \<Rightarrow> node option \<Rightarrow> node option \<Rightarrow> bool" where
  "http_allowed env d k old new \<longleftrightarrow> new = old
     \<or> (old = None \<and> new = Some Dir \<and> (prefix (clean_elems d) k \<or> prefix k (clean_elems d)))
     \<or> (strict_prefix (clean_elems d) k \<and> http_temp k)
     \<or> (strict_prefix (clean_elems d) k \<and> old \<noteq> Some Dir \<and> (\<exists>x. new = Some (File x) \<and> downloaded env d k x))"

definition http_changes :: "turns \<Rightarrow> path \<Rightarrow> fs \<Rightarrow> fs \<Rightarrow> bool" where
  "http_changes env d f f' \<longleftrightarrow> (\<forall>k. http_allowed env d k (f k) (f' k))"

lemma http_changes_refl [simp]: "http_changes env d f f"
  by (simp add: http_changes_def http_allowed_def)

lemma http_changes_trans: "http_changes env d f f' \<Longrightarrow> http_changes env d f' f'' \<Longrightarrow> http_changes env d f f''"
proof -
  have "http_allowed env d k x y \<Longrightarrow> http_allowed env d k y z \<Longrightarrow> http_allowed env d k x z" for k x y z
    unfolding http_allowed_def by auto
  then show "http_changes env d f f' \<Longrightarrow> http_changes env d f' f'' \<Longrightarrow> http_changes env d f f''"
    unfolding http_changes_def by blast
qed

lemma http_temp_key:
  assumes "http_localPath d u = Inr p" and "d \<noteq> []"
  shows "http_temp (clean_elems (p @ http_tmpSuffix)) \<and> strict_prefix (clean_elems d) (clean_elems (p @ http_tmpSuffix))
    \<and> clean_elems (p @ http_tmpSuffix) \<noteq> clean_elems p"
proof -
  note f = http_localPath_facts [OF assms]
  let ?es = "clean_elems p"
  have k: "clean_elems (p @ http_tmpSuffix) = with_suffix (rooted d) ?es http_tmpSuffix"
    using clean_elems_suffix [OF http_plain_tmp, of p] f by simp
  have t: "http_temp (with_suffix b ?es http_tmpSuffix)" "with_suffix b ?es http_tmpSuffix \<noteq> ?es" for b
    by (auto simp: http_temp_def with_suffix_def http_tmpSuffix_def suffix_def dest: arg_cong [of _ _ last])
  obtain es where "?es = clean_elems d @ es" "es \<noteq> []" using f by auto
  then have "with_suffix b ?es http_tmpSuffix = clean_elems d @ butlast es @ [last es @ http_tmpSuffix]" for b
    by (simp add: with_suffix_def butlast_append)
  then show ?thesis using k t by (simp add: strict_prefix_def)
qed

lemma http_MkdirAll_changes:
  assumes "MkdirAll fault q f = (r, f')" and "prefix (clean_elems q) k0" and "prefix (clean_elems d) k0"
  shows "http_changes env d f f'"
proof -
  have "http_allowed env d k (f k) (f' k)" for k
  proof (cases "f' k = f k")
    case False
    then have 2: "f k = None" "f' k = Some Dir" "prefix k (clean_elems q)" using MkdirAll_change [OF assms(1), of k] by simp_all
    then have "prefix k k0" using assms(2) by (meson prefix_order.trans)
    then have "prefix (clean_elems d) k \<or> prefix k (clean_elems d)" using assms(3) prefix_same_cases by blast
    then show ?thesis using 2 by (simp add: http_allowed_def)
  qed (simp add: http_allowed_def)
  then show ?thesis by (simp add: http_changes_def)
qed

lemma temp_changes:
  assumes "http_localPath d u = Inr p" and "d \<noteq> []"
  shows "http_changes env d f (put_file (p @ http_tmpSuffix) x f)" "http_changes env d f (remove_file (p @ http_tmpSuffix) f)"
  using http_temp_key [OF assms] by (auto simp: http_changes_def put_file_def remove_file_def http_allowed_def)

lemma download_changes:
  assumes "download t a p f = (r, f')" and "http_localPath d u = Inr p" and "d \<noteq> []"
  shows "http_changes env d f f' \<and> (r = None \<longrightarrow> node_at (p @ http_tmpSuffix) f' = Some (File (anBody a)) \<and> anBodyErr a = None)
    \<and> is_file (f' (clean_elems p)) = is_file (f (clean_elems p))"
proof -
  note facts = http_localPath_facts [OF assms(2,3)] and tmp = temp_changes [OF assms(2,3)] and key = http_temp_key [OF assms(2,3)]
  obtain e f1 where m: "MkdirAll (tuMkdir t) (DirPath p) f = (e, f1)" by fastforce
  have pre: "prefix (clean_elems (DirPath p)) (clean_elems p)" using DirPath_prefix [of p] facts by simp
  have c1: "http_changes env d f f1" by (rule http_MkdirAll_changes [OF m pre]) (use facts in auto)
  have n1: "is_file (f1 (clean_elems p)) = is_file (f (clean_elems p))" using MkdirAll_change [OF m, of "clean_elems p"] by (auto simp: is_file_def)
  have c2: "http_changes env d f (put_file (p @ http_tmpSuffix) x f1)" "http_changes env d f (remove_file (p @ http_tmpSuffix) f1)" for x
    using http_changes_trans [OF c1 tmp(1)] http_changes_trans [OF c1 tmp(2)] by blast+
  show ?thesis
    using assms(1) c1 c2 n1 key unfolding download_def m
    by (auto simp: Let_def node_at_def put_file_def remove_file_def split: option.splits if_splits)
qed

lemma place_changes:
  assumes "put_in_place t a p f = (r, f')" and "http_localPath d u = Inr p" and "d \<noteq> []"
    and "r = None \<Longrightarrow> downloaded env d (clean_elems p) (anBody a)"
  shows "http_changes env d f f' \<and> (r = None \<longrightarrow> node_at p f' = Some (File (anBody a)))"
proof -
  note facts = http_localPath_facts [OF assms(2,3)] and tmp = temp_changes [OF assms(2,3)] and key = http_temp_key [OF assms(2,3)]
  have s: "strict_prefix (clean_elems d) (clean_elems p)" using facts by (auto simp: strict_prefix_def)
  have "http_changes env d f (put_file p (anBody a) (remove_file (p @ http_tmpSuffix) f))"
    if "\<not> is_dir (node_at p f)" "downloaded env d (clean_elems p) (anBody a)"
  proof (rule http_changes_trans [OF tmp(2)])
    show "http_changes env d (remove_file (p @ http_tmpSuffix) f) (put_file p (anBody a) (remove_file (p @ http_tmpSuffix) f))"
      using that s key by (auto simp: http_changes_def put_file_def remove_file_def http_allowed_def node_at_def is_dir_def)
  qed
  then show ?thesis using assms(1,4) tmp(2) unfolding put_in_place_def
    by (auto simp: Let_def node_at_def put_file_def split: option.splits if_splits)
qed

lemma enqueue_fs: "hsFs (snd (enqueue c u q s)) = hsFs s"
  by (auto simp: enqueue_def split: option.split prod.split dest: db_tick_same)

lemma enqueue_all_fs: "hsFs (snd (enqueue_all c us s)) = hsFs s"
proof (induction us arbitrary: s)
  case (Cons x us)
  obtain u q where x: "x = (u, q)" by fastforce
  obtain e s1 where "enqueue c u q s = (e, s1)" by fastforce
  then show ?case using Cons [of s1] enqueue_fs [of c u q s] x by (cases e) simp_all
qed simp

lemma update_row_fs: "hsFs (snd (update_row i f s)) = hsFs s"
  by (rule update_row_cases [of i f s "fst (update_row i f s)" "snd (update_row i f s)"]) simp_all

lemma mark_fs: "hsFs (snd (markDone i st et lm s)) = hsFs s" "hsFs (snd (http_setState i x st m s)) = hsFs s"
  by (simp_all add: markDone_def http_setState_def update_row_fs)

lemma enqueue_done_fs: "hsFs (snd (enqueue_then_done c us i st et lm s)) = hsFs s"
proof -
  obtain e s1 where e: "enqueue_all c us s = (e, s1)" by fastforce
  then show ?thesis using enqueue_all_fs [of c us s] mark_fs(1) [of i st et lm s1]
    by (cases e) (simp_all add: enqueue_then_done_def as_fetch_def case_prod_beta)
qed

text \<open>An attempt, whatever comes of it, with what it was answered.\<close>

lemma save_changes:
  assumes "http_save parse c t i u a p s = (r, s')" and "http_localPath (hcDest c) u = Inr p" and "hcDest c \<noteq> []"
    and "anBodyErr a = None \<Longrightarrow> downloaded env (hcDest c) (clean_elems p) (anBody a)"
  shows "http_changes env (hcDest c) (hsFs s) (hsFs s')
    \<and> (r = None \<longrightarrow> anBodyErr a = None \<and> (case page_finds parse c u a of (ls, rs, listing) \<Rightarrow>
         if listing then is_file (node_at p (hsFs s')) = is_file (node_at p (hsFs s)) else node_at p (hsFs s') = Some (File (anBody a))))"
proof -
  obtain ls rs li where f: "page_finds parse c u a = (ls, rs, li)" by (metis prod_cases3)
  obtain e f1 where d: "download t a p (hsFs s) = (e, f1)" by fastforce
  note dc = download_changes [OF d assms(2,3)] and key = http_temp_key [OF assms(2,3)]
  show ?thesis
  proof (cases e)
    case (Some err)
    then show ?thesis using assms(1) d dc by (auto simp: http_save_def)
  next
    case None
    then have body: "anBodyErr a = None" "downloaded env (hcDest c) (clean_elems p) (anBody a)" using dc assms(4) by simp_all
    have rm: "http_changes env (hcDest c) (hsFs s) (remove_file (p @ http_tmpSuffix) f1)"
      by (rule http_changes_trans [OF _ temp_changes(2) [OF assms(2,3)]]) (use dc in blast)
    have rf: "is_file (node_at p (remove_file (p @ http_tmpSuffix) f1)) = is_file (node_at p (hsFs s))"
    proof -
      have "clean_elems p \<noteq> clean_elems (p @ http_tmpSuffix)" using key by metis
      moreover have "is_file (f1 (clean_elems p)) = is_file (hsFs s (clean_elems p))" using dc by blast
      ultimately show ?thesis by (simp add: node_at_def remove_file_def)
    qed
    obtain e2 f2 where pl: "put_in_place t a p f1 = (e2, f2)" by fastforce
    note pc = place_changes [OF pl assms(2,3) body(2)]
    have "http_changes env (hcDest c) (hsFs s) f2"
      by (rule http_changes_trans) (use dc in blast, use pc in blast)
    moreover have "hsFs s' = (if li then remove_file (p @ http_tmpSuffix) f1 else f2) \<and> (r = None \<longrightarrow> li \<or> e2 = None)"
    proof (cases "li \<or> e2 = None")
      case True
      let ?f = "if li then remove_file (p @ http_tmpSuffix) f1 else f2"
      obtain us et lm where "enqueue_then_done c us i (anStatus a) et lm (s\<lparr>hsFs := ?f\<rparr>) = (r, s')"
        using assms(1) d f None pl True by (cases li) (auto simp: http_save_def intro: that)
      then have "hsFs s' = ?f" using enqueue_done_fs [of c us i "anStatus a" et lm "s\<lparr>hsFs := ?f\<rparr>"] by simp
      then show ?thesis using True by simp
    next
      case False
      then show ?thesis using assms(1) d f None pl by (auto simp: http_save_def)
    qed
    ultimately show ?thesis using f body(1) rm rf pc by auto
  qed
qed

lemma answer_changes:
  assumes "tuDo (env n) rq = Inr a" and "request_url (url_String u) = Inr (wrUrl rq)" and "http_localPath (hcDest c) u = Inr p" and "hcDest c \<noteq> []"
  shows "http_changes env (hcDest c) (hsFs s) (hsFs (snd (handle_answer parse c (env n) i u q p rq v a s)))"
proof (cases "anStatus a div 100 = 2")
  case True
  obtain r s' where sv: "http_save parse c (env n) i u a p s = (r, s')" by fastforce
  have "http_changes env (hcDest c) (hsFs s) (hsFs s')"
    by (rule save_changes [OF sv assms(3,4), THEN conjunct1]) (use assms(1-3) True in \<open>unfold downloaded_def, blast\<close>)
  moreover have "anStatus a \<noteq> 304" "\<not> isRedirect (anStatus a)" using True by (auto simp: isRedirect_def)
  ultimately show ?thesis using sv True by (simp add: handle_answer_def Let_def)
next
  case False
  have m: "hsFs (snd (as_fetch (markDone i st et lm s))) = hsFs s" for st et lm
    using mark_fs(1) [of i st et lm s] by (simp add: as_fetch_def case_prod_beta)
  then have "hsFs (snd (handle_answer parse c (env n) i u q p rq v a s)) = hsFs s"
    using False by (simp add: handle_answer_def Let_def enqueue_done_fs split: sum.split)
  then show ?thesis by simp
qed

lemma newRequest_url: "newRequest c t u s = Inr ru \<Longrightarrow> request_url (url_String u) = Inr ru"
  by (auto simp: newRequest_def split: if_splits)

lemma http_fetch_cases:
  obtains (early) e s1 where "http_fetch parse c t i u q s = (Some e, s1)" and "hsFs s1 = hsFs s"
  | (answered) p rq v a s2 where "http_fetch parse c t i u q s = handle_answer parse c t i u q p rq v a s2" and "hsFs s2 = hsFs s"
    and "http_localPath (hcDest c) u = Inr p" and "request_url (url_String u) = Inr (wrUrl rq)" and "tuDo t rq = Inr a"
    and "wrNoneMatch rq \<noteq> None \<or> wrModifiedSince rq \<noteq> None \<Longrightarrow> is_file (node_at p (hsFs s))" and "hsRows s2 = hsRows s"
proof (cases "http_localPath (hcDest c) u")
  case (Inl e)
  then show ?thesis using early by (simp add: http_fetch_def)
next
  case p: (Inr p)
  show ?thesis
  proof (cases "newRequest c t u s")
    case (Inl e)
    then show ?thesis using early p by (simp add: http_fetch_def)
  next
    case ru: (Inr ru)
    obtain x s1 where d: "db_tick s = (x, s1)" by fastforce
    note same = db_tick_same [OF d]
    let ?v = "validators i s1"
    let ?rq = "conditional ru ?v (node_at p (hsFs s1))" and ?s2 = "s1\<lparr>hsRequests := Suc (hsRequests s1)\<rparr>"
    show ?thesis
    proof (cases x)
      case (Some e)
      then show ?thesis using early p ru d same by (simp add: http_fetch_def)
    next
      case None
      show ?thesis
      proof (cases "tuDo t ?rq")
        case (Inl e)
        then show ?thesis using early p ru d same None by (simp add: http_fetch_def Let_def)
      next
        case (Inr a)
        show ?thesis
        proof (rule answered [of p ?rq ?v a ?s2])
          show "http_fetch parse c t i u q s = handle_answer parse c t i u q p ?rq ?v a ?s2" using p ru d None Inr by (simp add: http_fetch_def Let_def)
          show "request_url (url_String u) = Inr (wrUrl ?rq)" using newRequest_url [OF ru] by (simp add: conditional_def Let_def)
          show "is_file (node_at p (hsFs s))" if "wrNoneMatch ?rq \<noteq> None \<or> wrModifiedSince ?rq \<noteq> None"
            using that same by (auto simp: conditional_def Let_def split: if_splits)
        qed (use p Inr same in simp_all)
      qed
    qed
  qed
qed

lemma http_fetch_changes:
  assumes "hcDest c \<noteq> []"
  shows "http_changes env (hcDest c) (hsFs s) (hsFs (snd (http_fetch parse c (env n) i u q s)))"
proof (cases rule: http_fetch_cases [of parse c "env n" i u q s])
  case (answered p rq v a s2)
  then show ?thesis using answer_changes [where env = env and n = n, OF answered(5,4,3) assms, of s2 parse i q v] by simp
qed simp

lemma process_changes:
  assumes "hcDest c \<noteq> []"
  shows "http_changes env (hcDest c) (hsFs s) (hsFs (snd (http_process parse c env k i u q s)))"
proof (induction k arbitrary: s)
  case (Suc k)
  obtain e s1 where f: "http_fetch parse c (env (hsTick s)) i u q (s\<lparr>hsTick := Suc (hsTick s)\<rparr>) = (e, s1)" by fastforce
  have 1: "http_changes env (hcDest c) (hsFs s) (hsFs s1)"
    using http_fetch_changes [OF assms, of env "s\<lparr>hsTick := Suc (hsTick s)\<rparr>" parse "hsTick s" i u q] f by simp
  then show ?case using f http_changes_trans [OF 1 Suc.IH]
    by (cases e) (auto simp: Let_def mark_fs split: fetch_error.split)
qed simp

lemma visit_changes:
  assumes "hcDest c \<noteq> []" and "http_visit parse c env r s = (x, s')"
  shows "http_changes env (hcDest c) (hsFs s) (hsFs s')"
proof (cases "Parse (urUrl r)")
  case (Inl e)
  then have "s' = snd (http_setState (urID r) stateFailed 0 e s)" using assms(2) by (simp add: http_visit_def)
  then show ?thesis by (simp add: mark_fs)
next
  case (Inr u)
  then show ?thesis using assms(2) process_changes [OF assms(1), of env s parse http_maxAttempts "urID r" u "urRequisite r"]
    by (auto simp: http_visit_def split: if_splits)
qed

text \<open>C24: Whatever the servers answer, and whatever fails, the crawl changes nothing outside its destination
  directory but the way to it: below it, it makes directories, temporary files, and files that hold the complete
  body of a successful answer to the request for the URL they are named after. No directory and no
  other file is removed or overwritten with anything else.\<close>

theorem http_writes:
  assumes "http_Mirror fuel parse env update wait openErr source destDir s = Some (out, s')" and "destDir \<noteq> []"
    and "k \<noteq> clean_elems (JoinPath [destDir, http_dbFileName])"
  shows "http_allowed env destDir k (hsFs s k) (hsFs s' k)"
proof -
  have crawl: "http_changes env (hcDest c) (hsFs s0) (hsFs s1)"
    if h: "http_crawl fuel parse c env start s0 = Some (o1, s1)" and d: "hcDest c \<noteq> []" for c start s0 o1 s1
  proof -
    obtain r t1 where r: "resolveStart c env start s0 = (r, t1)" by fastforce
    note f1 = resolveStart_same [OF r]
    show ?thesis
    proof (cases "\<exists>root t2 t3. r = StartAt root \<and> db_tick t1 = (None, t2)
        \<and> enqueue (scoped c root) root False (t2\<lparr>hsRows := reset_rows (hcUpdate c) (hsRows t2)\<rparr>) = (None, t3)")
      case False
      have "hsFs t3 = hsFs t1" if "db_tick t1 = (None, t2)" "enqueue c1 root False (t2\<lparr>hsRows := x\<rparr>) = (e, t3)" for c1 root t2 x e t3
        using enqueue_fs [of c1 root False "t2\<lparr>hsRows := x\<rparr>"] that db_tick_same [OF that(1)] by simp
      then have "hsFs s1 = hsFs s0" using h r f1 False
        by (auto simp: http_crawl_def Let_def scoped_def split: resolved.splits prod.splits option.splits dest: db_tick_same)
      then show ?thesis by simp
    next
      case True
      then obtain root t2 t3 where t: "r = StartAt root" "db_tick t1 = (None, t2)"
        "enqueue (scoped c root) root False (t2\<lparr>hsRows := reset_rows (hcUpdate c) (hsRows t2)\<rparr>) = (None, t3)" by blast
      have f3: "hsFs t3 = hsFs s0"
        using enqueue_fs [of "scoped c root" root False "t2\<lparr>hsRows := reset_rows (hcUpdate c) (hsRows t2)\<rparr>"] t f1 db_tick_same [OF t(2)] by simp
      obtain x where l: "http_run parse (scoped c root) env fuel 0 t3 = Some (x, s1)"
        using h r t by (auto simp: http_crawl_def Let_def scoped_def split: option.splits)
      have e: "hcDest (scoped c root) = hcDest c" by (simp add: scoped_def)
      show ?thesis
      proof (rule http_list.loop_keeps [OF l, where I = "\<lambda>t. http_changes env (hcDest c) (hsFs s0) (hsFs t)"])
        show "http_changes env (hcDest c) (hsFs s0) (hsFs t3)" by (simp add: f3)
        show "http_changes env (hcDest c) (hsFs s0) (hsFs u1)"
          if "http_changes env (hcDest c) (hsFs s0) (hsFs u)" "http_pick env lo u = (p, u1)" for lo u p u1
          using that(1) http_pick_cases [OF that(2)] by simp
        show "http_changes env (hcDest c) (hsFs s0) (hsFs u1)"
          if "http_changes env (hcDest c) (hsFs s0) (hsFs u)" "http_visit parse (scoped c root) env r u = (y, u1)" for r u y u1
          using http_changes_trans [OF that(1)] visit_changes [of "scoped c root", OF _ that(2)] d e by simp
      qed
    qed
  qed
  let ?c = "\<lparr>hcDest = destDir, hcScope = empty_url, hcUpdate = update, hcWait = wait\<rparr>"
  consider "s' = s" | u where "http_crawl fuel parse ?c env (normalize u)
      (s\<lparr>hsFs := put_file (JoinPath [destDir, http_dbFileName]) [] (hsFs s), hsRequests := 0, hsErrors := 0\<rparr>) = Some (out, s')"
    using assms(1) by (auto simp: http_Mirror_def Let_def split: sum.splits if_splits option.splits)
  then show ?thesis
  proof cases
    case 1
    then show ?thesis by (simp add: http_allowed_def)
  next
    case 2
    have "http_changes env destDir (put_file (JoinPath [destDir, http_dbFileName]) [] (hsFs s)) (hsFs s')"
      using crawl [OF 2] assms(2) by simp
    then show ?thesis using assms(3) unfolding http_changes_def put_file_def by (metis fun_upd_other)
  qed
qed

subsection \<open>What an attempt without an error has done\<close>

lemma enqueue_all_known:
  "enqueue_all c us s = (None, s') \<Longrightarrow> known_urls s \<subseteq> known_urls s'
    \<and> (\<forall>(u, q) \<in> set us. q \<or> http_inScope c u \<longrightarrow> url_String u \<in> known_urls s')"
proof (induction us arbitrary: s)
  case (Cons x us)
  obtain u q where x: "x = (u, q)" by fastforce
  obtain e s1 where 1: "enqueue c u q s = (e, s1)" by fastforce
  then have e: "e = None" and r: "enqueue_all c us s1 = (None, s')" using Cons.prems x by (cases e; simp)+
  have "grows urID urUrl (hsRows s) (hsRows s1)" using enqueue_calm [OF 1] unfolding calm_def by blast
  then have "known_urls s \<subseteq> known_urls s1" by (rule grows_names)
  moreover have "q \<or> http_inScope c u \<Longrightarrow> url_String u \<in> known_urls s1" using enqueue_urls(3) [OF 1 e] .
  ultimately show ?case using Cons.IH [OF r] x by auto
qed simp

lemma mark_done:
  assumes "as_fetch (markDone i st et lm s) = (None, s')"
  shows "known_urls s' = known_urls s \<and> (\<forall>r \<in> set (hsRows s'). urID r = i \<longrightarrow> urState r = stateDone)"
proof -
  obtain s1 where u: "markDone i st et lm s = (None, s1)" "s' = s1" using assms by (auto simp: as_fetch_def split: prod.splits)
  have "\<exists>f. hsRows s1 = map_where (\<lambda>r. urID r = i) f (hsRows s) \<and> (\<forall>r. urState (f r) = stateDone)"
    by (rule update_row_cases [OF u(1) [unfolded markDone_def]]) (simp, fastforce)
  then have "\<forall>r \<in> set (hsRows s1). urID r = i \<longrightarrow> urState r = stateDone" by (auto simp: set_map_where)
  then show ?thesis using mark_urls(1) [of i st et lm s] u by simp
qed

lemma enqueue_done_known:
  assumes "enqueue_then_done c us i st et lm s = (None, s')"
  shows "(\<forall>(u, q) \<in> set us. q \<or> http_inScope c u \<longrightarrow> url_String u \<in> known_urls s')
    \<and> (\<forall>r \<in> set (hsRows s'). urID r = i \<longrightarrow> urState r = stateDone)"
proof -
  obtain e s1 where e: "enqueue_all c us s = (e, s1)" by fastforce
  then have "e = None" and m: "as_fetch (markDone i st et lm s1) = (None, s')"
    using assms by (cases e; simp add: enqueue_then_done_def)+
  then show ?thesis using enqueue_all_known [of c us s s1] e mark_done [OF m] by simp
qed

text \<open>The URL has a row, if it is one to crawl.\<close>

definition found :: "hcrawl \<Rightarrow> hstate \<Rightarrow> bool \<Rightarrow> url \<Rightarrow> bool" where
  "found c s needed u \<longleftrightarrow> (needed \<or> http_inScope c u \<longrightarrow> url_String u \<in> known_urls s)"

text \<open>An attempt that reports no error has marked its row as done, and there is an answer that says why: the file is not
  modified, and was there if that was asked; or a redirect, and its target is in the table; or a
  directory listing, of which nothing is saved and every entry is in the table; or a page, which is the file
  now, every link in scope and every requisite in the table.\<close>

theorem http_fetch_done:
  assumes "http_fetch parse c ((env :: turns) n) i u q s = (None, s')" and "hcDest c \<noteq> []"
  shows "\<exists>p rq a. http_localPath (hcDest c) u = Inr p \<and> request_url (url_String u) = Inr (wrUrl rq) \<and> tuDo (env n) rq = Inr a
    \<and> (\<forall>r \<in> set (hsRows s'). urID r = i \<longrightarrow> urState r = stateDone)
    \<and> (wrNoneMatch rq \<noteq> None \<or> wrModifiedSince rq \<noteq> None \<longrightarrow> is_file (node_at p (hsFs s)))
    \<and> (if anStatus a = 304 then hsFs s' = hsFs s
       else if isRedirect (anStatus a) then \<exists>l. Location rq a = Inr l \<and> found c s' q (normalize l) \<and> hsFs s' = hsFs s
       else anStatus a div 100 = 2 \<and> anBodyErr a = None \<and> (case page_finds parse c u a of (ls, rs, listing) \<Rightarrow>
         if listing then is_file (node_at p (hsFs s')) = is_file (node_at p (hsFs s)) \<and> (\<forall>l \<in> set ls. RawQuery l = [] \<longrightarrow> found c s' False l)
         else node_at p (hsFs s') = Some (File (anBody a)) \<and> (\<forall>l \<in> set ls. found c s' False l) \<and> (\<forall>r \<in> set rs. found c s' True r)))"
proof (cases rule: http_fetch_cases [of parse c "env n" i u q s])
  case (early e s1)
  then show ?thesis using assms(1) by simp
next
  case (answered p rq v a s2)
  have h: "handle_answer parse c (env n) i u q p rq v a s2 = (None, s')" using assms(1) answered(1) by simp
  consider "anStatus a = 304" | "anStatus a \<noteq> 304" "isRedirect (anStatus a)"
    | "anStatus a \<noteq> 304" "\<not> isRedirect (anStatus a)" "anStatus a div 100 = 2"
    using h by (cases "isRedirect (anStatus a)"; cases "anStatus a div 100 = 2") (auto simp: handle_answer_def Let_def split: if_splits)
  then show ?thesis
  proof cases
    case 1
    then have m: "as_fetch (markDone i (anStatus a) (fst v) (snd v) s2) = (None, s')" using h by (simp add: handle_answer_def Let_def)
    have "hsFs s' = hsFs s" using m mark_fs(1) [of i "anStatus a" "fst v" "snd v" s2] answered(2) by (auto simp: as_fetch_def split: prod.splits)
    then show ?thesis using 1 mark_done [OF m] answered(3-6) by (intro exI [of _ p] exI [of _ rq] exI [of _ a]) simp
  next
    case 2
    then obtain l where l: "Location rq a = Inr l" and m: "enqueue_then_done c [(normalize l, q)] i (anStatus a) [] [] s2 = (None, s')"
      using h by (auto simp: handle_answer_def Let_def split: sum.splits)
    have "hsFs s' = hsFs s" using m enqueue_done_fs [of c "[(normalize l, q)]" i "anStatus a" "[]" "[]" s2] answered(2) by simp
    then show ?thesis using 2 l enqueue_done_known [OF m] answered(3-6)
      by (intro exI [of _ p] exI [of _ rq] exI [of _ a]) (simp add: found_def)
  next
    case 3
    then have sv: "http_save parse c (env n) i u a p s2 = (None, s')" using h by (simp add: handle_answer_def Let_def)
    obtain ls rs li where f: "page_finds parse c u a = (ls, rs, li)" by (metis prod_cases3)
    have "downloaded env (hcDest c) (clean_elems p) (anBody a)" if "anBodyErr a = None"
      using answered(3-5) 3 that unfolding downloaded_def by blast
    note ch = save_changes [where env = env, OF sv answered(3) assms(2) this]
    obtain e f1 where d: "download (env n) a p (hsFs s2) = (e, f1)" by fastforce
    have "(\<forall>r \<in> set (hsRows s'). urID r = i \<longrightarrow> urState r = stateDone)
        \<and> (if li then \<forall>l \<in> set ls. RawQuery l = [] \<longrightarrow> found c s' False l
           else (\<forall>l \<in> set ls. found c s' False l) \<and> (\<forall>r \<in> set rs. found c s' True r))"
      using sv d f
      by (auto simp: http_save_def found_def listed_def linked_def split: option.splits prod.splits if_splits dest!: enqueue_done_known)
    then show ?thesis using 3 f ch answered(2-6) by (intro exI [of _ p] exI [of _ rq] exI [of _ a]) simp
  qed
qed

end
