(* ===== verification/HttpSite.thy ===== *)
theory HttpSite
  imports HttpFetch
begin

text \<open>
  The URLs the crawl takes from pages, two ways it goes wrong, and a small site on which the theorems about
  runs are put to use.
\<close>

subsection \<open>URLs of pages\<close>

definition canonical :: "url \<Rightarrow> bool" where
  "canonical u \<longleftrightarrow> Scheme u \<in> {''http'', ''https''} \<and> ToLower (Host u) = Host u \<and> User u = None
     \<and> Fragment u = [] \<and> RawFragment u = [] \<and> Path u \<noteq> []"

lemma ToLower_take: "ToLower (take n h) = take n (ToLower h)"
  by (simp add: ToLower_def take_map)

lemma normalize_canonical: "Scheme u \<in> {''http'', ''https''} \<Longrightarrow> canonical (normalize u)"
proof -
  have l: "ToLower ''http'' = ''http''" "ToLower ''https'' = ''https''" by code_simp+
  assume "Scheme u \<in> {''http'', ''https''}"
  then show ?thesis using l by (auto simp: canonical_def normalize_def Let_def ToLower_take)
qed

lemma resolve_canonical: "resolve_ref base ref = Some u \<Longrightarrow> canonical u"
  by (auto simp: resolve_ref_def Let_def split: if_splits sum.splits intro!: normalize_canonical)

lemma map_filter_canonical: "u \<in> set (List.map_filter (resolve_ref base) refs) \<Longrightarrow> canonical u"
  by (auto simp: List.map_filter_def intro: resolve_canonical)

lemma finds_canonical: "page_finds parse c u a = (ls, rs, li) \<Longrightarrow> l \<in> set ls \<union> set rs \<Longrightarrow> canonical l"
  by (auto simp: page_finds_def Let_def extractHTML_def extractCSS_def split: if_splits option.splits prod.splits
      dest: map_filter_canonical)


subsection \<open>Where it goes wrong\<close>

text \<open>A link that an earlier run with another start left pending is out of scope for this run; when a page of this run needs it,
  the table does not note that (it keeps the smaller flag), and the loop still passes over it: the page is
  mirrored without what it needs, and the run reports no error.\<close>

theorem http_requisite_lost:
  assumes "hsRows s = [r]" and "pending_row r" and "\<not> urRequisite r" and "Parse (urUrl r) = Inr u" and "\<not> http_inScope c u"
    and "urUrl r = url_String v" and "enqueue c v True s = (None, s1)"
  shows "hsRows s1 = [r] \<and> (\<exists>s2. http_visit parse c env r s1 = (None, s2) \<and> hsRows s2 = [r] \<and> hsRequests s2 = hsRequests s1)"
proof -
  have "r\<lparr>urRequisite := False\<rparr> = r" using assms(3) by (cases r) simp
  then have "hsRows s1 = [r]" using assms(1,3,6,7)
    by (auto simp: enqueue_def upsert_url_def map_where_def dest: db_tick_same split: option.splits prod.splits)
  moreover have "http_visit parse c env r s1 = (None, s1)" using assms(3-5) by (simp add: http_visit_def)
  ultimately show ?thesis by simp
qed

text \<open>The path \<open>/%2e%2e\<close> is in the scope of its server, and is mirrored to the directory of the host itself, its temporary file
  beside it: when it is fetched first, a file takes the place of that directory.\<close>

theorem http_dots_host:
  "case (Parse ''http://h/%2e%2e'', Parse ''http://h/'') of
     (Inr u, Inr root) \<Rightarrow> http_inScope (scoped c root) u \<and> http_localPath ''/d'' u = Inr ''/d/h''
       \<and> clean_elems (''/d/h'' @ http_tmpSuffix) = [''d'', ''h.httpmirror-tmp'']
       \<and> DirPath ''/d/h'' = ''/d''
   | _ \<Rightarrow> False"
proof -
  have "case (Parse ''http://h/%2e%2e'', Parse ''http://h/'') of
     (Inr u, Inr root) \<Rightarrow> http_inScope (scoped \<lparr>hcDest = [], hcScope = empty_url, hcUpdate = False, hcWait = False\<rparr> root) u
       \<and> http_localPath ''/d'' u = Inr ''/d/h''
       \<and> clean_elems (''/d/h'' @ http_tmpSuffix) = [''d'', ''h.httpmirror-tmp''] \<and> DirPath ''/d/h'' = ''/d''
   | _ \<Rightarrow> False" by code_simp
  then show ?thesis by (simp add: scoped_def http_inScope_def split: sum.splits)
qed

subsection \<open>A small site\<close>

definition site_parse :: html_parser where
  "site_parse s = (if s = ''P'' then Some (HtmlNode OtherNode [] [] [HtmlNode ElementNode ''html'' []
     [HtmlNode ElementNode ''link'' [([], ''rel'', ''stylesheet''), ([], ''href'', ''/s.css'')] [],
      HtmlNode ElementNode ''a'' [([], ''href'', ''/a/b'')] [HtmlNode TextNode ''b'' [] []],
      HtmlNode ElementNode ''a'' [([], ''href'', ''/c#x'')] [HtmlNode TextNode ''c'' [] []]]]) else None)"

definition site_answer :: "string \<Rightarrow> string \<Rightarrow> string \<Rightarrow> answer" where
  "site_answer mt tag bdy = \<lparr>anStatus = 200, anLocation = [], anType = mt, anETag = tag, anLastMod = [], anBody = bdy, anBodyErr = None\<rparr>"

definition site_do :: "web_request \<Rightarrow> string + answer" where
  "site_do rq = (let u = url_String (wrUrl rq) in
     if u = ''http://h/a/'' then Inr (site_answer ''text/html'' ''t1'' ''P'')
     else if u = ''http://h/s.css'' then Inr (site_answer ''text/css'' [] ''url(/i)'')
     else if u = ''http://h/a/b'' then Inr (site_answer ''text/plain'' [] ''B'')
     else Inr ((site_answer ''text/plain'' [] [])\<lparr>anStatus := 404\<rparr>))"

definition site_turn :: turn where
  "site_turn = \<lparr>tuCtx = None, tuWait = None, tuAfter = None, tuPause = None, tuDo = site_do, tuGet = (\<lambda>_. Inl ''no''),
     tuMkdir = None, tuCreate = None, tuWrite = None, tuClose = None, tuRename = None\<rparr>"

definition site_env :: turns where "site_env _ = site_turn"

definition site_urls :: "string list" where
  "site_urls = [''http://h/a/'', ''http://h/s.css'', ''http://h/a/b'', ''http://h/i'', ''http://h/c'']"

definition site_crawl :: hcrawl where
  "site_crawl = \<lparr>hcDest = ''/d'', hcScope = empty_url, hcUpdate = False, hcWait = True\<rparr>"

definition site_url :: "string \<Rightarrow> url" where
  "site_url x = (case Parse x of Inr u \<Rightarrow> u | Inl _ \<Rightarrow> empty_url)"

definition site_new :: hstate where
  "site_new = \<lparr>hsRows = [], hsMeta = [], hsFaults = [], hsFs = (\<lambda>_. None), hsTick = 0, hsRequests = 0, hsErrors = 0\<rparr>"

abbreviation site_run :: "(http_outcome \<times> hstate) option" where
  "site_run \<equiv> http_crawl 9 site_parse site_crawl site_env (site_url ''http://h/a/'') site_new"

lemma site_run_ends: "case site_run of Some (HttpEnded None, s) \<Rightarrow>
    map (\<lambda>r. (urUrl r, urState r)) (hsRows s) = [(''http://h/a/'', ''done''), (''http://h/a/b'', ''done''), (''http://h/s.css'', ''done''), (''http://h/i'', ''failed'')]
    \<and> map_of (hsMeta s) ''start:http://h/a/'' = Some ''http://h/a/'' \<and> hsFaults s = []
    \<and> hsFs s [''d'', ''h'', ''a'', ''index.html''] = Some (File ''P'') | _ \<Rightarrow> False"
  by code_simp

abbreviation site_known :: "string set" where
  "site_known \<equiv> set site_urls"

lemma site_run_some:
  obtains s where "site_run = Some (HttpEnded None, s)" and "map_of (hsMeta s) ''start:http://h/a/'' = Some ''http://h/a/''" and "hsFaults s = []"
  using site_run_ends that by (simp split: option.splits prod.splits http_outcome.splits)

lemma site_table: "urls_ok (hsRows site_new)"
  by (simp add: site_new_def table_ok_def)

theorem http_settles_witness:
  "case site_run of Some (HttpEnded None, s') \<Rightarrow> urls_ok (hsRows s') \<and> list_all (\<lambda>r. urState r \<noteq> stateError) (hsRows s') | _ \<Rightarrow> False"
proof -
  obtain s where s: "site_run = Some (HttpEnded None, s)" by (rule site_run_some)
  show ?thesis using http_settles [OF s site_table] s by (auto simp: list_all_iff)
qed

lemma site_start_at: "fst (resolveStart site_crawl site_env (site_url ''http://h/a/'') site_new) = StartAt (site_url ''http://h/a/'')"
  by code_simp

lemma site_root: "Parse ''http://h/a/'' = Inr (site_url ''http://h/a/'')" "start_key (site_url ''http://h/a/'') = ''start:http://h/a/''"
  "url_String (site_url ''http://h/a/'') = ''http://h/a/''"
  "http_inScope (scoped site_crawl (site_url ''http://h/a/'')) (site_url ''http://h/a/'')"
  by code_simp+

theorem http_rerun_witness:
  "case site_run of
     Some (HttpEnded None, s') \<Rightarrow>
       (case http_crawl (Suc (length (hsRows s'))) site_parse (site_crawl\<lparr>hcUpdate := False\<rparr>) site_env (site_url ''http://h/a/'')
           (s'\<lparr>hsRequests := 0, hsErrors := 0\<rparr>) of
          Some (HttpEnded None, s'') \<Rightarrow> hsRequests s'' = 0 \<and> hsFs s'' = hsFs s'
        | _ \<Rightarrow> False)
   | _ \<Rightarrow> False"
proof -
  obtain s where s: "site_run = Some (HttpEnded None, s)"
    and m: "map_of (hsMeta s) (start_key (site_url ''http://h/a/'')) = Some ''http://h/a/''" and f: "hsFaults s = []"
    unfolding site_root(2) by (rule site_run_some)
  from http_rerun [where env' = site_env, OF s site_table m site_root(1) site_start_at site_root(4) f]
  obtain s'' where "http_crawl (Suc (length (hsRows s))) site_parse (site_crawl\<lparr>hcUpdate := False\<rparr>) site_env (site_url ''http://h/a/'')
      (s\<lparr>hsRequests := 0, hsErrors := 0\<rparr>) = Some (HttpEnded None, s'')" "hsRequests s'' = 0" "hsFs s'' = hsFs s"
    by (auto simp: site_env_def site_turn_def)
  then show ?thesis by (simp only: s option.case prod.case http_outcome.case simp_thms)
qed

text \<open>The site offers nothing but its four URLs.\<close>

lemma site_do_cases:
  assumes "site_do rq = Inr a"
  obtains mt tag bdy where "a = site_answer mt tag bdy \<or> a = (site_answer mt tag bdy)\<lparr>anStatus := 404\<rparr>" and "bdy \<in> {''P'', ''url(/i)'', ''B'', []}"
  using assms by (auto simp: site_do_def Let_def split: if_splits intro: that)

lemma site_no_location: "site_do rq = Inr a \<Longrightarrow> \<exists>e. Location rq a = Inl e"
  by (rule site_do_cases [of rq a]) (auto simp: Location_def site_answer_def)

lemma site_css: "css_refs ''P'' = []" "css_refs ''B'' = []" "css_refs [] = []" "css_refs ''url(/i)'' = [''/i'']"
  by code_simp+

lemma site_found_html: "list_all (\<lambda>x. case extractHTML site_parse ''P'' (site_url x) of (ls, rs, li) \<Rightarrow>
    list_all (\<lambda>l. url_String l \<in> set site_urls) ls \<and> list_all (\<lambda>r. url_String r \<in> set site_urls) rs) site_urls"
  by code_simp

lemma site_found_css: "list_all (\<lambda>x. list_all (\<lambda>r. url_String r \<in> set site_urls) (List.map_filter (resolve_ref (site_url x)) [''/i''])) site_urls"
  by code_simp

lemma site_html:
  assumes "b \<in> {''P'', ''url(/i)'', ''B'', []}" and "x \<in> site_known" and "extractHTML site_parse b (site_url x) = (ls, rs, li)"
  shows "(\<forall>l \<in> set ls. url_String l \<in> site_known) \<and> (\<forall>r \<in> set rs. url_String r \<in> site_known)"
proof (cases "b = ''P''")
  case True
  then show ?thesis using site_found_html assms(2,3) unfolding list_all_iff by fastforce
next
  case False
  then have "site_parse b = None" by (simp add: site_parse_def)
  then show ?thesis using assms(3) by (simp add: extractHTML_def)
qed

lemma site_style:
  assumes "b \<in> {''P'', ''url(/i)'', ''B'', []}" and "x \<in> site_known"
  shows "\<forall>r \<in> set (extractCSS b (site_url x)). url_String r \<in> site_known"
proof (cases "b = ''url(/i)''")
  case True
  then show ?thesis using site_found_css assms(2) unfolding list_all_iff by (simp only: extractCSS_def site_css) blast
next
  case False
  then have "css_refs b = []" using assms(1) site_css(1-3) by blast
  then show ?thesis by (simp add: extractCSS_def List.map_filter_def)
qed

lemma site_offers: "offers_within site_parse (scoped site_crawl root) site_env site_known"
proof -
  have "url_String (normalize l) \<in> site_known" if "tuDo (site_env t) rq = Inr a" "Location rq a = Inr l" for t rq a l
    using that site_no_location [of rq a] by (auto simp: site_env_def site_turn_def)
  moreover have "(\<forall>l \<in> set ls. url_String l \<in> site_known) \<and> (\<forall>r \<in> set rs. url_String r \<in> site_known)"
    if d: "site_do rq = Inr a" and x: "x \<in> site_known" and u: "Parse x = Inr u"
      and f: "page_finds site_parse (scoped site_crawl root) u a = (ls, rs, li)" for rq a x u ls rs li
  proof -
    have du: "u = site_url x" using u by (simp add: site_url_def)
    obtain b where b: "anBody a = b" "b \<in> {''P'', ''url(/i)'', ''B'', []}"
      by (rule site_do_cases [OF d]) (auto simp: site_answer_def)
    show ?thesis using f site_html [OF b(2) x, folded du] site_style [OF b(2) x, folded du] b(1)
      by (auto simp: page_finds_def Let_def split: if_splits)
  qed
  ultimately show ?thesis by (auto simp: offers_within_def site_env_def site_turn_def)
qed

theorem http_terminates_witness:
  "\<exists>res. http_crawl (Suc (card site_known)) site_parse site_crawl site_env (site_url ''http://h/a/'') site_new = Some res"
proof (rule http_terminates [where U = site_known])
  show "finite site_known" "url_String (site_url ''http://h/a/'') \<in> site_known"
    by (simp_all add: site_urls_def site_root)
  show "known_urls site_new \<subseteq> site_known" "urls_ok (hsRows site_new)" by (simp_all add: site_new_def table_ok_def)
  show "url_String u \<in> site_known" if "map_of (hsMeta site_new) k = Some v" "Parse v = Inr u" for k v u
    using that by (simp add: site_new_def)
  show "offers_within site_parse (scoped site_crawl root) site_env site_known" for root by (rule site_offers)
qed

abbreviation site_mirror :: "(http_outcome \<times> hstate) option" where
  "site_mirror \<equiv> http_Mirror 9 site_parse site_env False True None ''http://h/a/'' ''/d'' site_new"

abbreviation site_key :: key where
  "site_key \<equiv> [''d'', ''h'', ''a'', ''index.html'']"

lemma site_mirror_writes: "map_option (\<lambda>r. hsFs (snd r) site_key) site_mirror = Some (Some (File ''P''))"
  by code_simp

theorem http_writes_witness: "site_mirror \<noteq> None \<and> downloaded site_env ''/d'' site_key ''P''"
proof -
  obtain out s where s: "site_mirror = Some (out, s)" and k: "hsFs s site_key = Some (File ''P'')"
    using site_mirror_writes by auto
  have "site_key \<noteq> clean_elems (JoinPath [''/d'', http_dbFileName])" by code_simp
  from http_writes [OF s _ this] have a: "http_allowed site_env ''/d'' site_key (hsFs site_new site_key) (Some (File ''P''))" using k by simp
  have "\<not> http_temp site_key" by (simp add: http_temp_def http_tmpSuffix_def suffix_def)
  then show ?thesis using a s by (simp add: http_allowed_def site_new_def)
qed

lemma site_attempt: "fst (http_fetch site_parse (scoped site_crawl (site_url ''http://h/a/'')) (site_env 0) 1 (site_url ''http://h/a/'') False site_new) = None"
  by code_simp

theorem http_fetch_done_witness:
  "\<exists>p rq a. http_localPath ''/d'' (site_url ''http://h/a/'') = Inr p \<and> tuDo (site_env 0) rq = Inr a
     \<and> (anStatus a = 304 \<or> isRedirect (anStatus a) \<or> anStatus a div 100 = 2)"
proof -
  obtain s where s: "http_fetch site_parse (scoped site_crawl (site_url ''http://h/a/'')) (site_env 0) 1 (site_url ''http://h/a/'') False site_new = (None, s)"
    using site_attempt by (metis prod.collapse)
  have d: "hcDest (scoped site_crawl (site_url ''http://h/a/'')) = ''/d''" by (simp add: scoped_def site_crawl_def)
  have c: "(if x then A else if y then B else C \<and> D) \<Longrightarrow> x \<or> y \<or> C" for x y A B C D by (simp split: if_splits)
  from http_fetch_done [where env = site_env and n = 0, OF s] obtain p rq a
    where h: "http_localPath ''/d'' (site_url ''http://h/a/'') = Inr p" "tuDo (site_env 0) rq = Inr a"
      "anStatus a = 304 \<or> isRedirect (anStatus a) \<or> anStatus a div 100 = 2" unfolding d by (auto dest!: c)
  show ?thesis by (intro exI conjI) (fact h)+
qed

abbreviation site_page :: "url list \<times> url list \<times> bool" where
  "site_page \<equiv> page_finds site_parse (scoped site_crawl (site_url ''http://h/a/'')) (site_url ''http://h/a/'') (site_answer ''text/html'' [] ''P'')"

lemma site_page_links: "map url_String (fst site_page) = [''http://h/a/b'', ''http://h/c'']"
  by code_simp


definition site_left :: hstate where
  "site_left = site_new\<lparr>hsRows := [new_url 1 ''http://h/z'' False]\<rparr>"

theorem http_requisite_lost_witness:
  "case enqueue (scoped site_crawl (site_url ''http://h/a/'')) (site_url ''http://h/z'') True site_left of
     (None, s1) \<Rightarrow> hsRows s1 = hsRows site_left | _ \<Rightarrow> False"
proof -
  let ?c = "scoped site_crawl (site_url ''http://h/a/'')"
  obtain s1 where e: "enqueue ?c (site_url ''http://h/z'') True site_left = (None, s1)"
    by (simp add: enqueue_def site_left_def site_new_def db_tick_def)
  have p: "Parse (urUrl (new_url 1 ''http://h/z'' False)) = Inr (site_url ''http://h/z'')"
    "\<not> http_inScope ?c (site_url ''http://h/z'')"
    "urUrl (new_url 1 ''http://h/z'' False) = url_String (site_url ''http://h/z'')" by code_simp+
  have "hsRows site_left = [new_url 1 ''http://h/z'' False]" "pending_row (new_url 1 ''http://h/z'' False)"
    "\<not> urRequisite (new_url 1 ''http://h/z'' False)"
    by (simp_all add: site_left_def pending_row_def new_url_def)
  from http_requisite_lost [OF this p e] this(1) show ?thesis using e by simp
qed

end
