(* ===== verification/LinkFS.thy ===== *)
theory LinkFS
  imports GoFS
begin

text \<open>
  A file system with symbolic links, for the crawler that makes them. Files, directories and links are kept under
  the elements of their absolute places; a path is walked from the root or the working directory, a link on
  the way is replaced by its target, at most forty of them, as the kernel does it.
\<close>

datatype lnode = LDir | LFile string | LLink string

type_synonym lfs = "key \<Rightarrow> lnode option"

definition lnode_at :: "key \<Rightarrow> lfs \<Rightarrow> lnode option" where
  "lnode_at k f = (if k = [] then Some LDir else f k)"

subsection \<open>Walking a path\<close>

text \<open>\<open>follow\<close>: a link at the end of the path is followed too. The result is a place whose directory exists.\<close>

function walk :: "nat \<Rightarrow> lfs \<Rightarrow> bool \<Rightarrow> key \<Rightarrow> string list \<Rightarrow> string + key" where
  "walk n f follow cur [] = Inr cur"
| "walk n f follow cur (e # es) =
    (if e = [] \<or> e = ''.'' then walk n f follow cur es
     else if e = ''..'' then walk n f follow (butlast cur) es
     else (case f (cur @ [e]) of
        Some LDir \<Rightarrow> walk n f follow (cur @ [e]) es
      | Some (LFile _) \<Rightarrow> if es = [] then Inr (cur @ [e]) else Inl ''not a directory''
      | None \<Rightarrow> if es = [] then Inr (cur @ [e]) else Inl ''no such file or directory''
      | Some (LLink t) \<Rightarrow>
          if es = [] \<and> \<not> follow then Inr (cur @ [e])
          else (case n of
             0 \<Rightarrow> Inl ''too many levels of symbolic links''
           | Suc m \<Rightarrow> walk m f follow (if rooted t then [] else cur) (Split t slash @ es))))"
  by pat_completeness auto
termination by (relation "measures [\<lambda>(n, _, _, _, es). n, \<lambda>(n, _, _, _, es). length es]") auto

definition max_links :: nat where "max_links = 40"

definition place :: "key \<Rightarrow> lfs \<Rightarrow> bool \<Rightarrow> path \<Rightarrow> string + key" where
  "place w f follow p = walk max_links f follow (if rooted p then [] else w) (clean_elems p)"

definition os_Stat :: "key \<Rightarrow> lfs \<Rightarrow> path \<Rightarrow> lnode option" where
  "os_Stat w f p = (case place w f True p of Inl _ \<Rightarrow> None | Inr k \<Rightarrow> lnode_at k f)"

definition os_Lstat :: "key \<Rightarrow> lfs \<Rightarrow> path \<Rightarrow> lnode option" where
  "os_Lstat w f p = (case place w f False p of Inl _ \<Rightarrow> None | Inr k \<Rightarrow> lnode_at k f)"

subsection \<open>Operations\<close>

text \<open>An operation gives an error or the new file system; \<open>fault\<close> is the failure of the device or a permission.\<close>

definition os_Mkdir :: "string option \<Rightarrow> key \<Rightarrow> path \<Rightarrow> lfs \<Rightarrow> string + lfs" where
  "os_Mkdir fault w p f =
    (case place w f False p of
       Inl e \<Rightarrow> Inl e
     | Inr k \<Rightarrow>
        (if lnode_at k f \<noteq> None then Inl ''file exists''
         else (case fault of Some e \<Rightarrow> Inl e | None \<Rightarrow> Inr (f(k \<mapsto> LDir)))))"

text \<open>\<open>os.MkdirAll\<close> for the first \<open>n\<close> elements of a path; the failures by the number of elements.\<close>

primrec mkdir_first :: "(nat \<Rightarrow> string option) \<Rightarrow> key \<Rightarrow> bool \<Rightarrow> string list \<Rightarrow> nat \<Rightarrow> lfs \<Rightarrow> string option \<times> lfs" where
  "mkdir_first faults w r es 0 f = (None, f)"
| "mkdir_first faults w r es (Suc n) f =
    (let p = unclean r (take (Suc n) es) in
     case os_Stat w f p of
       Some LDir \<Rightarrow> (None, f)
     | Some _ \<Rightarrow> (Some ''not a directory'', f)
     | None \<Rightarrow>
        (case mkdir_first faults w r es n f of
           (Some e, f1) \<Rightarrow> (Some e, f1)
         | (None, f1) \<Rightarrow> (case os_Mkdir (faults (Suc n)) w p f1 of Inl e \<Rightarrow> (Some e, f1) | Inr f2 \<Rightarrow> (None, f2))))"

definition os_MkdirAll :: "(nat \<Rightarrow> string option) \<Rightarrow> key \<Rightarrow> path \<Rightarrow> lfs \<Rightarrow> string option \<times> lfs" where
  "os_MkdirAll faults w p f = mkdir_first faults w (rooted p) (clean_elems p) (length (clean_elems p)) f"

text \<open>\<open>os.OpenFile\<close> for writing, and the bytes that are written then: at the end of what is there when \<open>app\<close>.
  A link at the end of the path is followed.\<close>

definition os_Write :: "string option \<Rightarrow> key \<Rightarrow> bool \<Rightarrow> path \<Rightarrow> string \<Rightarrow> lfs \<Rightarrow> string + lfs" where
  "os_Write fault w app p x f =
    (case place w f True p of
       Inl e \<Rightarrow> Inl e
     | Inr k \<Rightarrow>
        (case (lnode_at k f, fault) of
           (Some LDir, _) \<Rightarrow> Inl ''is a directory''
         | (_, Some e) \<Rightarrow> Inl e
         | (Some (LFile old), None) \<Rightarrow> Inr (f(k \<mapsto> LFile (if app then old @ x else x)))
         | (_, None) \<Rightarrow> if app then Inl ''no such file or directory'' else Inr (f(k \<mapsto> LFile x))))"

text \<open>\<open>os.Rename\<close> of a file: a link at the end of either path is not followed.\<close>

definition os_Rename :: "string option \<Rightarrow> key \<Rightarrow> path \<Rightarrow> path \<Rightarrow> lfs \<Rightarrow> string + lfs" where
  "os_Rename fault w old new f =
    (case (place w f False old, place w f False new) of
       (Inr k1, Inr k2) \<Rightarrow>
         (if lnode_at k1 f = None then Inl ''no such file or directory''
          else if lnode_at k2 f = Some LDir then Inl ''file exists''
          else (case fault of Some e \<Rightarrow> Inl e | None \<Rightarrow> Inr ((f(k1 := None))(k2 := f k1))))
     | (Inl e, _) \<Rightarrow> Inl e
     | (_, Inl e) \<Rightarrow> Inl e)"

definition os_Symlink :: "string option \<Rightarrow> key \<Rightarrow> string \<Rightarrow> path \<Rightarrow> lfs \<Rightarrow> string + lfs" where
  "os_Symlink fault w t p f =
    (case place w f False p of
       Inl e \<Rightarrow> Inl e
     | Inr k \<Rightarrow>
        (if lnode_at k f \<noteq> None then Inl ''file exists''
         else (case fault of Some e \<Rightarrow> Inl e | None \<Rightarrow> Inr (f(k \<mapsto> LLink t)))))"

subsection \<open>Without links\<close>

text \<open>Without links a path has one place, whatever the file system holds.\<close>

definition no_links :: "lfs \<Rightarrow> bool" where
  "no_links f \<longleftrightarrow> (\<forall>k t. f k \<noteq> Some (LLink t))"

fun lexical :: "key \<Rightarrow> string list \<Rightarrow> key" where
  "lexical cur [] = cur"
| "lexical cur (e # es) =
    (if e = [] \<or> e = ''.'' then lexical cur es else if e = ''..'' then lexical (butlast cur) es else lexical (cur @ [e]) es)"

lemma walk_lexical: "no_links f \<Longrightarrow> walk n f follow cur es = Inr k \<Longrightarrow> k = lexical cur es"
proof (induction es arbitrary: cur)
  case (Cons e es)
  have nl: "f (cur @ [e]) \<noteq> Some (LLink t)" for t using Cons.prems(1) by (simp add: no_links_def)
  show ?case using Cons nl by (auto split: if_splits option.splits lnode.splits)
qed simp

definition lexical_place :: "key \<Rightarrow> path \<Rightarrow> key" where
  "lexical_place w p = lexical (if rooted p then [] else w) (clean_elems p)"

lemma place_lexical: "no_links f \<Longrightarrow> place w f follow p = Inr k \<Longrightarrow> k = lexical_place w p"
  by (auto simp: place_def lexical_place_def dest: walk_lexical)

lemma lexical_append: "lexical cur (a @ b) = lexical (lexical cur a) b"
  by (induction cur a rule: lexical.induct) auto

lemma lexical_plain: "list_all plain_elem es \<Longrightarrow> lexical cur es = cur @ es"
  by (induction es arbitrary: cur) (auto simp: plain_elem_def)

end
