(* ===== verification/FtpMirror.thy ===== *)
theory FtpMirror
  imports LinkFS GoUrl CrawlTable "HOL-Library.Word"
begin

text \<open>
  \<open>ftpmirror/ftpmirror.go\<close>: the recursive mirror of an FTP server, with its table of entries in a database in
  the destination directory. As for the other crawlers, the outcomes of one turn are a record (the network,
  the file system, the context), the failures of the database a list. A call under \<open>guard\<close> may fail in
  any way, which covers its time limit and a cancelled context. The FTP client library gives parsed entries and
  the bytes of a transfer. File times, sleeping and logging are left out.
\<close>

subsection \<open>What the server sends\<close>

datatype entry_type = EntryFolder | EntryFile | EntryLink

record ftp_entry =
  feName :: string
  feType :: entry_type
  feTarget :: string
  feSize :: "64 word"
  feTime :: "int option"     \<comment> \<open>Unix seconds; the zero time is \<open>None\<close>\<close>

datatype ftp_error = Reply nat string | LocalFail string | FatalFail string | OtherFail string

definition permanent :: "ftp_error \<Rightarrow> bool" where
  "permanent err = (case err of Reply code _ \<Rightarrow> 500 \<le> code | _ \<Rightarrow> False)"

definition is_local_fail :: "ftp_error \<Rightarrow> bool" where
  "is_local_fail err = (case err of LocalFail _ \<Rightarrow> True | _ \<Rightarrow> False)"

fun ftp_text :: "ftp_error \<Rightarrow> string" where
  "ftp_text (Reply code msg) = itoa (int code) @ '' '' @ msg"
| "ftp_text (LocalFail e) = e"
| "ftp_text (FatalFail e) = e"
| "ftp_text (OtherFail e) = e"

text \<open>The outcomes of one turn.\<close>

record ftp_turn =
  ftCtx :: "string option"                        \<comment> \<open>the context is cancelled when the loop looks\<close>
  ftAfter :: "string option"                      \<comment> \<open>\dots after a failed attempt\<close>
  ftPause :: "string option"                      \<comment> \<open>\dots in the wait after it\<close>
  ftCopyCtx :: "string option"                    \<comment> \<open>\dots after a transfer\<close>
  ftDial :: "string option"
  ftLogin :: "ftp_error option"
  ftCwd :: "string \<Rightarrow> ftp_error option"
  ftList :: "string \<Rightarrow> ftp_error + ftp_entry list"
  ftFileSize :: "string \<Rightarrow> ftp_error + int"
  ftGetTime :: "string \<Rightarrow> int option"
  ftRetr :: "string \<Rightarrow> nat \<Rightarrow> ftp_error option"   \<comment> \<open>the reply to REST and RETR\<close>
  ftData :: "string \<Rightarrow> nat \<Rightarrow> string"             \<comment> \<open>the bytes of the transfer that reached the file\<close>
  ftCopyErr :: "ftp_error option"
  ftRespErr :: "ftp_error option"
  ftMkdir :: "nat \<Rightarrow> string option"
  ftOpen :: "string option"
  ftClose :: "string option"
  ftRename :: "string option"
  ftSymlink :: "string \<Rightarrow> string option"

type_synonym ftp_turns = "nat \<Rightarrow> ftp_turn"

subsection \<open>The crawl\<close>

definition ftp_dbFileName :: string where "ftp_dbFileName = ''.ftpmirror.db''"
definition ftp_tmpSuffix :: string where "ftp_tmpSuffix = ''.ftpmirror-tmp''"
definition ftp_maxAttempts :: nat where "ftp_maxAttempts = 3"

definition ftp_pending :: string where "ftp_pending = ''pending''"
definition ftp_done :: string where "ftp_done = ''done''"
definition ftp_error_state :: string where "ftp_error_state = ''error''"
definition ftp_failed :: string where "ftp_failed = ''failed''"

record entry_row =
  enID :: nat
  enHost :: string
  enPath :: string
  enIsDir :: bool
  enSize :: int
  enMtime :: int
  enState :: string
  enError :: "string option"

record fcrawl =
  fcUpdate :: bool
  fcAddr :: string
  fcHost :: string
  fcUser :: string
  fcPass :: string
  fcTLS :: "string option"       \<comment> \<open>the server name of the certificate\<close>
  fcImplTLS :: bool
  fcHostDir :: path
  fcRoot :: string
  fcCwd :: key                   \<comment> \<open>the working directory, and the size the system reports for a directory\<close>
  fcDirSize :: nat

record fstate =
  fsRows :: "entry_row list"
  fsFaults :: "string option list"
  fsDisk :: lfs
  fsConn :: bool
  fsTick :: nat
  fsErrors :: nat
  fsFetched :: nat
  fsDials :: nat

definition ftp_inScope :: "fcrawl \<Rightarrow> string \<Rightarrow> bool" where
  "ftp_inScope c p \<longleftrightarrow> p = fcRoot c \<or> fcRoot c = ''/'' \<or> HasPrefix p (fcRoot c @ ''/'')"

definition ftp_localPath :: "fcrawl \<Rightarrow> string \<Rightarrow> path" where
  "ftp_localPath c p = JoinPath [fcHostDir c, Clean (''/'' @ p)]"

definition node_size :: "fcrawl \<Rightarrow> lnode \<Rightarrow> nat" where
  "node_size c n = (case n of LFile x \<Rightarrow> length x | LLink t \<Rightarrow> length t | LDir \<Rightarrow> fcDirSize c)"

subsection \<open>The database\<close>

definition ftp_tick :: "fstate \<Rightarrow> string option \<times> fstate" where
  "ftp_tick s = (case fsFaults s of [] \<Rightarrow> (None, s) | f # fs \<Rightarrow> (f, s\<lparr>fsFaults := fs\<rparr>))"

definition find_entry :: "string \<Rightarrow> string \<Rightarrow> entry_row list \<Rightarrow> entry_row option" where
  "find_entry h p rows = find (\<lambda>r. enHost r = h \<and> enPath r = p) rows"

definition new_entry :: "nat \<Rightarrow> string \<Rightarrow> string \<Rightarrow> bool \<Rightarrow> int \<Rightarrow> int \<Rightarrow> entry_row" where
  "new_entry i h p isDir sz mt = \<lparr>enID = i, enHost = h, enPath = p, enIsDir = isDir, enSize = sz, enMtime = mt,
     enState = ftp_pending, enError = None\<rparr>"

definition ftp_exec :: "(entry_row list \<Rightarrow> entry_row list) \<Rightarrow> fstate \<Rightarrow> string option \<times> fstate" where
  "ftp_exec g s = (case ftp_tick s of (Some e, s1) \<Rightarrow> (Some e, s1) | (None, s1) \<Rightarrow> (None, s1\<lparr>fsRows := g (fsRows s1)\<rparr>))"

text \<open>Whether a known entry has to be fetched again.\<close>

definition entry_changed :: "fcrawl \<Rightarrow> string \<Rightarrow> bool \<Rightarrow> int \<Rightarrow> int \<Rightarrow> entry_row \<Rightarrow> lfs \<Rightarrow> bool" where
  "entry_changed c p isDir sz mt r f \<longleftrightarrow>
     isDir \<noteq> enIsDir r \<or> sz \<noteq> enSize r \<or> mt \<noteq> enMtime r
     \<or> (\<not> isDir \<and> (case os_Lstat (fcCwd c) f (ftp_localPath c p) of
          None \<Rightarrow> True | Some n \<Rightarrow> 0 \<le> sz \<and> int (node_size c n) \<noteq> sz))"

definition ftp_upsert :: "fcrawl \<Rightarrow> string \<Rightarrow> bool \<Rightarrow> int \<Rightarrow> int option \<Rightarrow> fstate \<Rightarrow> string option \<times> fstate" where
  "ftp_upsert c p isDir sz mtime s =
    (let mt = (case mtime of None \<Rightarrow> 0 | Some t \<Rightarrow> t) in
     case ftp_tick s of
       (Some e, s1) \<Rightarrow> (Some e, s1)
     | (None, s1) \<Rightarrow>
        (case find_entry (fcHost c) p (fsRows s1) of
           None \<Rightarrow> ftp_exec (\<lambda>rows. rows @ [new_entry (fresh_id enID rows) (fcHost c) p isDir sz mt]) s1
         | Some r \<Rightarrow>
            (if \<not> fcUpdate c \<or> \<not> entry_changed c p isDir sz mt r (fsDisk s1) then (None, s1)
             else ftp_exec (map_where (\<lambda>x. enID x = enID r)
               (\<lambda>x. x\<lparr>enIsDir := isDir, enSize := sz, enMtime := mt, enState := ftp_pending\<rparr>)) s1)))"

definition ftp_setState :: "nat \<Rightarrow> string \<Rightarrow> ftp_error \<Rightarrow> fstate \<Rightarrow> string option \<times> fstate" where
  "ftp_setState i st err = ftp_exec (map_where (\<lambda>r. enID r = i) (\<lambda>r. r\<lparr>enState := st, enError := Some (ftp_text err)\<rparr>))"

definition mark_entry_done :: "nat \<Rightarrow> fstate \<Rightarrow> string option \<times> fstate" where
  "mark_entry_done i = ftp_exec (map_where (\<lambda>r. enID r = i) (\<lambda>r. r\<lparr>enState := ftp_done, enError := None\<rparr>))"

definition as_ftp :: "string option \<times> fstate \<Rightarrow> ftp_error option \<times> fstate" where
  "as_ftp r = (case r of (e, s) \<Rightarrow> (map_option OtherFail e, s))"

subsection \<open>The connection\<close>

definition ftp_connect :: "fcrawl \<Rightarrow> ftp_turn \<Rightarrow> fstate \<Rightarrow> ftp_error option \<times> fstate" where
  "ftp_connect c t s =
    (if fsConn s then (None, s)
     else (let s1 = s\<lparr>fsDials := Suc (fsDials s)\<rparr> in
       case ftDial t of
         Some e \<Rightarrow> (Some (FatalFail (''connecting to '' @ fcAddr c @ '': '' @ e)), s1)
       | None \<Rightarrow>
          (case ftLogin t of
             Some e \<Rightarrow> (Some (FatalFail (''logging in to '' @ fcAddr c @ '' as '' @ fcUser c @ '': '' @ ftp_text e)), s1)
           | None \<Rightarrow> (None, s1\<lparr>fsConn := True\<rparr>))))"

definition disconnect :: "fstate \<Rightarrow> fstate" where
  "disconnect s = s\<lparr>fsConn := False\<rparr>"

definition ftp_addRoot :: "fcrawl \<Rightarrow> ftp_turn \<Rightarrow> fstate \<Rightarrow> string option \<times> fstate" where
  "ftp_addRoot c t s =
    (case ftp_tick s of
       (Some e, s1) \<Rightarrow> (Some e, s1)
     | (None, s1) \<Rightarrow>
        (if find_entry (fcHost c) (fcRoot c) (fsRows s1) \<noteq> None then (None, s1)
         else (case ftp_connect c t s1 of
            (Some e, s2) \<Rightarrow> (Some (ftp_text e), s2)
          | (None, s2) \<Rightarrow>
             (let url = ''ftp://'' @ fcHost c @ fcRoot c in
              case ftCwd t (fcRoot c) of
                None \<Rightarrow> ftp_upsert c (fcRoot c) True (- 1) None s2
              | Some err \<Rightarrow>
                 (if \<not> permanent err then (Some (url @ '': '' @ ftp_text err), s2)
                  else (case ftFileSize t (fcRoot c) of
                     Inl e \<Rightarrow> (Some (url @ '' is neither a directory nor a file: '' @ ftp_text e), s2)
                   | Inr sz \<Rightarrow> ftp_upsert c (fcRoot c) False sz (ftGetTime t (fcRoot c)) s2))))))"

subsection \<open>Directories\<close>

definition ftp_symlink :: "fcrawl \<Rightarrow> ftp_turn \<Rightarrow> string \<Rightarrow> string \<Rightarrow> lfs \<Rightarrow> lfs" where
  "ftp_symlink c t p target f =
    (let loc = ftp_localPath c p;
         make = (\<lambda>x. case os_Symlink (ftSymlink t loc) (fcCwd c) x loc f of Inl _ \<Rightarrow> f | Inr f1 \<Rightarrow> f1)
     in if target = [] \<or> os_Lstat (fcCwd c) f loc \<noteq> None then f
        else if rooted target then
          (case Rel (DirPath loc) (ftp_localPath c target) of None \<Rightarrow> f | Some rel \<Rightarrow> make rel)
        else make target)"

definition skipped_name :: "string \<Rightarrow> bool" where
  "skipped_name n \<longleftrightarrow> n = [] \<or> n = ''.'' \<or> n = ''..'' \<or> CHR ''/'' \<in> set n"

definition list_entry :: "fcrawl \<Rightarrow> ftp_turn \<Rightarrow> string \<Rightarrow> ftp_entry \<Rightarrow> fstate \<Rightarrow> string option \<times> fstate" where
  "list_entry c t dir e s =
    (if skipped_name (feName e) then (None, s)
     else (let child = JoinPath [dir, feName e] in
       case feType e of
         EntryFolder \<Rightarrow> ftp_upsert c child True (- 1) None s
       | EntryFile \<Rightarrow> ftp_upsert c child False (sint (feSize e)) (feTime e) s
       | EntryLink \<Rightarrow> (None, s\<lparr>fsDisk := ftp_symlink c t child (feTarget e) (fsDisk s)\<rparr>)))"

fun list_entries :: "fcrawl \<Rightarrow> ftp_turn \<Rightarrow> string \<Rightarrow> ftp_entry list \<Rightarrow> fstate \<Rightarrow> string option \<times> fstate" where
  "list_entries c t dir [] s = (None, s)"
| "list_entries c t dir (e # es) s =
    (case list_entry c t dir e s of (Some x, s1) \<Rightarrow> (Some x, s1) | (None, s1) \<Rightarrow> list_entries c t dir es s1)"

definition listDir :: "fcrawl \<Rightarrow> ftp_turn \<Rightarrow> string \<Rightarrow> fstate \<Rightarrow> ftp_error option \<times> fstate" where
  "listDir c t dir s =
    (case (ftCwd t dir, ftList t dir) of
       (Some e, _) \<Rightarrow> (Some e, s)
     | (None, Inl e) \<Rightarrow> (Some e, s)
     | (None, Inr es) \<Rightarrow>
        (case os_MkdirAll (ftMkdir t) (fcCwd c) (ftp_localPath c dir) (fsDisk s) of
           (Some e, f) \<Rightarrow> (Some (LocalFail e), s\<lparr>fsDisk := f\<rparr>)
         | (None, f) \<Rightarrow> as_ftp (list_entries c t dir es (s\<lparr>fsDisk := f\<rparr>))))"

subsection \<open>Files\<close>

text \<open>Where to go on, and the reply: a permanent one at an offset means to start over.\<close>

definition resume_at :: "fcrawl \<Rightarrow> int \<Rightarrow> path \<Rightarrow> lfs \<Rightarrow> nat" where
  "resume_at c sz tmp f =
    (case os_Stat (fcCwd c) f tmp of
       Some n \<Rightarrow> if sz < 0 \<or> int (node_size c n) < sz then node_size c n else 0
     | None \<Rightarrow> 0)"

definition retr_from :: "ftp_turn \<Rightarrow> string \<Rightarrow> nat \<Rightarrow> ftp_error + nat" where
  "retr_from t p off =
    (case ftRetr t p off of
       None \<Rightarrow> Inr off
     | Some e \<Rightarrow>
        (if 0 < off \<and> permanent e then (case ftRetr t p 0 of None \<Rightarrow> Inr 0 | Some e0 \<Rightarrow> Inl e0) else Inl e))"

text \<open>The transfer into the temporary file. What was written stays there, whatever happens then.\<close>

definition transfer :: "fcrawl \<Rightarrow> ftp_turn \<Rightarrow> string \<Rightarrow> int \<Rightarrow> nat \<Rightarrow> path \<Rightarrow> lfs \<Rightarrow> ftp_error option \<times> lfs" where
  "transfer c t p sz off tmp f =
    (let x = ftData t p off in
     case os_Write (ftOpen t) (fcCwd c) (0 < off) tmp x f of
       Inl e \<Rightarrow> (Some (LocalFail e), f)
     | Inr f1 \<Rightarrow>
        ((case (ftCopyCtx t, ftCopyErr t, ftClose t, ftRespErr t) of
            (Some e, _, _, _) \<Rightarrow> Some (OtherFail e)
          | (None, Some e, _, _) \<Rightarrow> Some e
          | (None, None, Some e, _) \<Rightarrow> Some (LocalFail e)
          | (None, None, None, Some e) \<Rightarrow> Some e
          | (None, None, None, None) \<Rightarrow>
              (let got = int (off + length x) in
               if 0 \<le> sz \<and> got < sz then Some (OtherFail (''short transfer: got '' @ itoa got @ '' of '' @ itoa sz @ '' bytes''))
               else None)), f1))"

definition ftp_download :: "fcrawl \<Rightarrow> ftp_turn \<Rightarrow> string \<Rightarrow> int \<Rightarrow> fstate \<Rightarrow> ftp_error option \<times> fstate" where
  "ftp_download c t p sz s =
    (let loc = ftp_localPath c p; tmp = loc @ ftp_tmpSuffix in
     if HasSuffix loc ftp_tmpSuffix then (Some (LocalFail ''file name collides with temp file naming''), s)
     else (case os_MkdirAll (ftMkdir t) (fcCwd c) (DirPath loc) (fsDisk s) of
        (Some e, f1) \<Rightarrow> (Some (LocalFail e), s\<lparr>fsDisk := f1\<rparr>)
      | (None, f1) \<Rightarrow>
         (case retr_from t p (resume_at c sz tmp f1) of
            Inl e \<Rightarrow> (Some e, s\<lparr>fsDisk := f1\<rparr>)
          | Inr off \<Rightarrow>
             (case transfer c t p sz off tmp f1 of
                (Some e, f2) \<Rightarrow> (Some e, s\<lparr>fsDisk := f2\<rparr>)
              | (None, f2) \<Rightarrow>
                 (case os_Rename (ftRename t) (fcCwd c) tmp loc f2 of
                    Inl e \<Rightarrow> (Some (LocalFail e), s\<lparr>fsDisk := f2\<rparr>)
                  | Inr f3 \<Rightarrow> (None, s\<lparr>fsDisk := f3, fsFetched := Suc (fsFetched s)\<rparr>))))))"

subsection \<open>The loop\<close>

definition ftp_attempt :: "fcrawl \<Rightarrow> ftp_turn \<Rightarrow> entry_row \<Rightarrow> fstate \<Rightarrow> ftp_error option \<times> fstate" where
  "ftp_attempt c t r s =
    (case ftp_connect c t s of
       (Some e, s1) \<Rightarrow> (Some e, s1)
     | (None, s1) \<Rightarrow> if enIsDir r then listDir c t (enPath r) s1 else ftp_download c t (enPath r) (enSize r) s1)"

text \<open>\<open>process\<close> with \<open>k\<close> attempts left.\<close>

fun ftp_process :: "fcrawl \<Rightarrow> ftp_turns \<Rightarrow> nat \<Rightarrow> entry_row \<Rightarrow> fstate \<Rightarrow> string option \<times> fstate" where
  "ftp_process c env 0 r s = (None, s)"
| "ftp_process c env (Suc k) r s =
    (let t = env (fsTick s) in
     case ftp_attempt c t r (s\<lparr>fsTick := Suc (fsTick s)\<rparr>) of
       (None, s1) \<Rightarrow> mark_entry_done (enID r) s1
     | (Some err, s1) \<Rightarrow>
        (if ftAfter t \<noteq> None then (ftAfter t, s1)
         else (case err of
            FatalFail e \<Rightarrow> (Some e, s1)
          | _ \<Rightarrow>
             (if permanent err then ftp_setState (enID r) ftp_failed err s1
              else if is_local_fail err \<or> k = 0
              then ftp_setState (enID r) ftp_error_state err ((disconnect s1)\<lparr>fsErrors := Suc (fsErrors s1)\<rparr>)
              else if ftPause t \<noteq> None then (ftPause t, disconnect s1)
              else ftp_process c env k r (disconnect s1)))))"

definition next_entry :: "string \<Rightarrow> nat \<Rightarrow> entry_row list \<Rightarrow> entry_row option" where
  "next_entry h lastID rows =
    (case sort_by (\<lambda>a b. enID a \<le> enID b) (filter (\<lambda>r. enHost r = h \<and> enState r = ftp_pending \<and> lastID < enID r) rows) of
       [] \<Rightarrow> None | r # _ \<Rightarrow> Some r)"

definition ftp_visit :: "fcrawl \<Rightarrow> ftp_turns \<Rightarrow> entry_row \<Rightarrow> fstate \<Rightarrow> string option \<times> fstate" where
  "ftp_visit c env r s = (if \<not> ftp_inScope c (enPath r) then (None, s) else ftp_process c env ftp_maxAttempts r s)"

definition ftp_pick :: "fcrawl \<Rightarrow> ftp_turns \<Rightarrow> nat \<Rightarrow> fstate \<Rightarrow> (string + entry_row option) \<times> fstate" where
  "ftp_pick c env lastID s =
    (case ftCtx (env (fsTick s)) of
       Some e \<Rightarrow> (Inl e, s)
     | None \<Rightarrow>
        (case ftp_tick s of (Some e, s1) \<Rightarrow> (Inl e, s1) | (None, s1) \<Rightarrow> (Inr (next_entry (fcHost c) lastID (fsRows s1)), s1)))"

primrec ftp_run :: "fcrawl \<Rightarrow> ftp_turns \<Rightarrow> nat \<Rightarrow> nat \<Rightarrow> fstate \<Rightarrow> (string option \<times> fstate) option" where
  "ftp_run c env 0 lastID s = None"
| "ftp_run c env (Suc n) lastID s =
    (case ftp_pick c env lastID s of
       (Inl e, s1) \<Rightarrow> Some (Some e, s1)
     | (Inr None, s1) \<Rightarrow> Some (None, s1)
     | (Inr (Some r), s1) \<Rightarrow>
        (case ftp_visit c env r s1 of
           (Some e, s2) \<Rightarrow> Some (Some e, s2)
         | (None, s2) \<Rightarrow> ftp_run c env n (enID r) s2))"

subsection \<open>Mirror\<close>

definition ftp_reset :: "fcrawl \<Rightarrow> entry_row list \<Rightarrow> entry_row list" where
  "ftp_reset c = map_where
     (\<lambda>r. enHost r = fcHost c \<and> (if fcUpdate c then enIsDir r \<or> enState r \<noteq> ftp_done else enState r = ftp_error_state))
     (\<lambda>r. r\<lparr>enState := ftp_pending\<rparr>)"

text \<open>From the open database on: the error of the run, or its end.\<close>

definition ftp_crawl :: "nat \<Rightarrow> fcrawl \<Rightarrow> ftp_turns \<Rightarrow> fstate \<Rightarrow> (string option \<times> fstate) option" where
  "ftp_crawl fuel c env s =
    (case ftp_addRoot c (env (fsTick s)) (s\<lparr>fsTick := Suc (fsTick s)\<rparr>) of
       (Some e, s1) \<Rightarrow> Some (Some e, disconnect s1)
     | (None, s1) \<Rightarrow>
        (case ftp_exec (ftp_reset c) s1 of
           (Some e, s2) \<Rightarrow> Some (Some e, disconnect s2)
         | (None, s2) \<Rightarrow>
            (case ftp_run c env fuel 0 s2 of
               None \<Rightarrow> None
             | Some (Some e, s3) \<Rightarrow> Some (Some e, disconnect s3)
             | Some (None, s3) \<Rightarrow> Some
                 (if 0 < fsErrors s3 then Some (itoa (int (fsErrors s3)) @ '' entries failed, re-run to retry them'') else None,
                  disconnect s3))))"

record ftp_options =
  foUser :: string
  foPassword :: string
  foExplicitTLS :: bool
  foUpdate :: bool

text \<open>\<open>net.JoinHostPort\<close>\<close>

definition JoinHostPort :: "string \<Rightarrow> string \<Rightarrow> string" where
  "JoinHostPort h p = (if CHR '':'' \<in> set h then ''['' @ h @ '']:'' @ p else h @ '':'' @ p)"

definition default_port :: "url \<Rightarrow> string" where
  "default_port u = (if Scheme u = ''ftps'' then ''990'' else ''21'')"

definition ftp_port :: "url \<Rightarrow> string" where
  "ftp_port u = (if Port u = [] then default_port u else Port u)"

text \<open>The host as it names the local directory and the rows.\<close>

definition ftp_host :: "url \<Rightarrow> string" where
  "ftp_host u = ToLower (Hostname u) @ (if ftp_port u \<noteq> default_port u then '':'' @ ftp_port u else [])"

definition ftp_setup :: "ftp_options \<Rightarrow> string \<Rightarrow> path \<Rightarrow> key \<Rightarrow> nat \<Rightarrow> string + fcrawl" where
  "ftp_setup opts source destDir w dirSize =
    (case Parse source of
       Inl e \<Rightarrow> Inl (''parsing '' @ Quote source @ '': '' @ e)
     | Inr u \<Rightarrow>
        (if Scheme u \<noteq> ''ftp'' \<and> Scheme u \<noteq> ''ftps'' then Inl (''not an ftp:// or ftps:// URL: '' @ Quote source)
         else if Hostname u = [] then Inl (''no host in '' @ Quote source)
         else
          (let implicit = Scheme u = ''ftps'';
               h = ftp_host u;
               login = (case User u of None \<Rightarrow> (''anonymous'', ''anonymous@'') | Some (n, pw) \<Rightarrow> (n, case pw of None \<Rightarrow> [] | Some x \<Rightarrow> x))
           in if h = ''.'' \<or> h = ''..'' \<or> ContainsAny h [CHR ''/'', CHR 0x5C] then Inl (''unusable host '' @ Quote (Hostname u))
              else Inr \<lparr>fcUpdate = foUpdate opts, fcAddr = JoinHostPort (Hostname u) (ftp_port u), fcHost = h,
                fcUser = (if foUser opts \<noteq> [] then foUser opts else fst login),
                fcPass = (if foPassword opts \<noteq> [] then foPassword opts else snd login),
                fcTLS = (if implicit \<or> foExplicitTLS opts then Some (Hostname u) else None), fcImplTLS = implicit,
                fcHostDir = JoinPath [destDir, h], fcRoot = Clean (''/'' @ Path u), fcCwd = w, fcDirSize = dirSize\<rparr>)))"

definition ftp_Mirror :: "nat \<Rightarrow> ftp_turns \<Rightarrow> ftp_options \<Rightarrow> string \<Rightarrow> path \<Rightarrow> key \<Rightarrow> nat \<Rightarrow> string option \<Rightarrow> fstate
    \<Rightarrow> (string option \<times> fstate) option" where
  "ftp_Mirror fuel env opts source destDir w dirSize openErr s =
    (case ftp_setup opts source destDir w dirSize of
       Inl e \<Rightarrow> Some (Some e, s)
     | Inr c \<Rightarrow>
        (case openErr of
           Some e \<Rightarrow> Some (Some e, s)
         | None \<Rightarrow> ftp_crawl fuel c env (s\<lparr>fsConn := False, fsErrors := 0, fsFetched := 0, fsDials := 0\<rparr>)))"

definition ftp_match :: "string \<Rightarrow> bool" where
  "ftp_match source \<longleftrightarrow> HasPrefix source ''ftp://'' \<or> HasPrefix source ''ftps://''"

end
