(* ===== verification/FtpLoop.thy ===== *)
theory FtpLoop
  imports FtpMirror
begin

text \<open>
  The table of entries under the operations of the FTP crawl: it only grows, and without \<open>-update\<close> no entry becomes
  pending again. The loop is an instance of the shared work list.
\<close>

subsection \<open>Steps on the table\<close>

abbreviation enName :: "entry_row \<Rightarrow> string \<times> string" where
  "enName r \<equiv> (enHost r, enPath r)"

abbreviation entries_ok :: "entry_row list \<Rightarrow> bool" where
  "entries_ok \<equiv> table_ok enID enName"

lemma ftp_states [simp]: "ftp_done \<noteq> ftp_pending" "ftp_failed \<noteq> ftp_pending" "ftp_error_state \<noteq> ftp_pending"
  "ftp_done \<noteq> ftp_error_state" "ftp_failed \<noteq> ftp_error_state" "ftp_pending \<noteq> ftp_error_state" "ftp_pending \<noteq> ftp_done"
  by (simp_all add: ftp_pending_def ftp_done_def ftp_error_state_def ftp_failed_def)

definition pending_entry :: "fcrawl \<Rightarrow> entry_row \<Rightarrow> bool" where
  "pending_entry c r \<longleftrightarrow> enHost r = fcHost c \<and> enState r = ftp_pending"

definition bad_entry :: "fcrawl \<Rightarrow> entry_row \<Rightarrow> bool" where
  "bad_entry c r \<longleftrightarrow> enHost r = fcHost c \<and> enState r = ftp_error_state"

definition ftp_calm :: "fcrawl \<Rightarrow> fstate \<Rightarrow> fstate \<Rightarrow> bool" where
  "ftp_calm c s s' \<longleftrightarrow>
     tame enID enName (pending_entry c) (bad_entry c) (\<not> fcUpdate c) (fsRows s, fsErrors s) (fsRows s', fsErrors s')"

lemma ftp_calm_trans: "ftp_calm c s s' \<Longrightarrow> ftp_calm c s' s'' \<Longrightarrow> ftp_calm c s s''"
  unfolding ftp_calm_def by (rule tame_trans)

lemma ftp_calm_same: "fsRows s' = fsRows s \<Longrightarrow> fsErrors s' = fsErrors s \<Longrightarrow> ftp_calm c s s'"
  by (simp add: ftp_calm_def)

lemma ftp_tick_same: "ftp_tick s = (e, s1) \<Longrightarrow> fsRows s1 = fsRows s \<and> fsErrors s1 = fsErrors s \<and> fsDisk s1 = fsDisk s
    \<and> fsConn s1 = fsConn s \<and> fsTick s1 = fsTick s \<and> fsFetched s1 = fsFetched s \<and> fsDials s1 = fsDials s"
  by (auto simp: ftp_tick_def split: list.splits)

lemma ftp_exec_cases:
  assumes "ftp_exec g s = (e, s')"
  obtains "e \<noteq> None" and "fsRows s' = fsRows s" and "fsErrors s' = fsErrors s" and "fsDisk s' = fsDisk s" and "fsDials s' = fsDials s"
  | "e = None" and "fsRows s' = g (fsRows s)" and "fsErrors s' = fsErrors s" and "fsDisk s' = fsDisk s" and "fsDials s' = fsDials s"
proof -
  obtain x s1 where d: "ftp_tick s = (x, s1)" by fastforce
  show thesis using that assms d ftp_tick_same [OF d] by (cases x) (auto simp: ftp_exec_def)
qed

lemma find_entry_None: "find_entry h p rows = None \<Longrightarrow> (h, p) \<notin> enName ` set rows"
  by (auto simp: find_entry_def find_None_iff)

lemma find_entry_Some: "find_entry h p rows = Some r \<Longrightarrow> r \<in> set rows \<and> enHost r = h \<and> enPath r = p"
  by (auto simp: find_entry_def find_Some_iff)

lemma upsert_calm:
  assumes "ftp_upsert c p d sz mt s = (e, s')"
  shows "ftp_calm c s s'"
proof -
  obtain x s1 where t: "ftp_tick s = (x, s1)" by fastforce
  note same = ftp_tick_same [OF t]
  have c1: "ftp_calm c s s1" using same by (intro ftp_calm_same) simp_all
  have ins: "ftp_calm c s1 s'" if "find_entry (fcHost c) p (fsRows s1) = None"
    "ftp_exec (\<lambda>rows. rows @ [new_entry (fresh_id enID rows) (fcHost c) p d sz m]) s1 = (e, s')" for m
    using that(2)
  proof (rule ftp_exec_cases)
    assume r: "fsRows s' = fsRows s1 @ [new_entry (fresh_id enID (fsRows s1)) (fcHost c) p d sz m]" "fsErrors s' = fsErrors s1"
    show ?thesis unfolding ftp_calm_def r
      by (rule tame_insert) (use find_entry_None [OF that(1)] in \<open>simp_all add: new_entry_def bad_entry_def\<close>)
  qed (auto intro: ftp_calm_same)
  have upd: "ftp_calm c s1 s'" if "fcUpdate c" "find_entry (fcHost c) p (fsRows s1) = Some r"
    "ftp_exec (map_where (\<lambda>x. enID x = enID r) (\<lambda>x. x\<lparr>enIsDir := d, enSize := sz, enMtime := m, enState := ftp_pending\<rparr>)) s1 = (e, s')" for r m
    using that(3)
  proof (rule ftp_exec_cases)
    assume q: "fsRows s' = map_where (\<lambda>x. enID x = enID r) (\<lambda>x. x\<lparr>enIsDir := d, enSize := sz, enMtime := m, enState := ftp_pending\<rparr>) (fsRows s1)"
      "fsErrors s' = fsErrors s1"
    show ?thesis unfolding ftp_calm_def q by (rule tame_update) (use that(1) in \<open>simp_all add: bad_entry_def\<close>)
  qed (auto intro: ftp_calm_same)
  show ?thesis using assms t c1 ins upd
    by (auto simp: ftp_upsert_def Let_def split: option.splits if_splits intro: ftp_calm_trans [OF c1])
qed

lemma upsert_disk:
  assumes "ftp_upsert c p d sz mt s = (y, s')"
  shows "fsDisk s' = fsDisk s"
proof -
  obtain z s1 where u: "ftp_tick s = (z, s1)" by fastforce
  have ex: "fsDisk s' = fsDisk s1" if "ftp_exec g s1 = (y, s')" for g by (rule ftp_exec_cases [OF that]) simp_all
  show ?thesis using assms u ex ftp_tick_same [OF u] by (auto simp: ftp_upsert_def Let_def split: option.splits if_splits)
qed

lemma list_entries_calm: "list_entries c t dir es s = (e, s') \<Longrightarrow> ftp_calm c s s'"
proof (induction c t dir es s arbitrary: e s' rule: list_entries.induct)
  case (2 c t dir x es s)
  obtain y s1 where 1: "list_entry c t dir x s = (y, s1)" by fastforce
  have "ftp_calm c s s1" using 1 upsert_calm
    by (auto simp: list_entry_def Let_def split: if_splits entry_type.splits intro: ftp_calm_same)
  then show ?case using 2 1 by (cases y) (auto intro: ftp_calm_trans)
qed (simp add: ftp_calm_same)

text \<open>Setting the state of a row that is no longer pending.\<close>

lemma state_calm:
  assumes "ftp_exec (map_where (\<lambda>r. enID r = i) (\<lambda>r. r\<lparr>enState := st, enError := x\<rparr>)) s = (e, s')" and "st \<noteq> ftp_pending"
    and "s = s0 \<and> st \<noteq> ftp_error_state \<or> (\<exists>n > fsErrors s0. s = s0\<lparr>fsErrors := n\<rparr>)"
  shows "ftp_calm c s0 s'" and "e = None \<Longrightarrow> r \<in> set (fsRows s') \<Longrightarrow> enID r = i \<Longrightarrow> \<not> pending_entry c r"
proof -
  have s: "fsRows s = fsRows s0" "fsErrors s0 \<le> fsErrors s" "fsErrors s0 < fsErrors s \<or> st \<noteq> ftp_error_state" using assms(3) by auto
  have u: "tame enID enName (pending_entry c) (bad_entry c) b (rows, fsErrors s0) (map_where P (\<lambda>r. r\<lparr>enState := st, enError := x\<rparr>) rows, fsErrors s)"
    for b rows P by (rule tame_update) (use s(2,3) assms(2) in \<open>simp_all add: pending_entry_def bad_entry_def\<close>, blast)
  have z: "tame enID enName (pending_entry c) (bad_entry c) b (rows, fsErrors s0) (rows, fsErrors s)" for b rows
    using s(2) by (auto simp: tame_def)
  show "ftp_calm c s0 s'" 
  proof (rule ftp_exec_cases [OF assms(1)])
    assume h: "fsRows s' = fsRows s" "fsErrors s' = fsErrors s"
    show ?thesis unfolding ftp_calm_def h s(1) by (rule z)
  next
    assume h: "fsRows s' = map_where (\<lambda>r. enID r = i) (\<lambda>r. r\<lparr>enState := st, enError := x\<rparr>) (fsRows s)" "fsErrors s' = fsErrors s"
    show ?thesis unfolding ftp_calm_def h s(1) by (rule u)
  qed
  have m: "\<not> pending_entry c r" if h: "r \<in> set (map_where (\<lambda>r. enID r = i) (\<lambda>r. r\<lparr>enState := st, enError := x\<rparr>) rows)" "enID r = i" for rows r
  proof -
    obtain r0 where "r = (if enID r0 = i then r0\<lparr>enState := st, enError := x\<rparr> else r0)"
      using h(1) unfolding map_where_def set_map by (elim imageE)
    then show ?thesis using assms(2) h(2) by (cases "enID r0 = i") (simp_all add: pending_entry_def)
  qed
  show "\<not> pending_entry c r" if n: "e = None" and r: "r \<in> set (fsRows s')" "enID r = i"
  proof (rule ftp_exec_cases [OF assms(1)])
    assume "fsRows s' = map_where (\<lambda>r. enID r = i) (\<lambda>r. r\<lparr>enState := st, enError := x\<rparr>) (fsRows s)"
    then show ?thesis using m r by simp
  qed (use n in simp)
qed

subsection \<open>An attempt\<close>

lemma connect_same: "ftp_connect c t s = (e, s1) \<Longrightarrow> fsRows s1 = fsRows s \<and> fsErrors s1 = fsErrors s \<and> fsDisk s1 = fsDisk s \<and> fsTick s1 = fsTick s"
  by (auto simp: ftp_connect_def Let_def split: if_splits option.splits)

lemma listDir_calm:
  assumes "listDir c t dir s = (e, s')"
  shows "ftp_calm c s s'"
proof -
  have f: "ftp_calm c s (s\<lparr>fsDisk := f\<rparr>)" for f by (rule ftp_calm_same) simp_all
  show ?thesis using assms f ftp_calm_trans [OF f list_entries_calm]
    by (auto simp: listDir_def as_ftp_def ftp_calm_same split: option.splits sum.splits prod.splits)
qed

lemma download_same: "ftp_download c t p sz s = (e, s') \<Longrightarrow> fsRows s' = fsRows s \<and> fsErrors s' = fsErrors s"
  by (auto simp: ftp_download_def Let_def split: option.splits sum.splits prod.splits if_splits)

lemma attempt_calm:
  assumes "ftp_attempt c t r s = (e, s')"
  shows "ftp_calm c s s'"
proof -
  obtain x s1 where k: "ftp_connect c t s = (x, s1)" by fastforce
  have c1: "ftp_calm c s s1" using connect_same [OF k] by (intro ftp_calm_same) simp_all
  have "ftp_calm c s1 s'" if "x = None" using assms k that listDir_calm download_same
    by (auto simp: ftp_attempt_def split: if_splits intro: ftp_calm_same)
  then show ?thesis using assms k c1 by (cases x) (auto simp: ftp_attempt_def intro: ftp_calm_trans)
qed

definition entry_settled :: "fcrawl \<Rightarrow> nat \<Rightarrow> fstate \<Rightarrow> string option \<times> fstate \<Rightarrow> bool" where
  "entry_settled c i s res \<longleftrightarrow> ftp_calm c s (snd res)
     \<and> (fst res = None \<longrightarrow> (\<forall>r \<in> set (fsRows (snd res)). enID r = i \<longrightarrow> \<not> pending_entry c r))"

lemma settled_error: "ftp_calm c s s' \<Longrightarrow> x \<noteq> None \<Longrightarrow> entry_settled c i s (x, s')"
  by (auto simp: entry_settled_def)

lemma settled_after: "ftp_calm c s s' \<Longrightarrow> entry_settled c i s' res \<Longrightarrow> entry_settled c i s res"
  unfolding entry_settled_def by (blast intro: ftp_calm_trans)

lemma settled_states':
  "entry_settled c i s (mark_entry_done i s)" "entry_settled c i s (ftp_setState i ftp_failed err s)"
  "entry_settled c i s (ftp_setState i ftp_error_state err (s\<lparr>fsErrors := Suc (fsErrors s)\<rparr>))"
proof -
  have "entry_settled c i s (ftp_exec (map_where (\<lambda>r. enID r = i) (\<lambda>r. r\<lparr>enState := st, enError := x\<rparr>)) s0)"
    if "st \<noteq> ftp_pending" "s0 = s \<and> st \<noteq> ftp_error_state \<or> (\<exists>n > fsErrors s. s0 = s\<lparr>fsErrors := n\<rparr>)" for st x s0
    using state_calm [OF _ that] by (cases "ftp_exec (map_where (\<lambda>r. enID r = i) (\<lambda>r. r\<lparr>enState := st, enError := x\<rparr>)) s0") (auto simp: entry_settled_def)
  note h = this
  show "entry_settled c i s (mark_entry_done i s)" unfolding mark_entry_done_def by (rule h) simp_all
  show "entry_settled c i s (ftp_setState i ftp_failed err s)" unfolding ftp_setState_def by (rule h) simp_all
  show "entry_settled c i s (ftp_setState i ftp_error_state err (s\<lparr>fsErrors := Suc (fsErrors s)\<rparr>))" unfolding ftp_setState_def by (rule h) auto
qed

lemma process_settled: "entry_settled c (enID r) s (ftp_process c env (Suc k) r s)"
proof (induction k arbitrary: s)
  have turn: "entry_settled c (enID r) s (ftp_process c env (Suc k) r s)"
    if rest: "k \<noteq> 0 \<Longrightarrow> \<forall>s1. entry_settled c (enID r) s1 (ftp_process c env k r s1)" for k s
  proof -
    let ?t = "env (fsTick s)"
    obtain e s1 where a: "ftp_attempt c ?t r (s\<lparr>fsTick := Suc (fsTick s)\<rparr>) = (e, s1)" by fastforce
    have "ftp_calm c s (s\<lparr>fsTick := Suc (fsTick s)\<rparr>)" by (rule ftp_calm_same) simp_all
    then have c1: "ftp_calm c s s1" using attempt_calm [OF a] by (rule ftp_calm_trans)
    have "ftp_calm c s1 (disconnect s1)" by (rule ftp_calm_same) (simp_all add: disconnect_def)
    then have c2: "ftp_calm c s (disconnect s1)" by (rule ftp_calm_trans [OF c1])
    have e: "entry_settled c (enID r) s (ftp_setState (enID r) ftp_error_state err ((disconnect s1)\<lparr>fsErrors := Suc (fsErrors s1)\<rparr>))" for err
      using settled_after [OF c2 settled_states'(3)] by (simp add: disconnect_def)
    have re: "entry_settled c (enID r) s (ftp_process c env k r (disconnect s1))" if "k \<noteq> 0"
      using settled_after [OF c2] rest [OF that] by blast
    show ?thesis
    proof (cases e)
      case None
      then show ?thesis using settled_after [OF c1 settled_states'(1)] a by simp
    next
      case (Some err)
      then show ?thesis using a settled_error [OF c1] settled_error [OF c2] settled_after [OF c1 settled_states'(2)] e re
        by (cases err) (simp_all add: Let_def)
    qed
  qed
  {
    case 0
    show ?case by (rule turn) simp
  next
    case (Suc k)
    show ?case by (rule turn) (use Suc.IH in blast)
  }
qed

subsection \<open>The loop\<close>

definition out_of_root :: "fcrawl \<Rightarrow> entry_row \<Rightarrow> bool" where
  "out_of_root c r \<longleftrightarrow> \<not> ftp_inScope c (enPath r)"

lemma ftp_visit_calm:
  assumes "ftp_visit c env r s = (x, s')"
  shows "ftp_calm c s s'" and "x = None \<Longrightarrow> \<not> out_of_root c r \<Longrightarrow> r' \<in> set (fsRows s') \<Longrightarrow> enID r' = enID r \<Longrightarrow> \<not> pending_entry c r'"
proof -
  have a: "entry_settled c (enID r) s (ftp_process c env ftp_maxAttempts r s)"
    using process_settled [of c r s env 2] by (simp add: ftp_maxAttempts_def eval_nat_numeral)
  show "ftp_calm c s s'" using a assms by (auto simp: ftp_visit_def entry_settled_def ftp_calm_same split: if_splits)
  show "x = None \<Longrightarrow> \<not> out_of_root c r \<Longrightarrow> r' \<in> set (fsRows s') \<Longrightarrow> enID r' = enID r \<Longrightarrow> \<not> pending_entry c r'"
    using a assms by (auto simp: ftp_visit_def out_of_root_def entry_settled_def)
qed

lemma next_entry_Some:
  assumes "next_entry (fcHost c) lo rows = Some r"
  shows "r \<in> set rows \<and> pending_entry c r \<and> lo < enID r \<and> (\<forall>r' \<in> set rows. pending_entry c r' \<longrightarrow> lo < enID r' \<longrightarrow> enID r \<le> enID r')"
proof -
  let ?P = "\<lambda>r. enHost r = fcHost c \<and> enState r = ftp_pending \<and> lo < enID r"
  obtain rs where s: "sort_by (\<lambda>a b. enID a \<le> enID b) (filter ?P rows) = r # rs"
    using assms by (auto simp: next_entry_def split: list.splits)
  have "total_preorder (\<lambda>a b. enID a \<le> enID b)" by (auto simp: total_preorder_def)
  then have l: "enID r \<le> enID r'" if "r' \<in> set (filter ?P rows)" for r' using sort_by_hd_least [OF _ s that] by blast
  have "r \<in> set (sort_by (\<lambda>a b. enID a \<le> enID b) (filter ?P rows))" using s by simp
  then show ?thesis using l by (simp add: pending_entry_def)
qed

lemma next_entry_None: "next_entry (fcHost c) lo rows = None \<Longrightarrow> r \<in> set rows \<Longrightarrow> pending_entry c r \<Longrightarrow> enID r \<le> lo"
  by (fastforce simp: next_entry_def pending_entry_def filter_empty_conv split: list.splits)

lemma ftp_pick_cases:
  assumes "ftp_pick c env lo s = (p, s1)"
  shows "fsRows s1 = fsRows s \<and> fsErrors s1 = fsErrors s \<and> fsDisk s1 = fsDisk s \<and> fsDials s1 = fsDials s
    \<and> (\<forall>x. p = Inr x \<longrightarrow> x = next_entry (fcHost c) lo (fsRows s))"
  using assms ftp_tick_same [of s] by (auto simp: ftp_pick_def split: option.splits prod.splits)

interpretation ftp_list: worklist "ftp_pick c env" "ftp_visit c env" "ftp_run c env" fsRows enID enName "pending_entry c"
  for c env
proof unfold_locales
  show "ftp_run c env 0 lo s = None" for lo s by simp
  show "ftp_run c env (Suc n) lo s = (case ftp_pick c env lo s of
      (Inl e, s1) \<Rightarrow> Some (Some e, s1)
    | (Inr None, s1) \<Rightarrow> Some (None, s1)
    | (Inr (Some r), s1) \<Rightarrow>
       (case ftp_visit c env r s1 of (Some e, s2) \<Rightarrow> Some (Some e, s2) | (None, s2) \<Rightarrow> ftp_run c env n (enID r) s2))" for n lo s
    by simp
  show "fsRows s1 = fsRows s" if "ftp_pick c env lo s = (p, s1)" for lo s p s1 using ftp_pick_cases [OF that] by blast
  show "enID r \<le> lo" if "ftp_pick c env lo s = (Inr None, s1)" "r \<in> set (fsRows s)" "pending_entry c r" for lo s s1 r
    using ftp_pick_cases [OF that(1)] that(2,3) next_entry_None by metis
  show "r \<in> set (fsRows s) \<and> pending_entry c r \<and> lo < enID r
      \<and> (\<forall>r' \<in> set (fsRows s). pending_entry c r' \<longrightarrow> lo < enID r' \<longrightarrow> enID r \<le> enID r')"
    if "ftp_pick c env lo s = (Inr (Some r), s1)" for lo s r s1
    using ftp_pick_cases [OF that] by (intro next_entry_Some) simp
  show "grows enID enName (fsRows s) (fsRows s')" if "ftp_visit c env r s = (x, s')" for r s x s'
    using ftp_visit_calm(1) [OF that] by (auto simp: ftp_calm_def dest: tame_grows)
qed

text \<open>Without \<open>-update\<close> a visit makes no earlier entry pending.\<close>

abbreviation plain :: "fcrawl \<Rightarrow> fcrawl" where
  "plain c \<equiv> c\<lparr>fcUpdate := False\<rparr>"

interpretation ftp_once: settling_worklist "ftp_pick (plain c) env" "ftp_visit (plain c) env" "ftp_run (plain c) env" fsRows enID enName
    "pending_entry (plain c)" "out_of_root (plain c)"
  for c env
proof unfold_locales
  let ?c = "plain c"
  show "out_of_root ?c r' \<or> (\<exists>r0 \<in> set (fsRows s). enID r0 = enID r' \<and> pending_entry ?c r0 \<and> enID r0 \<noteq> enID r
      \<and> (out_of_root ?c r0 \<longrightarrow> out_of_root ?c r'))"
    if v: "ftp_visit ?c env r s = (None, s')" and ok: "entries_ok (fsRows s)" and r: "r \<in> set (fsRows s)"
      and r': "r' \<in> set (fsRows s')" "pending_entry ?c r'" "enID r' \<le> enID r" for r s s' r'
  proof -
    have "\<not> (\<forall>r0 \<in> set (fsRows s). enID r0 < enID r')" using r r'(3) by (meson not_le)
    then obtain r0 where 0: "r0 \<in> set (fsRows s)" "enID r0 = enID r'" "enName r0 = enName r'" "pending_entry ?c r0"
      using ftp_visit_calm(1) [OF v] r'(1,2) unfolding ftp_calm_def tame_def by auto
    then have p: "out_of_root ?c r0 = out_of_root ?c r'" by (simp add: out_of_root_def)
    show ?thesis
    proof (cases "enID r0 = enID r")
      case True
      then have "r0 = r" using table_ok_ident [OF ok 0(1) r] by blast
      then show ?thesis using ftp_visit_calm(2) [OF v _ _ r'(1)] r'(2) 0(2) p by metis
    qed (use 0 p in blast)
  qed
qed

end
