(* ===== verification/FtpFiles.thy ===== *)
theory FtpFiles
  imports FtpLoop
begin

text \<open>
  What the FTP crawl does to the file system as long as there are no symbolic links, neither on the disk nor in the
  listings: it stays below the destination, and what it puts in place is what the server has.
\<close>

subsection \<open>Places\<close>

lemma take_dots: "dots_then_plain es \<Longrightarrow> dots_then_plain (take m es)"
proof -
  assume "dots_then_plain es"
  then obtain n gs where g: "es = replicate n ''..'' @ gs" "list_all plain_elem gs" unfolding dots_then_plain_def by blast
  have "take m es = replicate (min m n) ''..'' @ take (m - n) gs" by (simp add: g(1) min_def)
  moreover have "list_all plain_elem (take (m - n) gs)" using g(2) by (auto simp: list_all_iff dest: in_set_takeD)
  ultimately show ?thesis unfolding dots_then_plain_def by blast
qed

lemma unclean_take:
  "clean_elems (unclean (rooted p) (take m (clean_elems p))) = take m (clean_elems p)"
  "rooted (unclean (rooted p) (take m (clean_elems p))) = rooted p"
proof -
  let ?es = "take m (clean_elems p)"
  have d: "dots_then_plain ?es" by (rule take_dots [OF clean_elems_shape])
  have dot: "clean_elems ''.'' = []" "\<not> rooted ''.''" by code_simp+
  show "clean_elems (unclean (rooted p) ?es) = ?es"
  proof (cases "rooted p")
    case True
    then have "list_all plain_elem ?es" using clean_elems_rooted_plain [OF True] by (auto simp: list_all_iff dest: in_set_takeD)
    then show ?thesis using True clean_elems_unclean_rooted by (simp add: unclean_def)
  next
    case False
    then show ?thesis using clean_elems_Join [OF d] dot by (simp add: unclean_def)
  qed
  show "rooted (unclean (rooted p) ?es) = rooted p" using unrooted_Join [OF d] dot by (auto simp: unclean_def)
qed

text \<open>A path up to some element names a place above the working directory or above the place of the whole path.\<close>

lemma lexical_take:
  assumes "dots_then_plain es"
  shows "prefix (lexical cur (take m es)) cur \<or> prefix (lexical cur (take m es)) (lexical cur es)"
proof -
  obtain n gs where g: "es = replicate n ''..'' @ gs" "list_all plain_elem gs" using assms unfolding dots_then_plain_def by blast
  have up: "prefix (lexical c (replicate i ''..'')) c" for i c
    by (induction i arbitrary: c) (auto intro: prefix_order.trans prefixeq_butlast)
  show ?thesis
  proof (cases "m \<le> n")
    case True
    then have "take m es = replicate m ''..''" by (simp add: g(1) min_def)
    then show ?thesis using up by simp
  next
    case False
    then have t: "take m es = replicate n ''..'' @ take (m - n) gs" by (simp add: g(1))
    have "list_all plain_elem (take (m - n) gs)" using g(2) by (auto simp: list_all_iff dest: in_set_takeD)
    then have "prefix (lexical cur (take m es)) (lexical cur es)"
      unfolding t unfolding g(1) lexical_append using g(2) by (simp add: lexical_plain take_is_prefix)
    then show ?thesis by blast
  qed
qed

text \<open>The destination, in which every host has a directory of its own.\<close>

definition host_dir :: "fcrawl \<Rightarrow> path \<Rightarrow> string \<Rightarrow> bool" where
  "host_dir c d h \<longleftrightarrow> fcHostDir c = JoinPath [d, h] \<and> d \<noteq> [] \<and> plain_elem h"

definition ftp_key :: "fcrawl \<Rightarrow> string \<Rightarrow> key" where
  "ftp_key c p = lexical_place (fcCwd c) (ftp_localPath c p)"

definition ftp_tmp_key :: "fcrawl \<Rightarrow> string \<Rightarrow> key" where
  "ftp_tmp_key c p = lexical_place (fcCwd c) (ftp_localPath c p @ ftp_tmpSuffix)"

lemma ftp_plain_tmp: "plain_suffix ftp_tmpSuffix"
  by (simp add: plain_suffix_def ftp_tmpSuffix_def slash_def)

lemma host_dir_elems:
  assumes "host_dir c d h"
  shows "clean_elems (fcHostDir c) = clean_elems d @ [h]" and "rooted (fcHostDir c) = rooted d" and "fcHostDir c \<noteq> []"
proof -
  have h: "h \<noteq> []" "plain_elem h" "d \<noteq> []" using assms by (simp_all add: host_dir_def plain_elem_def)
  have J: "fcHostDir c = Clean (d @ slash # h)" using assms h by (simp add: host_dir_def JoinPath_two)
  show "fcHostDir c \<noteq> []" by (simp add: J)
  show "rooted (fcHostDir c) = rooted d" using h by (simp add: J rooted_append)
  show "clean_elems (fcHostDir c) = clean_elems d @ [h]" using clean_elems_append_plain [of d "[h]"] h by (simp add: J)
qed

lemma ftp_localPath_facts:
  assumes "host_dir c d h"
  obtains es where "clean_elems (ftp_localPath c p) = clean_elems d @ h # es" and "list_all plain_elem es"
    and "rooted (ftp_localPath c p) = rooted d" and "Clean (ftp_localPath c p) = ftp_localPath c p"
    and "ftp_key c p = lexical_place (fcCwd c) d @ h # es"
    and "ftp_tmp_key c p = butlast (ftp_key c p) @ [last (ftp_key c p) @ ftp_tmpSuffix]"
proof -
  note hd = host_dir_elems [OF assms]
  have r: "rooted (''/'' @ p)" by (simp add: rooted_iff slash_def)
  define es where "es = clean_elems (''/'' @ p)"
  have pl: "list_all plain_elem es" unfolding es_def by (rule clean_elems_rooted_plain [OF r])
  have pl_h: "plain_elem h" using assms by (simp add: host_dir_def)
  have ce: "clean_elems (ftp_localPath c p) = clean_elems d @ h # es"
    using under_JoinPath_clean(2) [OF hd(3) r] hd(1) by (simp add: ftp_localPath_def es_def)
  have ro: "rooted (ftp_localPath c p) = rooted d"
    using under_JoinPath_clean(1) [OF hd(3) r] hd(2) by (simp add: ftp_localPath_def path_under_def)
  have cl: "Clean (ftp_localPath c p) = ftp_localPath c p"
    using hd(3) by (simp add: ftp_localPath_def JoinPath_two)
  have k: "ftp_key c p = lexical_place (fcCwd c) d @ h # es"
    using pl pl_h by (simp add: ftp_key_def lexical_place_def ce ro lexical_append lexical_plain plain_elem_def)
  have t: "clean_elems (ftp_localPath c p @ ftp_tmpSuffix) = clean_elems d @ butlast (h # es) @ [last (h # es) @ ftp_tmpSuffix]"
    using clean_elems_suffix [OF ftp_plain_tmp, of "ftp_localPath c p"] cl ce by (simp add: with_suffix_def butlast_append)
  have rt: "rooted (ftp_localPath c p @ ftp_tmpSuffix) = rooted d"
  proof -
    have "ftp_localPath c p \<noteq> []" using cl Clean_nonempty by metis
    then show ?thesis using ro rooted_append by blast
  qed
  have "slash \<notin> set (last (h # es))" using pl pl_h by (cases "es = []") (auto simp: plain_elem_def list_all_iff)
  then have "plain_elem (last (h # es) @ ftp_tmpSuffix)" by (rule plain_suffix_elem [OF ftp_plain_tmp])
  moreover have "list_all plain_elem (butlast (h # es))" using pl pl_h by (auto simp: list_all_iff dest: in_set_butlastD)
  ultimately have "list_all plain_elem (butlast (h # es) @ [last (h # es) @ ftp_tmpSuffix])" by simp
  then have "lexical cur (butlast (h # es) @ [last (h # es) @ ftp_tmpSuffix]) = cur @ butlast (h # es) @ [last (h # es) @ ftp_tmpSuffix]" for cur
    by (rule lexical_plain)
  then have "ftp_tmp_key c p = lexical_place (fcCwd c) d @ butlast (h # es) @ [last (h # es) @ ftp_tmpSuffix]"
    unfolding ftp_tmp_key_def lexical_place_def t rt by (simp only: lexical_append [of _ "clean_elems d"])
  then have "ftp_tmp_key c p = butlast (ftp_key c p) @ [last (ftp_key c p) @ ftp_tmpSuffix]" by (simp add: k butlast_append)
  then show thesis using that ce pl ro cl k by blast
qed

lemma tmp_key_inj: "host_dir c d h \<Longrightarrow> ftp_tmp_key c p = ftp_tmp_key c q \<Longrightarrow> ftp_key c p = ftp_key c q"
proof -
  assume h: "host_dir c d h" and e: "ftp_tmp_key c p = ftp_tmp_key c q"
  have t: "ftp_tmp_key c x = butlast (ftp_key c x) @ [last (ftp_key c x) @ ftp_tmpSuffix] \<and> ftp_key c x \<noteq> []" for x
    by (rule ftp_localPath_facts [OF h, of x]) simp
  then show ?thesis using e by (metis append_butlast_last_id append_same_eq butlast_snoc last_snoc)
qed

subsection \<open>Operations without links\<close>

lemma no_links_upd: "no_links f \<Longrightarrow> (\<And>t. n \<noteq> Some (LLink t)) \<Longrightarrow> no_links (f(k := n))"
  by (simp add: no_links_def)

lemma Mkdir_plain:
  assumes "no_links f" and "os_Mkdir fl w p f = Inr f'"
  shows "f (lexical_place w p) = None" and "f' = f(lexical_place w p \<mapsto> LDir)"
  using assms(2) place_lexical [OF assms(1), of w False p]
  by (auto simp: os_Mkdir_def lnode_at_def split: sum.splits option.splits if_splits)

lemma mkdir_first_plain:
  assumes "no_links f" and "mkdir_first fl w r es n f = (e, f')"
  shows "no_links f' \<and> (\<forall>k. f' k = f k \<or> (f k = None \<and> f' k = Some LDir \<and> (\<exists>m. k = lexical_place w (unclean r (take m es)))))"
  using assms(2)
proof (induction n arbitrary: e f')
  case (Suc n)
  obtain e1 f1 where 1: "mkdir_first fl w r es n f = (e1, f1)" by fastforce
  note IH = Suc.IH [OF 1]
  let ?p = "unclean r (take (Suc n) es)"
  consider "f' = f" | "f' = f1" | f2 where "os_Mkdir (fl (Suc n)) w ?p f1 = Inr f2" "f' = f2"
    using Suc.prems 1 by (auto simp: Let_def split: option.splits lnode.splits sum.splits)
  then show ?case
  proof cases
    case 3
    have n1: "no_links f1" using IH by blast
    note m = Mkdir_plain [OF n1 3(1)]
    have f': "f' = f1(lexical_place w ?p \<mapsto> LDir)" using m(2) 3(2) by simp
    have "no_links f'" unfolding f' by (rule no_links_upd [OF n1]) simp
    moreover have "f' k = f k \<or> (f k = None \<and> f' k = Some LDir \<and> (\<exists>m. k = lexical_place w (unclean r (take m es))))" for k
    proof (cases "k = lexical_place w ?p")
      case True
      have "f k = None" using IH m(1) True by (metis option.distinct(1))
      then show ?thesis using True by (auto simp: f')
    qed (use IH in \<open>simp add: f'\<close>)
    ultimately show ?thesis by blast
  qed (use IH assms(1) in auto)
qed (use assms(1) in simp)

text \<open>The working directory exists.\<close>

definition cwd_exists :: "key \<Rightarrow> lfs \<Rightarrow> bool" where
  "cwd_exists w f \<longleftrightarrow> (\<forall>k. prefix k w \<longrightarrow> k \<noteq> [] \<longrightarrow> f k = Some LDir)"

lemma MkdirAll_plain:
  assumes "no_links f" and "cwd_exists w f" and "os_MkdirAll fl w p f = (e, f')"
  shows "no_links f' \<and> (\<forall>k. f' k = f k \<or> (f k = None \<and> f' k = Some LDir \<and> prefix k (lexical_place w p)))"
proof -
  note m = mkdir_first_plain [OF assms(1) assms(3) [unfolded os_MkdirAll_def]]
  have "prefix k (lexical_place w p)" if k: "f k = None" "f' k = Some LDir" "k = lexical_place w (unclean (rooted p) (take i (clean_elems p)))" for k i
  proof -
    let ?cur = "if rooted p then [] else w"
    have kk: "k = lexical ?cur (take i (clean_elems p))" by (simp add: k(3) lexical_place_def unclean_take)
    consider "prefix k ?cur" | "prefix k (lexical_place w p)"
      using lexical_take [OF clean_elems_shape, of ?cur i p] kk by (auto simp: lexical_place_def)
    then show ?thesis
    proof cases
      case 1
      then have "k = [] \<or> f k \<noteq> None" using assms(2) by (cases "rooted p") (auto simp: cwd_exists_def)
      then show ?thesis using k(1) by auto
    qed
  qed
  then show ?thesis using m by metis
qed

lemma Write_plain:
  assumes "no_links f" and "os_Write fl w app p x f = Inr f'"
  shows "f (lexical_place w p) \<noteq> Some LDir" and "lexical_place w p \<noteq> []"
    and "\<exists>old. (app \<longrightarrow> f (lexical_place w p) = Some (LFile old)) \<and> f' = f(lexical_place w p \<mapsto> LFile (if app then old @ x else x))"
proof -
  obtain k where k: "place w f True p = Inr k" using assms(2) by (auto simp: os_Write_def split: sum.splits)
  then have kk: "k = lexical_place w p" by (rule place_lexical [OF assms(1)])
  have nl: "f k \<noteq> Some (LLink t)" for t using assms(1) by (simp add: no_links_def)
  have kn: "k \<noteq> []" "lnode_at k f \<noteq> Some LDir" using assms(2) k by (auto simp: os_Write_def lnode_at_def)
  then have ln: "lnode_at k f = f k" by (simp add: lnode_at_def)
  show "f (lexical_place w p) \<noteq> Some LDir" "lexical_place w p \<noteq> []" using kn ln kk by simp_all
  show "\<exists>old. (app \<longrightarrow> f (lexical_place w p) = Some (LFile old)) \<and> f' = f(lexical_place w p \<mapsto> LFile (if app then old @ x else x))"
    using assms(2) k kn nl ln unfolding kk os_Write_def
    by (cases "f (lexical_place w p)") (auto split: lnode.splits option.splits if_splits)
qed

lemma Rename_plain:
  assumes "no_links f" and "os_Rename fl w old new f = Inr f'"
  shows "f (lexical_place w new) \<noteq> Some LDir" and "lexical_place w new \<noteq> []"
    and "f' = (f(lexical_place w old := None))(lexical_place w new := f (lexical_place w old))"
  using assms(2) place_lexical [OF assms(1), of w False old] place_lexical [OF assms(1), of w False new]
  by (auto simp: os_Rename_def lnode_at_def split: sum.splits option.splits if_splits)

lemma Stat_plain:
  assumes "no_links f" and "os_Stat w f p = Some n" and "lexical_place w p \<noteq> []"
  shows "f (lexical_place w p) = Some n"
  using assms place_lexical [OF assms(1), of w True p] by (auto simp: os_Stat_def lnode_at_def split: sum.splits if_splits)

subsection \<open>Steps on the disk\<close>

definition ftp_temp :: "key \<Rightarrow> bool" where
  "ftp_temp k \<longleftrightarrow> k \<noteq> [] \<and> suffix ftp_tmpSuffix (last k)"

text \<open>A place changes only by a new directory on the way to the destination \<open>D\<close> or below it, as a temporary place below it, or by
  a file with a content that is \<open>good\<close> there.\<close>

definition ftp_allowed :: "key \<Rightarrow> (key \<Rightarrow> string \<Rightarrow> bool) \<Rightarrow> key \<Rightarrow> lnode option \<Rightarrow> lnode option \<Rightarrow> bool" where
  "ftp_allowed D good k old new \<longleftrightarrow> new = old
     \<or> (old = None \<and> new = Some LDir \<and> (prefix D k \<or> prefix k D))
     \<or> (strict_prefix D k \<and> ftp_temp k)
     \<or> (strict_prefix D k \<and> old \<noteq> Some LDir \<and> (\<exists>x. new = Some (LFile x) \<and> good k x))"

text \<open>No links, and what is left in a temporary place is a \<open>part\<close> of something.\<close>

definition disk_inv :: "fcrawl \<Rightarrow> (key \<Rightarrow> string \<Rightarrow> bool) \<Rightarrow> lfs \<Rightarrow> bool" where
  "disk_inv c part f \<longleftrightarrow> no_links f \<and> cwd_exists (fcCwd c) f
     \<and> (\<forall>p x. f (ftp_tmp_key c p) = Some (LFile x) \<longrightarrow> part (ftp_tmp_key c p) x)"

definition disk_step :: "fcrawl \<Rightarrow> key \<Rightarrow> (key \<Rightarrow> string \<Rightarrow> bool) \<Rightarrow> (key \<Rightarrow> string \<Rightarrow> bool) \<Rightarrow> lfs \<Rightarrow> lfs \<Rightarrow> bool" where
  "disk_step c D good part f f' \<longleftrightarrow> disk_inv c part f \<longrightarrow> disk_inv c part f' \<and> (\<forall>k. ftp_allowed D good k (f k) (f' k))"

lemma disk_step_refl [simp]: "disk_step c D good part f f"
  by (simp add: disk_step_def ftp_allowed_def)

lemma ftp_allowed_trans: "ftp_allowed D good k x y \<Longrightarrow> ftp_allowed D good k y z \<Longrightarrow> ftp_allowed D good k x z"
  by (auto simp: ftp_allowed_def)

lemma disk_step_trans: "disk_step c D good part f g \<Longrightarrow> disk_step c D good part g h \<Longrightarrow> disk_step c D good part f h"
  unfolding disk_step_def by (meson ftp_allowed_trans)

lemma rooted_DirPath: "rooted (DirPath p) = rooted p"
proof (cases "LastIndexByte p slash")
  case None
  then have "slash \<notin> set p" by (simp add: LastIndexByte_None)
  then have "\<not> rooted p" by (auto simp: rooted_iff)
  then show ?thesis using None by (simp add: DirPath_def rooted_iff slash_def)
next
  case (Some i)
  then show ?thesis by (cases p) (simp_all add: DirPath_def, auto simp: rooted_iff)
qed

text \<open>A new directory on the way to a place below the destination.\<close>

lemma mkdir_step:
  assumes "os_MkdirAll fl (fcCwd c) q f = (e, f')" and "prefix (clean_elems q) (clean_elems p)" and "rooted q = rooted p"
    and "prefix D (lexical_place (fcCwd c) p)"
  shows "disk_step c D good part f f'"
  unfolding disk_step_def
proof
  assume inv: "disk_inv c part f"
  then have nl: "no_links f" and cw: "cwd_exists (fcCwd c) f" by (simp_all add: disk_inv_def)
  note m = MkdirAll_plain [OF nl cw assms(1)]
  obtain i where i: "clean_elems q = take i (clean_elems p)" using assms(2) by (metis append_eq_conv_conj prefix_def)
  have near: "prefix D k \<or> prefix k D" if k: "f k = None" "f' k = Some LDir" "prefix k (lexical_place (fcCwd c) q)" for k
  proof -
    let ?cur = "if rooted p then [] else fcCwd c"
    have "prefix (lexical_place (fcCwd c) q) ?cur \<or> prefix (lexical_place (fcCwd c) q) (lexical_place (fcCwd c) p)"
      using lexical_take [OF clean_elems_shape, of ?cur i p] by (simp add: lexical_place_def assms(3) i)
    then show ?thesis
    proof
      assume "prefix (lexical_place (fcCwd c) q) ?cur"
      then have "prefix k ?cur" using k(3) prefix_order.trans by blast
      then have "k = []" using cw k(1) by (cases "rooted p") (auto simp: cwd_exists_def)
      then show ?thesis by simp
    next
      assume "prefix (lexical_place (fcCwd c) q) (lexical_place (fcCwd c) p)"
      then have "prefix k (lexical_place (fcCwd c) p)" using k(3) prefix_order.trans by blast
      then show ?thesis using assms(4) prefix_same_cases by blast
    qed
  qed
  have keep: "f' k = Some (LFile x) \<Longrightarrow> f k = Some (LFile x)" "f k \<noteq> None \<Longrightarrow> f' k = f k" for k x
    using m by (metis lnode.distinct(1) option.inject, metis)
  have "disk_inv c part f'" using inv m keep unfolding disk_inv_def cwd_exists_def by (metis option.distinct(1))
  moreover have "ftp_allowed D good k (f k) (f' k)" for k using m near [of k] unfolding ftp_allowed_def by metis
  ultimately show "disk_inv c part f' \<and> (\<forall>k. ftp_allowed D good k (f k) (f' k))" by blast
qed

subsection \<open>Downloads\<close>

text \<open>What a transfer leaves in the temporary file is a part again, and good when nothing failed.\<close>

definition sound_transfers :: "fcrawl \<Rightarrow> ftp_turns \<Rightarrow> (key \<Rightarrow> string \<Rightarrow> bool) \<Rightarrow> (key \<Rightarrow> string \<Rightarrow> bool) \<Rightarrow> bool" where
  "sound_transfers c env good part \<longleftrightarrow>
     (\<forall>n p off old. ftRetr (env n) p off = None \<longrightarrow> length old = off \<longrightarrow> (0 < off \<longrightarrow> part (ftp_tmp_key c p) old) \<longrightarrow>
        part (ftp_tmp_key c p) (old @ ftData (env n) p off)
        \<and> (ftCopyErr (env n) = None \<longrightarrow> ftRespErr (env n) = None \<longrightarrow> good (ftp_key c p) (old @ ftData (env n) p off)))"

lemma last_suffix: "clean_elems p \<noteq> [] \<Longrightarrow> suffix x (last (clean_elems p)) \<Longrightarrow> HasSuffix (Clean p) x"
proof -
  assume n: "clean_elems p \<noteq> []" and s: "suffix x (last (clean_elems p))"
  obtain es e where e: "clean_elems p = es @ [e]" using n by (cases "clean_elems p" rule: rev_cases) auto
  have "suffix e (Join (es @ [e]) [slash])" by (cases "es = []") (auto simp: Join_last suffix_def)
  then have "suffix e (Clean p)" using e by (auto simp: Clean_def unclean_def suffix_def)
  then have "suffix x (Clean p)" using s e suffix_order.trans by fastforce
  then show ?thesis by (auto simp: HasSuffix_iff suffix_def)
qed

lemma retr_from_cases:
  assumes "retr_from t p r = Inr off"
  shows "ftRetr t p off = None \<and> (off = 0 \<or> off = r)"
  using assms by (auto simp: retr_from_def split: option.splits if_splits)

text \<open>The places of a download.\<close>

lemma download_places:
  assumes "host_dir c d h" and "D = lexical_place (fcCwd c) d"
  shows "strict_prefix D (ftp_key c p)" and "strict_prefix D (ftp_tmp_key c p)" and "ftp_temp (ftp_tmp_key c p)"
    and "\<not> HasSuffix (ftp_localPath c p) ftp_tmpSuffix \<Longrightarrow> \<not> ftp_temp (ftp_key c p)"
    and "prefix (clean_elems (DirPath (ftp_localPath c p))) (clean_elems (ftp_localPath c p))"
proof -
  obtain es where es: "clean_elems (ftp_localPath c p) = clean_elems d @ h # es" "Clean (ftp_localPath c p) = ftp_localPath c p"
    "ftp_key c p = D @ h # es" "ftp_tmp_key c p = butlast (ftp_key c p) @ [last (ftp_key c p) @ ftp_tmpSuffix]"
    by (rule ftp_localPath_facts [OF assms(1), of p]) (use assms(2) in simp)
  show "strict_prefix D (ftp_key c p)" "strict_prefix D (ftp_tmp_key c p)" "ftp_temp (ftp_tmp_key c p)"
    using es(3,4) by (auto simp: strict_prefix_def ftp_temp_def suffix_def butlast_append)
  have "last (clean_elems (ftp_localPath c p)) = last (ftp_key c p)" using es(1,3) by simp
  then show "\<not> HasSuffix (ftp_localPath c p) ftp_tmpSuffix \<Longrightarrow> \<not> ftp_temp (ftp_key c p)"
    using last_suffix [of "ftp_localPath c p" ftp_tmpSuffix] es(1,2) by (auto simp: ftp_temp_def)
  show "prefix (clean_elems (DirPath (ftp_localPath c p))) (clean_elems (ftp_localPath c p))"
    using DirPath_prefix [of "ftp_localPath c p"] es(2) by simp
qed

text \<open>What is in the temporary file once the bytes of a transfer were written.\<close>

lemma written:
  assumes inv: "disk_inv c part f" and snd: "sound_transfers c env good part" and hd: "host_dir c d h"
    and r: "retr_from (env n) p (resume_at c sz (ftp_localPath c p @ ftp_tmpSuffix) f) = Inr off"
    and w: "os_Write fl (fcCwd c) (0 < off) (ftp_localPath c p @ ftp_tmpSuffix) (ftData (env n) p off) f = Inr f'"
  obtains x where "f' = f(ftp_tmp_key c p \<mapsto> LFile x)" and "disk_inv c part f'" and "f (ftp_tmp_key c p) \<noteq> Some LDir"
    and "ftCopyErr (env n) = None \<Longrightarrow> ftRespErr (env n) = None \<Longrightarrow> good (ftp_key c p) x"
proof -
  let ?t = "env n" and ?T = "ftp_tmp_key c p" and ?tmp = "ftp_localPath c p @ ftp_tmpSuffix"
  have nl: "no_links f" and cw: "cwd_exists (fcCwd c) f" using inv by (simp_all add: disk_inv_def)
  note wp = Write_plain [OF nl w, folded ftp_tmp_key_def]
  obtain old where old: "0 < off \<longrightarrow> f ?T = Some (LFile old)" and f2: "f' = f(?T \<mapsto> LFile (if 0 < off then old @ ftData ?t p off else ftData ?t p off))"
    using wp(3) by blast
  define pre where "pre = (if 0 < off then old else [])"
  have f': "f' = f(?T \<mapsto> LFile (pre @ ftData ?t p off))" using f2 by (simp add: pre_def)
  have len: "length pre = off"
  proof (cases "0 < off")
    case True
    then have o: "off = resume_at c sz ?tmp f" using retr_from_cases [OF r] by simp
    then obtain nd where nd: "os_Stat (fcCwd c) f ?tmp = Some nd" "off = node_size c nd"
      using True by (auto simp: resume_at_def split: option.splits if_splits)
    have "f ?T = Some nd" using Stat_plain [OF nl nd(1)] wp(2) by (simp add: ftp_tmp_key_def)
    then have "nd = LFile old" using old True by simp
    then show ?thesis using True nd(2) by (simp add: pre_def node_size_def)
  qed (simp add: pre_def)
  have "0 < off \<longrightarrow> part ?T pre" using old inv by (auto simp: pre_def disk_inv_def)
  then have pg: "part ?T (pre @ ftData ?t p off)"
    "ftCopyErr ?t = None \<Longrightarrow> ftRespErr ?t = None \<Longrightarrow> good (ftp_key c p) (pre @ ftData ?t p off)"
    using snd retr_from_cases [OF r] len unfolding sound_transfers_def by blast+
  have "no_links f'" "cwd_exists (fcCwd c) f'" using nl cw wp(1) unfolding f' no_links_def cwd_exists_def by auto
  then have "disk_inv c part f'" using inv pg(1) by (auto simp: f' disk_inv_def)
  then show thesis using pg(2) by (intro that [OF f' _ wp(1)])
qed

text \<open>Putting it in place.\<close>

lemma renamed:
  assumes inv: "disk_inv c part f" and f2: "f2 = f(ftp_tmp_key c p \<mapsto> LFile x)" and i2: "disk_inv c part f2"
    and fT: "f (ftp_tmp_key c p) \<noteq> Some LDir" and good: "good (ftp_key c p) x"
    and rn: "os_Rename fl (fcCwd c) (ftp_localPath c p @ ftp_tmpSuffix) (ftp_localPath c p) f2 = Inr f3"
    and hd: "host_dir c d h" and D: "D = lexical_place (fcCwd c) d" and no_tmp: "\<not> HasSuffix (ftp_localPath c p) ftp_tmpSuffix"
  shows "disk_inv c part f3 \<and> (\<forall>k. ftp_allowed D good k (f k) (f3 k))"
proof -
  let ?K = "ftp_key c p" and ?T = "ftp_tmp_key c p"
  note places = download_places [OF hd D]
  have nl: "no_links f" and cw: "cwd_exists (fcCwd c) f" and nl2: "no_links f2" using inv i2 by (simp_all add: disk_inv_def)
  note rp = Rename_plain [OF nl2 rn, folded ftp_tmp_key_def ftp_key_def]
  have f3: "f3 = f(?T := None, ?K \<mapsto> LFile x)" using rp(3) by (simp add: f2)
  have nk: "ftp_tmp_key c q \<noteq> ?K" for q using places(3) [of q] places(4) [OF no_tmp] by metis
  then have fK: "f ?K \<noteq> Some LDir" using rp(1) by (metis f2 fun_upd_other)
  have "no_links f3" using nl by (simp add: f3 no_links_def)
  moreover have "cwd_exists (fcCwd c) f3" using cw fK fT unfolding f3 cwd_exists_def by auto
  ultimately have "disk_inv c part f3" using inv nk by (auto simp: f3 disk_inv_def)
  moreover have "ftp_allowed D good k (f k) (f3 k)" for k
  proof (cases "k = ?K")
    case True
    then show ?thesis using places(1) good fK by (simp add: f3 ftp_allowed_def)
  next
    case False
    then show ?thesis using places(2,3) by (cases "k = ?T") (simp_all add: f3 ftp_allowed_def)
  qed
  ultimately show ?thesis by blast
qed

lemma download_step:
  assumes "ftp_download c (env n) p sz s = (e, s')" and hd: "host_dir c d h" and snd: "sound_transfers c env good part"
    and D: "D = lexical_place (fcCwd c) d"
  shows "disk_step c D good part (fsDisk s) (fsDisk s')"
proof (cases "HasSuffix (ftp_localPath c p) ftp_tmpSuffix")
  case True
  then show ?thesis using assms(1) by (simp add: ftp_download_def Let_def)
next
  case no_tmp: False
  let ?loc = "ftp_localPath c p" and ?t = "env n" and ?tmp = "ftp_localPath c p @ ftp_tmpSuffix"
  note places = download_places [OF hd D, of p]
  obtain x f1 where m: "os_MkdirAll (ftMkdir ?t) (fcCwd c) (DirPath ?loc) (fsDisk s) = (x, f1)" by fastforce
  have s1: "disk_step c D good part (fsDisk s) f1"
    by (rule mkdir_step [OF m places(5)]) (use places(1) in \<open>auto simp: rooted_DirPath ftp_key_def strict_prefix_def\<close>)
  have "disk_step c D good part f1 (fsDisk s')" if x: "x = None"
    unfolding disk_step_def
  proof
    assume inv: "disk_inv c part f1"
    show "disk_inv c part (fsDisk s') \<and> (\<forall>k. ftp_allowed D good k (f1 k) (fsDisk s' k))"
    proof (cases "\<exists>off f2. retr_from ?t p (resume_at c sz ?tmp f1) = Inr off
        \<and> os_Write (ftOpen ?t) (fcCwd c) (0 < off) ?tmp (ftData ?t p off) f1 = Inr f2")
      case False
      then have "fsDisk s' = f1" using assms(1) m x no_tmp
        by (auto simp: ftp_download_def transfer_def Let_def split: sum.splits option.splits prod.splits)
      then show ?thesis using inv by (simp add: ftp_allowed_def)
    next
      case True
      then obtain off f2 where r: "retr_from ?t p (resume_at c sz ?tmp f1) = Inr off"
        and w: "os_Write (ftOpen ?t) (fcCwd c) (0 < off) ?tmp (ftData ?t p off) f1 = Inr f2" by blast
      obtain y where y: "f2 = f1(ftp_tmp_key c p \<mapsto> LFile y)" "disk_inv c part f2" "f1 (ftp_tmp_key c p) \<noteq> Some LDir"
        "ftCopyErr ?t = None \<Longrightarrow> ftRespErr ?t = None \<Longrightarrow> good (ftp_key c p) y"
        using written [where env = env and n = n and good = good, OF inv snd hd r w] by metis
      show ?thesis
      proof (cases "\<exists>f3. fst (transfer c ?t p sz off ?tmp f1) = None \<and> os_Rename (ftRename ?t) (fcCwd c) ?tmp ?loc f2 = Inr f3")
        case False
        then have "fsDisk s' = f2" using assms(1) m x no_tmp r w
          by (auto simp: ftp_download_def transfer_def Let_def split: sum.splits option.splits prod.splits)
        then show ?thesis using y(1,2) places(2,3) by (simp add: ftp_allowed_def)
      next
        case True
        then obtain f3 where tr: "fst (transfer c ?t p sz off ?tmp f1) = None" and rn: "os_Rename (ftRename ?t) (fcCwd c) ?tmp ?loc f2 = Inr f3"
          by blast
        have "fsDisk s' = f3" using assms(1) m x no_tmp r w tr rn
          by (auto simp: ftp_download_def transfer_def Let_def split: sum.splits option.splits prod.splits if_splits)
        moreover have "good (ftp_key c p) y" using tr w by (intro y(4)) (auto simp: transfer_def Let_def split: option.splits)
        ultimately show ?thesis using renamed [where good = good, OF inv y(1-3) _ rn hd D no_tmp] by simp
      qed
    qed
  qed
  note rest = this
  show ?thesis
  proof (cases x)
    case None
    then show ?thesis using disk_step_trans [OF s1 rest] by simp
  next
    case (Some y)
    then have "fsDisk s' = f1" using assms(1) m no_tmp by (auto simp: ftp_download_def Let_def)
    then show ?thesis using s1 by simp
  qed
qed

end
