(* ===== verification/FtpProps.thy ===== *)
theory FtpProps
  imports FtpLoop
begin

text \<open>
  What a run of the FTP crawl achieves: it ends on a server with finitely many entries, a run without \<open>-update\<close> that
  ends well has settled every entry below its root, and a second one does not even connect.
\<close>

subsection \<open>Runs\<close>

abbreviation entry_names :: "fstate \<Rightarrow> (string \<times> string) set" where
  "entry_names s \<equiv> enName ` set (fsRows s)"

lemma ftp_crawl_ended:
  assumes "ftp_crawl fuel c env s = Some (None, s')"
  obtains s1 s2 s3 where "ftp_addRoot c (env (fsTick s)) (s\<lparr>fsTick := Suc (fsTick s)\<rparr>) = (None, s1)"
    and "ftp_exec (ftp_reset c) s1 = (None, s2)" and "ftp_run c env fuel 0 s2 = Some (None, s3)" and "fsErrors s3 = 0" and "s' = disconnect s3"
  using assms unfolding ftp_crawl_def
  by (auto split: prod.splits option.splits if_splits)

text \<open>The names in the table after an entry was recorded.\<close>

lemma upsert_names:
  assumes "ftp_upsert c p d sz mt s = (e, s')"
  shows "entry_names s \<subseteq> entry_names s'" and "entry_names s' \<subseteq> insert (fcHost c, p) (entry_names s)"
    and "e = None \<Longrightarrow> (fcHost c, p) \<in> entry_names s'"
proof -
  obtain x s1 where t: "ftp_tick s = (x, s1)" by fastforce
  have r1: "fsRows s1 = fsRows s" using ftp_tick_same [OF t] by simp
  have upd: "enName ` set (map_where P (\<lambda>x. x\<lparr>enIsDir := d, enSize := sz, enMtime := m, enState := ftp_pending\<rparr>) rows) = enName ` set rows" for P m rows
    by (rule image_map_where) simp
  have "entry_names s \<subseteq> entry_names s' \<and> entry_names s' \<subseteq> insert (fcHost c, p) (entry_names s) \<and> (e = None \<longrightarrow> (fcHost c, p) \<in> entry_names s')"
  proof (cases "x = None")
    case False
    then show ?thesis using assms t r1 by (auto simp: ftp_upsert_def Let_def)
  next
    case True
    show ?thesis
    proof (cases "find_entry (fcHost c) p (fsRows s1)")
      case None
      then obtain m where "ftp_exec (\<lambda>rows. rows @ [new_entry (fresh_id enID rows) (fcHost c) p d sz m]) s1 = (e, s')"
        using assms t True by (auto simp: ftp_upsert_def Let_def)
      then show ?thesis by (rule ftp_exec_cases) (use r1 in \<open>auto simp: new_entry_def\<close>)
    next
      case (Some r)
      note k = find_entry_Some [OF Some]
      then have k': "(fcHost c, p) \<in> enName ` set (fsRows s1)" by force
      consider "s' = s1" | m where "ftp_exec (map_where (\<lambda>x. enID x = enID r)
          (\<lambda>x. x\<lparr>enIsDir := d, enSize := sz, enMtime := m, enState := ftp_pending\<rparr>)) s1 = (e, s')"
        using assms t True Some by (auto simp: ftp_upsert_def Let_def split: if_splits)
      then show ?thesis
      proof cases
        case 1
        then show ?thesis using k' r1 by auto
      next
        case 2
        then show ?thesis
        proof (rule ftp_exec_cases)
          assume "fsRows s' = fsRows s1"
          then show ?thesis using k' r1 by auto
        next
          assume h: "fsRows s' = map_where (\<lambda>x. enID x = enID r)
            (\<lambda>x. x\<lparr>enIsDir := d, enSize := sz, enMtime := m, enState := ftp_pending\<rparr>) (fsRows s1)"
          have "entry_names s' = entry_names s" unfolding h upd r1 by (rule refl)
          then show ?thesis using k' r1 by auto
        qed
      qed
    qed
  qed
  then show "entry_names s \<subseteq> entry_names s'" "entry_names s' \<subseteq> insert (fcHost c, p) (entry_names s)"
    "e = None \<Longrightarrow> (fcHost c, p) \<in> entry_names s'" by simp_all
qed

lemma addRoot_cases:
  assumes "ftp_addRoot c t s = (e, s1)"
  obtains (kept) "fsRows s1 = fsRows s" and "fsErrors s1 = fsErrors s" and "fsDisk s1 = fsDisk s"
    and "e = None \<Longrightarrow> (fcHost c, fcRoot c) \<in> entry_names s"
  | (added) d sz mt s2 where "ftp_upsert c (fcRoot c) d sz mt s2 = (e, s1)" and "fsRows s2 = fsRows s" and "fsErrors s2 = fsErrors s" and "fsDisk s2 = fsDisk s"
proof -
  obtain x sa where t: "ftp_tick s = (x, sa)" by fastforce
  note same = ftp_tick_same [OF t]
  show thesis
  proof (cases "x \<noteq> None \<or> find_entry (fcHost c) (fcRoot c) (fsRows sa) \<noteq> None")
    case True
    then have "s1 = sa" using assms t by (cases x) (auto simp: ftp_addRoot_def)
    moreover have "(fcHost c, fcRoot c) \<in> entry_names s" if n: "e = None"
    proof -
      obtain r where "find_entry (fcHost c) (fcRoot c) (fsRows sa) = Some r" using True n assms t by (cases x) (auto simp: ftp_addRoot_def)
      then show ?thesis using find_entry_Some same by force
    qed
    ultimately show thesis using same by (intro kept) simp_all
  next
    case False
    obtain y s2 where k: "ftp_connect c t sa = (y, s2)" by fastforce
    have r2: "fsRows s2 = fsRows s" "fsErrors s2 = fsErrors s" "fsDisk s2 = fsDisk s" using connect_same [OF k] same by simp_all
    have "(s1 = s2 \<and> e \<noteq> None) \<or> (\<exists>d sz mt. ftp_upsert c (fcRoot c) d sz mt s2 = (e, s1))"
      using assms t k False by (auto simp: ftp_addRoot_def Let_def split: option.splits if_splits sum.splits)
    then show thesis using kept added r2 by metis
  qed
qed

lemma addRoot_facts:
  assumes "ftp_addRoot c t s = (e, s1)"
  shows "ftp_calm c s s1" and "entry_names s1 \<subseteq> insert (fcHost c, fcRoot c) (entry_names s)"
    and "e = None \<Longrightarrow> (fcHost c, fcRoot c) \<in> entry_names s1" and "fsDisk s1 = fsDisk s"
proof -
  have "ftp_calm c s s1 \<and> entry_names s1 \<subseteq> insert (fcHost c, fcRoot c) (entry_names s)
    \<and> (e = None \<longrightarrow> (fcHost c, fcRoot c) \<in> entry_names s1) \<and> fsDisk s1 = fsDisk s"
    using assms
  proof (cases rule: addRoot_cases)
    case kept
    have "e = None \<longrightarrow> (fcHost c, fcRoot c) \<in> entry_names s1" unfolding kept(1) using kept(4) by blast
    then show ?thesis using kept(1-3) by (simp add: ftp_calm_same subset_insertI)
  next
    case (added d sz mt s2)
    have "ftp_calm c s s2" using added(2,3) by (rule ftp_calm_same)
    then have "ftp_calm c s s1" using upsert_calm [OF added(1)] by (rule ftp_calm_trans)
    then show ?thesis using upsert_names(2,3) [OF added(1)] upsert_disk [OF added(1)] added(2-4) by simp
  qed
  then show "ftp_calm c s s1" "entry_names s1 \<subseteq> insert (fcHost c, fcRoot c) (entry_names s)"
    "e = None \<Longrightarrow> (fcHost c, fcRoot c) \<in> entry_names s1" "fsDisk s1 = fsDisk s" by simp_all
qed

lemma reset_names: "enName ` set (ftp_reset c rows) = enName ` set rows"
  unfolding ftp_reset_def by (rule image_map_where) simp

lemma reset_grows: "grows enID enName rows (ftp_reset c rows)"
  unfolding ftp_reset_def by (rule grows_map_where) simp_all

lemma reset_no_bad: "r \<in> set (ftp_reset c rows) \<Longrightarrow> \<not> bad_entry c r"
proof -
  assume "r \<in> set (ftp_reset c rows)"
  then obtain r0 where "r = (if enHost r0 = fcHost c \<and> (if fcUpdate c then enIsDir r0 \<or> enState r0 \<noteq> ftp_done else enState r0 = ftp_error_state)
      then r0\<lparr>enState := ftp_pending\<rparr> else r0)" unfolding ftp_reset_def map_where_def set_map by (elim imageE)
  then show ?thesis by (auto simp: bad_entry_def split: if_splits)
qed

lemma ftp_run_counts:
  assumes "ftp_run c env n lo s = Some (x, s')" and "fsErrors s' = 0" and "\<forall>r \<in> set (fsRows s). \<not> bad_entry c r"
  shows "\<forall>r \<in> set (fsRows s'). \<not> bad_entry c r"
proof -
  let ?I = "\<lambda>s. fsErrors s = 0 \<longrightarrow> (\<forall>r \<in> set (fsRows s). \<not> bad_entry c r)"
  have "?I s'"
  proof (rule ftp_list.loop_keeps [OF assms(1), where I = ?I])
    show "?I s" using assms(3) by simp
    show "?I s1" if "?I s" "ftp_pick c env lo s = (p, s1)" for lo s p s1
      using that(1) ftp_pick_cases [OF that(2)] by simp
    show "?I s1" if i: "?I s" and v: "ftp_visit c env r s = (x, s1)" for r s x s1
    proof (intro impI ballI)
      fix r' assume z: "fsErrors s1 = 0" and r: "r' \<in> set (fsRows s1)"
      show "\<not> bad_entry c r'"
        using i z r ftp_visit_calm(1) [OF v] unfolding ftp_calm_def tame_def by auto
    qed
  qed
  then show ?thesis using assms(2) by simp
qed

text \<open>What holds after a run without \<open>-update\<close> that ended well.\<close>

definition ftp_finished :: "fcrawl \<Rightarrow> fstate \<Rightarrow> bool" where
  "ftp_finished c s \<longleftrightarrow> entries_ok (fsRows s) \<and> (fcHost c, fcRoot c) \<in> entry_names s
     \<and> (\<forall>r \<in> set (fsRows s). enHost r = fcHost c \<longrightarrow> enState r \<noteq> ftp_error_state \<and> (enState r = ftp_pending \<longrightarrow> \<not> ftp_inScope c (enPath r)))"

lemma finished_run:
  assumes "ftp_crawl fuel (plain c) env s = Some (None, s')" and "entries_ok (fsRows s)"
  shows "ftp_finished (plain c) s' \<and> entry_names s \<subseteq> entry_names s'"
proof -
  let ?c = "plain c"
  obtain s1 s2 s3 where a: "ftp_addRoot ?c (env (fsTick s)) (s\<lparr>fsTick := Suc (fsTick s)\<rparr>) = (None, s1)"
    and x: "ftp_exec (ftp_reset ?c) s1 = (None, s2)" and l: "ftp_run ?c env fuel 0 s2 = Some (None, s3)"
    and z: "fsErrors s3 = 0" and s': "s' = disconnect s3" by (rule ftp_crawl_ended [OF assms(1)])
  have rows2: "fsRows s2 = ftp_reset ?c (fsRows s1)" by (rule ftp_exec_cases [OF x]) simp_all
  have g1: "grows enID enName (fsRows s) (fsRows s1)" using addRoot_facts(1) [OF a] tame_grows unfolding ftp_calm_def by fastforce
  have g2: "grows enID enName (fsRows s1) (fsRows s2)" unfolding rows2 by (rule reset_grows)
  have g3: "grows enID enName (fsRows s2) (fsRows s3)" by (rule ftp_list.loop_grows [OF l])
  note g = grows_trans [OF grows_trans [OF g1 g2] g3]
  note ok2 = grows_ok [OF grows_trans [OF g1 g2] assms(2)]
  have nm: "entry_names u \<subseteq> entry_names v" if h: "grows enID enName (fsRows u) (fsRows v)" for u v
  proof -
    have "set (map (\<lambda>r. (enID r, enName r)) (fsRows u)) \<subseteq> set (map (\<lambda>r. (enID r, enName r)) (fsRows v))"
      using h unfolding grows_def by (intro set_mono_prefix) simp
    then show ?thesis by auto
  qed
  have p: "\<forall>r \<in> set (fsRows s3). pending_entry ?c r \<longrightarrow> out_of_root ?c r"
    by (rule ftp_once.loop_settles [OF l ok2]) (use ok2 in \<open>auto simp: table_ok_def\<close>)
  have b: "\<forall>r \<in> set (fsRows s3). \<not> bad_entry ?c r"
    by (rule ftp_run_counts [OF l z]) (use reset_no_bad rows2 in simp)
  have root: "(fcHost ?c, fcRoot ?c) \<in> entry_names s3"
    using addRoot_facts(3) [OF a] nm [OF grows_trans [OF g2 g3]] by blast
  have "ftp_finished ?c s3" unfolding ftp_finished_def
    using grows_ok [OF g assms(2)] root p b by (simp add: pending_entry_def bad_entry_def out_of_root_def)
  then show ?thesis using nm [OF g] by (simp add: s' disconnect_def ftp_finished_def)
qed

text \<open>C28: A run without \<open>-update\<close> that reports no error has settled everything at or below its root: of all the entries of
  the host ever recorded there, none is left pending or with an error. The root is among them, no entry is
  lost, and the table is well formed.\<close>

theorem ftp_settles:
  assumes "ftp_crawl fuel c env s = Some (None, s')" and "\<not> fcUpdate c" and "entries_ok (fsRows s)"
  shows "ftp_finished c s' \<and> entry_names s \<subseteq> entry_names s'"
proof -
  have "plain c = c" using assms(2) by (cases c) simp
  then show ?thesis using finished_run [of fuel c env s s'] assms(1,3) by simp
qed

subsection \<open>A second run\<close>

lemma ftp_tick_quiet: "fsFaults s = [] \<Longrightarrow> ftp_tick s = (None, s)"
  by (simp add: ftp_tick_def)

lemma find_entry_known: "(h, p) \<in> enName ` set rows \<Longrightarrow> find_entry h p rows \<noteq> None"
  using find_entry_None by blast

lemma next_entry_passed:
  assumes "ftp_pick c env lo s = (Inr (Some r), s1)" and "ftp_finished c s"
  shows "\<not> ftp_inScope c (enPath r)"
  using ftp_list.pick_some [OF assms(1)] assms(2) by (auto simp: ftp_finished_def pending_entry_def)

lemma ftp_idle:
  assumes "ftp_run c env n lo s = Some (x, s')" and "ftp_finished c s" and "fsFaults s = []" and "\<And>t. ftCtx (env t) = None"
  shows "x = None \<and> s' = s"
  using assms(1)
proof (induction n arbitrary: lo)
  case (Suc n)
  have p: "ftp_pick c env lo s = (Inr (next_entry (fcHost c) lo (fsRows s)), s)"
    using assms(3,4) by (simp add: ftp_pick_def ftp_tick_quiet)
  show ?case
  proof (cases "next_entry (fcHost c) lo (fsRows s)")
    case None
    then show ?thesis using Suc.prems p by simp
  next
    case (Some r)
    then have "ftp_visit c env r s = (None, s)" using next_entry_passed p assms(2) by (simp add: ftp_visit_def)
    then show ?thesis using Suc p Some by simp
  qed
qed simp

text \<open>C29: Once a run without \<open>-update\<close> has ended well, the next one with the same start does nothing: it never connects, changes
  no file and no entry, whatever the server would have sent.\<close>

theorem ftp_rerun:
  assumes "ftp_crawl fuel c env s = Some (None, s')" and "\<not> fcUpdate c" and "entries_ok (fsRows s)"
    and "fsFaults s' = []" and "\<And>t. ftCtx (env' t) = None"
  shows "\<exists>s''. ftp_crawl (Suc (length (fsRows s'))) c env' (s'\<lparr>fsErrors := 0, fsDials := 0\<rparr>) = Some (None, s'')
    \<and> fsDials s'' = 0 \<and> fsDisk s'' = fsDisk s' \<and> fsRows s'' = fsRows s'"
proof -
  let ?s = "s'\<lparr>fsErrors := 0, fsDials := 0, fsTick := Suc (fsTick s')\<rparr>" and ?n = "Suc (length (fsRows s'))"
  have "plain c = c" using assms(2) by (cases c) simp
  then have fin: "ftp_finished c s'" using finished_run [of fuel c env s s'] assms(1,3) by simp
  then have fs: "ftp_finished c ?s" by (simp add: ftp_finished_def)
  have a: "ftp_addRoot c (env' (fsTick s')) ?s = (None, ?s)"
    using find_entry_known [of "fcHost c" "fcRoot c" "fsRows s'"] fin assms(4) by (simp add: ftp_addRoot_def ftp_tick_quiet ftp_finished_def)
  have "ftp_reset c (fsRows s') = fsRows s'"
    unfolding ftp_reset_def by (rule map_where_id) (use fin assms(2) in \<open>auto simp: ftp_finished_def\<close>)
  then have x: "ftp_exec (ftp_reset c) ?s = (None, ?s)" using assms(4) by (simp add: ftp_exec_def ftp_tick_quiet)
  have "card (entry_names s') = length (fsRows s')"
    using fin unfolding ftp_finished_def table_ok_def by (metis distinct_card length_map set_map)
  then have enough: "card (entry_names s') < ?n + length (filter (\<lambda>i. i \<le> 0) (map enID (fsRows ?s)))" by simp
  have "ftp_run c env' ?n 0 ?s \<noteq> None"
  proof (rule ftp_list.loop_ends [where U = "entry_names s'" and I = "\<lambda>t. t = ?s", OF _ _ _ _ _ _ enough])
    show "t1 = ?s" if "t = ?s" "ftp_pick c env' lo t = (p, t1)" for lo t p t1
      using that assms(4,5) by (auto simp: ftp_pick_def ftp_tick_quiet)
    show "t1 = ?s" if t: "t = ?s" "r \<in> set (fsRows t)" "pending_entry c r" "ftp_visit c env' r t = (y, t1)" for r t y t1
    proof -
      have "\<not> ftp_inScope c (enPath r)" using fs t(1-3) by (auto simp: ftp_finished_def pending_entry_def)
      then show ?thesis using t by (simp add: ftp_visit_def)
    qed
  qed (use fin in \<open>simp_all add: ftp_finished_def\<close>)
  then obtain y t where l: "ftp_run c env' ?n 0 ?s = Some (y, t)" by fast
  then have "y = None \<and> t = ?s" by (rule ftp_idle [OF _ fs]) (use assms(4,5) in simp_all)
  then have "ftp_crawl ?n c env' (s'\<lparr>fsErrors := 0, fsDials := 0\<rparr>) = Some (None, disconnect ?s)"
    using a x l by (simp add: ftp_crawl_def del: ftp_run.simps)
  then show ?thesis by (simp add: disconnect_def)
qed

subsection \<open>A run ends\<close>

text \<open>The entries a server can list below the known ones are all in \<open>U\<close>.\<close>

definition lists_within :: "fcrawl \<Rightarrow> ftp_turns \<Rightarrow> (string \<times> string) set \<Rightarrow> bool" where
  "lists_within c env U \<longleftrightarrow> (\<forall>t dir es e. (fcHost c, dir) \<in> U \<longrightarrow> ftList (env t) dir = Inr es \<longrightarrow> e \<in> set es \<longrightarrow>
     \<not> skipped_name (feName e) \<longrightarrow> feType e \<noteq> EntryLink \<longrightarrow> (fcHost c, JoinPath [dir, feName e]) \<in> U)"

lemma list_entries_names:
  assumes "list_entries c t dir es s = (x, s')" and "entry_names s \<subseteq> U"
    and "\<And>e. e \<in> set es \<Longrightarrow> \<not> skipped_name (feName e) \<Longrightarrow> feType e \<noteq> EntryLink \<Longrightarrow> (fcHost c, JoinPath [dir, feName e]) \<in> U"
  shows "entry_names s' \<subseteq> U"
  using assms
proof (induction c t dir es s arbitrary: x s' rule: list_entries.induct)
  case (2 c t dir e es s)
  obtain y s1 where 1: "list_entry c t dir e s = (y, s1)" by fastforce
  have "entry_names s1 \<subseteq> U"
  proof (cases "skipped_name (feName e) \<or> feType e = EntryLink")
    case True
    then have "fsRows s1 = fsRows s" using 1 by (auto simp: list_entry_def Let_def split: if_splits)
    then show ?thesis using "2.prems"(2) by simp
  next
    case False
    then have "(fcHost c, JoinPath [dir, feName e]) \<in> U" using "2.prems"(3) by simp
    moreover obtain d sz mt where "ftp_upsert c (JoinPath [dir, feName e]) d sz mt s = (y, s1)"
      using 1 False by (cases "feType e") (auto simp: list_entry_def Let_def)
    ultimately show ?thesis using upsert_names(2) "2.prems"(2) by (meson insert_subset order_trans)
  qed
  then show ?case using "2.IH" [OF 1 [symmetric]] 1 "2.prems" by (cases y) auto
qed simp

lemma exec_state_names:
  "entry_names (snd (ftp_exec (map_where P (\<lambda>r. r\<lparr>enState := st, enError := x\<rparr>)) s)) = entry_names s"
proof -
  obtain e s' where h: "ftp_exec (map_where P (\<lambda>r. r\<lparr>enState := st, enError := x\<rparr>)) s = (e, s')" by fastforce
  have m: "enName ` set (map_where P (\<lambda>r. r\<lparr>enState := st, enError := x\<rparr>) rows) = enName ` set rows" for rows
    by (rule image_map_where) simp
  show ?thesis unfolding h snd_conv by (rule ftp_exec_cases [OF h]) (simp_all only: m)
qed

lemma attempt_names:
  assumes "ftp_attempt c (env n) r s = (e, s')" and "entry_names s \<subseteq> U" and "lists_within c env U" and "(fcHost c, enPath r) \<in> U"
  shows "entry_names s' \<subseteq> U"
proof -
  obtain x s1 where k: "ftp_connect c (env n) s = (x, s1)" by fastforce
  have u1: "entry_names s1 \<subseteq> U" using connect_same [OF k] assms(2) by simp
  have l: "entry_names s' \<subseteq> U" if h: "listDir c (env n) (enPath r) s1 = (e, s')"
  proof -
    consider "fsRows s' = fsRows s1"
      | es f y where "ftList (env n) (enPath r) = Inr es" "list_entries c (env n) (enPath r) es (s1\<lparr>fsDisk := f\<rparr>) = (y, s')"
      using h by (auto simp: listDir_def as_ftp_def split: option.splits sum.splits prod.splits)
    then show ?thesis
    proof cases
      case 2
      show ?thesis
      proof (rule list_entries_names [OF 2(2)])
        show "entry_names (s1\<lparr>fsDisk := f\<rparr>) \<subseteq> U" using u1 by simp
        show "(fcHost c, JoinPath [enPath r, feName e]) \<in> U"
          if "e \<in> set es" "\<not> skipped_name (feName e)" "feType e \<noteq> EntryLink" for e
          using assms(3,4) 2(1) that unfolding lists_within_def by blast
      qed
    qed (use u1 in simp)
  qed
  show ?thesis using assms(1) k u1 l download_same by (cases x) (auto simp: ftp_attempt_def split: if_splits)
qed

lemma process_names:
  assumes "lists_within c env U" and "(fcHost c, enPath r) \<in> U" and "entry_names s \<subseteq> U"
  shows "entry_names (snd (ftp_process c env k r s)) \<subseteq> U"
  using assms(3)
proof (induction k arbitrary: s)
  case (Suc k)
  obtain e s1 where a: "ftp_attempt c (env (fsTick s)) r (s\<lparr>fsTick := Suc (fsTick s)\<rparr>) = (e, s1)" by fastforce
  have u1: "entry_names s1 \<subseteq> U" by (rule attempt_names [OF a _ assms(1,2)]) (use Suc.prems in simp)
  have u2: "entry_names (disconnect s1) \<subseteq> U" "entry_names ((disconnect s1)\<lparr>fsErrors := n\<rparr>) \<subseteq> U" for n using u1 by (simp_all add: disconnect_def)
  have st: "entry_names (snd (mark_entry_done i t)) = entry_names t" "entry_names (snd (ftp_setState i x err t)) = entry_names t" for i x err t
    unfolding mark_entry_done_def ftp_setState_def by (rule exec_state_names)+
  show ?case
  proof (cases e)
    case None
    then show ?thesis using a u1 st(1) by (simp add: Let_def)
  next
    case (Some err)
    then show ?thesis using a u1 u2 Suc.IH [OF u2(1)] st(2) by (cases err) (simp_all add: Let_def)
  qed
qed simp

text \<open>C30: On a server whose listings name finitely many entries the run ends, whatever fails, with \<open>-update\<close> or without: it
  visits every entry at most once.\<close>

theorem ftp_terminates:
  assumes "finite U" and "entry_names s \<subseteq> U" and "(fcHost c, fcRoot c) \<in> U" and "entries_ok (fsRows s)" and "lists_within c env U"
  shows "\<exists>res. ftp_crawl (Suc (card U)) c env s = Some res"
proof -
  have run: "ftp_run c env (Suc (card U)) 0 s2 \<noteq> None"
    if a: "ftp_addRoot c (env (fsTick s)) (s\<lparr>fsTick := Suc (fsTick s)\<rparr>) = (None, s1)" and x: "ftp_exec (ftp_reset c) s1 = (None, s2)" for s1 s2
  proof -
    have rows2: "fsRows s2 = ftp_reset c (fsRows s1)" by (rule ftp_exec_cases [OF x]) simp_all
    have "insert (fcHost c, fcRoot c) (entry_names s) \<subseteq> U" using assms(2,3) by (simp only: insert_subset simp_thms)
    moreover have "entry_names s1 \<subseteq> insert (fcHost c, fcRoot c) (entry_names s)" using addRoot_facts(2) [OF a] by simp
    ultimately have u1: "entry_names s1 \<subseteq> U" by (rule order_trans [rotated])
    have "grows enID enName (fsRows s) (fsRows s1)" using addRoot_facts(1) [OF a] tame_grows unfolding ftp_calm_def by fastforce
    then have ok2: "entries_ok (fsRows s2)" unfolding rows2 using grows_ok [OF reset_grows grows_ok] assms(4) by blast
    show ?thesis
    proof (rule ftp_list.loop_ends [where U = U and I = "\<lambda>t. entry_names t \<subseteq> U", OF assms(1) _ ok2])
      show "entry_names s2 \<subseteq> U" unfolding rows2 reset_names by (rule u1)
      show "entry_names t1 \<subseteq> U" if "entry_names t \<subseteq> U" "ftp_pick c env lo t = (p, t1)" for lo t p t1
        using that(1) ftp_pick_cases [OF that(2)] by simp
      show "entry_names t1 \<subseteq> U" if t: "entry_names t \<subseteq> U" "r \<in> set (fsRows t)" "pending_entry c r" "ftp_visit c env r t = (y, t1)" for r t y t1
      proof -
        have "(fcHost c, enPath r) \<in> U" using t(1-3) by (auto simp: pending_entry_def)
        then show ?thesis using process_names [OF assms(5) _ t(1), of r ftp_maxAttempts] t(1,4) by (auto simp: ftp_visit_def split: if_splits)
      qed
    qed auto
  qed
  show ?thesis
    using run by (auto simp: ftp_crawl_def simp del: ftp_run.simps split: prod.split option.split) fastforce
qed

end
