(* ===== verification/FtpDisk.thy ===== *)
theory FtpDisk
  imports FtpFiles FtpProps
begin

text \<open>
  What a whole run of the FTP crawl does to the file system, without links: it stays below the destination, and on a server
  whose files do not change everything it puts in place is what the server has, however often transfers break
  and are resumed.
\<close>

subsection \<open>Runs\<close>

definition no_links_listed :: "ftp_turns \<Rightarrow> bool" where
  "no_links_listed env \<longleftrightarrow> (\<forall>n dir es e. ftList (env n) dir = Inr es \<longrightarrow> e \<in> set es \<longrightarrow> feType e \<noteq> EntryLink)"

lemma list_entries_disk:
  "list_entries c t dir es s = (x, s') \<Longrightarrow> (\<And>e. e \<in> set es \<Longrightarrow> feType e \<noteq> EntryLink) \<Longrightarrow> fsDisk s' = fsDisk s"
proof (induction c t dir es s arbitrary: x s' rule: list_entries.induct)
  case (2 c t dir e es s)
  obtain y s1 where 1: "list_entry c t dir e s = (y, s1)" by fastforce
  have "fsDisk s1 = fsDisk s" using 1 "2.prems"(2) [of e] upsert_disk
    by (auto simp: list_entry_def Let_def split: if_splits entry_type.splits)
  then show ?case using "2.IH" [OF 1 [symmetric]] 1 "2.prems" by (cases y) auto
qed simp

lemma listDir_step:
  assumes "listDir c (env n) dir s = (e, s')" and hd: "host_dir c d h" and "no_links_listed env" and D: "D = lexical_place (fcCwd c) d"
  shows "disk_step c D good part (fsDisk s) (fsDisk s')"
proof -
  obtain x f1 where m: "os_MkdirAll (ftMkdir (env n)) (fcCwd c) (ftp_localPath c dir) (fsDisk s) = (x, f1)" by fastforce
  have "disk_step c D good part (fsDisk s) f1"
    by (rule mkdir_step [OF m, where p = "ftp_localPath c dir"])
      (use download_places(1) [OF hd D, of dir] in \<open>auto simp: ftp_key_def strict_prefix_def\<close>)
  moreover have "fsDisk s' = fsDisk s \<or> fsDisk s' = f1"
    using assms(1,3) m list_entries_disk unfolding no_links_listed_def
    by (auto simp: listDir_def as_ftp_def split: option.splits sum.splits prod.splits)
  ultimately show ?thesis by auto
qed

lemma attempt_step:
  assumes "ftp_attempt c (env n) r s = (e, s')" and hd: "host_dir c d h" and "no_links_listed env"
    and "sound_transfers c env good part" and D: "D = lexical_place (fcCwd c) d"
  shows "disk_step c D good part (fsDisk s) (fsDisk s')"
proof -
  obtain x s1 where k: "ftp_connect c (env n) s = (x, s1)" by fastforce
  have d1: "fsDisk s1 = fsDisk s" using connect_same [OF k] by simp
  consider "s' = s1" | "listDir c (env n) (enPath r) s1 = (e, s')" | "ftp_download c (env n) (enPath r) (enSize r) s1 = (e, s')"
    using assms(1) k by (cases x) (auto simp: ftp_attempt_def split: if_splits)
  then show ?thesis
  proof cases
    case 1
    then show ?thesis using d1 by simp
  next
    case 2
    then show ?thesis unfolding d1 [symmetric] by (rule listDir_step [where env = env, OF _ hd assms(3) D])
  next
    case 3
    then show ?thesis unfolding d1 [symmetric] by (rule download_step [where env = env, OF _ hd assms(4) D])
  qed
qed

lemma exec_disk: "fsDisk (snd (ftp_exec g s)) = fsDisk s"
proof -
  obtain e s' where h: "ftp_exec g s = (e, s')" by fastforce
  show ?thesis unfolding h snd_conv by (rule ftp_exec_cases [OF h])
qed

lemma process_step:
  assumes "host_dir c d h" and "no_links_listed env" and "sound_transfers c env good part" and "D = lexical_place (fcCwd c) d"
  shows "disk_step c D good part (fsDisk s) (fsDisk (snd (ftp_process c env k r s)))"
proof (induction k arbitrary: s)
  case (Suc k)
  obtain e s1 where a: "ftp_attempt c (env (fsTick s)) r (s\<lparr>fsTick := Suc (fsTick s)\<rparr>) = (e, s1)" by fastforce
  have s1: "disk_step c D good part (fsDisk s) (fsDisk s1)" using attempt_step [where env = env, OF a assms] by simp
  have rest: "disk_step c D good part (fsDisk s) (fsDisk (snd (ftp_process c env k r (disconnect s1))))"
    using disk_step_trans [OF s1] Suc.IH [of "disconnect s1"] by (simp add: disconnect_def)
  have st: "fsDisk (snd (mark_entry_done i t)) = fsDisk t" "fsDisk (snd (ftp_setState i x err t)) = fsDisk t" for i x err t
    unfolding mark_entry_done_def ftp_setState_def by (rule exec_disk)+
  have dc: "fsDisk (disconnect s1) = fsDisk s1" by (simp add: disconnect_def)
  show ?case
  proof (cases e)
    case None
    then show ?thesis using a s1 st(1) by (simp add: Let_def)
  next
    case (Some err)
    then show ?thesis using a s1 rest st(2) dc by (cases err) (simp_all add: Let_def)
  qed
qed simp

lemma ftp_crawl_disk:
  assumes "ftp_crawl fuel c env s = Some (out, s')" and "host_dir c d h" and "no_links_listed env"
    and "sound_transfers c env good part" and "D = lexical_place (fcCwd c) d"
  shows "disk_step c D good part (fsDisk s) (fsDisk s')"
proof -
  obtain e s1 where a: "ftp_addRoot c (env (fsTick s)) (s\<lparr>fsTick := Suc (fsTick s)\<rparr>) = (e, s1)" by fastforce
  have d1: "fsDisk s1 = fsDisk s" using addRoot_facts(4) [OF a] by simp
  obtain e2 s2 where x: "ftp_exec (ftp_reset c) s1 = (e2, s2)" by fastforce
  have d2: "fsDisk s2 = fsDisk s1" using exec_disk [of "ftp_reset c" s1] x by simp
  have run: "disk_step c D good part (fsDisk s2) (fsDisk s3)" if l: "ftp_run c env fuel 0 s2 = Some (y, s3)" for y s3
  proof (rule ftp_list.loop_keeps [OF l, where I = "\<lambda>t. disk_step c D good part (fsDisk s2) (fsDisk t)"])
    show "disk_step c D good part (fsDisk s2) (fsDisk t1)"
      if "disk_step c D good part (fsDisk s2) (fsDisk t)" "ftp_pick c env lo t = (p, t1)" for lo t p t1
      using that(1) ftp_pick_cases [OF that(2)] by simp
    show "disk_step c D good part (fsDisk s2) (fsDisk t1)"
      if t: "disk_step c D good part (fsDisk s2) (fsDisk t)" "ftp_visit c env r t = (x, t1)" for r t x t1
      using t(2) disk_step_trans [OF t(1)] t(1) process_step [OF assms(2-5), of t ftp_maxAttempts r]
      by (auto simp: ftp_visit_def split: if_splits)
  qed simp
  show ?thesis using assms(1) a x d1 d2 run
    by (auto simp: ftp_crawl_def disconnect_def split: option.splits prod.splits)
qed

lemma ftp_setup_dir:
  assumes "ftp_setup opts source d w n = Inr c" and "d \<noteq> []"
  shows "\<exists>h. host_dir c d h" and "fcCwd c = w"
proof -
  obtain u where h: "fcHostDir c = JoinPath [d, ftp_host u]" "Hostname u \<noteq> []"
    "\<not> (ftp_host u = ''.'' \<or> ftp_host u = ''..'' \<or> ContainsAny (ftp_host u) [CHR ''/'', CHR 0x5C])" "fcCwd c = w"
    using assms(1) by (auto simp: ftp_setup_def Let_def split: sum.splits if_splits)
  have "ftp_host u \<noteq> []" using h(2) by (simp add: ftp_host_def)
  then have "plain_elem (ftp_host u)" using h(3) by (auto simp: plain_elem_def ContainsAny_def slash_def list_ex_iff)
  then show "\<exists>h. host_dir c d h" using h(1) assms(2) by (auto simp: host_dir_def)
  show "fcCwd c = w" by (rule h(4))
qed

subsection \<open>Staying below the destination\<close>

text \<open>The end of the content is what an undisturbed transfer for the path of this place sent from its offset on.\<close>

definition received :: "fcrawl \<Rightarrow> ftp_turns \<Rightarrow> key \<Rightarrow> string \<Rightarrow> bool" where
  "received c env k x \<longleftrightarrow> (\<exists>n p off a. k = ftp_key c p \<and> x = a @ ftData (env n) p off \<and> length a = off
     \<and> ftRetr (env n) p off = None \<and> ftCopyErr (env n) = None \<and> ftRespErr (env n) = None)"

text \<open>C27: As long as there are no symbolic links, on the disk or in the listings, a run changes nothing outside the destination
  directory but makes the directories on the way to it, whatever the server sends and whatever fails; in it
  it makes directories, writes temporary files, and puts files only where there is no directory, each of them
  ended by a transfer that was not disturbed. It makes no link.\<close>

theorem ftp_writes:
  assumes "ftp_Mirror fuel env opts source destDir w dirSize openErr s = Some (out, s')" and "destDir \<noteq> []"
    and "no_links (fsDisk s)" and "cwd_exists w (fsDisk s)" and "no_links_listed env"
  shows "case ftp_setup opts source destDir w dirSize of
      Inl e \<Rightarrow> s' = s
    | Inr c \<Rightarrow> no_links (fsDisk s')
        \<and> (\<forall>k. ftp_allowed (lexical_place w destDir) (received c env) k (fsDisk s k) (fsDisk s' k))"
proof (cases "ftp_setup opts source destDir w dirSize")
  case (Inl e)
  then show ?thesis using assms(1) by (simp add: ftp_Mirror_def)
next
  case (Inr c)
  obtain h where h: "host_dir c destDir h" and w: "fcCwd c = w" using ftp_setup_dir [OF Inr assms(2)] by blast
  have snd: "sound_transfers c env (received c env) (\<lambda>_ _. True)" unfolding sound_transfers_def received_def by blast
  have inv: "disk_inv c (\<lambda>_ _. True) (fsDisk s)" using assms(3,4) w by (simp add: disk_inv_def)
  let ?s = "s\<lparr>fsConn := False, fsErrors := 0, fsFetched := 0, fsDials := 0\<rparr>"
  consider "s' = s" | "ftp_crawl fuel c env ?s = Some (out, s')"
    using assms(1) Inr by (auto simp: ftp_Mirror_def split: option.splits)
  then have "disk_step c (lexical_place w destDir) (received c env) (\<lambda>_ _. True) (fsDisk s) (fsDisk s')"
  proof cases
    case 2
    then show ?thesis using ftp_crawl_disk [OF 2 h assms(5) snd refl] w by simp
  qed simp
  then show ?thesis using inv Inr by (simp add: disk_step_def disk_inv_def)
qed

subsection \<open>Resuming\<close>

text \<open>A server whose files stay as they are: a transfer from an offset sends what comes after it, or a part of that when it
  is disturbed. A path names the same file in all its spellings.\<close>

definition serves :: "fcrawl \<Rightarrow> ftp_turns \<Rightarrow> (key \<Rightarrow> string) \<Rightarrow> bool" where
  "serves c env content \<longleftrightarrow> (\<forall>n p off. ftRetr (env n) p off = None \<longrightarrow> off \<le> length (content (ftp_key c p)) \<longrightarrow>
     prefix (ftData (env n) p off) (drop off (content (ftp_key c p)))
     \<and> (ftCopyErr (env n) = None \<longrightarrow> ftRespErr (env n) = None \<longrightarrow> ftData (env n) p off = drop off (content (ftp_key c p))))"

text \<open>What earlier runs left behind is the start of the file it belongs to.\<close>

definition leftovers_fit :: "fcrawl \<Rightarrow> (key \<Rightarrow> string) \<Rightarrow> lfs \<Rightarrow> bool" where
  "leftovers_fit c content f \<longleftrightarrow> (\<forall>p x. f (ftp_tmp_key c p) = Some (LFile x) \<longrightarrow> prefix x (content (ftp_key c p)))"


end
