(* ===== verification/FtpSite.thy ===== *)
theory FtpSite
  imports FtpDisk
begin

text \<open>
  Small FTP servers: one on which the theorems about runs are put to use, and three on which the crawl goes wrong.
\<close>

subsection \<open>Servers\<close>

definition ftp_calm_turn :: "(string \<Rightarrow> ftp_error + ftp_entry list) \<Rightarrow> (string \<Rightarrow> nat \<Rightarrow> string) \<Rightarrow> ftp_turn" where
  "ftp_calm_turn listing bytes = \<lparr>ftCtx = None, ftAfter = None, ftPause = None, ftCopyCtx = None, ftDial = None, ftLogin = None,
     ftCwd = (\<lambda>_. None), ftList = listing, ftFileSize = (\<lambda>_. Inl (Reply 550 ''no'')), ftGetTime = (\<lambda>_. None),
     ftRetr = (\<lambda>_ _. None), ftData = bytes, ftCopyErr = None, ftRespErr = None, ftMkdir = (\<lambda>_. None), ftOpen = None,
     ftClose = None, ftRename = None, ftSymlink = (\<lambda>_. None)\<rparr>"

definition ftp_file :: "string \<Rightarrow> nat \<Rightarrow> ftp_entry" where
  "ftp_file name n = \<lparr>feName = name, feType = EntryFile, feTarget = [], feSize = of_nat n, feTime = Some 7\<rparr>"

definition ftp_folder :: "string \<Rightarrow> ftp_entry" where
  "ftp_folder name = \<lparr>feName = name, feType = EntryFolder, feTarget = [], feSize = 0, feTime = None\<rparr>"

definition ftp_link :: "string \<Rightarrow> string \<Rightarrow> ftp_entry" where
  "ftp_link name target = \<lparr>feName = name, feType = EntryLink, feTarget = target, feSize = 0, feTime = None\<rparr>"

definition ftp_fresh :: "entry_row list \<Rightarrow> lfs \<Rightarrow> fstate" where
  "ftp_fresh rows f = \<lparr>fsRows = rows, fsFaults = [], fsDisk = f, fsConn = False, fsTick = 0, fsErrors = 0, fsFetched = 0, fsDials = 0\<rparr>"

definition ftp_plain :: "bool \<Rightarrow> ftp_options" where
  "ftp_plain update = \<lparr>foUser = [], foPassword = [], foExplicitTLS = False, foUpdate = update\<rparr>"

subsection \<open>Where it goes wrong\<close>

definition evil_turn :: ftp_turn where
  "evil_turn = ftp_calm_turn
     (\<lambda>dir. if dir = ''/'' then Inr [ftp_link ''x'' ''../../etc'', ftp_folder ''x''] else Inr [ftp_file ''passwd'' 4])
     (\<lambda>p off. ''evil'')"


definition changed_turn :: ftp_turn where
  "changed_turn = ftp_calm_turn (\<lambda>_. Inr [ftp_file ''f'' 6]) (\<lambda>p off. drop off ''newer!'')"

text \<open>What is left of a broken transfer is resumed even when the file has changed on the server since: a run ends without
  an error, and its file has the start of the old version and the end of the new one.\<close>

theorem ftp_mixed_versions:
  "case ftp_Mirror 9 (\<lambda>_. changed_turn) (ftp_plain True) ''ftp://h/'' ''/d'' [] 0 None
      (ftp_fresh [] [[''d''] \<mapsto> LDir, [''d'', ''h''] \<mapsto> LDir, [''d'', ''h'', ''f.ftpmirror-tmp''] \<mapsto> LFile ''old'']) of
     Some (None, s') \<Rightarrow> fsDisk s' [''d'', ''h'', ''f''] = Some (LFile ''older!'') | _ \<Rightarrow> False"
  by code_simp

text \<open>With \<open>-update\<close>, an entry that was recorded before the directory that lists it (the start of an earlier run) is found to have
  changed and is queued, but behind the loop: the run ends without an error and has not fetched it.\<close>

theorem ftp_update_left:
  "case ftp_Mirror 9 (\<lambda>_. changed_turn) (ftp_plain True) ''ftp://h/a'' ''/d'' [] 0 None
      (ftp_fresh [(new_entry 1 ''h'' ''/a/f'' False 3 5)\<lparr>enState := ftp_done\<rparr>, (new_entry 2 ''h'' ''/a'' True (- 1) 0)\<lparr>enState := ftp_done\<rparr>]
         [[''d''] \<mapsto> LDir, [''d'', ''h''] \<mapsto> LDir, [''d'', ''h'', ''a''] \<mapsto> LDir, [''d'', ''h'', ''a'', ''f''] \<mapsto> LFile ''old'']) of
     Some (None, s') \<Rightarrow> map (\<lambda>r. (enPath r, enState r)) (fsRows s') = [(''/a/f'', ftp_pending), (''/a'', ftp_done)]
       \<and> fsDisk s' [''d'', ''h'', ''a'', ''f''] = Some (LFile ''old'')
   | _ \<Rightarrow> False"
  by code_simp

subsection \<open>A server that breaks a transfer\<close>

definition tree_crawl :: fcrawl where
  "tree_crawl = \<lparr>fcUpdate = False, fcAddr = ''h:21'', fcHost = ''h'', fcUser = ''anonymous'', fcPass = ''anonymous@'', fcTLS = None,
     fcImplTLS = False, fcHostDir = ''/d/h'', fcRoot = ''/'', fcCwd = [], fcDirSize = 0\<rparr>"

definition tree_content :: "key \<Rightarrow> string" where
  "tree_content k = (if k = [''d'', ''h'', ''f''] then ''hello'' else if k = [''d'', ''h'', ''p'', ''g''] then ''world!'' else [])"

definition tree_bytes :: "string \<Rightarrow> nat \<Rightarrow> string" where
  "tree_bytes p off = drop off (tree_content (ftp_key tree_crawl p))"

definition tree_list :: "string \<Rightarrow> ftp_error + ftp_entry list" where
  "tree_list dir = (if dir = ''/'' then Inr [ftp_folder ''p'', ftp_file ''f'' 5] else if dir = ''/p'' then Inr [ftp_file ''g'' 6]
     else Inl (Reply 550 ''no''))"

text \<open>The fourth turn is the first transfer of \<open>/f\<close>, and breaks after two bytes.\<close>

definition tree_env :: ftp_turns where
  "tree_env n = (if n = 3 then (ftp_calm_turn tree_list (\<lambda>p off. take 2 (tree_bytes p off)))\<lparr>ftCopyErr := Some (OtherFail ''reset'')\<rparr>
     else ftp_calm_turn tree_list tree_bytes)"

abbreviation tree_new :: fstate where
  "tree_new \<equiv> ftp_fresh [] (\<lambda>_. None)"

abbreviation tree_run :: "(string option \<times> fstate) option" where
  "tree_run \<equiv> ftp_crawl 9 tree_crawl tree_env tree_new"

lemma tree_run_ends: "case tree_run of Some (None, s) \<Rightarrow>
    map (\<lambda>r. (enPath r, enState r)) (fsRows s) = [(''/'', ''done''), (''/p'', ''done''), (''/f'', ''done''), (''/p/g'', ''done'')]
    \<and> fsFaults s = [] \<and> fsDials s = 2 \<and> fsDisk s [''d'', ''h'', ''f''] = Some (LFile ''hello'') | _ \<Rightarrow> False"
  by code_simp

lemma tree_run_some:
  obtains s where "tree_run = Some (None, s)" and "fsFaults s = []" and "fsDisk s [''d'', ''h'', ''f''] = Some (LFile ''hello'')"
  using tree_run_ends that by (simp split: option.splits prod.splits)

lemma tree_simps: "\<not> fcUpdate tree_crawl" "fcHost tree_crawl = ''h''" "fcRoot tree_crawl = ''/''" "fcCwd tree_crawl = []"
  by (simp_all add: tree_crawl_def)

lemma tree_table: "entries_ok (fsRows tree_new)"
  by (simp add: ftp_fresh_def table_ok_def)

theorem ftp_settles_witness: "case tree_run of Some (None, s') \<Rightarrow> ftp_finished tree_crawl s' | _ \<Rightarrow> False"
proof -
  obtain s where s: "tree_run = Some (None, s)" by (rule tree_run_some)
  show ?thesis using ftp_settles [OF s tree_simps(1) tree_table] s by simp
qed

theorem ftp_rerun_witness:
  "case tree_run of
     Some (None, s') \<Rightarrow>
       (case ftp_crawl (Suc (length (fsRows s'))) tree_crawl tree_env (s'\<lparr>fsErrors := 0, fsDials := 0\<rparr>) of
          Some (None, s'') \<Rightarrow> fsDials s'' = 0 \<and> fsDisk s'' = fsDisk s' | _ \<Rightarrow> False)
   | _ \<Rightarrow> False"
proof -
  obtain s where s: "tree_run = Some (None, s)" and f: "fsFaults s = []" by (rule tree_run_some)
  have q: "\<And>t. ftCtx (tree_env t) = None" by (simp add: tree_env_def ftp_calm_turn_def)
  from ftp_rerun [where env' = tree_env, OF s tree_simps(1) tree_table f q]
  obtain s'' where "ftp_crawl (Suc (length (fsRows s))) tree_crawl tree_env (s\<lparr>fsErrors := 0, fsDials := 0\<rparr>) = Some (None, s'')"
    "fsDials s'' = 0" "fsDisk s'' = fsDisk s" by blast
  then show ?thesis by (simp only: s option.case prod.case simp_thms)
qed

definition tree_names :: "(string \<times> string) set" where
  "tree_names = {(''h'', ''/''), (''h'', ''/p''), (''h'', ''/f''), (''h'', ''/p/g'')}"

lemma tree_paths: "JoinPath [''/'', ''p''] = ''/p''" "JoinPath [''/'', ''f''] = ''/f''" "JoinPath [''/p'', ''g''] = ''/p/g''"
  by code_simp+

lemma tree_lists: "ftList (tree_env n) dir = tree_list dir"
  by (simp add: tree_env_def ftp_calm_turn_def)

lemma tree_within: "lists_within tree_crawl tree_env tree_names"
  using tree_paths
  by (auto simp: lists_within_def tree_lists tree_list_def tree_simps tree_names_def ftp_file_def ftp_folder_def split: if_splits)

theorem ftp_terminates_witness: "\<exists>res. ftp_crawl (Suc (card tree_names)) tree_crawl tree_env tree_new = Some res"
proof (rule ftp_terminates)
  show "finite tree_names" "(fcHost tree_crawl, fcRoot tree_crawl) \<in> tree_names" by (simp_all add: tree_names_def tree_simps)
  show "entry_names tree_new \<subseteq> tree_names" by (simp add: ftp_fresh_def)
qed (rule tree_table, rule tree_within)

lemma tree_no_links: "no_links_listed tree_env"
  by (auto simp: no_links_listed_def tree_lists tree_list_def ftp_file_def ftp_folder_def split: if_splits)

lemma tree_disk: "no_links (fsDisk tree_new)" "cwd_exists [] (fsDisk tree_new)"
  by (simp_all add: ftp_fresh_def no_links_def cwd_exists_def)

definition tree_mirror :: "(string option \<times> fstate) option" where
  "tree_mirror = ftp_Mirror 9 tree_env (ftp_plain False) ''ftp://h/'' ''/d'' [] 0 None tree_new"

lemma tree_mirror_writes: "map_option (\<lambda>r. fsDisk (snd r) [''d'', ''h'', ''f'']) tree_mirror = Some (Some (LFile ''hello''))"
  by code_simp

lemma tree_setup: "ftp_setup (ftp_plain False) ''ftp://h/'' ''/d'' [] 0 = Inr tree_crawl"
  by code_simp

theorem ftp_writes_witness: "tree_mirror \<noteq> None \<and> received tree_crawl tree_env [''d'', ''h'', ''f''] ''hello''"
proof -
  obtain out s where s: "ftp_Mirror 9 tree_env (ftp_plain False) ''ftp://h/'' ''/d'' [] 0 None tree_new = Some (out, s)"
    and k: "fsDisk s [''d'', ''h'', ''f''] = Some (LFile ''hello'')"
    using tree_mirror_writes unfolding tree_mirror_def by auto
  have "ftp_allowed (lexical_place [] ''/d'') (received tree_crawl tree_env) [''d'', ''h'', ''f''] None (Some (LFile ''hello''))"
    using ftp_writes [OF s _ tree_disk tree_no_links] k by (simp add: tree_setup ftp_fresh_def) metis
  moreover have "\<not> ftp_temp [''d'', ''h'', ''f'']" by (simp add: ftp_temp_def ftp_tmpSuffix_def suffix_def)
  ultimately show ?thesis using s by (simp add: ftp_allowed_def tree_mirror_def)
qed

lemma tree_serves: "serves tree_crawl tree_env tree_content"
  by (auto simp: serves_def tree_env_def ftp_calm_turn_def tree_bytes_def take_is_prefix)


end
