(* ===== verification/Pacer.thy ===== *)
theory Pacer
  imports GoFS GoUrlRef "HOL-Library.Word"
begin

text \<open>
  What \<open>archiveorg/archiveorg.go\<close> and \<open>sourceforge/sourceforge.go\<close> have in common (each has its own copy of
  it): requests one after the other with retries and growing delays, and downloads that are verified before they
  are put in place. The outcomes of one attempt are a record, taken from an arbitrary sequence; a delay is a
  64-bit number of nanoseconds, as \<open>time.Duration\<close> is. MD5 is a parameter. Logging and file times are
  left out; the delays that are asked for are kept in a list.
\<close>

subsection \<open>Durations\<close>

type_synonym duration = "64 word"

definition one_second :: duration where "one_second = 1000000000"

definition dur_min :: "duration \<Rightarrow> duration \<Rightarrow> duration" where
  "dur_min a b = (if a <s b then a else b)"

definition dur_pos :: "duration \<Rightarrow> duration" where
  "dur_pos d = (if d <s 0 then 0 else d)"

text \<open>\<open>Retry-After\<close>: seconds, or a date, of which the time that is left until it is given.\<close>

definition retryAfter :: "string \<Rightarrow> duration option \<Rightarrow> duration" where
  "retryAfter header date =
    (let h = TrimSpace header in
     if h = [] then 0
     else (case Atoi h of
        (secs, True) \<Rightarrow> dur_pos (of_int secs * one_second)
      | (_, False) \<Rightarrow> (case date of Some d \<Rightarrow> dur_pos d | None \<Rightarrow> 0)))"

definition retryBase :: duration where "retryBase = 2 * one_second"
definition maxRetryDelay :: duration where "maxRetryDelay = 600 * one_second"

definition retry_delay :: "nat \<Rightarrow> duration \<Rightarrow> duration" where
  "retry_delay attempt after =
    (if 0 <s after then dur_min after maxRetryDelay else dur_min (push_bit attempt retryBase) maxRetryDelay)"

subsection \<open>Requests\<close>

record paced_reply =
  rpStatus :: nat
  rpRetryAfter :: string
  rpRetryDate :: "duration option"
  rpType :: string
  rpPath :: string                \<comment> \<open>of the request that was answered, after redirects\<close>
  rpBody :: string
  rpBodyErr :: "string option"

datatype req_error = Retryable string duration | Cancelled string | NotFolder | NotFound | Plain string

text \<open>The outcomes of one attempt.\<close>

record pturn =
  ptWait :: "string option"       \<comment> \<open>the context is cancelled in the wait before the request\<close>
  ptPause :: "string option"      \<comment> \<open>\dots in the delay after it\<close>
  ptCtx :: "string option"        \<comment> \<open>\dots when a request or a copy failed\<close>
  ptLook :: "string option"       \<comment> \<open>\dots when a loop looks\<close>
  ptDo :: "bool \<Rightarrow> string \<Rightarrow> string + paced_reply"   \<comment> \<open>whether redirects are followed, and the URL\<close>
  ptMkdir :: "(string \<times> nat) option"
  ptCreate :: "string option"
  ptWrite :: "string option"
  ptClose :: "string option"
  ptTimes :: "string option"
  ptRename :: "string option"

type_synonym pturns = "nat \<Rightarrow> pturn"

text \<open>\<open>get\<close>: without redirects the request is for a listing.\<close>

definition get_reply :: "pturn \<Rightarrow> bool \<Rightarrow> string \<Rightarrow> req_error + paced_reply" where
  "get_reply t follow u =
    (case request_url u of
       Inl e \<Rightarrow> Inl (Plain e)
     | Inr _ \<Rightarrow>
        (case ptDo t follow u of
           Inl e \<Rightarrow> Inl (case ptCtx t of Some c \<Rightarrow> Cancelled c | None \<Rightarrow> Retryable e 0)
         | Inr r \<Rightarrow>
            (let code = rpStatus r; e = ''http '' @ itoa (int code) in
             if code = 200 then Inr r
             else if \<not> follow \<and> 300 \<le> code \<and> code < 400 then Inl NotFolder
             else if \<not> follow \<and> code = 404 then Inl NotFound
             else if code = 429 \<or> 500 \<le> code then Inl (Retryable e (retryAfter (rpRetryAfter r) (rpRetryDate r)))
             else Inl (Plain e))))"

subsection \<open>The pacer\<close>

record pstate =
  psFs :: fs
  psTick :: nat
  psLast :: bool                  \<comment> \<open>a request was made before\<close>
  psDelays :: "duration list"
  psRequests :: nat

text \<open>One attempt: \<open>fn\<close> is the request with the outcomes of this turn.\<close>

definition pacer_once :: "pturns \<Rightarrow> (pturn \<Rightarrow> 'a pstate_scheme \<Rightarrow> (req_error + 'v) \<times> 'a pstate_scheme) \<Rightarrow> 'a pstate_scheme
    \<Rightarrow> (req_error + 'v) \<times> 'a pstate_scheme" where
  "pacer_once env fn s =
    (let t = env (psTick s); s0 = s\<lparr>psTick := Suc (psTick s)\<rparr> in
     if psLast s \<and> ptWait t \<noteq> None then (Inl (Cancelled (the (ptWait t))), s0)
     else (case fn t (s0\<lparr>psRequests := Suc (psRequests s)\<rparr>) of (r, s1) \<Rightarrow> (r, s1\<lparr>psLast := True\<rparr>)))"

text \<open>\<open>do\<close> with \<open>n\<close> retries left, after \<open>attempt\<close> of them.\<close>

primrec pacer_do :: "pturns \<Rightarrow> nat \<Rightarrow> nat \<Rightarrow> (pturn \<Rightarrow> 'a pstate_scheme \<Rightarrow> (req_error + 'v) \<times> 'a pstate_scheme) \<Rightarrow> 'a pstate_scheme
    \<Rightarrow> (req_error + 'v) \<times> 'a pstate_scheme" where
  "pacer_do env 0 attempt fn s = pacer_once env fn s"
| "pacer_do env (Suc n) attempt fn s =
    (case pacer_once env fn s of
       (Inl (Retryable e after), s1) \<Rightarrow>
         (let t = env (psTick s); s2 = s1\<lparr>psDelays := psDelays s1 @ [retry_delay attempt after]\<rparr> in
          case ptPause t of
            Some c \<Rightarrow> (Inl (Cancelled c), s2)
          | None \<Rightarrow> pacer_do env n (Suc attempt) fn s2)
     | res \<Rightarrow> res)"

definition with_retries :: "pturns \<Rightarrow> int \<Rightarrow> (pturn \<Rightarrow> 'a pstate_scheme \<Rightarrow> (req_error + 'v) \<times> 'a pstate_scheme) \<Rightarrow> 'a pstate_scheme
    \<Rightarrow> (req_error + 'v) \<times> 'a pstate_scheme" where
  "with_retries env retries = pacer_do env (nat retries) 0"

subsection \<open>Downloads\<close>

text \<open>\<open>url.PathEscape\<close>\<close>

definition PathEscape :: "string \<Rightarrow> string" where
  "PathEscape s = concat (map (\<lambda>c. if is_alnum c \<or> c \<in> set ''-_.~$&+:=@'' then [c]
     else (let n = (of_char c :: nat) in [CHR ''%'', upper_hex (n div 16), upper_hex (n mod 16)])) s)"

definition escapePath :: "string \<Rightarrow> string" where
  "escapePath p = Join (map PathEscape (Split p (CHR ''/''))) ''/''"

type_synonym digest = "string \<Rightarrow> string"

definition on_fs :: "fs \<Rightarrow> 'a pstate_scheme \<Rightarrow> 'a pstate_scheme" where
  "on_fs f s = s\<lparr>psFs := f\<rparr>"

text \<open>The answer \<open>r\<close> goes to a temporary file, and from there to its place once its checksum fits; \<open>stamp\<close>:
  the file times are set before that.\<close>

definition store_reply :: "digest \<Rightarrow> string \<Rightarrow> bool \<Rightarrow> pturn \<Rightarrow> path \<Rightarrow> string \<Rightarrow> paced_reply \<Rightarrow> fs \<Rightarrow> (req_error + unit) \<times> fs" where
  "store_reply md5 tmpSuffix stamp t finalPath wantMD5 r f =
    (let tmp = finalPath @ tmpSuffix; f0 = remove_file tmp f; f1 = put_file tmp (rpBody r) f in
     if is_dir (node_at tmp f) then (Inl (Plain ''is a directory''), f)
     else (case ptCreate t of
        Some e \<Rightarrow> (Inl (Plain e), f)
      | None \<Rightarrow>
         (case (ptWrite t, rpBodyErr r, ptClose t) of
            (Some e, _, _) \<Rightarrow> (Inl (case ptCtx t of Some c \<Rightarrow> Cancelled c | None \<Rightarrow> Retryable e 0), f0)
          | (None, Some e, _) \<Rightarrow> (Inl (case ptCtx t of Some c \<Rightarrow> Cancelled c | None \<Rightarrow> Retryable e 0), f0)
          | (None, None, Some e) \<Rightarrow> (Inl (Plain e), f0)
          | (None, None, None) \<Rightarrow>
             (if wantMD5 \<noteq> [] \<and> \<not> EqualFold (md5 (rpBody r)) wantMD5
              then (Inl (Retryable (''md5 mismatch: got '' @ md5 (rpBody r) @ '', want '' @ wantMD5) 0), f0)
              else if stamp \<and> ptTimes t \<noteq> None then (Inl (Plain (the (ptTimes t))), f0)
              else if is_dir (node_at finalPath f1) then (Inl (Plain ''file exists''), f1)
              else (case ptRename t of
                 Some e \<Rightarrow> (Inl (Plain e), f1)
               | None \<Rightarrow> (Inr (), put_file finalPath (rpBody r) (remove_file tmp f1)))))))"

text \<open>\<open>downloadFile\<close>; \<open>rejected\<close> is what is found wrong with an answer before its body is read.\<close>

definition download_file :: "digest \<Rightarrow> string \<Rightarrow> bool \<Rightarrow> (paced_reply \<Rightarrow> string option) \<Rightarrow> string \<Rightarrow> path \<Rightarrow> string \<Rightarrow> pturn \<Rightarrow> 'a pstate_scheme
    \<Rightarrow> (req_error + unit) \<times> 'a pstate_scheme" where
  "download_file md5 tmpSuffix stamp rejected srcURL finalPath wantMD5 t s =
    (case MkdirAll (ptMkdir t) (DirPath finalPath) (psFs s) of
       (Some e, f1) \<Rightarrow> (Inl (Plain e), on_fs f1 s)
     | (None, f1) \<Rightarrow>
        (case get_reply t True srcURL of
           Inl e \<Rightarrow> (Inl e, on_fs f1 s)
         | Inr r \<Rightarrow>
            (case rejected r of
               Some e \<Rightarrow> (Inl (Plain e), on_fs f1 s)
             | None \<Rightarrow> (case store_reply md5 tmpSuffix stamp t finalPath wantMD5 r f1 of (res, f2) \<Rightarrow> (res, on_fs f2 s)))))"

end
