(* ===== verification/Archive.thy ===== *)
theory Archive
  imports Pacer GoHttp
begin

text \<open>
  \<open>archiveorg/archiveorg.go\<close>: the mirror of an item of the Internet Archive. The list of its files is decoded from
  JSON as the server sends it; the XML parser for the file times, the parser of their numbers and the failures of
  setting them are parameters, as file times are not part of the file system here.
\<close>

subsection \<open>Identifiers\<close>

definition archive_doneFileName :: string where "archive_doneFileName = ''.done''"
definition archive_tmpSuffix :: string where "archive_tmpSuffix = ''.archiveorg-tmp''"

definition cut_any :: "string list \<Rightarrow> string \<Rightarrow> string option" where
  "cut_any ps s = (case find (HasPrefix s) ps of None \<Rightarrow> None | Some p \<Rightarrow> Some (drop (length p) s))"

text \<open>\<open>https?://(?:www\.)?archive\.org/(?:details|download)/\<close> at the head of a text: what follows it.\<close>

definition item_prefix :: "string \<Rightarrow> string option" where
  "item_prefix s =
    (case cut_any [''http://'', ''https://''] s of
       None \<Rightarrow> None
     | Some r \<Rightarrow> cut_any [''archive.org/details/'', ''archive.org/download/''] (TrimPrefix r ''www.''))"

text \<open>\<open>([^/]+)(?:/.*)?$\<close>: the group.\<close>

definition first_elem :: "string \<Rightarrow> string option" where
  "first_elem s =
    (let g = takeWhile (\<lambda>c. c \<noteq> CHR ''/'') s; r = dropWhile (\<lambda>c. c \<noteq> CHR ''/'') s in
     if g \<noteq> [] \<and> CHR 0x0A \<notin> set r then Some g else None)"

definition identifierRe :: "string \<Rightarrow> string option" where
  "identifierRe s =
    (case item_prefix s of
       None \<Rightarrow> first_elem s
     | Some r \<Rightarrow> (case first_elem r of Some g \<Rightarrow> Some g | None \<Rightarrow> first_elem s))"

definition itemURLRe :: "string \<Rightarrow> bool" where
  "itemURLRe s = (case item_prefix s of Some (c # _) \<Rightarrow> c \<noteq> CHR ''/'' | _ \<Rightarrow> False)"

definition ParseIdentifier :: "string \<Rightarrow> string + string" where
  "ParseIdentifier source =
    (case identifierRe source of
       None \<Rightarrow> Inl (''not an archive.org item: '' @ Quote source)
     | Some i \<Rightarrow> if ContainsAny i '':/'' then Inl (''not an archive.org item: '' @ Quote source) else Inr i)"

subsection \<open>Metadata\<close>

record meta_file =
  mfName :: string
  mfSize :: string
  mfMD5 :: string

record metadata =
  mdIsDark :: bool
  mdFiles :: "meta_file list"

text \<open>Decoding; \<open>None\<close> is an error of the decoder. Of several members of a name the last one counts.\<close>

definition decode_file :: "json \<Rightarrow> meta_file option" where
  "decode_file v =
    (case (case v of JObj ms \<Rightarrow> Some ms | JNull \<Rightarrow> Some [] | _ \<Rightarrow> None) of
       None \<Rightarrow> None
     | Some ms \<Rightarrow>
        (if snd (string_field ''name'' ms) \<and> snd (string_field ''size'' ms) \<and> snd (string_field ''md5'' ms)
         then Some \<lparr>mfName = fst (string_field ''name'' ms), mfSize = fst (string_field ''size'' ms), mfMD5 = fst (string_field ''md5'' ms)\<rparr>
         else None))"

definition decode_files :: "json list \<Rightarrow> meta_file list option" where
  "decode_files vs =
    (case (if vs = [] then JArr [] else last vs) of
       JArr fs \<Rightarrow> if list_all (\<lambda>v. case v of JArr _ \<Rightarrow> True | _ \<Rightarrow> False) vs then those (map decode_file fs) else None
     | _ \<Rightarrow> None)"

definition bool_field :: "string \<Rightarrow> (string \<times> json) list \<Rightarrow> bool \<times> bool" where
  "bool_field name ms = foldl (\<lambda>(b, good) v. case v of JBool x \<Rightarrow> (x, good) | _ \<Rightarrow> (b, False)) (False, True) (field_members name ms)"

definition decode_metadata :: "string \<Rightarrow> metadata option" where
  "decode_metadata bdy =
    (case struct_members bdy of
       None \<Rightarrow> None
     | Some ms \<Rightarrow>
        (case (bool_field ''is_dark'' ms, decode_files (field_members ''files'' ms)) of
           ((d, True), Some fs) \<Rightarrow> Some \<lparr>mdIsDark = d, mdFiles = fs\<rparr>
         | _ \<Rightarrow> None))"

definition metadataURL :: "string \<Rightarrow> string" where
  "metadataURL ident = ''https://archive.org/metadata/'' @ PathEscape ident"

text \<open>\<open>get\<close> of this package follows redirects.\<close>

definition archive_get :: "pturn \<Rightarrow> string \<Rightarrow> req_error + paced_reply" where
  "archive_get t = get_reply t True"

definition fetchMetadata :: "string \<Rightarrow> pturn \<Rightarrow> pstate \<Rightarrow> (req_error + metadata) \<times> pstate" where
  "fetchMetadata ident t s =
    (case archive_get t (metadataURL ident) of
       Inl e \<Rightarrow> (Inl e, s)
     | Inr r \<Rightarrow>
        (case decode_metadata (rpBody r) of
           None \<Rightarrow> (Inl (Retryable ''decoding metadata'' 0), s)
         | Some md \<Rightarrow> (Inr md, s)))"

subsection \<open>Files\<close>

definition archive_downloadURL :: "string \<Rightarrow> string \<Rightarrow> string" where
  "archive_downloadURL ident name = ''https://archive.org/download/'' @ PathEscape ident @ ''/'' @ escapePath name"

definition safeRelPath :: "string \<Rightarrow> string + path" where
  "safeRelPath name =
    (let c = Clean name in
     if c = ''.'' \<or> rooted c \<or> c = ''..'' \<or> HasPrefix c ''../'' then Inl (''unsafe file name '' @ Quote name) else Inr c)"

text \<open>The system reports \<open>dirSize\<close> as the size of a directory.\<close>

definition archive_alreadyHave :: "nat \<Rightarrow> path \<Rightarrow> int \<Rightarrow> fs \<Rightarrow> bool" where
  "archive_alreadyHave dirSize p wantSize f =
    (case node_at p f of None \<Rightarrow> False | Some Dir \<Rightarrow> int dirSize = wantSize | Some (File x) \<Rightarrow> int (length x) = wantSize)"

text \<open>The checksum to verify: the list of files has none of its own.\<close>

definition want_md5 :: "string \<Rightarrow> meta_file \<Rightarrow> string" where
  "want_md5 ident f = (if mfName f = ident @ ''_files.xml'' then [] else mfMD5 f)"

record archive_world =
  awMd5 :: digest
  awXml :: "string \<Rightarrow> string + (string \<times> string) list"   \<comment> \<open>the names and times of a \<open>_files.xml\<close>\<close>
  awBadTime :: "string \<Rightarrow> string option"                  \<comment> \<open>the error of \<open>ParseFloat\<close>\<close>
  awChtimes :: "path \<Rightarrow> string option"
  awDirSize :: nat
  awDone :: "string option"                               \<comment> \<open>the failure to write the marker\<close>

definition item_file :: "archive_world \<Rightarrow> pturns \<Rightarrow> int \<Rightarrow> string \<Rightarrow> path \<Rightarrow> meta_file \<Rightarrow> pstate \<Rightarrow> string option \<times> pstate" where
  "item_file w env retries ident itemDir f s =
    (let s0 = s\<lparr>psTick := Suc (psTick s)\<rparr> in
     if ptLook (env (psTick s)) \<noteq> None then (ptLook (env (psTick s)), s0)
     else if mfName f = [] then (None, s0)
     else (case safeRelPath (mfName f) of
        Inl e \<Rightarrow> (Some (ident @ '': '' @ e), s0)
      | Inr rel \<Rightarrow>
         (let finalPath = JoinPath [itemDir, rel]; n = fst (Atoi (mfSize f)) in
          if 0 < n \<and> archive_alreadyHave (awDirSize w) finalPath n (psFs s0) then (None, s0)
          else (case with_retries env retries
                (download_file (awMd5 w) archive_tmpSuffix False (\<lambda>_. None) (archive_downloadURL ident (mfName f)) finalPath (want_md5 ident f)) s0 of
             (Inl e, s1) \<Rightarrow> (Some (''downloading '' @ mfName f), s1)
           | (Inr _, s1) \<Rightarrow> (None, s1)))))"

fun item_files :: "archive_world \<Rightarrow> pturns \<Rightarrow> int \<Rightarrow> string \<Rightarrow> path \<Rightarrow> meta_file list \<Rightarrow> pstate \<Rightarrow> string option \<times> pstate" where
  "item_files w env retries ident itemDir [] s = (None, s)"
| "item_files w env retries ident itemDir (f # fs) s =
    (case item_file w env retries ident itemDir f s of
       (Some e, s1) \<Rightarrow> (Some e, s1)
     | (None, s1) \<Rightarrow> item_files w env retries ident itemDir fs s1)"

text \<open>The error of setting the file times, if there is one.\<close>

fun apply_times :: "archive_world \<Rightarrow> path \<Rightarrow> fs \<Rightarrow> (string \<times> string) list \<Rightarrow> string option" where
  "apply_times w itemDir f [] = None"
| "apply_times w itemDir f ((name, mtime) # r) =
    (if name = [] \<or> mtime = [] then apply_times w itemDir f r
     else (case awBadTime w (TrimSpace mtime) of
        Some e \<Rightarrow> Some (name @ '': bad mtime '' @ Quote mtime @ '': '' @ e)
      | None \<Rightarrow>
         (case safeRelPath name of
            Inl e \<Rightarrow> Some e
          | Inr rel \<Rightarrow>
             (let p = JoinPath [itemDir, rel] in
              if node_at p f \<noteq> None \<and> awChtimes w p \<noteq> None then awChtimes w p else apply_times w itemDir f r))))"

definition applyMTimes :: "archive_world \<Rightarrow> path \<Rightarrow> path \<Rightarrow> fs \<Rightarrow> string option" where
  "applyMTimes w itemDir xmlPath f =
    (case node_at xmlPath f of
       None \<Rightarrow> None
     | Some Dir \<Rightarrow> Some ''is a directory''
     | Some (File data) \<Rightarrow>
        (case awXml w data of Inl e \<Rightarrow> Some (''parsing '' @ xmlPath @ '': '' @ e) | Inr fs \<Rightarrow> apply_times w itemDir f fs))"

definition archive_finish :: "archive_world \<Rightarrow> string \<Rightarrow> path \<Rightarrow> pstate \<Rightarrow> string option \<times> pstate" where
  "archive_finish w ident itemDir s =
    (let donePath = JoinPath [itemDir, archive_doneFileName] in
     case applyMTimes w itemDir (JoinPath [itemDir, ident @ ''_files.xml'']) (psFs s) of
       Some e \<Rightarrow> (Some (ident @ '': setting mtimes: '' @ e), s)
     | None \<Rightarrow>
        (if is_dir (node_at donePath (psFs s)) then (Some (''writing '' @ donePath), s)
         else (case awDone w of
            Some e \<Rightarrow> (Some (''writing '' @ donePath @ '': '' @ e), s)
          | None \<Rightarrow> (None, on_fs (put_file donePath ''DONE'' (psFs s)) s))))"

definition archive_Mirror :: "archive_world \<Rightarrow> pturns \<Rightarrow> bool \<Rightarrow> int \<Rightarrow> string \<Rightarrow> path \<Rightarrow> pstate \<Rightarrow> string option \<times> pstate" where
  "archive_Mirror w env force retries source destDir s =
    (case ParseIdentifier source of
       Inl e \<Rightarrow> (Some e, s)
     | Inr ident \<Rightarrow>
        (let itemDir = JoinPath [destDir, ident] in
         if \<not> force \<and> node_at (JoinPath [itemDir, archive_doneFileName]) (psFs s) \<noteq> None then (None, s)
         else (case MkdirAll (ptMkdir (env (psTick s))) itemDir (psFs s) of
            (Some e, f) \<Rightarrow> (Some e, on_fs f s)
          | (None, f) \<Rightarrow>
             (case with_retries env retries (fetchMetadata ident) (on_fs f s\<lparr>psLast := False\<rparr>) of
                (Inl e, s1) \<Rightarrow> (Some (''fetching metadata for '' @ ident), s1)
              | (Inr md, s1) \<Rightarrow>
                 (if mdIsDark md then (Some (ident @ '' is dark (access restricted), nothing to download''), s1)
                  else if mdFiles md = [] then (Some (ident @ '': no files listed (item may not exist)''), s1)
                  else (case item_files w env retries ident itemDir (mdFiles md) s1 of
                     (Some e, s2) \<Rightarrow> (Some e, s2)
                   | (None, s2) \<Rightarrow> archive_finish w ident itemDir s2))))))"

end
