(* ===== verification/PacerProps.thy ===== *)
theory PacerProps
  imports Pacer
begin

text \<open>
  What holds of the pacer and of a verified download, whichever of the two programs runs them: the bounds of the
  retries and delays, what a request that succeeds leaves, and what a download may change in the file system. A
  relation of file systems that every request keeps is kept by the retries: this is proved once, over any such
  relation, and used for "these places are not touched" and for "only this is written".
\<close>

subsection \<open>Retries\<close>

lemma pacer_once_cases:
  assumes "pacer_once env fn s = (r, s')"
  obtains (cancelled) c where "r = Inl (Cancelled c)" "s' = s\<lparr>psTick := Suc (psTick s)\<rparr>" "ptWait (env (psTick s)) = Some c"
  | (asked) s1 where "fn (env (psTick s)) (s\<lparr>psTick := Suc (psTick s), psRequests := Suc (psRequests s)\<rparr>) = (r, s1)" "s' = s1\<lparr>psLast := True\<rparr>"
  using assms unfolding pacer_once_def Let_def
  by (auto split: if_splits prod.splits)

lemma pacer_do_cases:
  assumes "pacer_do env (Suc n) a fn s = (r, s')"
  obtains (once) "pacer_once env fn s = (r, s')" "\<And>e d. r \<noteq> Inl (Retryable e d)"
  | (stopped) e d s1 c where "pacer_once env fn s = (Inl (Retryable e d), s1)" "r = Inl (Cancelled c)"
      "s' = s1\<lparr>psDelays := psDelays s1 @ [retry_delay a d]\<rparr>" "ptPause (env (psTick s)) = Some c"
  | (again) e d s1 where "pacer_once env fn s = (Inl (Retryable e d), s1)"
      "pacer_do env n (Suc a) fn (s1\<lparr>psDelays := psDelays s1 @ [retry_delay a d]\<rparr>) = (r, s')"
proof -
  obtain x s1 where 1: "pacer_once env fn s = (x, s1)" by fastforce
  show thesis
  proof (cases "\<exists>e d. x = Inl (Retryable e d)")
    case True
    then obtain e d where x: "x = Inl (Retryable e d)" by blast
    show thesis using assms 1 x stopped again by (auto simp: Let_def split: option.splits)
  next
    case False
    then have "r = x" "s' = s1" using assms 1 by (auto split: sum.splits req_error.splits)
    then show thesis using once 1 False by blast
  qed
qed

lemma pacer_do_ok:
  "pacer_do env n a fn s = (Inr v, s') \<Longrightarrow> \<exists>k s0 s1. fn (env k) s0 = (Inr v, s1) \<and> s' = s1\<lparr>psLast := True\<rparr>"
proof (induction n arbitrary: a s)
  case 0
  then have "pacer_once env fn s = (Inr v, s')" by simp
  then show ?case by (rule pacer_once_cases) blast+
next
  case (Suc n)
  from Suc.prems show ?case
  proof (cases rule: pacer_do_cases)
    case once
    from once(1) show ?thesis by (rule pacer_once_cases) blast+
  next
    case (again e d s1)
    show ?thesis by (rule Suc.IH [OF again(2)])
  qed simp
qed

lemma pacer_do_error:
  "pacer_do env n a fn s = (Inl err, s') \<Longrightarrow>
     (\<exists>k c. err = Cancelled c \<and> (ptWait (env k) = Some c \<or> ptPause (env k) = Some c)) \<or> (\<exists>k s0 s1. fn (env k) s0 = (Inl err, s1))"
proof (induction n arbitrary: a s)
  case 0
  then have "pacer_once env fn s = (Inl err, s')" by simp
  then show ?case by (rule pacer_once_cases) blast+
next
  case (Suc n)
  from Suc.prems show ?case
  proof (cases rule: pacer_do_cases)
    case once
    from once(1) show ?thesis by (rule pacer_once_cases) blast+
  next
    case (stopped e d s1 c)
    then show ?thesis by blast
  next
    case (again e d s1)
    show ?thesis by (rule Suc.IH [OF again(2)])
  qed
qed

text \<open>A relation that every request keeps.\<close>

locale request_relation =
  fixes R :: "fs \<Rightarrow> fs \<Rightarrow> bool"
  assumes same: "R f f" and trans: "R f g \<Longrightarrow> R g h \<Longrightarrow> R f h"
begin

lemma pacer_once_keeps:
  assumes "pacer_once env fn s = (r, s')" and "\<And>k s r s'. fn (env k) s = (r, s') \<Longrightarrow> R (psFs s) (psFs s')"
  shows "R (psFs s) (psFs s')"
  using assms(1)
proof (cases rule: pacer_once_cases)
  case cancelled
  then show ?thesis using same by simp
next
  case (asked s1)
  then show ?thesis using assms(2) [OF asked(1)] by simp
qed

lemma pacer_do_keeps:
  assumes "pacer_do env n a fn s = (r, s')" and "\<And>k s r s'. fn (env k) s = (r, s') \<Longrightarrow> R (psFs s) (psFs s')"
  shows "R (psFs s) (psFs s')"
  using assms(1)
proof (induction n arbitrary: a s)
  case 0
  then show ?case using pacer_once_keeps [OF _ assms(2)] by simp
next
  case (Suc n)
  from Suc.prems show ?case
  proof (cases rule: pacer_do_cases)
    case once
    show ?thesis by (rule pacer_once_keeps [OF once(1) assms(2)])
  next
    case (stopped e d s1 c)
    then show ?thesis using pacer_once_keeps [OF stopped(1) assms(2)] by simp
  next
    case (again e d s1)
    have "R (psFs s) (psFs s1)" by (rule pacer_once_keeps [OF again(1) assms(2)])
    moreover have "R (psFs s1) (psFs s')" using Suc.IH [OF again(2)] by simp
    ultimately show ?thesis by (rule trans)
  qed
qed

lemma with_retries_keeps_env:
  assumes "with_retries env n fn s = (r, s')" and "\<And>k s r s'. fn (env k) s = (r, s') \<Longrightarrow> R (psFs s) (psFs s')"
  shows "R (psFs s) (psFs s')"
  using assms unfolding with_retries_def by (rule pacer_do_keeps)

lemma with_retries_keeps:
  assumes "with_retries env n fn s = (r, s')" and "\<And>t s r s'. fn t s = (r, s') \<Longrightarrow> R (psFs s) (psFs s')"
  shows "R (psFs s) (psFs s')"
  using assms(1) by (rule with_retries_keeps_env) (rule assms(2))

end

subsection \<open>Bounds\<close>

lemma dur_min_le: "dur_min a b \<le>s b"
  unfolding dur_min_def by auto

lemma retry_delay_le: "retry_delay n after \<le>s maxRetryDelay"
  unfolding retry_delay_def by (simp add: dur_min_le)

text \<open>A request that changes nothing but the file system.\<close>

definition plain_request :: "(pturn \<Rightarrow> 'a pstate_scheme \<Rightarrow> (req_error + 'v) \<times> 'a pstate_scheme) \<Rightarrow> bool" where
  "plain_request fn \<longleftrightarrow> (\<forall>t s. psRequests (snd (fn t s)) = psRequests s \<and> psDelays (snd (fn t s)) = psDelays s
     \<and> psTick (snd (fn t s)) = psTick s \<and> pstate.more (snd (fn t s)) = pstate.more s)"

lemma pacer_once_count:
  assumes "pacer_once env fn s = (r, s')" and "plain_request fn"
  shows "psRequests s' \<le> Suc (psRequests s) \<and> psDelays s' = psDelays s
    \<and> ((\<forall>c. r \<noteq> Inl (Cancelled c)) \<longrightarrow> psRequests s' = Suc (psRequests s))"
  using assms(1)
proof (cases rule: pacer_once_cases)
  case (asked s1)
  have "psRequests s1 = Suc (psRequests s) \<and> psDelays s1 = psDelays s"
    using assms(2) asked(1) unfolding plain_request_def
    by (metis (no_types, lifting) pstate.ext_inject pstate.surjective pstate.update_convs(2,5) snd_conv)
  then show ?thesis using asked(2) by simp
qed simp

lemma pacer_do_count:
  assumes "pacer_do env n a fn s = (r, s')" and "plain_request fn"
  shows "psRequests s' \<le> psRequests s + Suc n
    \<and> (\<exists>ds. psDelays s' = psDelays s @ ds \<and> length ds \<le> n \<and> (\<forall>d \<in> set ds. d \<le>s maxRetryDelay))
    \<and> ((\<exists>e d. r = Inl (Retryable e d)) \<longrightarrow> psRequests s' = psRequests s + Suc n)"
  using assms(1)
proof (induction n arbitrary: a s)
  case 0
  then show ?case using pacer_once_count [OF _ assms(2), of env s r s'] by auto
next
  case (Suc n)
  from Suc.prems show ?case
  proof (cases rule: pacer_do_cases)
    case once
    then show ?thesis using pacer_once_count [OF once(1) assms(2)] by auto
  next
    case (stopped e d s1 c)
    then show ?thesis using pacer_once_count [OF stopped(1) assms(2)] retry_delay_le by auto
  next
    case (again e d s1)
    have 1: "psRequests s1 = Suc (psRequests s)" "psDelays s1 = psDelays s" using pacer_once_count [OF again(1) assms(2)] by simp_all
    let ?d = "retry_delay a d"
    obtain ds where ds: "psDelays s' = psDelays s @ ?d # ds" "length ds \<le> n" "\<forall>d \<in> set ds. d \<le>s maxRetryDelay"
      using Suc.IH [OF again(2)] 1 by auto
    show ?thesis
    proof (intro conjI)
      show "\<exists>ds. psDelays s' = psDelays s @ ds \<and> length ds \<le> Suc n \<and> (\<forall>d \<in> set ds. d \<le>s maxRetryDelay)"
        using ds retry_delay_le by (intro exI [of _ "?d # ds"]) simp
    qed (use Suc.IH [OF again(2)] 1 in auto)
  qed
qed

text \<open>\<open>m\<close> requests, each retried at most \<open>n\<close> times, with delays up to the limit.\<close>

definition paced :: "nat \<Rightarrow> nat \<Rightarrow> 'a pstate_scheme \<Rightarrow> 'a pstate_scheme \<Rightarrow> bool" where
  "paced m n s s' \<longleftrightarrow> psRequests s' \<le> psRequests s + m * Suc n
     \<and> (\<exists>ds. psDelays s' = psDelays s @ ds \<and> length ds \<le> m * n \<and> (\<forall>d \<in> set ds. d \<le>s maxRetryDelay))"

lemma paced_same [simp]: "psRequests s' = psRequests s \<Longrightarrow> psDelays s' = psDelays s \<Longrightarrow> paced m n s s'"
  by (simp add: paced_def)

lemma paced_trans:
  assumes "paced a n s t" and "paced b n t u"
  shows "paced (a + b) n s u"
proof -
  obtain ds where ds: "psDelays t = psDelays s @ ds" "length ds \<le> a * n" "\<forall>d \<in> set ds. d \<le>s maxRetryDelay" using assms(1) unfolding paced_def by blast
  obtain es where es: "psDelays u = psDelays t @ es" "length es \<le> b * n" "\<forall>d \<in> set es. d \<le>s maxRetryDelay" using assms(2) unfolding paced_def by blast
  have "\<exists>xs. psDelays u = psDelays s @ xs \<and> length xs \<le> (a + b) * n \<and> (\<forall>d \<in> set xs. d \<le>s maxRetryDelay)"
    by (rule exI [of _ "ds @ es"]) (use ds es in \<open>auto simp: add_mult_distrib\<close>)
  moreover have "psRequests u \<le> psRequests s + (a + b) * Suc n" using assms unfolding paced_def by (simp add: add_mult_distrib)
  ultimately show ?thesis unfolding paced_def by blast
qed

lemma paced_mono: "paced a n s t \<Longrightarrow> a \<le> b \<Longrightarrow> paced b n s t"
  using paced_trans [of a n s t "b - a" t] by simp

lemma with_retries_paced:
  assumes "with_retries env n fn s = (r, s')" and "plain_request fn"
  shows "paced 1 (nat n) s s'"
  using pacer_do_count [OF assms [unfolded with_retries_def]] by (simp add: paced_def)

text \<open>The fields of a program that runs requests are its own.\<close>

lemma pacer_once_more:
  assumes "pacer_once env fn s = (r, s')" and "plain_request fn"
  shows "pstate.more s' = pstate.more s"
  using assms(1)
proof (cases rule: pacer_once_cases)
  case (asked s1)
  let ?s = "s\<lparr>psTick := Suc (psTick s), psRequests := Suc (psRequests s)\<rparr>"
  have "pstate.more (snd (fn (env (psTick s)) ?s)) = pstate.more ?s" using assms(2) unfolding plain_request_def by blast
  then show ?thesis using asked by simp
qed simp

lemma pacer_do_more:
  assumes "pacer_do env n a fn s = (r, s')" and "plain_request fn"
  shows "pstate.more s' = pstate.more s"
  using assms(1)
proof (induction n arbitrary: a s)
  case 0
  then show ?case using pacer_once_more [OF _ assms(2), of env s r s'] by simp
next
  case (Suc n)
  from Suc.prems show ?case
  proof (cases rule: pacer_do_cases)
    case once
    then show ?thesis using pacer_once_more [OF once(1) assms(2)] by simp
  next
    case (stopped e d s1 c)
    then show ?thesis using pacer_once_more [OF stopped(1) assms(2)] by simp
  next
    case (again e d s1)
    then show ?thesis using pacer_once_more [OF again(1) assms(2)] Suc.IH [OF again(2)] by simp
  qed
qed

lemma with_retries_more: "with_retries env n fn s = (r, s') \<Longrightarrow> plain_request fn \<Longrightarrow> pstate.more s' = pstate.more s"
  unfolding with_retries_def by (rule pacer_do_more)

subsection \<open>Cancelling\<close>

text \<open>What \<open>context\<close> documents: once it is cancelled, its error stays.\<close>

definition cancelled_turn :: "pturn \<Rightarrow> bool" where
  "cancelled_turn t \<longleftrightarrow> ptLook t \<noteq> None \<or> ptWait t \<noteq> None \<or> ptPause t \<noteq> None \<or> ptCtx t \<noteq> None"

definition cancel_lasts :: "pturns \<Rightarrow> bool" where
  "cancel_lasts env \<longleftrightarrow> (\<forall>n m. n < m \<longrightarrow> cancelled_turn (env n) \<longrightarrow> ptLook (env m) \<noteq> None)"

definition cancels_honestly :: "(pturn \<Rightarrow> 'a pstate_scheme \<Rightarrow> (req_error + 'v) \<times> 'a pstate_scheme) \<Rightarrow> bool" where
  "cancels_honestly fn \<longleftrightarrow> (\<forall>t s c s'. fn t s = (Inl (Cancelled c), s') \<longrightarrow> ptCtx t \<noteq> None)"

lemma pacer_once_turns:
  assumes "pacer_once env fn s = (r, s')" and "plain_request fn" and "cancels_honestly fn"
  shows "psTick s' = Suc (psTick s) \<and> ((\<exists>c. r = Inl (Cancelled c)) \<longrightarrow> cancelled_turn (env (psTick s)))"
  using assms(1)
proof (cases rule: pacer_once_cases)
  case (cancelled c)
  then show ?thesis by (simp add: cancelled_turn_def)
next
  case (asked s1)
  let ?s = "s\<lparr>psTick := Suc (psTick s), psRequests := Suc (psRequests s)\<rparr>"
  have "psTick (snd (fn (env (psTick s)) ?s)) = psTick ?s" using assms(2) unfolding plain_request_def by blast
  moreover have "ptCtx (env (psTick s)) \<noteq> None" if "r = Inl (Cancelled c)" for c
    using assms(3) asked(1) that unfolding cancels_honestly_def by blast
  ultimately show ?thesis using asked unfolding cancelled_turn_def by auto
qed

lemma pacer_do_turns:
  assumes "pacer_do env n a fn s = (r, s')" and "plain_request fn" and "cancels_honestly fn"
  shows "psTick s < psTick s' \<and> ((\<exists>c. r = Inl (Cancelled c)) \<longrightarrow> (\<exists>k < psTick s'. cancelled_turn (env k)))"
  using assms(1)
proof (induction n arbitrary: a s)
  case 0
  then show ?case using pacer_once_turns [OF _ assms(2,3), of env s r s'] by auto
next
  case (Suc n)
  from Suc.prems show ?case
  proof (cases rule: pacer_do_cases)
    case once
    then show ?thesis using pacer_once_turns [OF once(1) assms(2,3)] by auto
  next
    case (stopped e d s1 c)
    have "psTick s1 = Suc (psTick s)" using pacer_once_turns [OF stopped(1) assms(2,3)] by simp
    moreover have "cancelled_turn (env (psTick s))" using stopped(4) by (simp add: cancelled_turn_def)
    ultimately show ?thesis using stopped(3) by auto
  next
    case (again e d s1)
    have "psTick s1 = Suc (psTick s)" using pacer_once_turns [OF again(1) assms(2,3)] by simp
    then show ?thesis using Suc.IH [OF again(2)] by auto
  qed
qed

lemma with_retries_turns:
  assumes "with_retries env n fn s = (r, s')" and "plain_request fn" and "cancels_honestly fn"
  shows "psTick s < psTick s'" and "r = Inl (Cancelled c) \<Longrightarrow> \<exists>k < psTick s'. cancelled_turn (env k)"
  using pacer_do_turns [OF assms [unfolded with_retries_def]] by blast+

subsection \<open>Downloads\<close>

definition md5_fits :: "digest \<Rightarrow> string \<Rightarrow> string \<Rightarrow> bool" where
  "md5_fits md5 want x \<longleftrightarrow> want = [] \<or> EqualFold (md5 x) want"

text \<open>The whole answer to an undisturbed request for \<open>u\<close>.\<close>

definition fetched :: "pturns \<Rightarrow> string \<Rightarrow> string \<Rightarrow> bool" where
  "fetched env u x \<longleftrightarrow> (\<exists>n r. ptDo (env n) True u = Inr r \<and> rpStatus r = 200 \<and> rpBodyErr r = None \<and> x = rpBody r
     \<and> ptWrite (env n) = None \<and> ptClose (env n) = None)"

lemma get_reply_ok: "get_reply t follow u = Inr r \<Longrightarrow> ptDo t follow u = Inr r \<and> rpStatus r = 200"
  by (auto simp: get_reply_def Let_def split: sum.splits if_splits)

lemma store_reply_cases:
  assumes "store_reply md5 sfx stamp t p want r f = (res, f')"
  obtains (failed) e where "res = Inl e" "f' = f \<or> \<not> is_dir (node_at (p @ sfx) f) \<and> (f' = remove_file (p @ sfx) f \<or> f' = put_file (p @ sfx) (rpBody r) f)"
  | (stored) "res = Inr ()" "f' = put_file p (rpBody r) (remove_file (p @ sfx) (put_file (p @ sfx) (rpBody r) f))"
      "\<not> is_dir (node_at (p @ sfx) f)" "\<not> is_dir (node_at p (put_file (p @ sfx) (rpBody r) f))"
      "rpBodyErr r = None" "md5_fits md5 want (rpBody r)" "ptWrite t = None" "ptClose t = None"
  using assms unfolding store_reply_def Let_def md5_fits_def
  by (auto split: if_splits option.splits)

lemma download_file_cases:
  assumes "download_file md5 sfx stamp rejected u p want t s = (res, s')"
  obtains (blocked) e e' f1 where "res = Inl e" "MkdirAll (ptMkdir t) (DirPath p) (psFs s) = (Some e', f1)" "s' = on_fs f1 s"
  | (refused) e f1 where "res = Inl e" "MkdirAll (ptMkdir t) (DirPath p) (psFs s) = (None, f1)" "s' = on_fs f1 s"
  | (answered) f1 r f2 where "MkdirAll (ptMkdir t) (DirPath p) (psFs s) = (None, f1)" "get_reply t True u = Inr r"
      "rejected r = None" "store_reply md5 sfx stamp t p want r f1 = (res, f2)" "s' = on_fs f2 s"
  using assms unfolding download_file_def
  by (auto split: sum.splits option.splits prod.splits)

lemma download_plain: "plain_request (download_file md5 sfx stamp rejected u p want)"
  unfolding plain_request_def
proof (intro allI)
  fix t and s :: "'a pstate_scheme"
  obtain res s' where h: "download_file md5 sfx stamp rejected u p want t s = (res, s')" by fastforce
  have "psRequests s' = psRequests s \<and> psDelays s' = psDelays s \<and> psTick s' = psTick s \<and> pstate.more s' = pstate.more s"
    by (rule download_file_cases [OF h]) (simp_all add: on_fs_def)
  then show "psRequests (snd (download_file md5 sfx stamp rejected u p want t s)) = psRequests s
      \<and> psDelays (snd (download_file md5 sfx stamp rejected u p want t s)) = psDelays s
      \<and> psTick (snd (download_file md5 sfx stamp rejected u p want t s)) = psTick s
      \<and> pstate.more (snd (download_file md5 sfx stamp rejected u p want t s)) = pstate.more s" using h by simp
qed

lemma get_reply_cancelled: "get_reply t follow u = Inl (Cancelled c) \<Longrightarrow> ptCtx t \<noteq> None"
  by (auto simp: get_reply_def Let_def split: sum.splits if_splits option.splits)

lemma store_reply_cancelled: "store_reply md5 sfx stamp t p want r f = (Inl (Cancelled c), f') \<Longrightarrow> ptCtx t \<noteq> None"
  by (auto simp: store_reply_def Let_def split: if_splits option.splits)

lemma download_honest: "cancels_honestly (download_file md5 sfx stamp rejected u p want)"
  unfolding cancels_honestly_def
proof (intro allI impI)
  fix t c and s s' :: "'a pstate_scheme"
  assume h: "download_file md5 sfx stamp rejected u p want t s = (Inl (Cancelled c), s')"
  obtain x f1 where m: "MkdirAll (ptMkdir t) (DirPath p) (psFs s) = (x, f1)" by fastforce
  then have x: "x = None" using h by (cases x) (simp_all add: download_file_def)
  show "ptCtx t \<noteq> None"
  proof (cases "get_reply t True u")
    case (Inl e)
    then have "e = Cancelled c" using h m x by (simp add: download_file_def)
    then show ?thesis using Inl get_reply_cancelled by blast
  next
    case (Inr r)
    then have rej: "rejected r = None" using h m x by (cases "rejected r") (simp_all add: download_file_def)
    obtain y f2 where st: "store_reply md5 sfx stamp t p want r f1 = (y, f2)" by fastforce
    then have "y = Inl (Cancelled c)" using h m x Inr rej by (simp add: download_file_def)
    then show ?thesis using st store_reply_cancelled by blast
  qed
qed

interpretation unchanged: request_relation "(=)"
  by unfold_locales simp_all

text \<open>What is at a place that is neither the file's nor its temporary one stays there.\<close>

definition stays :: "key set \<Rightarrow> fs \<Rightarrow> fs \<Rightarrow> bool" where
  "stays K f f' \<longleftrightarrow> (\<forall>k. k \<notin> K \<longrightarrow> f k \<noteq> None \<longrightarrow> f' k = f k)"

interpretation untouched: request_relation "stays K" for K
proof unfold_locales
  show "stays K f f" for f by (simp add: stays_def)
  show "stays K f h" if "stays K f g" "stays K g h" for f g h using that by (simp add: stays_def)
qed

definition two_places :: "path \<Rightarrow> string \<Rightarrow> key set" where
  "two_places p sfx = {clean_elems p, clean_elems (p @ sfx)}"

lemma MkdirAll_stays: "MkdirAll fault p f = (r, f') \<Longrightarrow> stays K f f'"
  unfolding stays_def using MkdirAll_change [of fault p f r f'] by (metis option.distinct(1))

lemma store_reply_stays: "store_reply md5 sfx stamp t p want r f = (res, f') \<Longrightarrow> stays (two_places p sfx) f f'"
  by (erule store_reply_cases) (auto simp: stays_def two_places_def put_file_def remove_file_def)

lemma download_stays:
  "download_file md5 sfx stamp rejected u p want t s = (res, s') \<Longrightarrow> stays (two_places p sfx) (psFs s) (psFs s')"
proof (erule download_file_cases)
  fix f1 r f2
  assume a: "MkdirAll (ptMkdir t) (DirPath p) (psFs s) = (None, f1)" "store_reply md5 sfx stamp t p want r f1 = (res, f2)" "s' = on_fs f2 s"
  show "stays (two_places p sfx) (psFs s) (psFs s')"
    using untouched.trans [OF MkdirAll_stays [OF a(1)] store_reply_stays [OF a(2)]] a(3) by (simp add: on_fs_def)
qed (simp_all add: on_fs_def MkdirAll_stays)

text \<open>A download that succeeds leaves a whole answer in place.\<close>

lemma download_done:
  assumes "with_retries env n (download_file md5 sfx stamp rejected u p want) s = (Inr v, s')"
  shows "\<exists>x. node_at p (psFs s') = Some (File x) \<and> fetched env u x \<and> md5_fits md5 want x"
proof -
  obtain k s0 s1 where k: "download_file md5 sfx stamp rejected u p want (env k) s0 = (Inr v, s1)" "s' = s1\<lparr>psLast := True\<rparr>"
    using pacer_do_ok [OF assms [unfolded with_retries_def]] by blast
  from k(1) show ?thesis
  proof (cases rule: download_file_cases)
    case (answered f1 r f2)
    from answered(4) show ?thesis
    proof (cases rule: store_reply_cases)
      case stored
      then show ?thesis using get_reply_ok [OF answered(2)] answered(5) k(2)
        by (intro exI [of _ "rpBody r"]) (auto simp: fetched_def node_at_def put_file_def on_fs_def)
    qed simp
  qed simp_all
qed

subsection \<open>What may be written\<close>

definition tmp_key :: "string \<Rightarrow> key \<Rightarrow> bool" where
  "tmp_key sfx k \<longleftrightarrow> (\<exists>es e. k = es @ [e @ sfx])"

text \<open>Directories, below \<open>D\<close> or on the way to it; temporary files; and files that are \<open>good\<close>, in the place of no
  directory.\<close>

definition paced_allowed :: "string \<Rightarrow> (key \<Rightarrow> string \<Rightarrow> bool) \<Rightarrow> key \<Rightarrow> key \<Rightarrow> node option \<Rightarrow> node option \<Rightarrow> bool" where
  "paced_allowed sfx good D k old new \<longleftrightarrow> new = old
     \<or> (old = None \<and> new = Some Dir \<and> (prefix D k \<or> prefix k D))
     \<or> (strict_prefix D k \<and> tmp_key sfx k)
     \<or> (strict_prefix D k \<and> old \<noteq> Some Dir \<and> (\<exists>x. new = Some (File x) \<and> good k x))"

definition paced_changes :: "string \<Rightarrow> (key \<Rightarrow> string \<Rightarrow> bool) \<Rightarrow> key \<Rightarrow> fs \<Rightarrow> fs \<Rightarrow> bool" where
  "paced_changes sfx good D f f' \<longleftrightarrow> (\<forall>k. paced_allowed sfx good D k (f k) (f' k))"

interpretation confined: request_relation "paced_changes sfx good D" for sfx good D
proof unfold_locales
  show "paced_changes sfx good D f f" for f by (simp add: paced_changes_def paced_allowed_def)
  have "paced_allowed sfx good D k x y \<Longrightarrow> paced_allowed sfx good D k y z \<Longrightarrow> paced_allowed sfx good D k x z" for k x y z
    unfolding paced_allowed_def by auto
  then show "paced_changes sfx good D f h" if "paced_changes sfx good D f g" "paced_changes sfx good D g h" for f g h
    using that unfolding paced_changes_def by blast
qed

lemma paced_MkdirAll:
  assumes "MkdirAll fault p f = (r, f')" and "prefix (clean_elems p) place" and "prefix D place"
  shows "paced_changes sfx good D f f'"
  unfolding paced_changes_def
proof
  fix k
  show "paced_allowed sfx good D k (f k) (f' k)"
  proof (cases "f' k = f k")
    case False
    then have 2: "f k = None" "f' k = Some Dir" "prefix k (clean_elems p)" using MkdirAll_change [OF assms(1), of k] by simp_all
    then have "prefix k place" using assms(2) by (meson prefix_order.trans)
    then have "prefix D k \<or> prefix k D" using assms(3) prefix_same_cases by blast
    then show ?thesis using 2 by (simp add: paced_allowed_def)
  qed (simp add: paced_allowed_def)
qed

text \<open>A place below \<open>D\<close>: its temporary place is another one below \<open>D\<close>.\<close>

lemma temp_place:
  assumes "p = Clean q" and "strict_prefix D (clean_elems p)" and "plain_suffix sfx"
  shows "strict_prefix D (clean_elems (p @ sfx))" and "tmp_key sfx (clean_elems (p @ sfx))" and "clean_elems (p @ sfx) \<noteq> clean_elems p"
proof -
  have "sfx \<noteq> []" using assms(3) by (auto simp: plain_suffix_def)
  obtain es e where k: "clean_elems p = es @ [e]" using assms(2) by (cases "clean_elems p" rule: rev_cases) auto
  then have w: "clean_elems (p @ sfx) = es @ [e @ sfx]"
    using clean_elems_suffix [OF assms(3), of q] assms(1) by (simp add: with_suffix_def)
  then show "tmp_key sfx (clean_elems (p @ sfx))" by (auto simp: tmp_key_def)
  have "prefix D es" using assms(2) k by (auto simp: strict_prefix_def)
  then show "strict_prefix D (clean_elems (p @ sfx))" unfolding w by (auto simp: strict_prefix_def prefix_def)
  show "clean_elems (p @ sfx) \<noteq> clean_elems p" using w k \<open>sfx \<noteq> []\<close> by simp
qed

lemma paced_temp_changes:
  assumes "strict_prefix D (clean_elems p)" and "tmp_key sfx (clean_elems p)"
  shows "paced_changes sfx good D f (put_file p x f)" "paced_changes sfx good D f (remove_file p f)"
  using assms by (simp_all add: paced_changes_def paced_allowed_def put_file_def remove_file_def)

lemma paced_put_changes:
  assumes "strict_prefix D (clean_elems p)" and "good (clean_elems p) x" and "\<not> is_dir (node_at p f)"
  shows "paced_changes sfx good D f (put_file p x f)"
  using assms by (simp add: paced_changes_def paced_allowed_def put_file_def node_at_def is_dir_def)

lemma paced_download:
  assumes "download_file md5 sfx stamp rejected u p want t s = (res, s')" and p: "p = Clean q" "strict_prefix D (clean_elems p)"
    and sfx: "plain_suffix sfx"
    and good: "\<And>r. ptDo t True u = Inr r \<Longrightarrow> rpStatus r = 200 \<Longrightarrow> rpBodyErr r = None \<Longrightarrow> ptWrite t = None \<Longrightarrow> ptClose t = None
      \<Longrightarrow> md5_fits md5 want (rpBody r) \<Longrightarrow> good (clean_elems p) (rpBody r)"
  shows "paced_changes sfx good D (psFs s) (psFs s')"
proof -
  note tp = temp_place [OF p sfx]
  have mk: "paced_changes sfx good D f f1" if "MkdirAll fault (DirPath p) f = (x, f1)" for fault f x f1
    by (rule paced_MkdirAll [OF that, where place = "clean_elems p"])
      (use DirPath_prefix [of q] p(1,2) in \<open>auto simp: strict_prefix_def\<close>)
  from assms(1) show ?thesis
  proof (cases rule: download_file_cases)
    case (answered f1 r f2)
    note got = get_reply_ok [OF answered(2)]
    have "paced_changes sfx good D f1 f2" using answered(4)
    proof (cases rule: store_reply_cases)
      case failed
      then show ?thesis using confined.same paced_temp_changes [OF tp(1,2)] by auto
    next
      case stored
      have "good (clean_elems p) (rpBody r)" by (rule good) (use got stored in auto)
      moreover have "\<not> is_dir (node_at p (remove_file (p @ sfx) (put_file (p @ sfx) (rpBody r) f1)))"
        using stored(4) tp(3) by (simp add: is_dir_def node_at_def put_file_def remove_file_def)
      ultimately have "paced_changes sfx good D (remove_file (p @ sfx) (put_file (p @ sfx) (rpBody r) f1)) f2"
        unfolding stored(2) by (intro paced_put_changes p(2))
      then show ?thesis by (rule confined.trans [OF paced_temp_changes(1) [OF tp(1,2)] confined.trans [OF paced_temp_changes(2) [OF tp(1,2)]]])
    qed
    then show ?thesis using confined.trans [OF mk [OF answered(1)]] answered(5) by (simp add: on_fs_def)
  qed (simp_all add: on_fs_def mk)
qed

end
