(* ===== verification/ArchiveProps.thy ===== *)
theory ArchiveProps
  imports Archive PacerProps
begin

text \<open>
  What a run of the Internet Archive backend guarantees: an item is marked as done only when every file of its list
  is there, nothing is written outside the item's directory, and requests are retried a bounded number of times.
\<close>

subsection \<open>Places\<close>

lemma safeRelPath_elems:
  assumes "safeRelPath name = Inr rel"
  shows "rel = Clean name" and "rel \<noteq> []" and "\<not> rooted rel" and "clean_elems rel \<noteq> []" and "list_all plain_elem (clean_elems rel)"
proof -
  have c: "rel = Clean name" "Clean name \<noteq> ''.''" "\<not> rooted rel" "Clean name \<noteq> ''..''" "\<not> HasPrefix (Clean name) ''../''"
    using assms by (auto simp: safeRelPath_def Let_def split: if_splits)
  show "rel = Clean name" "rel \<noteq> []" "\<not> rooted rel" using c(1,3) by simp_all
  have "clean_elems name \<noteq> []"
  proof
    assume "clean_elems name = []"
    then have "Clean name = ''.'' \<or> rooted (Clean name)" by (simp add: Clean_def [of name] unclean_def rooted_def HasPrefix_def slash_def)
    then show False using c(1-3) by simp
  qed
  then show "clean_elems rel \<noteq> []" using c(1) by simp
  have "list_all plain_elem (clean_elems name)" by (rule Clean_no_climb) (use c in simp_all)
  then show "list_all plain_elem (clean_elems rel)" using c(1) by simp
qed

definition file_path :: "path \<Rightarrow> meta_file \<Rightarrow> path" where
  "file_path itemDir f = JoinPath [itemDir, Clean (mfName f)]"

definition file_places :: "path \<Rightarrow> meta_file \<Rightarrow> key set" where
  "file_places itemDir f = two_places (file_path itemDir f) archive_tmpSuffix"

lemma safe_place:
  assumes "safeRelPath name = Inr rel" and "d \<noteq> []"
  shows "JoinPath [d, rel] = Clean (d @ slash # rel)" and "clean_elems (JoinPath [d, rel]) = clean_elems d @ clean_elems rel"
    and "strict_prefix (clean_elems d) (clean_elems (JoinPath [d, rel]))"
proof -
  note e = safeRelPath_elems [OF assms(1)]
  show "JoinPath [d, rel] = Clean (d @ slash # rel)" by (rule JoinPath_two [OF assms(2) e(2)])
  show *: "clean_elems (JoinPath [d, rel]) = clean_elems d @ clean_elems rel" by (rule under_JoinPath_plain(2) [OF assms(2) e(3,2,5)])
  show "strict_prefix (clean_elems d) (clean_elems (JoinPath [d, rel]))" unfolding * using e(4) by (simp add: strict_prefix_def)
qed

subsection \<open>One file\<close>

lemma item_file_cases:
  assumes "item_file w env retries ident itemDir f s = (r, s')"
  obtains (idle) "s' = s\<lparr>psTick := Suc (psTick s)\<rparr>" "r = None \<Longrightarrow> mfName f = []"
  | (kept) rel where "safeRelPath (mfName f) = Inr rel" "0 < fst (Atoi (mfSize f))" "r = None" "s' = s\<lparr>psTick := Suc (psTick s)\<rparr>"
      "archive_alreadyHave (awDirSize w) (JoinPath [itemDir, rel]) (fst (Atoi (mfSize f))) (psFs s)"
  | (tried) rel res where "safeRelPath (mfName f) = Inr rel" "r = None \<Longrightarrow> res = Inr ()"
      "with_retries env retries (download_file (awMd5 w) archive_tmpSuffix False (\<lambda>_. None) (archive_downloadURL ident (mfName f))
         (JoinPath [itemDir, rel]) (want_md5 ident f)) (s\<lparr>psTick := Suc (psTick s)\<rparr>) = (res, s')"
proof (cases "ptLook (env (psTick s)) \<noteq> None \<or> mfName f = [] \<or> (\<exists>e. safeRelPath (mfName f) = Inl e)")
  case True
  have "s' = s\<lparr>psTick := Suc (psTick s)\<rparr> \<and> (r = None \<longrightarrow> mfName f = [])" using assms True unfolding item_file_def by (auto simp: Let_def split: if_splits)
  then show thesis using idle by blast
next
  case False
  then obtain rel where rel: "safeRelPath (mfName f) = Inr rel" by (cases "safeRelPath (mfName f)") auto
  show thesis
  proof (cases "0 < fst (Atoi (mfSize f)) \<and> archive_alreadyHave (awDirSize w) (JoinPath [itemDir, rel]) (fst (Atoi (mfSize f))) (psFs s)")
    case True
    then show thesis using assms False rel kept unfolding item_file_def by (simp add: Let_def)
  next
    case miss: False
    obtain res s1 where t: "with_retries env retries (download_file (awMd5 w) archive_tmpSuffix False (\<lambda>_. None)
        (archive_downloadURL ident (mfName f)) (JoinPath [itemDir, rel]) (want_md5 ident f)) (s\<lparr>psTick := Suc (psTick s)\<rparr>) = (res, s1)" by fastforce
    show thesis
      by (rule tried [OF rel, where res = res]) (use assms False rel miss t in \<open>auto simp: item_file_def Let_def split: sum.splits if_splits\<close>)
  qed
qed

text \<open>A file of the list is there: as long as its size says, or fetched and as its checksum says.\<close>

definition archive_has :: "archive_world \<Rightarrow> pturns \<Rightarrow> string \<Rightarrow> path \<Rightarrow> meta_file \<Rightarrow> fs \<Rightarrow> bool" where
  "archive_has w env ident itemDir f g \<longleftrightarrow>
    (let p = file_path itemDir f; n = fst (Atoi (mfSize f)) in
     (0 < n \<and> archive_alreadyHave (awDirSize w) p n g)
     \<or> (\<exists>x. node_at p g = Some (File x) \<and> fetched env (archive_downloadURL ident (mfName f)) x \<and> md5_fits (awMd5 w) (want_md5 ident f) x))"

lemma item_file_has:
  assumes "item_file w env retries ident itemDir f s = (None, s')" and "mfName f \<noteq> []"
  shows "archive_has w env ident itemDir f (psFs s')"
  using assms(1)
proof (cases rule: item_file_cases)
  case (kept rel)
  then show ?thesis using safeRelPath_elems(1) [OF kept(1)] by (simp add: archive_has_def file_path_def Let_def)
next
  case (tried rel res)
  then show ?thesis using safeRelPath_elems(1) [OF tried(1)] download_done [OF tried(3) [unfolded tried(2) [OF refl]]]
    by (simp add: archive_has_def file_path_def Let_def)
qed (use assms(2) in simp)

lemma archive_has_stays:
  assumes "archive_has w env ident itemDir f g" and "stays K g g'" and "clean_elems (file_path itemDir f) \<notin> K"
  shows "archive_has w env ident itemDir f g'"
proof -
  have "node_at (file_path itemDir f) g \<noteq> None" using assms(1)
    by (auto simp: archive_has_def archive_alreadyHave_def Let_def split: option.splits)
  then have "node_at (file_path itemDir f) g' = node_at (file_path itemDir f) g"
    using assms(2,3) by (simp add: stays_def node_at_def)
  then show ?thesis using assms(1) by (simp add: archive_has_def archive_alreadyHave_def Let_def)
qed

lemma item_file_stays:
  assumes "item_file w env retries ident itemDir f s = (r, s')"
  shows "stays (file_places itemDir f) (psFs s) (psFs s')"
  using assms
proof (cases rule: item_file_cases)
  case (tried rel res)
  have p: "JoinPath [itemDir, rel] = file_path itemDir f" using safeRelPath_elems(1) [OF tried(1)] by (simp add: file_path_def)
  have "stays (file_places itemDir f) (psFs (s\<lparr>psTick := Suc (psTick s)\<rparr>)) (psFs s')" unfolding file_places_def
    by (rule untouched.with_retries_keeps [OF tried(3) [unfolded p]]) (rule download_stays)
  then show ?thesis by simp
qed (simp_all add: untouched.same)

subsection \<open>All files\<close>

definition apart :: "path \<Rightarrow> meta_file list \<Rightarrow> bool" where
  "apart itemDir fs \<longleftrightarrow> (\<forall>f \<in> set fs. mfName f \<noteq> [] \<longrightarrow> clean_elems (file_path itemDir f) \<noteq> clean_elems (JoinPath [itemDir, archive_doneFileName])
     \<and> (\<forall>g \<in> set fs. g \<noteq> f \<longrightarrow> mfName g \<noteq> [] \<longrightarrow> clean_elems (file_path itemDir f) \<notin> file_places itemDir g))"

lemma stays_mono: "stays K f g \<Longrightarrow> K \<subseteq> L \<Longrightarrow> stays L f g"
  unfolding stays_def by blast

lemma item_files_stays:
  "item_files w env retries ident itemDir fs s = (r, s')
   \<Longrightarrow> stays (\<Union>f \<in> {f \<in> set fs. mfName f \<noteq> []}. file_places itemDir f) (psFs s) (psFs s')"
proof (induction fs arbitrary: s)
  case (Cons f fs)
  obtain x s1 where 1: "item_file w env retries ident itemDir f s = (x, s1)" by fastforce
  let ?U = "\<lambda>fs. \<Union>f \<in> {f \<in> set fs. mfName f \<noteq> []}. file_places itemDir f"
  have a: "stays (?U (f # fs)) (psFs s) (psFs s1)"
  proof (cases "mfName f = []")
    case True
    then have "psFs s1 = psFs s" using 1 by (auto simp: item_file_def Let_def split: if_splits)
    then show ?thesis by (simp add: untouched.same)
  next
    case False
    show ?thesis by (rule stays_mono [OF item_file_stays [OF 1]]) (use False in auto)
  qed
  show ?case
  proof (cases x)
    case None
    then have "stays (?U fs) (psFs s1) (psFs s')" using Cons 1 by simp
    then have "stays (?U (f # fs)) (psFs s1) (psFs s')" by (rule stays_mono) auto
    then show ?thesis by (rule untouched.trans [OF a])
  next
    case (Some e)
    then show ?thesis using Cons.prems 1 a by simp
  qed
qed (simp add: untouched.same)

lemma item_files_has:
  "item_files w env retries ident itemDir fs s = (None, s') \<Longrightarrow> apart itemDir fs \<Longrightarrow> f \<in> set fs \<Longrightarrow> mfName f \<noteq> []
   \<Longrightarrow> archive_has w env ident itemDir f (psFs s')"
proof (induction fs arbitrary: s)
  case (Cons g fs)
  obtain x s1 where 1: "item_file w env retries ident itemDir g s = (x, s1)" by fastforce
  have x: "x = None" and rest: "item_files w env retries ident itemDir fs s1 = (None, s')"
    using Cons.prems(1) 1 by (auto split: option.splits)
  have ap: "apart itemDir fs" using Cons.prems(2) unfolding apart_def by simp
  show ?case
  proof (cases "f \<in> set fs")
    case True
    show ?thesis by (rule Cons.IH [OF rest ap True Cons.prems(4)])
  next
    case False
    then have "g = f" using Cons.prems(3) by simp
    then have h: "archive_has w env ident itemDir f (psFs s1)" using item_file_has 1 x Cons.prems(4) by blast
    have "clean_elems (file_path itemDir f) \<notin> (\<Union>h \<in> {h \<in> set fs. mfName h \<noteq> []}. file_places itemDir h)"
      using Cons.prems(2-4) False unfolding apart_def by auto
    then show ?thesis by (rule archive_has_stays [OF h item_files_stays [OF rest]])
  qed
qed simp

subsection \<open>The item\<close>

lemma archive_finish_cases:
  assumes "archive_finish w ident itemDir s = (r, s')"
  obtains (failed) "r \<noteq> None" "s' = s"
  | (marked) "r = None" "\<not> is_dir (node_at (JoinPath [itemDir, archive_doneFileName]) (psFs s))"
      "s' = on_fs (put_file (JoinPath [itemDir, archive_doneFileName]) ''DONE'' (psFs s)) s"
proof -
  define q where "q = JoinPath [itemDir, archive_doneFileName]"
  have "(r \<noteq> None \<and> s' = s) \<or> (r = None \<and> \<not> is_dir (node_at q (psFs s)) \<and> s' = on_fs (put_file q ''DONE'' (psFs s)) s)"
    using assms unfolding archive_finish_def Let_def q_def [symmetric]
    by (cases "applyMTimes w itemDir (JoinPath [itemDir, ident @ ''_files.xml'']) (psFs s)";
        cases "is_dir (node_at q (psFs s))"; cases "awDone w"; simp; blast)
  then show thesis using failed marked unfolding q_def by blast
qed

lemma archive_Mirror_cases:
  assumes "archive_Mirror w env force retries source destDir s = (r, s')"
  obtains (refused) e where "ParseIdentifier source = Inl e" "r = Some e" "s' = s"
  | (skipped) ident where "ParseIdentifier source = Inr ident" "\<not> force" "r = None" "s' = s"
      "node_at (JoinPath [JoinPath [destDir, ident], archive_doneFileName]) (psFs s) \<noteq> None"
  | (unmade) ident e f where "ParseIdentifier source = Inr ident" "r \<noteq> None" "s' = on_fs f s"
      "MkdirAll (ptMkdir (env (psTick s))) (JoinPath [destDir, ident]) (psFs s) = (Some e, f)"
  | (unlisted) ident f x where "ParseIdentifier source = Inr ident" "r \<noteq> None"
      "MkdirAll (ptMkdir (env (psTick s))) (JoinPath [destDir, ident]) (psFs s) = (None, f)"
      "with_retries env retries (fetchMetadata ident) (on_fs f s\<lparr>psLast := False\<rparr>) = (x, s')"
  | (broken) ident f md s1 where "ParseIdentifier source = Inr ident" "r \<noteq> None"
      "MkdirAll (ptMkdir (env (psTick s))) (JoinPath [destDir, ident]) (psFs s) = (None, f)"
      "with_retries env retries (fetchMetadata ident) (on_fs f s\<lparr>psLast := False\<rparr>) = (Inr md, s1)"
      "item_files w env retries ident (JoinPath [destDir, ident]) (mdFiles md) s1 = (r, s')"
  | (finished) ident f md s1 s2 where "ParseIdentifier source = Inr ident"
      "MkdirAll (ptMkdir (env (psTick s))) (JoinPath [destDir, ident]) (psFs s) = (None, f)"
      "with_retries env retries (fetchMetadata ident) (on_fs f s\<lparr>psLast := False\<rparr>) = (Inr md, s1)" "\<not> mdIsDark md" "mdFiles md \<noteq> []"
      "item_files w env retries ident (JoinPath [destDir, ident]) (mdFiles md) s1 = (None, s2)"
      "archive_finish w ident (JoinPath [destDir, ident]) s2 = (r, s')"
proof (cases "ParseIdentifier source")
  case (Inl e)
  then show thesis using assms refused unfolding archive_Mirror_def by simp
next
  case (Inr ident)
  let ?dir = "JoinPath [destDir, ident]"
  show thesis
  proof (cases "\<not> force \<and> node_at (JoinPath [?dir, archive_doneFileName]) (psFs s) \<noteq> None")
    case True
    then show thesis using assms Inr skipped unfolding archive_Mirror_def by (simp add: Let_def)
  next
    case go: False
    obtain e f where m: "MkdirAll (ptMkdir (env (psTick s))) ?dir (psFs s) = (e, f)" by fastforce
    obtain x s1 where x: "with_retries env retries (fetchMetadata ident) (on_fs f s\<lparr>psLast := False\<rparr>) = (x, s1)" by fastforce
    note step = assms [unfolded archive_Mirror_def Let_def, simplified Inr sum.case go if_False m prod.case]
    show thesis
    proof (cases e)
      case (Some err)
      then show thesis using step m unmade [OF Inr] by (auto simp: Let_def)
    next
      case None
      note m' = m [unfolded None]
      show thesis
      proof (cases x)
        case (Inl err)
        then show thesis using step None x unlisted [OF Inr _ m'] by auto
      next
        case md: (Inr md)
        show thesis
        proof (cases "mdIsDark md \<or> mdFiles md = []")
          case True
          then have "r \<noteq> None \<and> s1 = s'" using step None x md by (auto split: if_splits)
          then show thesis using unlisted [OF Inr _ m'] x by blast
        next
          case False
          obtain y s2 where y: "item_files w env retries ident ?dir (mdFiles md) s1 = (y, s2)" by fastforce
          show thesis
            using step None x md y False broken [OF Inr _ m' x [unfolded md]] finished [OF Inr m' x [unfolded md]]
            by (cases y) auto
        qed
      qed
    qed
  qed
qed

lemma fetchMetadata_ok:
  "fetchMetadata ident t s = (Inr md, s') \<Longrightarrow>
     s' = s \<and> (\<exists>r. ptDo t True (metadataURL ident) = Inr r \<and> rpStatus r = 200 \<and> decode_metadata (rpBody r) = Some md)"
  using get_reply_ok by (fastforce simp: fetchMetadata_def archive_get_def split: sum.splits option.splits)

definition listing_sent :: "pturns \<Rightarrow> string \<Rightarrow> metadata \<Rightarrow> bool" where
  "listing_sent env ident md \<longleftrightarrow>
    (\<exists>n r. ptDo (env n) True (metadataURL ident) = Inr r \<and> rpStatus r = 200 \<and> decode_metadata (rpBody r) = Some md)"

lemma metadata_sent:
  "with_retries env n (fetchMetadata ident) s = (Inr md, s') \<Longrightarrow> listing_sent env ident md"
  using pacer_do_ok fetchMetadata_ok unfolding with_retries_def listing_sent_def by metis



subsection \<open>What is written\<close>

lemma ParseIdentifier_elem:
  assumes "ParseIdentifier source = Inr ident"
  shows "ident \<noteq> [] \<and> slash \<notin> set ident"
proof -
  have f: "g \<noteq> [] \<and> slash \<notin> set g" if "first_elem s = Some g" for s g
    using that by (auto simp: first_elem_def Let_def slash_def dest: set_takeWhileD split: if_splits)
  have "identifierRe source = Some ident" using assms
    by (auto simp: ParseIdentifier_def split: option.splits if_splits)
  then show ?thesis using f by (auto simp: identifierRe_def split: option.splits)
qed

lemma item_dir_elems:
  assumes "destDir \<noteq> []" and "plain_elem ident"
  shows "clean_elems (JoinPath [destDir, ident]) = clean_elems destDir @ [ident]"
proof -
  have "ident \<noteq> []" using assms(2) by (simp add: plain_elem_def)
  then have "JoinPath [destDir, ident] = Clean (destDir @ slash # ident)" using assms(1) by (simp add: JoinPath_two)
  then show ?thesis using clean_elems_append_plain [of destDir "[ident]"] assms by simp
qed

text \<open>A file of the item, fetched for its name; or the marker.\<close>

definition archive_content :: "pturns \<Rightarrow> string \<Rightarrow> key \<Rightarrow> key \<Rightarrow> string \<Rightarrow> bool" where
  "archive_content env ident D k x \<longleftrightarrow> (k = D @ [archive_doneFileName] \<and> x = ''DONE'')
     \<or> (\<exists>name rel. safeRelPath name = Inr rel \<and> k = D @ clean_elems rel \<and> fetched env (archive_downloadURL ident name) x)"

lemma archive_suffix: "plain_suffix archive_tmpSuffix"
  by (simp add: plain_suffix_def archive_tmpSuffix_def slash_def)

abbreviation item_changes :: "pturns \<Rightarrow> string \<Rightarrow> key \<Rightarrow> fs \<Rightarrow> fs \<Rightarrow> bool" where
  "item_changes env ident D \<equiv> paced_changes archive_tmpSuffix (archive_content env ident D) D"

lemma item_file_changes:
  assumes "item_file w env retries ident itemDir f s = (r, s')" and dir: "itemDir \<noteq> []"
  shows "item_changes env ident (clean_elems itemDir) (psFs s) (psFs s')"
  using assms(1)
proof (cases rule: item_file_cases)
  case (tried rel res)
  note pl = safe_place [OF tried(1) dir]
  have "item_changes env ident (clean_elems itemDir) (psFs (s\<lparr>psTick := Suc (psTick s)\<rparr>)) (psFs s')"
  proof (rule confined.with_retries_keeps_env [OF tried(3)])
    fix k s0 r0 s1
    assume d: "download_file (awMd5 w) archive_tmpSuffix False (\<lambda>_. None) (archive_downloadURL ident (mfName f)) (JoinPath [itemDir, rel])
      (want_md5 ident f) (env k) s0 = (r0, s1)"
    show "item_changes env ident (clean_elems itemDir) (psFs s0) (psFs s1)"
    proof (rule paced_download [OF d pl(1,3) archive_suffix])
      fix r
      assume "ptDo (env k) True (archive_downloadURL ident (mfName f)) = Inr r" "rpStatus r = 200" "rpBodyErr r = None"
        "ptWrite (env k) = None" "ptClose (env k) = None"
      then have "fetched env (archive_downloadURL ident (mfName f)) (rpBody r)" unfolding fetched_def by blast
      then show "archive_content env ident (clean_elems itemDir) (clean_elems (JoinPath [itemDir, rel])) (rpBody r)"
        using tried(1) pl(2) unfolding archive_content_def by blast
    qed
  qed
  then show ?thesis by simp
qed (simp_all add: confined.same)

lemma item_files_changes:
  "item_files w env retries ident itemDir fs s = (r, s') \<Longrightarrow> itemDir \<noteq> [] \<Longrightarrow> item_changes env ident (clean_elems itemDir) (psFs s) (psFs s')"
proof (induction fs arbitrary: s)
  case (Cons f fs)
  obtain x s1 where 1: "item_file w env retries ident itemDir f s = (x, s1)" by fastforce
  note c = item_file_changes [OF 1 Cons.prems(2)]
  show ?case
  proof (cases x)
    case None
    then show ?thesis using Cons 1 confined.trans [OF c] by simp
  next
    case (Some e)
    then show ?thesis using Cons.prems 1 c by simp
  qed
qed (simp add: confined.same)

lemma metadata_changes:
  "with_retries env n (fetchMetadata ident) s = (x, s') \<Longrightarrow> item_changes env ident D (psFs s) (psFs s')"
  by (erule confined.with_retries_keeps)
    (auto simp: fetchMetadata_def confined.same split: sum.splits option.splits)

lemma archive_finish_changes:
  assumes "archive_finish w ident itemDir s = (r, s')" and "itemDir \<noteq> []"
  shows "item_changes env ident (clean_elems itemDir) (psFs s) (psFs s')"
  using assms(1)
proof (cases rule: archive_finish_cases)
  case marked
  have "plain_elem archive_doneFileName" by (simp add: plain_elem_def archive_doneFileName_def slash_def)
  then have "clean_elems (JoinPath [itemDir, archive_doneFileName]) = clean_elems itemDir @ [archive_doneFileName]"
    by (rule item_dir_elems [OF assms(2)])
  then show ?thesis using marked(2) unfolding marked(3) on_fs_def
    by (simp add: paced_put_changes archive_content_def strict_prefix_def)
qed (simp add: confined.same)



subsection \<open>Requests and delays\<close>

lemma item_file_paced:
  assumes "item_file w env retries ident itemDir f s = (r, s')"
  shows "paced 1 (nat retries) s s'"
  using assms
proof (cases rule: item_file_cases)
  case (tried rel res)
  show ?thesis using with_retries_paced [OF tried(3) download_plain] by (simp add: paced_def)
qed simp_all

lemma item_files_paced:
  "item_files w env retries ident itemDir fs s = (r, s') \<Longrightarrow> paced (length fs) (nat retries) s s'"
proof (induction fs arbitrary: s)
  case (Cons f fs)
  obtain x s1 where 1: "item_file w env retries ident itemDir f s = (x, s1)" by fastforce
  note c = item_file_paced [OF 1]
  show ?case
  proof (cases x)
    case None
    then show ?thesis using Cons 1 paced_trans [OF c] by simp
  next
    case (Some e)
    then show ?thesis using Cons.prems 1 paced_mono [OF c] by simp
  qed
qed simp

lemma metadata_plain: "plain_request (fetchMetadata ident)"
  by (auto simp: plain_request_def fetchMetadata_def split: sum.splits option.splits)


end
