(* ===== verification/PacerSite.thy ===== *)
theory PacerSite
  imports Pacer
begin

text \<open>Small servers for runs of the two programs, and the delays that overflow.\<close>

definition paced_page :: "string \<Rightarrow> paced_reply" where
  "paced_page x = \<lparr>rpStatus = 200, rpRetryAfter = [], rpRetryDate = None, rpType = [], rpPath = [], rpBody = x, rpBodyErr = None\<rparr>"

definition paced_failure :: "nat \<Rightarrow> paced_reply" where
  "paced_failure code = (paced_page [])\<lparr>rpStatus := code\<rparr>"

text \<open>A server that has these pages, and nothing else.\<close>

definition paced_calm :: "(string \<times> string) list \<Rightarrow> pturn" where
  "paced_calm pages = \<lparr>ptWait = None, ptPause = None, ptCtx = None, ptLook = None,
     ptDo = (\<lambda>_ u. case map_of pages u of Some x \<Rightarrow> Inr (paced_page x) | None \<Rightarrow> Inr (paced_failure 404)),
     ptMkdir = None, ptCreate = None, ptWrite = None, ptClose = None, ptTimes = None, ptRename = None\<rparr>"

definition paced_start :: "fs \<Rightarrow> pstate" where
  "paced_start f = \<lparr>psFs = f, psTick = 0, psLast = False, psDelays = [], psRequests = 0\<rparr>"

text \<open>JSON, written with another quote.\<close>

definition backquoted :: "string \<Rightarrow> string" where
  "backquoted t = map (\<lambda>c. if c = CHR 0x60 then CHR 0x22 else c) t"

text \<open>The delay before a retry doubles from two seconds up to ten minutes for as long as 33 retries; then the shift overflows,
  and the delay is negative and finally nothing: a larger number of retries ends in requests without a pause.\<close>

theorem retry_delay_overflow:
  "map (\<lambda>n. retry_delay n 0) [0..<10] = map (\<lambda>k. k * one_second) [2, 4, 8, 16, 32, 64, 128, 256, 512, 600]
   \<and> list_all (\<lambda>n. retry_delay n 0 = maxRetryDelay) [10..<33] \<and> retry_delay 33 0 <s 0 \<and> retry_delay 54 0 = 0"
  by code_simp

end
