(* ===== verification/ArchiveSite.thy ===== *)
theory ArchiveSite
  imports ArchiveProps PacerSite
begin

text \<open>
  Small items of the Internet Archive: one on which the theorems about runs are put to use, and those on which a run
  goes wrong.
\<close>

definition demo_archive :: archive_world where
  "demo_archive = \<lparr>awMd5 = (\<lambda>x. ''m'' @ x), awXml = (\<lambda>_. Inr []), awBadTime = (\<lambda>_. None), awChtimes = (\<lambda>_. None),
     awDirSize = 4096, awDone = None\<rparr>"

subsection \<open>An item\<close>

definition tale_pages :: "(string \<times> string) list" where
  "tale_pages = [(''https://archive.org/metadata/tale'',
       backquoted ''{`files`:[{`name`:`a`,`size`:`3`,`md5`:`MABC`},{`name`:`b/c`,`md5`:`mhello`},{`name`:`tale_files.xml`,`md5`:`0`}]}''),
     (''https://archive.org/download/tale/a'', ''abc''), (''https://archive.org/download/tale/b/c'', ''hello''),
     (''https://archive.org/download/tale/tale_files.xml'', ''xml'')]"

text \<open>The first download fails.\<close>

definition tale_env :: pturns where
  "tale_env n = (if n = 2 then (paced_calm tale_pages)\<lparr>ptDo := (\<lambda>_ _. Inr (paced_failure 503))\<rparr> else paced_calm tale_pages)"

abbreviation tale_run :: "string option \<times> pstate" where
  "tale_run \<equiv> archive_Mirror demo_archive tale_env False 5 ''https://archive.org/details/tale'' ''/d'' (paced_start Map.empty)"

lemma tale_run_ends: "case tale_run of (e, s) \<Rightarrow> e = None \<and> psRequests s = 5 \<and> psDelays s = [2 * one_second]
    \<and> map (psFs s) [[''d'', ''tale'', ''a''], [''d'', ''tale'', ''b'', ''c''], [''d'', ''tale'', ''tale_files.xml''], [''d'', ''tale'', ''.done'']]
      = [Some (File ''abc''), Some (File ''hello''), Some (File ''xml''), Some (File ''DONE'')]"
  by code_simp

lemma tale_run_some:
  obtains s where "tale_run = (None, s)"
  using tale_run_ends that by (simp split: prod.splits)

lemma tale_identifier: "ParseIdentifier ''https://archive.org/details/tale'' = Inr ''tale''"
  by code_simp




subsection \<open>Where it goes wrong\<close>

definition parent_pages :: "(string \<times> string) list" where
  "parent_pages = [(''https://archive.org/metadata/..'', backquoted ''{`files`:[{`name`:`a`}]}''), (''https://archive.org/download/../a'', ''evil'')]"

text \<open>The identifier in the source may be that of the parent directory: then the files of the answer, and the marker, go to the
  parent of the destination.\<close>

theorem archive_parent:
  "case archive_Mirror demo_archive (\<lambda>_. paced_calm parent_pages) False 5 ''https://archive.org/details/..'' ''/d/m''
      (paced_start [[''d''] \<mapsto> Dir, [''d'', ''m''] \<mapsto> Dir, [''d'', ''a''] \<mapsto> File ''mine'']) of
     (e, s) \<Rightarrow> e = None \<and> psFs s [''d'', ''a''] = Some (File ''evil'') \<and> psFs s [''d'', ''.done''] = Some (File ''DONE'')"
  by code_simp

definition marker_pages :: "(string \<times> string) list" where
  "marker_pages = [(''https://archive.org/metadata/it'', backquoted ''{`files`:[{`name`:`.done`},{`name`:`b`}]}''), (''https://archive.org/download/it/.done'', ''x'')]"

text \<open>A file of the item that has the name of the marker makes it: a run that then fails on the next file reports the
  failure, but the next run takes the item to be complete.\<close>

theorem archive_marker_listed:
  "case archive_Mirror demo_archive (\<lambda>_. paced_calm marker_pages) False 5 ''https://archive.org/details/it'' ''/d'' (paced_start Map.empty) of
     (e, s) \<Rightarrow> e \<noteq> None \<and> psFs s [''d'', ''it'', ''b''] = None
       \<and> (case archive_Mirror demo_archive (\<lambda>_. paced_calm marker_pages) False 5 ''https://archive.org/details/it'' ''/d'' s of
            (e2, s2) \<Rightarrow> e2 = None \<and> psRequests s2 = psRequests s \<and> psFs s2 [''d'', ''it'', ''b''] = None)"
  by code_simp

definition shadow_pages :: "(string \<times> string) list" where
  "shadow_pages = [(''https://archive.org/metadata/it'', backquoted ''{`files`:[{`name`:`a.archiveorg-tmp`},{`name`:`a`}]}''),
     (''https://archive.org/download/it/a.archiveorg-tmp'', ''x''), (''https://archive.org/download/it/a'', ''y'')]"

text \<open>A file that has the name of another one's temporary file is lost, and the item counts as complete.\<close>

theorem archive_shadowed:
  "case archive_Mirror demo_archive (\<lambda>_. paced_calm shadow_pages) False 5 ''https://archive.org/details/it'' ''/d'' (paced_start Map.empty) of
     (e, s) \<Rightarrow> e = None \<and> psFs s [''d'', ''it'', ''a.archiveorg-tmp''] = None \<and> psFs s [''d'', ''it'', ''.done''] = Some (File ''DONE'')"
  by code_simp

end
