(* ===== verification/SourceForge.thy ===== *)
theory SourceForge
  imports Pacer GoHttp
begin

text \<open>
  \<open>sourceforge/sourceforge.go\<close>: the mirror of the files area of a SourceForge project. The order of entries of
  the same name is that of a Go map, and arbitrary; which errors of a request are deadlines that were exceeded is
  a parameter. The walk through the folders is bounded by a depth: \<open>None\<close> is a walk that goes deeper.
\<close>

subsection \<open>Sources\<close>

definition is_project_char :: "char \<Rightarrow> bool" where
  "is_project_char c \<longleftrightarrow> is_alnum c \<or> c \<in> set ''._-''"

text \<open>\<open>([A-Za-z0-9][A-Za-z0-9._-]*)(?:/(.*))?$\<close>: the two groups.\<close>

definition project_groups :: "string \<Rightarrow> (string \<times> string) option" where
  "project_groups s =
    (let g = takeWhile is_project_char s; r = dropWhile is_project_char s in
     if g = [] \<or> \<not> is_alnum (hd g) then None
     else (case r of [] \<Rightarrow> Some (g, [])
       | c # q \<Rightarrow> if c = CHR ''/'' \<and> CHR 0x0A \<notin> set q then Some (g, q) else None))"

definition projectRe :: "string \<Rightarrow> (string \<times> string) option" where
  "projectRe p =
    (if HasPrefix p ''/projects/'' then project_groups (TrimPrefix p ''/projects/'')
     else if HasPrefix p ''/p/'' then project_groups (TrimPrefix p ''/p/'') else None)"

definition downloadRe :: "string \<Rightarrow> (string \<times> string) option" where
  "downloadRe p = (if HasPrefix p ''/project/'' then project_groups (TrimPrefix p ''/project/'') else None)"

definition site_match :: "string \<Rightarrow> (string \<times> string) option" where
  "site_match p =
    (case projectRe p of
       None \<Rightarrow> None
     | Some (name, r) \<Rightarrow>
        if HasPrefix r ''files/'' \<and> HasPrefix p ''/projects/''
        then Some (name, TrimSuffix (TrimSuffix (TrimPrefix r ''files/'') ''/'') ''/download'')
        else Some (name, []))"

definition source_match :: "url \<Rightarrow> (string \<times> string) option" where
  "source_match u =
    (let host = ToLower (Hostname u) in
     if host \<in> {''sourceforge.net'', ''www.sourceforge.net'', ''sf.net'', ''www.sf.net''} then site_match (Path u)
     else if host \<in> {''downloads.sourceforge.net'', ''downloads.sf.net''} then downloadRe (Path u) else None)"

definition ParseSource :: "string \<Rightarrow> string + (string \<times> string)" where
  "ParseSource source =
    (case Parse source of
       Inl _ \<Rightarrow> Inl (''not a SourceForge URL: '' @ Quote source)
     | Inr u \<Rightarrow>
        if Scheme u \<noteq> ''http'' \<and> Scheme u \<noteq> ''https'' then Inl (''not a SourceForge URL: '' @ Quote source)
        else (case source_match u of
            None \<Rightarrow> Inl (''not a SourceForge project URL: '' @ Quote source)
          | Some (project, r) \<Rightarrow>
             (let filePath = Trim r ''/'' in
              if list_ex (\<lambda>e. e = ''.'' \<or> e = ''..'') (Split filePath (CHR ''/'')) then Inl (''unsafe path in '' @ Quote source)
              else Inr (project, filePath))))"

definition listURL :: "string \<Rightarrow> path \<Rightarrow> string" where
  "listURL project dir = ''https://sourceforge.net/projects/'' @ PathEscape project @ ''/files/'' @ (if dir \<noteq> [] then escapePath dir @ ''/'' else [])"

definition sf_downloadURL :: "string \<Rightarrow> path \<Rightarrow> string" where
  "sf_downloadURL project p = ''https://downloads.sourceforge.net/project/'' @ PathEscape project @ ''/'' @ escapePath p"

subsection \<open>Listings\<close>

record sf_entry =
  seName :: string
  seType :: string
  seLink :: string
  seMD5 :: string
  seDownloadable :: bool

definition decode_entry :: "json \<Rightarrow> sf_entry option" where
  "decode_entry v =
    (case (case v of JObj ms \<Rightarrow> Some ms | JNull \<Rightarrow> Some [] | _ \<Rightarrow> None) of
       None \<Rightarrow> None
     | Some ms \<Rightarrow>
        (let n = string_field ''name'' ms; t = string_field ''type'' ms; l = string_field ''link'' ms; h = string_field ''md5'' ms;
             d = foldl (\<lambda>(b, good) x. case x of JBool y \<Rightarrow> (y, good) | _ \<Rightarrow> (b, False)) (False, True) (field_members ''downloadable'' ms) in
         if snd n \<and> snd t \<and> snd l \<and> snd h \<and> snd d
         then Some \<lparr>seName = fst n, seType = fst t, seLink = fst l, seMD5 = fst h, seDownloadable = fst d\<rparr>
         else None))"

text \<open>Of several members of a name, a map keeps the last one.\<close>

definition decode_listing :: "string \<Rightarrow> sf_entry list option" where
  "decode_listing text =
    (case struct_members text of
       None \<Rightarrow> None
     | Some ms \<Rightarrow>
        if list_ex (\<lambda>(_, v). decode_entry v = None) ms then None
        else those (map (\<lambda>k. case map_of (rev ms) k of Some v \<Rightarrow> decode_entry v | None \<Rightarrow> None) (remdups (map fst ms))))"

definition filesMarker :: string where "filesMarker = ''net.sf.files = ''"

definition parseListing :: "(sf_entry list \<Rightarrow> sf_entry list) \<Rightarrow> string \<Rightarrow> req_error + sf_entry list" where
  "parseListing order page =
    (case Index page filesMarker of
       None \<Rightarrow> Inl (Plain ''no file listing in the page'')
     | Some i \<Rightarrow>
        (case decode_listing (drop (i + length filesMarker) page) of
           None \<Rightarrow> Inl (Plain ''decoding the file listing'')
         | Some es \<Rightarrow> Inr (sort_by (\<lambda>a b. str_le (seName a) (seName b)) (order es))))"

definition fetchListing :: "(sf_entry list \<Rightarrow> sf_entry list) \<Rightarrow> string \<Rightarrow> path \<Rightarrow> pturn \<Rightarrow> 'a pstate_scheme
    \<Rightarrow> (req_error + sf_entry list) \<times> 'a pstate_scheme" where
  "fetchListing order project dir t s =
    (case get_reply t False (listURL project dir) of
       Inl e \<Rightarrow> (Inl e, s)
     | Inr r \<Rightarrow> (case rpBodyErr r of Some e \<Rightarrow> (Inl (Retryable e 0), s) | None \<Rightarrow> (parseListing order (rpBody r), s)))"

subsection \<open>Files\<close>

definition sf_localPath :: "path \<Rightarrow> string + path" where
  "sf_localPath p = (if IsLocal (Clean p) then Inr (Clean p) else Inl (''unsafe file name '' @ Quote p))"

definition sf_alreadyHave :: "digest \<Rightarrow> path \<Rightarrow> string \<Rightarrow> fs \<Rightarrow> bool" where
  "sf_alreadyHave md5 p want f =
    (case node_at p f of Some (File x) \<Rightarrow> want = [] \<or> EqualFold (md5 x) want | _ \<Rightarrow> False)"

definition sf_tmpSuffix :: string where "sf_tmpSuffix = ''.sourceforge-tmp''"

text \<open>Without a checksum, a web page is not taken for a file.\<close>

definition web_page :: "string \<Rightarrow> paced_reply \<Rightarrow> string option" where
  "web_page want r =
    (if want = [] \<and> HasPrefix (rpType r) ''text/html'' \<and> \<not> HasSuffix (rpPath r) ''.html'' \<and> \<not> HasSuffix (rpPath r) ''.htm''
     then Some ''got a web page instead of the file'' else None)"

record sf_world =
  swMd5 :: digest
  swOrder :: "sf_entry list \<Rightarrow> sf_entry list"
  swDeadline :: "string \<Rightarrow> bool"       \<comment> \<open>\<open>errors.Is(err, context.DeadlineExceeded)\<close>, as the HTTP client's own timeouts are\<close>

record sf_mirror =
  smRetries :: int
  smProject :: string
  smDir :: path

record sf_state = pstate +
  sfDownloaded :: nat
  sfSkipped :: nat
  sfFailed :: "string list"

definition is_ctx_error :: "sf_world \<Rightarrow> req_error \<Rightarrow> bool" where
  "is_ctx_error w e = (case e of Cancelled _ \<Rightarrow> True | Retryable m _ \<Rightarrow> swDeadline w m | _ \<Rightarrow> False)"

definition sf_fail :: "sf_world \<Rightarrow> path \<Rightarrow> req_error \<Rightarrow> sf_state \<Rightarrow> sf_state" where
  "sf_fail w p e s = (if is_ctx_error w e then s else s\<lparr>sfFailed := sfFailed s @ [CHR ''/'' # p]\<rparr>)"

definition sf_list :: "sf_world \<Rightarrow> pturns \<Rightarrow> sf_mirror \<Rightarrow> path \<Rightarrow> sf_state \<Rightarrow> (req_error + sf_entry list) \<times> sf_state" where
  "sf_list w env m dir = with_retries env (smRetries m) (fetchListing (swOrder w) (smProject m) dir)"

definition sf_file :: "sf_world \<Rightarrow> pturns \<Rightarrow> sf_mirror \<Rightarrow> path \<Rightarrow> sf_entry \<Rightarrow> sf_state \<Rightarrow> sf_state" where
  "sf_file w env m dir e s =
    (let p = JoinPath [dir, seName e] in
     if seLink e \<noteq> [] \<or> \<not> seDownloadable e then s
     else (case sf_localPath p of
        Inl err \<Rightarrow> sf_fail w p (Plain err) s
      | Inr rel \<Rightarrow>
         (let finalPath = JoinPath [smDir m, rel] in
          if sf_alreadyHave (swMd5 w) finalPath (seMD5 e) (psFs s) then s\<lparr>sfSkipped := Suc (sfSkipped s)\<rparr>
          else (case with_retries env (smRetries m)
                (download_file (swMd5 w) sf_tmpSuffix True (web_page (seMD5 e)) (sf_downloadURL (smProject m) p) finalPath (seMD5 e)) s of
             (Inl err, s1) \<Rightarrow> sf_fail w p err s1
           | (Inr _, s1) \<Rightarrow> s1\<lparr>sfDownloaded := Suc (sfDownloaded s1)\<rparr>))))"

definition unsafe_name :: "string \<Rightarrow> bool" where
  "unsafe_name name \<longleftrightarrow> name = [] \<or> name = ''.'' \<or> name = ''..'' \<or> ContainsAny name [CHR ''/'', CHR 0x5C]"

fun sf_folder :: "sf_world \<Rightarrow> pturns \<Rightarrow> sf_mirror \<Rightarrow> nat \<Rightarrow> path \<Rightarrow> sf_entry list \<Rightarrow> sf_state \<Rightarrow> sf_state option" where
  "sf_folder w env m depth dir [] s = Some s"
| "sf_folder w env m depth dir (e # es) s =
    (let s0 = s\<lparr>psTick := Suc (psTick s)\<rparr>; p = JoinPath [dir, seName e] in
     if ptLook (env (psTick s)) \<noteq> None then Some s0
     else if unsafe_name (seName e)
       then sf_folder w env m depth dir es (sf_fail w p (Plain (''unsafe name '' @ Quote (seName e))) s0)
     else if seType e = ''d'' then
       (case sf_list w env m p s0 of
          (Inl err, s1) \<Rightarrow> sf_folder w env m depth dir es (sf_fail w (p @ ''/'') err s1)
        | (Inr sub, s1) \<Rightarrow>
           (case depth of
              0 \<Rightarrow> None
            | Suc n \<Rightarrow> (case sf_folder w env m n p sub s1 of None \<Rightarrow> None | Some s2 \<Rightarrow> sf_folder w env m depth dir es s2)))
     else if seType e = ''f'' then sf_folder w env m depth dir es (sf_file w env m dir e s0)
     else sf_folder w env m depth dir es s0)"

subsection \<open>Runs\<close>

text \<open>\<open>path.Split\<close>, the directory without its slash.\<close>

definition split_file :: "path \<Rightarrow> path \<times> string" where
  "split_file p = (case LastIndexByte p (CHR ''/'') of None \<Rightarrow> ([], p) | Some i \<Rightarrow> (TrimSuffix (take (Suc i) p) ''/'', drop (Suc i) p))"

definition mirror_single :: "sf_world \<Rightarrow> pturns \<Rightarrow> sf_mirror \<Rightarrow> path \<Rightarrow> sf_state \<Rightarrow> string option \<times> sf_state" where
  "mirror_single w env m root s =
    (case split_file root of (dir, name) \<Rightarrow>
      (case sf_list w env m dir s of
         (Inl _, s1) \<Rightarrow> (Some (''listing /'' @ dir), s1)
       | (Inr es, s1) \<Rightarrow>
          (case find (\<lambda>e. seName e = name \<and> seType e = ''f'') es of
             Some e \<Rightarrow> (None, sf_file w env m dir e s1)
           | None \<Rightarrow> (Some (''/'' @ root @ '': no such file or folder''), s1))))"

definition mirrorRoot :: "nat \<Rightarrow> sf_world \<Rightarrow> pturns \<Rightarrow> sf_mirror \<Rightarrow> path \<Rightarrow> sf_state \<Rightarrow> (string option \<times> sf_state) option" where
  "mirrorRoot depth w env m root s =
    (case sf_list w env m root s of
       (Inl err, s1) \<Rightarrow>
         (if err = NotFolder \<and> root \<noteq> [] then Some (mirror_single w env m root s1)
          else if err = NotFound \<and> root \<noteq> [] then Some (Some (''/'' @ root @ '': no such file or folder''), s1)
          else if root = [] then Some (Some (''listing the files of '' @ smProject m @ '' (does the project exist?)''), s1)
          else Some (Some (''listing /'' @ root), s1))
     | (Inr es, s1) \<Rightarrow> map_option (Pair None) (sf_folder w env m depth root es s1))"

definition sf_Mirror :: "nat \<Rightarrow> sf_world \<Rightarrow> pturns \<Rightarrow> int \<Rightarrow> string \<Rightarrow> path \<Rightarrow> sf_state \<Rightarrow> (string option \<times> sf_state) option" where
  "sf_Mirror depth w env retries source destDir s =
    (case ParseSource source of
       Inl e \<Rightarrow> Some (Some e, s)
     | Inr (project, root) \<Rightarrow>
        (case sf_localPath (JoinPath [project, root]) of
           Inl e \<Rightarrow> Some (Some e, s)
         | Inr _ \<Rightarrow>
            (let m = \<lparr>smRetries = retries, smProject = project, smDir = JoinPath [destDir, project]\<rparr>;
                 s0 = s\<lparr>psLast := False, sfDownloaded := 0, sfSkipped := 0, sfFailed := []\<rparr> in
             case mirrorRoot depth w env m root s0 of
               None \<Rightarrow> None
             | Some (Some e, s1) \<Rightarrow> Some (Some e, s1)
             | Some (None, s1) \<Rightarrow>
                Some ((case ptLook (env (psTick s1)) of
                   Some e \<Rightarrow> Some e
                 | None \<Rightarrow> if sfFailed s1 \<noteq> [] then Some (itoa (int (length (sfFailed s1))) @ '' failed: '' @ Join (sfFailed s1) '', '') else None), s1))))"

end
