(* ===== verification/SourceForgeProps.thy ===== *)
theory SourceForgeProps
  imports SourceForge PacerProps
begin

text \<open>
  What a run of the SourceForge backend guarantees: a run that reports no failure has every file of the files area,
  nothing is written outside the project's directory, and a files area of bounded depth is walked to its end.
\<close>

subsection \<open>Listings and files\<close>

definition sf_place :: "sf_mirror \<Rightarrow> path \<Rightarrow> sf_entry \<Rightarrow> path" where
  "sf_place m dir e = JoinPath [smDir m, Clean (JoinPath [dir, seName e])]"

definition sf_places :: "sf_mirror \<Rightarrow> path \<Rightarrow> sf_entry \<Rightarrow> key set" where
  "sf_places m dir e = two_places (sf_place m dir e) sf_tmpSuffix"

text \<open>The files that are to be there.\<close>

definition sf_wanted :: "sf_entry \<Rightarrow> bool" where
  "sf_wanted e \<longleftrightarrow> seType e = ''f'' \<and> \<not> unsafe_name (seName e) \<and> seLink e = [] \<and> seDownloadable e"

definition sf_has :: "sf_world \<Rightarrow> sf_mirror \<Rightarrow> path \<Rightarrow> sf_entry \<Rightarrow> fs \<Rightarrow> bool" where
  "sf_has w m dir e f \<longleftrightarrow> (\<exists>x. node_at (sf_place m dir e) f = Some (File x) \<and> md5_fits (swMd5 w) (seMD5 e) x)"

lemma have_iff: "sf_alreadyHave (swMd5 w) (sf_place m dir e) (seMD5 e) f = sf_has w m dir e f"
  by (auto simp: sf_alreadyHave_def sf_has_def md5_fits_def split: option.splits node.splits)

lemma sf_file_cases:
  obtains (skipped) "seLink e \<noteq> [] \<or> \<not> seDownloadable e" "sf_file w env m dir e s = s"
  | (unsafe) err where "sf_file w env m dir e s = sf_fail w (JoinPath [dir, seName e]) (Plain err) s" "\<not> IsLocal (Clean (JoinPath [dir, seName e]))"
  | (kept) "sf_has w m dir e (psFs s)" "sf_file w env m dir e s = s\<lparr>sfSkipped := Suc (sfSkipped s)\<rparr>"
  | (tried) res s1 where "IsLocal (Clean (JoinPath [dir, seName e]))" "\<not> sf_has w m dir e (psFs s)"
      "with_retries env (smRetries m) (download_file (swMd5 w) sf_tmpSuffix True (web_page (seMD5 e))
         (sf_downloadURL (smProject m) (JoinPath [dir, seName e])) (sf_place m dir e) (seMD5 e)) s = (res, s1)"
      "sf_file w env m dir e s = (case res of Inl err \<Rightarrow> sf_fail w (JoinPath [dir, seName e]) err s1
         | Inr _ \<Rightarrow> s1\<lparr>sfDownloaded := Suc (sfDownloaded s1)\<rparr>)"
proof (cases "seLink e \<noteq> [] \<or> \<not> seDownloadable e")
  case True
  then show thesis using skipped by (simp add: sf_file_def Let_def)
next
  case f: False
  let ?p = "JoinPath [dir, seName e]"
  show thesis
  proof (cases "IsLocal (Clean ?p)")
    case False
    then show thesis using f unsafe by (simp add: sf_file_def Let_def sf_localPath_def)
  next
    case loc: True
    show thesis
    proof (cases "sf_has w m dir e (psFs s)")
      case True
      then show thesis using f loc kept have_iff [of w m dir e "psFs s"]
        by (simp add: sf_file_def Let_def sf_localPath_def sf_place_def)
    next
      case False
      obtain res s1 where t: "with_retries env (smRetries m) (download_file (swMd5 w) sf_tmpSuffix True (web_page (seMD5 e))
         (sf_downloadURL (smProject m) ?p) (sf_place m dir e) (seMD5 e)) s = (res, s1)" by fastforce
      show thesis
        by (rule tried [OF loc False t])
          (use t f loc False have_iff [of w m dir e "psFs s"] in \<open>simp add: sf_file_def Let_def sf_localPath_def sf_place_def\<close>)
    qed
  qed
qed

lemma fetchListing_plain: "plain_request (fetchListing order project dir)"
  by (auto simp: plain_request_def fetchListing_def split: sum.splits option.splits)

lemma parseListing_plain: "parseListing order page \<noteq> Inl (Cancelled c)"
  by (simp add: parseListing_def split: option.splits)

lemma fetchListing_honest: "cancels_honestly (fetchListing order project dir)"
  unfolding cancels_honestly_def
proof (intro allI impI)
  fix t c and s s' :: "'a pstate_scheme"
  assume h: "fetchListing order project dir t s = (Inl (Cancelled c), s')"
  show "ptCtx t \<noteq> None"
  proof (cases "get_reply t False (listURL project dir)")
    case (Inl e)
    then have "e = Cancelled c" using h by (simp add: fetchListing_def)
    then show ?thesis using Inl get_reply_cancelled by blast
  next
    case (Inr r)
    then show ?thesis using h parseListing_plain by (cases "rpBodyErr r") (simp_all add: fetchListing_def)
  qed
qed

text \<open>The listings do not change during a run.\<close>

definition sf_steady :: "sf_world \<Rightarrow> pturns \<Rightarrow> string \<Rightarrow> (path \<Rightarrow> sf_entry list) \<Rightarrow> bool" where
  "sf_steady w env project L \<longleftrightarrow> (\<forall>n dir r es. ptDo (env n) False (listURL project dir) = Inr r \<longrightarrow> rpStatus r = 200 \<longrightarrow> rpBodyErr r = None
     \<longrightarrow> parseListing (swOrder w) (rpBody r) = Inr es \<longrightarrow> es = L dir)"

lemma fetchListing_same: "fetchListing order project dir t s = (x, s') \<Longrightarrow> s' = s"
  by (auto simp: fetchListing_def split: sum.splits option.splits)

lemma sf_list_same: "sf_list w env m dir s = (x, s') \<Longrightarrow> psFs s' = psFs s"
  unfolding sf_list_def using fetchListing_same by (blast intro: unchanged.with_retries_keeps [symmetric])

lemma sf_list_steady:
  assumes "sf_list w env m dir s = (Inr es, s')" and "sf_steady w env (smProject m) L"
  shows "es = L dir"
proof -
  obtain k and s0 s1 :: sf_state where k: "fetchListing (swOrder w) (smProject m) dir (env k) s0 = (Inr es, s1)"
    using pacer_do_ok [OF assms(1) [unfolded sf_list_def with_retries_def]] by blast
  then obtain r where r: "get_reply (env k) False (listURL (smProject m) dir) = Inr r" "rpBodyErr r = None" "parseListing (swOrder w) (rpBody r) = Inr es"
    by (auto simp: fetchListing_def split: sum.splits option.splits)
  then show ?thesis using get_reply_ok [OF r(1)] assms(2) unfolding sf_steady_def by blast
qed

subsection \<open>Runs only go on\<close>

definition sf_grows :: "sf_state \<Rightarrow> sf_state \<Rightarrow> bool" where
  "sf_grows s s' \<longleftrightarrow> psTick s \<le> psTick s' \<and> prefix (sfFailed s) (sfFailed s')"

lemma sf_grows_refl [simp]: "sf_grows s s"
  by (simp add: sf_grows_def)

lemma sf_grows_trans: "sf_grows s t \<Longrightarrow> sf_grows t u \<Longrightarrow> sf_grows s u"
  unfolding sf_grows_def by (meson order_trans prefix_order.trans)

lemma failed_more: "pstate.more s' = pstate.more s \<Longrightarrow> sfFailed s' = sfFailed s"
  by (cases s; cases s') simp

lemma request_grows:
  assumes "with_retries env n fn s = (r, s')" and "plain_request fn" and "cancels_honestly fn"
  shows "psTick s < psTick s'" and "sfFailed s' = sfFailed s" and "sf_grows s s'"
proof -
  show t: "psTick s < psTick s'" by (rule with_retries_turns(1) [OF assms])
  show "sfFailed s' = sfFailed s" by (rule failed_more [OF with_retries_more [OF assms(1,2)]])
  then show "sf_grows s s'" using t by (simp add: sf_grows_def)
qed

lemma sf_list_grows: "sf_list w env m dir s = (x, s') \<Longrightarrow> sf_grows s s'"
  unfolding sf_list_def by (rule request_grows(3) [OF _ fetchListing_plain fetchListing_honest])

lemma sf_fail_grows [simp]: "sf_grows s (sf_fail w p e s)"
  by (simp add: sf_fail_def sf_grows_def)

lemma sf_fail_same [simp]: "psFs (sf_fail w p e s) = psFs s" "psTick (sf_fail w p e s) = psTick s"
  by (simp_all add: sf_fail_def)

lemma sf_file_grows: "sf_grows s (sf_file w env m dir e s)"
proof (cases rule: sf_file_cases [of e w env m dir s])
  case kept
  then show ?thesis by (simp add: sf_grows_def)
next
  case (tried res s1)
  have g: "sf_grows s s1" by (rule request_grows(3) [OF tried(3) download_plain download_honest])
  show ?thesis
  proof (cases res)
    case (Inl err)
    then show ?thesis using tried(4) sf_grows_trans [OF g] by simp
  next
    case (Inr v)
    then show ?thesis using tried(4) g by (simp add: sf_grows_def)
  qed
qed simp_all

lemma tick_grows [simp]: "sf_grows s (s\<lparr>psTick := Suc (psTick s)\<rparr>)"
  by (simp add: sf_grows_def)

text \<open>How a folder is walked: the cases of one entry.\<close>

lemma sf_folder_cases:
  assumes "sf_folder w env m depth dir (e # es) s = Some s'"
  defines "s0 \<equiv> s\<lparr>psTick := Suc (psTick s)\<rparr>" and "p \<equiv> JoinPath [dir, seName e]"
  obtains (stopped) "ptLook (env (psTick s)) \<noteq> None" "s' = s0"
  | (unsafe) err where "unsafe_name (seName e)" "sf_folder w env m depth dir es (sf_fail w p (Plain err) s0) = Some s'"
  | (unlisted) err s1 where "\<not> unsafe_name (seName e)" "seType e = ''d''" "sf_list w env m p s0 = (Inl err, s1)"
      "sf_folder w env m depth dir es (sf_fail w (p @ ''/'') err s1) = Some s'"
  | (entered) sub s1 n s2 where "\<not> unsafe_name (seName e)" "seType e = ''d''" "sf_list w env m p s0 = (Inr sub, s1)" "depth = Suc n"
      "sf_folder w env m n p sub s1 = Some s2" "sf_folder w env m depth dir es s2 = Some s'"
  | (regular) "\<not> unsafe_name (seName e)" "seType e = ''f''" "sf_folder w env m depth dir es (sf_file w env m dir e s0) = Some s'"
  | (other) "\<not> unsafe_name (seName e)" "seType e \<noteq> ''d''" "seType e \<noteq> ''f''" "sf_folder w env m depth dir es s0 = Some s'"
proof (cases "ptLook (env (psTick s)) = None")
  case False
  then show thesis using assms stopped by (simp add: Let_def)
next
  case go: True
  show thesis
  proof (cases "unsafe_name (seName e)")
    case True
    then show thesis using assms go unsafe by (simp add: Let_def)
  next
    case safe: False
    show thesis
    proof (cases "seType e = ''d''")
      case d: True
      obtain x s1 where l: "sf_list w env m p s0 = (x, s1)" by fastforce
      show thesis
      proof (cases x)
        case (Inl err)
        then show thesis using assms(1) go safe d l unlisted by (simp add: Let_def s0_def p_def)
      next
        case (Inr sub)
        then show thesis using assms(1) go safe d l entered
          by (auto simp: Let_def s0_def p_def split: nat.splits option.splits)
      qed
    next
      case nd: False
      then show thesis using assms go safe regular other by (cases "seType e = ''f''") (simp_all add: Let_def)
    qed
  qed
qed

text \<open>Induction over a walk that ends.\<close>

lemma sf_folder_induct [consumes 1, case_names nil stopped unsafe unlisted entered regular other]:
  assumes "sf_folder w env m depth dir es s = Some s'"
    and nil: "\<And>depth dir s. P depth dir [] s s"
    and stopped: "\<And>depth dir e es s. ptLook (env (psTick s)) \<noteq> None \<Longrightarrow> P depth dir (e # es) s (s\<lparr>psTick := Suc (psTick s)\<rparr>)"
    and unsafe: "\<And>depth dir e es s s' err. unsafe_name (seName e)
      \<Longrightarrow> sf_folder w env m depth dir es (sf_fail w (JoinPath [dir, seName e]) (Plain err) (s\<lparr>psTick := Suc (psTick s)\<rparr>)) = Some s'
      \<Longrightarrow> P depth dir es (sf_fail w (JoinPath [dir, seName e]) (Plain err) (s\<lparr>psTick := Suc (psTick s)\<rparr>)) s' \<Longrightarrow> P depth dir (e # es) s s'"
    and unlisted: "\<And>depth dir e es s s' err s1. \<not> unsafe_name (seName e) \<Longrightarrow> seType e = ''d''
      \<Longrightarrow> sf_list w env m (JoinPath [dir, seName e]) (s\<lparr>psTick := Suc (psTick s)\<rparr>) = (Inl err, s1)
      \<Longrightarrow> sf_folder w env m depth dir es (sf_fail w (JoinPath [dir, seName e] @ ''/'') err s1) = Some s'
      \<Longrightarrow> P depth dir es (sf_fail w (JoinPath [dir, seName e] @ ''/'') err s1) s' \<Longrightarrow> P depth dir (e # es) s s'"
    and entered: "\<And>depth dir e es s s' sub s1 s2 n. \<not> unsafe_name (seName e) \<Longrightarrow> seType e = ''d'' \<Longrightarrow> depth = Suc n
      \<Longrightarrow> sf_list w env m (JoinPath [dir, seName e]) (s\<lparr>psTick := Suc (psTick s)\<rparr>) = (Inr sub, s1)
      \<Longrightarrow> sf_folder w env m n (JoinPath [dir, seName e]) sub s1 = Some s2 \<Longrightarrow> P n (JoinPath [dir, seName e]) sub s1 s2
      \<Longrightarrow> sf_folder w env m depth dir es s2 = Some s' \<Longrightarrow> P depth dir es s2 s' \<Longrightarrow> P depth dir (e # es) s s'"
    and regular: "\<And>depth dir e es s s'. \<not> unsafe_name (seName e) \<Longrightarrow> seType e = ''f''
      \<Longrightarrow> sf_folder w env m depth dir es (sf_file w env m dir e (s\<lparr>psTick := Suc (psTick s)\<rparr>)) = Some s'
      \<Longrightarrow> P depth dir es (sf_file w env m dir e (s\<lparr>psTick := Suc (psTick s)\<rparr>)) s' \<Longrightarrow> P depth dir (e # es) s s'"
    and other: "\<And>depth dir e es s s'. seType e \<noteq> ''d'' \<Longrightarrow> seType e \<noteq> ''f''
      \<Longrightarrow> sf_folder w env m depth dir es (s\<lparr>psTick := Suc (psTick s)\<rparr>) = Some s'
      \<Longrightarrow> P depth dir es (s\<lparr>psTick := Suc (psTick s)\<rparr>) s' \<Longrightarrow> P depth dir (e # es) s s'"
  shows "P depth dir es s s'"
  using assms(1)
proof (induction depth arbitrary: dir es s s' rule: less_induct)
  case (less depth)
  note outer = less.IH
  from less.prems show ?case
  proof (induction es arbitrary: s)
    case (Cons e es)
    note inner = Cons.IH
    from Cons.prems show ?case
    proof (cases rule: sf_folder_cases)
      case u: (unsafe err)
      show ?thesis by (rule unsafe [OF u inner [OF u(2)]])
    next
      case u: (unlisted err s1)
      show ?thesis by (rule unlisted [OF u inner [OF u(4)]])
    next
      case u: (entered sub s1 n s2)
      show ?thesis by (rule entered [OF u(1,2,4,3) u(5) outer [OF _ u(5)] u(6) inner [OF u(6)]]) (simp add: u(4))
    next
      case u: regular
      show ?thesis by (rule regular [OF u inner [OF u(3)]])
    next
      case u: other
      show ?thesis by (rule other [OF u(2-4) inner [OF u(4)]])
    qed (simp add: stopped)
  qed (simp add: nil)
qed

lemma sf_folder_grows: "sf_folder w env m depth dir es s = Some s' \<Longrightarrow> sf_grows s s' \<and> (es \<noteq> [] \<longrightarrow> psTick s < psTick s')"
proof (induction rule: sf_folder_induct)
  case (unlisted depth dir e es s s' err s1)
  then show ?case using sf_list_grows [OF unlisted(3)] sf_fail_grows [of s1 w "JoinPath [dir, seName e] @ ''/''" err]
    unfolding sf_grows_def by (auto intro: prefix_order.trans)
next
  case (entered depth dir e es s s' sub s1 s2 n)
  then show ?case using sf_list_grows [OF entered(4)] unfolding sf_grows_def by (auto intro: prefix_order.trans)
next
  case (regular depth dir e es s s')
  then show ?case using sf_file_grows [of "s\<lparr>psTick := Suc (psTick s)\<rparr>" w env m dir e]
    unfolding sf_grows_def by (auto intro: prefix_order.trans)
next
  case (unsafe depth dir e es s s' err)
  then show ?case using sf_fail_grows [of "s\<lparr>psTick := Suc (psTick s)\<rparr>" w "JoinPath [dir, seName e]" "Plain err"]
    unfolding sf_grows_def by (auto intro: prefix_order.trans)
qed (auto simp: sf_grows_def)

subsection \<open>What is written\<close>

text \<open>A file of the project, fetched for its path.\<close>

definition sf_content :: "pturns \<Rightarrow> string \<Rightarrow> key \<Rightarrow> key \<Rightarrow> string \<Rightarrow> bool" where
  "sf_content env project D k x \<longleftrightarrow> (\<exists>p. IsLocal (Clean p) \<and> k = D @ clean_elems p \<and> fetched env (sf_downloadURL project p) x)"

abbreviation project_changes :: "pturns \<Rightarrow> string \<Rightarrow> key \<Rightarrow> fs \<Rightarrow> fs \<Rightarrow> bool" where
  "project_changes env project D \<equiv> paced_changes sf_tmpSuffix (sf_content env project D) D"

lemma sf_suffix: "plain_suffix sf_tmpSuffix"
  by (simp add: plain_suffix_def sf_tmpSuffix_def slash_def)

lemma safe_plain: "\<not> unsafe_name x \<Longrightarrow> plain_elem x"
  by (auto simp: unsafe_name_def plain_elem_def ContainsAny_def list_ex_iff slash_def)

lemma entry_elems:
  assumes "plain_elem name"
  shows "clean_elems (JoinPath [dir, name]) = clean_elems dir @ [name]"
proof (cases "dir = []")
  case True
  have "clean_elems name = [name]"
  proof -
    have "\<not> rooted name" using assms by (auto simp: rooted_iff plain_elem_def)
    moreover have "Split name slash = [name]" using assms Split_Join_plain [of "[name]"] by simp
    ultimately show ?thesis using foldl_clean_plain [of "[name]" False "[]"] assms
      by (simp add: clean_elems_def del: clean_step.simps)
  qed
  moreover have "clean_elems [] = []" by code_simp
  moreover have "JoinPath [[], name] = Clean name" using assms by (simp add: JoinPath_def plain_elem_def)
  ultimately show ?thesis using True by simp
next
  case False
  moreover have "name \<noteq> []" using assms by (simp add: plain_elem_def)
  ultimately show ?thesis using clean_elems_append_plain [of dir "[name]"] assms by (simp add: JoinPath_two)
qed

lemma sf_place_elems:
  assumes "smDir m \<noteq> []" and "plain_elem (seName e)" and "IsLocal (Clean (JoinPath [dir, seName e]))"
  shows "sf_place m dir e = Clean (smDir m @ slash # Clean (JoinPath [dir, seName e]))"
    and "clean_elems (sf_place m dir e) = clean_elems (smDir m) @ clean_elems (JoinPath [dir, seName e])"
    and "strict_prefix (clean_elems (smDir m)) (clean_elems (sf_place m dir e))"
proof -
  show "sf_place m dir e = Clean (smDir m @ slash # Clean (JoinPath [dir, seName e]))"
    using JoinPath_two [OF assms(1)] by (simp add: sf_place_def)
  show *: "clean_elems (sf_place m dir e) = clean_elems (smDir m) @ clean_elems (JoinPath [dir, seName e])"
    using under_JoinPath_local(2) [OF assms(1,3)] by (simp add: sf_place_def)
  show "strict_prefix (clean_elems (smDir m)) (clean_elems (sf_place m dir e))"
    unfolding * entry_elems [OF assms(2)] by (simp add: strict_prefix_def)
qed

lemma sf_file_changes:
  assumes "smDir m \<noteq> []" and "plain_elem (seName e)"
  shows "project_changes env (smProject m) (clean_elems (smDir m)) (psFs s) (psFs (sf_file w env m dir e s))"
proof (cases rule: sf_file_cases [of e w env m dir s])
  case (tried res s1)
  let ?p = "JoinPath [dir, seName e]"
  note pl = sf_place_elems [OF assms tried(1)]
  have "project_changes env (smProject m) (clean_elems (smDir m)) (psFs s) (psFs s1)"
  proof (rule confined.with_retries_keeps_env [OF tried(3)])
    fix k s0 r0 s1
    assume d: "download_file (swMd5 w) sf_tmpSuffix True (web_page (seMD5 e)) (sf_downloadURL (smProject m) ?p) (sf_place m dir e) (seMD5 e) (env k) s0 = (r0, s1)"
    show "project_changes env (smProject m) (clean_elems (smDir m)) (psFs s0) (psFs s1)"
    proof (rule paced_download [OF d pl(1,3) sf_suffix])
      fix r
      assume "ptDo (env k) True (sf_downloadURL (smProject m) ?p) = Inr r" "rpStatus r = 200" "rpBodyErr r = None"
        "ptWrite (env k) = None" "ptClose (env k) = None"
      then have "fetched env (sf_downloadURL (smProject m) ?p) (rpBody r)" unfolding fetched_def by blast
      then show "sf_content env (smProject m) (clean_elems (smDir m)) (clean_elems (sf_place m dir e)) (rpBody r)"
        using tried(1) pl(2) unfolding sf_content_def by blast
    qed
  qed
  then show ?thesis using tried(4) by (cases res) simp_all
qed (simp_all add: confined.same)

lemma sf_folder_changes:
  assumes "sf_folder w env m depth dir es s = Some s'" and "smDir m \<noteq> []"
  shows "project_changes env (smProject m) (clean_elems (smDir m)) (psFs s) (psFs s')"
  using assms(1)
proof (induction rule: sf_folder_induct)
  case (unlisted depth dir e es s s' err s1)
  then show ?case using sf_list_same [OF unlisted(3)] by simp
next
  case (entered depth dir e es s s' sub s1 s2 n)
  then show ?case using sf_list_same [OF entered(4)] confined.trans by fastforce
next
  case (regular depth dir e es s s')
  then show ?case
    using confined.trans [OF sf_file_changes [OF assms(2) safe_plain [OF regular(1)], of env "s\<lparr>psTick := Suc (psTick s)\<rparr>" w dir]] by simp
qed (simp_all add: confined.same)

subsection \<open>A clean run has every file\<close>

text \<open>The entries of a folder and below it.\<close>

inductive in_site :: "(path \<Rightarrow> sf_entry list) \<Rightarrow> path \<Rightarrow> sf_entry list \<Rightarrow> path \<Rightarrow> sf_entry \<Rightarrow> bool" for L where
  here: "e \<in> set es \<Longrightarrow> in_site L dir es dir e"
| below: "d \<in> set es \<Longrightarrow> \<not> unsafe_name (seName d) \<Longrightarrow> seType d = ''d'' \<Longrightarrow> in_site L (JoinPath [dir, seName d]) (L (JoinPath [dir, seName d])) dir' e'
    \<Longrightarrow> in_site L dir es dir' e'"

inductive_cases in_site_cases: "in_site L dir es dir' e'"

lemma in_site_Cons:
  assumes "in_site L dir (e # es) dir' e'"
  shows "in_site L dir es dir' e' \<or> (dir' = dir \<and> e' = e)
    \<or> (\<not> unsafe_name (seName e) \<and> seType e = ''d'' \<and> in_site L (JoinPath [dir, seName e]) (L (JoinPath [dir, seName e])) dir' e')"
  using assms
proof (cases rule: in_site.cases)
  case here
  then show ?thesis by (cases "e' = e") (simp_all add: in_site.here)
next
  case (below d)
  then show ?thesis using in_site.below [of d es] by (cases "d = e") auto
qed

lemma in_site_mono: "in_site L dir es dir' e' \<Longrightarrow> set es \<subseteq> set fs \<Longrightarrow> in_site L dir fs dir' e'"
  by (erule in_site_cases) (auto intro: in_site.intros)

text \<open>No other file goes to the place of this one, or has its temporary file there.\<close>

definition sf_apart :: "(path \<Rightarrow> sf_entry list) \<Rightarrow> sf_mirror \<Rightarrow> path \<Rightarrow> sf_entry list \<Rightarrow> path \<Rightarrow> sf_entry \<Rightarrow> bool" where
  "sf_apart L m dir es dir' e' \<longleftrightarrow> (\<forall>dir1 e1. in_site L dir es dir1 e1 \<longrightarrow> sf_wanted e1 \<longrightarrow> (dir1, e1) \<noteq> (dir', e')
     \<longrightarrow> clean_elems (sf_place m dir' e') \<notin> sf_places m dir1 e1)"

lemma sf_apart_mono:
  assumes "sf_apart L m dir es dir' e'" and "\<And>dir1 e1. in_site L d2 fs dir1 e1 \<Longrightarrow> in_site L dir es dir1 e1"
  shows "sf_apart L m d2 fs dir' e'"
  using assms unfolding sf_apart_def by blast

lemma sf_apart_tail: "sf_apart L m dir (e # es) dir' e' \<Longrightarrow> sf_apart L m dir es dir' e'"
  by (erule sf_apart_mono) (erule in_site_mono, auto)

lemma sf_apart_below:
  "sf_apart L m dir (e # es) dir' e' \<Longrightarrow> \<not> unsafe_name (seName e) \<Longrightarrow> seType e = ''d''
   \<Longrightarrow> sf_apart L m (JoinPath [dir, seName e]) (L (JoinPath [dir, seName e])) dir' e'"
  by (erule sf_apart_mono) (rule in_site.below, auto)

text \<open>A run without a failure, and not cancelled.\<close>

definition clean_run :: "pturns \<Rightarrow> sf_state \<Rightarrow> bool" where
  "clean_run env s \<longleftrightarrow> sfFailed s = [] \<and> (\<forall>k < psTick s. \<not> cancelled_turn (env k))"

lemma clean_run_before: "clean_run env s' \<Longrightarrow> sf_grows s s' \<Longrightarrow> clean_run env s"
  by (auto simp: clean_run_def sf_grows_def)

lemma failed_not_clean:
  assumes "clean_run env (sf_fail w p err s)" and "\<And>msg. \<not> swDeadline w msg"
  shows "\<exists>c. err = Cancelled c"
  using assms by (auto simp: clean_run_def sf_fail_def is_ctx_error_def split: if_splits req_error.splits)

lemma request_clean:
  assumes "with_retries env n fn s = (Inl err, s1)" and "plain_request fn" and "cancels_honestly fn"
    and "clean_run env (sf_fail w p err s1)" and "\<And>msg. \<not> swDeadline w msg"
  shows False
proof -
  obtain c where "err = Cancelled c" using failed_not_clean [OF assms(4,5)] by blast
  then obtain k where "k < psTick s1" "cancelled_turn (env k)" using with_retries_turns(2) [OF assms(1-3)] by blast
  then show False using assms(4) by (simp add: clean_run_def)
qed

lemma sf_has_stays: "sf_has w m dir e f \<Longrightarrow> stays K f f' \<Longrightarrow> clean_elems (sf_place m dir e) \<notin> K \<Longrightarrow> sf_has w m dir e f'"
  unfolding sf_has_def stays_def node_at_def by (metis option.distinct(1))

lemma sf_file_stays: "stays (sf_places m dir e) (psFs s) (psFs (sf_file w env m dir e s))"
proof (cases rule: sf_file_cases [of e w env m dir s])
  case (tried res s1)
  have "stays (sf_places m dir e) (psFs s) (psFs s1)" unfolding sf_places_def
    by (rule untouched.with_retries_keeps [OF tried(3)]) (rule download_stays)
  then show ?thesis using tried(4) by (cases res) simp_all
qed (simp_all add: untouched.same)

lemma sf_file_keeps:
  assumes "sf_has w m dir' e' (psFs s)" and "(dir, e) \<noteq> (dir', e') \<Longrightarrow> sf_wanted e \<Longrightarrow> clean_elems (sf_place m dir' e') \<notin> sf_places m dir e"
    and "seType e = ''f''" and "\<not> unsafe_name (seName e)"
  shows "sf_has w m dir' e' (psFs (sf_file w env m dir e s))"
proof (cases rule: sf_file_cases [of e w env m dir s])
  case (tried res s1)
  show ?thesis
  proof (cases "(dir, e) = (dir', e') \<or> \<not> sf_wanted e")
    case True
    then show ?thesis using tried(2) assms by (auto simp: sf_wanted_def sf_file_def Let_def)
  next
    case False
    then show ?thesis using sf_has_stays [OF assms(1) sf_file_stays] assms(2) by blast
  qed
qed (use assms(1) in simp_all)

lemma sf_file_has:
  assumes "clean_run env (sf_file w env m dir e s)" and "sf_wanted e" and "\<And>msg. \<not> swDeadline w msg"
  shows "sf_has w m dir e (psFs (sf_file w env m dir e s))"
proof (cases rule: sf_file_cases [of e w env m dir s])
  case skipped
  then show ?thesis using assms(2) by (simp add: sf_wanted_def)
next
  case (unsafe err)
  then show ?thesis using failed_not_clean [OF assms(1) [unfolded unsafe(1)] assms(3)] by simp
next
  case kept
  then show ?thesis by simp
next
  case (tried res s1)
  show ?thesis
  proof (cases res)
    case (Inl err)
    then have "clean_run env (sf_fail w (JoinPath [dir, seName e]) err s1)" using assms(1) tried(4) by simp
    then show ?thesis using request_clean [OF tried(3) [unfolded Inl] download_plain download_honest _ assms(3)] by blast
  next
    case (Inr v)
    then show ?thesis using tried(4) download_done [OF tried(3) [unfolded Inr]] by (auto simp: sf_has_def)
  qed
qed

lemma sf_folder_keeps:
  assumes "sf_folder w env m depth dir es s = Some s'" and steady: "sf_steady w env (smProject m) L"
    and "sf_has w m dir' e' (psFs s)" and "sf_apart L m dir es dir' e'"
  shows "sf_has w m dir' e' (psFs s')"
  using assms(1,3,4)
proof (induction rule: sf_folder_induct)
  case (unsafe depth dir e es s s' err)
  then show ?case using sf_apart_tail by (metis sf_fail_same(1) pstate.select_convs(1) pstate.surjective pstate.update_convs(2))
next
  case (unlisted depth dir e es s s' err s1)
  then show ?case using sf_apart_tail sf_list_same [OF unlisted(3)] by simp
next
  case (entered depth dir e es s s' sub s1 s2 n)
  have "sub = L (JoinPath [dir, seName e])" by (rule sf_list_steady [OF entered(4) steady])
  then have "sf_has w m dir' e' (psFs s2)"
    using entered.IH(1) sf_list_same [OF entered(4)] entered.prems sf_apart_below [OF entered.prems(2) entered(1,2)] by simp
  then show ?case using entered.IH(2) sf_apart_tail [OF entered.prems(2)] by blast
next
  case (regular depth dir e es s s')
  have "sf_has w m dir' e' (psFs (sf_file w env m dir e (s\<lparr>psTick := Suc (psTick s)\<rparr>)))"
  proof (rule sf_file_keeps)
    have "in_site L dir (e # es) dir e" by (rule in_site.here) simp
    then show "clean_elems (sf_place m dir' e') \<notin> sf_places m dir e" if "(dir, e) \<noteq> (dir', e')" "sf_wanted e"
      using regular.prems(2) that unfolding sf_apart_def by blast
  qed (use regular in simp_all)
  then show ?case using regular.IH sf_apart_tail [OF regular.prems(2)] by blast
next
  case (other depth dir e es s s')
  then show ?case using sf_apart_tail by simp
qed simp_all

lemma sf_folder_has:
  assumes "sf_folder w env m depth dir es s = Some s'" and steady: "sf_steady w env (smProject m) L" and dead: "\<And>msg. \<not> swDeadline w msg"
    and "clean_run env s'" and "in_site L dir es dir' e'" and wanted: "sf_wanted e'" and "sf_apart L m dir es dir' e'"
  shows "sf_has w m dir' e' (psFs s')"
  using assms(1,4,5,7)
proof (induction rule: sf_folder_induct)
  case (nil depth dir s)
  then show ?case by (auto elim: in_site_cases)
next
  case (stopped depth dir e es s)
  then show ?case by (auto simp: clean_run_def cancelled_turn_def)
next
  case (unsafe depth dir e es s s' err)
  have "sf_grows (sf_fail w (JoinPath [dir, seName e]) (Plain err) (s\<lparr>psTick := Suc (psTick s)\<rparr>)) s'" using sf_folder_grows [OF unsafe(2)] by simp
  then show ?case using failed_not_clean [OF clean_run_before [OF unsafe.prems(1)] dead] by blast
next
  case (unlisted depth dir e es s s' err s1)
  have "clean_run env (sf_fail w (JoinPath [dir, seName e] @ ''/'') err s1)"
    using clean_run_before [OF unlisted.prems(1)] sf_folder_grows [OF unlisted(4)] by simp
  then show ?case using request_clean [OF unlisted(3) [unfolded sf_list_def] fetchListing_plain fetchListing_honest _ dead] by blast
next
  case (entered depth dir e es s s' sub s1 s2 n)
  have sub: "sub = L (JoinPath [dir, seName e])" by (rule sf_list_steady [OF entered(4) steady])
  have c2: "clean_run env s2" using clean_run_before [OF entered.prems(1)] sf_folder_grows [OF entered(6)] by simp
  note ap = sf_apart_below [OF entered.prems(3) entered(1,2)] sf_apart_tail [OF entered.prems(3)]
  show ?case
  proof (cases "in_site L dir es dir' e'")
    case True
    then show ?thesis using entered.IH(2) entered.prems(1) ap(2) by blast
  next
    case False
    then have "in_site L (JoinPath [dir, seName e]) sub dir' e'"
      using in_site_Cons [OF entered.prems(2)] wanted entered(2) unfolding sub sf_wanted_def by auto
    then have "sf_has w m dir' e' (psFs s2)" using entered.IH(1) c2 ap(1) sub by blast
    then show ?thesis by (rule sf_folder_keeps [OF entered(6) steady _ ap(2)])
  qed
next
  case (regular depth dir e es s s')
  note ap = sf_apart_tail [OF regular.prems(3)]
  have c: "clean_run env (sf_file w env m dir e (s\<lparr>psTick := Suc (psTick s)\<rparr>))"
    using clean_run_before [OF regular.prems(1)] sf_folder_grows [OF regular(3)] by simp
  show ?case
  proof (cases "in_site L dir es dir' e'")
    case True
    then show ?thesis using regular.IH regular.prems(1) ap by blast
  next
    case False
    then have "dir' = dir" "e' = e" using in_site_Cons [OF regular.prems(2)] regular(2) by auto
    then have "sf_has w m dir' e' (psFs (sf_file w env m dir e (s\<lparr>psTick := Suc (psTick s)\<rparr>)))"
      using sf_file_has [OF c _ dead] wanted by simp
    then show ?thesis by (rule sf_folder_keeps [OF regular(3) steady _ ap])
  qed
next
  case (other depth dir e es s s')
  have "in_site L dir es dir' e'"
    using in_site_Cons [OF other.prems(2)] other(1,2) wanted by (auto simp: sf_wanted_def)
  then show ?case using other.IH other.prems(1) sf_apart_tail [OF other.prems(3)] by blast
qed

subsection \<open>Whole runs\<close>

definition sf_mirror_of :: "int \<Rightarrow> string \<Rightarrow> path \<Rightarrow> sf_mirror" where
  "sf_mirror_of retries project destDir = \<lparr>smRetries = retries, smProject = project, smDir = JoinPath [destDir, project]\<rparr>"

definition sf_begin :: "sf_state \<Rightarrow> sf_state" where
  "sf_begin s = s\<lparr>psLast := False, sfDownloaded := 0, sfSkipped := 0, sfFailed := []\<rparr>"

lemma sf_begin_simps [simp]: "psFs (sf_begin s) = psFs s" "sfFailed (sf_begin s) = []" "sfDownloaded (sf_begin s) = 0"
  by (simp_all add: sf_begin_def)

lemma sf_mirror_simps [simp]: "smProject (sf_mirror_of retries project destDir) = project"
  "smDir (sf_mirror_of retries project destDir) = JoinPath [destDir, project]"
  by (simp_all add: sf_mirror_of_def)

lemma sf_Mirror_cases:
  assumes "sf_Mirror depth w env retries source destDir s = Some (out, s')"
  obtains (refused) "out \<noteq> None" "s' = s"
  | (ran) project root r where "ParseSource source = Inr (project, root)"
      "mirrorRoot depth w env (sf_mirror_of retries project destDir) root (sf_begin s) = Some (r, s')"
      "out = None \<Longrightarrow> r = None \<and> ptLook (env (psTick s')) = None \<and> sfFailed s' = []"
proof (cases "ParseSource source")
  case (Inl e)
  then show thesis using assms refused by (auto simp: sf_Mirror_def)
next
  case (Inr pr)
  obtain project root where pr: "pr = (project, root)" by fastforce
  show thesis
  proof (cases "sf_localPath (JoinPath [project, root])")
    case (Inl e)
    then show thesis using assms refused Inr pr by (auto simp: sf_Mirror_def)
  next
    case loc: (Inr p)
    note run = assms [unfolded sf_Mirror_def Inr pr sum.case prod.case loc Let_def, folded sf_mirror_of_def sf_begin_def]
    show thesis
      by (rule ran [OF Inr [unfolded pr], of "fst (the (mirrorRoot depth w env (sf_mirror_of retries project destDir) root (sf_begin s)))"])
        (use run in \<open>auto split: option.splits prod.splits if_splits\<close>)
  qed
qed

lemma mirrorRoot_cases:
  assumes "mirrorRoot depth w env m root s = Some (r, s')"
  obtains (unlisted) err where "sf_list w env m root s = (Inl err, s')" "r \<noteq> None"
  | (folder) es s1 where "sf_list w env m root s = (Inr es, s1)" "sf_folder w env m depth root es s1 = Some s'" "r = None"
  | (single) s1 where "sf_list w env m root s = (Inl NotFolder, s1)" "root \<noteq> []" "mirror_single w env m root s1 = (r, s')"
proof -
  obtain x s1 where l: "sf_list w env m root s = (x, s1)" by fastforce
  show thesis
  proof (cases x)
    case (Inl err)
    then show thesis using assms l unlisted single by (auto simp: mirrorRoot_def split: if_splits)
  next
    case (Inr es)
    then show thesis using assms l folder by (auto simp: mirrorRoot_def)
  qed
qed

lemma mirror_single_cases:
  assumes "mirror_single w env m root s = (r, s')" and "split_file root = (dir, name)"
  obtains (failed) x where "sf_list w env m dir s = (x, s')" "r \<noteq> None"
  | (found) es s1 e where "sf_list w env m dir s = (Inr es, s1)" "find (\<lambda>e. seName e = name \<and> seType e = ''f'') es = Some e"
      "s' = sf_file w env m dir e s1" "r = None"
proof -
  obtain x s1 where l: "sf_list w env m dir s = (x, s1)" by fastforce
  show thesis
  proof (cases x)
    case (Inl err)
    then show thesis using assms l failed by (auto simp: mirror_single_def)
  next
    case (Inr es)
    then show thesis using assms l failed found
      by (cases "find (\<lambda>e. seName e = name \<and> seType e = ''f'') es") (auto simp: mirror_single_def)
  qed
qed

lemma clean_end:
  assumes "cancel_lasts env" and "ptLook (env (psTick s)) = None" and "sfFailed s = []"
  shows "clean_run env s"
  using assms unfolding cancel_lasts_def clean_run_def by blast

text \<open>What a run without an error has: all of the folder the source names, or the one file it names.\<close>

definition sf_all :: "sf_world \<Rightarrow> (path \<Rightarrow> sf_entry list) \<Rightarrow> sf_mirror \<Rightarrow> path \<Rightarrow> fs \<Rightarrow> bool" where
  "sf_all w L m root f \<longleftrightarrow> (\<forall>dir e. in_site L root (L root) dir e \<and> sf_wanted e \<and> sf_apart L m root (L root) dir e \<longrightarrow> sf_has w m dir e f)"

definition sf_one :: "sf_world \<Rightarrow> (path \<Rightarrow> sf_entry list) \<Rightarrow> sf_mirror \<Rightarrow> path \<Rightarrow> fs \<Rightarrow> bool" where
  "sf_one w L m root f \<longleftrightarrow> (case split_file root of (dir, name) \<Rightarrow>
     case find (\<lambda>e. seName e = name \<and> seType e = ''f'') (L dir) of Some e \<Rightarrow> sf_wanted e \<longrightarrow> sf_has w m dir e f | None \<Rightarrow> False)"

lemma mirrorRoot_complete:
  assumes "mirrorRoot depth w env m root s = Some (None, s')" and steady: "sf_steady w env (smProject m) L"
    and dead: "\<And>msg. \<not> swDeadline w msg" and clean: "clean_run env s'"
  shows "sf_all w L m root (psFs s') \<or> root \<noteq> [] \<and> sf_one w L m root (psFs s')"
  using assms(1)
proof (cases rule: mirrorRoot_cases)
  case (folder es s1)
  have "es = L root" by (rule sf_list_steady [OF folder(1) steady])
  then show ?thesis using sf_folder_has [OF folder(2) steady dead clean] unfolding sf_all_def by blast
next
  case (single s1)
  obtain dir name where sp: "split_file root = (dir, name)" by fastforce
  from single(3) sp show ?thesis
  proof (cases rule: mirror_single_cases)
    case (found es s2 e)
    have "es = L dir" by (rule sf_list_steady [OF found(1) steady])
    then show ?thesis using found(2) sf_file_has [OF clean [unfolded found(3)] _ dead] single(2) sp found(3)
      by (simp add: sf_one_def)
  qed simp
qed simp

lemma sf_run_complete:
  assumes "sf_Mirror depth w env retries source destDir s = Some (None, s')" and "ParseSource source = Inr (project, root)"
    and "sf_steady w env project L" and "cancel_lasts env" and "\<And>msg. \<not> swDeadline w msg"
  shows "let m = sf_mirror_of retries project destDir in sf_all w L m root (psFs s') \<or> root \<noteq> [] \<and> sf_one w L m root (psFs s')"
  using assms(1)
proof (cases rule: sf_Mirror_cases)
  case (ran project' root' r)
  then have "project' = project" "root' = root" using assms(2) by simp_all
  moreover have "r = None" "clean_run env s'" using ran(3) clean_end [OF assms(4)] by simp_all
  ultimately show ?thesis
    using mirrorRoot_complete [OF _ _ assms(5)] ran(2) assms(3) by (simp add: Let_def)
qed simp


subsection \<open>Places of whole runs\<close>

lemma project_groups_plain: "project_groups s = Some (g, q) \<Longrightarrow> plain_elem g"
proof -
  assume h: "project_groups s = Some (g, q)"
  then have g: "g = takeWhile is_project_char s" "g \<noteq> []" "is_alnum (hd g)"
    by (auto simp: project_groups_def Let_def split: if_splits list.splits)
  have "\<not> is_alnum (CHR ''.'')" "\<not> is_project_char (CHR ''/'')" by code_simp+
  then have "slash \<notin> set g" "hd g \<noteq> CHR ''.''" using g by (auto simp: slash_def dest: set_takeWhileD)
  then show ?thesis using g(2) by (auto simp: plain_elem_def)
qed

lemma source_match_groups: "source_match u = Some (project, r) \<Longrightarrow> \<exists>s q. project_groups s = Some (project, q)"
proof -
  have re: "\<exists>s q. project_groups s = Some (project, q)" if "projectRe p = Some (project, q) \<or> downloadRe p = Some (project, q)" for p q
    using that unfolding projectRe_def downloadRe_def by (metis option.distinct(1))
  have "\<exists>s q. project_groups s = Some (project, q)" if m: "site_match p = Some (project, r)" for p
  proof (cases "projectRe p")
    case (Some gq)
    then obtain q where "gq = (project, q)" using m by (cases gq) (simp add: site_match_def split: if_splits)
    then show ?thesis using re Some by blast
  qed (use m in \<open>simp add: site_match_def\<close>)
  then show "source_match u = Some (project, r) \<Longrightarrow> \<exists>s q. project_groups s = Some (project, q)"
    unfolding source_match_def Let_def using re by (metis option.distinct(1))
qed

lemma ParseSource_groups:
  assumes "ParseSource source = Inr (project, root)"
  shows "\<exists>s q. project_groups s = Some (project, q)" and "\<exists>r. root = Trim r ''/''"
    and "\<not> list_ex (\<lambda>e. e = ''.'' \<or> e = ''..'') (Split root (CHR ''/''))"
proof -
  obtain u where u: "Parse source = Inr u" "Scheme u = ''http'' \<or> Scheme u = ''https''"
    using assms by (cases "Parse source") (simp_all add: ParseSource_def split: if_splits)
  obtain r where m: "source_match u = Some (project, r)" "root = Trim r ''/''"
      "\<not> list_ex (\<lambda>e. e = ''.'' \<or> e = ''..'') (Split root (CHR ''/''))"
  proof (cases "source_match u")
    case None
    then show ?thesis using assms u that by (auto simp: ParseSource_def)
  next
    case (Some pr)
    then show ?thesis using assms u that by (cases pr) (auto simp: ParseSource_def Let_def split: if_splits)
  qed
  then show "\<exists>s q. project_groups s = Some (project, q)" "\<exists>r. root = Trim r ''/''"
    "\<not> list_ex (\<lambda>e. e = ''.'' \<or> e = ''..'') (Split root (CHR ''/''))" using source_match_groups by blast+
qed

lemma ParseSource_project: "ParseSource source = Inr (project, root) \<Longrightarrow> plain_elem project"
  using ParseSource_groups(1) project_groups_plain by blast

lemma Trim_last: "Trim r ''/'' = a @ b \<Longrightarrow> b \<noteq> [] \<Longrightarrow> last b \<noteq> CHR ''/''"
proof -
  assume h: "Trim r ''/'' = a @ b" "b \<noteq> []"
  define d where "d = dropWhile (\<lambda>c. c \<in> set ''/'') (rev (trim_left_by (\<lambda>c. c \<in> set ''/'') r))"
  have r: "rev d = a @ b" using h(1) by (simp add: Trim_def trim_right_by_def d_def)
  then have "d \<noteq> []" and "hd d = last b" using h(2) by (auto simp: hd_rev [symmetric] rev_swap)
  then show "last b \<noteq> CHR ''/''" using hd_dropWhile [of "\<lambda>c. c \<in> set ''/''"] unfolding d_def by fastforce
qed

lemma split_file_plain:
  assumes "ParseSource source = Inr (project, root)" and "root \<noteq> []" and "split_file root = (dir, name)"
  shows "plain_elem name"
proof -
  obtain r where r: "root = Trim r ''/''" using ParseSource_groups(2) [OF assms(1)] by blast
  have parts: "e \<noteq> ''.'' \<and> e \<noteq> ''..''" if "e \<in> set (Split root slash)" for e
    using ParseSource_groups(3) [OF assms(1)] that by (auto simp: list_ex_iff slash_def)
  show ?thesis
  proof (cases "slash \<in> set root")
    case False
    then have "LastIndexByte root (CHR ''/'') = None" unfolding slash_def by (induction root) auto
    then have "name = root" using assms(3) by (simp add: split_file_def)
    then show ?thesis using False assms(2) parts Split_id [of slash root] by (simp add: plain_elem_def)
  next
    case True
    then obtain a b where ab: "root = a @ slash # b" "slash \<notin> set b" using split_list_last by metis
    then have "LastIndexByte root (CHR ''/'') = Some (length a)" using LastIndexByte_last [OF ab(2), of a] by (simp add: slash_def)
    then have n: "name = b" using assms(3) ab(1) by (simp add: split_file_def)
    have "b \<noteq> []" using Trim_last [of r a "[slash]"] r ab(1) by (auto simp: slash_def)
    moreover have "b \<in> set (Split root slash)" unfolding ab(1) Split_app_slash using Split_id [OF ab(2)] by simp
    ultimately show ?thesis using ab(2) parts n by (auto simp: plain_elem_def)
  qed
qed

lemma mirrorRoot_changes:
  assumes "mirrorRoot depth w env m root s = Some (r, s')" and "ParseSource source = Inr (smProject m, root)" and dir: "smDir m \<noteq> []"
  shows "project_changes env (smProject m) (clean_elems (smDir m)) (psFs s) (psFs s')"
  using assms(1)
proof (cases rule: mirrorRoot_cases)
  case (unlisted err)
  then show ?thesis using sf_list_same [OF unlisted(1)] by (simp add: confined.same)
next
  case (folder es s1)
  then show ?thesis using sf_list_same [OF folder(1)] sf_folder_changes [OF folder(2) dir] by simp
next
  case (single s1)
  obtain d name where sp: "split_file root = (d, name)" by fastforce
  from single(3) sp show ?thesis
  proof (cases rule: mirror_single_cases)
    case (failed x)
    then show ?thesis using sf_list_same [OF single(1)] sf_list_same [OF failed(1)] by (simp add: confined.same)
  next
    case (found es s2 e)
    have "seName e = name" using found(2) by (auto simp: find_Some_iff)
    then have "plain_elem (seName e)" using split_file_plain [OF assms(2) single(2) sp] by simp
    then show ?thesis using sf_list_same [OF single(1)] sf_list_same [OF found(1)] sf_file_changes [OF dir] found(3) by metis
  qed
qed

text \<open>C36: Whatever the site answers and whatever fails, a run changes only the project's own directory below the destination, besides making
  the directories on the way to it: there it makes directories, writes and removes temporary files, and puts,
  where there is no directory, what an undisturbed download for that path brought.\<close>

theorem sf_writes:
  assumes "sf_Mirror depth w env retries source destDir s = Some (out, s')" and "destDir \<noteq> []"
  shows "case ParseSource source of
      Inl e \<Rightarrow> s' = s
    | Inr (project, root) \<Rightarrow>
        (let D = clean_elems destDir @ [project] in paced_changes sf_tmpSuffix (sf_content env project D) D (psFs s) (psFs s'))"
  using assms(1)
proof (cases rule: sf_Mirror_cases)
  case refused
  then show ?thesis by (simp add: confined.same split: sum.split)
next
  case (ran project root r)
  have pl: "plain_elem project" by (rule ParseSource_project [OF ran(1)])
  have D: "clean_elems (JoinPath [destDir, project]) = clean_elems destDir @ [project]" by (rule entry_elems [OF pl])
  then have ne: "JoinPath [destDir, project] \<noteq> []" by (auto simp: clean_elems_def rooted_def HasPrefix_def)
  show ?thesis using mirrorRoot_changes [OF ran(2), of source] ran(1) ne by (simp add: D Let_def)
qed

subsection \<open>Walks to the end\<close>

text \<open>No folder is deeper than this below.\<close>

primrec shallow :: "(path \<Rightarrow> sf_entry list) \<Rightarrow> nat \<Rightarrow> path \<Rightarrow> sf_entry list \<Rightarrow> bool" where
  "shallow L 0 dir es \<longleftrightarrow> list_all (\<lambda>e. unsafe_name (seName e) \<or> seType e \<noteq> ''d'') es"
| "shallow L (Suc n) dir es \<longleftrightarrow> list_all (\<lambda>e. unsafe_name (seName e) \<or> seType e \<noteq> ''d''
     \<or> shallow L n (JoinPath [dir, seName e]) (L (JoinPath [dir, seName e]))) es"

lemma shallow_tail: "shallow L n dir (e # es) \<Longrightarrow> shallow L n dir es"
  by (cases n) simp_all

lemma shallow_below:
  "shallow L n dir (e # es) \<Longrightarrow> \<not> unsafe_name (seName e) \<Longrightarrow> seType e = ''d''
   \<Longrightarrow> \<exists>k. n = Suc k \<and> shallow L k (JoinPath [dir, seName e]) (L (JoinPath [dir, seName e]))"
  by (cases n) simp_all

lemma sf_folder_ends:
  "sf_steady w env (smProject m) L \<Longrightarrow> shallow L depth dir es \<Longrightarrow> sf_folder w env m depth dir es s \<noteq> None"
proof (induction w env m depth dir es s rule: sf_folder.induct)
  case (2 w env m depth dir e es s)
  note tail = shallow_tail [OF "2.prems"(2)]
  show ?case
  proof (cases "ptLook (env (psTick s)) \<noteq> None \<or> unsafe_name (seName e) \<or> seType e \<noteq> ''d''")
    case True
    then show ?thesis using 2 tail by (auto simp: Let_def)
  next
    case False
    obtain x s1 where l: "sf_list w env m (JoinPath [dir, seName e]) (s\<lparr>psTick := Suc (psTick s)\<rparr>) = (x, s1)" by fastforce
    show ?thesis
    proof (cases x)
      case (Inl err)
      then show ?thesis using "2.IH"(2) "2.prems"(1) False l tail by (auto simp: Let_def)
    next
      case (Inr sub)
      obtain k where k: "depth = Suc k" "shallow L k (JoinPath [dir, seName e]) (L (JoinPath [dir, seName e]))"
        using shallow_below [OF "2.prems"(2)] False by blast
      have "sub = L (JoinPath [dir, seName e])" by (rule sf_list_steady [OF l [unfolded Inr] "2.prems"(1)])
      then have "sf_folder w env m k (JoinPath [dir, seName e]) sub s1 \<noteq> None"
        using "2.IH"(3) "2.prems"(1) False l Inr k by auto
      then show ?thesis using "2.IH"(4) "2.prems"(1) False l Inr k(1) tail by (auto simp: Let_def)
    qed
  qed
qed simp

lemma sf_run_ends:
  assumes "sf_steady w env project L" and "ParseSource source = Inr (project, root)" and "shallow L depth root (L root)"
  shows "\<exists>out s'. sf_Mirror depth w env retries source destDir s = Some (out, s')"
proof -
  let ?m = "sf_mirror_of retries project destDir"
  have st: "sf_steady w env (smProject ?m) L" using assms(1) by simp
  have "mirrorRoot depth w env ?m root (sf_begin s) \<noteq> None"
  proof -
    obtain x s1 where l: "sf_list w env ?m root (sf_begin s) = (x, s1)" by fastforce
    show ?thesis
    proof (cases x)
      case (Inr es)
      have "es = L root" by (rule sf_list_steady [OF l [unfolded Inr] st])
      then show ?thesis using sf_folder_ends [OF st] assms(3) l Inr by (simp add: mirrorRoot_def)
    qed (use l in \<open>simp add: mirrorRoot_def\<close>)
  qed
  then have "sf_Mirror depth w env retries source destDir s \<noteq> None"
    using assms(2) by (auto simp: sf_Mirror_def Let_def sf_mirror_of_def sf_begin_def split: sum.splits option.splits prod.splits)
  then show ?thesis by (cases "sf_Mirror depth w env retries source destDir s") auto
qed

text \<open>A run ends, whatever fails, on a site whose listings do not change and whose folders are not nested deeper than some bound.\<close>

theorem sf_terminates:
  assumes "sf_steady w env project L" and "ParseSource source = Inr (project, root)" and "shallow L depth root (L root)"
  shows "\<exists>out s'. sf_Mirror depth w env retries source destDir s = Some (out, s')"
  by (rule sf_run_ends [OF assms])

subsection \<open>Running again\<close>

lemma sf_file_idle:
  assumes "sf_wanted e \<Longrightarrow> sf_has w m dir e (psFs s)" and "seType e = ''f''" and "\<not> unsafe_name (seName e)"
  shows "psFs (sf_file w env m dir e s) = psFs s \<and> sfDownloaded (sf_file w env m dir e s) = sfDownloaded s"
proof (cases rule: sf_file_cases [of e w env m dir s])
  case (unsafe err)
  then show ?thesis by (simp add: sf_fail_def)
next
  case (tried res s1)
  then have "seLink e \<noteq> [] \<or> \<not> seDownloadable e" using assms unfolding sf_wanted_def by blast
  then have "sf_file w env m dir e s = s" by (simp add: sf_file_def)
  then show ?thesis by simp
qed simp_all

lemma list_downloaded: "sf_list w env m dir s = (x, s') \<Longrightarrow> sfDownloaded s' = sfDownloaded s"
proof -
  assume "sf_list w env m dir s = (x, s')"
  then have "pstate.more s' = pstate.more s" unfolding sf_list_def by (rule with_retries_more [OF _ fetchListing_plain])
  then show ?thesis by (cases s; cases s') simp
qed

lemma sf_folder_idle:
  assumes "sf_folder w env m depth dir es s = Some s'" and steady: "sf_steady w env (smProject m) L"
    and "\<And>dir' e'. in_site L dir es dir' e' \<Longrightarrow> sf_wanted e' \<Longrightarrow> sf_has w m dir' e' (psFs s)"
  shows "psFs s' = psFs s \<and> sfDownloaded s' = sfDownloaded s"
  using assms(1,3)
proof (induction rule: sf_folder_induct)
  case (unsafe depth dir e es s s' err)
  have "\<And>dir' e'. in_site L dir es dir' e' \<Longrightarrow> in_site L dir (e # es) dir' e'" by (erule in_site_mono) auto
  then show ?case using unsafe by (simp add: sf_fail_def)
next
  case (unlisted depth dir e es s s' err s1)
  have "\<And>dir' e'. in_site L dir es dir' e' \<Longrightarrow> in_site L dir (e # es) dir' e'" by (erule in_site_mono) auto
  then show ?case using unlisted sf_list_same [OF unlisted(3)] list_downloaded [OF unlisted(3)] by (simp add: sf_fail_def)
next
  case (entered depth dir e es s s' sub s1 s2 n)
  have tail: "\<And>dir' e'. in_site L dir es dir' e' \<Longrightarrow> in_site L dir (e # es) dir' e'" by (erule in_site_mono) auto
  have "sub = L (JoinPath [dir, seName e])" by (rule sf_list_steady [OF entered(4) steady])
  then have "\<And>dir' e'. in_site L (JoinPath [dir, seName e]) sub dir' e' \<Longrightarrow> in_site L dir (e # es) dir' e'"
    using in_site.below [of e "e # es" L dir] entered(1,2) by simp
  then show ?case using entered sf_list_same [OF entered(4)] list_downloaded [OF entered(4)] tail by simp
next
  case (regular depth dir e es s s')
  have tail: "\<And>dir' e'. in_site L dir es dir' e' \<Longrightarrow> in_site L dir (e # es) dir' e'" by (erule in_site_mono) auto
  have "in_site L dir (e # es) dir e" by (rule in_site.here) simp
  then have "psFs (sf_file w env m dir e (s\<lparr>psTick := Suc (psTick s)\<rparr>)) = psFs s
      \<and> sfDownloaded (sf_file w env m dir e (s\<lparr>psTick := Suc (psTick s)\<rparr>)) = sfDownloaded s"
    using sf_file_idle [of e w m dir "s\<lparr>psTick := Suc (psTick s)\<rparr>" env] regular(1,2) regular.prems by simp
  then show ?case using regular tail by simp
next
  case (other depth dir e es s s')
  have "\<And>dir' e'. in_site L dir es dir' e' \<Longrightarrow> in_site L dir (e # es) dir' e'" by (erule in_site_mono) auto
  then show ?case using other by simp
qed simp_all

text \<open>C37: After a run that mirrored a whole project without an error, another run against the same listings downloads
  nothing and leaves the file system as it is, whatever fails in it.\<close>

theorem sf_rerun:
  assumes "sf_Mirror depth w env retries source destDir s = Some (None, s1)" and "ParseSource source = Inr (project, [])"
    and "sf_steady w env project L" and "cancel_lasts env" and "\<And>msg. \<not> swDeadline w msg"
    and "\<And>dir e. in_site L [] (L []) dir e \<Longrightarrow> sf_wanted e \<Longrightarrow> sf_apart L (sf_mirror_of retries project destDir) [] (L []) dir e"
    and again: "sf_Mirror depth' w env' retries source destDir s1 = Some (out, s2)" and "sf_steady w env' project L"
  shows "psFs s2 = psFs s1 \<and> (s2 = s1 \<or> sfDownloaded s2 = 0)"
  using again
proof (cases rule: sf_Mirror_cases)
  case (ran project' root' r)
  let ?m = "sf_mirror_of retries project destDir"
  have p: "project' = project" "root' = []" using ran(1) assms(2) by simp_all
  have st: "sf_steady w env' (smProject ?m) L" using assms(8) by simp
  have all: "sf_has w ?m dir e (psFs s1)" if "in_site L [] (L []) dir e" "sf_wanted e" for dir e
    using sf_run_complete [OF assms(1-4) assms(5)] assms(6) that by (auto simp: Let_def sf_all_def)
  from ran(2) [unfolded p] have "psFs s2 = psFs (sf_begin s1) \<and> sfDownloaded s2 = sfDownloaded (sf_begin s1)"
  proof (cases rule: mirrorRoot_cases)
    case (unlisted err)
    then show ?thesis using sf_list_same [OF unlisted(1)] list_downloaded [OF unlisted(1)] by simp
  next
    case (folder es t)
    have "es = L []" by (rule sf_list_steady [OF folder(1) st])
    then show ?thesis using sf_folder_idle [OF folder(2) st] all sf_list_same [OF folder(1)] list_downloaded [OF folder(1)] by simp
  qed simp
  then show ?thesis by simp
qed simp

end
