(* ===== verification/SourceForgeSite.thy ===== *)
theory SourceForgeSite
  imports SourceForgeProps PacerSite
begin

text \<open>
  A small project on SourceForge, on which the theorems about runs are put to use, and a server that does not answer in
  time.
\<close>

subsection \<open>A project\<close>

definition demo_sf :: sf_world where
  "demo_sf = \<lparr>swMd5 = (\<lambda>x. ''m'' @ x), swOrder = (\<lambda>es. es), swDeadline = (\<lambda>_. False)\<rparr>"

definition sf_regular :: "string \<Rightarrow> string \<Rightarrow> sf_entry" where
  "sf_regular name md5 = \<lparr>seName = name, seType = ''f'', seLink = [], seMD5 = md5, seDownloadable = True\<rparr>"

definition sf_subfolder :: "string \<Rightarrow> sf_entry" where
  "sf_subfolder name = \<lparr>seName = name, seType = ''d'', seLink = [], seMD5 = [], seDownloadable = False\<rparr>"

definition top_entries :: "sf_entry list" where
  "top_entries = [sf_regular ''a'' ''MABC'', sf_subfolder ''v1'']"

definition below_entries :: "sf_entry list" where
  "below_entries = [sf_regular ''b'' []]"

definition proj_url :: string where "proj_url = ''https://sourceforge.net/projects/p/files/''"

definition proj_pages :: "(string \<times> string) list" where
  "proj_pages = [(proj_url, backquoted ''<script>net.sf.files = {`v1`:{`name`:`v1`,`type`:`d`},`a`:{`name`:`a`,`type`:`f`,`md5`:`MABC`,`downloadable`:true}};''),
     (proj_url @ ''v1/'', backquoted ''net.sf.files = {`b`:{`name`:`b`,`type`:`f`,`downloadable`:true}}''),
     (''https://downloads.sourceforge.net/project/p/a'', ''abc''), (''https://downloads.sourceforge.net/project/p/v1/b'', ''hello'')]"

definition proj_env :: pturns where "proj_env n = paced_calm proj_pages"

definition sf_start :: "fs \<Rightarrow> sf_state" where
  "sf_start f = \<lparr>psFs = f, psTick = 0, psLast = False, psDelays = [], psRequests = 0, sfDownloaded = 0, sfSkipped = 0, sfFailed = []\<rparr>"

abbreviation proj_run :: "(string option \<times> sf_state) option" where
  "proj_run \<equiv> sf_Mirror 1 demo_sf proj_env 5 ''https://sourceforge.net/projects/p/'' ''/d'' (sf_start Map.empty)"

lemma proj_run_ends: "case proj_run of Some (e, s) \<Rightarrow> e = None \<and> sfDownloaded s = 2 \<and> psRequests s = 4
    \<and> map (psFs s) [[''d'', ''p'', ''a''], [''d'', ''p'', ''v1'', ''b'']] = [Some (File ''abc''), Some (File ''hello'')] | None \<Rightarrow> False"
  by code_simp

lemma proj_run_some:
  obtains s where "proj_run = Some (None, s)"
  using proj_run_ends that by (simp split: option.splits prod.splits)

lemma proj_source: "ParseSource ''https://sourceforge.net/projects/p/'' = Inr (''p'', [])"
  by code_simp

definition proj_site :: "path \<Rightarrow> sf_entry list" where
  "proj_site dir = (if listURL ''p'' dir = proj_url then top_entries else if listURL ''p'' dir = proj_url @ ''v1/'' then below_entries else [])"

lemma proj_listings: "parseListing (swOrder demo_sf) (the (map_of proj_pages proj_url)) = Inr top_entries"
    "parseListing (swOrder demo_sf) (the (map_of proj_pages (proj_url @ ''v1/''))) = Inr below_entries"
  by code_simp+

lemma proj_steady: "sf_steady demo_sf proj_env ''p'' proj_site"
  unfolding sf_steady_def
proof (intro allI impI)
  fix n dir r es
  assume r: "ptDo (proj_env n) False (listURL ''p'' dir) = Inr r" "rpStatus r = 200" and es: "parseListing (swOrder demo_sf) (rpBody r) = Inr es"
  have u: "listURL ''p'' dir \<noteq> ''https://downloads.sourceforge.net'' @ y" for y by (simp add: listURL_def)
  obtain x where x: "map_of proj_pages (listURL ''p'' dir) = Some x" "r = paced_page x"
    using r by (auto simp: proj_env_def paced_calm_def paced_failure_def paced_page_def split: option.splits)
  have "listURL ''p'' dir = proj_url \<or> listURL ''p'' dir = proj_url @ ''v1/''"
    using x(1) u [of "''/project/p/a''"] u [of "''/project/p/v1/b''"] unfolding proj_pages_def by (auto split: if_splits)
  then show "es = proj_site dir"
    using x es proj_listings by (auto simp: proj_site_def paced_page_def)
qed

lemma proj_lasts: "cancel_lasts proj_env"
  by (simp add: cancel_lasts_def cancelled_turn_def proj_env_def paced_calm_def)

lemma proj_deadline: "\<not> swDeadline demo_sf msg"
  by (simp add: demo_sf_def)

lemma proj_site_at: "proj_site [] = top_entries" "proj_site ''v1'' = below_entries" "JoinPath [[], ''v1''] = ''v1''"
  by code_simp+

lemma proj_shallow: "shallow proj_site 1 [] (proj_site [])"
proof -
  have "seName (sf_subfolder ''v1'') = ''v1''" by (simp add: sf_subfolder_def)
  then show ?thesis using proj_site_at
    by (simp add: top_entries_def below_entries_def sf_regular_def)
qed

lemma proj_inside:
  assumes "in_site proj_site [] (proj_site []) dir e"
  shows "(dir = [] \<and> e \<in> set top_entries) \<or> (dir = ''v1'' \<and> e \<in> set below_entries)"
proof -
  have none: "\<not> in_site proj_site d [] dir' e'" for d dir' e' by (auto elim: in_site_cases)
  have t: "seType (sf_regular n h) = ''f''" for n h by (simp add: sf_regular_def)
  have n: "seName (sf_subfolder ''v1'') = ''v1''" by (simp add: sf_subfolder_def)
  have below: "dir = ''v1'' \<and> e \<in> set below_entries" if "in_site proj_site ''v1'' below_entries dir e"
    using in_site_Cons [OF that [unfolded below_entries_def]] none t by (auto simp: below_entries_def)
  from assms have 1: "in_site proj_site [] (sf_regular ''a'' ''MABC'' # [sf_subfolder ''v1'']) dir e"
    unfolding proj_site_at by (simp add: top_entries_def)
  from in_site_Cons [OF 1] show ?thesis
  proof (elim disjE conjE)
    assume "in_site proj_site [] [sf_subfolder ''v1''] dir e"
    from in_site_Cons [OF this] show ?thesis using none below n proj_site_at by (auto simp: top_entries_def)
  qed (use t in \<open>auto simp: top_entries_def\<close>)
qed

abbreviation proj_mirror :: sf_mirror where
  "proj_mirror \<equiv> sf_mirror_of 5 ''p'' ''/d''"

lemma proj_keys:
  "clean_elems (sf_place proj_mirror [] (sf_regular ''a'' ''MABC'')) = [''d'', ''p'', ''a'']"
  "clean_elems (sf_place proj_mirror ''v1'' (sf_regular ''b'' [])) = [''d'', ''p'', ''v1'', ''b'']"
  "clean_elems (sf_place proj_mirror [] (sf_regular ''a'' ''MABC'') @ sf_tmpSuffix) = [''d'', ''p'', ''a.sourceforge-tmp'']"
  "clean_elems (sf_place proj_mirror ''v1'' (sf_regular ''b'' []) @ sf_tmpSuffix) = [''d'', ''p'', ''v1'', ''b.sourceforge-tmp'']"
  by code_simp+

lemma proj_wanted:
  assumes "in_site proj_site [] (proj_site []) dir e" and "sf_wanted e"
  shows "(dir = [] \<and> e = sf_regular ''a'' ''MABC'') \<or> (dir = ''v1'' \<and> e = sf_regular ''b'' [])"
  using proj_inside [OF assms(1)] assms(2) by (auto simp: top_entries_def below_entries_def sf_wanted_def sf_subfolder_def)

lemma proj_apart:
  assumes "in_site proj_site [] (proj_site []) dir e" and "sf_wanted e"
  shows "sf_apart proj_site proj_mirror [] (proj_site []) dir e"
  unfolding sf_apart_def
proof (intro allI impI)
  fix dir1 e1
  assume "in_site proj_site [] (proj_site []) dir1 e1" "sf_wanted e1" and ne: "(dir1, e1) \<noteq> (dir, e)"
  from proj_wanted [OF this(1,2)] proj_wanted [OF assms] ne
  show "clean_elems (sf_place proj_mirror dir e) \<notin> sf_places proj_mirror dir1 e1"
    by (elim disjE conjE) (simp_all add: proj_keys sf_places_def two_places_def)
qed


theorem sf_writes_witness:
  "case proj_run of Some (_, s) \<Rightarrow> \<forall>k. paced_allowed sf_tmpSuffix (sf_content proj_env ''p'' [''d'', ''p'']) [''d'', ''p''] k None (psFs s k) | _ \<Rightarrow> False"
proof -
  obtain s where s: "proj_run = Some (None, s)" by (rule proj_run_some)
  have d: "clean_elems ''/d'' = [''d'']" by code_simp
  have ne: "''/d'' \<noteq> ([] :: string)" by simp
  show ?thesis using sf_writes [OF s ne] s unfolding proj_source
    by (simp add: d Let_def paced_changes_def sf_start_def)
qed

theorem sf_terminates_witness: "\<exists>out s. sf_Mirror 1 demo_sf proj_env 0 ''https://sourceforge.net/projects/p/'' ''/e'' (sf_start Map.empty) = Some (out, s)"
  by (rule sf_terminates [OF proj_steady proj_source proj_shallow])

theorem sf_rerun_witness:
  "\<exists>s1 out s2. proj_run = Some (None, s1) \<and> sf_Mirror 1 demo_sf proj_env 5 ''https://sourceforge.net/projects/p/'' ''/d'' s1 = Some (out, s2) \<and> psFs s2 = psFs s1"
proof -
  obtain s1 where s: "proj_run = Some (None, s1)" by (rule proj_run_some)
  obtain out s2 where 2: "sf_Mirror 1 demo_sf proj_env 5 ''https://sourceforge.net/projects/p/'' ''/d'' s1 = Some (out, s2)"
    using sf_run_ends [OF proj_steady proj_source proj_shallow] by blast
  show ?thesis
    using s 2 sf_rerun [OF s proj_source proj_steady proj_lasts proj_deadline proj_apart 2 proj_steady] by blast
qed

subsection \<open>Where it goes wrong\<close>

definition slow_turn :: pturn where
  "slow_turn = (paced_calm []) \<lparr>ptDo := (\<lambda>follow u. if follow then Inl ''net/http: timeout awaiting response headers''
        else Inr (paced_page (backquoted ''net.sf.files = {`a`:{`name`:`a`,`type`:`f`,`downloadable`:true}}'')))\<rparr>"


end
