(* ===== verification/GoGlob.thy ===== *)
theory GoGlob
  imports GoFS
begin

text \<open>
  \<open>filepath.Match\<close> and \<open>filepath.Glob\<close>, as far as bytes are concerned: a pattern is parsed into pieces first,
  and \<open>None\<close> is \<open>ErrBadPattern\<close>. What is in a directory is looked up among a list of names that covers the file system.
\<close>

subsection \<open>Patterns\<close>

datatype glob_piece = Star | AnyByte | ByteClass bool "(char \<times> char) list" | Byte char

text \<open>\<open>getEsc\<close>: one byte of a class, possibly quoted; something has to follow.\<close>

definition getEsc :: "string \<Rightarrow> (char \<times> string) option" where
  "getEsc s =
    (case s of
       [] \<Rightarrow> None
     | c # r \<Rightarrow>
        if c = CHR ''-'' \<or> c = CHR '']'' then None
        else if c = CHR 0x5C then (case r of d # e # t \<Rightarrow> Some (d, e # t) | _ \<Rightarrow> None)
        else if r = [] then None else Some (c, r))"

fun class_ranges :: "nat \<Rightarrow> (char \<times> char) list \<Rightarrow> string \<Rightarrow> ((char \<times> char) list \<times> string) option" where
  "class_ranges 0 rs s = None"
| "class_ranges (Suc n) rs s =
    (if s \<noteq> [] \<and> hd s = CHR '']'' \<and> rs \<noteq> [] then Some (rs, tl s)
     else (case getEsc s of
        None \<Rightarrow> None
      | Some (lo, t) \<Rightarrow>
         if t \<noteq> [] \<and> hd t = CHR ''-''
         then (case getEsc (tl t) of None \<Rightarrow> None | Some (hi, u) \<Rightarrow> class_ranges n (rs @ [(lo, hi)]) u)
         else class_ranges n (rs @ [(lo, lo)]) t))"

fun glob_parse :: "nat \<Rightarrow> string \<Rightarrow> glob_piece list option" where
  "glob_parse n [] = Some []"
| "glob_parse 0 (c # s) = None"
| "glob_parse (Suc n) (c # s) =
    (if c = CHR ''*'' then map_option (Cons Star) (glob_parse n s)
     else if c = CHR ''?'' then map_option (Cons AnyByte) (glob_parse n s)
     else if c = CHR ''['' then
       (let neg = (s \<noteq> [] \<and> hd s = CHR ''^'') in
        case class_ranges (length s) [] (if neg then tl s else s) of
          None \<Rightarrow> None
        | Some (rs, t) \<Rightarrow> map_option (Cons (ByteClass neg rs)) (glob_parse n t))
     else if c = CHR 0x5C then (case s of [] \<Rightarrow> None | d # t \<Rightarrow> map_option (Cons (Byte d)) (glob_parse n t))
     else map_option (Cons (Byte c)) (glob_parse n s))"

definition glob_pieces :: "string \<Rightarrow> glob_piece list option" where
  "glob_pieces p = glob_parse (length p) p"

definition in_class :: "bool \<Rightarrow> (char \<times> char) list \<Rightarrow> char \<Rightarrow> bool" where
  "in_class neg rs c \<longleftrightarrow> list_ex (\<lambda>(lo, hi). (of_char lo :: nat) \<le> of_char c \<and> (of_char c :: nat) \<le> of_char hi) rs \<noteq> neg"

fun glob_match :: "glob_piece list \<Rightarrow> string \<Rightarrow> bool" where
  "glob_match [] s = (s = [])"
| "glob_match (Star # ps) [] = glob_match ps []"
| "glob_match (Star # ps) (c # s) = (glob_match ps (c # s) \<or> (c \<noteq> slash \<and> glob_match (Star # ps) s))"
| "glob_match (AnyByte # ps) (c # s) = (c \<noteq> slash \<and> glob_match ps s)"
| "glob_match (ByteClass neg rs # ps) (c # s) = (in_class neg rs c \<and> glob_match ps s)"
| "glob_match (Byte b # ps) (c # s) = (b = c \<and> glob_match ps s)"
| "glob_match _ [] = False"

text \<open>\<open>filepath.Match\<close>\<close>

definition Match :: "string \<Rightarrow> string \<Rightarrow> bool option" where
  "Match p s = map_option (\<lambda>ps. glob_match ps s) (glob_pieces p)"

subsection \<open>Files\<close>

definition hasMeta :: "string \<Rightarrow> bool" where
  "hasMeta p \<longleftrightarrow> ContainsAny p [CHR ''*'', CHR ''?'', CHR ''['', CHR 0x5C]"

definition dir_names :: "key list \<Rightarrow> fs \<Rightarrow> path \<Rightarrow> string list" where
  "dir_names names f d =
    (if node_at d f = Some Dir \<or> clean_elems d = []
     then remdups (map last (filter (\<lambda>k. k \<noteq> [] \<and> butlast k = clean_elems d \<and> f k \<noteq> None) names))
     else [])"

definition glob_in :: "key list \<Rightarrow> fs \<Rightarrow> path \<Rightarrow> string \<Rightarrow> path list" where
  "glob_in names f d pat = map (\<lambda>n. JoinPath [d, n]) (filter (\<lambda>n. Match pat n = Some True) (dir_names names f d))"

text \<open>\<open>filepath.Split\<close> and \<open>cleanGlobPath\<close>\<close>

definition glob_split :: "string \<Rightarrow> path \<times> string" where
  "glob_split p = (case LastIndexByte p slash of None \<Rightarrow> (''.'', p) | Some i \<Rightarrow> (if i = 0 then [slash] else take i p, drop (Suc i) p))"

fun glob_from :: "nat \<Rightarrow> key list \<Rightarrow> fs \<Rightarrow> string \<Rightarrow> path list option" where
  "glob_from 0 names f p = None"
| "glob_from (Suc n) names f p =
    (if glob_pieces p = None then None
     else if \<not> hasMeta p then Some (if node_at p f \<noteq> None \<or> clean_elems p = [] then [p] else [])
     else (case glob_split p of (d, pat) \<Rightarrow>
        if \<not> hasMeta d then Some (glob_in names f d pat)
        else if d = p then None
        else map_option (\<lambda>ds. concat (map (\<lambda>d. glob_in names f d pat) ds)) (glob_from n names f d)))"

definition Glob :: "key list \<Rightarrow> fs \<Rightarrow> string \<Rightarrow> path list option" where
  "Glob names f p = glob_from (Suc (length p)) names f p"

subsection \<open>A fixed text followed by a star\<close>

definition plain_bytes :: "string \<Rightarrow> bool" where
  "plain_bytes s \<longleftrightarrow> \<not> hasMeta s"

lemma plain_bytes_Cons: "plain_bytes (c # s) \<longleftrightarrow> c \<notin> {CHR ''*'', CHR ''?'', CHR ''['', CHR 0x5C} \<and> plain_bytes s"
  by (auto simp: plain_bytes_def hasMeta_def ContainsAny_def)

lemma glob_parse_plain: "plain_bytes s \<Longrightarrow> length s < n \<Longrightarrow> glob_parse n (s @ ''*'') = Some (map Byte s @ [Star])"
proof (induction s arbitrary: n)
  case Nil
  then show ?case by (cases n) simp_all
next
  case (Cons c s)
  then show ?case by (cases n) (simp_all add: plain_bytes_Cons)
qed

lemma glob_match_star: "glob_match [Star] s \<longleftrightarrow> slash \<notin> set s"
  by (induction s) (auto simp: slash_def)

lemma glob_match_plain: "glob_match (map Byte p @ [Star]) s \<longleftrightarrow> HasPrefix s p \<and> slash \<notin> set (drop (length p) s)"
proof (induction p arbitrary: s)
  case Nil
  then show ?case by (simp add: glob_match_star HasPrefix_def)
next
  case (Cons c p)
  then show ?case by (cases s) (auto simp: HasPrefix_def)
qed

lemma Match_star: "plain_bytes p \<Longrightarrow> Match (p @ ''*'') s = Some (HasPrefix s p \<and> slash \<notin> set (drop (length p) s))"
  using glob_parse_plain [of p "Suc (length p)"] by (simp add: Match_def glob_pieces_def glob_match_plain)

lemma glob_plain_dir:
  assumes "plain_bytes d" and "plain_bytes p" and "slash \<notin> set p" and "d \<noteq> []"
  shows "Glob names f (d @ slash # p @ ''*'') = Some (glob_in names f d (p @ ''*''))"
proof -
  let ?p = "d @ slash # p"
  have pl: "plain_bytes ?p" using assms(1,2) unfolding plain_bytes_def hasMeta_def ContainsAny_def by (simp add: slash_def)
  have pieces: "glob_pieces (?p @ ''*'') \<noteq> None"
    using glob_parse_plain [OF pl, of "Suc (length ?p)"] by (simp add: glob_pieces_def)
  have meta: "hasMeta (?p @ ''*'')" by (simp add: hasMeta_def ContainsAny_def)
  have "slash \<notin> set (p @ ''*'')" using assms(3) by (simp add: slash_def)
  then have "LastIndexByte (d @ slash # (p @ ''*'')) slash = Some (length d)" by (rule LastIndexByte_last)
  then have sp: "glob_split (d @ slash # p @ ''*'') = (d, p @ ''*'')" using assms(4) by (simp add: glob_split_def)
  show ?thesis using pieces meta assms(1) unfolding Glob_def by (simp add: sp plain_bytes_def)
qed

end
