(* ===== verification/Imap.thy ===== *)
theory Imap
  imports GoGlob "HOL-Library.Word"
begin

text \<open>
  \<open>imap/imap.go\<close>: the mirror of an IMAP account into Maildirs. What the IMAP client library (a third-party package)
  reports of a connection, and the failures of system calls, are taken from an arbitrary sequence of turns; a message is
  the sequence of its data items, as they arrive. UIDs are 32-bit words. Logging is left out.
\<close>

type_synonym uid = "32 word"

datatype imap_flag = FlagDraft | FlagFlagged | FlagForwarded | FlagAnswered | FlagSeen | FlagDeleted | OtherFlag string

text \<open>A literal is what can be read of it, and whether reading ends in an error.\<close>

record literal =
  liData :: string
  liErr :: "string option"

datatype fetch_item = ItemUID uid | ItemFlags "imap_flag list" | ItemBody "literal option" | ItemOther

datatype mailbox_attr = AttrNoSelect | OtherAttr string

record mailbox =
  mbName :: string
  mbDelim :: "char option"
  mbAttrs :: "mailbox_attr list"

record iturn =
  itDial :: "string \<Rightarrow> string option"
  itLogin :: "string option"
  itList :: "string + mailbox list"
  itSelect :: "string \<Rightarrow> string + 32 word"            \<comment> \<open>the UIDVALIDITY of a mailbox\<close>
  itFetch :: "string \<Rightarrow> uid \<Rightarrow> fetch_item list list"   \<comment> \<open>of a mailbox, from a UID on\<close>
  itFetchErr :: "string \<Rightarrow> string option"
  itMkdir :: "path \<Rightarrow> (string \<times> nat) option"
  itRead :: "path \<Rightarrow> string option"
  itMark :: "path \<Rightarrow> (string \<times> nat option) option"     \<comment> \<open>\<open>os.WriteFile\<close> fails, having written that many bytes\<close>
  itCreate :: "string option"
  itWrite :: "string option"
  itClose :: "string option"
  itRename :: "string option"

type_synonym iturns = "nat \<Rightarrow> iturn"

text \<open>The file system, and the keys of everything that may be in it.\<close>

record istate =
  isFs :: fs
  isNames :: "key list"
  isTick :: nat

subsection \<open>Addresses\<close>

text \<open>\<open>net.SplitHostPort\<close>, without the texts of its errors.\<close>

definition SplitHostPort :: "string \<Rightarrow> (string \<times> string) option" where
  "SplitHostPort s =
    (case LastIndexByte s (CHR '':'') of
       None \<Rightarrow> None
     | Some i \<Rightarrow>
        if hd s = CHR ''['' then
          (case IndexByte s (CHR '']'') of
             None \<Rightarrow> None
           | Some e \<Rightarrow>
              if Suc e \<noteq> i \<or> CHR ''['' \<in> set (drop 1 s) \<or> CHR '']'' \<in> set (drop (Suc e) s) then None
              else Some (take (e - 1) (drop 1 s), drop (Suc i) s))
        else if CHR '':'' \<in> set (take i s) \<or> CHR ''['' \<in> set s \<or> CHR '']'' \<in> set s then None
        else Some (take i s, drop (Suc i) s))"

definition joinHostPort :: "string \<Rightarrow> string \<Rightarrow> string" where
  "joinHostPort h p = (if CHR '':'' \<in> set h then ''['' @ h @ '']:'' @ p else h @ '':'' @ p)"

definition imap_addr :: "string \<Rightarrow> string" where
  "imap_addr source = (if SplitHostPort source = None then joinHostPort source ''993'' else source)"

definition imap_Subdir :: "(string \<Rightarrow> string \<Rightarrow> string) \<Rightarrow> string \<Rightarrow> string" where
  "imap_Subdir safeName source = safeName ''imap'' (case SplitHostPort source of Some (h, _) \<Rightarrow> h | None \<Rightarrow> source)"

subsection \<open>Files\<close>

definition im_mkdir :: "(string \<times> nat) option \<Rightarrow> path \<Rightarrow> istate \<Rightarrow> string option \<times> istate" where
  "im_mkdir fault p s =
    (case MkdirAll fault p (isFs s) of
       (e, f) \<Rightarrow> (e, s\<lparr>isFs := f, isNames := isNames s @ ancestors (clean_elems p)\<rparr>))"

definition im_put :: "path \<Rightarrow> string \<Rightarrow> istate \<Rightarrow> istate" where
  "im_put p x s = s\<lparr>isFs := put_file p x (isFs s), isNames := isNames s @ [clean_elems p]\<rparr>"

definition im_remove :: "path \<Rightarrow> istate \<Rightarrow> istate" where
  "im_remove p s = s\<lparr>isFs := remove_file p (isFs s)\<rparr>"

definition uidValidityFile :: string where "uidValidityFile = ''.uidvalidity''"
definition lastUIDFile :: string where "lastUIDFile = ''.last-uid''"

text \<open>\<open>strconv.ParseUint(s, 10, 32)\<close>\<close>

definition ParseUint32 :: "string \<Rightarrow> 32 word option" where
  "ParseUint32 s = (if s = [] \<or> \<not> list_all is_digit s \<or> 2 ^ 32 \<le> int (digits_val s) then None else Some (of_nat (digits_val s)))"

definition readUintFile :: "iturn \<Rightarrow> path \<Rightarrow> fs \<Rightarrow> string + 32 word" where
  "readUintFile t p f =
    (case node_at p f of
       None \<Rightarrow> Inr 0
     | Some Dir \<Rightarrow> Inl ''is a directory''
     | Some (File x) \<Rightarrow>
        (case itRead t p of
           Some e \<Rightarrow> Inl e
         | None \<Rightarrow> (case ParseUint32 (TrimSpace x) of None \<Rightarrow> Inl (''parsing '' @ p) | Some v \<Rightarrow> Inr v)))"

definition loadLastUID :: "iturn \<Rightarrow> path \<Rightarrow> 32 word \<Rightarrow> fs \<Rightarrow> string + uid" where
  "loadLastUID t destDir uidValidity f =
    (case readUintFile t (JoinPath [destDir, uidValidityFile]) f of
       Inl e \<Rightarrow> Inl e
     | Inr stored \<Rightarrow>
        if stored = 0 then Inr 0
        else if stored \<noteq> uidValidity then Inr 0
        else readUintFile t (JoinPath [destDir, lastUIDFile]) f)"

text \<open>\<open>os.WriteFile\<close>\<close>

definition write_mark :: "iturn \<Rightarrow> path \<Rightarrow> string \<Rightarrow> istate \<Rightarrow> string option \<times> istate" where
  "write_mark t p x s =
    (if is_dir (node_at p (isFs s)) then (Some ''is a directory'', s)
     else (case itMark t p of
        None \<Rightarrow> (None, im_put p x s)
      | Some (e, None) \<Rightarrow> (Some e, s)
      | Some (e, Some n) \<Rightarrow> (Some e, im_put p (take n x) s)))"

definition FormatUint :: "32 word \<Rightarrow> string" where
  "FormatUint v = nat_digits (unat v)"

definition writeMarkers :: "iturn \<Rightarrow> path \<Rightarrow> 32 word \<Rightarrow> uid \<Rightarrow> istate \<Rightarrow> string option \<times> istate" where
  "writeMarkers t destDir uidValidity lastUID s =
    (case write_mark t (JoinPath [destDir, uidValidityFile]) (FormatUint uidValidity) s of
       (Some e, s1) \<Rightarrow> (Some e, s1)
     | (None, s1) \<Rightarrow> write_mark t (JoinPath [destDir, lastUIDFile]) (FormatUint lastUID) s1)"

subsection \<open>Maildirs\<close>

fun make_dirs :: "iturn \<Rightarrow> path list \<Rightarrow> istate \<Rightarrow> string option \<times> istate" where
  "make_dirs t [] s = (None, s)"
| "make_dirs t (p # ps) s =
    (case im_mkdir (itMkdir t p) p s of (Some e, s1) \<Rightarrow> (Some e, s1) | (None, s1) \<Rightarrow> make_dirs t ps s1)"

definition ensureMaildir :: "iturn \<Rightarrow> path \<Rightarrow> istate \<Rightarrow> string option \<times> istate" where
  "ensureMaildir t dir s = make_dirs t (map (\<lambda>sub. JoinPath [dir, sub]) [''tmp'', ''new'', ''cur'']) s"

definition maildirBase :: "uid \<Rightarrow> string" where
  "maildirBase u = FormatUint u @ ''.mirrortools''"

definition maildirHasUID :: "path \<Rightarrow> uid \<Rightarrow> istate \<Rightarrow> bool" where
  "maildirHasUID dir u s =
    (case Glob (isNames s) (isFs s) (JoinPath [dir, ''cur'', maildirBase u @ '':2,*'']) of None \<Rightarrow> False | Some ms \<Rightarrow> ms \<noteq> [])"

definition maildirFlagChars :: "(imap_flag \<times> char) list" where
  "maildirFlagChars = [(FlagDraft, CHR ''D''), (FlagFlagged, CHR ''F''), (FlagForwarded, CHR ''P''), (FlagAnswered, CHR ''R''),
     (FlagSeen, CHR ''S''), (FlagDeleted, CHR ''T'')]"

definition maildirFlagString :: "imap_flag list \<Rightarrow> string" where
  "maildirFlagString flags = map snd (filter (\<lambda>(f, _). f \<in> set flags) maildirFlagChars)"

definition writeLiteralToFile :: "iturn \<Rightarrow> literal \<Rightarrow> path \<Rightarrow> istate \<Rightarrow> string option \<times> istate" where
  "writeLiteralToFile t l p s =
    (if is_dir (node_at p (isFs s)) then (Some ''is a directory'', s)
     else (case itCreate t of
        Some e \<Rightarrow> (Some e, s)
      | None \<Rightarrow>
         (case (itWrite t, liErr l, itClose t) of
            (None, None, None) \<Rightarrow> (None, im_put p (liData l) s)
          | (Some e, _, _) \<Rightarrow> (Some e, im_remove p s)
          | (None, Some e, _) \<Rightarrow> (Some e, im_remove p s)
          | (None, None, Some e) \<Rightarrow> (Some e, im_remove p s))))"

text \<open>What is known of a message while its items arrive.\<close>

record msg_state =
  msUid :: uid
  msFlags :: "imap_flag list"
  msBody :: bool
  msHave :: bool

fun write_items :: "iturn \<Rightarrow> path \<Rightarrow> fetch_item list \<Rightarrow> msg_state \<Rightarrow> istate \<Rightarrow> (string + msg_state) \<times> istate" where
  "write_items t dir [] m s = (Inr m, s)"
| "write_items t dir (ItemUID u # is) m s = write_items t dir is (m\<lparr>msUid := u, msHave := maildirHasUID dir u s\<rparr>) s"
| "write_items t dir (ItemFlags fs # is) m s = write_items t dir is (m\<lparr>msFlags := fs\<rparr>) s"
| "write_items t dir (ItemOther # is) m s = write_items t dir is m s"
| "write_items t dir (ItemBody b # is) m s =
    (if msUid m = 0 then (Inl ''body section arrived before UID'', s)
     else if msHave m then write_items t dir is (m\<lparr>msBody := True\<rparr>) s
     else (case b of
        None \<Rightarrow> (Inl ''server sent no body'', s)
      | Some l \<Rightarrow>
         (case writeLiteralToFile t l (JoinPath [dir, ''tmp'', maildirBase (msUid m)]) s of
            (Some e, s1) \<Rightarrow> (Inl e, s1)
          | (None, s1) \<Rightarrow> write_items t dir is (m\<lparr>msBody := True\<rparr>) s1)))"

text \<open>\<open>os.Rename\<close> of a file.\<close>

definition im_rename :: "iturn \<Rightarrow> path \<Rightarrow> path \<Rightarrow> istate \<Rightarrow> string option \<times> istate" where
  "im_rename t p q s =
    (case node_at p (isFs s) of
       Some (File x) \<Rightarrow>
         if is_dir (node_at q (isFs s)) then (Some ''file exists'', s)
         else (case itRename t of Some e \<Rightarrow> (Some e, s) | None \<Rightarrow> (None, im_put q x (im_remove p s)))
     | _ \<Rightarrow> (Some ''no such file or directory'', s))"

text \<open>\<open>writeMessage\<close>: the UID and whether the message was there, or an error.\<close>

definition writeMessage :: "iturn \<Rightarrow> path \<Rightarrow> fetch_item list \<Rightarrow> istate \<Rightarrow> (string + uid \<times> bool) \<times> istate" where
  "writeMessage t dir items s =
    (case write_items t dir items \<lparr>msUid = 0, msFlags = [], msBody = False, msHave = False\<rparr> s of
       (Inl e, s1) \<Rightarrow> (Inl e, s1)
     | (Inr m, s1) \<Rightarrow>
        (if msHave m then (Inr (msUid m, True), s1)
         else if \<not> msBody m then (Inl ''server never sent a body section'', s1)
         else (case im_rename t (JoinPath [dir, ''tmp'', maildirBase (msUid m)])
                 (JoinPath [dir, ''cur'', maildirBase (msUid m) @ '':2,'' @ maildirFlagString (msFlags m)]) s1 of
             (Some e, s2) \<Rightarrow> (Inl e, s2)
           | (None, s2) \<Rightarrow> (Inr (msUid m, False), s2))))"

subsection \<open>Mailboxes\<close>

definition uid_max :: "uid \<Rightarrow> uid \<Rightarrow> uid" where
  "uid_max a b = (if a < b then b else a)"

text \<open>The messages of one fetch: the highest UID so far, or an error.\<close>

fun write_messages :: "iturns \<Rightarrow> path \<Rightarrow> fetch_item list list \<Rightarrow> uid \<Rightarrow> istate \<Rightarrow> (string + uid) \<times> istate" where
  "write_messages env dir [] hi s = (Inr hi, s)"
| "write_messages env dir (m # ms) hi s =
    (case writeMessage (env (isTick s)) dir m (s\<lparr>isTick := Suc (isTick s)\<rparr>) of
       (Inl e, s1) \<Rightarrow> (Inl (''writing message: '' @ e), s1)
     | (Inr (u, _), s1) \<Rightarrow> write_messages env dir ms (uid_max hi u) s1)"

definition mirrorMailbox :: "iturns \<Rightarrow> string \<Rightarrow> path \<Rightarrow> istate \<Rightarrow> string option \<times> istate" where
  "mirrorMailbox env mb dir s =
    (let t = env (isTick s); s0 = s\<lparr>isTick := Suc (isTick s)\<rparr> in
     case itSelect t mb of
       Inl e \<Rightarrow> (Some (''opening mailbox: '' @ e), s0)
     | Inr uidValidity \<Rightarrow>
        (case loadLastUID t dir uidValidity (isFs s0) of
           Inl e \<Rightarrow> (Some e, s0)
         | Inr lastUID \<Rightarrow>
            (case ensureMaildir t dir s0 of
               (Some e, s1) \<Rightarrow> (Some (''creating maildir: '' @ e), s1)
             | (None, s1) \<Rightarrow>
                (case write_messages env dir (itFetch t mb (lastUID + 1)) lastUID s1 of
                   (Inl e, s2) \<Rightarrow> (Some e, s2)
                 | (Inr hi, s2) \<Rightarrow>
                    (case itFetchErr t mb of
                       Some e \<Rightarrow> (Some (''fetch: '' @ e), s2)
                     | None \<Rightarrow> writeMarkers t dir uidValidity hi s2)))))"

subsection \<open>Accounts\<close>

fun join_segments :: "string \<Rightarrow> path \<Rightarrow> string list \<Rightarrow> string + path" where
  "join_segments name dir [] = Inr dir"
| "join_segments name dir (x # xs) =
    (if x = [] \<or> x = ''.'' \<or> x = ''..'' then Inl (''unsafe folder name '' @ Quote name) else join_segments name (JoinPath [dir, x]) xs)"

definition mailboxDir :: "path \<Rightarrow> string \<Rightarrow> char option \<Rightarrow> string + path" where
  "mailboxDir destDir name delim = join_segments name destDir (case delim of None \<Rightarrow> [name] | Some c \<Rightarrow> Split name c)"

text \<open>How many folders were mirrored, and how many failed.\<close>

fun mirror_folders :: "iturns \<Rightarrow> path \<Rightarrow> mailbox list \<Rightarrow> nat \<times> nat \<Rightarrow> istate \<Rightarrow> (nat \<times> nat) \<times> istate" where
  "mirror_folders env destDir [] n s = (n, s)"
| "mirror_folders env destDir (mb # mbs) (good, failed) s =
    (if AttrNoSelect \<in> set (mbAttrs mb) then mirror_folders env destDir mbs (good, failed) s
     else (case mailboxDir destDir (mbName mb) (mbDelim mb) of
        Inl e \<Rightarrow> mirror_folders env destDir mbs (good, Suc failed) s
      | Inr dir \<Rightarrow>
         (case im_mkdir (itMkdir (env (isTick s)) dir) dir s of
            (Some e, s1) \<Rightarrow> mirror_folders env destDir mbs (good, Suc failed) s1
          | (None, s1) \<Rightarrow>
             (case mirrorMailbox env (mbName mb) dir s1 of
                (Some e, s2) \<Rightarrow> mirror_folders env destDir mbs (good, Suc failed) s2
              | (None, s2) \<Rightarrow> mirror_folders env destDir mbs (Suc good, failed) s2))))"

definition mirrorAllMailboxes :: "iturns \<Rightarrow> path \<Rightarrow> istate \<Rightarrow> string option \<times> istate" where
  "mirrorAllMailboxes env destDir s =
    (case itList (env (isTick s)) of
       Inl e \<Rightarrow> (Some (''imap: listing folders: '' @ e), s)
     | Inr mbs \<Rightarrow>
        (case mirror_folders env destDir mbs (0, 0) s of
           ((good, failed), s1) \<Rightarrow>
             (if good = 0 \<and> 0 < failed then Some (''imap: all '' @ itoa (int failed) @ '' folder(s) failed'') else None, s1)))"

definition imap_Mirror :: "iturns \<Rightarrow> string \<Rightarrow> path \<Rightarrow> string \<Rightarrow> istate \<Rightarrow> string option \<times> istate" where
  "imap_Mirror env source destDir mb s =
    (let t = env (isTick s); addr = imap_addr source in
     if SplitHostPort addr = None then (Some ''imap: address'', s)
     else if itDial t addr \<noteq> None then (Some (''imap: dialing '' @ addr), s)
     else if itLogin t \<noteq> None then (Some ''imap: login'', s)
     else if mb \<noteq> [] then (case mirrorMailbox env mb destDir s of (e, s1) \<Rightarrow> (map_option (\<lambda>x. ''imap: '' @ x) e, s1))
     else mirrorAllMailboxes env destDir s)"

end
