(* ===== verification/ImapProps.thy ===== *)
theory ImapProps
  imports Imap
begin

text \<open>
  What a mirror of a mailbox guarantees: whatever failed in earlier runs, one that reports no error has every message the
  server holds, once, as long as the server never uses a UID twice.
\<close>

subsection \<open>Places\<close>

definition box_key :: "path \<Rightarrow> string list \<Rightarrow> key" where
  "box_key dir es = clean_elems dir @ es"

definition cur_name :: "uid \<Rightarrow> string \<Rightarrow> string" where
  "cur_name u fl = maildirBase u @ '':2,'' @ fl"

definition cur_key :: "path \<Rightarrow> uid \<Rightarrow> string \<Rightarrow> key" where
  "cur_key dir u fl = box_key dir [''cur'', cur_name u fl]"

lemma FormatUint_digits: "list_all is_digit (FormatUint v)" "FormatUint v \<noteq> []"
  by (simp_all add: FormatUint_def nat_digits_all)

lemma digit_bytes: "is_digit c \<Longrightarrow> c \<noteq> slash \<and> c \<noteq> CHR ''.'' \<and> c \<notin> {CHR ''*'', CHR ''?'', CHR ''['', CHR 0x5C} \<and> \<not> is_space c"
  by (auto simp: is_digit_def slash_def is_space_def)

lemma plain_bytes_append: "plain_bytes (a @ b) \<longleftrightarrow> plain_bytes a \<and> plain_bytes b"
  by (auto simp: plain_bytes_def hasMeta_def ContainsAny_def)

lemma base_plain: "plain_bytes (maildirBase u @ '':2,'')" "slash \<notin> set (maildirBase u @ '':2,'')"
proof -
  have d: "c \<in> set (FormatUint u) \<Longrightarrow> c \<noteq> slash \<and> c \<notin> {CHR ''*'', CHR ''?'', CHR ''['', CHR 0x5C}" for c
    using FormatUint_digits(1) [of u] digit_bytes by (auto simp: list_all_iff)
  then have "plain_bytes (FormatUint u)" by (auto simp: plain_bytes_def hasMeta_def ContainsAny_def list_ex_iff)
  moreover have "plain_bytes ''.mirrortools:2,''" by code_simp
  ultimately show "plain_bytes (maildirBase u @ '':2,'')" by (simp add: maildirBase_def plain_bytes_append)
  show "slash \<notin> set (maildirBase u @ '':2,'')" using d by (auto simp: maildirBase_def slash_def)
qed

lemma name_plain: "slash \<notin> set fl \<Longrightarrow> plain_elem (cur_name u fl)" "plain_elem (maildirBase u)"
proof -
  obtain c r where c: "FormatUint u = c # r" "is_digit c" using FormatUint_digits [of u] by (cases "FormatUint u") auto
  then have "c \<noteq> CHR ''.''" using digit_bytes by blast
  then show "slash \<notin> set fl \<Longrightarrow> plain_elem (cur_name u fl)" "plain_elem (maildirBase u)"
    using base_plain(2) [of u] c by (auto simp: plain_elem_def cur_name_def maildirBase_def)
qed

lemma base_inj: "maildirBase u @ a = maildirBase v @ b \<Longrightarrow> u = v"
proof -
  have t: "takeWhile is_digit (maildirBase w @ c) = FormatUint w" for w c
  proof -
    have "takeWhile is_digit (FormatUint w @ x # y) = FormatUint w" if "\<not> is_digit x" for x y
      using FormatUint_digits(1) [of w] that by (simp add: list_all_iff takeWhile_append2)
    moreover have "\<not> is_digit (CHR ''.'')" by code_simp
    ultimately show ?thesis by (simp add: maildirBase_def)
  qed
  assume "maildirBase u @ a = maildirBase v @ b"
  then have "FormatUint u = FormatUint v" using t by metis
  then show "u = v" by (simp add: FormatUint_def nat_digits_inj word_unat_eq_iff)
qed

lemma cur_key_inj: "cur_key dir u fl = cur_key dir v gl \<longleftrightarrow> u = v \<and> fl = gl"
  by (auto simp: cur_key_def box_key_def cur_name_def dest: base_inj)

lemma join_plain:
  assumes "plain_elem a" and "d \<noteq> []"
  shows "clean_elems (JoinPath [d, a]) = clean_elems d @ [a]"
proof -
  have "a \<noteq> []" using assms(1) by (simp add: plain_elem_def)
  then show ?thesis using clean_elems_append_plain [of d "[a]"] assms by (simp add: JoinPath_two)
qed

lemma join_plain2:
  assumes "plain_elem a" and "plain_elem b" and "d \<noteq> []"
  shows "clean_elems (JoinPath [d, a, b]) = clean_elems d @ [a, b]"
    and "JoinPath [d, a, b] = JoinPath [d, a] @ slash # b"
proof -
  have ne: "a \<noteq> []" "b \<noteq> []" using assms by (auto simp: plain_elem_def)
  have J: "JoinPath [d, a, b] = Clean ((d @ slash # a) @ slash # b)" "JoinPath [d, a] = Clean (d @ slash # a)"
    using assms(3) ne by (simp_all add: JoinPath_three JoinPath_two)
  have e: "clean_elems (d @ slash # a) = clean_elems d @ [a]" "clean_elems ((d @ slash # a) @ slash # b) = (clean_elems d @ [a]) @ [b]"
    using clean_elems_append_plain [of d "[a]"] clean_elems_append_plain [of "d @ slash # a" "[b]"] assms by simp_all
  show "clean_elems (JoinPath [d, a, b]) = clean_elems d @ [a, b]" using J(1) e(2) by simp
  have r: "rooted ((d @ slash # a) @ slash # b) = rooted d" "rooted (d @ slash # a) = rooted d" using rooted_append [OF assms(3)] by simp_all
  have "Join ((clean_elems d @ [a]) @ [b]) [slash] = Join (clean_elems d @ [a]) [slash] @ [slash] @ b" by (rule Join_last) simp
  then show "JoinPath [d, a, b] = JoinPath [d, a] @ slash # b" unfolding J by (simp only: Clean_def e r unclean_def) simp
qed

text \<open>Each place has a key of its own.\<close>

lemma sub_plain: "plain_elem ''tmp''" "plain_elem ''new''" "plain_elem ''cur''" "plain_elem uidValidityFile" "plain_elem lastUIDFile"
  by (simp_all add: plain_elem_def slash_def uidValidityFile_def lastUIDFile_def)

lemma box_keys:
  assumes "dir \<noteq> []"
  shows "clean_elems (JoinPath [dir, ''cur'']) = box_key dir [''cur'']"
    and "slash \<notin> set fl \<Longrightarrow> clean_elems (JoinPath [dir, ''cur'', maildirBase u @ '':2,'' @ fl]) = cur_key dir u fl"
    and "clean_elems (JoinPath [dir, ''tmp'', maildirBase u]) = box_key dir [''tmp'', maildirBase u]"
    and "clean_elems (JoinPath [dir, uidValidityFile]) = box_key dir [uidValidityFile]"
    and "clean_elems (JoinPath [dir, lastUIDFile]) = box_key dir [lastUIDFile]"
  using join_plain [OF _ assms] join_plain2(1) [OF _ _ assms] sub_plain name_plain
  by (simp_all add: box_key_def cur_key_def cur_name_def)

lemma box_key_inj [simp]: "box_key dir a = box_key dir b \<longleftrightarrow> a = b"
  by (simp add: box_key_def)

subsection \<open>What is there already\<close>

definition covered :: "istate \<Rightarrow> bool" where
  "covered s \<longleftrightarrow> (\<forall>k. isFs s k \<noteq> None \<longrightarrow> k \<in> set (isNames s))"

definition maildir_at :: "path \<Rightarrow> bool" where
  "maildir_at dir \<longleftrightarrow> dir \<noteq> [] \<and> plain_bytes (JoinPath [dir, ''cur''])"

lemma HasUID_iff:
  assumes "maildir_at dir" and "covered s" and "isFs s (box_key dir [''cur'']) = Some Dir"
  shows "maildirHasUID dir u s \<longleftrightarrow> (\<exists>fl. slash \<notin> set fl \<and> isFs s (cur_key dir u fl) \<noteq> None)"
proof -
  let ?p = "maildirBase u @ '':2,''" and ?d = "JoinPath [dir, ''cur'']"
  have ne: "dir \<noteq> []" and pb: "plain_bytes ?d" using assms(1) by (simp_all add: maildir_at_def)
  have ps: "plain_elem (?p @ ''*'')" using name_plain(1) [of "''*''" u] by (simp add: cur_name_def slash_def)
  have dne: "?d \<noteq> []" using join_plain2(2) [OF sub_plain(3) ps ne] ne by (simp add: JoinPath_two)
  have g: "Glob (isNames s) (isFs s) (JoinPath [dir, ''cur'', ?p @ ''*'']) = Some (glob_in (isNames s) (isFs s) ?d (?p @ ''*''))"
    using glob_plain_dir [OF pb base_plain(1) base_plain(2) dne] join_plain2(2) [OF sub_plain(3) ps ne] by simp
  have dd: "node_at ?d (isFs s) = Some Dir" using assms(3) box_keys(1) [OF ne] by (simp add: node_at_def)
  have "maildirHasUID dir u s \<longleftrightarrow> (\<exists>n \<in> set (dir_names (isNames s) (isFs s) ?d). Match (?p @ ''*'') n = Some True)"
    using g by (auto simp: maildirHasUID_def glob_in_def filter_empty_conv)
  also have "\<dots> \<longleftrightarrow> (\<exists>fl. slash \<notin> set fl \<and> isFs s (cur_key dir u fl) \<noteq> None)"
  proof
    assume "\<exists>n \<in> set (dir_names (isNames s) (isFs s) ?d). Match (?p @ ''*'') n = Some True"
    then obtain k where k: "k \<noteq> []" "butlast k = box_key dir [''cur'']" "isFs s k \<noteq> None" "Match (?p @ ''*'') (last k) = Some True"
      using dd box_keys(1) [OF ne] by (auto simp: dir_names_def split: if_splits)
    then obtain fl where fl: "last k = ?p @ fl" "slash \<notin> set fl"
      using Match_star [OF base_plain(1)] by (auto simp: HasPrefix_iff)
    have "k = cur_key dir u fl" using append_butlast_last_id [OF k(1)] k(2) fl(1)
      by (simp add: cur_key_def box_key_def cur_name_def)
    then show "\<exists>fl. slash \<notin> set fl \<and> isFs s (cur_key dir u fl) \<noteq> None" using fl(2) k(3) by blast
  next
    assume "\<exists>fl. slash \<notin> set fl \<and> isFs s (cur_key dir u fl) \<noteq> None"
    then obtain fl where fl: "slash \<notin> set fl" "isFs s (cur_key dir u fl) \<noteq> None" by blast
    have "cur_key dir u fl \<in> set (isNames s)" using assms(2) fl(2) by (simp add: covered_def)
    then have "cur_name u fl \<in> set (dir_names (isNames s) (isFs s) ?d)"
      using dd fl(2) box_keys(1) [OF ne] unfolding dir_names_def
      by (auto simp: image_iff cur_key_def box_key_def butlast_append intro!: bexI [of _ "cur_key dir u fl"])
    moreover have "cur_name u fl = ?p @ fl" by (simp add: cur_name_def)
    then have "HasPrefix (cur_name u fl) ?p" "drop (length ?p) (cur_name u fl) = fl" by (auto simp: HasPrefix_iff)
    then have "Match (?p @ ''*'') (cur_name u fl) = Some True"
      using Match_star [OF base_plain(1), of u "cur_name u fl"] fl(1) by simp
    ultimately show "\<exists>n \<in> set (dir_names (isNames s) (isFs s) ?d). Match (?p @ ''*'') n = Some True" by blast
  qed
  finally show ?thesis .
qed

subsection \<open>One message\<close>

text \<open>A message \<open>x\<close> with its UID, as it arrives: the body may be missing when the connection breaks.\<close>

definition neutral :: "fetch_item \<Rightarrow> bool" where
  "neutral i \<longleftrightarrow> (case i of ItemFlags _ \<Rightarrow> True | ItemOther \<Rightarrow> True | _ \<Rightarrow> False)"

definition message_of :: "uid \<Rightarrow> string \<Rightarrow> fetch_item list \<Rightarrow> bool" where
  "message_of u x is \<longleftrightarrow> u \<noteq> 0 \<and> (\<exists>a b. list_all neutral a \<and> list_all neutral b \<and>
     (is = a @ ItemUID u # b \<or> (\<exists>l c. list_all neutral c \<and> is = a @ ItemUID u # b @ ItemBody (Some l) # c \<and> (liErr l = None \<longrightarrow> liData l = x))))"

lemma write_items_neutral:
  "list_all neutral a \<Longrightarrow> \<exists>fl. write_items t dir (a @ r) m s = write_items t dir r (m\<lparr>msFlags := fl\<rparr>) s"
proof (induction a arbitrary: m)
  case Nil
  have "m = m\<lparr>msFlags := msFlags m\<rparr>" by simp
  then show ?case by (metis append_Nil)
next
  case (Cons i a)
  have IH: "\<exists>fl. write_items t dir (a @ r) m s = write_items t dir r (m\<lparr>msFlags := fl\<rparr>) s" for m using Cons by simp
  show ?case
  proof (cases i)
    case (ItemFlags fs)
    then show ?thesis using IH [of "m\<lparr>msFlags := fs\<rparr>"] by simp
  next
    case ItemOther
    then show ?thesis using IH by simp
  qed (use Cons.prems in \<open>simp_all add: neutral_def\<close>)
qed

lemma writeLiteral_cases:
  assumes "writeLiteralToFile t l p s = (e, s')"
  obtains (failed) "e \<noteq> None" "s' = s \<or> s' = im_remove p s"
  | (written) "e = None" "s' = im_put p (liData l) s" "liErr l = None"
proof -
  have "(e \<noteq> None \<and> (s' = s \<or> s' = im_remove p s)) \<or> (e = None \<and> s' = im_put p (liData l) s \<and> liErr l = None)"
    using assms unfolding writeLiteralToFile_def by (auto split: if_splits option.splits)
  then show thesis
  proof
    assume "e \<noteq> None \<and> (s' = s \<or> s' = im_remove p s)"
    then show thesis using failed by simp
  next
    assume "e = None \<and> s' = im_put p (liData l) s \<and> liErr l = None"
    then show thesis using written by simp
  qed
qed

abbreviation no_message :: msg_state where
  "no_message \<equiv> \<lparr>msUid = 0, msFlags = [], msBody = False, msHave = False\<rparr>"

lemma write_items_message:
  assumes "message_of u x is"
  obtains (had) m where "maildirHasUID dir u s" "write_items t dir is no_message s = (Inr m, s)" "msUid m = u" "msHave m"
  | (bodyless) m where "\<not> maildirHasUID dir u s" "write_items t dir is no_message s = (Inr m, s)" "\<not> msBody m" "\<not> msHave m"
  | (failed) e s1 where "\<not> maildirHasUID dir u s" "write_items t dir is no_message s = (Inl e, s1)"
      "s1 = s \<or> s1 = im_remove (JoinPath [dir, ''tmp'', maildirBase u]) s"
  | (written) m where "\<not> maildirHasUID dir u s" "write_items t dir is no_message s = (Inr m, im_put (JoinPath [dir, ''tmp'', maildirBase u]) x s)"
      "msUid m = u" "msBody m" "\<not> msHave m"
proof -
  let ?tmp = "JoinPath [dir, ''tmp'', maildirBase u]"
  let ?w = "write_items t dir"
  have u: "u \<noteq> 0" using assms by (simp add: message_of_def)
  obtain a b rest where ab: "list_all neutral a" "list_all neutral b" "is = a @ ItemUID u # b @ rest"
    and rest: "rest = [] \<or> (\<exists>l c. list_all neutral c \<and> rest = ItemBody (Some l) # c \<and> (liErr l = None \<longrightarrow> liData l = x))"
    using assms unfolding message_of_def by (metis append_Nil2)
  obtain f1 where f1: "?w is no_message s = ?w (ItemUID u # b @ rest) (no_message\<lparr>msFlags := f1\<rparr>) s"
    using write_items_neutral [OF ab(1)] ab(3) by metis
  define m1 where "m1 = (no_message\<lparr>msFlags := f1, msUid := u, msHave := maildirHasUID dir u s\<rparr>)"
  have m1: "?w is no_message s = ?w (b @ rest) m1 s" using f1 by (simp add: m1_def)
  obtain f2 where f2: "?w is no_message s = ?w rest (m1\<lparr>msFlags := f2\<rparr>) s" using write_items_neutral [OF ab(2)] m1 by metis
  define m2 where "m2 = m1\<lparr>msFlags := f2\<rparr>"
  have m2: "msUid m2 = u" "\<not> msBody m2" "msHave m2 = maildirHasUID dir u s" by (simp_all add: m2_def m1_def)
  have w2: "?w is no_message s = ?w rest m2 s" using f2 by (simp add: m2_def)
  show thesis
  proof (cases "rest = []")
    case True
    then have e: "?w is no_message s = (Inr m2, s)" using w2 by simp
    show thesis
    proof (cases "maildirHasUID dir u s")
      case True
      then show thesis using had [OF _ e] m2 by simp
    next
      case False
      then show thesis using bodyless [OF _ e] m2 by simp
    qed
  next
    case False
    then obtain l c where lc: "list_all neutral c" "rest = ItemBody (Some l) # c" "liErr l = None \<longrightarrow> liData l = x" using rest False by auto
    define m3 where "m3 = m2\<lparr>msBody := True\<rparr>"
    have tail: "\<exists>f. ?w c m3 s1 = (Inr (m3\<lparr>msFlags := f\<rparr>), s1)" for s1
      using write_items_neutral [OF lc(1), of t dir "[]" m3 s1] by simp
    have m3: "msUid (m3\<lparr>msFlags := f\<rparr>) = u" "msBody (m3\<lparr>msFlags := f\<rparr>)" "msHave (m3\<lparr>msFlags := f\<rparr>) = maildirHasUID dir u s" for f
      using m2 by (simp_all add: m3_def)
    show thesis
    proof (cases "maildirHasUID dir u s")
      case True
      then have "?w is no_message s = ?w c m3 s" using w2 lc(2) u m2 by (simp add: m3_def)
      then obtain f where "?w is no_message s = (Inr (m3\<lparr>msFlags := f\<rparr>), s)" using tail [of s] by auto
      then show thesis by (rule had [OF True]) (simp_all add: m3 True)
    next
      case new: False
      obtain e s1 where w: "writeLiteralToFile t l ?tmp s = (e, s1)" by fastforce
      from w show thesis
      proof (cases rule: writeLiteral_cases)
        case f: failed
        then obtain err where "e = Some err" by blast
        then have "?w is no_message s = (Inl err, s1)" using w2 lc(2) u new w m2 by simp
        then show thesis using f(2) by (rule failed [OF new])
      next
        case wr: written
        then have "?w is no_message s = ?w c m3 s1" using w2 lc(2) u new w m2 by (simp add: m3_def)
        then obtain f where f: "?w is no_message s = (Inr (m3\<lparr>msFlags := f\<rparr>), s1)" using tail [of s1] by auto
        have s1: "s1 = im_put ?tmp x s" using wr lc(3) by simp
        show thesis using written [OF new f [unfolded s1]] m3 new by simp
      qed
    qed
  qed
qed

lemma writeMessage_cases:
  assumes "writeMessage t dir is s = (r, s')" and "message_of u x is"
  obtains (had) "maildirHasUID dir u s" "r = Inr (u, True)" "s' = s"
  | (failed) e where "\<not> maildirHasUID dir u s" "r = Inl e"
      "s' = s \<or> s' = im_remove (JoinPath [dir, ''tmp'', maildirBase u]) s \<or> s' = im_put (JoinPath [dir, ''tmp'', maildirBase u]) x s"
  | (stored) fl where "\<not> maildirHasUID dir u s" "r = Inr (u, False)"
      "im_rename t (JoinPath [dir, ''tmp'', maildirBase u]) (JoinPath [dir, ''cur'', maildirBase u @ '':2,'' @ maildirFlagString fl])
         (im_put (JoinPath [dir, ''tmp'', maildirBase u]) x s) = (None, s')"
  using assms(2)
proof (cases rule: write_items_message [where dir = dir and s = s and t = t])
  case h: (had m)
  have "(r, s') = (Inr (u, True), s)" using assms(1) h(2-4) by (simp add: writeMessage_def)
  then show thesis using had [OF h(1)] by simp
next
  case (bodyless m)
  have "(r, s') = (Inl ''server never sent a body section'', s)" using assms(1) bodyless(2-4) by (simp add: writeMessage_def)
  then show thesis using failed [OF bodyless(1)] by simp
next
  case f: (failed e s1)
  have "(r, s') = (Inl e, s1)" using assms(1) f(2) by (simp add: writeMessage_def)
  then show thesis using failed [OF f(1)] f(3) by auto
next
  case (written m)
  let ?s1 = "im_put (JoinPath [dir, ''tmp'', maildirBase u]) x s"
  obtain e2 s2 where rn: "im_rename t (JoinPath [dir, ''tmp'', maildirBase u])
      (JoinPath [dir, ''cur'', maildirBase u @ '':2,'' @ maildirFlagString (msFlags m)]) ?s1 = (e2, s2)" by fastforce
  show thesis
  proof (cases e2)
    case None
    then have r: "r = Inr (u, False)" "s' = s2" using assms(1) written rn by (simp_all add: writeMessage_def)
    show thesis by (rule stored [OF written(1) r(1)]) (use rn None r(2) in simp)
  next
    case (Some err)
    then have "s2 = ?s1" using rn by (auto simp: im_rename_def split: option.splits node.splits if_splits)
    moreover have r: "r = Inl err" "s' = s2" using assms(1) written rn Some by (simp_all add: writeMessage_def)
    ultimately show thesis by (intro failed [OF written(1) r(1)]) simp
  qed
qed

subsection \<open>One message more\<close>

definition has_message :: "path \<Rightarrow> uid \<Rightarrow> string \<Rightarrow> fs \<Rightarrow> bool" where
  "has_message dir u x f \<longleftrightarrow> (\<exists>fl. slash \<notin> set fl \<and> f (cur_key dir u fl) = Some (File x))"

text \<open>Each UID has at most one file, and that is its message.\<close>

definition box_ok :: "(uid \<times> string) set \<Rightarrow> path \<Rightarrow> istate \<Rightarrow> bool" where
  "box_ok M dir s \<longleftrightarrow> covered s
     \<and> (\<forall>u x fl nd. (u, x) \<in> M \<longrightarrow> slash \<notin> set fl \<longrightarrow> isFs s (cur_key dir u fl) = Some nd \<longrightarrow> nd = File x)
     \<and> (\<forall>u fl gl. slash \<notin> set fl \<longrightarrow> slash \<notin> set gl \<longrightarrow> isFs s (cur_key dir u fl) \<noteq> None \<longrightarrow> isFs s (cur_key dir u gl) \<noteq> None \<longrightarrow> fl = gl)"

text \<open>Messages that are there stay, new ones are of these UIDs, and the markers are not touched.\<close>

definition adds_only :: "path \<Rightarrow> uid set \<Rightarrow> fs \<Rightarrow> fs \<Rightarrow> bool" where
  "adds_only dir U f f' \<longleftrightarrow>
     (\<forall>u fl. slash \<notin> set fl \<longrightarrow> f (cur_key dir u fl) \<noteq> None \<longrightarrow> f' (cur_key dir u fl) = f (cur_key dir u fl))
     \<and> (\<forall>u fl. slash \<notin> set fl \<longrightarrow> f' (cur_key dir u fl) \<noteq> None \<longrightarrow> f (cur_key dir u fl) = None \<longrightarrow> u \<in> U)
     \<and> f' (box_key dir [uidValidityFile]) = f (box_key dir [uidValidityFile]) \<and> f' (box_key dir [lastUIDFile]) = f (box_key dir [lastUIDFile])"

lemma adds_only_refl [simp]: "adds_only dir U f f"
  by (auto simp: adds_only_def)

lemma adds_only_trans:
  assumes "adds_only dir U f g" and "adds_only dir V g h"
  shows "adds_only dir (U \<union> V) f h"
proof -
  have 1: "h (cur_key dir u fl) = f (cur_key dir u fl)" if "slash \<notin> set fl" "f (cur_key dir u fl) \<noteq> None" for u fl
    using assms that unfolding adds_only_def by metis
  have 2: "u \<in> U \<union> V" if "slash \<notin> set fl" "h (cur_key dir u fl) \<noteq> None" "f (cur_key dir u fl) = None" for u fl
    using assms that unfolding adds_only_def by (cases "g (cur_key dir u fl) = None") blast+
  show ?thesis using assms 1 2 unfolding adds_only_def by simp
qed

lemma has_message_kept: "has_message dir u x f \<Longrightarrow> adds_only dir U f f' \<Longrightarrow> has_message dir u x f'"
  unfolding has_message_def adds_only_def by (metis option.distinct(1))

lemma covered_simps:
  "covered s \<Longrightarrow> covered (im_put p x s)" "covered s \<Longrightarrow> covered (im_remove p s)" "covered (s\<lparr>isTick := n\<rparr>) = covered s"
  by (auto simp: covered_def im_put_def im_remove_def put_file_def remove_file_def)

lemma covered_mkdir: "im_mkdir fault p s = (e, s') \<Longrightarrow> covered s \<Longrightarrow> covered s'"
  unfolding covered_def
proof (intro allI impI)
  fix k
  assume h: "im_mkdir fault p s = (e, s')" and c: "\<forall>k. isFs s k \<noteq> None \<longrightarrow> k \<in> set (isNames s)" and k: "isFs s' k \<noteq> None"
  obtain f where m: "MkdirAll fault p (isFs s) = (e, f)" "isFs s' = f" "isNames s' = isNames s @ ancestors (clean_elems p)"
    using h by (auto simp: im_mkdir_def split: prod.splits)
  have "f k = isFs s k \<or> k \<in> set (ancestors (clean_elems p))"
  proof -
    have "fold make_dir (take n ks) (isFs s) k = isFs s k \<or> k \<in> set ks" for n ks
      using make_dirs_change [of "take n ks" "isFs s" k] in_set_takeD by fastforce
    moreover have "fold make_dir ks (isFs s) k = isFs s k \<or> k \<in> set ks" for ks using make_dirs_change [of ks "isFs s" k] by auto
    ultimately show ?thesis using m(1) by (auto simp: MkdirAll_def Let_def split: if_splits option.splits prod.splits)
  qed
  then show "k \<in> set (isNames s')" using k c m(2,3) by auto
qed

lemma flags_plain: "slash \<notin> set (maildirFlagString fl)"
  by (auto simp: maildirFlagString_def maildirFlagChars_def slash_def)

lemma writeMessage_step:
  assumes "writeMessage t dir is s = (r, s')" and "message_of u x is" and "(u, x) \<in> M"
    and one: "single_valued M"
    and ok: "box_ok M dir s" and cur: "isFs s (box_key dir [''cur'']) = Some Dir" and dir: "maildir_at dir"
  shows "box_ok M dir s'" and "isFs s' (box_key dir [''cur'']) = Some Dir" and "adds_only dir {u} (isFs s) (isFs s')"
    and "r = Inr (v, b) \<Longrightarrow> v = u \<and> has_message dir u x (isFs s')"
proof -
  have ne: "dir \<noteq> []" using dir by (simp add: maildir_at_def)
  have cov: "covered s" using ok by (simp add: box_ok_def)
  note had_iff = HasUID_iff [OF dir cov cur]
  let ?tmp = "JoinPath [dir, ''tmp'', maildirBase u]"
  note keys = box_keys [OF ne]
  have apart: "cur_key dir w fl \<noteq> box_key dir [''tmp'', maildirBase u]" "cur_key dir w fl \<noteq> box_key dir [''cur'']"
    "cur_key dir w fl \<noteq> box_key dir [uidValidityFile]" "cur_key dir w fl \<noteq> box_key dir [lastUIDFile]" for w fl
    by (simp_all add: cur_key_def)
  have "box_ok M dir s' \<and> isFs s' (box_key dir [''cur'']) = Some Dir \<and> adds_only dir {u} (isFs s) (isFs s')
    \<and> (\<forall>v b. r = Inr (v, b) \<longrightarrow> v = u \<and> has_message dir u x (isFs s'))"
    using assms(1,2)
  proof (cases rule: writeMessage_cases)
    case had
    then obtain fl where fl: "slash \<notin> set fl" "isFs s (cur_key dir u fl) \<noteq> None" using had_iff by blast
    then have "has_message dir u x (isFs s)" using ok assms(3) unfolding box_ok_def has_message_def by blast
    then show ?thesis using had ok cur by simp
  next
    case (failed e)
    have same: "isFs s' k = isFs s k" if "k \<noteq> box_key dir [''tmp'', maildirBase u]" for k
      using failed(3) that keys(3) by (auto simp: im_remove_def im_put_def put_file_def remove_file_def)
    have c: "covered s'" using failed(3) cov covered_simps by auto
    have k: "isFs s' (cur_key dir w gl) = isFs s (cur_key dir w gl)" for w gl using same apart(1) by blast
    have m: "isFs s' (box_key dir [a]) = isFs s (box_key dir [a])" for a by (rule same) simp
    have "box_ok M dir s'" using ok unfolding box_ok_def k by (simp add: c)
    moreover have "adds_only dir {u} (isFs s) (isFs s')" unfolding adds_only_def k m by auto
    ultimately show ?thesis using failed(2) cur m by simp
  next
    case (stored fl)
    let ?fl = "maildirFlagString fl"
    have none: "isFs s (cur_key dir u gl) = None" if "slash \<notin> set gl" for gl using had_iff stored(1) that by blast
    have k: "clean_elems (JoinPath [dir, ''cur'', maildirBase u @ '':2,'' @ ?fl]) = cur_key dir u ?fl" by (rule keys(2) [OF flags_plain])
    have s': "s' = im_put (JoinPath [dir, ''cur'', maildirBase u @ '':2,'' @ ?fl]) x (im_remove ?tmp (im_put ?tmp x s))"
      using stored(3) by (auto simp: im_rename_def im_put_def put_file_def node_at_def split: option.splits node.splits if_splits)
    have f': "isFs s' j = (if j = cur_key dir u ?fl then Some (File x) else if j = box_key dir [''tmp'', maildirBase u] then None else isFs s j)" for j
      unfolding s' using k keys(3) by (simp add: im_put_def im_remove_def put_file_def remove_file_def)
    have other: "isFs s' (cur_key dir w gl) = isFs s (cur_key dir w gl)" if "\<not> (w = u \<and> gl = ?fl)" for w gl
      using that by (auto simp: f' apart(1) cur_key_inj)
    have "covered s'" unfolding s' using cov covered_simps by blast
    moreover have "nd = File y" if "(w, y) \<in> M" "slash \<notin> set gl" "isFs s' (cur_key dir w gl) = Some nd" for w y gl nd
    proof (cases "w = u \<and> gl = ?fl")
      case True
      then show ?thesis using that f' single_valuedD [OF one _ assms(3)] by simp
    next
      case False
      then have "isFs s (cur_key dir w gl) = Some nd" using that(3) other by simp
      then show ?thesis using ok that unfolding box_ok_def by blast
    qed
    moreover have "gl = hl" if "slash \<notin> set gl" "slash \<notin> set hl" "isFs s' (cur_key dir w gl) \<noteq> None" "isFs s' (cur_key dir w hl) \<noteq> None" for w gl hl
    proof (cases "w = u")
      case True
      then show ?thesis using that none other [of w gl] other [of w hl] by metis
    next
      case False
      then have "isFs s (cur_key dir w gl) \<noteq> None" "isFs s (cur_key dir w hl) \<noteq> None" using that(3,4) other by simp_all
      then show ?thesis using ok that(1,2) unfolding box_ok_def by blast
    qed
    ultimately have "box_ok M dir s'" unfolding box_ok_def by blast
    moreover have "adds_only dir {u} (isFs s) (isFs s')"
    proof -
      have 1: "isFs s' (box_key dir [a]) = isFs s (box_key dir [a])" for a by (simp add: f' cur_key_def)
      have 2: "isFs s' (cur_key dir w gl) = isFs s (cur_key dir w gl)" if "slash \<notin> set gl" "isFs s (cur_key dir w gl) \<noteq> None" for w gl
      proof -
        have "\<not> (w = u \<and> gl = ?fl)" using none [OF that(1)] that(2) by auto
        then show ?thesis by (rule other)
      qed
      have 3: "w = u" if "isFs s' (cur_key dir w gl) \<noteq> None" "isFs s (cur_key dir w gl) = None" for w gl
        using other [of w gl] that by metis
      show ?thesis unfolding adds_only_def
        by (intro conjI allI impI) (use 2 in simp, use 3 in simp, rule 1, rule 1)
    qed
    moreover have "has_message dir u x (isFs s')" using f' flags_plain unfolding has_message_def by (intro exI [of _ ?fl]) simp
    moreover have "isFs s' (box_key dir [''cur'']) = Some Dir" by (simp add: f' cur cur_key_def)
    ultimately show ?thesis using stored(2) by simp
  qed
  then show "box_ok M dir s'" "isFs s' (box_key dir [''cur'']) = Some Dir" "adds_only dir {u} (isFs s) (isFs s')"
    "r = Inr (v, b) \<Longrightarrow> v = u \<and> has_message dir u x (isFs s')" by blast+
qed

subsection \<open>Markers\<close>

definition last_mark :: "path \<Rightarrow> fs \<Rightarrow> uid option" where
  "last_mark dir f =
    (case f (box_key dir [lastUIDFile]) of None \<Rightarrow> Some 0 | Some (File y) \<Rightarrow> ParseUint32 (TrimSpace y) | Some Dir \<Rightarrow> None)"

lemma loadLastUID_mark:
  "loadLastUID t dir v f = Inr l \<Longrightarrow> dir \<noteq> [] \<Longrightarrow> l = 0 \<or> last_mark dir f = Some l"
  using box_keys(5) [of dir]
  by (auto simp: loadLastUID_def readUintFile_def last_mark_def node_at_def split: sum.splits if_splits option.splits node.splits)

lemma digits_val_take: "digits_val (take n ds) \<le> digits_val ds"
proof -
  have m: "a \<le> foldl (\<lambda>a c. 10 * a + digit_val c) a ys" for a ys
  proof (induction ys arbitrary: a)
    case (Cons c ys)
    have "a \<le> 10 * a + digit_val c" by simp
    then show ?case using Cons [of "10 * a + digit_val c"] by simp
  qed simp
  have "digits_val ds = foldl (\<lambda>a c. 10 * a + digit_val c) (digits_val (take n ds)) (drop n ds)"
    unfolding digits_val_def by (metis append_take_drop_id foldl_append)
  then show ?thesis using m by metis
qed

lemma TrimSpace_digits: "list_all is_digit ds \<Longrightarrow> TrimSpace ds = ds"
proof -
  assume "list_all is_digit ds"
  then have "\<forall>c \<in> set ds. \<not> is_space c" using digit_bytes by (auto simp: list_all_iff)
  then have "dropWhile is_space ds = ds" "dropWhile is_space (rev ds) = rev ds"
    by (auto simp: dropWhile_eq_self_iff hd_rev)
  then show ?thesis by (simp add: TrimSpace_def trim_left_by_def trim_right_by_def)
qed

lemma written_mark: "ParseUint32 (TrimSpace (take n (FormatUint v))) = Some w \<Longrightarrow> w \<le> v"
proof -
  assume h: "ParseUint32 (TrimSpace (take n (FormatUint v))) = Some w"
  have d: "list_all is_digit (take n (FormatUint v))" using FormatUint_digits(1) by (auto simp: list_all_iff dest: in_set_takeD)
  then have w: "w = of_nat (digits_val (take n (FormatUint v)))" "int (digits_val (take n (FormatUint v))) < 2 ^ 32"
    using h by (auto simp: TrimSpace_digits ParseUint32_def split: if_splits)
  have "digits_val (take n (FormatUint v)) \<le> unat v" using digits_val_take [of n "FormatUint v"] by (simp add: FormatUint_def)
  moreover have "unat w = digits_val (take n (FormatUint v))" using w by (simp add: unat_of_nat take_bit_nat_eq_self)
  ultimately show "w \<le> v" by (simp add: word_le_nat_alt)
qed

lemma writeMarkers_step:
  assumes "writeMarkers t dir v l s = (e, s')" and ne: "dir \<noteq> []"
  shows "isFs s' (cur_key dir u fl) = isFs s (cur_key dir u fl)" and "covered s \<Longrightarrow> covered s'"
    and "last_mark dir (isFs s') = last_mark dir (isFs s) \<or> (\<forall>n. last_mark dir (isFs s') = Some n \<longrightarrow> n \<le> l)"
proof -
  have one: "(s2 = s1 \<or> (\<exists>n. s2 = im_put p (take n x) s1))" if "write_mark t p x s1 = (e1, s2)" for p x s1 e1 s2
  proof (cases "itMark t p")
    case None
    then have "s2 = s1 \<or> s2 = im_put p (take (length x) x) s1" using that by (auto simp: write_mark_def split: if_splits)
    then show ?thesis by blast
  next
    case (Some en)
    then show ?thesis using that by (auto simp: write_mark_def split: if_splits option.splits prod.splits)
  qed
  obtain e1 s1 where 1: "write_mark t (JoinPath [dir, uidValidityFile]) (FormatUint v) s = (e1, s1)" by fastforce
  have 2: "s' = s1 \<or> (\<exists>n. s' = im_put (JoinPath [dir, lastUIDFile]) (take n (FormatUint l)) s1)"
    using assms(1) 1 one by (cases e1) (auto simp: writeMarkers_def)
  note p1 = one [OF 1]
  note keys = box_keys(4,5) [OF ne]
  show "isFs s' (cur_key dir u fl) = isFs s (cur_key dir u fl)"
    using p1 2 keys by (auto simp: im_put_def put_file_def cur_key_def)
  show "covered s \<Longrightarrow> covered s'" using p1 2 covered_simps(1) by metis
  have v: "last_mark dir (isFs s1) = last_mark dir (isFs s)"
    using p1 keys by (auto simp: last_mark_def im_put_def put_file_def uidValidityFile_def lastUIDFile_def)
  show "last_mark dir (isFs s') = last_mark dir (isFs s) \<or> (\<forall>n. last_mark dir (isFs s') = Some n \<longrightarrow> n \<le> l)"
    using 2 v keys written_mark by (auto simp: last_mark_def im_put_def put_file_def)
qed

subsection \<open>All messages\<close>

lemma write_messages_step:
  assumes "write_messages env dir ms lo s = (r, s')" and "\<And>is. is \<in> set ms \<Longrightarrow> \<exists>u x. (u, x) \<in> M \<and> message_of u x is"
    and one: "single_valued M"
    and "box_ok M dir s" and "isFs s (box_key dir [''cur'']) = Some Dir" and dir: "maildir_at dir"
  shows "box_ok M dir s' \<and> adds_only dir (fst ` M) (isFs s) (isFs s')
    \<and> (\<forall>h. r = Inr h \<longrightarrow> (\<forall>hi. lo \<le> hi \<longrightarrow> (\<forall>u x. (u, x) \<in> M \<longrightarrow> u \<le> hi) \<longrightarrow> h \<le> hi)
         \<and> (\<forall>is u x. is \<in> set ms \<longrightarrow> (u, x) \<in> M \<longrightarrow> message_of u x is \<longrightarrow> has_message dir u x (isFs s')))"
  using assms(1,2,4,5)
proof (induction ms arbitrary: lo s)
  case (Cons m ms)
  let ?s = "s\<lparr>isTick := Suc (isTick s)\<rparr>"
  obtain q s1 where w: "writeMessage (env (isTick s)) dir m ?s = (q, s1)" by fastforce
  obtain u x where ux: "(u, x) \<in> M" "message_of u x m" using Cons.prems(2) [of m] by auto
  have ok: "box_ok M dir ?s" "isFs ?s (box_key dir [''cur'']) = Some Dir" using Cons.prems(3,4) by (simp_all add: box_ok_def covered_simps)
  note step = writeMessage_step [OF w _ _ one ok dir]
  note st = step [OF ux(2,1)]
  have a: "adds_only dir (fst ` M) (isFs s) (isFs s1)"
    using st(3) ux(1) unfolding adds_only_def by (auto intro!: image_eqI [of _ fst "(u, x)"])
  show ?case
  proof (cases q)
    case (Inl e)
    then show ?thesis using Cons.prems(1) w st(1) a by auto
  next
    case (Inr vb)
    obtain v b where vb: "vb = (v, b)" by fastforce
    have rest: "write_messages env dir ms (uid_max lo v) s1 = (r, s')" using Cons.prems(1) w Inr vb by simp
    have vu: "v = u" using st(4) Inr vb by blast
    have "\<And>is. is \<in> set ms \<Longrightarrow> \<exists>u x. (u, x) \<in> M \<and> message_of u x is" using Cons.prems(2) by simp
    note IH = Cons.IH [OF rest this st(1,2)]
    have "adds_only dir (fst ` M) (isFs s) (isFs s')" using adds_only_trans [OF a] IH by (metis sup.idem)
    moreover have "has_message dir w y (isFs s')" if "r = Inr h" "is \<in> set (m # ms)" "(w, y) \<in> M" "message_of w y is" for h "is" w y
    proof (cases "is \<in> set ms")
      case True
      then show ?thesis using IH that by blast
    next
      case False
      then have "message_of w y m" using that by simp
      then have "has_message dir w y (isFs s1)" using step [OF _ that(3)] Inr vb by blast
      then show ?thesis using IH has_message_kept by blast
    qed
    moreover have "h \<le> hi" if "r = Inr h" "lo \<le> hi" "\<forall>u x. (u, x) \<in> M \<longrightarrow> u \<le> hi" for h hi
    proof -
      have "uid_max lo v \<le> hi" using that(2,3) ux(1) vu by (auto simp: uid_max_def)
      then show ?thesis using IH that by blast
    qed
    ultimately show ?thesis using IH by blast
  qed
qed auto

subsection \<open>A mailbox through time\<close>

text \<open>What is kept: the UIDs in use are at most \<open>hi\<close>, and the marker promises only what is there.\<close>

definition box_inv :: "(uid \<times> string) set \<Rightarrow> uid \<Rightarrow> path \<Rightarrow> istate \<Rightarrow> bool" where
  "box_inv M hi dir s \<longleftrightarrow> box_ok M dir s \<and> single_valued M \<and> (\<forall>u x. (u, x) \<in> M \<longrightarrow> 0 < u \<and> u \<le> hi)
     \<and> (\<forall>u fl. slash \<notin> set fl \<longrightarrow> isFs s (cur_key dir u fl) \<noteq> None \<longrightarrow> u \<le> hi)
     \<and> (\<forall>n. last_mark dir (isFs s) = Some n \<longrightarrow> n \<le> hi \<and> (\<forall>u x. (u, x) \<in> M \<longrightarrow> u \<le> n \<longrightarrow> has_message dir u x (isFs s)))"

lemma box_invD:
  assumes "box_inv M hi dir s"
  shows "box_ok M dir s" and "single_valued M" and "(u, x) \<in> M \<Longrightarrow> 0 < u" and "(u, x) \<in> M \<Longrightarrow> u \<le> hi"
    and "last_mark dir (isFs s) = Some n \<Longrightarrow> n \<le> hi"
    and "last_mark dir (isFs s) = Some n \<Longrightarrow> (u, x) \<in> M \<Longrightarrow> u \<le> n \<Longrightarrow> has_message dir u x (isFs s)"
  using assms unfolding box_inv_def by blast+

text \<open>Files may come for UIDs of \<open>M\<close>; the marker stays, or all of \<open>M\<close> is there and the new marker is not above \<open>hi\<close>.\<close>

lemma box_inv_step:
  assumes inv: "box_inv M hi dir s" and ok: "box_ok M dir s'"
    and files: "\<And>u fl. slash \<notin> set fl \<Longrightarrow> isFs s (cur_key dir u fl) \<noteq> None \<Longrightarrow> isFs s' (cur_key dir u fl) = isFs s (cur_key dir u fl)"
      "\<And>u fl. slash \<notin> set fl \<Longrightarrow> isFs s' (cur_key dir u fl) \<noteq> None \<Longrightarrow> isFs s (cur_key dir u fl) = None \<Longrightarrow> u \<in> fst ` M"
    and mark: "last_mark dir (isFs s') = last_mark dir (isFs s)
      \<or> ((\<forall>n. last_mark dir (isFs s') = Some n \<longrightarrow> n \<le> hi) \<and> (\<forall>u x. (u, x) \<in> M \<longrightarrow> has_message dir u x (isFs s')))"
  shows "box_inv M hi dir s'"
proof -
  have kept: "has_message dir u x (isFs s) \<Longrightarrow> has_message dir u x (isFs s')" for u x
    unfolding has_message_def using files(1) by (metis option.distinct(1))
  have "u \<le> hi" if "slash \<notin> set fl" "isFs s' (cur_key dir u fl) \<noteq> None" for u fl
  proof (cases "isFs s (cur_key dir u fl) = None")
    case True
    then show ?thesis using files(2) [OF that] box_invD(4) [OF inv] by auto
  next
    case False
    then show ?thesis using inv that(1) unfolding box_inv_def by metis
  qed
  moreover have "n \<le> hi \<and> (\<forall>u x. (u, x) \<in> M \<longrightarrow> u \<le> n \<longrightarrow> has_message dir u x (isFs s'))" if "last_mark dir (isFs s') = Some n" for n
    using mark box_invD(5,6) [OF inv, of n] kept that by metis
  ultimately show ?thesis using ok box_invD(2-4) [OF inv] unfolding box_inv_def by simp
qed

lemma box_ok_cong:
  assumes "box_ok M dir s" and "covered s'" and "\<And>u fl. isFs s' (cur_key dir u fl) = isFs s (cur_key dir u fl)"
  shows "box_ok M dir s'"
  using assms(1,2) unfolding box_ok_def assms(3) by simp

lemma make_dirs_Cons:
  assumes "make_dirs t (q # ps) s = (e, s')"
  obtains (failed) e1 where "im_mkdir (itMkdir t q) q s = (Some e1, s')" "e = Some e1"
  | (next_dir) s1 where "im_mkdir (itMkdir t q) q s = (None, s1)" "make_dirs t ps s1 = (e, s')"
proof -
  obtain e1 s1 where m: "im_mkdir (itMkdir t q) q s = (e1, s1)" by fastforce
  show thesis
  proof (cases e1)
    case None
    then show thesis using next_dir [of s1] m assms by simp
  next
    case (Some x)
    then show thesis using failed [of x] m assms by simp
  qed
qed

lemma im_mkdir_change:
  assumes "im_mkdir fault p s = (e, s')"
  shows "isFs s' k = isFs s k \<or> (isFs s k = None \<and> isFs s' k = Some Dir \<and> prefix k (clean_elems p))"
    and "e = None \<Longrightarrow> clean_elems p \<noteq> [] \<Longrightarrow> isFs s' (clean_elems p) = Some Dir"
proof -
  obtain f where f: "MkdirAll fault p (isFs s) = (e, f)" "isFs s' = f" using assms by (auto simp: im_mkdir_def split: prod.splits)
  show "isFs s' k = isFs s k \<or> (isFs s k = None \<and> isFs s' k = Some Dir \<and> prefix k (clean_elems p))"
    using MkdirAll_change [OF f(1)] f(2) by simp
  show "e = None \<Longrightarrow> clean_elems p \<noteq> [] \<Longrightarrow> isFs s' (clean_elems p) = Some Dir"
    using MkdirAll_done [of fault p "isFs s" f] f by (simp add: node_at_def)
qed

lemma make_dirs_kept:
  "make_dirs t ps s = (e, s') \<Longrightarrow> (covered s \<longrightarrow> covered s') \<and> (isFs s' k = isFs s k \<or> (isFs s k = None \<and> (\<exists>p \<in> set ps. prefix k (clean_elems p))))"
proof (induction ps arbitrary: s)
  case (Cons q ps)
  from Cons.prems show ?case
  proof (cases rule: make_dirs_Cons)
    case (failed e1)
    then show ?thesis using im_mkdir_change(1) [OF failed(1), of k] covered_mkdir [OF failed(1)] by auto
  next
    case (next_dir s1)
    then show ?thesis using Cons.IH [OF next_dir(2)] im_mkdir_change(1) [OF next_dir(1), of k] covered_mkdir [OF next_dir(1)] by auto
  qed
qed simp

lemma im_dirs_made:
  "make_dirs t ps s = (None, s') \<Longrightarrow> p \<in> set ps \<Longrightarrow> clean_elems p \<noteq> [] \<Longrightarrow> isFs s' (clean_elems p) = Some Dir"
proof (induction ps arbitrary: s)
  case (Cons q ps)
  from Cons.prems(1) show ?case
  proof (cases rule: make_dirs_Cons)
    case (next_dir s1)
    show ?thesis
    proof (cases "p = q")
      case True
      then have "isFs s1 (clean_elems p) = Some Dir" using im_mkdir_change(2) [OF next_dir(1)] Cons.prems(3) by simp
      then show ?thesis using make_dirs_kept [OF next_dir(2), of "clean_elems p"] by simp
    next
      case False
      then show ?thesis using Cons.IH [OF next_dir(2)] Cons.prems by simp
    qed
  qed simp
qed simp

lemma ensureMaildir_step:
  assumes "ensureMaildir t dir s = (e, s')" and dir: "dir \<noteq> []"
  shows "covered s \<Longrightarrow> covered s'" and "isFs s' (cur_key dir u fl) = isFs s (cur_key dir u fl)"
    and "isFs s' (box_key dir [lastUIDFile]) = isFs s (box_key dir [lastUIDFile])"
    and "e = None \<Longrightarrow> isFs s' (box_key dir [''cur'']) = Some Dir"
proof -
  let ?ps = "map (\<lambda>sub. JoinPath [dir, sub]) [''tmp'', ''new'', ''cur'']"
  have m: "make_dirs t ?ps s = (e, s')" using assms(1) by (simp add: ensureMaildir_def)
  have c: "clean_elems (JoinPath [dir, sub]) = box_key dir [sub]" if "plain_elem sub" for sub
    using join_plain [OF that dir] by (simp add: box_key_def)
  note cs = c [OF sub_plain(1)] c [OF sub_plain(2)] c [OF sub_plain(3)]
  have out: "isFs s' k = isFs s k" if "\<not> prefix k (box_key dir [''tmp''])" "\<not> prefix k (box_key dir [''new''])" "\<not> prefix k (box_key dir [''cur''])" for k
    using make_dirs_kept [OF m, of k] that by (simp add: cs)
  show "covered s \<Longrightarrow> covered s'" using make_dirs_kept [OF m] by simp
  show "isFs s' (cur_key dir u fl) = isFs s (cur_key dir u fl)"
    by (rule out) (simp_all add: cur_key_def box_key_def)
  show "isFs s' (box_key dir [lastUIDFile]) = isFs s (box_key dir [lastUIDFile])"
    by (rule out) (simp_all add: box_key_def lastUIDFile_def)
  have "JoinPath [dir, ''cur''] \<in> set ?ps" by simp
  moreover have "clean_elems (JoinPath [dir, ''cur'']) \<noteq> []" by (simp add: cs box_key_def)
  ultimately show "e = None \<Longrightarrow> isFs s' (box_key dir [''cur'']) = Some Dir" using im_dirs_made [of t ?ps s s'] m cs(3) by metis
qed

text \<open>
  An honest connection delivers messages of the mailbox only, and all from the UID asked for on, unless it reports an error.
  It may deliver others too: a range above every UID is answered with the last message.
\<close>

definition honest :: "iturn \<Rightarrow> string \<Rightarrow> (uid \<times> string) set \<Rightarrow> bool" where
  "honest t mb M \<longleftrightarrow> (\<forall>from.
     (\<forall>is \<in> set (itFetch t mb from). \<exists>u x. (u, x) \<in> M \<and> message_of u x is)
     \<and> (itFetchErr t mb = None \<longrightarrow> from \<noteq> 0 \<longrightarrow> (\<forall>u x. (u, x) \<in> M \<longrightarrow> from \<le> u \<longrightarrow> (\<exists>is \<in> set (itFetch t mb from). message_of u x is))))"

lemma mirrorMailbox_cases:
  assumes "mirrorMailbox env mb dir s = (e, s')"
  obtains (refused) "e \<noteq> None" "s' = s\<lparr>isTick := Suc (isTick s)\<rparr>"
  | (no_maildir) d where "ensureMaildir (env (isTick s)) dir (s\<lparr>isTick := Suc (isTick s)\<rparr>) = (Some d, s')" "e \<noteq> None"
  | (fetched) v lo s1 r s2 where "loadLastUID (env (isTick s)) dir v (isFs s) = Inr lo"
      "ensureMaildir (env (isTick s)) dir (s\<lparr>isTick := Suc (isTick s)\<rparr>) = (None, s1)"
      "write_messages env dir (itFetch (env (isTick s)) mb (lo + 1)) lo s1 = (r, s2)"
      "(e \<noteq> None \<and> s' = s2) \<or> (\<exists>hi. itFetchErr (env (isTick s)) mb = None \<and> r = Inr hi \<and> writeMarkers (env (isTick s)) dir v hi s2 = (e, s'))"
proof -
  let ?t = "env (isTick s)" and ?s = "s\<lparr>isTick := Suc (isTick s)\<rparr>"
  show thesis
  proof (cases "itSelect ?t mb")
    case (Inl x)
    then show thesis using assms refused by (auto simp: mirrorMailbox_def Let_def)
  next
    case v: (Inr v)
    show thesis
    proof (cases "loadLastUID ?t dir v (isFs s)")
      case (Inl x)
      then show thesis using assms refused v by (auto simp: mirrorMailbox_def Let_def)
    next
      case lo: (Inr lo)
      obtain d s1 where m: "ensureMaildir ?t dir ?s = (d, s1)" by fastforce
      show thesis
      proof (cases d)
        case (Some x)
        then have "s' = s1" "e \<noteq> None" using assms v lo m by (auto simp: mirrorMailbox_def Let_def)
        then show thesis using no_maildir [of x] m Some by simp
      next
        case None
        obtain r s2 where w: "write_messages env dir (itFetch ?t mb (lo + 1)) lo s1 = (r, s2)" by fastforce
        have "(e \<noteq> None \<and> s' = s2) \<or> (\<exists>hi. itFetchErr ?t mb = None \<and> r = Inr hi \<and> writeMarkers ?t dir v hi s2 = (e, s'))"
          using assms v lo m None w by (auto simp: mirrorMailbox_def Let_def split: sum.splits option.splits)
        then show thesis using fetched [OF lo _ w] m None by simp
      qed
    qed
  qed
qed

lemma run_step:
  assumes run: "mirrorMailbox env mb dir s = (e, s')" and honest: "honest (env (isTick s)) mb M"
    and inv: "box_inv M hi dir s" and dir: "maildir_at dir"
  shows "box_inv M hi dir s' \<and> (e = None \<longrightarrow> (\<forall>u x. (u, x) \<in> M \<longrightarrow> has_message dir u x (isFs s')))"
  using run
proof (cases rule: mirrorMailbox_cases)
  case refused
  have "box_inv M hi dir s'"
    by (rule box_inv_step [OF inv]) (use box_invD(1) [OF inv] in \<open>simp_all add: refused box_ok_def covered_simps\<close>)
  then show ?thesis using refused(1) by auto
next
  case (no_maildir d)
  have ne: "dir \<noteq> []" using dir by (simp add: maildir_at_def)
  note st = ensureMaildir_step [OF no_maildir(1) ne]
  have "covered s'" using st(1) box_invD(1) [OF inv] by (simp add: box_ok_def covered_simps)
  then have ok: "box_ok M dir s'" by (rule box_ok_cong [OF box_invD(1) [OF inv]]) (use st(2) in simp)
  have "box_inv M hi dir s'"
    by (rule box_inv_step [OF inv ok]) (use st(2,3) in \<open>simp_all add: last_mark_def\<close>)
  then show ?thesis using no_maildir(2) by auto
next
  case (fetched v lo s1 r s2)
  have ne: "dir \<noteq> []" using dir by (simp add: maildir_at_def)
  note st = ensureMaildir_step [OF fetched(2) ne]
  have one: "single_valued M" by (rule box_invD(2) [OF inv])
  have "covered s1" using st(1) box_invD(1) [OF inv] by (simp add: box_ok_def covered_simps)
  then have ok1: "box_ok M dir s1" by (rule box_ok_cong [OF box_invD(1) [OF inv]]) (use st(2) in simp)
  have ms: "\<And>is. is \<in> set (itFetch (env (isTick s)) mb (lo + 1)) \<Longrightarrow> \<exists>u x. (u, x) \<in> M \<and> message_of u x is"
    using honest by (simp add: honest_def)
  have w: "box_ok M dir s2 \<and> adds_only dir (fst ` M) (isFs s1) (isFs s2)
    \<and> (\<forall>h. r = Inr h \<longrightarrow> (\<forall>hi. lo \<le> hi \<longrightarrow> (\<forall>u x. (u, x) \<in> M \<longrightarrow> u \<le> hi) \<longrightarrow> h \<le> hi)
         \<and> (\<forall>is u x. is \<in> set (itFetch (env (isTick s)) mb (lo + 1)) \<longrightarrow> (u, x) \<in> M \<longrightarrow> message_of u x is \<longrightarrow> has_message dir u x (isFs s2)))"
    by (rule write_messages_step [OF fetched(3) ms one ok1 _ dir]) (use st(4) in simp_all)
  have cur1: "isFs s1 (cur_key dir u fl) = isFs s (cur_key dir u fl)" for u fl using st(2) by simp
  have files: "isFs s2 (cur_key dir u fl) = isFs s (cur_key dir u fl)" if "slash \<notin> set fl" "isFs s (cur_key dir u fl) \<noteq> None" for u fl
    using w that cur1 unfolding adds_only_def by metis
  have new: "u \<in> fst ` M" if "slash \<notin> set fl" "isFs s2 (cur_key dir u fl) \<noteq> None" "isFs s (cur_key dir u fl) = None" for u fl
    using w that cur1 unfolding adds_only_def by metis
  have mark2: "last_mark dir (isFs s2) = last_mark dir (isFs s)" using w st(3) unfolding adds_only_def last_mark_def by simp
  have inv2: "box_inv M hi dir s2" by (rule box_inv_step [OF inv _ files new]) (use w mark2 in simp_all)
  from fetched(4) show ?thesis
  proof (elim disjE conjE exE)
    assume "e \<noteq> None" "s' = s2"
    then show ?thesis using inv2 by auto
  next
    fix h
    assume h: "itFetchErr (env (isTick s)) mb = None" "r = Inr h" and m: "writeMarkers (env (isTick s)) dir v h s2 = (e, s')"
    have lo: "lo = 0 \<or> last_mark dir (isFs s) = Some lo" by (rule loadLastUID_mark [OF fetched(1) ne])
    then have "lo \<le> hi" using box_invD(5) [OF inv] by auto
    then have hhi: "h \<le> hi" using w h(2) box_invD(4) [OF inv] by blast
    have all: "has_message dir u x (isFs s2)" if M: "(u, x) \<in> M" for u x
    proof (cases "u \<le> lo")
      case True
      then have "has_message dir u x (isFs s)" using lo box_invD(3) [OF inv M] box_invD(6) [OF inv _ M True] by auto
      then show ?thesis unfolding has_message_def using files by (metis option.distinct(1))
    next
      case False
      then have less: "lo < u" by simp
      then have "lo + 1 \<le> u" by (rule inc_le)
      moreover have "lo + 1 \<noteq> 0" using less max_word_wrap [of lo] by (auto simp: word_order.extremum_strict)
      ultimately have "lo + 1 \<le> u" "lo + 1 \<noteq> 0" by simp_all
      then obtain "is" where "is \<in> set (itFetch (env (isTick s)) mb (lo + 1))" "message_of u x is"
        using honest h(1) M unfolding honest_def by blast
      then show ?thesis using w h(2) M by blast
    qed
    note mk = writeMarkers_step [OF m ne]
    have all': "has_message dir u x (isFs s')" if "(u, x) \<in> M" for u x using all [OF that] mk(1) by (simp add: has_message_def)
    have "covered s'" using mk(2) box_invD(1) [OF inv2] by (simp add: box_ok_def)
    then have ok: "box_ok M dir s'" by (rule box_ok_cong [OF box_invD(1) [OF inv2]]) (rule mk(1))
    have "box_inv M hi dir s'"
    proof (rule box_inv_step [OF inv2 ok])
      show "last_mark dir (isFs s') = last_mark dir (isFs s2)
        \<or> ((\<forall>n. last_mark dir (isFs s') = Some n \<longrightarrow> n \<le> hi) \<and> (\<forall>u x. (u, x) \<in> M \<longrightarrow> has_message dir u x (isFs s')))"
        using mk(3) hhi all' by auto
    qed (use mk(1) in simp_all)
    then show ?thesis using all' by simp
  qed
qed

text \<open>The server gives each new message a UID above every one before, and messages may go; runs may fail anywhere.\<close>

inductive mail_history :: "path \<Rightarrow> string \<Rightarrow> (uid \<times> string) set \<Rightarrow> uid \<Rightarrow> istate \<Rightarrow> bool" for dir mb where
  start: "covered s \<Longrightarrow> \<forall>u fl. isFs s (cur_key dir u fl) = None \<Longrightarrow> isFs s (box_key dir [lastUIDFile]) = None \<Longrightarrow> mail_history dir mb {} 0 s"
| deliver: "mail_history dir mb M hi s \<Longrightarrow> hi < u \<Longrightarrow> mail_history dir mb (insert (u, x) M) u s"
| expunge: "mail_history dir mb M hi s \<Longrightarrow> N \<subseteq> M \<Longrightarrow> mail_history dir mb N hi s"
| run: "mail_history dir mb M hi s \<Longrightarrow> honest (env (isTick s)) mb M \<Longrightarrow> mirrorMailbox env mb dir s = (e, s') \<Longrightarrow> mail_history dir mb M hi s'"

lemma box_ok_mono: "box_ok M dir s \<Longrightarrow> N \<subseteq> M \<Longrightarrow> box_ok N dir s"
  unfolding box_ok_def by blast

lemma box_inv_deliver:
  assumes inv: "box_inv M hi dir s" and u: "hi < u"
  shows "box_inv (insert (u, x) M) u dir s"
proof -
  have M: "v \<le> hi" "0 < v" if "(v, y) \<in> M" for v y using box_invD(3,4) [OF inv that] by simp_all
  have F: "v \<le> hi" if "slash \<notin> set fl" "isFs s (cur_key dir v fl) \<noteq> None" for v fl using inv that unfolding box_inv_def by blast
  have ok: "box_ok M dir s" by (rule box_invD(1) [OF inv])
  have "nd = File y" if "(v, y) \<in> insert (u, x) M" "slash \<notin> set fl" "isFs s (cur_key dir v fl) = Some nd" for v y fl nd
  proof -
    have "v \<le> hi" using F that by simp
    then have "(v, y) \<in> M" using that(1) u by auto
    then show ?thesis using ok that(2,3) unfolding box_ok_def by blast
  qed
  then have "box_ok (insert (u, x) M) dir s" using ok unfolding box_ok_def by blast
  moreover have "single_valued (insert (u, x) M)"
  proof (rule single_valuedI)
    fix v y z
    assume "(v, y) \<in> insert (u, x) M" "(v, z) \<in> insert (u, x) M"
    then show "y = z" using M(1) u single_valuedD [OF box_invD(2) [OF inv]] by (auto simp: not_le [symmetric])
  qed
  moreover have "0 < v \<and> v \<le> u" if "(v, y) \<in> insert (u, x) M" for v y
  proof (cases "(v, y) \<in> M")
    case True
    then show ?thesis using M [OF True] u by simp
  next
    case False
    then have "v = u" using that by simp
    moreover have "0 < u" using u by (simp add: word_less_nat_alt)
    ultimately show ?thesis by simp
  qed
  moreover have "v \<le> u" if "slash \<notin> set fl" "isFs s (cur_key dir v fl) \<noteq> None" for v fl using F [OF that] u by simp
  moreover have "n \<le> u \<and> (\<forall>v y. (v, y) \<in> insert (u, x) M \<longrightarrow> v \<le> n \<longrightarrow> has_message dir v y (isFs s))" if "last_mark dir (isFs s) = Some n" for n
    using box_invD(5,6) [OF inv that] u by fastforce
  ultimately show ?thesis unfolding box_inv_def by simp
qed

lemma history_inv: "mail_history dir mb M hi s \<Longrightarrow> maildir_at dir \<Longrightarrow> box_inv M hi dir s"
proof (induction rule: mail_history.induct)
  case (start s)
  then show ?case by (simp add: box_inv_def box_ok_def last_mark_def)
next
  case (deliver M hi s u x)
  then show ?case by (simp add: box_inv_deliver)
next
  case (expunge M hi s N)
  then have "box_inv M hi dir s" by simp
  then show ?case using expunge(2) box_ok_mono unfolding box_inv_def by (meson single_valued_subset subsetD)
next
  case (run M hi s env e s')
  then show ?case using run_step by simp
qed


subsection \<open>Where an account is mirrored to\<close>

text \<open>Nothing changes but what is under \<open>d\<close>, and directories on the way to it.\<close>

definition writes_under :: "key \<Rightarrow> fs \<Rightarrow> fs \<Rightarrow> bool" where
  "writes_under d f f' \<longleftrightarrow> (\<forall>k. f' k = f k \<or> prefix d k \<or> (f k = None \<and> f' k = Some Dir \<and> prefix k d))"

lemma writes_under_refl [simp]: "writes_under d f f"
  by (simp add: writes_under_def)

lemma writes_under_trans: "writes_under d f g \<Longrightarrow> writes_under d g h \<Longrightarrow> writes_under d f h"
  unfolding writes_under_def by metis

lemma writes_under_put: "prefix d (clean_elems p) \<Longrightarrow> writes_under d (isFs s) (isFs (im_put p x s))"
  "prefix d (clean_elems p) \<Longrightarrow> writes_under d (isFs s) (isFs (im_remove p s))"
  by (auto simp: writes_under_def im_put_def im_remove_def put_file_def remove_file_def)

lemma writes_under_mkdir: "im_mkdir fault p s = (e, s') \<Longrightarrow> prefix d (clean_elems p) \<Longrightarrow> writes_under d (isFs s) (isFs s')"
  unfolding writes_under_def using im_mkdir_change(1) [of fault p s e s'] prefix_same_cases by metis

lemma writes_under_dirs:
  "make_dirs t ps s = (e, s') \<Longrightarrow> \<forall>p \<in> set ps. prefix d (clean_elems p) \<Longrightarrow> writes_under d (isFs s) (isFs s')"
proof (induction ps arbitrary: s)
  case (Cons q ps)
  from Cons.prems(1) show ?case
  proof (cases rule: make_dirs_Cons)
    case (failed e1)
    then show ?thesis using writes_under_mkdir Cons.prems(2) by simp
  next
    case (next_dir s1)
    then show ?thesis using writes_under_trans [OF writes_under_mkdir [OF next_dir(1)]] Cons.IH [OF next_dir(2)] Cons.prems(2) by simp
  qed
qed simp

lemma under_box [simp]: "prefix (clean_elems dir) (box_key dir es)" "prefix (clean_elems dir) (cur_key dir u fl)"
  by (simp_all add: box_key_def cur_key_def)

lemma writes_under_items:
  "write_items t dir is m s = (r, s') \<Longrightarrow> dir \<noteq> [] \<Longrightarrow> writes_under (clean_elems dir) (isFs s) (isFs s')"
proof (induction t dir "is" m s rule: write_items.induct)
  case (5 t dir b "is" m s)
  have body: "writes_under (clean_elems dir) (isFs s) (isFs s1)"
    if "writeLiteralToFile t l (JoinPath [dir, ''tmp'', maildirBase (msUid m)]) s = (e, s1)" for l e s1
    using that
  proof (cases rule: writeLiteral_cases)
    case failed
    then show ?thesis using writes_under_put(2) box_keys(3) [OF "5.prems"(2)] under_box(1) by (metis writes_under_refl)
  next
    case written
    then show ?thesis using writes_under_put(1) box_keys(3) [OF "5.prems"(2)] under_box(1) by metis
  qed
  show ?case
  proof (cases "msUid m = 0 \<or> msHave m \<or> b = None")
    case True
    then show ?thesis using 5 by (auto split: if_splits)
  next
    case False
    then obtain l where l: "b = Some l" by blast
    obtain e s1 where w: "writeLiteralToFile t l (JoinPath [dir, ''tmp'', maildirBase (msUid m)]) s = (e, s1)" by fastforce
    show ?thesis
    proof (cases e)
      case None
      then have "write_items t dir is (m\<lparr>msBody := True\<rparr>) s1 = (r, s')" using "5.prems"(1) False l w by simp
      then have "writes_under (clean_elems dir) (isFs s1) (isFs s')" using "5.IH"(2) False l w None "5.prems"(2) by auto
      then show ?thesis using writes_under_trans body [OF w] by blast
    next
      case (Some x)
      then show ?thesis using "5.prems"(1) False l w body [OF w] by simp
    qed
  qed
qed auto

lemma writes_under_rename:
  "im_rename t p q s = (e, s') \<Longrightarrow> prefix d (clean_elems p) \<Longrightarrow> prefix d (clean_elems q) \<Longrightarrow> writes_under d (isFs s) (isFs s')"
  by (auto simp: im_rename_def im_put_def im_remove_def put_file_def remove_file_def writes_under_def split: option.splits node.splits if_splits)

lemma writes_under_message:
  assumes "writeMessage t dir is s = (r, s')" and dir: "dir \<noteq> []"
  shows "writes_under (clean_elems dir) (isFs s) (isFs s')"
proof -
  obtain q s1 where w: "write_items t dir is no_message s = (q, s1)" by fastforce
  note u1 = writes_under_items [OF w dir]
  show ?thesis
  proof (cases q)
    case (Inl x)
    then show ?thesis using assms(1) w u1 by (simp add: writeMessage_def)
  next
    case (Inr m)
    show ?thesis
    proof (cases "msHave m \<or> \<not> msBody m")
      case True
      then show ?thesis using assms(1) w u1 Inr by (auto simp: writeMessage_def split: if_splits)
    next
      case False
      obtain e s2 where rn: "im_rename t (JoinPath [dir, ''tmp'', maildirBase (msUid m)])
          (JoinPath [dir, ''cur'', maildirBase (msUid m) @ '':2,'' @ maildirFlagString (msFlags m)]) s1 = (e, s2)" by fastforce
      then have "s' = s2" using assms(1) w Inr False by (cases e) (simp_all add: writeMessage_def)
      moreover have "writes_under (clean_elems dir) (isFs s1) (isFs s2)"
        by (rule writes_under_rename [OF rn]) (use box_keys(2,3) [OF dir] flags_plain in simp_all)
      ultimately show ?thesis using writes_under_trans [OF u1] by simp
    qed
  qed
qed

lemma writes_under_messages:
  "write_messages env dir ms lo s = (r, s') \<Longrightarrow> dir \<noteq> [] \<Longrightarrow> writes_under (clean_elems dir) (isFs s) (isFs s')"
proof (induction ms arbitrary: lo s)
  case (Cons m ms)
  obtain q s1 where w: "writeMessage (env (isTick s)) dir m (s\<lparr>isTick := Suc (isTick s)\<rparr>) = (q, s1)" by fastforce
  have u: "writes_under (clean_elems dir) (isFs s) (isFs s1)" using writes_under_message [OF w Cons.prems(2)] by simp
  show ?case
  proof (cases q)
    case (Inl x)
    then show ?thesis using Cons.prems(1) w u by simp
  next
    case (Inr vb)
    then have "write_messages env dir ms (uid_max lo (fst vb)) s1 = (r, s')" using Cons.prems(1) w by (cases vb) simp
    then show ?thesis using writes_under_trans [OF u] Cons.IH Cons.prems(2) by blast
  qed
qed simp

lemma writes_under_markers:
  assumes "writeMarkers t dir v l s = (e, s')" and dir: "dir \<noteq> []"
  shows "writes_under (clean_elems dir) (isFs s) (isFs s')"
proof -
  have one: "writes_under (clean_elems dir) (isFs s1) (isFs s2)"
    if "write_mark t (JoinPath [dir, f]) x s1 = (e1, s2)" "plain_elem f" for f x s1 e1 s2
  proof -
    have "prefix (clean_elems dir) (clean_elems (JoinPath [dir, f]))" using join_plain [OF that(2) dir] by simp
    then show ?thesis using that(1) writes_under_put(1) by (auto simp: write_mark_def split: if_splits option.splits prod.splits)
  qed
  obtain e1 s1 where 1: "write_mark t (JoinPath [dir, uidValidityFile]) (FormatUint v) s = (e1, s1)" by fastforce
  note u1 = one [OF 1 sub_plain(4)]
  show ?thesis
  proof (cases e1)
    case None
    then have "write_mark t (JoinPath [dir, lastUIDFile]) (FormatUint l) s1 = (e, s')" using assms(1) 1 by (simp add: writeMarkers_def)
    then show ?thesis using writes_under_trans [OF u1] one [OF _ sub_plain(5)] by blast
  next
    case (Some x)
    then show ?thesis using assms(1) 1 u1 by (simp add: writeMarkers_def)
  qed
qed

lemma writes_under_mailbox:
  assumes "mirrorMailbox env mb dir s = (e, s')" and dir: "dir \<noteq> []"
  shows "writes_under (clean_elems dir) (isFs s) (isFs s')"
proof -
  have maildir: "writes_under (clean_elems dir) (isFs s) (isFs s1)"
    if "ensureMaildir t dir (s\<lparr>isTick := Suc (isTick s)\<rparr>) = (e1, s1)" for t e1 s1
  proof -
    have "\<forall>p \<in> set (map (\<lambda>sub. JoinPath [dir, sub]) [''tmp'', ''new'', ''cur'']). prefix (clean_elems dir) (clean_elems p)"
      using join_plain [OF _ dir] sub_plain by simp
    then show ?thesis using writes_under_dirs that unfolding ensureMaildir_def by fastforce
  qed
  from assms(1) show ?thesis
  proof (cases rule: mirrorMailbox_cases)
    case (fetched v lo s1 r s2)
    have "writes_under (clean_elems dir) (isFs s) (isFs s2)"
      by (rule writes_under_trans [OF maildir [OF fetched(2)] writes_under_messages [OF fetched(3) dir]])
    then show ?thesis using fetched(4) writes_under_trans writes_under_markers [OF _ dir] by blast
  qed (use maildir in auto)
qed

lemma join_segments_under:
  "join_segments name d xs = Inr dir \<Longrightarrow> d \<noteq> [] \<Longrightarrow> \<forall>x \<in> set xs. slash \<notin> set x \<Longrightarrow> dir \<noteq> [] \<and> clean_elems dir = clean_elems d @ xs"
proof (induction xs arbitrary: d)
  case (Cons x xs)
  have x: "plain_elem x" "join_segments name (JoinPath [d, x]) xs = Inr dir" using Cons.prems by (auto simp: plain_elem_def split: if_splits)
  have "JoinPath [d, x] \<noteq> []" using Cons.prems(2) x(1) by (simp add: JoinPath_two plain_elem_def)
  then show ?case using Cons.IH [OF x(2)] join_plain [OF x(1) Cons.prems(2)] Cons.prems(3) by simp
qed simp

text \<open>A folder whose segments hold no slash, split as its server splits them.\<close>

definition folder_ok :: "mailbox \<Rightarrow> bool" where
  "folder_ok mb \<longleftrightarrow> (\<forall>x \<in> set (case mbDelim mb of None \<Rightarrow> [mbName mb] | Some c \<Rightarrow> Split (mbName mb) c). slash \<notin> set x)"

lemma writes_under_folders:
  "mirror_folders env d mbs n s = (m, s') \<Longrightarrow> d \<noteq> [] \<Longrightarrow> \<forall>mb \<in> set mbs. folder_ok mb \<Longrightarrow> writes_under (clean_elems d) (isFs s) (isFs s')"
proof (induction mbs arbitrary: n s)
  case (Cons mb mbs)
  obtain good failed where n: "n = (good, failed)" by fastforce
  have next_one: "writes_under (clean_elems d) (isFs s) (isFs s')" if "mirror_folders env d mbs n1 s1 = (m, s')"
    "writes_under (clean_elems d) (isFs s) (isFs s1)" for n1 s1
    using writes_under_trans [OF that(2)] Cons.IH [OF that(1)] Cons.prems(2,3) by simp
  show ?case
  proof (cases "AttrNoSelect \<in> set (mbAttrs mb)")
    case True
    then show ?thesis using next_one Cons.prems(1) n by simp
  next
    case False
    show ?thesis
    proof (cases "mailboxDir d (mbName mb) (mbDelim mb)")
      case (Inl x)
      then show ?thesis using next_one Cons.prems(1) n False by simp
    next
      case (Inr dir)
      have "dir \<noteq> [] \<and> (\<exists>xs. clean_elems dir = clean_elems d @ xs)"
        using join_segments_under [OF _ Cons.prems(2)] Inr Cons.prems(3) unfolding mailboxDir_def folder_ok_def by fastforce
      then obtain xs where dir: "dir \<noteq> []" "clean_elems dir = clean_elems d @ xs" by blast
      then have pre: "prefix (clean_elems d) (clean_elems dir)" by simp
      have up: "writes_under (clean_elems d) f g" if "writes_under (clean_elems dir) f g" for f g
        unfolding writes_under_def using that dir(2) prefix_same_cases [OF _ pre] unfolding writes_under_def by (metis append_prefixD)
      obtain e1 s1 where mk: "im_mkdir (itMkdir (env (isTick s)) dir) dir s = (e1, s1)" by fastforce
      note u1 = writes_under_mkdir [OF mk pre]
      show ?thesis
      proof (cases e1)
        case (Some x)
        then show ?thesis using next_one [OF _ u1] Cons.prems(1) n False Inr mk by simp
      next
        case None
        obtain e2 s2 where mm: "mirrorMailbox env (mbName mb) dir s1 = (e2, s2)" by fastforce
        have u2: "writes_under (clean_elems d) (isFs s) (isFs s2)"
          by (rule writes_under_trans [OF u1 up [OF writes_under_mailbox [OF mm dir(1)]]])
        show ?thesis by (cases e2) (use next_one [OF _ u2] Cons.prems(1) n False Inr mk None mm in simp_all)
      qed
    qed
  qed
qed simp

text \<open>C40: A mirror of a whole account, whatever messages the server sends, writes under its destination only, as long as no
  part of a folder's name, split at the server's own delimiter, holds a slash.\<close>

theorem imap_writes:
  assumes "imap_Mirror env source d [] s = (e, s')" and "d \<noteq> []"
    and "\<And>mbs. itList (env (isTick s)) = Inr mbs \<Longrightarrow> \<forall>mb \<in> set mbs. folder_ok mb"
  shows "writes_under (clean_elems d) (isFs s) (isFs s')"
proof (cases "itList (env (isTick s))")
  case (Inl x)
  then show ?thesis using assms(1) by (auto simp: imap_Mirror_def mirrorAllMailboxes_def Let_def split: if_splits)
next
  case (Inr mbs)
  obtain n s1 where m: "mirror_folders env d mbs (0, 0) s = (n, s1)" by fastforce
  have "writes_under (clean_elems d) (isFs s) (isFs s1)" by (rule writes_under_folders [OF m assms(2) assms(3) [OF Inr]])
  then show ?thesis using assms(1) Inr m by (auto simp: imap_Mirror_def mirrorAllMailboxes_def Let_def split: if_splits prod.splits)
qed

end
