(* ===== verification/ImapSite.thy ===== *)
theory ImapSite
  imports ImapProps
begin

text \<open>Small mailboxes: one on which the theorems are put to use, and those on which a mirror goes wrong.\<close>

definition mail :: "imap_flag list \<Rightarrow> uid \<times> string \<Rightarrow> fetch_item list" where
  "mail fl m = [ItemUID (fst m), ItemBody (Some \<lparr>liData = snd m, liErr = None\<rparr>), ItemFlags fl]"

definition mail_turn :: "32 word \<Rightarrow> imap_flag list \<Rightarrow> (uid \<times> string) list \<Rightarrow> iturn" where
  "mail_turn v fl ms = \<lparr>itDial = (\<lambda>_. None), itLogin = None, itList = Inr [], itSelect = (\<lambda>_. Inr v),
     itFetch = (\<lambda>_ from. map (mail fl) (filter (\<lambda>m. from \<le> fst m) ms)), itFetchErr = (\<lambda>_. None), itMkdir = (\<lambda>_. None), itRead = (\<lambda>_. None),
     itMark = (\<lambda>_. None), itCreate = None, itWrite = None, itClose = None, itRename = None\<rparr>"

definition mail_start :: istate where
  "mail_start = \<lparr>isFs = Map.empty, isNames = [], isTick = 0\<rparr>"

lemma mail_message: "fst m \<noteq> 0 \<Longrightarrow> message_of (fst m) (snd m) (mail fl m)"
  unfolding message_of_def
  by (intro conjI exI [of _ "[]"], simp, simp, simp, rule disjI2)
    (auto simp: mail_def neutral_def intro!: exI [of _ "[ItemFlags fl]"])

lemma mail_honest:
  assumes "\<forall>m \<in> set ms. fst m \<noteq> 0"
  shows "honest (mail_turn v fl ms) mb (set ms)"
    and "honest ((mail_turn v fl ms)\<lparr>itFetchErr := (\<lambda>_. Some e)\<rparr>) mb (set ms)"
  using assms mail_message [of _ fl] unfolding honest_def mail_turn_def by fastforce+

subsection \<open>A mailbox\<close>

text \<open>The first mirror breaks after its message; the second one finishes.\<close>

definition first_env :: iturns where
  "first_env _ = (mail_turn 9 [] [(1, ''one'')])\<lparr>itFetchErr := (\<lambda>_. Some ''broken'')\<rparr>"

definition second_env :: iturns where
  "second_env _ = mail_turn 9 [FlagSeen] [(1, ''one''), (4, ''four'')]"

abbreviation first_run :: "string option \<times> istate" where
  "first_run \<equiv> mirrorMailbox first_env ''INBOX'' ''/m'' mail_start"

abbreviation second_run :: "string option \<times> istate" where
  "second_run \<equiv> mirrorMailbox second_env ''INBOX'' ''/m'' (snd first_run)"

lemma runs_end: "fst first_run = Some ''fetch: broken''" "fst second_run = None"
  by code_simp+

lemma second_history: "mail_history ''/m'' ''INBOX'' {(4, ''four''), (1, ''one'')} 4 (snd first_run)"
proof -
  have "mail_history ''/m'' ''INBOX'' {} 0 mail_start" by (rule start) (simp_all add: mail_start_def covered_def)
  then have "mail_history ''/m'' ''INBOX'' {(1, ''one'')} 1 mail_start" by (rule deliver) simp
  moreover have "honest (first_env (isTick mail_start)) ''INBOX'' {(1, ''one'')}"
    using mail_honest(2) [of "[(1, ''one'')]"] by (simp add: first_env_def)
  moreover have "mirrorMailbox first_env ''INBOX'' ''/m'' mail_start = (fst first_run, snd first_run)" by simp
  ultimately have "mail_history ''/m'' ''INBOX'' {(1, ''one'')} 1 (snd first_run)" by (rule run)
  then show ?thesis by (rule deliver) simp
qed

lemma m_maildir: "maildir_at ''/m''"
  unfolding maildir_at_def by code_simp


definition account_env :: iturns where
  "account_env _ = (mail_turn 9 [] [(1, ''one'')])\<lparr>itList := Inr [\<lparr>mbName = ''A.b'', mbDelim = Some (CHR ''.''), mbAttrs = []\<rparr>]\<rparr>"

theorem imap_writes_witness:
  "case imap_Mirror account_env ''h'' ''/m'' [] mail_start of (e, s) \<Rightarrow> e = None
     \<and> isFs s [''m'', ''A'', ''b'', ''cur'', ''1.mirrortools:2,''] = Some (File ''one'') \<and> writes_under [''m''] Map.empty (isFs s)"
proof -
  have 1: "case imap_Mirror account_env ''h'' ''/m'' [] mail_start of (e, s) \<Rightarrow> e = None
     \<and> isFs s [''m'', ''A'', ''b'', ''cur'', ''1.mirrortools:2,''] = Some (File ''one'')" by code_simp
  obtain e s where r: "imap_Mirror account_env ''h'' ''/m'' [] mail_start = (e, s)" by fastforce
  have 2: "clean_elems ''/m'' = [''m'']" by code_simp
  have 3: "folder_ok \<lparr>mbName = ''A.b'', mbDelim = Some (CHR ''.''), mbAttrs = []\<rparr>" by code_simp
  have "writes_under (clean_elems ''/m'') (isFs mail_start) (isFs s)"
    by (rule imap_writes [OF r]) (use 3 in \<open>auto simp: account_env_def\<close>)
  then show ?thesis using 1 r 2 by (simp add: mail_start_def)
qed

subsection \<open>Where it goes wrong\<close>

text \<open>A server that renumbers a mailbox, and says so, gives a new message the UID of an old one: the mirror that follows
  reports no error, takes the new message for the old one, and no later mirror asks for it again.\<close>

definition renumbered_env :: iturns where
  "renumbered_env _ = mail_turn 10 [] [(1, ''new'')]"

theorem imap_renumbered_lost:
  "case mirrorMailbox (\<lambda>_. mail_turn 9 [] [(1, ''old'')]) ''INBOX'' ''/m'' mail_start of (e1, s1) \<Rightarrow>
     (case mirrorMailbox renumbered_env ''INBOX'' ''/m'' s1 of (e2, s2) \<Rightarrow>
        e1 = None \<and> e2 = None \<and> map (isFs s2) [[''m'', ''cur'', ''1.mirrortools:2,''], [''m'', ''.uidvalidity''], [''m'', ''.last-uid'']]
          = [Some (File ''old''), Some (File ''10''), Some (File ''1'')])"
  by code_simp

text \<open>The first marker of a renumbered mailbox is written, the second one is not: the old last UID now counts for the new
  numbers, and the messages below it are never asked for.\<close>

definition half_env :: iturns where
  "half_env _ = (mail_turn 10 [] [(1, ''a'')])\<lparr>itFetch := (\<lambda>_ _. []), itFetchErr := (\<lambda>_. None),
     itMark := (\<lambda>p. if p = ''/m/.last-uid'' then Some (''no space left on device'', None) else None)\<rparr>"

theorem imap_stale_mark:
  "case mirrorMailbox (\<lambda>_. mail_turn 9 [] [(7, ''old'')]) ''INBOX'' ''/m'' mail_start of (e1, s1) \<Rightarrow>
     (case mirrorMailbox half_env ''INBOX'' ''/m'' s1 of (e2, s2) \<Rightarrow>
        (case mirrorMailbox (\<lambda>_. mail_turn 10 [] [(1, ''a''), (2, ''b'')]) ''INBOX'' ''/m'' s2 of (e3, s3) \<Rightarrow>
           e1 = None \<and> e2 \<noteq> None \<and> e3 = None \<and> map (isFs s3) [[''m'', ''cur'', ''1.mirrortools:2,''], [''m'', ''cur'', ''2.mirrortools:2,''], [''m'', ''.last-uid'']]
             = [None, None, Some (File ''7'')]))"
  by code_simp

text \<open>Writing the second marker cuts the file before it fails: every later mirror of the mailbox fails.\<close>

definition full_env :: iturns where
  "full_env _ = (mail_turn 9 [] [(1, ''a'')])\<lparr>itMark := (\<lambda>p. if p = ''/m/.last-uid'' then Some (''no space left on device'', Some 0) else None)\<rparr>"

theorem imap_empty_mark_blocks:
  "case mirrorMailbox full_env ''INBOX'' ''/m'' mail_start of (e1, s1) \<Rightarrow>
     (case mirrorMailbox (\<lambda>_. mail_turn 9 [] [(1, ''a''), (2, ''b'')]) ''INBOX'' ''/m'' s1 of (e2, s2) \<Rightarrow>
        e1 \<noteq> None \<and> e2 = Some ''parsing /m/.last-uid'' \<and> isFs s2 [''m'', ''cur'', ''2.mirrortools:2,''] = None)"
  by code_simp

text \<open>A folder name of a server without a delimiter, or with another one than the slash, may leave the destination.\<close>

definition escape_env :: iturns where
  "escape_env _ = (mail_turn 9 [] [(1, ''evil'')])\<lparr>itList := Inr [\<lparr>mbName = ''../../x'', mbDelim = Some (CHR 0x5C), mbAttrs = []\<rparr>,
     \<lparr>mbName = ''../../y'', mbDelim = None, mbAttrs = []\<rparr>]\<rparr>"

theorem imap_folder_escapes:
  "case imap_Mirror escape_env ''h'' ''/a/b/m'' [] mail_start of (e, s) \<Rightarrow> e = None
     \<and> isFs s [''a'', ''y'', ''cur'', ''1.mirrortools:2,''] = Some (File ''evil'') \<and> isFs s [''a'', ''x'', ''cur'', ''1.mirrortools:2,''] = Some (File ''evil'')"
  by code_simp

text \<open>In a folder whose name has brackets no message is ever found: a mirror after a broken one, or after a renumbering,
  stores messages again, under other flags.\<close>

theorem imap_brackets_twice:
  "case mirrorMailbox first_env ''[x]'' ''/m/[x]'' mail_start of (e1, s1) \<Rightarrow>
     (case mirrorMailbox second_env ''[x]'' ''/m/[x]'' s1 of (e2, s2) \<Rightarrow> e2 = None
        \<and> map (isFs s2) [[''m'', ''[x]'', ''cur'', ''1.mirrortools:2,''], [''m'', ''[x]'', ''cur'', ''1.mirrortools:2,S'']] = [Some (File ''one''), Some (File ''one'')])"
  by code_simp

end
