(* ===== verification/Spec2Isabelle.thy ===== *)
theory Spec2Isabelle
  imports Git Rsync Cli Gate ServerOps GopherProps QueueCmdProps MirrordProps HttpSite FtpSite ArchiveSite SourceForgeSite ImapSite
begin

text \<open>
  A verification development for \<open>mirrortools\<close>, a set of Go programs that mirror remote sources
  (Git, rsync, HTTP, FTP, Gopher, mailing lists and more) and a daemon, \<open>mirrord\<close>, that runs mirror
  jobs from a persistent queue.
\<close>

end
